(* ===== verification/Prelude.thy ===== *)
theory Prelude
  imports Main "HOL-Library.Word" "HOL-Library.Char_ord" "HOL-Library.List_Lexorder"
begin

text \<open>
  The prelude of the development: machine integers, the outcome of a Rust computation (a value,
  an error, or a panic), checked arithmetic on \<open>usize\<close>, slices, and the string routines of the
  standard library that several components share.

  Conventions.  A \<open>u8\<close>, \<open>u16\<close>, \<open>u32\<close>, \<open>u64\<close> or \<open>i32\<close> of the source is a machine word.  A \<open>usize\<close>
  is a natural number; every checked operation on it has the bound \<open>2 ^ 64\<close> of a 64-bit target
  written out.  A \<open>String\<close> is the list of its UTF-8 bytes, as Rust stores it.
\<close>

section \<open>Machine integers\<close>

type_synonym u8 = "8 word"
type_synonym u16 = "16 word"
type_synonym u32 = "32 word"
type_synonym u64 = "64 word"
type_synonym i32 = "32 word"
type_synonym i64 = "64 word"
type_synonym usize = nat

definition usize_bound :: nat where
  "usize_bound = 18446744073709551616"

definition checked_add :: "usize \<Rightarrow> usize \<Rightarrow> usize option" where
  "checked_add a b = (if a + b < usize_bound then Some (a + b) else None)"

definition checked_mul :: "usize \<Rightarrow> usize \<Rightarrow> usize option" where
  "checked_mul a b = (if a * b < usize_bound then Some (a * b) else None)"

definition checked_sub :: "usize \<Rightarrow> usize \<Rightarrow> usize option" where
  "checked_sub a b = (if b \<le> a then Some (a - b) else None)"

definition saturating_mul :: "usize \<Rightarrow> usize \<Rightarrow> usize" where
  "saturating_mul a b = min (a * b) (usize_bound - 1)"

definition div_ceil :: "usize \<Rightarrow> usize \<Rightarrow> usize" where
  "div_ceil a b = a div b + (if a mod b = 0 then 0 else 1)"

named_theorems checked_simps
named_theorems result_simps

lemma checked_add_eq_Some [checked_simps]:
  "checked_add a b = Some c \<longleftrightarrow> c = a + b \<and> a + b < usize_bound"
  by (auto simp: checked_add_def)

lemma checked_mul_eq_Some [checked_simps]:
  "checked_mul a b = Some c \<longleftrightarrow> c = a * b \<and> a * b < usize_bound"
  by (auto simp: checked_mul_def)

lemma checked_sub_eq_Some [checked_simps]:
  "checked_sub a b = Some c \<longleftrightarrow> b \<le> a \<and> c = a - b"
  by (auto simp: checked_sub_def)

lemma checked_add_eq_None [checked_simps]:
  "checked_add a b = None \<longleftrightarrow> usize_bound \<le> a + b"
  by (auto simp: checked_add_def)

lemma checked_mul_eq_None [checked_simps]:
  "checked_mul a b = None \<longleftrightarrow> usize_bound \<le> a * b"
  by (auto simp: checked_mul_def)

lemma checked_sub_eq_None [checked_simps]:
  "checked_sub a b = None \<longleftrightarrow> a < b"
  by (auto simp: checked_sub_def)

lemma div_ceil_two: "div_ceil n 2 = (n + 1) div 2"
  unfolding div_ceil_def by presburger

lemma half_less_div_ceil: "x < n \<Longrightarrow> x div 2 < div_ceil n 2"
  unfolding div_ceil_two by presburger

lemma div_ceil_two_pos: "0 < n \<Longrightarrow> 0 < div_ceil n 2"
  unfolding div_ceil_two by presburger

lemma unat_u32_bound [simp]: "unat (w :: u32) < 4294967296"
  using unsigned_less [of w, where 'a = nat] by simp

lemma unat_u64_bound [simp]: "unat (w :: u64) < 18446744073709551616"
  using unsigned_less [of w, where 'a = nat] by simp

lemma unat_u32_mult_bound: "unat (a :: u32) * unat (b :: u32) < usize_bound"
proof -
  have "unat a * unat b \<le> 4294967295 * 4294967295"
    using unat_u32_bound [of a] unat_u32_bound [of b] by (intro mult_mono) linarith+
  then show ?thesis by (simp add: usize_bound_def)
qed

lemma unat_ucast_u64 [simp]: "unat (ucast (a :: u32) :: u64) = unat a"
proof -
  have "unat a < 2 ^ 64"
    using order_less_trans [OF unat_u32_bound [of a], of "2 ^ 64"] by simp
  then show ?thesis
    by (simp add: unsigned_ucast_eq take_bit_nat_eq_self)
qed

text \<open>The product of two \<open>u32\<close> values widened to \<open>u64\<close> never wraps.\<close>

lemma unat_widened_mult:
  "unat (ucast (a :: u32) * ucast (b :: u32) :: u64) = unat a * unat b"
proof -
  have "unat (ucast a * ucast b :: u64) = (unat a * unat b) mod 2 ^ 64"
    by (simp add: unat_word_ariths)
  then show ?thesis
    using unat_u32_mult_bound [of a b] by (simp add: usize_bound_def)
qed

section \<open>The outcome of a computation\<close>

text \<open>
  \<open>Result<T, E>\<close> of the source, with one more constructor: a call that panics (an index out of
  range, an \<open>unwrap\<close> of \<open>None\<close>, an \<open>unreachable!\<close>) is the value \<open>Panic\<close>.
\<close>

datatype ('a, 'e) result = Ok 'a | Err 'e | Panic

fun and_then :: "('a, 'e) result \<Rightarrow> ('a \<Rightarrow> ('b, 'e) result) \<Rightarrow> ('b, 'e) result" where
  "and_then (Ok x) f = f x"
| "and_then (Err e) f = Err e"
| "and_then Panic f = Panic"

definition ok_or :: "'a option \<Rightarrow> 'e \<Rightarrow> ('a, 'e) result" where
  "ok_or v e = (case v of None \<Rightarrow> Err e | Some x \<Rightarrow> Ok x)"

definition unwrap :: "'a option \<Rightarrow> ('a, 'e) result" where
  "unwrap v = (case v of None \<Rightarrow> Panic | Some x \<Rightarrow> Ok x)"

fun is_ok :: "('a, 'e) result \<Rightarrow> bool" where
  "is_ok (Ok x) \<longleftrightarrow> True"
| "is_ok _ \<longleftrightarrow> False"

fun ok :: "('a, 'e) result \<Rightarrow> 'a option" where
  "ok (Ok x) = Some x"
| "ok _ = None"

text \<open>\<open>iter.map(f).collect::<Result<Vec<_>, _>>()\<close>: stops at the first error.\<close>

fun collect_results :: "('a \<Rightarrow> ('b, 'e) result) \<Rightarrow> 'a list \<Rightarrow> ('b list, 'e) result" where
  "collect_results f [] = Ok []"
| "collect_results f (x # xs) =
     and_then (f x) (\<lambda>y. and_then (collect_results f xs) (\<lambda>ys. Ok (y # ys)))"

lemma and_then_eq_Ok [result_simps]:
  "and_then m f = Ok y \<longleftrightarrow> (\<exists>x. m = Ok x \<and> f x = Ok y)"
  by (cases m) auto

lemma and_then_eq_Err [result_simps]:
  "and_then m f = Err e \<longleftrightarrow> m = Err e \<or> (\<exists>x. m = Ok x \<and> f x = Err e)"
  by (cases m) auto

lemma and_then_eq_Panic [result_simps]:
  "and_then m f = Panic \<longleftrightarrow> m = Panic \<or> (\<exists>x. m = Ok x \<and> f x = Panic)"
  by (cases m) auto

lemma ok_or_eq_Ok [result_simps]: "ok_or v e = Ok x \<longleftrightarrow> v = Some x"
  by (cases v) (auto simp: ok_or_def)

lemma ok_or_eq_Err [result_simps]: "ok_or v e = Err d \<longleftrightarrow> v = None \<and> d = e"
  by (cases v) (auto simp: ok_or_def)

lemma ok_or_not_Panic [result_simps]: "ok_or v e \<noteq> Panic"
  by (cases v) (auto simp: ok_or_def)

lemma unwrap_eq_Ok [result_simps]: "unwrap v = Ok x \<longleftrightarrow> v = Some x"
  by (cases v) (auto simp: unwrap_def)

lemma is_ok_iff [result_simps]: "is_ok m \<longleftrightarrow> (\<exists>x. m = Ok x)"
  by (cases m) auto

lemma ok_eq_Some [result_simps]: "ok m = Some x \<longleftrightarrow> m = Ok x"
  by (cases m) auto

lemma collect_results_eq_Ok:
  "collect_results f xs = Ok ys \<longleftrightarrow> list_all2 (\<lambda>x y. f x = Ok y) xs ys"
  by (induction xs arbitrary: ys) (auto simp: result_simps list_all2_Cons1)

lemma collect_results_Ok_map:
  assumes "\<And>x. x \<in> set xs \<Longrightarrow> f x = Ok (g x)"
  shows "collect_results f xs = Ok (map g xs)"
  using assms by (induction xs) auto

lemma collect_results_is_ok:
  "is_ok (collect_results f xs) \<longleftrightarrow> (\<forall>x \<in> set xs. is_ok (f x))"
  by (induction xs) (auto simp: result_simps)

lemma collect_results_not_Panic:
  assumes "\<And>x. x \<in> set xs \<Longrightarrow> f x \<noteq> Panic"
  shows "collect_results f xs \<noteq> Panic"
  using assms by (induction xs) (auto simp: result_simps)

section \<open>Slices and vectors\<close>

text \<open>
  \<open>xs.get(a..b)\<close> is \<open>slice_get\<close>; the indexing form \<open>&xs[a..b]\<close>, which panics out of range, is
  \<open>slice_at\<close>; a single element \<open>xs[i]\<close> is \<open>index_at\<close>.
\<close>

definition slice_get :: "'a list \<Rightarrow> usize \<Rightarrow> usize \<Rightarrow> 'a list option" where
  "slice_get xs a b = (if a \<le> b \<and> b \<le> length xs then Some (take (b - a) (drop a xs)) else None)"

definition slice_at :: "'a list \<Rightarrow> usize \<Rightarrow> usize \<Rightarrow> ('a list, 'e) result" where
  "slice_at xs a b = unwrap (slice_get xs a b)"

definition index_at :: "'a list \<Rightarrow> usize \<Rightarrow> ('a, 'e) result" where
  "index_at xs i = (if i < length xs then Ok (xs ! i) else Panic)"

lemma slice_get_eq_Some:
  "slice_get xs a b = Some ys \<longleftrightarrow> a \<le> b \<and> b \<le> length xs \<and> ys = take (b - a) (drop a xs)"
  by (auto simp: slice_get_def)

lemma length_slice_get: "slice_get xs a b = Some ys \<Longrightarrow> length ys = b - a"
  by (auto simp: slice_get_eq_Some)

lemma nth_slice_get: "slice_get xs a b = Some ys \<Longrightarrow> i < b - a \<Longrightarrow> ys ! i = xs ! (a + i)"
  by (auto simp: slice_get_eq_Some)

lemma index_at_eq_Ok [result_simps]: "index_at xs i = Ok x \<longleftrightarrow> i < length xs \<and> x = xs ! i"
  by (auto simp: index_at_def)

text \<open>\<open>iter.position(p)\<close>.\<close>

fun position :: "('a \<Rightarrow> bool) \<Rightarrow> 'a list \<Rightarrow> usize option" where
  "position p [] = None"
| "position p (x # xs) = (if p x then Some 0 else map_option Suc (position p xs))"

lemma position_eq_Some:
  "position p xs = Some i \<longleftrightarrow> i < length xs \<and> p (xs ! i) \<and> (\<forall>j < i. \<not> p (xs ! j))"
proof (induction xs arbitrary: i)
  case Nil
  then show ?case by simp
next
  case (Cons x xs)
  show ?case
  proof (cases "p x")
    case True
    then show ?thesis by (auto simp: nth_Cons split: nat.splits)
  next
    case False
    then show ?thesis
      by (cases i) (auto simp: Cons.IH less_Suc_eq_0_disj)
  qed
qed

lemma position_eq_None: "position p xs = None \<longleftrightarrow> (\<forall>x \<in> set xs. \<not> p x)"
  by (induction xs) auto

section \<open>Sorting and removing neighbours\<close>

text \<open>\<open>sort_by_key\<close> followed by \<open>dedup\<close> removes every duplicate when the key is injective.\<close>

lemma distinct_remdups_adj_sorted:
  assumes "sorted (map f ys)" "inj_on f (set ys)"
  shows "distinct (remdups_adj ys)"
  using assms
proof (induction ys rule: remdups_adj.induct)
  case (3 x y xs)
  show ?case
  proof (cases "x = y")
    case True
    with 3 show ?thesis by simp
  next
    case False
    have "x \<notin> set (y # xs)"
    proof
      assume "x \<in> set (y # xs)"
      then have "f x \<le> f y" using "3.prems"(1) by auto
      moreover have "f x \<ge> f y" using "3.prems"(1) \<open>x \<in> set (y # xs)\<close> by auto
      ultimately have "f x = f y" by simp
      with "3.prems"(2) False show False by simp
    qed
    moreover have "inj_on f (set (y # xs))"
      using "3.prems"(2) by (rule inj_on_subset) auto
    ultimately show ?thesis using 3 False by simp
  qed
qed simp_all

lemma sorted_map_remdups_adj: "sorted (map f xs) \<Longrightarrow> sorted (map f (remdups_adj xs))"
  by (induction xs rule: remdups_adj.induct) auto

lemma sort_key_dedup_length:
  assumes "inj_on f (set xs)"
  shows "length (remdups_adj (sort_key f xs)) = card (set xs)"
proof -
  have "distinct (remdups_adj (sort_key f xs))"
    by (rule distinct_remdups_adj_sorted) (use assms in simp_all)
  then show ?thesis by (metis distinct_card remdups_adj_set set_sort)
qed

lemma sort_key_dedup_iff:
  assumes "inj_on f (set xs)"
  shows "length (remdups_adj (sort_key f xs)) = length xs \<longleftrightarrow> distinct xs"
  using sort_key_dedup_length [OF assms] card_distinct distinct_card by metis

end
