(* ===== verification/Strings.thy ===== *)
theory Strings
  imports Prelude
begin

text \<open>
  The string routines of Rust's standard library that the crate relies on: decimal and
  hexadecimal printing, \<open>split_once\<close>, \<open>join\<close>, and the validity test behind
  \<open>String::from_utf8\<close>.  A string is the list of its UTF-8 bytes, each byte a \<open>char\<close>.
\<close>

unbundle bit_operations_syntax

section \<open>Printing\<close>

definition digit_char :: "nat \<Rightarrow> char" where
  "digit_char d = char_of (48 + d)"

fun show_nat :: "nat \<Rightarrow> string" where
  "show_nat n = (if n < 10 then [digit_char n] else show_nat (n div 10) @ [digit_char (n mod 10)])"

declare show_nat.simps [simp del]

definition show_int :: "int \<Rightarrow> string" where
  "show_int i = (if i < 0 then ''-'' @ show_nat (nat (- i)) else show_nat (nat i))"

definition hex_digit :: "nat \<Rightarrow> char" where
  "hex_digit d = (if d < 10 then char_of (48 + d) else char_of (87 + d))"

text \<open>\<open>format!("{byte:02x}")\<close>.\<close>

definition hex_byte :: "char \<Rightarrow> string" where
  "hex_byte c = [hex_digit (of_char c div 16), hex_digit (of_char c mod 16)]"

text \<open>\<open>join("; ")\<close> with an arbitrary separator.\<close>

fun join :: "string \<Rightarrow> string list \<Rightarrow> string" where
  "join sep [] = []"
| "join sep [s] = s"
| "join sep (s # ss) = s @ sep @ join sep ss"

section \<open>Splitting\<close>

text \<open>\<open>value.split_once(c)\<close>: the text before and after the first \<open>c\<close>.\<close>

fun split_once :: "char \<Rightarrow> string \<Rightarrow> (string \<times> string) option" where
  "split_once c [] = None"
| "split_once c (x # xs) =
     (if x = c then Some ([], xs)
      else map_option (\<lambda>(a, b). (x # a, b)) (split_once c xs))"

lemma split_once_append:
  "c \<notin> set a \<Longrightarrow> split_once c (a @ c # b) = Some (a, b)"
  by (induction a) auto

lemma split_once_eq_Some:
  "split_once c s = Some (a, b) \<longleftrightarrow> s = a @ c # b \<and> c \<notin> set a"
proof
  show "split_once c s = Some (a, b) \<Longrightarrow> s = a @ c # b \<and> c \<notin> set a"
    by (induction s arbitrary: a b) (auto split: if_splits)
qed (auto simp: split_once_append)

lemma split_once_eq_None: "split_once c s = None \<longleftrightarrow> c \<notin> set s"
  by (induction s) auto

section \<open>Character classes\<close>

definition is_ascii_digit :: "char \<Rightarrow> bool" where
  "is_ascii_digit c \<longleftrightarrow> 48 \<le> (of_char c :: nat) \<and> (of_char c :: nat) \<le> 57"

definition is_ascii_alphanumeric :: "char \<Rightarrow> bool" where
  "is_ascii_alphanumeric c \<longleftrightarrow>
     is_ascii_digit c
     \<or> 65 \<le> (of_char c :: nat) \<and> (of_char c :: nat) \<le> 90
     \<or> 97 \<le> (of_char c :: nat) \<and> (of_char c :: nat) \<le> 122"

definition is_ascii_hexdigit :: "char \<Rightarrow> bool" where
  "is_ascii_hexdigit c \<longleftrightarrow>
     is_ascii_digit c
     \<or> 65 \<le> (of_char c :: nat) \<and> (of_char c :: nat) \<le> 70
     \<or> 97 \<le> (of_char c :: nat) \<and> (of_char c :: nat) \<le> 102"

definition to_ascii_lowercase :: "char \<Rightarrow> char" where
  "to_ascii_lowercase c =
     (if 65 \<le> (of_char c :: nat) \<and> (of_char c :: nat) \<le> 90 then char_of ((of_char c :: nat) + 32) else c)"

text \<open>\<open>haystack.contains(needle)\<close>.\<close>

fun starts_with :: "string \<Rightarrow> string \<Rightarrow> bool" where
  "starts_with _ [] \<longleftrightarrow> True"
| "starts_with [] (y # ys) \<longleftrightarrow> False"
| "starts_with (x # xs) (y # ys) \<longleftrightarrow> x = y \<and> starts_with xs ys"

fun contains_str :: "string \<Rightarrow> string \<Rightarrow> bool" where
  "contains_str [] needle \<longleftrightarrow> needle = []"
| "contains_str (x # xs) needle \<longleftrightarrow> starts_with (x # xs) needle \<or> contains_str xs needle"

lemma starts_with_iff: "starts_with s p \<longleftrightarrow> (\<exists>t. s = p @ t)"
  by (induction s p rule: starts_with.induct) auto

lemma contains_str_iff: "contains_str s p \<longleftrightarrow> (\<exists>a b. s = a @ p @ b)"
proof (induction s)
  case Nil
  then show ?case by auto
next
  case (Cons x xs)
  show ?case
  proof
    assume "contains_str (x # xs) p"
    then show "\<exists>a b. x # xs = a @ p @ b"
    proof (cases "starts_with (x # xs) p")
      case True
      then obtain t where "x # xs = [] @ p @ t" by (auto simp: starts_with_iff)
      then show ?thesis by blast
    next
      case False
      with \<open>contains_str (x # xs) p\<close> obtain a b where "xs = a @ p @ b"
        by (auto simp: Cons.IH)
      then have "x # xs = (x # a) @ p @ b" by simp
      then show ?thesis by blast
    qed
  next
    assume "\<exists>a b. x # xs = a @ p @ b"
    then obtain a b where ab: "x # xs = a @ p @ b" by blast
    show "contains_str (x # xs) p"
    proof (cases a)
      case Nil
      with ab have "starts_with (x # xs) p" unfolding starts_with_iff by auto
      then show ?thesis by simp
    next
      case (Cons y ys)
      with ab have "xs = ys @ p @ b" by simp
      then show ?thesis using Cons.IH by auto
    qed
  qed
qed

section \<open>UTF-8\<close>

text \<open>
  \<open>String::from_utf8\<close> accepts exactly the well-formed byte sequences: shortest encodings, no
  surrogates, nothing above U+10FFFF.
\<close>

definition utf8_cont :: "nat \<Rightarrow> bool" where
  "utf8_cont b \<longleftrightarrow> 128 \<le> b \<and> b \<le> 191"

fun utf8_bytes :: "nat list \<Rightarrow> bool" where
  "utf8_bytes [] \<longleftrightarrow> True"
| "utf8_bytes (b # bs) \<longleftrightarrow>
     (if b < 128 then utf8_bytes bs
      else if 194 \<le> b \<and> b \<le> 223 then
        (case bs of c1 # r \<Rightarrow> utf8_cont c1 \<and> utf8_bytes r | _ \<Rightarrow> False)
      else if 224 \<le> b \<and> b \<le> 239 then
        (case bs of c1 # c2 # r \<Rightarrow>
           (if b = 224 then 160 else 128) \<le> c1 \<and> c1 \<le> (if b = 237 then 159 else 191)
           \<and> utf8_cont c2 \<and> utf8_bytes r
         | _ \<Rightarrow> False)
      else if 240 \<le> b \<and> b \<le> 244 then
        (case bs of c1 # c2 # c3 # r \<Rightarrow>
           (if b = 240 then 144 else 128) \<le> c1 \<and> c1 \<le> (if b = 244 then 143 else 191)
           \<and> utf8_cont c2 \<and> utf8_cont c3 \<and> utf8_bytes r
         | _ \<Rightarrow> False)
      else False)"

definition utf8 :: "string \<Rightarrow> bool" where
  "utf8 s \<longleftrightarrow> utf8_bytes (map of_char s)"

lemma utf8_bytes_ascii: "\<forall>b \<in> set bs. b < 128 \<Longrightarrow> utf8_bytes bs"
  by (induction bs) auto

section \<open>Hexadecimal\<close>

text \<open>The \<open>digit\<close> closure of \<open>DeviceId::parse\<close>; \<open>None\<close> stands for its \<open>unreachable!\<close> arm.\<close>

definition hex_value :: "char \<Rightarrow> nat option" where
  "hex_value c =
     (let b = (of_char c :: nat) in
      if 48 \<le> b \<and> b \<le> 57 then Some (b - 48)
      else if 97 \<le> b \<and> b \<le> 102 then Some (b - 97 + 10)
      else if 65 \<le> b \<and> b \<le> 70 then Some (b - 65 + 10)
      else None)"

lemma of_char_lt_256 [simp]: "(of_char c :: nat) < 256"
proof -
  have "(of_char c :: nat) mod 256 = of_char c" by (rule of_char_mod_256)
  then show ?thesis by (metis mod_less_divisor zero_less_numeral)
qed

lemma of_char_div_16 [simp]: "(of_char c :: nat) div 16 < 16"
  by (simp add: less_mult_imp_div_less)

lemma of_char_char_of [simp]: "n < 256 \<Longrightarrow> (of_char (char_of (n :: nat)) :: nat) = n"
  by simp

lemma of_char_hex_digit [simp]:
  "d < 16 \<Longrightarrow> (of_char (hex_digit d) :: nat) = (if d < 10 then 48 + d else 87 + d)"
  by (auto simp: hex_digit_def)

lemma hex_value_hex_digit [simp]: "d < 16 \<Longrightarrow> hex_value (hex_digit d) = Some d"
  by (auto simp: hex_value_def Let_def)

lemma is_ascii_hexdigit_hex_digit [simp]: "d < 16 \<Longrightarrow> is_ascii_hexdigit (hex_digit d)"
  by (auto simp: is_ascii_hexdigit_def is_ascii_digit_def)

lemma hex_value_hexdigit:
  "is_ascii_hexdigit c \<Longrightarrow> \<exists>d < 16. hex_value c = Some d"
  by (auto simp: is_ascii_hexdigit_def is_ascii_digit_def hex_value_def Let_def)

lemma nibbles_or: "d < 16 \<Longrightarrow> (push_bit 4 h) OR d = 16 * h + (d :: nat)"
proof -
  assume "d < 16"
  then have d: "take_bit 4 d = d" by (simp add: take_bit_nat_eq_self)
  have "push_bit 4 h AND take_bit 4 d = 0"
    by (rule bit_eqI) (auto simp: bit_simps)
  with d have "push_bit 4 h OR d = push_bit 4 h + d"
    by (simp add: disjunctive_add_eq_or)
  then show ?thesis by (simp add: push_bit_eq_mult)
qed

lemma hex_byte_value: "16 * ((of_char c :: nat) div 16) + (of_char c :: nat) mod 16 = of_char c"
  by simp

end
