(* ===== verification/Errors.thy ===== *)
theory Errors
  imports Strings
begin

text \<open>
  The error contract (\<open>src/error.rs\<close>) with the identifiers an error carries
  (\<open>BackendId\<close>, \<open>DeviceId\<close>, \<open>OperationStage\<close> and \<open>BackendAttempt\<close> of \<open>src/contract.rs\<close>):
  kinds, recovery hints and stages with their stable codes, the error value and its
  constructors, the aggregation of recovery hints, and the normalisation of UVC status codes.
\<close>

section \<open>Kinds, hints and stages\<close>

datatype camera_error_kind =
  InvalidArgument | BackendNotCompiled | UnsupportedTarget | BackendOptionMismatch
  | BackendFailure | MultipleBackendsFailed | DeviceNotFound | DeviceBusy
  | DeviceOpenFailed | DeviceDisconnected | AmbiguousDevice | PermissionRequired
  | PermissionDenied | PermissionManagedExternally | InvalidState | StreamStopped
  | StreamFailure | Timeout | BufferExhausted | InvalidFrame | UnsupportedFormat
  | ControlNotSupported | ControlNotReadable | ControlFailure | Io | WorkerFailure
  | Internal

datatype recovery_hint =
  NoHint | Retry | RequestPermission | ReenumerateDevice | ChangeConfiguration
  | EnableBackend | DropFrame | ReduceResourceUsage

datatype operation_stage =
  Enumeration | Open | Capabilities | Startup | FirstFrame | FrameWait | BackendCommand
  | Worker | Close

section \<open>Identifiers\<close>

datatype backend_id = BackendId (backend_as_str: string)

record device_id =
  did_backend :: backend_id
  did_native :: string

definition UVC :: backend_id where "UVC = BackendId ''uvc''"

definition V4L2 :: backend_id where "V4L2 = BackendId ''v4l2''"

definition AV_FOUNDATION :: backend_id where "AV_FOUNDATION = BackendId ''avfoundation''"

definition CAMERA2 :: backend_id where "CAMERA2 = BackendId ''camera2''"

definition MEDIA_FOUNDATION :: backend_id where
  "MEDIA_FOUNDATION = BackendId ''media-foundation''"

definition SYNTHETIC :: backend_id where "SYNTHETIC = BackendId ''synthetic''"

lemmas backend_consts = UVC_def V4L2_def AV_FOUNDATION_def CAMERA2_def MEDIA_FOUNDATION_def
  SYNTHETIC_def

section \<open>The error value\<close>

text \<open>
  \<open>CameraError\<close> with its boxed details.  The \<open>source\<close> is either another camera error or an
  error of the standard library or of a dependency, known by its text.  \<open>Arc<CameraError>\<close> is
  the error itself: sharing is not observable on an immutable value.
\<close>

datatype camera_error =
  CameraError
    (err_kind: camera_error_kind)
    (err_recovery_hint: recovery_hint)
    (err_message: string)
    (err_source: "error_source option")
    (err_details: camera_error_details)
and camera_error_details =
  CameraErrorDetails
    (det_backend: "backend_id option")
    (det_device: "device_id option")
    (det_stage: "operation_stage option")
    (det_operation: "string option")
    (det_native_code: "int option")
    (det_backend_attempts: "backend_attempt list")
    (det_causes: "camera_error list")
and error_source = SourceCamera camera_error | SourceIo string | SourceOther string
and backend_attempt = BackendAttempt (attempt_backend: backend_id) (attempt_error: camera_error)

type_synonym 'a camera_result = "('a, camera_error) result"

section \<open>Constructors of errors\<close>

fun default_recovery_hint :: "camera_error_kind \<Rightarrow> recovery_hint" where
  "default_recovery_hint PermissionRequired = RequestPermission"
| "default_recovery_hint PermissionDenied = RequestPermission"
| "default_recovery_hint PermissionManagedExternally = RequestPermission"
| "default_recovery_hint DeviceNotFound = ReenumerateDevice"
| "default_recovery_hint DeviceDisconnected = ReenumerateDevice"
| "default_recovery_hint DeviceBusy = Retry"
| "default_recovery_hint DeviceOpenFailed = Retry"
| "default_recovery_hint BackendFailure = Retry"
| "default_recovery_hint StreamFailure = Retry"
| "default_recovery_hint Timeout = Retry"
| "default_recovery_hint Io = Retry"
| "default_recovery_hint WorkerFailure = Retry"
| "default_recovery_hint InvalidArgument = ChangeConfiguration"
| "default_recovery_hint UnsupportedFormat = ChangeConfiguration"
| "default_recovery_hint ControlNotSupported = ChangeConfiguration"
| "default_recovery_hint ControlNotReadable = ChangeConfiguration"
| "default_recovery_hint BackendNotCompiled = EnableBackend"
| "default_recovery_hint UnsupportedTarget = EnableBackend"
| "default_recovery_hint InvalidFrame = DropFrame"
| "default_recovery_hint BufferExhausted = ReduceResourceUsage"
| "default_recovery_hint BackendOptionMismatch = NoHint"
| "default_recovery_hint MultipleBackendsFailed = NoHint"
| "default_recovery_hint AmbiguousDevice = NoHint"
| "default_recovery_hint InvalidState = NoHint"
| "default_recovery_hint StreamStopped = NoHint"
| "default_recovery_hint ControlFailure = NoHint"
| "default_recovery_hint Internal = NoHint"

definition no_details :: camera_error_details where
  "no_details = CameraErrorDetails None None None None None [] []"

definition error_new :: "camera_error_kind \<Rightarrow> string \<Rightarrow> camera_error" where
  "error_new kind message = CameraError kind (default_recovery_hint kind) message None no_details"

fun is_retryable :: "recovery_hint \<Rightarrow> bool" where
  "is_retryable Retry = True"
| "is_retryable ReenumerateDevice = True"
| "is_retryable _ = False"

fun with_backend :: "camera_error \<Rightarrow> backend_id \<Rightarrow> camera_error" where
  "with_backend (CameraError k h m s (CameraErrorDetails b d st oper c ats cs)) backend =
     CameraError k h m s (CameraErrorDetails (Some backend) d st oper c ats cs)"

fun with_device :: "camera_error \<Rightarrow> device_id \<Rightarrow> camera_error" where
  "with_device (CameraError k h m s (CameraErrorDetails b d st oper c ats cs)) device =
     CameraError k h m s (CameraErrorDetails b (Some device) st oper c ats cs)"

fun with_stage :: "camera_error \<Rightarrow> operation_stage \<Rightarrow> camera_error" where
  "with_stage (CameraError k h m s (CameraErrorDetails b d st oper c ats cs)) stage =
     CameraError k h m s (CameraErrorDetails b d (Some stage) oper c ats cs)"

fun with_operation :: "camera_error \<Rightarrow> string \<Rightarrow> camera_error" where
  "with_operation (CameraError k h m s (CameraErrorDetails b d st oper c ats cs)) operation =
     CameraError k h m s (CameraErrorDetails b d st (Some operation) c ats cs)"

fun with_native_code :: "camera_error \<Rightarrow> int \<Rightarrow> camera_error" where
  "with_native_code (CameraError k h m s (CameraErrorDetails b d st oper c ats cs)) code =
     CameraError k h m s (CameraErrorDetails b d st oper (Some code) ats cs)"

fun with_recovery_hint :: "camera_error \<Rightarrow> recovery_hint \<Rightarrow> camera_error" where
  "with_recovery_hint (CameraError k h m s det) hint = CameraError k hint m s det"

fun with_source :: "camera_error \<Rightarrow> error_source \<Rightarrow> camera_error" where
  "with_source (CameraError k h m s det) src = CameraError k h m (Some src) det"

text \<open>\<open>backend_attempts()\<close>: absent when the list is empty.\<close>

definition error_backend_attempts :: "camera_error \<Rightarrow> backend_attempt list option" where
  "error_backend_attempts e =
     (let ats = det_backend_attempts (err_details e) in if ats = [] then None else Some ats)"

definition invalid_argument :: "string \<Rightarrow> string \<Rightarrow> camera_error" where
  "invalid_argument fld message =
     with_operation (error_new InvalidArgument (''Invalid '' @ fld @ '': '' @ message)) fld"

definition invalid_config :: "string \<Rightarrow> camera_error" where
  "invalid_config message = invalid_argument ''configuration'' message"

definition backend_not_compiled :: "backend_id \<Rightarrow> camera_error" where
  "backend_not_compiled b =
     with_backend
       (error_new BackendNotCompiled
         (''Backend '' @ backend_as_str b @ '' was not compiled into this build'')) b"

definition unsupported_target :: "backend_id \<Rightarrow> string \<Rightarrow> camera_error" where
  "unsupported_target b target =
     with_backend
       (error_new UnsupportedTarget
         (''Backend '' @ backend_as_str b @ '' is unsupported on target '' @ target)) b"

definition backend_option_mismatch :: "backend_id \<Rightarrow> backend_id \<Rightarrow> camera_error" where
  "backend_option_mismatch option_backend selected_backend =
     with_backend
       (error_new BackendOptionMismatch
         (''Backend option for '' @ backend_as_str option_backend
           @ '' cannot be used with '' @ backend_as_str selected_backend)) selected_backend"

definition backend_failure :: "backend_id \<Rightarrow> operation_stage \<Rightarrow> string \<Rightarrow> camera_error" where
  "backend_failure b stage message =
     with_stage (with_backend (error_new BackendFailure message) b) stage"

definition error_native ::
  "camera_error_kind \<Rightarrow> backend_id \<Rightarrow> operation_stage \<Rightarrow> string \<Rightarrow> int \<Rightarrow> string \<Rightarrow> camera_error" where
  "error_native kind b stage operation code message =
     with_native_code
       (with_operation
         (with_stage
           (with_backend
             (error_new kind
               (backend_as_str b @ '' '' @ operation @ '' failed (code '' @ show_int code
                 @ ''): '' @ message)) b) stage) operation) code"

definition device_busy :: "string \<Rightarrow> camera_error" where
  "device_busy message = error_new DeviceBusy (''Device is busy: '' @ message)"

definition permission_required :: "string \<Rightarrow> camera_error" where
  "permission_required message = error_new PermissionRequired (''Permission is required before opening '' @ message)"

definition permission_denied :: "string \<Rightarrow> camera_error" where
  "permission_denied message = error_new PermissionDenied (''Permission denied: '' @ message)"

definition invalid_state :: "string \<Rightarrow> camera_error" where
  "invalid_state message = error_new InvalidState (''Invalid state: '' @ message)"

definition ambiguous_device :: "string \<Rightarrow> camera_error" where
  "ambiguous_device message = error_new AmbiguousDevice (''Device identity is ambiguous: '' @ message)"

definition disconnected :: "string \<Rightarrow> camera_error" where
  "disconnected message = error_new DeviceDisconnected (''Device disconnected: '' @ message)"

definition control_not_readable :: "string \<Rightarrow> camera_error" where
  "control_not_readable message = error_new ControlNotReadable (''Control is not readable: '' @ message)"

definition device_not_found :: "string \<Rightarrow> camera_error" where
  "device_not_found message = error_new DeviceNotFound (''Device not found: '' @ message)"

definition device_open_failed :: "string \<Rightarrow> camera_error" where
  "device_open_failed message = error_new DeviceOpenFailed (''Failed to open device: '' @ message)"

definition invalid_frame :: "string \<Rightarrow> camera_error" where
  "invalid_frame message = error_new InvalidFrame (''Invalid frame: '' @ message)"

definition unsupported_format :: "string \<Rightarrow> camera_error" where
  "unsupported_format message = error_new UnsupportedFormat (''Unsupported format: '' @ message)"

definition stream_error :: "string \<Rightarrow> camera_error" where
  "stream_error message = error_new StreamFailure (''Stream error: '' @ message)"

definition control_not_supported :: "string \<Rightarrow> camera_error" where
  "control_not_supported message = error_new ControlNotSupported (''Control not supported: '' @ message)"

definition internal :: "string \<Rightarrow> camera_error" where
  "internal message = error_new Internal (''Internal error: '' @ message)"

definition permission_managed_externally :: "backend_id \<Rightarrow> camera_error" where
  "permission_managed_externally b =
     with_backend
       (error_new PermissionManagedExternally
         (''Permission for backend '' @ backend_as_str b
           @ '' is managed by the application or platform adapter'')) b"

definition stream_stopped :: camera_error where
  "stream_stopped = error_new StreamStopped ''Stream stopped''"

definition buffer_exhausted :: camera_error where
  "buffer_exhausted = error_new BufferExhausted ''Frame buffer exhausted''"

text \<open>\<open>{stage:?}\<close>: the derived \<open>Debug\<close> text of a stage.\<close>


fun stage_debug :: "operation_stage \<Rightarrow> string" where
  "stage_debug Enumeration = ''Enumeration''"
| "stage_debug Open = ''Open''"
| "stage_debug Capabilities = ''Capabilities''"
| "stage_debug Startup = ''Startup''"
| "stage_debug FirstFrame = ''FirstFrame''"
| "stage_debug FrameWait = ''FrameWait''"
| "stage_debug BackendCommand = ''BackendCommand''"
| "stage_debug Worker = ''Worker''"
| "stage_debug Close = ''Close''"

definition timeout_error :: "operation_stage \<Rightarrow> camera_error" where
  "timeout_error stage =
     with_stage (error_new Timeout (''Operation timed out during '' @ stage_debug stage)) stage"

text \<open>\<open>CameraError::io\<close>: the \<open>std::io::Error\<close> is known by its text.\<close>

definition io_error :: "operation_stage \<Rightarrow> string \<Rightarrow> camera_error" where
  "io_error stage source =
     with_source
       (with_stage
         (error_new Io (''I/O error during '' @ stage_debug stage @ '': '' @ source)) stage)
       (SourceIo source)"

definition io_error_from :: "string \<Rightarrow> camera_error" where
  "io_error_from source = io_error BackendCommand source"

definition worker_failure :: "string \<Rightarrow> camera_error" where
  "worker_failure message = with_stage (error_new WorkerFailure message) Worker"

section \<open>Stable codes\<close>

fun kind_as_str :: "camera_error_kind \<Rightarrow> string" where
  "kind_as_str InvalidArgument = ''invalid_argument''"
| "kind_as_str BackendNotCompiled = ''backend_not_compiled''"
| "kind_as_str UnsupportedTarget = ''unsupported_target''"
| "kind_as_str BackendOptionMismatch = ''backend_option_mismatch''"
| "kind_as_str BackendFailure = ''backend_failure''"
| "kind_as_str MultipleBackendsFailed = ''multiple_backends_failed''"
| "kind_as_str DeviceNotFound = ''device_not_found''"
| "kind_as_str DeviceBusy = ''device_busy''"
| "kind_as_str DeviceOpenFailed = ''device_open_failed''"
| "kind_as_str DeviceDisconnected = ''device_disconnected''"
| "kind_as_str AmbiguousDevice = ''ambiguous_device''"
| "kind_as_str PermissionRequired = ''permission_required''"
| "kind_as_str PermissionDenied = ''permission_denied''"
| "kind_as_str PermissionManagedExternally = ''permission_managed_externally''"
| "kind_as_str InvalidState = ''invalid_state''"
| "kind_as_str StreamStopped = ''stream_stopped''"
| "kind_as_str StreamFailure = ''stream_failure''"
| "kind_as_str Timeout = ''timeout''"
| "kind_as_str BufferExhausted = ''buffer_exhausted''"
| "kind_as_str InvalidFrame = ''invalid_frame''"
| "kind_as_str UnsupportedFormat = ''unsupported_format''"
| "kind_as_str ControlNotSupported = ''control_not_supported''"
| "kind_as_str ControlNotReadable = ''control_not_readable''"
| "kind_as_str ControlFailure = ''control_failure''"
| "kind_as_str Io = ''io''"
| "kind_as_str WorkerFailure = ''worker_failure''"
| "kind_as_str Internal = ''internal''"

fun hint_as_str :: "recovery_hint \<Rightarrow> string" where
  "hint_as_str NoHint = ''none''"
| "hint_as_str Retry = ''retry''"
| "hint_as_str RequestPermission = ''request_permission''"
| "hint_as_str ReenumerateDevice = ''reenumerate_device''"
| "hint_as_str ChangeConfiguration = ''change_configuration''"
| "hint_as_str EnableBackend = ''enable_backend''"
| "hint_as_str DropFrame = ''drop_frame''"
| "hint_as_str ReduceResourceUsage = ''reduce_resource_usage''"

fun stage_as_str :: "operation_stage \<Rightarrow> string" where
  "stage_as_str Enumeration = ''enumeration''"
| "stage_as_str Open = ''open''"
| "stage_as_str Capabilities = ''capabilities''"
| "stage_as_str Startup = ''startup''"
| "stage_as_str FirstFrame = ''first_frame''"
| "stage_as_str FrameWait = ''frame_wait''"
| "stage_as_str BackendCommand = ''backend_command''"
| "stage_as_str Worker = ''worker''"
| "stage_as_str Close = ''close''"

definition kind_from_str :: "string \<Rightarrow> camera_error_kind camera_result" where
  "kind_from_str code =
     (if code = ''invalid_argument'' then Ok InvalidArgument
      else if code = ''backend_not_compiled'' then Ok BackendNotCompiled
      else if code = ''unsupported_target'' then Ok UnsupportedTarget
      else if code = ''backend_option_mismatch'' then Ok BackendOptionMismatch
      else if code = ''backend_failure'' then Ok BackendFailure
      else if code = ''multiple_backends_failed'' then Ok MultipleBackendsFailed
      else if code = ''device_not_found'' then Ok DeviceNotFound
      else if code = ''device_busy'' then Ok DeviceBusy
      else if code = ''device_open_failed'' then Ok DeviceOpenFailed
      else if code = ''device_disconnected'' then Ok DeviceDisconnected
      else if code = ''ambiguous_device'' then Ok AmbiguousDevice
      else if code = ''permission_required'' then Ok PermissionRequired
      else if code = ''permission_denied'' then Ok PermissionDenied
      else if code = ''permission_managed_externally'' then Ok PermissionManagedExternally
      else if code = ''invalid_state'' then Ok InvalidState
      else if code = ''stream_stopped'' then Ok StreamStopped
      else if code = ''stream_failure'' then Ok StreamFailure
      else if code = ''timeout'' then Ok Timeout
      else if code = ''buffer_exhausted'' then Ok BufferExhausted
      else if code = ''invalid_frame'' then Ok InvalidFrame
      else if code = ''unsupported_format'' then Ok UnsupportedFormat
      else if code = ''control_not_supported'' then Ok ControlNotSupported
      else if code = ''control_not_readable'' then Ok ControlNotReadable
      else if code = ''control_failure'' then Ok ControlFailure
      else if code = ''io'' then Ok Io
      else if code = ''worker_failure'' then Ok WorkerFailure
      else if code = ''internal'' then Ok Internal
      else Err (invalid_argument ''camera error code'' code))"

definition hint_from_str :: "string \<Rightarrow> recovery_hint camera_result" where
  "hint_from_str code =
     (if code = ''none'' then Ok NoHint
      else if code = ''retry'' then Ok Retry
      else if code = ''request_permission'' then Ok RequestPermission
      else if code = ''reenumerate_device'' then Ok ReenumerateDevice
      else if code = ''change_configuration'' then Ok ChangeConfiguration
      else if code = ''enable_backend'' then Ok EnableBackend
      else if code = ''drop_frame'' then Ok DropFrame
      else if code = ''reduce_resource_usage'' then Ok ReduceResourceUsage
      else Err (invalid_argument ''camera recovery code'' code))"

definition stage_from_str :: "string \<Rightarrow> operation_stage camera_result" where
  "stage_from_str code =
     (if code = ''enumeration'' then Ok Enumeration
      else if code = ''open'' then Ok Open
      else if code = ''capabilities'' then Ok Capabilities
      else if code = ''startup'' then Ok Startup
      else if code = ''first_frame'' then Ok FirstFrame
      else if code = ''frame_wait'' then Ok FrameWait
      else if code = ''backend_command'' then Ok BackendCommand
      else if code = ''worker'' then Ok Worker
      else if code = ''close'' then Ok Close
      else Err (invalid_argument ''camera operation stage'' code))"

section \<open>Aggregation of recovery hints\<close>

text \<open>
  The key of \<open>max_by_key\<close> in \<open>aggregate_recovery_hint\<close>.  It is injective, so the maximum is
  unique and \<open>max_by_key\<close>'s rule for ties (the last maximum) does not matter; hints are ordered
  by it.
\<close>

fun hint_priority :: "recovery_hint \<Rightarrow> nat" where
  "hint_priority NoHint = 0"
| "hint_priority DropFrame = 1"
| "hint_priority EnableBackend = 2"
| "hint_priority ChangeConfiguration = 3"
| "hint_priority ReduceResourceUsage = 4"
| "hint_priority Retry = 5"
| "hint_priority ReenumerateDevice = 6"
| "hint_priority RequestPermission = 7"

text \<open>\<open>iter.max_by_key(f)\<close>: the last element with the greatest key.\<close>

fun max_by_key :: "('a \<Rightarrow> nat) \<Rightarrow> 'a list \<Rightarrow> 'a option" where
  "max_by_key f [] = None"
| "max_by_key f (x # xs) =
     (case max_by_key f xs of
        None \<Rightarrow> Some x
      | Some y \<Rightarrow> if f x \<le> f y then Some y else Some x)"

definition aggregate_recovery_hint :: "recovery_hint list \<Rightarrow> recovery_hint" where
  "aggregate_recovery_hint hints =
     (case max_by_key hint_priority hints of None \<Rightarrow> NoHint | Some h \<Rightarrow> h)"

fun set_source :: "camera_error \<Rightarrow> error_source option \<Rightarrow> camera_error" where
  "set_source (CameraError k h m s det) src = CameraError k h m src det"

fun set_backend_attempts :: "camera_error \<Rightarrow> backend_attempt list \<Rightarrow> camera_error" where
  "set_backend_attempts (CameraError k h m s (CameraErrorDetails b d st oper c ats cs)) attempts =
     CameraError k h m s (CameraErrorDetails b d st oper c attempts cs)"

fun set_causes :: "camera_error \<Rightarrow> camera_error list \<Rightarrow> camera_error" where
  "set_causes (CameraError k h m s (CameraErrorDetails b d st oper c ats cs)) causes =
     CameraError k h m s (CameraErrorDetails b d st oper c ats causes)"

definition first_opt :: "'a list \<Rightarrow> 'a option" where
  "first_opt xs = (case xs of [] \<Rightarrow> None | x # _ \<Rightarrow> Some x)"

definition all_backends_failed :: "backend_attempt list \<Rightarrow> camera_error" where
  "all_backends_failed attempts =
     (let details = join ''; ''
            (map (\<lambda>a. backend_as_str (attempt_backend a) @ '': '' @ err_message (attempt_error a))
              attempts);
          hint = aggregate_recovery_hint (map (\<lambda>a. err_recovery_hint (attempt_error a)) attempts);
          src = map_option attempt_error (first_opt attempts);
          err = with_recovery_hint
            (error_new MultipleBackendsFailed (''All preferred backends failed: '' @ details)) hint;
          err = set_source err (map_option SourceCamera src)
      in set_backend_attempts err attempts)"

definition control_batch :: "camera_error list \<Rightarrow> camera_error" where
  "control_batch causes =
     (let details = join ''; '' (map err_message causes);
          hint = aggregate_recovery_hint (map err_recovery_hint causes);
          src = first_opt causes;
          err = with_recovery_hint
            (error_new ControlFailure (''Control operations failed: '' @ details)) hint;
          err = set_source err (map_option SourceCamera src)
      in set_causes err causes)"

section \<open>UVC status codes\<close>

datatype uvc_error_code =
  UvcSuccess | UvcIo | UvcInvalidParam | UvcAccess | UvcNoDevice | UvcNotFound | UvcBusy
  | UvcTimeout | UvcOverflow | UvcPipe | UvcInterrupted | UvcNoMem | UvcNotSupported
  | UvcInvalidDevice | UvcInvalidMode | UvcCallbackExists | UvcOther

text \<open>The discriminants of the \<open>repr(i32)\<close> enumeration.\<close>

fun uvc_code :: "uvc_error_code \<Rightarrow> int" where
  "uvc_code UvcSuccess = 0"
| "uvc_code UvcIo = - 1"
| "uvc_code UvcInvalidParam = - 2"
| "uvc_code UvcAccess = - 3"
| "uvc_code UvcNoDevice = - 4"
| "uvc_code UvcNotFound = - 5"
| "uvc_code UvcBusy = - 6"
| "uvc_code UvcTimeout = - 7"
| "uvc_code UvcOverflow = - 8"
| "uvc_code UvcPipe = - 9"
| "uvc_code UvcInterrupted = - 10"
| "uvc_code UvcNoMem = - 11"
| "uvc_code UvcNotSupported = - 12"
| "uvc_code UvcInvalidDevice = - 50"
| "uvc_code UvcInvalidMode = - 51"
| "uvc_code UvcCallbackExists = - 52"
| "uvc_code UvcOther = - 99"

definition uvc_from_code :: "int \<Rightarrow> uvc_error_code" where
  "uvc_from_code code =
     (if code = 0 then UvcSuccess
      else if code = - 1 then UvcIo
      else if code = - 2 then UvcInvalidParam
      else if code = - 3 then UvcAccess
      else if code = - 4 then UvcNoDevice
      else if code = - 5 then UvcNotFound
      else if code = - 6 then UvcBusy
      else if code = - 7 then UvcTimeout
      else if code = - 8 then UvcOverflow
      else if code = - 9 then UvcPipe
      else if code = - 10 then UvcInterrupted
      else if code = - 11 then UvcNoMem
      else if code = - 12 then UvcNotSupported
      else if code = - 50 then UvcInvalidDevice
      else if code = - 51 then UvcInvalidMode
      else if code = - 52 then UvcCallbackExists
      else UvcOther)"

fun uvc_message :: "uvc_error_code \<Rightarrow> string" where
  "uvc_message UvcSuccess = ''Success''"
| "uvc_message UvcIo = ''I/O error''"
| "uvc_message UvcInvalidParam = ''Invalid parameter''"
| "uvc_message UvcAccess = ''Access denied''"
| "uvc_message UvcNoDevice = ''Device does not exist''"
| "uvc_message UvcNotFound = ''Not found''"
| "uvc_message UvcBusy = ''Device busy''"
| "uvc_message UvcTimeout = ''Timeout''"
| "uvc_message UvcOverflow = ''Buffer overflow''"
| "uvc_message UvcPipe = ''Pipe error''"
| "uvc_message UvcInterrupted = ''Operation interrupted''"
| "uvc_message UvcNoMem = ''Out of memory''"
| "uvc_message UvcNotSupported = ''Not supported''"
| "uvc_message UvcInvalidDevice = ''Invalid device''"
| "uvc_message UvcInvalidMode = ''Invalid mode''"
| "uvc_message UvcCallbackExists = ''Callback already exists''"
| "uvc_message UvcOther = ''Other error''"

text \<open>The \<open>match\<close> of \<open>uvc_backend\<close> on the decoded status.\<close>

fun uvc_kind :: "uvc_error_code \<Rightarrow> camera_error_kind" where
  "uvc_kind UvcAccess = PermissionDenied"
| "uvc_kind UvcNoDevice = DeviceNotFound"
| "uvc_kind UvcNotFound = DeviceNotFound"
| "uvc_kind UvcInvalidDevice = DeviceNotFound"
| "uvc_kind UvcBusy = DeviceBusy"
| "uvc_kind UvcTimeout = Timeout"
| "uvc_kind UvcNotSupported = UnsupportedFormat"
| "uvc_kind UvcInvalidParam = InvalidArgument"
| "uvc_kind UvcInvalidMode = InvalidArgument"
| "uvc_kind _ = BackendFailure"

definition uvc_backend :: "int \<Rightarrow> string \<Rightarrow> camera_error" where
  "uvc_backend code operation =
     error_native (uvc_kind (uvc_from_code code)) UVC BackendCommand operation code
       (uvc_message (uvc_from_code code))"

fun set_kind :: "camera_error \<Rightarrow> camera_error_kind \<Rightarrow> camera_error" where
  "set_kind (CameraError k h m s det) kind = CameraError kind h m s det"

definition uvc_control :: "int \<Rightarrow> string \<Rightarrow> camera_error" where
  "uvc_control code operation =
     (let err = uvc_backend code operation;
          err = set_kind err
            (case err_kind err of
               UnsupportedFormat \<Rightarrow> ControlNotSupported
             | BackendFailure \<Rightarrow> ControlFailure
             | kind \<Rightarrow> kind)
      in with_recovery_hint err (default_recovery_hint (err_kind err)))"

definition uvc_check :: "int \<Rightarrow> operation_stage \<Rightarrow> string \<Rightarrow> unit camera_result" where
  "uvc_check code stage operation =
     (if code = 0 then Ok () else Err (with_stage (uvc_backend code operation) stage))"

section \<open>Lemmas\<close>

named_theorems error_simps

lemmas error_constructors =
  invalid_argument_def invalid_config_def backend_not_compiled_def unsupported_target_def
  backend_option_mismatch_def backend_failure_def error_native_def device_busy_def
  permission_required_def permission_denied_def invalid_state_def ambiguous_device_def
  disconnected_def control_not_readable_def device_not_found_def device_open_failed_def
  invalid_frame_def unsupported_format_def stream_error_def control_not_supported_def
  internal_def permission_managed_externally_def stream_stopped_def buffer_exhausted_def
  timeout_error_def io_error_def worker_failure_def error_new_def no_details_def

lemma err_kind_invalid_config [error_simps]: "err_kind (invalid_config m) = InvalidArgument"
  by (simp add: error_constructors)

lemma err_kind_unsupported_format [error_simps]:
  "err_kind (unsupported_format m) = UnsupportedFormat"
  by (simp add: error_constructors)

lemma err_kind_invalid_frame [error_simps]: "err_kind (invalid_frame m) = InvalidFrame"
  by (simp add: error_constructors)

lemma kind_from_str_as_str: "kind_from_str (kind_as_str k) = Ok k"
  by (cases k) (simp_all add: kind_from_str_def)

lemma hint_from_str_as_str: "hint_from_str (hint_as_str h) = Ok h"
  by (cases h) (simp_all add: hint_from_str_def)

lemma stage_from_str_as_str: "stage_from_str (stage_as_str st) = Ok st"
  by (cases st) (simp_all add: stage_from_str_def)

lemma kind_from_str_Ok: "kind_from_str s = Ok k \<Longrightarrow> s = kind_as_str k"
  by (simp add: kind_from_str_def split: if_splits)

lemma hint_from_str_Ok: "hint_from_str s = Ok h \<Longrightarrow> s = hint_as_str h"
  by (simp add: hint_from_str_def split: if_splits)

lemma stage_from_str_Ok: "stage_from_str s = Ok st \<Longrightarrow> s = stage_as_str st"
  by (simp add: stage_from_str_def split: if_splits)

lemma hint_priority_inject [simp]: "hint_priority a = hint_priority b \<longleftrightarrow> a = b"
  by (cases a; cases b) simp_all

instantiation recovery_hint :: linorder
begin

definition less_eq_recovery_hint :: "recovery_hint \<Rightarrow> recovery_hint \<Rightarrow> bool" where
  "a \<le> b \<longleftrightarrow> hint_priority a \<le> hint_priority b"

definition less_recovery_hint :: "recovery_hint \<Rightarrow> recovery_hint \<Rightarrow> bool" where
  "a < b \<longleftrightarrow> hint_priority a < hint_priority b"

instance
  by standard (auto simp: less_eq_recovery_hint_def less_recovery_hint_def)

end

lemma NoHint_least [simp]: "NoHint \<le> h"
  by (simp add: less_eq_recovery_hint_def)

lemma max_by_key_None [simp]: "max_by_key f xs = None \<longleftrightarrow> xs = []"
  by (cases xs) (auto split: option.splits)

lemma max_by_key_Some:
  "max_by_key f xs = Some m \<Longrightarrow> m \<in> set xs \<and> (\<forall>x \<in> set xs. f x \<le> f m)"
  by (induction xs arbitrary: m) (fastforce split: option.splits if_splits)+

lemma aggregate_recovery_hint_eq:
  "aggregate_recovery_hint hs = (if hs = [] then NoHint else Max (set hs))"
proof (cases "max_by_key hint_priority hs")
  case None
  then show ?thesis by (simp add: aggregate_recovery_hint_def)
next
  case (Some m)
  then have "Max (set hs) = m"
    using max_by_key_Some [OF Some]
    by (intro Max_eqI) (auto simp: less_eq_recovery_hint_def)
  moreover from Some have "hs \<noteq> []" by auto
  ultimately show ?thesis using Some by (simp add: aggregate_recovery_hint_def)
qed

lemma foldr_max_Max:
  "foldr max hs NoHint = (if hs = [] then NoHint else Max (set hs))"
  by (induction hs) (auto simp: max_def dest: antisym)

lemma err_recovery_hint_set_source [error_simps]:
  "err_recovery_hint (set_source e src) = err_recovery_hint e"
  by (cases e) simp

lemma err_recovery_hint_set_backend_attempts [error_simps]:
  "err_recovery_hint (set_backend_attempts e ats) = err_recovery_hint e"
  by (cases e; cases "err_details e") simp

lemma err_recovery_hint_set_causes [error_simps]:
  "err_recovery_hint (set_causes e cs) = err_recovery_hint e"
  by (cases e; cases "err_details e") simp

section \<open>Properties\<close>

text \<open>The textual codes of error kinds, recovery hints and operation stages are stable
  identifiers: a text parses to a value exactly when it is the code of that value, so parsing
  inverts printing, distinct values have distinct codes and every other text is an error.\<close>

theorem stable_codes_roundtrip:
  "(kind_from_str s = Ok k \<longleftrightarrow> s = kind_as_str k)
   \<and> (hint_from_str s = Ok h \<longleftrightarrow> s = hint_as_str h)
   \<and> (stage_from_str s = Ok st \<longleftrightarrow> s = stage_as_str st)"
  using kind_from_str_Ok kind_from_str_as_str hint_from_str_Ok hint_from_str_as_str
    stage_from_str_Ok stage_from_str_as_str by blast

text \<open>An error that aggregates others (every preferred backend failed, a batch of controls
  failed) carries the strongest recovery hint of the aggregated errors in the order
  of \<open>aggregate_recovery_hint\<close>, whatever their order; it names the first one as its source and
  loses none of them.\<close>

theorem aggregated_errors:
  "err_recovery_hint (all_backends_failed ats)
     = foldr max (map (\<lambda>a. err_recovery_hint (attempt_error a)) ats) NoHint
   \<and> err_recovery_hint (control_batch cs) = foldr max (map err_recovery_hint cs) NoHint
   \<and> error_backend_attempts (all_backends_failed ats) = (if ats = [] then None else Some ats)
   \<and> det_causes (err_details (control_batch cs)) = cs
   \<and> err_source (all_backends_failed ats)
     = map_option (\<lambda>a. SourceCamera (attempt_error a)) (first_opt ats)
   \<and> err_source (control_batch cs) = map_option SourceCamera (first_opt cs)"
  unfolding foldr_max_Max
  by (simp add: all_backends_failed_def control_batch_def error_simps aggregate_recovery_hint_eq
      error_new_def no_details_def error_backend_attempts_def first_opt_def Let_def
      split: list.splits)

text \<open>A UVC status of a control operation is normalised into the shared contract: the error
  keeps the native status and the operation, is attributed to the UVC backend, is never reported
  as a backend failure or an unsupported format, and its recovery hint is the default of its
  final kind.  \<open>uvc_check\<close> succeeds on status zero and on nothing else; and the seventeen
  statuses are decoded to the code they came from, every unknown one to \<open>Other\<close>.\<close>

theorem uvc_normalisation:
  "det_native_code (err_details (uvc_control code oper)) = Some code
   \<and> det_operation (err_details (uvc_control code oper)) = Some oper
   \<and> det_backend (err_details (uvc_control code oper)) = Some UVC
   \<and> err_kind (uvc_control code oper) \<notin> {BackendFailure, UnsupportedFormat}
   \<and> err_recovery_hint (uvc_control code oper)
     = default_recovery_hint (err_kind (uvc_control code oper))
   \<and> (is_ok (uvc_check code st oper) \<longleftrightarrow> code = 0)
   \<and> uvc_from_code (uvc_code u) = u
   \<and> (uvc_from_code code = u \<longleftrightarrow> code = uvc_code u \<or> u = UvcOther \<and> code \<notin> range uvc_code)"
proof -
  have rt: "uvc_from_code (uvc_code v) = v" for v
    by (cases v) (simp_all add: uvc_from_code_def)
  have other: "code = uvc_code (uvc_from_code code) \<or> uvc_from_code code = UvcOther"
    by (simp add: uvc_from_code_def)
  have "uvc_from_code code = u \<longleftrightarrow> code = uvc_code u \<or> u = UvcOther \<and> code \<notin> range uvc_code"
    using rt other by (metis rangeE rangeI)
  moreover have "err_kind (uvc_control code oper) \<notin> {BackendFailure, UnsupportedFormat}
     \<and> err_recovery_hint (uvc_control code oper)
       = default_recovery_hint (err_kind (uvc_control code oper))"
    by (cases "uvc_from_code code")
      (simp_all add: uvc_control_def uvc_backend_def error_constructors Let_def)
  ultimately show ?thesis
    by (simp add: rt uvc_control_def uvc_backend_def uvc_check_def error_constructors Let_def)
qed

end
