(* ===== verification/Frame_Rate.thy ===== *)
theory Frame_Rate
  imports Errors Complex_Main
begin

text \<open>
  Rational frame rates (\<open>src/format.rs\<close>, \<open>FrameRate\<close>): the Euclidean normalisation of
  \<open>FrameRate::new\<close> on \<open>u32\<close> words and the comparison by cross multiplication in \<open>u64\<close>.
\<close>

record frame_rate =
  fr_numerator :: u32
  fr_denominator :: u32

section \<open>The normalising constructor\<close>

lemma unat_mod_less: "b \<noteq> 0 \<Longrightarrow> unat ((a :: u32) mod b) < unat b"
  by (simp add: unat_mod unat_gt_0)

text \<open>\<open>while b != 0 { let r = a % b; a = b; b = r; }\<close>\<close>

function euclid_loop :: "u32 \<Rightarrow> u32 \<Rightarrow> u32" where
  "euclid_loop a b = (if b = 0 then a else euclid_loop b (a mod b))"
  by auto
termination
  by (relation "measure (\<lambda>(a, b). unat b)") (auto simp: unat_mod_less)

declare euclid_loop.simps [simp del]

definition frame_rate_new :: "u32 \<Rightarrow> u32 \<Rightarrow> frame_rate camera_result" where
  "frame_rate_new numerator denominator =
     (if numerator = 0 \<or> denominator = 0
      then Err (invalid_config ''Frame rate must be positive'')
      else let a = euclid_loop numerator denominator
           in Ok \<lparr>fr_numerator = numerator div a, fr_denominator = denominator div a\<rparr>)"

definition frame_rate_default :: frame_rate where
  "frame_rate_default = \<lparr>fr_numerator = 30, fr_denominator = 1\<rparr>"

section \<open>Comparison\<close>

datatype ordering = Less | Equal | Greater

definition u64_cmp :: "u64 \<Rightarrow> u64 \<Rightarrow> ordering" where
  "u64_cmp a b = (if a < b then Less else if a = b then Equal else Greater)"

definition frame_rate_cmp :: "frame_rate \<Rightarrow> frame_rate \<Rightarrow> ordering" where
  "frame_rate_cmp a b =
     u64_cmp (ucast (fr_numerator a) * ucast (fr_denominator b))
       (ucast (fr_numerator b) * ucast (fr_denominator a))"

text \<open>\<open>a > b\<close> and \<open>a < b\<close>, which Rust derives from \<open>partial_cmp\<close>.\<close>

definition frame_rate_greater :: "frame_rate \<Rightarrow> frame_rate \<Rightarrow> bool" where
  "frame_rate_greater a b \<longleftrightarrow> frame_rate_cmp a b = Greater"

definition frame_rate_less :: "frame_rate \<Rightarrow> frame_rate \<Rightarrow> bool" where
  "frame_rate_less a b \<longleftrightarrow> frame_rate_cmp a b = Less"

section \<open>Floating point\<close>

text \<open>
  A positive normal \<open>f64\<close> is the pair of its 53-bit significand \<open>m\<close> and its exponent \<open>e\<close>, for
  \<open>m * 2 ^ e\<close>.  A division of two exactly represented values is correctly rounded, so it is the
  rounding of the exact ratio to nearest, ties to even.  The rates and their inverses lie between
  \<open>2 ^ -32\<close> and \<open>2 ^ 32\<close>, far from subnormals and infinity.
\<close>

fun bit_length :: "nat \<Rightarrow> nat" where
  "bit_length n = (if n = 0 then 0 else Suc (bit_length (n div 2)))"

declare bit_length.simps [simp del]

definition round_ratio :: "nat \<Rightarrow> nat \<Rightarrow> nat" where
  "round_ratio n d =
     (let q = n div d; r = n mod d
      in if d < 2 * r \<or> (2 * r = d \<and> odd q) then q + 1 else q)"

definition scaled_round :: "nat \<Rightarrow> nat \<Rightarrow> int \<Rightarrow> nat" where
  "scaled_round n d e = round_ratio (n * 2 ^ nat (- e)) (d * 2 ^ nat e)"

definition f64_of_ratio :: "nat \<Rightarrow> nat \<Rightarrow> nat \<times> int" where
  "f64_of_ratio n d =
     (let k = int (bit_length n) - int (bit_length d);
          e = (if n * 2 ^ nat (53 - k) < d * 2 ^ nat (k - 53) * 2 ^ 53 then k - 53 else k - 52);
          m = scaled_round n d e
      in if m = 2 ^ 53 then (2 ^ 52, e + 1) else (m, e))"

definition f64_inverse :: "nat \<times> int \<Rightarrow> nat \<times> int" where
  "f64_inverse x = f64_of_ratio (2 ^ nat (- snd x)) (fst x * 2 ^ nat (snd x))"

definition as_f64 :: "frame_rate \<Rightarrow> nat \<times> int" where
  "as_f64 r = f64_of_ratio (unat (fr_numerator r)) (unat (fr_denominator r))"

text \<open>\<open>Duration::from_secs_f64\<close>: to the nearest nanosecond, ties to even.\<close>

definition from_secs_f64 :: "nat \<times> int \<Rightarrow> nat" where
  "from_secs_f64 x =
     round_ratio (fst x * 1000000000 * 2 ^ nat (snd x)) (2 ^ nat (- snd x))"

definition frame_rate_interval :: "frame_rate \<Rightarrow> nat" where
  "frame_rate_interval r = max (from_secs_f64 (f64_inverse (as_f64 r))) 1"

section \<open>Lemmas\<close>

text \<open>What the constructor establishes of every rate the crate holds; the fields are private.\<close>

definition valid_frame_rate :: "frame_rate \<Rightarrow> bool" where
  "valid_frame_rate r \<longleftrightarrow>
     fr_numerator r \<noteq> 0 \<and> fr_denominator r \<noteq> 0
     \<and> coprime (unat (fr_numerator r)) (unat (fr_denominator r))"

text \<open>The rate as a rational number.\<close>

definition rate_of :: "frame_rate \<Rightarrow> rat" where
  "rate_of r = of_nat (unat (fr_numerator r)) / of_nat (unat (fr_denominator r))"

lemma unat_euclid_loop: "unat (euclid_loop a b) = gcd (unat a) (unat b)"
proof (induction a b rule: euclid_loop.induct)
  case (1 a b)
  show ?case
  proof (cases "b = 0")
    case True
    then show ?thesis by (simp add: euclid_loop.simps)
  next
    case False
    then have "unat (euclid_loop a b) = gcd (unat b) (unat a mod unat b)"
      using 1 by (simp add: euclid_loop.simps [of a b] unat_mod)
    also have "\<dots> = gcd (unat a) (unat b)"
      by (metis gcd.commute gcd_red_nat)
    finally show ?thesis .
  qed
qed

lemma unat_eq_0_iff: "unat (w :: u32) = 0 \<longleftrightarrow> w = 0"
  by (simp add: unat_eq_zero)

lemma frame_rate_new_Ok_fields:
  assumes "frame_rate_new n d = Ok r"
  shows "unat (fr_numerator r) = unat n div gcd (unat n) (unat d)"
    and "unat (fr_denominator r) = unat d div gcd (unat n) (unat d)"
    and "n \<noteq> 0" and "d \<noteq> 0"
  using assms by (auto simp: frame_rate_new_def Let_def unat_div unat_euclid_loop split: if_splits)

lemma frame_rate_new_valid:
  assumes "frame_rate_new n d = Ok r"
  shows "valid_frame_rate r"
proof -
  let ?g = "gcd (unat n) (unat d)"
  note f = frame_rate_new_Ok_fields [OF assms]
  have "unat n \<noteq> 0" "unat d \<noteq> 0" using f by (simp_all add: unat_eq_0_iff)
  then have "coprime (unat n div ?g) (unat d div ?g)"
    by (intro div_gcd_coprime) simp
  moreover have "unat n div ?g \<noteq> 0" "unat d div ?g \<noteq> 0"
    using \<open>unat n \<noteq> 0\<close> \<open>unat d \<noteq> 0\<close>
    by (simp_all add: dvd_div_eq_0_iff)
  ultimately show ?thesis
    using f by (simp add: valid_frame_rate_def unat_eq_0_iff [symmetric])
qed

lemma frame_rate_new_cross:
  assumes "frame_rate_new n d = Ok r"
  shows "unat (fr_numerator r) * unat d = unat n * unat (fr_denominator r)"
  using frame_rate_new_Ok_fields [OF assms]
  by (metis div_mult_swap dvd_div_mult gcd_dvd1 gcd_dvd2)

lemma frame_rate_new_is_Ok: "n \<noteq> 0 \<Longrightarrow> d \<noteq> 0 \<Longrightarrow> \<exists>r. frame_rate_new n d = Ok r"
  by (simp add: frame_rate_new_def Let_def)

lemma reduced_unique:
  fixes n d a b a' b' :: nat
  assumes "n \<noteq> 0" "d \<noteq> 0" "coprime a b" "coprime a' b'" "a * d = n * b" "a' * d = n * b'"
  shows "a = a' \<and> b = b'"
proof -
  have "(a * b') * (n * d) = (a * d) * (n * b')" by (simp add: ac_simps)
  also have "\<dots> = (n * b) * (a' * d)" using assms by simp
  also have "\<dots> = (a' * b) * (n * d)" by (simp add: ac_simps)
  finally have "a * b' = a' * b" using assms by simp
  then show ?thesis
    using assms(3,4) by (simp add: coprime_crossproduct_nat mult.commute)
qed

lemma frame_rate_eqI:
  "unat (fr_numerator a) = unat (fr_numerator b) \<Longrightarrow>
   unat (fr_denominator a) = unat (fr_denominator b) \<Longrightarrow> a = (b :: frame_rate)"
  by (simp add: word_unat_eq_iff)

lemma frame_rate_new_unique:
  assumes "n \<noteq> 0" "d \<noteq> 0" "valid_frame_rate r"
    and "unat (fr_numerator r) * unat d = unat n * unat (fr_denominator r)"
  shows "frame_rate_new n d = Ok r"
proof -
  from assms(1,2) obtain q where q: "frame_rate_new n d = Ok q" using frame_rate_new_is_Ok by blast
  have nz: "unat n \<noteq> 0" "unat d \<noteq> 0" using assms by (simp_all add: unat_eq_0_iff)
  have cop: "coprime (unat (fr_numerator r)) (unat (fr_denominator r))"
    "coprime (unat (fr_numerator q)) (unat (fr_denominator q))"
    using assms frame_rate_new_valid [OF q] by (simp_all only: valid_frame_rate_def)
  from reduced_unique [OF nz cop assms(4) frame_rate_new_cross [OF q]] have "r = q"
    by (intro frame_rate_eqI) blast+
  with q show ?thesis by simp
qed

lemma frame_rate_new_reduced:
  "valid_frame_rate r \<Longrightarrow> frame_rate_new (fr_numerator r) (fr_denominator r) = Ok r"
  by (rule frame_rate_new_unique) (simp_all add: valid_frame_rate_def)

lemma unat_cross: "unat (ucast (a :: u32) * ucast (b :: u32) :: u64) = unat a * unat b"
  by (rule unat_widened_mult)

lemma frame_rate_cmp_nat:
  "frame_rate_cmp a b =
     (let x = unat (fr_numerator a) * unat (fr_denominator b);
          y = unat (fr_numerator b) * unat (fr_denominator a)
      in if x < y then Less else if x = y then Equal else Greater)"
  by (simp add: frame_rate_cmp_def u64_cmp_def word_less_nat_alt word_unat_eq_iff unat_cross Let_def)

lemma of_nat_divide_less_iff:
  assumes "0 < b" "0 < d"
  shows "(of_nat a / of_nat b :: rat) < of_nat c / of_nat d \<longleftrightarrow> a * d < c * b"
proof -
  have "(of_nat a / of_nat b :: rat) < of_nat c / of_nat d
      \<longleftrightarrow> (of_nat (a * d) :: rat) < of_nat (c * b)"
    using assms by (simp add: frac_less_eq field_simps)
  then show ?thesis by (simp only: of_nat_less_iff)
qed

lemma rate_less_iff:
  assumes "fr_denominator a \<noteq> 0" "fr_denominator b \<noteq> 0"
  shows "rate_of a < rate_of b \<longleftrightarrow>
    unat (fr_numerator a) * unat (fr_denominator b) < unat (fr_numerator b) * unat (fr_denominator a)"
  unfolding rate_of_def by (rule of_nat_divide_less_iff) (use assms in \<open>simp_all add: unat_gt_0\<close>)

lemma rate_eq_iff:
  assumes "fr_denominator a \<noteq> 0" "fr_denominator b \<noteq> 0"
  shows "rate_of a = rate_of b \<longleftrightarrow>
    unat (fr_numerator a) * unat (fr_denominator b) = unat (fr_numerator b) * unat (fr_denominator a)"
  using rate_less_iff [of a b] rate_less_iff [of b a] assms by (metis nat_neq_iff less_irrefl linorder_neqE)

lemma valid_rate_inject:
  assumes "valid_frame_rate a" "valid_frame_rate b"
  shows "rate_of a = rate_of b \<longleftrightarrow> a = b"
proof
  assume "rate_of a = rate_of b"
  then have "unat (fr_numerator a) * unat (fr_denominator b)
      = unat (fr_numerator b) * unat (fr_denominator a)"
    using assms by (simp add: rate_eq_iff valid_frame_rate_def)
  then show "a = b"
    using assms unfolding valid_frame_rate_def
    by (intro frame_rate_eqI) (simp_all add: coprime_crossproduct_nat)
qed simp

lemma valid_frame_rate_default [simp]: "valid_frame_rate frame_rate_default"
  by (simp add: valid_frame_rate_def frame_rate_default_def)

section \<open>Properties\<close>

text \<open>\<open>FrameRate::new\<close> accepts every pair of positive numbers and nothing else, and returns
  the one representation of the ratio in lowest terms: the same quotient, numerator and
  denominator coprime.  The Euclidean loop terminates on all \<open>u32\<close> pairs and nothing wraps.\<close>

theorem frame_rate_new_normalises:
  "frame_rate_new n d = Ok r \<longleftrightarrow>
     n \<noteq> 0 \<and> d \<noteq> 0 \<and> valid_frame_rate r
     \<and> unat (fr_numerator r) * unat d = unat n * unat (fr_denominator r)"
proof
  assume "frame_rate_new n d = Ok r"
  then show "n \<noteq> 0 \<and> d \<noteq> 0 \<and> valid_frame_rate r
     \<and> unat (fr_numerator r) * unat d = unat n * unat (fr_denominator r)"
    using frame_rate_new_Ok_fields frame_rate_new_valid frame_rate_new_cross by blast
next
  assume r: "n \<noteq> 0 \<and> d \<noteq> 0 \<and> valid_frame_rate r
     \<and> unat (fr_numerator r) * unat d = unat n * unat (fr_denominator r)"
  then show "frame_rate_new n d = Ok r" using frame_rate_new_unique by blast
qed

text \<open>On the rates the crate can hold, \<open>Ord for FrameRate\<close> is the order of the rational
  numbers, with no overflow in the cross products, and it agrees with the derived equality, as
  Rust requires of \<open>Ord\<close>.\<close>

theorem frame_rate_ord:
  assumes "valid_frame_rate a" "valid_frame_rate b"
  shows "frame_rate_cmp a b =
    (if rate_of a < rate_of b then Less else if a = b then Equal else Greater)"
proof -
  have "fr_denominator a \<noteq> 0" "fr_denominator b \<noteq> 0"
    using assms by (simp_all add: valid_frame_rate_def)
  then show ?thesis
    using valid_rate_inject [OF assms]
    by (simp add: frame_rate_cmp_nat Let_def rate_less_iff rate_eq_iff)
qed

lemma frame_rate_ord_witness:
  "frame_rate_cmp \<lparr>fr_numerator = 30000, fr_denominator = 1001\<rparr> \<lparr>fr_numerator = 30, fr_denominator = 1\<rparr>
   = Less"
proof -
  have "coprime (30000 :: nat) 1001" by (simp add: coprime_iff_gcd_eq_1 gcd_non_0_nat)
  then show ?thesis
    using frame_rate_ord [of "\<lparr>fr_numerator = 30000, fr_denominator = 1001\<rparr>"
        "\<lparr>fr_numerator = 30, fr_denominator = 1\<rparr>"]
    by (simp add: valid_frame_rate_def rate_of_def)
qed

end
