(* ===== verification/Video_Types.thy ===== *)
theory Video_Types
  imports Frame_Rate
begin

text \<open>
  The core data types (\<open>src/types.rs\<close>): video formats and the size of a frame, stream
  configurations and their validation, device information, and the values and ranges of camera
  controls.
\<close>

section \<open>Video formats\<close>

datatype video_format = MJPEG | YUYV | UYVY | NV12 | RGB | VideoH264 | Gray

fun video_format_debug :: "video_format \<Rightarrow> string" where
  "video_format_debug MJPEG = ''MJPEG''"
| "video_format_debug YUYV = ''YUYV''"
| "video_format_debug UYVY = ''UYVY''"
| "video_format_debug NV12 = ''NV12''"
| "video_format_debug RGB = ''RGB''"
| "video_format_debug VideoH264 = ''H264''"
| "video_format_debug Gray = ''Gray''"

text \<open>\<open>self as u8\<close>: the position in the declaration.\<close>

fun video_format_index :: "video_format \<Rightarrow> nat" where
  "video_format_index MJPEG = 0"
| "video_format_index YUYV = 1"
| "video_format_index UYVY = 2"
| "video_format_index NV12 = 3"
| "video_format_index RGB = 4"
| "video_format_index VideoH264 = 5"
| "video_format_index Gray = 6"

fun is_compressed :: "video_format \<Rightarrow> bool" where
  "is_compressed MJPEG \<longleftrightarrow> True"
| "is_compressed VideoH264 \<longleftrightarrow> True"
| "is_compressed _ \<longleftrightarrow> False"

fun bytes_per_pixel :: "video_format \<Rightarrow> usize option" where
  "bytes_per_pixel YUYV = Some 2"
| "bytes_per_pixel UYVY = Some 2"
| "bytes_per_pixel NV12 = None"
| "bytes_per_pixel RGB = Some 3"
| "bytes_per_pixel Gray = Some 1"
| "bytes_per_pixel _ = None"

definition checked_pixel_count :: "u32 \<Rightarrow> u32 \<Rightarrow> usize option" where
  "checked_pixel_count width height =
     (if width = 0 \<or> height = 0 then None else checked_mul (unat width) (unat height))"

definition frame_data_size :: "video_format \<Rightarrow> u32 \<Rightarrow> u32 \<Rightarrow> usize option" where
  "frame_data_size format width height =
     Option.bind (checked_pixel_count width height) (\<lambda>pixels.
       case format of
         YUYV \<Rightarrow> if width mod 2 \<noteq> 0 then None else checked_mul pixels 2
       | UYVY \<Rightarrow> if width mod 2 \<noteq> 0 then None else checked_mul pixels 2
       | NV12 \<Rightarrow>
           if width mod 2 \<noteq> 0 \<or> height mod 2 \<noteq> 0 then None
           else checked_add pixels (pixels div 2)
       | RGB \<Rightarrow> checked_mul pixels 3
       | Gray \<Rightarrow> Some pixels
       | _ \<Rightarrow> None)"

section \<open>Stream configurations\<close>

record camera_config =
  cfg_format :: video_format
  cfg_width :: u32
  cfg_height :: u32
  cfg_fps :: u32
  cfg_fps_denominator :: u32

definition camera_config_new :: "video_format \<Rightarrow> u32 \<Rightarrow> u32 \<Rightarrow> u32 \<Rightarrow> camera_config" where
  "camera_config_new format width height fps =
     \<lparr>cfg_format = format, cfg_width = width, cfg_height = height, cfg_fps = fps,
      cfg_fps_denominator = 1\<rparr>"

definition default_mjpeg :: camera_config where
  "default_mjpeg = camera_config_new MJPEG 640 480 30"

definition hd_mjpeg :: camera_config where
  "hd_mjpeg = camera_config_new MJPEG 1280 720 30"

definition full_hd_mjpeg :: camera_config where
  "full_hd_mjpeg = camera_config_new MJPEG 1920 1080 30"

definition default_yuyv :: camera_config where
  "default_yuyv = camera_config_new YUYV 640 480 30"

definition frame_size :: "camera_config \<Rightarrow> usize option" where
  "frame_size c = frame_data_size (cfg_format c) (cfg_width c) (cfg_height c)"

definition with_frame_rate :: "camera_config \<Rightarrow> frame_rate \<Rightarrow> camera_config" where
  "with_frame_rate c r =
     c\<lparr>cfg_fps := fr_numerator r, cfg_fps_denominator := fr_denominator r\<rparr>"

definition config_frame_rate :: "camera_config \<Rightarrow> frame_rate camera_result" where
  "config_frame_rate c = frame_rate_new (cfg_fps c) (cfg_fps_denominator c)"

definition config_validate :: "camera_config \<Rightarrow> unit camera_result" where
  "config_validate c =
     (if cfg_width c = 0 \<or> cfg_height c = 0
      then Err (invalid_config ''Resolution cannot be 0'')
      else if cfg_fps c = 0 \<or> cfg_fps_denominator c = 0
      then Err (invalid_config ''Frame rate numerator and denominator must be positive'')
      else if \<not> is_compressed (cfg_format c) \<and> frame_size c = None
      then Err (invalid_config
        (''Resolution '' @ show_nat (unat (cfg_width c)) @ ''x'' @ show_nat (unat (cfg_height c))
         @ '' cannot represent '' @ video_format_debug (cfg_format c) @ '' frame data''))
      else Ok ())"

section \<open>Device information\<close>

record camera_device_info =
  cdi_index :: u32
  cdi_name :: string
  cdi_description :: string
  cdi_vendor_id :: "u16 option"
  cdi_product_id :: "u16 option"
  cdi_serial_number :: "string option"
  cdi_device_path :: "string option"

definition camera_device_info_new :: "u32 \<Rightarrow> string \<Rightarrow> string \<Rightarrow> camera_device_info" where
  "camera_device_info_new index name description =
     \<lparr>cdi_index = index, cdi_name = name, cdi_description = description, cdi_vendor_id = None,
      cdi_product_id = None, cdi_serial_number = None, cdi_device_path = None\<rparr>"

text \<open>\<open>format!("{:04x}")\<close> of a \<open>u16\<close>.\<close>

definition show_hex4 :: "u16 \<Rightarrow> string" where
  "show_hex4 w =
     (let n = unat w in
      [hex_digit (n div 4096), hex_digit (n div 256 mod 16), hex_digit (n div 16 mod 16),
       hex_digit (n mod 16)])"

definition unique_id :: "camera_device_info \<Rightarrow> string" where
  "unique_id d =
     (case cdi_device_path d of
        Some path \<Rightarrow>
          if path \<noteq> [] then path
          else (case (cdi_vendor_id d, cdi_product_id d) of
                  (Some vid, Some pid) \<Rightarrow>
                    (case cdi_serial_number d of
                       Some serial \<Rightarrow> show_hex4 vid @ '':'' @ show_hex4 pid @ '':'' @ serial
                     | None \<Rightarrow> show_hex4 vid @ '':'' @ show_hex4 pid @ '':''
                         @ show_nat (unat (cdi_index d)))
                | _ \<Rightarrow> ''device:'' @ show_nat (unat (cdi_index d)))
      | None \<Rightarrow>
          (case (cdi_vendor_id d, cdi_product_id d) of
             (Some vid, Some pid) \<Rightarrow>
               (case cdi_serial_number d of
                  Some serial \<Rightarrow> show_hex4 vid @ '':'' @ show_hex4 pid @ '':'' @ serial
                | None \<Rightarrow> show_hex4 vid @ '':'' @ show_hex4 pid @ '':''
                    @ show_nat (unat (cdi_index d)))
           | _ \<Rightarrow> ''device:'' @ show_nat (unat (cdi_index d))))"

section \<open>Control types, values and ranges\<close>

datatype camera_control_type =
  Brightness | Contrast | Hue | Saturation | Sharpness | Gamma | WhiteBalance
  | BacklightCompensation | Gain | Pan | Tilt | Zoom | Exposure | Iris | Focus
  | AutoExposure | AutoFocus | AutoWhiteBalance

fun is_auto_control :: "camera_control_type \<Rightarrow> bool" where
  "is_auto_control AutoExposure \<longleftrightarrow> True"
| "is_auto_control AutoFocus \<longleftrightarrow> True"
| "is_auto_control AutoWhiteBalance \<longleftrightarrow> True"
| "is_auto_control _ \<longleftrightarrow> False"

fun control_type_display_name :: "camera_control_type \<Rightarrow> string" where
  "control_type_display_name Brightness = ''Brightness''"
| "control_type_display_name Contrast = ''Contrast''"
| "control_type_display_name Hue = ''Hue''"
| "control_type_display_name Saturation = ''Saturation''"
| "control_type_display_name Sharpness = ''Sharpness''"
| "control_type_display_name Gamma = ''Gamma''"
| "control_type_display_name WhiteBalance = ''White Balance''"
| "control_type_display_name BacklightCompensation = ''Backlight Compensation''"
| "control_type_display_name Gain = ''Gain''"
| "control_type_display_name Pan = ''Pan''"
| "control_type_display_name Tilt = ''Tilt''"
| "control_type_display_name Zoom = ''Zoom''"
| "control_type_display_name Exposure = ''Exposure''"
| "control_type_display_name Iris = ''Iris''"
| "control_type_display_name Focus = ''Focus''"
| "control_type_display_name AutoExposure = ''Auto Exposure''"
| "control_type_display_name AutoFocus = ''Auto Focus''"
| "control_type_display_name AutoWhiteBalance = ''Auto White Balance''"

text \<open>
  An \<open>f32\<close> is its IEEE 754 bit pattern.  The cast \<open>f as i32\<close> truncates toward zero, saturates
  at the bounds of \<open>i32\<close>, and sends NaN to zero.
\<close>

definition f32_sign :: "u32 \<Rightarrow> bool" where
  "f32_sign w \<longleftrightarrow> bit w 31"

definition f32_exponent :: "u32 \<Rightarrow> nat" where
  "f32_exponent w = unat (take_bit 8 (drop_bit 23 w))"

definition f32_fraction :: "u32 \<Rightarrow> nat" where
  "f32_fraction w = unat (take_bit 23 w)"

definition clamp_int :: "int \<Rightarrow> int \<Rightarrow> int \<Rightarrow> int" where
  "clamp_int lo hi v = (if v < lo then lo else if hi < v then hi else v)"

definition f32_to_i32 :: "u32 \<Rightarrow> int" where
  "f32_to_i32 w =
     (let e = f32_exponent w; m = f32_fraction w in
      if e = 255 then (if m \<noteq> 0 then 0 else if f32_sign w then - 2147483648 else 2147483647)
      else
        let significand = (if e = 0 then m else 8388608 + m);
            magnitude = (if 150 \<le> e then significand * 2 ^ (e - 150)
                         else significand div 2 ^ (150 - max e 1))
        in clamp_int (- 2147483648) 2147483647
             (if f32_sign w then - int magnitude else int magnitude))"

datatype camera_control_value =
  Integer (cv_value: i32) (cv_is_auto: bool)
  | Boolean bool
  | Float u32

definition manual :: "i32 \<Rightarrow> camera_control_value" where
  "manual v = Integer v False"

definition auto_value :: "i32 \<Rightarrow> camera_control_value" where
  "auto_value v = Integer v True"

fun as_i32 :: "camera_control_value \<Rightarrow> i32 option" where
  "as_i32 (Integer v _) = Some v"
| "as_i32 (Boolean b) = Some (if b then 1 else 0)"
| "as_i32 (Float f) = Some (word_of_int (f32_to_i32 f))"

fun as_bool :: "camera_control_value \<Rightarrow> bool option" where
  "as_bool (Boolean b) = Some b"
| "as_bool (Integer v _) = Some (v \<noteq> 0)"
| "as_bool (Float _) = None"

fun value_is_auto :: "camera_control_value \<Rightarrow> bool" where
  "value_is_auto (Integer _ a) \<longleftrightarrow> a"
| "value_is_auto _ \<longleftrightarrow> False"

record control_range =
  rng_min :: i32
  rng_max :: i32
  rng_step :: i32
  rng_default :: i32
  rng_supports_auto :: bool

definition ordered_bounds :: "control_range \<Rightarrow> i32 \<times> i32" where
  "ordered_bounds r =
     (if sint (rng_min r) \<le> sint (rng_max r) then (rng_min r, rng_max r)
      else (rng_max r, rng_min r))"

definition is_in_range :: "control_range \<Rightarrow> i32 \<Rightarrow> bool" where
  "is_in_range r v =
     (case ordered_bounds r of (lo, hi) \<Rightarrow> sint lo \<le> sint v \<and> sint v \<le> sint hi)"

text \<open>\<open>value.clamp(min, max)\<close> of \<open>i32\<close>: panics when the bounds are out of order.\<close>

definition i32_clamp :: "i32 \<Rightarrow> i32 \<Rightarrow> i32 \<Rightarrow> (i32, camera_error) result" where
  "i32_clamp v lo hi =
     (if sint lo \<le> sint hi
      then Ok (if sint v < sint lo then lo else if sint hi < sint v then hi else v)
      else Panic)"

definition range_clamp :: "control_range \<Rightarrow> i32 \<Rightarrow> (i32, camera_error) result" where
  "range_clamp r v = (case ordered_bounds r of (lo, hi) \<Rightarrow> i32_clamp v lo hi)"

section \<open>Lemmas and properties\<close>

text \<open>
  What the size computation means, without overflow: bits per pixel of each uncompressed format,
  and the parity its subsampling needs.
\<close>

fun bits_per_pixel :: "video_format \<Rightarrow> nat" where
  "bits_per_pixel YUYV = 16"
| "bits_per_pixel UYVY = 16"
| "bits_per_pixel NV12 = 12"
| "bits_per_pixel RGB = 24"
| "bits_per_pixel Gray = 8"
| "bits_per_pixel _ = 0"

fun parity_ok :: "video_format \<Rightarrow> nat \<Rightarrow> nat \<Rightarrow> bool" where
  "parity_ok YUYV w h \<longleftrightarrow> even w"
| "parity_ok UYVY w h \<longleftrightarrow> even w"
| "parity_ok NV12 w h \<longleftrightarrow> even w \<and> even h"
| "parity_ok _ w h \<longleftrightarrow> True"

lemma word_mod_2_iff: "(w :: u32) mod 2 = 0 \<longleftrightarrow> even (unat w)"
  by (simp add: word_unat_eq_iff unat_mod even_iff_mod_2_eq_zero)

lemma unat_pos_iff: "0 < unat (w :: u32) \<longleftrightarrow> w \<noteq> 0"
  by (simp add: unat_gt_0)

lemma checked_pixel_count_eq:
  "checked_pixel_count w h =
     (if w = 0 \<or> h = 0 then None else Some (unat w * unat h))"
  using unat_u32_mult_bound [of w h] by (simp add: checked_pixel_count_def checked_mul_def)

lemma bits_times_div_8:
  "p * 16 div 8 = p * (2 :: nat)" "p * 24 div 8 = p * (3 :: nat)" "p * 8 div 8 = (p :: nat)"
  by simp_all

lemma twelve_bits: "even p \<Longrightarrow> p * 12 div 8 = p + p div (2 :: nat)"
  by (elim evenE) simp

lemma frame_data_size_eq:
  "frame_data_size f w h =
     (if w \<noteq> 0 \<and> h \<noteq> 0 \<and> \<not> is_compressed f \<and> parity_ok f (unat w) (unat h)
         \<and> unat w * unat h * bits_per_pixel f div 8 < usize_bound
      then Some (unat w * unat h * bits_per_pixel f div 8) else None)"
  using unat_u32_mult_bound [of w h]
  by (cases f)
    (auto simp: frame_data_size_def checked_pixel_count_eq checked_mul_def checked_add_def
      word_mod_2_iff bits_times_div_8 twelve_bits)

text \<open>\<open>CameraConfig::validate\<close> accepts exactly the configurations with a positive
  resolution and rate whose frame is representable: a compressed format, or an uncompressed one
  whose chroma subsampling divides the resolution and whose frame fits in \<open>usize\<close>.  Then the
  reported frame size is width times height times the bits per pixel of the format, with no
  wrap-around, and the frame rate of the configuration exists.\<close>

theorem config_validate_representable:
  "config_validate c = Ok () \<longleftrightarrow>
     cfg_width c \<noteq> 0 \<and> cfg_height c \<noteq> 0 \<and> is_ok (config_frame_rate c)
     \<and> (is_compressed (cfg_format c)
        \<or> parity_ok (cfg_format c) (unat (cfg_width c)) (unat (cfg_height c))
          \<and> unat (cfg_width c) * unat (cfg_height c) * bits_per_pixel (cfg_format c) div 8
            < usize_bound
          \<and> frame_size c
            = Some (unat (cfg_width c) * unat (cfg_height c) * bits_per_pixel (cfg_format c) div 8))"
  by (auto simp: config_validate_def frame_size_def frame_data_size_eq config_frame_rate_def
      frame_rate_new_def Let_def split: if_splits)

text \<open>Clamping a control value to a range never panics, even when a driver reports the
  bounds in the wrong order; the result lies in the range, a value already in range is
  unchanged, and no other value of the range is closer to the request.\<close>

theorem range_clamp_nearest:
  "\<exists>u. range_clamp r v = Ok u \<and> is_in_range r u \<and> (is_in_range r v \<longleftrightarrow> u = v)
     \<and> (\<forall>w. is_in_range r w \<longrightarrow> \<bar>sint u - sint v\<bar> \<le> \<bar>sint w - sint v\<bar>)"
  by (auto simp: range_clamp_def i32_clamp_def is_in_range_def ordered_bounds_def)

lemma range_clamp_nearest_witness:
  "range_clamp \<lparr>rng_min = 100, rng_max = 0, rng_step = 1, rng_default = 50,
     rng_supports_auto = False\<rparr> 300 = Ok 100"
proof -
  let ?r = "\<lparr>rng_min = 100, rng_max = 0, rng_step = 1, rng_default = 50,
     rng_supports_auto = False\<rparr>"
  obtain u where u: "range_clamp ?r 300 = Ok u" "is_in_range ?r u"
    "\<forall>w. is_in_range ?r w \<longrightarrow> \<bar>sint u - sint (300 :: i32)\<bar> \<le> \<bar>sint w - sint (300 :: i32)\<bar>"
    using range_clamp_nearest [of ?r 300] by blast
  have "is_in_range ?r 100" by (simp add: is_in_range_def ordered_bounds_def)
  with u have "sint u = 100" by (fastforce simp: is_in_range_def ordered_bounds_def)
  then have "u = 100" by (simp add: signed_word_eqI)
  with u show ?thesis by simp
qed

end
