(* ===== verification/Request.thy ===== *)
theory Request
  imports Video_Types
begin

text \<open>
  Capture requests: the backend-level \<open>StreamRequest\<close> with its builder (\<open>src/format.rs\<close>), the
  public \<open>CaptureRequest\<close> with its builder, the capture formats and the subscription and
  backend options (\<open>src/contract.rs\<close>).  A \<open>Duration\<close> is a number of nanoseconds.
\<close>

type_synonym duration = nat

definition from_secs :: "nat \<Rightarrow> duration" where
  "from_secs s = s * 1000000000"

definition from_millis :: "nat \<Rightarrow> duration" where
  "from_millis s = s * 1000000"

section \<open>Policies and budgets\<close>

datatype output_format = OutputRgb8 | OutputNative

datatype selection_policy = Exact | Closest

datatype overflow_policy = DropOldest | DropNewest

datatype delivery_policy =
  Latest
  | Buffered (del_capacity: usize) (del_overflow: overflow_policy)

record memory_budget =
  mb_buffers :: usize
  mb_bytes :: usize

definition memory_budget_default :: memory_budget where
  "memory_budget_default = \<lparr>mb_buffers = 6, mb_bytes = 192 * 1024 * 1024\<rparr>"

definition memory_budget_validate :: "memory_budget \<Rightarrow> unit camera_result" where
  "memory_budget_validate b =
     (if \<not> (2 \<le> mb_buffers b \<and> mb_buffers b \<le> 256) \<or> mb_bytes b = 0
      then Err (invalid_config ''Memory budget requires 2..=256 buffers and nonzero bytes'')
      else Ok ())"

record reconnect_policy =
  rp_max_attempts :: "u32 option"
  rp_delay :: duration
  rp_stall_timeout :: duration

definition reconnect_policy_default :: reconnect_policy where
  "reconnect_policy_default =
     \<lparr>rp_max_attempts = Some 10, rp_delay = from_secs 1, rp_stall_timeout = from_secs 5\<rparr>"

section \<open>Stream requests\<close>

record stream_request =
  sr_width :: u32
  sr_height :: u32
  sr_fps :: frame_rate
  sr_format :: "video_format option"
  sr_output :: output_format
  sr_selection :: selection_policy
  sr_memory :: memory_budget
  sr_startup_timeout :: duration
  sr_driver_buffers :: "usize option"
  sr_reconnect :: "reconnect_policy option"

definition stream_builder :: stream_request where
  "stream_builder =
     \<lparr>sr_width = 640, sr_height = 480, sr_fps = frame_rate_default, sr_format = None,
      sr_output = OutputNative, sr_selection = Closest, sr_memory = memory_budget_default,
      sr_startup_timeout = from_secs 3, sr_driver_buffers = None, sr_reconnect = None\<rparr>"

definition sr_resolution :: "stream_request \<Rightarrow> u32 \<Rightarrow> u32 \<Rightarrow> stream_request" where
  "sr_resolution r w h = r\<lparr>sr_width := w, sr_height := h\<rparr>"

definition sr_frame_rate :: "stream_request \<Rightarrow> frame_rate \<Rightarrow> stream_request" where
  "sr_frame_rate r fps = r\<lparr>sr_fps := fps\<rparr>"

definition sr_capture_format :: "stream_request \<Rightarrow> video_format \<Rightarrow> stream_request" where
  "sr_capture_format r f = r\<lparr>sr_format := Some f\<rparr>"

definition sr_set_output :: "stream_request \<Rightarrow> output_format \<Rightarrow> stream_request" where
  "sr_set_output r v = r\<lparr>sr_output := v\<rparr>"

definition sr_set_selection :: "stream_request \<Rightarrow> selection_policy \<Rightarrow> stream_request" where
  "sr_set_selection r v = r\<lparr>sr_selection := v\<rparr>"

definition sr_memory_budget :: "stream_request \<Rightarrow> memory_budget \<Rightarrow> stream_request" where
  "sr_memory_budget r v = r\<lparr>sr_memory := v\<rparr>"

definition sr_set_startup_timeout :: "stream_request \<Rightarrow> duration \<Rightarrow> stream_request" where
  "sr_set_startup_timeout r v = r\<lparr>sr_startup_timeout := v\<rparr>"

definition sr_set_reconnect :: "stream_request \<Rightarrow> reconnect_policy \<Rightarrow> stream_request" where
  "sr_set_reconnect r v = r\<lparr>sr_reconnect := Some v\<rparr>"

definition stream_request_build :: "stream_request \<Rightarrow> stream_request camera_result" where
  "stream_request_build r =
     and_then (memory_budget_validate (sr_memory r)) (\<lambda>_.
       let rgb = Option.bind (checked_mul (unat (sr_width r)) (unat (sr_height r)))
                   (\<lambda>n. checked_mul n 3) in
       if sr_width r = 0 \<or> sr_height r = 0 \<or> rgb = None \<or> sr_startup_timeout r = 0
       then Err (invalid_config ''Invalid resolution/startup deadline'')
       else and_then
         (if sr_output r = OutputRgb8
          then and_then (unwrap rgb)
            (\<lambda>n. Ok (n > mb_bytes (sr_memory r) div mb_buffers (sr_memory r)))
          else Ok False) (\<lambda>exceeds.
         if exceeds then Err (invalid_config ''RGB buffers exceed memory budget'')
         else if (case sr_driver_buffers r of None \<Rightarrow> False
                  | Some n \<Rightarrow> \<not> (2 \<le> n \<and> n \<le> 32))
         then Err (invalid_config ''Driver buffer count must be 2..=32'')
         else if (case sr_reconnect r of None \<Rightarrow> False
                  | Some p \<Rightarrow> rp_delay p = 0 \<or> rp_stall_timeout p = 0 \<or> rp_max_attempts p = Some 0)
         then Err (invalid_config ''Invalid reconnect policy'')
         else Ok r))"

section \<open>Capture formats\<close>

datatype capture_format =
  CaptureMjpeg | CaptureYuyv | CaptureUyvy | CaptureNv12 | CaptureRgb8 | CaptureH264
  | CaptureGray8

text \<open>\<open>format as u8\<close>.\<close>

fun capture_format_index :: "capture_format \<Rightarrow> nat" where
  "capture_format_index CaptureMjpeg = 0"
| "capture_format_index CaptureYuyv = 1"
| "capture_format_index CaptureUyvy = 2"
| "capture_format_index CaptureNv12 = 3"
| "capture_format_index CaptureRgb8 = 4"
| "capture_format_index CaptureH264 = 5"
| "capture_format_index CaptureGray8 = 6"

fun video_of_capture :: "capture_format \<Rightarrow> video_format" where
  "video_of_capture CaptureMjpeg = MJPEG"
| "video_of_capture CaptureYuyv = YUYV"
| "video_of_capture CaptureUyvy = UYVY"
| "video_of_capture CaptureNv12 = NV12"
| "video_of_capture CaptureRgb8 = RGB"
| "video_of_capture CaptureH264 = VideoH264"
| "video_of_capture CaptureGray8 = Gray"

fun capture_of_video :: "video_format \<Rightarrow> capture_format" where
  "capture_of_video MJPEG = CaptureMjpeg"
| "capture_of_video YUYV = CaptureYuyv"
| "capture_of_video UYVY = CaptureUyvy"
| "capture_of_video NV12 = CaptureNv12"
| "capture_of_video RGB = CaptureRgb8"
| "capture_of_video VideoH264 = CaptureH264"
| "capture_of_video Gray = CaptureGray8"

section \<open>Capture requests\<close>

datatype negotiation_priority = LowLatency | LowCpu | LowBandwidth | Fidelity

datatype capture_profile = Preview | Recognition | Recording | NativeRelay

record capture_request =
  cr_width :: u32
  cr_height :: u32
  cr_preferred_fps :: frame_rate
  cr_minimum_fps :: "frame_rate option"
  cr_preferred_formats :: "capture_format list"
  cr_priority :: negotiation_priority
  cr_exact_resolution :: bool
  cr_required_aspect_ratio :: "(u32 \<times> u32) option"
  cr_memory :: memory_budget
  cr_startup_timeout :: duration
  cr_reconnect :: "reconnect_policy option"

definition capture_builder :: capture_request where
  "capture_builder =
     \<lparr>cr_width = 640, cr_height = 480, cr_preferred_fps = frame_rate_default,
      cr_minimum_fps = None, cr_preferred_formats = [], cr_priority = LowCpu,
      cr_exact_resolution = False, cr_required_aspect_ratio = None,
      cr_memory = memory_budget_default, cr_startup_timeout = from_secs 3, cr_reconnect = None\<rparr>"

definition to_stream_request :: "capture_request \<Rightarrow> stream_request camera_result" where
  "to_stream_request q =
     (let b = sr_set_startup_timeout
            (sr_memory_budget
              (sr_set_selection
                (sr_set_output
                  (sr_frame_rate (sr_resolution stream_builder (cr_width q) (cr_height q))
                    (cr_preferred_fps q)) OutputNative) Closest) (cr_memory q))
            (cr_startup_timeout q);
          b = (case cr_preferred_formats q of [] \<Rightarrow> b
               | f # _ \<Rightarrow> sr_capture_format b (video_of_capture f));
          b = (case cr_reconnect q of None \<Rightarrow> b | Some p \<Rightarrow> sr_set_reconnect b p)
      in stream_request_build b)"

definition cr_preferred_resolution :: "capture_request \<Rightarrow> u32 \<Rightarrow> u32 \<Rightarrow> capture_request" where
  "cr_preferred_resolution q w h = q\<lparr>cr_width := w, cr_height := h\<rparr>"

definition cr_set_exact_resolution :: "capture_request \<Rightarrow> u32 \<Rightarrow> u32 \<Rightarrow> capture_request" where
  "cr_set_exact_resolution q w h =
     q\<lparr>cr_width := w, cr_height := h, cr_exact_resolution := True\<rparr>"

definition cr_require_aspect_ratio :: "capture_request \<Rightarrow> u32 \<Rightarrow> u32 \<Rightarrow> capture_request" where
  "cr_require_aspect_ratio q w h = q\<lparr>cr_required_aspect_ratio := Some (w, h)\<rparr>"

definition cr_preferred_frame_rate :: "capture_request \<Rightarrow> frame_rate \<Rightarrow> capture_request" where
  "cr_preferred_frame_rate q r = q\<lparr>cr_preferred_fps := r\<rparr>"

definition cr_minimum_frame_rate :: "capture_request \<Rightarrow> frame_rate \<Rightarrow> capture_request" where
  "cr_minimum_frame_rate q r = q\<lparr>cr_minimum_fps := Some r\<rparr>"

definition cr_set_preferred_formats ::
  "capture_request \<Rightarrow> capture_format list \<Rightarrow> capture_request" where
  "cr_set_preferred_formats q fs = q\<lparr>cr_preferred_formats := fs\<rparr>"

definition cr_set_priority :: "capture_request \<Rightarrow> negotiation_priority \<Rightarrow> capture_request" where
  "cr_set_priority q p = q\<lparr>cr_priority := p\<rparr>"

definition cr_memory_budget :: "capture_request \<Rightarrow> memory_budget \<Rightarrow> capture_request" where
  "cr_memory_budget q b = q\<lparr>cr_memory := b\<rparr>"

definition cr_set_startup_timeout :: "capture_request \<Rightarrow> duration \<Rightarrow> capture_request" where
  "cr_set_startup_timeout q t = q\<lparr>cr_startup_timeout := t\<rparr>"

definition cr_set_reconnect :: "capture_request \<Rightarrow> reconnect_policy \<Rightarrow> capture_request" where
  "cr_set_reconnect q p = q\<lparr>cr_reconnect := Some p\<rparr>"

text \<open>\<open>sort_by_key\<close> is stable; \<open>dedup\<close> removes equal neighbours (\<open>remdups_adj\<close>).\<close>

definition capture_request_build :: "capture_request \<Rightarrow> capture_request camera_result" where
  "capture_request_build q =
     and_then (to_stream_request q) (\<lambda>_.
       if (case cr_minimum_fps q of None \<Rightarrow> False
           | Some m \<Rightarrow> frame_rate_greater m (cr_preferred_fps q))
       then Err (invalid_config ''Minimum frame rate exceeds preferred frame rate'')
       else if (case cr_required_aspect_ratio q of None \<Rightarrow> False
                | Some (w, h) \<Rightarrow> w = 0 \<or> h = 0)
       then Err (invalid_config ''Required aspect ratio must be positive'')
       else if length (cr_preferred_formats q) > 1
         \<and> length (remdups_adj (sort_key capture_format_index (cr_preferred_formats q)))
             \<noteq> length (cr_preferred_formats q)
       then Err (invalid_config ''Preferred capture formats contain duplicates'')
       else Ok q)"

section \<open>Subscription options\<close>

record subscription_options =
  so_delivery :: delivery_policy
  so_max_rate :: "frame_rate option"

definition so_latest :: subscription_options where
  "so_latest = \<lparr>so_delivery = Latest, so_max_rate = None\<rparr>"

definition so_buffered :: "usize \<Rightarrow> subscription_options" where
  "so_buffered capacity = \<lparr>so_delivery = Buffered capacity DropOldest, so_max_rate = None\<rparr>"

definition so_overflow :: "subscription_options \<Rightarrow> overflow_policy \<Rightarrow> subscription_options" where
  "so_overflow s v =
     (case so_delivery s of
        Buffered capacity _ \<Rightarrow> s\<lparr>so_delivery := Buffered capacity v\<rparr>
      | Latest \<Rightarrow> s)"

definition so_set_max_rate :: "subscription_options \<Rightarrow> frame_rate \<Rightarrow> subscription_options" where
  "so_set_max_rate s r = s\<lparr>so_max_rate := Some r\<rparr>"

definition subscription_validate ::
  "subscription_options \<Rightarrow> memory_budget \<Rightarrow> unit camera_result" where
  "subscription_validate s budget =
     (case so_delivery s of
        Buffered capacity _ \<Rightarrow>
          if capacity = 0 \<or> capacity \<ge> mb_buffers budget
          then Err (invalid_config
            ''Subscription queue must be positive and smaller than the frame pool'')
          else Ok ()
      | Latest \<Rightarrow> Ok ())"

section \<open>Backend options\<close>

record v4l2_options =
  v4l2_mmap_buffers :: "usize option"

datatype camera2_request_template = TemplatePreview | TemplateStillCapture | TemplateRecord

fun template_native_value :: "camera2_request_template \<Rightarrow> i32" where
  "template_native_value TemplatePreview = 1"
| "template_native_value TemplateStillCapture = 2"
| "template_native_value TemplateRecord = 3"

record camera2_options =
  c2_max_images :: "u32 option"
  c2_request_template :: "camera2_request_template option"

datatype late_frame_policy = DropLate | DeliverLate

record av_foundation_options =
  av_late_frames :: late_frame_policy

definition set_late_frames ::
  "av_foundation_options \<Rightarrow> late_frame_policy \<Rightarrow> av_foundation_options" where
  "set_late_frames opts p = opts\<lparr>av_late_frames := p\<rparr>"

definition set_max_images :: "camera2_options \<Rightarrow> u32 \<Rightarrow> camera2_options" where
  "set_max_images opts n = opts\<lparr>c2_max_images := Some n\<rparr>"

definition set_request_template ::
  "camera2_options \<Rightarrow> camera2_request_template \<Rightarrow> camera2_options" where
  "set_request_template opts t = opts\<lparr>c2_request_template := Some t\<rparr>"

definition set_mmap_buffers :: "v4l2_options \<Rightarrow> usize \<Rightarrow> v4l2_options" where
  "set_mmap_buffers opts n = opts\<lparr>v4l2_mmap_buffers := Some n\<rparr>"

datatype backend_options =
  OptV4l2 v4l2_options
  | OptCamera2 camera2_options
  | OptAvFoundation av_foundation_options

fun options_backend :: "backend_options \<Rightarrow> backend_id" where
  "options_backend (OptV4l2 _) = V4L2"
| "options_backend (OptCamera2 _) = CAMERA2"
| "options_backend (OptAvFoundation _) = AV_FOUNDATION"

fun options_validate :: "backend_options \<Rightarrow> unit camera_result" where
  "options_validate (OptV4l2 opts) =
     (case v4l2_mmap_buffers opts of
        Some n \<Rightarrow> if \<not> (2 \<le> n \<and> n \<le> 32)
          then Err (invalid_config ''V4L2 MMAP buffer count must be 2..=32'') else Ok ()
      | None \<Rightarrow> Ok ())"
| "options_validate (OptCamera2 opts) =
     (case c2_max_images opts of
        Some n \<Rightarrow> if \<not> (2 \<le> n \<and> n \<le> 16)
          then Err (invalid_config ''Camera2 max_images must be 2..=16'') else Ok ()
      | None \<Rightarrow> Ok ())"
| "options_validate (OptAvFoundation _) = Ok ()"

section \<open>Lemmas and properties\<close>

definition valid_memory_budget :: "memory_budget \<Rightarrow> bool" where
  "valid_memory_budget b \<longleftrightarrow> 2 \<le> mb_buffers b \<and> mb_buffers b \<le> 256 \<and> mb_bytes b \<noteq> 0"

definition valid_reconnect_policy :: "reconnect_policy \<Rightarrow> bool" where
  "valid_reconnect_policy p \<longleftrightarrow>
     rp_delay p \<noteq> 0 \<and> rp_stall_timeout p \<noteq> 0 \<and> rp_max_attempts p \<noteq> Some 0"

text \<open>What a request that passed \<open>StreamRequestBuilder::build\<close> satisfies.\<close>

definition valid_stream_request :: "stream_request \<Rightarrow> bool" where
  "valid_stream_request r \<longleftrightarrow>
     valid_memory_budget (sr_memory r) \<and> sr_width r \<noteq> 0 \<and> sr_height r \<noteq> 0
     \<and> unat (sr_width r) * unat (sr_height r) * 3 < usize_bound \<and> sr_startup_timeout r \<noteq> 0
     \<and> (sr_output r = OutputNative
        \<or> mb_buffers (sr_memory r) * (unat (sr_width r) * unat (sr_height r) * 3)
          \<le> mb_bytes (sr_memory r))
     \<and> (case sr_driver_buffers r of None \<Rightarrow> True | Some n \<Rightarrow> 2 \<le> n \<and> n \<le> 32)
     \<and> (case sr_reconnect r of None \<Rightarrow> True | Some p \<Rightarrow> valid_reconnect_policy p)"

lemma memory_budget_validate_Ok:
  "memory_budget_validate b = Ok () \<longleftrightarrow> valid_memory_budget b"
  by (auto simp: memory_budget_validate_def valid_memory_budget_def)

lemma rgb_bytes:
  "Option.bind (checked_mul (unat (w :: u32)) (unat (h :: u32))) (\<lambda>n. checked_mul n 3)
     = (if unat w * unat h * 3 < usize_bound then Some (unat w * unat h * 3) else None)"
  using unat_u32_mult_bound [of w h] by (simp add: checked_mul_def)

lemma fits_buffer_share:
  "0 < (b :: nat) \<Longrightarrow> m div b < n \<longleftrightarrow> m < b * n"
  by (simp add: div_less_iff_less_mult mult.commute)

lemma stream_request_build_Ok:
  "stream_request_build r = Ok r' \<longleftrightarrow> r' = r \<and> valid_stream_request r"
proof (cases "valid_memory_budget (sr_memory r)")
  case False
  then have "memory_budget_validate (sr_memory r) \<noteq> Ok ()"
    using memory_budget_validate_Ok by blast
  with False show ?thesis
    by (auto simp: stream_request_build_def result_simps valid_stream_request_def)
next
  case True
  then have "memory_budget_validate (sr_memory r) = Ok ()" "0 < mb_buffers (sr_memory r)"
    using memory_budget_validate_Ok [of "sr_memory r"] by (auto simp: valid_memory_budget_def)
  with True show ?thesis
    by (cases "sr_output r"; cases "sr_driver_buffers r"; cases "sr_reconnect r")
      (auto simp: stream_request_build_def rgb_bytes Let_def valid_stream_request_def unwrap_def
        fits_buffer_share valid_reconnect_policy_def)
qed

lemma stream_request_build_Err:
  "stream_request_build r = Err e \<Longrightarrow> err_kind e = InvalidArgument"
  by (auto simp: stream_request_build_def memory_budget_validate_def error_simps Let_def result_simps
      unwrap_def split: if_splits option.splits)

lemma stream_request_build_not_Panic: "stream_request_build r \<noteq> Panic"
  by (auto simp: stream_request_build_def memory_budget_validate_def Let_def result_simps
      unwrap_def split: if_splits option.splits)

lemma inj_capture_format_index: "inj capture_format_index"
proof (rule injI)
  show "capture_format_index a = capture_format_index b \<Longrightarrow> a = b" for a b
    by (cases a; cases b) simp_all
qed

lemma video_of_capture_inverse [simp]: "capture_of_video (video_of_capture f) = f"
  by (cases f) simp_all

lemma capture_of_video_inverse [simp]: "video_of_capture (capture_of_video f) = f"
  by (cases f) simp_all

lemma dedup_formats_iff:
  "length (remdups_adj (sort_key capture_format_index fs)) = length fs \<longleftrightarrow> distinct fs"
  by (rule sort_key_dedup_iff) (rule inj_on_subset [OF inj_capture_format_index], simp)

lemma short_list_distinct: "\<not> length xs > 1 \<Longrightarrow> distinct xs"
  by (cases xs) auto

lemma to_stream_request_Ok:
  "(\<exists>r. to_stream_request q = Ok r) \<longleftrightarrow>
     valid_memory_budget (cr_memory q) \<and> cr_width q \<noteq> 0 \<and> cr_height q \<noteq> 0
     \<and> unat (cr_width q) * unat (cr_height q) * 3 < usize_bound \<and> cr_startup_timeout q \<noteq> 0
     \<and> (case cr_reconnect q of None \<Rightarrow> True | Some p \<Rightarrow> valid_reconnect_policy p)"
  by (cases "cr_preferred_formats q"; cases "cr_reconnect q")
    (auto simp: to_stream_request_def stream_request_build_Ok valid_stream_request_def
      sr_set_startup_timeout_def sr_memory_budget_def sr_set_selection_def sr_set_output_def
      sr_frame_rate_def sr_resolution_def sr_capture_format_def sr_set_reconnect_def
      stream_builder_def)

text \<open>\<open>CaptureRequestBuilder::build\<close> returns the request itself, unchanged, exactly when
  the request is meaningful: a memory budget of 2 to 256 buffers and some bytes, a positive
  resolution whose RGB frame fits in \<open>usize\<close>, a deadline, a reconnect policy that can make
  progress, a minimum rate not above the preferred one, a positive aspect ratio, and no format
  listed twice.  Every other request is an invalid-argument error; no request makes the builder
  panic.\<close>

theorem capture_request_build_iff:
  "(capture_request_build q = Ok q' \<longleftrightarrow>
      q' = q \<and> valid_memory_budget (cr_memory q) \<and> cr_width q \<noteq> 0 \<and> cr_height q \<noteq> 0
      \<and> unat (cr_width q) * unat (cr_height q) * 3 < usize_bound \<and> cr_startup_timeout q \<noteq> 0
      \<and> (case cr_reconnect q of None \<Rightarrow> True | Some p \<Rightarrow> valid_reconnect_policy p)
      \<and> (case cr_minimum_fps q of None \<Rightarrow> True
         | Some m \<Rightarrow> frame_rate_cmp m (cr_preferred_fps q) \<noteq> Greater)
      \<and> (case cr_required_aspect_ratio q of None \<Rightarrow> True | Some (w, h) \<Rightarrow> w \<noteq> 0 \<and> h \<noteq> 0)
      \<and> distinct (cr_preferred_formats q))
   \<and> (is_ok (capture_request_build q)
      \<or> (\<exists>e. capture_request_build q = Err e \<and> err_kind e = InvalidArgument))"
proof (cases "\<exists>r. to_stream_request q = Ok r")
  case True
  then obtain r where r: "to_stream_request q = Ok r" by blast
  note valid = to_stream_request_Ok [of q, THEN iffD1, OF True]
  show ?thesis
    using valid r short_list_distinct [of "cr_preferred_formats q"]
    by (auto simp: capture_request_build_def dedup_formats_iff frame_rate_greater_def error_simps
        split: option.splits)
next
  case False
  then obtain e where e: "to_stream_request q = Err e" "err_kind e = InvalidArgument"
    using stream_request_build_not_Panic stream_request_build_Err
    by (cases "to_stream_request q") (auto simp: to_stream_request_def Let_def)
  then show ?thesis
    using False to_stream_request_Ok [of q] by (auto simp: capture_request_build_def)
qed

end
