(* ===== verification/Layout.thy ===== *)
theory Layout
  imports Request
begin

text \<open>
  Frame memory contracts (\<open>src/format.rs\<close>): pixel formats, plane and frame layouts, the
  validation every published layout passes, and the recognition of interleaved chroma planes.
  The lemmas show what a validated layout guarantees to the conversion routines: every sample
  of every plane lies inside the frame.
\<close>

section \<open>Pixel formats and colour\<close>

datatype pixel_format =
  Rgb8 | Bgr8 | Bgra8 | Rgba8 | Argb8 | Yuyv | Uyvy | Nv12 | Nv21 | Yuv420p | Gray8 | Mjpeg
  | H264

fun pixel_format_debug :: "pixel_format \<Rightarrow> string" where
  "pixel_format_debug Rgb8 = ''Rgb8''"
| "pixel_format_debug Bgr8 = ''Bgr8''"
| "pixel_format_debug Bgra8 = ''Bgra8''"
| "pixel_format_debug Rgba8 = ''Rgba8''"
| "pixel_format_debug Argb8 = ''Argb8''"
| "pixel_format_debug Yuyv = ''Yuyv''"
| "pixel_format_debug Uyvy = ''Uyvy''"
| "pixel_format_debug Nv12 = ''Nv12''"
| "pixel_format_debug Nv21 = ''Nv21''"
| "pixel_format_debug Yuv420p = ''Yuv420p''"
| "pixel_format_debug Gray8 = ''Gray8''"
| "pixel_format_debug Mjpeg = ''Mjpeg''"
| "pixel_format_debug H264 = ''H264''"

datatype color_matrix =
  MatrixUnknown | MatrixBt601 | MatrixBt709 | MatrixBt2020 | MatrixSmpte240M

datatype color_range = RangeUnknown | RangeFull | RangeLimited

datatype color_primaries =
  PrimariesUnknown | PrimariesBt709 | PrimariesBt601_525 | PrimariesBt601_625
  | PrimariesBt2020 | PrimariesDisplayP3

datatype transfer_function =
  TransferUnknown | TransferLinear | TransferSrgb | TransferBt709 | TransferPq | TransferHlg

record color_info =
  ci_matrix :: color_matrix
  ci_range :: color_range
  ci_primaries :: color_primaries
  ci_transfer :: transfer_function

definition color_info_default :: color_info where
  "color_info_default =
     \<lparr>ci_matrix = MatrixUnknown, ci_range = RangeUnknown, ci_primaries = PrimariesUnknown,
      ci_transfer = TransferUnknown\<rparr>"

datatype clock_domain = ClockUnknown | HostMonotonic | MediaPresentation | DeviceMonotonic

record source_timestamp =
  ts_nanoseconds :: i64
  ts_clock :: clock_domain

record orientation =
  or_rotation_degrees :: u16
  or_mirrored :: bool

definition orientation_default :: orientation where
  "orientation_default = \<lparr>or_rotation_degrees = 0, or_mirrored = False\<rparr>"

text \<open>\<open>TryFrom<PixelFormat> for CaptureFormat\<close> (\<open>src/contract.rs\<close>).\<close>

fun capture_of_pixel :: "pixel_format \<Rightarrow> capture_format camera_result" where
  "capture_of_pixel Mjpeg = Ok CaptureMjpeg"
| "capture_of_pixel Yuyv = Ok CaptureYuyv"
| "capture_of_pixel Uyvy = Ok CaptureUyvy"
| "capture_of_pixel Nv12 = Ok CaptureNv12"
| "capture_of_pixel Rgb8 = Ok CaptureRgb8"
| "capture_of_pixel H264 = Ok CaptureH264"
| "capture_of_pixel Gray8 = Ok CaptureGray8"
| "capture_of_pixel p =
     Err (unsupported_format (pixel_format_debug p @ '' has no capture-format equivalent''))"

section \<open>Plane and frame layouts\<close>

record plane_layout =
  pl_offset :: usize
  pl_length :: usize
  pl_row_stride :: usize
  pl_pixel_stride :: usize

record frame_layout =
  fl_width :: u32
  fl_height :: u32
  fl_format :: pixel_format
  fl_planes :: "plane_layout list"
  fl_color :: color_info
  fl_orientation :: orientation
  fl_bottom_up :: bool

definition rgb_layout :: "u32 \<Rightarrow> u32 \<Rightarrow> frame_layout" where
  "rgb_layout w h =
     \<lparr>fl_width = w, fl_height = h, fl_format = Rgb8,
      fl_planes =
        [\<lparr>pl_offset = 0,
          pl_length =
            (case Option.bind (checked_mul (unat w) (unat h)) (\<lambda>n. checked_mul n 3) of
               None \<Rightarrow> 0 | Some n \<Rightarrow> n),
          pl_row_stride = (case checked_mul (unat w) 3 of None \<Rightarrow> 0 | Some n \<Rightarrow> n),
          pl_pixel_stride = 3\<rparr>],
      fl_color = color_info_default, fl_orientation = orientation_default,
      fl_bottom_up = False\<rparr>"

definition packed_layout ::
  "u32 \<Rightarrow> u32 \<Rightarrow> pixel_format \<Rightarrow> usize \<Rightarrow> usize \<Rightarrow> frame_layout" where
  "packed_layout w h format stride len =
     (let pixel_stride =
        (case format of
           Rgb8 \<Rightarrow> 3 | Bgr8 \<Rightarrow> 3
         | Bgra8 \<Rightarrow> 4 | Rgba8 \<Rightarrow> 4 | Argb8 \<Rightarrow> 4
         | Yuyv \<Rightarrow> 2 | Uyvy \<Rightarrow> 2
         | _ \<Rightarrow> 1)
      in \<lparr>fl_width = w, fl_height = h, fl_format = format,
          fl_planes =
            [\<lparr>pl_offset = 0, pl_length = len, pl_row_stride = stride,
              pl_pixel_stride = pixel_stride\<rparr>],
          fl_color = color_info_default, fl_orientation = orientation_default,
          fl_bottom_up = False\<rparr>)"

text \<open>The \<open>invalid\<close> closure of \<open>validate\<close>.\<close>

definition invalid_layout :: camera_error where
  "invalid_layout = invalid_frame ''Invalid frame dimensions, planes, or strides''"

text \<open>
  The \<open>specs\<close> array of \<open>validate\<close>: columns, rows and bytes per sample of each plane the format
  has; \<open>None\<close> is the early return on an odd width of a packed 4:2:2 format.
\<close>

fun plane_specs :: "pixel_format \<Rightarrow> usize \<Rightarrow> usize \<Rightarrow> (usize \<times> usize \<times> usize) list option" where
  "plane_specs Mjpeg w h = Some [(1, 1, 1)]"
| "plane_specs H264 w h = Some [(1, 1, 1)]"
| "plane_specs Nv12 w h = Some [(w, h, 1), (div_ceil w 2, div_ceil h 2, 2)]"
| "plane_specs Nv21 w h = Some [(w, h, 1), (div_ceil w 2, div_ceil h 2, 2)]"
| "plane_specs Yuv420p w h =
     Some [(w, h, 1), (div_ceil w 2, div_ceil h 2, 1), (div_ceil w 2, div_ceil h 2, 1)]"
| "plane_specs Rgb8 w h = Some [(w, h, 3)]"
| "plane_specs Bgr8 w h = Some [(w, h, 3)]"
| "plane_specs Bgra8 w h = Some [(w, h, 4)]"
| "plane_specs Rgba8 w h = Some [(w, h, 4)]"
| "plane_specs Argb8 w h = Some [(w, h, 4)]"
| "plane_specs Yuyv w h = (if w mod 2 \<noteq> 0 then None else Some [(w, h, 2)])"
| "plane_specs Uyvy w h = (if w mod 2 \<noteq> 0 then None else Some [(w, h, 2)])"
| "plane_specs Gray8 w h = Some [(w, h, 1)]"

definition is_encoded :: "pixel_format \<Rightarrow> bool" where
  "is_encoded f \<longleftrightarrow> f = Mjpeg \<or> f = H264"

definition is_packed_422 :: "pixel_format \<Rightarrow> bool" where
  "is_packed_422 f \<longleftrightarrow> f = Yuyv \<or> f = Uyvy"

text \<open>One turn of the loop over the planes; \<open>Ok\<close> goes on to the next plane.\<close>

definition validate_plane ::
  "pixel_format \<Rightarrow> usize \<Rightarrow> plane_layout \<Rightarrow> usize \<times> usize \<times> usize \<Rightarrow> unit camera_result" where
  "validate_plane format len p spec =
     (case spec of (cols, rows, channels) \<Rightarrow>
        if pl_length p = 0
          \<or> (case checked_add (pl_offset p) (pl_length p) of None \<Rightarrow> True | Some n \<Rightarrow> n > len)
        then Err invalid_layout
        else if is_encoded format then Ok ()
        else and_then
          (ok_or (Option.bind (checked_mul (cols - 1) (pl_pixel_stride p))
                    (\<lambda>n. checked_add n channels)) invalid_layout) (\<lambda>row.
        and_then
          (ok_or (Option.bind (checked_mul (rows - 1) (pl_row_stride p))
                    (\<lambda>n. checked_add n row)) invalid_layout) (\<lambda>required.
        if (is_packed_422 format \<and> pl_pixel_stride p \<noteq> 2)
          \<or> pl_pixel_stride p < channels
          \<or> pl_row_stride p < row
          \<or> pl_length p < required
        then Err invalid_layout
        else Ok ())))"

fun validate_planes ::
  "pixel_format \<Rightarrow> usize \<Rightarrow> plane_layout list \<Rightarrow> (usize \<times> usize \<times> usize) list \<Rightarrow> unit camera_result" where
  "validate_planes format len (p # ps) (s # ss) =
     and_then (validate_plane format len p s) (\<lambda>_. validate_planes format len ps ss)"
| "validate_planes format len _ _ = Ok ()"

definition layout_validate :: "frame_layout \<Rightarrow> usize \<Rightarrow> unit camera_result" where
  "layout_validate l len =
     (if fl_width l = 0 \<or> fl_height l = 0
        \<or> or_rotation_degrees (fl_orientation l) \<notin> {0, 90, 180, 270}
      then Err invalid_layout
      else case plane_specs (fl_format l) (unat (fl_width l)) (unat (fl_height l)) of
        None \<Rightarrow> Err invalid_layout
      | Some specs \<Rightarrow>
          if length (fl_planes l) \<noteq> length specs then Err invalid_layout
          else validate_planes (fl_format l) len (fl_planes l) specs)"

section \<open>Interleaved chroma\<close>

record chroma_plane_span =
  cs_start :: usize
  cs_length :: usize
  cs_row_stride :: usize
  cs_pixel_stride :: usize

record interleaved_chroma =
  ic_start :: usize
  ic_length :: usize
  ic_row_stride :: usize
  ic_format :: pixel_format

definition interleaved_chroma_layout ::
  "usize \<Rightarrow> usize \<Rightarrow> chroma_plane_span \<Rightarrow> chroma_plane_span \<Rightarrow> interleaved_chroma option" where
  "interleaved_chroma_layout width height u v =
     (if width = 0 \<or> height = 0 \<or> cs_pixel_stride u \<noteq> 2 \<or> cs_pixel_stride v \<noteq> 2
        \<or> cs_row_stride u \<noteq> cs_row_stride v
      then None
      else Option.bind
        (if checked_add (cs_start u) 1 = Some (cs_start v) then Some (u, v, Nv12)
         else if checked_add (cs_start v) 1 = Some (cs_start u) then Some (v, u, Nv21)
         else None) (\<lambda>(base, other, format).
      Option.bind (checked_add (cs_start base) (cs_length base)) (\<lambda>base_end.
      Option.bind (checked_add (cs_start other) (cs_length other)) (\<lambda>other_end.
      Option.bind (checked_mul (div_ceil width 2) 2) (\<lambda>row_bytes.
      Option.bind
        (Option.bind
          (Option.bind (checked_sub (div_ceil height 2) 1)
            (\<lambda>n. checked_mul n (cs_row_stride base)))
          (\<lambda>n. checked_add n row_bytes)) (\<lambda>required.
      if other_end > base_end \<or> cs_row_stride base < row_bytes \<or> cs_length base < required
      then None
      else Some \<lparr>ic_start = cs_start base, ic_length = cs_length base,
                 ic_row_stride = cs_row_stride base, ic_format = format\<rparr>))))))"

section \<open>Lemmas\<close>

lemma err_kind_invalid_layout [error_simps]: "err_kind invalid_layout = InvalidFrame"
  by (simp add: invalid_layout_def error_simps)

text \<open>The byte of channel \<open>c\<close> of the sample in row \<open>y\<close> and column \<open>x\<close> of a plane.\<close>

definition sample_byte :: "plane_layout \<Rightarrow> nat \<Rightarrow> nat \<Rightarrow> nat \<Rightarrow> nat" where
  "sample_byte p y x c = pl_offset p + y * pl_row_stride p + x * pl_pixel_stride p + c"

text \<open>What a validated plane satisfies, in plain arithmetic.\<close>

definition plane_fits :: "pixel_format \<Rightarrow> usize \<Rightarrow> plane_layout \<Rightarrow> usize \<times> usize \<times> usize \<Rightarrow> bool" where
  "plane_fits format len p spec \<longleftrightarrow>
     (case spec of (cols, rows, channels) \<Rightarrow>
        0 < pl_length p \<and> pl_offset p + pl_length p \<le> len
        \<and> (is_encoded format
           \<or> ((is_packed_422 format \<longrightarrow> pl_pixel_stride p = 2)
              \<and> channels \<le> pl_pixel_stride p
              \<and> (cols - 1) * pl_pixel_stride p + channels \<le> pl_row_stride p
              \<and> (rows - 1) * pl_row_stride p + ((cols - 1) * pl_pixel_stride p + channels)
                \<le> pl_length p)))"

lemma validate_plane_Ok:
  assumes "len < usize_bound"
  shows "validate_plane format len p spec = Ok () \<longleftrightarrow> plane_fits format len p spec"
proof -
  obtain cols rows channels where spec: "spec = (cols, rows, channels)" by (cases spec)
  define a where "a = (cols - 1) * pl_pixel_stride p"
  define b where "b = (rows - 1) * pl_row_stride p"
  show ?thesis
    using assms unfolding spec validate_plane_def plane_fits_def prod.case a_def [symmetric]
      b_def [symmetric] checked_add_def checked_mul_def ok_or_def
    by (cases "is_encoded format") auto
qed

lemma validate_plane_total:
  "validate_plane format len p spec = Ok () \<or> validate_plane format len p spec = Err invalid_layout"
  by (auto simp: validate_plane_def ok_or_def Let_def split: option.splits prod.splits)

lemma validate_planes_Ok:
  "validate_planes format len ps ss = Ok ()
     \<longleftrightarrow> (\<forall>(p, s) \<in> set (zip ps ss). validate_plane format len p s = Ok ())"
  by (induction format len ps ss rule: validate_planes.induct) (auto simp: result_simps)

lemma validate_planes_total:
  "validate_planes format len ps ss = Ok () \<or> validate_planes format len ps ss = Err invalid_layout"
proof (induction format len ps ss rule: validate_planes.induct)
  case (1 format len p ps s ss)
  then show ?case using validate_plane_total [of format len p s] by auto
qed simp_all

lemma layout_validate_total:
  "layout_validate l len = Ok () \<or> layout_validate l len = Err invalid_layout"
  using validate_planes_total by (auto simp: layout_validate_def split: option.splits)

lemma plane_fits_bound:
  assumes "plane_fits format len p (cols, rows, channels)" "\<not> is_encoded format"
    and "y < rows" "x < cols" "c < channels"
  shows "sample_byte p y x c < pl_offset p + pl_length p" "sample_byte p y x c < len"
proof -
  have "y * pl_row_stride p \<le> (rows - 1) * pl_row_stride p"
    using assms(3) by (intro mult_le_mono1) simp
  moreover have "x * pl_pixel_stride p \<le> (cols - 1) * pl_pixel_stride p"
    using assms(4) by (intro mult_le_mono1) simp
  ultimately show "sample_byte p y x c < pl_offset p + pl_length p"
    using assms unfolding plane_fits_def sample_byte_def prod.case by linarith
  with assms show "sample_byte p y x c < len"
    by (simp add: plane_fits_def)
qed

text \<open>A value below the stride is recovered from a multiple of the stride plus the value.\<close>

lemma stride_unique:
  fixes s y y' r r' :: nat
  assumes "y * s + r = y' * s + r'" "r < s" "r' < s"
  shows "y = y' \<and> r = r'"
proof -
  have "y = (y * s + r) div s" using assms(2) by simp
  also have "\<dots> = (y' * s + r') div s" using assms(1) by simp
  also have "\<dots> = y'" using assms(3) by simp
  finally show ?thesis using assms(1) by simp
qed

lemma plane_fits_inj:
  assumes "plane_fits format len p (cols, rows, channels)" "\<not> is_encoded format"
    and "x < cols" "c < channels" "x' < cols" "c' < channels"
    and "sample_byte p y x c = sample_byte p y' x' c'"
  shows "y = y' \<and> x = x' \<and> c = c'"
proof -
  have inner: "a * pl_pixel_stride p + b < pl_row_stride p"
    if "a < cols" "b < channels" for a b
  proof -
    have "a * pl_pixel_stride p \<le> (cols - 1) * pl_pixel_stride p"
      using that by (intro mult_le_mono1) simp
    with assms that show ?thesis unfolding plane_fits_def prod.case by linarith
  qed
  have "y * pl_row_stride p + (x * pl_pixel_stride p + c)
      = y' * pl_row_stride p + (x' * pl_pixel_stride p + c')"
    using assms(7) by (simp add: sample_byte_def)
  then have "y = y'" "x * pl_pixel_stride p + c = x' * pl_pixel_stride p + c'"
    using stride_unique inner assms(3-6) by blast+
  moreover have "c < pl_pixel_stride p" "c' < pl_pixel_stride p"
    using assms by (auto simp: plane_fits_def)
  ultimately show ?thesis using stride_unique by blast
qed

lemma layout_validate_Ok:
  assumes "layout_validate l len = Ok ()"
  obtains specs where
    "fl_width l \<noteq> 0" "fl_height l \<noteq> 0"
    "plane_specs (fl_format l) (unat (fl_width l)) (unat (fl_height l)) = Some specs"
    "length (fl_planes l) = length specs"
    "\<And>i. i < length specs \<Longrightarrow> validate_plane (fl_format l) len (fl_planes l ! i) (specs ! i) = Ok ()"
proof -
  from assms obtain specs where
    s: "plane_specs (fl_format l) (unat (fl_width l)) (unat (fl_height l)) = Some specs"
      "length (fl_planes l) = length specs"
      "validate_planes (fl_format l) len (fl_planes l) specs = Ok ()"
      "fl_width l \<noteq> 0" "fl_height l \<noteq> 0"
    by (auto simp: layout_validate_def split: if_splits option.splits)
  have "validate_plane (fl_format l) len (fl_planes l ! i) (specs ! i) = Ok ()"
    if "i < length specs" for i
  proof -
    have "(fl_planes l ! i, specs ! i) \<in> set (zip (fl_planes l) specs)"
      using that s(2) by (auto simp: set_zip)
    with s(3) show ?thesis by (auto simp: validate_planes_Ok)
  qed
  with s that show thesis by blast
qed

section \<open>Properties\<close>

text \<open>C37: A layout that validates against a buffer describes memory the conversions may read:
  its planes are those of the format; every channel of every sample of every plane lies inside
  the plane and inside the buffer; and within a plane two different sample channels never share
  a byte.\<close>

theorem validated_layout_in_bounds:
  assumes "layout_validate l len = Ok ()" "len < usize_bound" "\<not> is_encoded (fl_format l)"
    and "plane_specs (fl_format l) (unat (fl_width l)) (unat (fl_height l)) = Some specs"
    and "i < length specs" "specs ! i = (cols, rows, channels)"
  shows "length (fl_planes l) = length specs
    \<and> (let p = fl_planes l ! i;
           samples = {..<rows} \<times> {..<cols} \<times> {..<channels};
           byte = (\<lambda>(y, x, c). sample_byte p y x c)
       in byte ` samples \<subseteq> {pl_offset p ..< pl_offset p + pl_length p}
          \<and> pl_offset p + pl_length p \<le> len
          \<and> inj_on byte samples)"
proof -
  let ?p = "fl_planes l ! i"
  have len: "length (fl_planes l) = length specs"
    using assms(1,4) by (elim layout_validate_Ok) simp
  have "validate_plane (fl_format l) len ?p (specs ! i) = Ok ()"
    using assms(1,4,5) by (elim layout_validate_Ok) simp
  then have fits: "plane_fits (fl_format l) len ?p (cols, rows, channels)"
    using assms(2,6) by (simp add: validate_plane_Ok)
  have "(\<lambda>(y, x, c). sample_byte ?p y x c) ` ({..<rows} \<times> {..<cols} \<times> {..<channels})
      \<subseteq> {pl_offset ?p ..< pl_offset ?p + pl_length ?p}"
    using plane_fits_bound(1) [OF fits assms(3)] by (auto simp: sample_byte_def)
  moreover have "inj_on (\<lambda>(y, x, c). sample_byte ?p y x c)
      ({..<rows} \<times> {..<cols} \<times> {..<channels})"
    by (rule inj_onI) (auto dest: plane_fits_inj [OF fits assms(3)])
  moreover have "pl_offset ?p + pl_length ?p \<le> len"
    using fits by (simp add: plane_fits_def)
  ultimately show ?thesis using len by (simp add: Let_def)
qed

definition example_nv12 :: frame_layout where
  "example_nv12 =
     \<lparr>fl_width = 4, fl_height = 3, fl_format = Nv12,
      fl_planes =
        [\<lparr>pl_offset = 0, pl_length = 24, pl_row_stride = 8, pl_pixel_stride = 1\<rparr>,
         \<lparr>pl_offset = 24, pl_length = 16, pl_row_stride = 8, pl_pixel_stride = 2\<rparr>],
      fl_color = color_info_default, fl_orientation = orientation_default,
      fl_bottom_up = False\<rparr>"

lemma example_nv12_valid: "layout_validate example_nv12 40 = Ok ()"
  by (simp add: layout_validate_def example_nv12_def orientation_default_def validate_plane_def
      is_encoded_def is_packed_422_def checked_add_def checked_mul_def usize_bound_def ok_or_def
      div_ceil_def)

lemma validated_layout_in_bounds_witness:
  "let p = fl_planes example_nv12 ! 1
   in (\<lambda>(y, x, c). sample_byte p y x c) ` ({..<2} \<times> {..<2} \<times> {..<2}) \<subseteq> {24 ..< 40}"
  using validated_layout_in_bounds [of example_nv12 40 "[(4, 3, 1), (2, 2, 2)]" 1 2 2 2]
    example_nv12_valid
  by (simp add: example_nv12_def is_encoded_def usize_bound_def div_ceil_def Let_def)

text \<open>Validation is exact and total.  It never panics or overflows: on a buffer of less than
  \<open>usize::MAX\<close> bytes it answers \<open>Ok\<close> when the dimensions are positive, the rotation is a right
  angle, the format has as many planes as the layout lists and each plane fits, and the one
  invalid-frame error otherwise.\<close>

theorem layout_validate_exact:
  assumes "len < usize_bound"
  shows "layout_validate l len =
    (if fl_width l \<noteq> 0 \<and> fl_height l \<noteq> 0
        \<and> or_rotation_degrees (fl_orientation l) \<in> {0, 90, 180, 270}
        \<and> (\<exists>specs. plane_specs (fl_format l) (unat (fl_width l)) (unat (fl_height l)) = Some specs
            \<and> list_all2 (plane_fits (fl_format l) len) (fl_planes l) specs)
     then Ok () else Err invalid_layout)"
proof -
  have "layout_validate l len = Ok () \<longleftrightarrow>
      fl_width l \<noteq> 0 \<and> fl_height l \<noteq> 0
      \<and> or_rotation_degrees (fl_orientation l) \<in> {0, 90, 180, 270}
      \<and> (\<exists>specs. plane_specs (fl_format l) (unat (fl_width l)) (unat (fl_height l)) = Some specs
          \<and> list_all2 (plane_fits (fl_format l) len) (fl_planes l) specs)"
    using validate_plane_Ok [OF assms, of "fl_format l"]
    by (auto simp: layout_validate_def validate_planes_Ok list_all2_iff split: option.splits)
  then show ?thesis using layout_validate_total [of l len] by auto
qed

lemma layout_validate_exact_witness:
  "layout_validate (example_nv12\<lparr>fl_planes := []\<rparr>) 40 = Err invalid_layout"
  using layout_validate_exact [of 40 "example_nv12\<lparr>fl_planes := []\<rparr>"]
  by (simp add: usize_bound_def example_nv12_def)

text \<open>When the two chroma planes of a YUV 4:2:0 image are recognised as one interleaved
  plane, that plane is one of the two spans with the format (NV12 when U comes first, NV21 when V
  does), it contains every byte either span describes, and the bytes of the U and the V sample
  at row \<open>y\<close> and column \<open>x\<close> of the visible chroma, addressed through their own spans, are the two
  bytes of the interleaved sample and lie inside the plane.\<close>

theorem interleaved_chroma_exact:
  assumes "interleaved_chroma_layout w h u v = Some ic"
    and "y < (h + 1) div 2" "x < (w + 1) div 2"
  shows "let first = (if ic_format ic = Nv12 then u else v);
             second = (if ic_format ic = Nv12 then v else u);
             a = ic_start ic + y * ic_row_stride ic + 2 * x
    in ic_format ic \<in> {Nv12, Nv21}
       \<and> {cs_start second ..< cs_start second + cs_length second}
          \<subseteq> {ic_start ic ..< ic_start ic + ic_length ic}
       \<and> ic_start ic = cs_start first \<and> ic_length ic = cs_length first
       \<and> cs_start first + y * cs_row_stride first + x * cs_pixel_stride first = a
       \<and> cs_start second + y * cs_row_stride second + x * cs_pixel_stride second = a + 1
       \<and> a + 1 < ic_start ic + ic_length ic"
proof -
  let ?nv12 = "checked_add (cs_start u) 1 = Some (cs_start v)"
  define base where "base = (if ?nv12 then u else v)"
  define other where "other = (if ?nv12 then v else u)"
  define row where "row = div_ceil w 2 * 2"
  have ic: "ic = \<lparr>ic_start = cs_start base, ic_length = cs_length base,
      ic_row_stride = cs_row_stride base, ic_format = (if ?nv12 then Nv12 else Nv21)\<rparr>"
    and stride: "cs_pixel_stride base = 2" "cs_pixel_stride other = 2"
      "cs_row_stride other = cs_row_stride base"
    and start: "cs_start other = cs_start base + 1"
    and ends: "cs_start other + cs_length other \<le> cs_start base + cs_length base"
    and req: "(div_ceil h 2 - 1) * cs_row_stride base + row \<le> cs_length base"
    using assms(1)
    by (auto simp: interleaved_chroma_layout_def base_def other_def row_def checked_simps
        bind_eq_Some_conv split: if_splits)
  have "y * cs_row_stride base \<le> (div_ceil h 2 - 1) * cs_row_stride base"
    using assms(2) by (intro mult_le_mono1) (simp add: div_ceil_two)
  moreover have "2 * x + 1 < row"
    using assms(3) by (simp add: row_def div_ceil_two)
  ultimately have "y * cs_row_stride base + (2 * x + 1) < cs_length base"
    using req by linarith
  then show ?thesis
    using stride start ends by (auto simp: ic base_def other_def Let_def)
qed

lemma interleaved_chroma_exact_witness:
  "let u = \<lparr>cs_start = 101, cs_length = 7, cs_row_stride = 4, cs_pixel_stride = 2\<rparr>;
       v = \<lparr>cs_start = 100, cs_length = 8, cs_row_stride = 4, cs_pixel_stride = 2\<rparr>
   in interleaved_chroma_layout 4 4 u v
       = Some \<lparr>ic_start = 100, ic_length = 8, ic_row_stride = 4, ic_format = Nv21\<rparr>
      \<and> {cs_start u ..< cs_start u + cs_length u} \<subseteq> {100 ..< 108}"
proof -
  let ?u = "\<lparr>cs_start = 101, cs_length = 7, cs_row_stride = 4, cs_pixel_stride = 2\<rparr>"
  let ?v = "\<lparr>cs_start = 100, cs_length = 8, cs_row_stride = 4, cs_pixel_stride = 2\<rparr>"
  let ?ic = "\<lparr>ic_start = 100, ic_length = 8, ic_row_stride = 4, ic_format = Nv21\<rparr>"
  have "interleaved_chroma_layout 4 4 ?u ?v = Some ?ic"
    by (simp add: interleaved_chroma_layout_def checked_add_def checked_mul_def checked_sub_def
        usize_bound_def div_ceil_def)
  moreover from this have "{cs_start ?u ..< cs_start ?u + cs_length ?u} \<subseteq> {100 ..< 108}"
    using interleaved_chroma_exact [of 4 4 ?u ?v ?ic 1 1] by (simp add: Let_def)
  ultimately show ?thesis by (simp add: Let_def)
qed

end
