(* ===== verification/Capabilities.thy ===== *)
theory Capabilities
  imports Layout
begin

text \<open>
  Device information and capabilities (\<open>src/contract.rs\<close>): selectors, capture modes, the
  knowledge a backend has of them, and the capability description planning and negotiation
  start from.  The Cargo features that \<open>cfg!\<close> reads are the record \<open>features\<close>.
\<close>

section \<open>Device information\<close>

datatype identity_stability = StabilityNative | EnumerationOnly

datatype camera_facing = Front | Back | External | FacingUnknown

record usb_identity =
  usb_vendor_id :: u16
  usb_product_id :: u16
  usb_serial_number :: "string option"

record device_info =
  di_id :: device_id
  di_name :: string
  di_description :: string
  di_stability :: identity_stability
  di_index :: u32
  di_facing :: camera_facing
  di_usb :: "usb_identity option"

datatype device_selector =
  SelectDefault
  | SelectId device_id
  | SelectFacing camera_facing
  | SelectUsb u16 u16 "string option"
  | SelectName string

section \<open>Capture modes\<close>

record capture_mode =
  cm_format :: capture_format
  cm_width :: u32
  cm_height :: u32
  cm_frame_rate :: frame_rate

definition mode_from_config :: "camera_config \<Rightarrow> capture_mode camera_result" where
  "mode_from_config c =
     and_then (config_frame_rate c) (\<lambda>fps.
       Ok \<lparr>cm_format = capture_of_video (cfg_format c), cm_width = cfg_width c,
           cm_height = cfg_height c, cm_frame_rate = fps\<rparr>)"

definition mode_to_config :: "capture_mode \<Rightarrow> camera_config camera_result" where
  "mode_to_config m =
     (let config = with_frame_rate
            (camera_config_new (video_of_capture (cm_format m)) (cm_width m) (cm_height m)
              (fr_numerator (cm_frame_rate m))) (cm_frame_rate m)
      in and_then (config_validate config) (\<lambda>_. Ok config))"

datatype 'a capability_knowledge =
  Known 'a
  | Representative 'a string
  | UnknownCapability string

datatype capability_range_kind = RangeDiscrete | RangeContinuous | RangeStepwise

record dimension_range =
  dr_minimum :: u32
  dr_maximum :: u32
  dr_step :: u32

record frame_interval =
  fi_numerator :: u32
  fi_denominator :: u32

record frame_interval_range =
  fir_kind :: capability_range_kind
  fir_minimum :: frame_interval
  fir_maximum :: frame_interval
  fir_step :: "frame_interval option"
  fir_at_resolution :: "u32 \<times> u32"

record capture_mode_range =
  cmr_format :: capture_format
  cmr_kind :: capability_range_kind
  cmr_width :: dimension_range
  cmr_height :: dimension_range
  cmr_frame_intervals :: "frame_interval_range list"

record conversion_capability =
  cc_input :: capture_format
  cc_output :: pixel_format
  cc_available :: bool
  cc_requirement :: "string option"

record device_capabilities =
  dc_capture_modes :: "capture_mode list capability_knowledge"
  dc_capture_mode_ranges :: "capture_mode_range list"
  dc_native_formats :: "capture_format list"
  dc_conversions :: "conversion_capability list"
  dc_limitations :: "string list"

record features =
  feat_convert_rgb :: bool
  feat_decode_mjpeg :: bool

definition conversion_of :: "features \<Rightarrow> capture_format \<Rightarrow> conversion_capability" where
  "conversion_of feats input =
     (let jpeg = (input = CaptureMjpeg);
          h264 = (input = CaptureH264);
          available = (\<not> h264 \<and> feat_convert_rgb feats \<and> (\<not> jpeg \<or> feat_decode_mjpeg feats))
      in \<lparr>cc_input = input, cc_output = Rgb8, cc_available = available,
          cc_requirement =
            (if h264 then Some ''external-h264-decoder''
             else if jpeg \<and> \<not> feat_decode_mjpeg feats then Some ''decode-mjpeg''
             else if \<not> feat_convert_rgb feats then Some ''convert-rgb''
             else None)\<rparr>)"

definition from_modes_unchecked :: "features \<Rightarrow> capture_mode list \<Rightarrow> device_capabilities" where
  "from_modes_unchecked feats modes =
     (let native_formats = remdups_adj (sort_key capture_format_index (map cm_format modes))
      in \<lparr>dc_capture_modes = Known modes, dc_capture_mode_ranges = [],
          dc_native_formats = native_formats,
          dc_conversions = map (conversion_of feats) native_formats, dc_limitations = []\<rparr>)"

definition single_native ::
  "features \<Rightarrow> capture_format \<Rightarrow> u32 \<Rightarrow> u32 \<Rightarrow> frame_rate \<Rightarrow> device_capabilities" where
  "single_native feats format width height fps =
     from_modes_unchecked feats
       [\<lparr>cm_format = format, cm_width = width, cm_height = height, cm_frame_rate = fps\<rparr>]"

text \<open>The sort key of \<open>from_modes\<close>: tuples compare lexicographically, as lists do here.\<close>

definition config_key :: "camera_config \<Rightarrow> nat list" where
  "config_key c =
     [video_format_index (cfg_format c), unat (cfg_width c), unat (cfg_height c),
      unat (cfg_fps c), unat (cfg_fps_denominator c)]"

definition from_modes :: "features \<Rightarrow> capture_mode list \<Rightarrow> device_capabilities camera_result" where
  "from_modes feats modes =
     (if modes = []
      then Err (invalid_config ''Device capabilities require at least one capture mode'')
      else and_then (collect_results mode_to_config modes) (\<lambda>configurations.
        if length (remdups_adj (sort_key config_key configurations)) \<noteq> length modes
        then Err (invalid_config ''Device capabilities contain duplicate capture modes'')
        else Ok (from_modes_unchecked feats modes)))"

definition from_configurations :: "features \<Rightarrow> camera_config list \<Rightarrow> device_capabilities" where
  "from_configurations feats configs =
     from_modes_unchecked feats (List.map_filter (\<lambda>c. ok (mode_from_config c)) configs)"

definition configurations :: "device_capabilities \<Rightarrow> camera_config list camera_result" where
  "configurations caps =
     (case dc_capture_modes caps of
        Known modes \<Rightarrow> collect_results mode_to_config modes
      | Representative modes _ \<Rightarrow> collect_results mode_to_config modes
      | UnknownCapability reason \<Rightarrow>
          Err (unsupported_format (''Capture modes are unknown: '' @ reason)))"

definition with_ranges :: "device_capabilities \<Rightarrow> capture_mode_range list \<Rightarrow> device_capabilities" where
  "with_ranges caps ranges =
     (if ranges = [] then caps
      else
        let caps = (case dc_capture_modes caps of
              Known modes \<Rightarrow>
                caps\<lparr>dc_capture_modes := Representative modes
                  ''backend advertises ranged modes; listed modes are representative samples''\<rparr>
            | _ \<Rightarrow> caps)
        in caps\<lparr>dc_capture_mode_ranges := ranges\<rparr>)"

section \<open>Lemmas\<close>

lemma inj_config_key: "inj config_key"
proof (rule injI)
  fix a b :: camera_config
  assume eq: "config_key a = config_key b"
  then have "cfg_format a = cfg_format b"
    by (cases "cfg_format a"; cases "cfg_format b") (simp_all add: config_key_def)
  with eq show "a = b" by (simp add: config_key_def word_unat_eq_iff)
qed

text \<open>The configuration of a mode.\<close>

definition mode_config :: "capture_mode \<Rightarrow> camera_config" where
  "mode_config m =
     \<lparr>cfg_format = video_of_capture (cm_format m), cfg_width = cm_width m, cfg_height = cm_height m,
      cfg_fps = fr_numerator (cm_frame_rate m),
      cfg_fps_denominator = fr_denominator (cm_frame_rate m)\<rparr>"

definition valid_mode :: "capture_mode \<Rightarrow> bool" where
  "valid_mode m \<longleftrightarrow> config_validate (mode_config m) = Ok ()"

lemma mode_to_config_Ok: "mode_to_config m = Ok c \<longleftrightarrow> valid_mode m \<and> c = mode_config m"
  by (auto simp: mode_to_config_def valid_mode_def mode_config_def with_frame_rate_def
      camera_config_new_def result_simps Let_def)

lemma mode_to_config_not_Panic: "mode_to_config m \<noteq> Panic"
  by (auto simp: mode_to_config_def config_validate_def result_simps Let_def)

lemma config_validate_Err: "config_validate c = Err e \<Longrightarrow> err_kind e = InvalidArgument"
  by (auto simp: config_validate_def error_simps split: if_splits)

lemma inj_mode_config: "inj mode_config"
proof (rule injI)
  fix a b :: capture_mode
  assume eq: "mode_config a = mode_config b"
  then have "cm_format a = cm_format b"
    by (metis camera_config.select_convs(1) mode_config_def video_of_capture_inverse)
  with eq show "a = b" by (simp add: mode_config_def)
qed

lemma collect_configs:
  "collect_results mode_to_config ms = Ok cs
     \<longleftrightarrow> list_all valid_mode ms \<and> cs = map mode_config ms"
  unfolding collect_results_eq_Ok mode_to_config_Ok
  by (induction ms arbitrary: cs) (auto simp: list_all2_Cons1)

lemma dedup_configs_iff:
  "length (remdups_adj (sort_key config_key (map mode_config ms))) = length ms \<longleftrightarrow> distinct ms"
proof -
  have "inj_on config_key (set (map mode_config ms))"
    by (rule inj_on_subset [OF inj_config_key]) simp
  from sort_key_dedup_iff [OF this] show ?thesis
    by (simp add: distinct_map inj_on_subset [OF inj_mode_config])
qed

lemma dedup_formats:
  "distinct (remdups_adj (sort_key capture_format_index fs))
   \<and> set (remdups_adj (sort_key capture_format_index fs)) = set fs
   \<and> sorted (map capture_format_index (remdups_adj (sort_key capture_format_index fs)))"
proof -
  have "sorted (map capture_format_index (sort_key capture_format_index fs))" by simp
  then show ?thesis
    using distinct_remdups_adj_sorted [of capture_format_index "sort_key capture_format_index fs"]
      inj_on_subset [OF inj_capture_format_index]
    by (simp add: sorted_map_remdups_adj)
qed

lemma config_validate_with_rate:
  assumes "valid_mode m" "valid_frame_rate (cm_frame_rate m)"
  shows "mode_from_config (mode_config m) = Ok m"
proof -
  have "config_frame_rate (mode_config m) = Ok (cm_frame_rate m)"
    using frame_rate_new_reduced [OF assms(2)] by (simp add: config_frame_rate_def mode_config_def)
  then show ?thesis by (simp add: mode_from_config_def mode_config_def)
qed

section \<open>Properties\<close>

text \<open>\<open>DeviceCapabilities::from_modes\<close> accepts exactly the non-empty lists of distinct,
  individually valid modes, keeps them in order, and lists each native format once.  Everything
  it accepts turns back into one valid configuration per mode, in the same order, and each of
  these configurations names its mode again, so negotiation and planning see the modes the
  backend reported.\<close>

theorem from_modes_iff:
  "(is_ok (from_modes feats ms) \<longleftrightarrow> ms \<noteq> [] \<and> list_all valid_mode ms \<and> distinct ms)
   \<and> (from_modes feats ms = Ok caps \<longrightarrow>
        dc_capture_modes caps = Known ms
        \<and> configurations caps = Ok (map mode_config ms)
        \<and> distinct (dc_native_formats caps)
        \<and> set (dc_native_formats caps) = cm_format ` set ms
        \<and> map cc_input (dc_conversions caps) = dc_native_formats caps
        \<and> (\<forall>m \<in> set ms. valid_frame_rate (cm_frame_rate m) \<longrightarrow>
             mode_from_config (mode_config m) = Ok m))"
proof -
  have iff: "from_modes feats ms = Ok caps \<longleftrightarrow>
      ms \<noteq> [] \<and> list_all valid_mode ms \<and> distinct ms \<and> caps = from_modes_unchecked feats ms"
    for caps
    by (auto simp: from_modes_def result_simps collect_configs dedup_configs_iff
        simp del: sort_key_simps)
  moreover have "map cc_input (map (conversion_of feats) fs) = fs" for fs
    by (induction fs) (simp_all add: conversion_of_def Let_def)
  ultimately show ?thesis
    using dedup_formats [of "map cm_format ms"] config_validate_with_rate
    by (auto simp: result_simps from_modes_unchecked_def Let_def configurations_def
        collect_configs list_all_iff)
qed

definition example_mode :: capture_mode where
  "example_mode =
     \<lparr>cm_format = CaptureYuyv, cm_width = 640, cm_height = 480, cm_frame_rate = frame_rate_default\<rparr>"

lemma from_modes_iff_witness:
  "\<exists>caps. from_modes \<lparr>feat_convert_rgb = True, feat_decode_mjpeg = False\<rparr> [example_mode] = Ok caps
     \<and> configurations caps = Ok [mode_config example_mode]
     \<and> mode_from_config (mode_config example_mode) = Ok example_mode"
proof -
  have "valid_mode example_mode"
    by (simp add: valid_mode_def config_validate_def mode_config_def example_mode_def
        frame_rate_default_def frame_size_def frame_data_size_def checked_pixel_count_def
        checked_mul_def usize_bound_def)
  moreover have "valid_frame_rate (cm_frame_rate example_mode)"
    by (simp add: example_mode_def)
  ultimately show ?thesis
    using from_modes_iff [of "\<lparr>feat_convert_rgb = True, feat_decode_mjpeg = False\<rparr>" "[example_mode]"]
    by (fastforce simp: result_simps)
qed

text \<open>Attaching ranges to a capability description never changes which configurations it
  yields, and a description with ranges never claims that its listed modes are complete.\<close>

theorem with_ranges_representative:
  "configurations (with_ranges caps rs) = configurations caps
   \<and> dc_native_formats (with_ranges caps rs) = dc_native_formats caps
   \<and> (dc_capture_mode_ranges (with_ranges caps rs) = (if rs = [] then dc_capture_mode_ranges caps else rs))
   \<and> (rs = [] \<or> (\<forall>ms. dc_capture_modes (with_ranges caps rs) \<noteq> Known ms))"
  by (cases "dc_capture_modes caps") (auto simp: with_ranges_def configurations_def Let_def)

end
