(* ===== verification/Frames.thy ===== *)
theory Frames
  imports Capabilities
begin

text \<open>
  Immutable frames and the state of the frame hub (\<open>src/frame.rs\<close>, with the storage type of
  \<open>src/pixels.rs\<close>): shared buffers in an explicit heap, captured frames and the views on them,
  the bounded pool with its slots and metrics, and the receivers.

  An \<open>Arc\<close> on a buffer is a location of the heap.  A frame holds one reference to its buffer for
  as long as someone holds the frame: the snapshot of the latest frame, the queue of a receiver,
  or the application.  No weak reference to a buffer is ever made, so \<open>Arc::get_mut\<close> succeeds
  exactly when no frame in use refers to the buffer.  An \<open>Instant\<close> and a duration are numbers of
  nanoseconds; the \<open>u64\<close> counters, which start at zero and grow by one, are natural numbers.
\<close>

section \<open>Buffers and storage\<close>

type_synonym location = nat
type_synonym instant = nat

text \<open>
  A packed RGB allocation knows its shape.  A byte vector has a capacity beside its contents;
  \<open>vec![0; n]\<close> allocates a capacity of exactly \<open>n\<close>.
\<close>

datatype buffer =
  PixelBuffer (px_shape: "usize \<times> usize \<times> usize") (px_data: "u8 list")
  | ByteBuffer (bb_data: "u8 list") (bb_capacity: usize)

fun buffer_bytes :: "buffer \<Rightarrow> u8 list" where
  "buffer_bytes (PixelBuffer _ data) = data"
| "buffer_bytes (ByteBuffer data _) = data"

fun set_buffer_bytes :: "buffer \<Rightarrow> u8 list \<Rightarrow> buffer" where
  "set_buffer_bytes (PixelBuffer shape _) data = PixelBuffer shape data"
| "set_buffer_bytes (ByteBuffer _ capacity) data = ByteBuffer data capacity"

definition pixels_zeros :: "usize \<times> usize \<times> usize \<Rightarrow> buffer" where
  "pixels_zeros shape =
     (case shape of (a, b, c) \<Rightarrow> PixelBuffer shape (replicate (a * b * c) 0))"

definition bytes_zeros :: "usize \<Rightarrow> buffer" where
  "bytes_zeros n = ByteBuffer (replicate n 0) n"

datatype storage = StorageRgb (storage_loc: location) | StorageBytes (storage_loc: location)

section \<open>Frames\<close>

record frame_key =
  fk_session :: nat
  fk_sequence :: nat

record captured_frame =
  cf_key :: frame_key
  cf_storage :: storage
  cf_layout :: frame_layout
  cf_captured_at :: instant
  cf_timestamp_ns :: nat
  cf_source_timestamp_ns :: "i64 option"
  cf_source_clock :: clock_domain
  cf_source_sequence :: "nat option"

type_synonym heap = "location \<Rightarrow> buffer"

definition frame_bytes :: "heap \<Rightarrow> captured_frame \<Rightarrow> u8 list" where
  "frame_bytes heap f = buffer_bytes (heap (storage_loc (cf_storage f)))"

definition frame_age :: "captured_frame \<Rightarrow> instant \<Rightarrow> duration" where
  "frame_age f now = now - cf_captured_at f"

text \<open>\<open>p.offset..p.offset + p.length\<close>: the sum overflows in a debug build.\<close>

definition plane_end :: "plane_layout \<Rightarrow> (usize, camera_error) result" where
  "plane_end p = unwrap (checked_add (pl_offset p) (pl_length p))"

definition frame_plane :: "heap \<Rightarrow> captured_frame \<Rightarrow> usize \<Rightarrow> u8 list option camera_result" where
  "frame_plane heap f index =
     (if index < length (fl_planes (cf_layout f))
      then let p = fl_planes (cf_layout f) ! index in
        and_then (plane_end p) (\<lambda>stop. Ok (slice_get (frame_bytes heap f) (pl_offset p) stop))
      else Ok None)"

record rgb_view =
  rv_bytes :: "u8 list"
  rv_width :: usize
  rv_height :: usize
  rv_row_stride :: usize

definition frame_rgb_view :: "heap \<Rightarrow> captured_frame \<Rightarrow> rgb_view camera_result" where
  "frame_rgb_view heap f =
     (if fl_format (cf_layout f) \<noteq> Rgb8 \<or> length (fl_planes (cf_layout f)) \<noteq> 1
      then Err (unsupported_format ''Frame layout is not packed RGB8'')
      else let plane = fl_planes (cf_layout f) ! 0 in
        if pl_pixel_stride plane \<noteq> 3
        then Err (invalid_frame ''RGB8 pixel stride must be three bytes'')
        else and_then (plane_end plane) (\<lambda>stop.
          and_then (ok_or (slice_get (frame_bytes heap f) (pl_offset plane) stop)
              (invalid_frame ''RGB plane is outside the frame'')) (\<lambda>bytes.
          Ok \<lparr>rv_bytes = bytes, rv_width = unat (fl_width (cf_layout f)),
              rv_height = unat (fl_height (cf_layout f)), rv_row_stride = pl_row_stride plane\<rparr>)))"

definition rgb_view_row :: "rgb_view \<Rightarrow> usize \<Rightarrow> u8 list option" where
  "rgb_view_row v index =
     (if rv_height v \<le> index then None
      else Option.bind (checked_mul index (rv_row_stride v)) (\<lambda>start.
        Option.bind (checked_mul (rv_width v) 3) (\<lambda>n.
        Option.bind (checked_add start n) (\<lambda>stop. slice_get (rv_bytes v) start stop))))"

definition frame_source_timestamp :: "captured_frame \<Rightarrow> source_timestamp option" where
  "frame_source_timestamp f =
     map_option (\<lambda>ns. \<lparr>ts_nanoseconds = ns, ts_clock = cf_source_clock f\<rparr>)
       (cf_source_timestamp_ns f)"

text \<open>\<open>copy_to\<close> returns the new contents of the destination.\<close>

definition frame_copy_to :: "heap \<Rightarrow> captured_frame \<Rightarrow> u8 list \<Rightarrow> u8 list camera_result" where
  "frame_copy_to heap f out =
     (if length out \<noteq> length (frame_bytes heap f)
      then Err (invalid_frame ''Destination length differs from frame'')
      else Ok (frame_bytes heap f))"

section \<open>The pool\<close>

record frame_metrics =
  fm_received :: nat
  fm_published :: nat
  fm_pool_drops :: nat
  fm_conversion_errors :: nat
  fm_consecutive_conversion_errors :: nat
  fm_max_consecutive_conversion_errors :: nat
  fm_allocated_buffers :: usize
  fm_allocated_bytes :: usize
  fm_retained_buffers :: usize
  fm_conversion_total_ns :: nat
  fm_conversion_max_ns :: nat
  fm_conversion_p50_ns :: nat
  fm_conversion_p95_ns :: nat

definition frame_metrics_default :: frame_metrics where
  "frame_metrics_default =
     \<lparr>fm_received = 0, fm_published = 0, fm_pool_drops = 0, fm_conversion_errors = 0,
      fm_consecutive_conversion_errors = 0, fm_max_consecutive_conversion_errors = 0,
      fm_allocated_buffers = 0, fm_allocated_bytes = 0, fm_retained_buffers = 0,
      fm_conversion_total_ns = 0, fm_conversion_max_ns = 0, fm_conversion_p50_ns = 0,
      fm_conversion_p95_ns = 0\<rparr>"

record snapshot =
  sn_session :: nat
  sn_active :: bool
  sn_recovering :: bool
  sn_reconnect_enabled :: bool
  sn_latest :: "captured_frame option"

definition snapshot_default :: snapshot where
  "snapshot_default =
     \<lparr>sn_session = 0, sn_active = False, sn_recovering = False, sn_reconnect_enabled = False,
      sn_latest = None\<rparr>"

text \<open>A slot whose data is absent is leased to a producer.\<close>

record slot =
  slot_data :: "storage option"
  slot_bytes :: usize

record pool =
  pool_slots :: "slot list"
  pool_budget :: memory_budget
  pool_metrics :: frame_metrics
  pool_started :: "instant option"
  pool_stopped :: "instant option"
  pool_last_source_activity :: "instant option"
  pool_recent :: "instant list"
  pool_conversion_samples :: "nat list"
  pool_last_error_report :: "instant option"
  pool_suppressed_error_reports :: nat

section \<open>Receivers, leases and the hub\<close>

text \<open>
  A receiver with its subscriber.  \<open>rc_owner\<close> is the stop flag of the session that owns it, an
  index into the flags of the hub.
\<close>

record receiver =
  rc_queue :: "captured_frame list"
  rc_delivery :: delivery_policy
  rc_dropped :: nat
  rc_max_rate :: "frame_rate option"
  rc_last_enqueued :: "instant option"
  rc_owner :: "nat option"
  rc_last :: "frame_key option"

text \<open>
  A lease of a slot: the producer owns the storage until the lease is dropped.  \<open>ls_layout\<close> is
  the layout the frame will have and \<open>ls_committed\<close> tells that it has been offered for
  publication, after which \<open>publish\<close> and \<open>commit\<close> only drop the lease.
\<close>

record lease =
  ls_index :: usize
  ls_data :: storage
  ls_session :: nat
  ls_layout :: frame_layout
  ls_committed :: bool

text \<open>
  The state shared by the clones of a hub, and what the environment holds of it: the heap, the
  receivers that are alive (\<open>None\<close> once dropped), the leases of producers, the frames held by the
  application, the stop flags, and the pressure events sent so far when a sender is installed.
  \<open>hub_subscribers\<close> lists weak references to receivers.
\<close>

record hub =
  hub_heap :: heap
  hub_next_location :: location
  hub_next_session :: nat
  hub_state :: snapshot
  hub_pool :: pool
  hub_subscribers :: "nat list"
  hub_receivers :: "receiver option list"
  hub_native_output :: bool
  hub_events :: "nat list option"
  hub_recovery_wake :: nat
  hub_flags :: "nat \<Rightarrow> bool"
  hub_leases :: "lease option list"
  hub_held :: "captured_frame list"

definition list_at :: "'a option list \<Rightarrow> nat \<Rightarrow> 'a option" where
  "list_at xs i = (if i < length xs then xs ! i else None)"

definition receiver_frames :: "receiver option list \<Rightarrow> captured_frame list" where
  "receiver_frames rs = concat (map (\<lambda>r. case r of None \<Rightarrow> [] | Some r \<Rightarrow> rc_queue r) rs)"

text \<open>Every frame someone still holds.\<close>

definition live_frames :: "hub \<Rightarrow> captured_frame list" where
  "live_frames h =
     (case sn_latest (hub_state h) of None \<Rightarrow> [] | Some f \<Rightarrow> [f])
     @ receiver_frames (hub_receivers h) @ hub_held h"

definition retained :: "hub \<Rightarrow> storage \<Rightarrow> bool" where
  "retained h st \<longleftrightarrow> (\<exists>f \<in> set (live_frames h). storage_loc (cf_storage f) = storage_loc st)"

text \<open>\<open>Storage::unique\<close> of the storage of a slot or of an uncommitted lease.\<close>

definition unique :: "hub \<Rightarrow> storage \<Rightarrow> bool" where
  "unique h st \<longleftrightarrow> \<not> retained h st"

lemma list_at_Some: "list_at xs i = Some x \<longleftrightarrow> i < length xs \<and> xs ! i = Some x"
  by (auto simp: list_at_def)

lemma receiver_frames_iff:
  "f \<in> set (receiver_frames rs) \<longleftrightarrow> (\<exists>i r. list_at rs i = Some r \<and> f \<in> set (rc_queue r))"
proof
  assume "f \<in> set (receiver_frames rs)"
  then obtain o' where "o' \<in> set rs" "f \<in> set (case o' of None \<Rightarrow> [] | Some r \<Rightarrow> rc_queue r)"
    by (auto simp: receiver_frames_def)
  then obtain r where "Some r \<in> set rs" "f \<in> set (rc_queue r)" by (cases o') auto
  then show "\<exists>i r. list_at rs i = Some r \<and> f \<in> set (rc_queue r)"
    by (metis in_set_conv_nth list_at_Some)
next
  assume "\<exists>i r. list_at rs i = Some r \<and> f \<in> set (rc_queue r)"
  then obtain r where "Some r \<in> set rs" "f \<in> set (rc_queue r)"
    by (metis nth_mem list_at_Some)
  then show "f \<in> set (receiver_frames rs)" by (force simp: receiver_frames_def)
qed

lemma live_frames_iff:
  "f \<in> set (live_frames h) \<longleftrightarrow>
     sn_latest (hub_state h) = Some f
     \<or> (\<exists>i r. list_at (hub_receivers h) i = Some r \<and> f \<in> set (rc_queue r))
     \<or> f \<in> set (hub_held h)"
  by (auto simp: live_frames_def receiver_frames_iff split: option.splits)

lemma live_framesI:
  "sn_latest (hub_state h) = Some f \<Longrightarrow> f \<in> set (live_frames h)"
  "list_at (hub_receivers h) i = Some r \<Longrightarrow> f \<in> set (rc_queue r) \<Longrightarrow> f \<in> set (live_frames h)"
  "f \<in> set (hub_held h) \<Longrightarrow> f \<in> set (live_frames h)"
  unfolding live_frames_iff by blast+

lemma live_framesE:
  assumes "f \<in> set (live_frames h)"
  obtains (latest) "sn_latest (hub_state h) = Some f"
  | (queued) i r where "list_at (hub_receivers h) i = Some r" "f \<in> set (rc_queue r)"
  | (held) "f \<in> set (hub_held h)"
  using assms unfolding live_frames_iff by blast

lemma buffer_bytes_set [simp]: "buffer_bytes (set_buffer_bytes b data) = data"
  by (cases b) simp_all

section \<open>Views of a validated frame\<close>

text \<open>A frame whose layout validated against its bytes, as every published frame is.\<close>

definition frame_well_formed :: "heap \<Rightarrow> captured_frame \<Rightarrow> bool" where
  "frame_well_formed heap f \<longleftrightarrow>
     length (frame_bytes heap f) < usize_bound
     \<and> layout_validate (cf_layout f) (length (frame_bytes heap f)) = Ok ()"

lemma well_formed_plane_fits:
  assumes "frame_well_formed heap f" "i < length (fl_planes (cf_layout f))"
  obtains spec specs where
    "plane_specs (fl_format (cf_layout f)) (unat (fl_width (cf_layout f))) (unat (fl_height (cf_layout f)))
      = Some specs"
    "i < length specs" "specs ! i = spec" "length (fl_planes (cf_layout f)) = length specs"
    "plane_fits (fl_format (cf_layout f)) (length (frame_bytes heap f)) (fl_planes (cf_layout f) ! i) spec"
  using assms unfolding frame_well_formed_def
  by (elim conjE layout_validate_Ok) (metis validate_plane_Ok)

lemma plane_extent:
  assumes "frame_well_formed heap f" "i < length (fl_planes (cf_layout f))"
  shows "pl_offset (fl_planes (cf_layout f) ! i) + pl_length (fl_planes (cf_layout f) ! i)
    \<le> length (frame_bytes heap f)"
  using assms by (elim well_formed_plane_fits) (auto simp: plane_fits_def)

lemma plane_end_Ok:
  assumes "frame_well_formed heap f" "i < length (fl_planes (cf_layout f))"
  shows "plane_end (fl_planes (cf_layout f) ! i)
    = Ok (pl_offset (fl_planes (cf_layout f) ! i) + pl_length (fl_planes (cf_layout f) ! i))"
  using plane_extent [OF assms] assms(1)
  by (simp add: plane_end_def checked_add_def unwrap_def frame_well_formed_def)

text \<open>On a well-formed frame the accessors are total: \<open>plane\<close> returns for every plane of the
  layout exactly the bytes of its extent; an RGB8 frame with a packed pixel stride has an RGB
  view; and every row of the view within the height is a slice of three bytes per pixel taken
  from the frame at the row's offset.\<close>

theorem frame_views:
  assumes "frame_well_formed heap f"
  shows "(i < length (fl_planes (cf_layout f)) \<longrightarrow>
      frame_plane heap f i =
        Ok (Some (take (pl_length (fl_planes (cf_layout f) ! i))
          (drop (pl_offset (fl_planes (cf_layout f) ! i)) (frame_bytes heap f)))))
    \<and> (fl_format (cf_layout f) = Rgb8 \<and> pl_pixel_stride (fl_planes (cf_layout f) ! 0) = 3 \<longrightarrow>
      (\<exists>v. frame_rgb_view heap f = Ok v
        \<and> (y < unat (fl_height (cf_layout f)) \<longrightarrow>
            rgb_view_row v y = Some (take (3 * unat (fl_width (cf_layout f)))
              (drop (pl_offset (fl_planes (cf_layout f) ! 0) + y * pl_row_stride (fl_planes (cf_layout f) ! 0))
                (frame_bytes heap f)))
            \<and> length (the (rgb_view_row v y)) = 3 * unat (fl_width (cf_layout f)))))"
proof (intro conjI impI)
  assume i: "i < length (fl_planes (cf_layout f))"
  then show "frame_plane heap f i =
      Ok (Some (take (pl_length (fl_planes (cf_layout f) ! i))
        (drop (pl_offset (fl_planes (cf_layout f) ! i)) (frame_bytes heap f))))"
    using plane_extent [OF assms i]
    by (simp add: frame_plane_def plane_end_Ok [OF assms i] Let_def slice_get_def)
next
  assume rgb: "fl_format (cf_layout f) = Rgb8 \<and> pl_pixel_stride (fl_planes (cf_layout f) ! 0) = 3"
  let ?p = "fl_planes (cf_layout f) ! 0" and ?n = "length (frame_bytes heap f)"
  let ?w = "unat (fl_width (cf_layout f))" and ?h = "unat (fl_height (cf_layout f))"
  from assms rgb have one: "length (fl_planes (cf_layout f)) = 1"
    unfolding frame_well_formed_def by (elim conjE layout_validate_Ok) auto
  then have i0: "0 < length (fl_planes (cf_layout f))" by simp
  from well_formed_plane_fits [OF assms i0] rgb have fits:
    "plane_fits Rgb8 ?n ?p (?w, ?h, 3)"
    by (metis nth_Cons_0 option.inject plane_specs.simps(6))
  have pos: "0 < ?w" "0 < ?h"
    using assms unfolding frame_well_formed_def
    by (auto elim!: layout_validate_Ok simp: unat_gt_0)
  have view: "frame_rgb_view heap f = Ok \<lparr>rv_bytes = take (pl_length ?p) (drop (pl_offset ?p) (frame_bytes heap f)),
      rv_width = ?w, rv_height = ?h, rv_row_stride = pl_row_stride ?p\<rparr>"
    using rgb one plane_extent [OF assms i0]
    by (simp add: frame_rgb_view_def plane_end_Ok [OF assms i0, simplified] Let_def slice_get_def ok_or_def)
  have "rgb_view_row (\<lparr>rv_bytes = take (pl_length ?p) (drop (pl_offset ?p) (frame_bytes heap f)),
      rv_width = ?w, rv_height = ?h, rv_row_stride = pl_row_stride ?p\<rparr>) y
      = Some (take (3 * ?w) (drop (pl_offset ?p + y * pl_row_stride ?p) (frame_bytes heap f)))
    \<and> pl_offset ?p + y * pl_row_stride ?p + 3 * ?w \<le> ?n"
    if "y < ?h"
  proof -
    have "y * pl_row_stride ?p \<le> (?h - 1) * pl_row_stride ?p"
      using that by (intro mult_le_mono1) simp
    moreover have "(?w - 1) * pl_pixel_stride ?p + 3 = ?w * 3"
      using rgb pos by (simp add: diff_mult_distrib)
    moreover have "(?h - 1) * pl_row_stride ?p + ((?w - 1) * pl_pixel_stride ?p + 3) \<le> pl_length ?p"
      using fits by (simp add: plane_fits_def is_encoded_def)
    ultimately have row: "y * pl_row_stride ?p + ?w * 3 \<le> pl_length ?p"
      by linarith
    then have fit: "pl_offset ?p + y * pl_row_stride ?p + 3 * ?w \<le> ?n"
      using plane_extent [OF assms i0] by simp
    have bound: "?n < usize_bound" using assms by (simp add: frame_well_formed_def)
    with that row fit show ?thesis
      by (auto simp: rgb_view_row_def checked_mul_def checked_add_def slice_get_def mult.commute
          drop_take min_def add.commute add.left_commute)
  qed
  with view show "\<exists>v. frame_rgb_view heap f = Ok v
        \<and> (y < ?h \<longrightarrow>
            rgb_view_row v y = Some (take (3 * ?w)
              (drop (pl_offset ?p + y * pl_row_stride ?p) (frame_bytes heap f)))
            \<and> length (the (rgb_view_row v y)) = 3 * ?w)"
    by auto
qed

definition example_heap :: heap where
  "example_heap = (\<lambda>_. PixelBuffer (2, 1, 3) [1, 2, 3, 4, 5, 6])"

definition example_frame :: captured_frame where
  "example_frame =
     \<lparr>cf_key = \<lparr>fk_session = 1, fk_sequence = 1\<rparr>, cf_storage = StorageRgb 0,
      cf_layout = rgb_layout 1 2, cf_captured_at = 0, cf_timestamp_ns = 0,
      cf_source_timestamp_ns = None, cf_source_clock = ClockUnknown, cf_source_sequence = None\<rparr>"

lemma example_well_formed: "frame_well_formed example_heap example_frame"
  by (simp add: frame_well_formed_def example_heap_def example_frame_def frame_bytes_def
      rgb_layout_def layout_validate_def orientation_default_def validate_plane_def is_encoded_def
      is_packed_422_def checked_mul_def checked_add_def ok_or_def usize_bound_def)

lemma frame_views_witness:
  "frame_plane example_heap example_frame 0 = Ok (Some [1, 2, 3, 4, 5, 6])
   \<and> (\<exists>v. frame_rgb_view example_heap example_frame = Ok v \<and> rgb_view_row v 1 = Some [4, 5, 6])"
proof -
  have rgb: "fl_format (cf_layout example_frame) = Rgb8"
    "fl_planes (cf_layout example_frame) ! 0
      = \<lparr>pl_offset = 0, pl_length = 6, pl_row_stride = 3, pl_pixel_stride = 3\<rparr>"
    "length (fl_planes (cf_layout example_frame)) = 1"
    "frame_bytes example_heap example_frame = [1, 2, 3, 4, 5, 6]"
    "fl_width (cf_layout example_frame) = 1" "fl_height (cf_layout example_frame) = 2"
    by (simp_all add: example_frame_def example_heap_def rgb_layout_def frame_bytes_def
        checked_mul_def usize_bound_def)
  then show ?thesis
    using frame_views [OF example_well_formed, of 0 1] by auto
qed

end
