(* ===== verification/Frame_Hub.thy ===== *)
theory Frame_Hub
  imports Frames
begin

text \<open>
  The operations of \<open>FrameHub\<close>, \<open>Lease\<close>, \<open>NativeWriteLease\<close> and \<open>FrameReceiver\<close>
  (\<open>src/frame.rs\<close>) as functions on the hub state.  A lock or a channel update makes one atomic
  operation here; where the code takes several locks in turn, the parts are separate definitions,
  so that the step relation of the next theory can interleave them.  The time is an argument.
\<close>

definition MAX_FRAME_BYTES :: usize where
  "MAX_FRAME_BYTES = 128 * 1024 * 1024"

definition FRAME_ERROR_RECOVERY_THRESHOLD :: nat where
  "FRAME_ERROR_RECOVERY_THRESHOLD = 8"

datatype recovery_trigger = SourceStopped | SourceStalled | FrameErrors nat

section \<open>Life cycle\<close>

definition hub_new :: "nat \<Rightarrow> usize \<Rightarrow> hub" where
  "hub_new next_session capacity =
     \<lparr>hub_heap = (\<lambda>_. ByteBuffer [] 0), hub_next_location = 0, hub_next_session = next_session,
      hub_state = snapshot_default,
      hub_pool =
        \<lparr>pool_slots = [], pool_budget = memory_budget_default\<lparr>mb_buffers := max capacity 2\<rparr>,
         pool_metrics = frame_metrics_default, pool_started = None, pool_stopped = None,
         pool_last_source_activity = None, pool_recent = [], pool_conversion_samples = [],
         pool_last_error_report = None, pool_suppressed_error_reports = 0\<rparr>,
      hub_subscribers = [], hub_receivers = [], hub_native_output = False, hub_events = None,
      hub_recovery_wake = 0, hub_flags = (\<lambda>_. False), hub_leases = [], hub_held = []\<rparr>"

definition is_streaming :: "hub \<Rightarrow> bool" where
  "is_streaming h = sn_active (hub_state h)"

definition set_slots :: "slot list \<Rightarrow> hub \<Rightarrow> hub" where
  "set_slots slots h = h\<lparr>hub_pool := (hub_pool h)\<lparr>pool_slots := slots\<rparr>\<rparr>"

definition slots_bytes :: "slot list \<Rightarrow> usize" where
  "slots_bytes slots = sum_list (map slot_bytes slots)"

definition configure :: "stream_request \<Rightarrow> hub \<Rightarrow> hub \<times> unit camera_result" where
  "configure r h =
     (if is_streaming h then (h, Err (invalid_state ''Stop before configuring buffers''))
      else if list_ex (\<lambda>s. slot_data s = None \<and> slot_bytes s > 0) (pool_slots (hub_pool h))
      then (h, Err (invalid_state ''Frame conversion is still finishing''))
      else
        let kept = filter (\<lambda>s. case slot_data s of None \<Rightarrow> True | Some d \<Rightarrow> \<not> unique h d)
                     (pool_slots (hub_pool h));
            h = set_slots kept h
        in if length kept > mb_buffers (sr_memory r) \<or> slots_bytes kept > mb_bytes (sr_memory r)
           then (h, Err (invalid_config ''Retained frames exceed the new budget''))
           else (h\<lparr>hub_pool := (hub_pool h)\<lparr>pool_budget := sr_memory r\<rparr>,
                   hub_native_output := (sr_output r = OutputNative)\<rparr>, Ok ()))"

text \<open>\<open>clear_queues\<close> empties the queues of the live receivers and forgets the dropped ones.\<close>

definition clear_queue_at :: "receiver option list \<Rightarrow> nat \<Rightarrow> receiver option list" where
  "clear_queue_at rs i =
     (case list_at rs i of None \<Rightarrow> rs | Some r \<Rightarrow> rs[i := Some (r\<lparr>rc_queue := []\<rparr>)])"

definition clear_queues :: "hub \<Rightarrow> hub" where
  "clear_queues h =
     h\<lparr>hub_receivers := foldl clear_queue_at (hub_receivers h) (hub_subscribers h),
       hub_subscribers := filter (\<lambda>i. list_at (hub_receivers h) i \<noteq> None) (hub_subscribers h)\<rparr>"

definition start_reset :: "instant \<Rightarrow> hub \<Rightarrow> hub" where
  "start_reset now h =
     h\<lparr>hub_pool := (hub_pool h)
        \<lparr>pool_metrics := frame_metrics_default, pool_started := Some now, pool_stopped := None,
         pool_last_source_activity := Some now, pool_recent := [], pool_conversion_samples := [],
         pool_last_error_report := None, pool_suppressed_error_reports := 0\<rparr>\<rparr>"

definition start_snapshot :: "hub \<Rightarrow> hub" where
  "start_snapshot h =
     h\<lparr>hub_next_session := hub_next_session h + 1,
       hub_state := \<lparr>sn_session = hub_next_session h, sn_active = True,
         sn_recovering = sn_recovering (hub_state h),
         sn_reconnect_enabled = sn_reconnect_enabled (hub_state h), sn_latest = None\<rparr>\<rparr>"

definition hub_start :: "instant \<Rightarrow> hub \<Rightarrow> hub \<times> nat" where
  "hub_start now h =
     (start_snapshot (clear_queues (start_reset now h)), hub_next_session h)"

definition set_event_sender :: "hub \<Rightarrow> hub" where
  "set_event_sender h = h\<lparr>hub_events := Some []\<rparr>"

definition report_resource_pressure :: "nat \<Rightarrow> hub \<Rightarrow> hub" where
  "report_resource_pressure dropped h =
     (case hub_events h of None \<Rightarrow> h | Some sent \<Rightarrow> h\<lparr>hub_events := Some (sent @ [dropped])\<rparr>)"

definition begin_recovery :: "hub \<Rightarrow> hub" where
  "begin_recovery h = h\<lparr>hub_state := (hub_state h)\<lparr>sn_recovering := True\<rparr>\<rparr>"

definition end_recovery :: "hub \<Rightarrow> hub" where
  "end_recovery h = h\<lparr>hub_state := (hub_state h)\<lparr>sn_recovering := False\<rparr>\<rparr>"

definition enable_recovery :: "hub \<Rightarrow> hub" where
  "enable_recovery h = h\<lparr>hub_state := (hub_state h)\<lparr>sn_reconnect_enabled := True\<rparr>\<rparr>"

definition disable_recovery :: "hub \<Rightarrow> hub" where
  "disable_recovery h =
     h\<lparr>hub_state := (hub_state h)\<lparr>sn_reconnect_enabled := False, sn_recovering := False\<rparr>\<rparr>"

text \<open>\<open>generation.wrapping_add(1)\<close> on a \<open>u64\<close>.\<close>

definition wake_recovery :: "hub \<Rightarrow> hub" where
  "wake_recovery h = h\<lparr>hub_recovery_wake := (hub_recovery_wake h + 1) mod 18446744073709551616\<rparr>"

definition mark_stopped :: "instant \<Rightarrow> hub \<Rightarrow> hub" where
  "mark_stopped now h = h\<lparr>hub_pool := (hub_pool h)\<lparr>pool_stopped := Some now\<rparr>\<rparr>"

definition deactivate :: "hub \<Rightarrow> hub" where
  "deactivate h = h\<lparr>hub_state := (hub_state h)\<lparr>sn_active := False, sn_latest := None\<rparr>\<rparr>"

definition hub_stop :: "instant \<Rightarrow> hub \<Rightarrow> hub" where
  "hub_stop now h = wake_recovery (deactivate (clear_queues (mark_stopped now h)))"

definition hub_session :: "hub \<Rightarrow> nat" where
  "hub_session h = sn_session (hub_state h)"

definition hub_latest :: "hub \<Rightarrow> captured_frame option" where
  "hub_latest h = sn_latest (hub_state h)"

definition wants_native :: "hub \<Rightarrow> bool" where
  "wants_native h = hub_native_output h"

section \<open>Recovery and errors\<close>

definition recovery_trigger :: "duration \<Rightarrow> instant \<Rightarrow> hub \<Rightarrow> recovery_trigger option" where
  "recovery_trigger stall_timeout now h =
     (if \<not> sn_active (hub_state h) then Some SourceStopped
      else
        let n = fm_consecutive_conversion_errors (pool_metrics (hub_pool h)) in
        if n \<ge> FRAME_ERROR_RECOVERY_THRESHOLD then Some (FrameErrors n)
        else case pool_last_source_activity (hub_pool h) of
            None \<Rightarrow> Some SourceStalled
          | Some activity \<Rightarrow> if now - activity \<ge> stall_timeout then Some SourceStalled else None)"

definition source_stall_remaining :: "duration \<Rightarrow> instant \<Rightarrow> hub \<Rightarrow> duration" where
  "source_stall_remaining timeout now h =
     (case pool_last_source_activity (hub_pool h) of
        None \<Rightarrow> 0
      | Some activity \<Rightarrow> timeout - (now - activity))"

definition epoch_active :: "nat \<Rightarrow> hub \<Rightarrow> bool" where
  "epoch_active session h \<longleftrightarrow> sn_active (hub_state h) \<and> sn_session (hub_state h) = session"

definition record_conversion_error :: "instant \<Rightarrow> nat \<Rightarrow> bool \<Rightarrow> hub \<Rightarrow> hub" where
  "record_conversion_error now session source_activity h =
     (if \<not> epoch_active session h then h
      else
        let p = hub_pool h;
            p = (if source_activity
                 then p\<lparr>pool_metrics := (pool_metrics p)\<lparr>fm_received := fm_received (pool_metrics p) + 1\<rparr>,
                        pool_last_source_activity := Some now\<rparr>
                 else p);
            m = pool_metrics p;
            n = fm_consecutive_conversion_errors m + 1;
            m = m\<lparr>fm_conversion_errors := fm_conversion_errors m + 1,
                  fm_consecutive_conversion_errors := n,
                  fm_max_consecutive_conversion_errors :=
                    max (fm_max_consecutive_conversion_errors m) n\<rparr>;
            h = h\<lparr>hub_pool := p\<lparr>pool_metrics := m\<rparr>\<rparr>
        in if n = FRAME_ERROR_RECOVERY_THRESHOLD then wake_recovery h else h)"

definition record_input_error :: "instant \<Rightarrow> nat \<Rightarrow> hub \<Rightarrow> hub" where
  "record_input_error now session h = record_conversion_error now session True h"

text \<open>Returns the number of suppressed reports when a line is logged.\<close>

definition log_frame_error :: "instant \<Rightarrow> hub \<Rightarrow> hub \<times> nat option" where
  "log_frame_error now h =
     (let p = hub_pool h in
      if (case pool_last_error_report p of None \<Rightarrow> False | Some previous \<Rightarrow> now - previous < from_secs 1)
      then (h\<lparr>hub_pool := p\<lparr>pool_suppressed_error_reports := pool_suppressed_error_reports p + 1\<rparr>\<rparr>, None)
      else (h\<lparr>hub_pool := p\<lparr>pool_suppressed_error_reports := 0, pool_last_error_report := Some now\<rparr>\<rparr>,
            Some (pool_suppressed_error_reports p)))"

text \<open>\<open>pool.metrics.pool_drops += 1\<close> followed by the pressure report.\<close>

definition pool_drop :: "hub \<Rightarrow> hub" where
  "pool_drop h =
     (let p = hub_pool h; m = pool_metrics p; dropped = fm_pool_drops m + 1
      in report_resource_pressure dropped
           (h\<lparr>hub_pool := p\<lparr>pool_metrics := m\<lparr>fm_pool_drops := dropped\<rparr>\<rparr>\<rparr>))"

definition pool_receive :: "instant \<Rightarrow> hub \<Rightarrow> hub" where
  "pool_receive now h =
     (let p = hub_pool h; m = pool_metrics p
      in h\<lparr>hub_pool := p\<lparr>pool_metrics := m\<lparr>fm_received := fm_received m + 1\<rparr>,
           pool_last_source_activity := Some now\<rparr>\<rparr>)"

definition record_input_drop :: "instant \<Rightarrow> nat \<Rightarrow> hub \<Rightarrow> hub" where
  "record_input_drop now session h =
     (if hub_session h = session then pool_drop (pool_receive now h) else h)"

section \<open>Reserving a buffer\<close>

definition max_list :: "nat list \<Rightarrow> nat option" where
  "max_list xs = (if xs = [] then None else Some (Max (set xs)))"

definition frame_length :: "frame_layout \<Rightarrow> bool \<Rightarrow> usize camera_result" where
  "frame_length layout rgb =
     (let len =
        (if rgb
         then Option.bind (checked_mul (unat (fl_width layout)) (unat (fl_height layout)))
                (\<lambda>n. checked_mul n 3)
         else max_list (List.map_filter (\<lambda>p. checked_add (pl_offset p) (pl_length p))
                (fl_planes layout)))
      in case len of
           Some n \<Rightarrow> if 0 < n \<and> n \<le> MAX_FRAME_BYTES then Ok n
             else Err (invalid_frame ''Frame exceeds size limit'')
         | None \<Rightarrow> Err (invalid_frame ''Frame exceeds size limit''))"

text \<open>\<open>buffer.resize(length, 0)\<close> within the capacity.\<close>

definition resize_bytes :: "usize \<Rightarrow> u8 list \<Rightarrow> u8 list" where
  "resize_bytes n data = take n data @ replicate (n - length data) 0"

text \<open>Allocating a buffer: a fresh location.\<close>

definition allocate :: "buffer \<Rightarrow> hub \<Rightarrow> hub \<times> location" where
  "allocate b h =
     (h\<lparr>hub_heap := (hub_heap h)(hub_next_location h := b),
        hub_next_location := hub_next_location h + 1\<rparr>, hub_next_location h)"

text \<open>
  The \<open>match existing\<close> of \<open>reserve\<close>: reuse the storage taken from the slot when its kind and
  shape allow, replace it otherwise.
\<close>

definition new_rgb :: "frame_layout \<Rightarrow> hub \<Rightarrow> hub \<times> storage" where
  "new_rgb layout h =
     (case allocate (pixels_zeros (unat (fl_height layout), unat (fl_width layout), 3)) h of
        (h, l) \<Rightarrow> (h, StorageRgb l))"

definition new_bytes :: "usize \<Rightarrow> hub \<Rightarrow> hub \<times> storage" where
  "new_bytes n h = (case allocate (bytes_zeros n) h of (h, l) \<Rightarrow> (h, StorageBytes l))"

definition prepare_storage ::
  "frame_layout \<Rightarrow> bool \<Rightarrow> usize \<Rightarrow> storage option \<Rightarrow> hub \<Rightarrow> hub \<times> storage" where
  "prepare_storage layout rgb len existing h =
     (case existing of
        Some (StorageRgb l) \<Rightarrow>
          if rgb \<and> px_shape (hub_heap h l) = (unat (fl_height layout), unat (fl_width layout), 3)
          then (h, StorageRgb l)
          else if rgb then new_rgb layout h else new_bytes len h
      | Some (StorageBytes l) \<Rightarrow>
          if \<not> rgb
          then (if len > bb_capacity (hub_heap h l) then new_bytes len h
                else (h\<lparr>hub_heap := (hub_heap h)
                         (l := ByteBuffer (resize_bytes len (bb_data (hub_heap h l)))
                                 (bb_capacity (hub_heap h l)))\<rparr>, StorageBytes l))
          else new_rgb layout h
      | None \<Rightarrow> if rgb then new_rgb layout h else new_bytes len h)"

fun storage_allocated :: "hub \<Rightarrow> usize \<Rightarrow> storage \<Rightarrow> usize" where
  "storage_allocated h len (StorageBytes l) = bb_capacity (hub_heap h l)"
| "storage_allocated h len (StorageRgb l) = len"

definition slot_unique :: "hub \<Rightarrow> slot \<Rightarrow> bool" where
  "slot_unique h s = (case slot_data s of None \<Rightarrow> False | Some d \<Rightarrow> unique h d)"

text \<open>The choice of a slot: the first unique one, else a new one while the pool may grow.\<close>

definition pick_slot :: "hub \<Rightarrow> (slot list \<times> usize) option" where
  "pick_slot h =
     (let slots = pool_slots (hub_pool h) in
      case position (slot_unique h) slots of
        Some i \<Rightarrow> Some (slots, i)
      | None \<Rightarrow>
          if length slots < mb_buffers (pool_budget (hub_pool h))
          then Some (slots @ [\<lparr>slot_data = None, slot_bytes = 0\<rparr>], length slots)
          else None)"

text \<open>
  \<open>reserve\<close> returns the index of the new lease.  \<open>used - slots[index].bytes\<close> cannot underflow,
  since \<open>used\<close> is the sum over all slots.
\<close>

definition reserve ::
  "instant \<Rightarrow> nat \<Rightarrow> frame_layout \<Rightarrow> bool \<Rightarrow> hub \<Rightarrow> hub \<times> usize option camera_result" where
  "reserve now session layout rgb h =
     (if \<not> epoch_active session h then (h, Ok None)
      else case frame_length layout rgb of
        Err e \<Rightarrow> (h, Err e)
      | Panic \<Rightarrow> (h, Panic)
      | Ok len \<Rightarrow>
        let h = pool_receive now h in
        case pick_slot h of
          None \<Rightarrow> (pool_drop h, Ok None)
        | Some (slots, i) \<Rightarrow>
          let budget = mb_bytes (pool_budget (hub_pool h));
              available = budget - (slots_bytes slots - slot_bytes (slots ! i)) in
          if len > available
          then (pool_drop
                 (set_slots (if slot_bytes (slots ! i) = 0 then butlast slots else slots) h), Ok None)
          else
            case prepare_storage layout rgb len (slot_data (slots ! i)) h of
              (h, st) \<Rightarrow>
              let allocated = storage_allocated h len st in
              if allocated > available
              then (case new_bytes 0 h of (h, blank) \<Rightarrow>
                     (pool_drop
                       (set_slots (slots[i := \<lparr>slot_data = Some blank, slot_bytes = 0\<rparr>]) h), Ok None))
              else
                ((set_slots (slots[i := \<lparr>slot_data = None, slot_bytes = allocated\<rparr>]) h)
                   \<lparr>hub_leases := hub_leases h @
                      [Some \<lparr>ls_index = i, ls_data = st, ls_session = session, ls_layout = layout,
                             ls_committed = False\<rparr>]\<rparr>,
                 Ok (Some (length (hub_leases h)))))"

section \<open>Writing, publishing and dropping a lease\<close>

text \<open>
  The producer writes through \<open>bytes_mut\<close>, which panics unless the lease is the only reference;
  the slice it gets has a fixed length.
\<close>

definition lease_bytes :: "hub \<Rightarrow> lease \<Rightarrow> u8 list" where
  "lease_bytes h ls = buffer_bytes (hub_heap h (storage_loc (ls_data ls)))"

definition write_lease :: "nat \<Rightarrow> u8 list \<Rightarrow> hub \<Rightarrow> hub camera_result" where
  "write_lease lid data h =
     (case list_at (hub_leases h) lid of
        None \<Rightarrow> Panic
      | Some ls \<Rightarrow>
          if retained h (ls_data ls) then Panic
          else let l = storage_loc (ls_data ls) in
            if length data = length (lease_bytes h ls)
            then Ok (h\<lparr>hub_heap := (hub_heap h)(l := set_buffer_bytes (hub_heap h l) data)\<rparr>)
            else Panic)"

record publication =
  pub_session :: nat
  pub_layout :: frame_layout
  pub_timestamp :: "source_timestamp option"
  pub_source_sequence :: "nat option"
  pub_captured_at :: instant
  pub_elapsed :: nat

text \<open>The delivery of a frame to one receiver; the second component tells whether it is kept.\<close>

definition deliver :: "captured_frame \<Rightarrow> receiver \<Rightarrow> receiver" where
  "deliver f r =
     (case rc_delivery r of
        Latest \<Rightarrow> r\<lparr>rc_dropped := rc_dropped r + length (rc_queue r), rc_queue := [f]\<rparr>
      | Buffered capacity overflow \<Rightarrow>
          if length (rc_queue r) \<ge> capacity
          then (if overflow = DropNewest then r\<lparr>rc_dropped := rc_dropped r + 1\<rparr>
                else r\<lparr>rc_dropped := rc_dropped r + 1, rc_queue := tl (rc_queue r) @ [f]\<rparr>)
          else r\<lparr>rc_queue := rc_queue r @ [f]\<rparr>)"

definition owner_stopped :: "(nat \<Rightarrow> bool) \<Rightarrow> receiver \<Rightarrow> bool" where
  "owner_stopped flags r = (case rc_owner r of None \<Rightarrow> False | Some flag \<Rightarrow> flags flag)"

definition offer :: "(nat \<Rightarrow> bool) \<Rightarrow> captured_frame \<Rightarrow> receiver \<Rightarrow> receiver \<times> bool" where
  "offer flags f r =
     (if owner_stopped flags r then (r\<lparr>rc_queue := []\<rparr>, False)
      else case rc_max_rate r of
        Some rate \<Rightarrow>
          if (case rc_last_enqueued r of None \<Rightarrow> False
              | Some previous \<Rightarrow> cf_captured_at f - previous < frame_rate_interval rate)
          then (r\<lparr>rc_dropped := rc_dropped r + 1\<rparr>, True)
          else (deliver f (r\<lparr>rc_last_enqueued := Some (cf_captured_at f)\<rparr>), True)
      | None \<Rightarrow> (deliver f r, True))"

text \<open>\<open>subscribers.retain\<close>: a dropped receiver is forgotten.\<close>

fun offer_all ::
  "(nat \<Rightarrow> bool) \<Rightarrow> captured_frame \<Rightarrow> nat list \<Rightarrow> receiver option list \<Rightarrow> nat list \<times> receiver option list" where
  "offer_all flags f [] rs = ([], rs)"
| "offer_all flags f (i # is) rs =
     (case list_at rs i of
        None \<Rightarrow> offer_all flags f is rs
      | Some r \<Rightarrow>
          (case offer flags f r of
             (r', keep) \<Rightarrow>
               (case offer_all flags f is (rs[i := Some r']) of
                  (ids, rs') \<Rightarrow> (if keep then i # ids else ids, rs'))))"

definition next_sequence :: "hub \<Rightarrow> nat" where
  "next_sequence h =
     (case sn_latest (hub_state h) of None \<Rightarrow> 1 | Some f \<Rightarrow> fk_sequence (cf_key f) + 1)"

definition make_frame :: "nat \<Rightarrow> publication \<Rightarrow> storage \<Rightarrow> hub \<Rightarrow> captured_frame" where
  "make_frame timestamp_ns p st h =
     \<lparr>cf_key = \<lparr>fk_session = pub_session p, fk_sequence = next_sequence h\<rparr>, cf_storage = st,
      cf_layout = pub_layout p, cf_captured_at = pub_captured_at p, cf_timestamp_ns = timestamp_ns,
      cf_source_timestamp_ns = map_option ts_nanoseconds (pub_timestamp p),
      cf_source_clock = (case pub_timestamp p of None \<Rightarrow> ClockUnknown | Some t \<Rightarrow> ts_clock t),
      cf_source_sequence = pub_source_sequence p\<rparr>"

text \<open>The closure of \<open>state.send_if_modified\<close> in \<open>finish_publish\<close>.\<close>

definition commit_publication :: "nat \<Rightarrow> publication \<Rightarrow> storage \<Rightarrow> hub \<Rightarrow> hub \<times> bool" where
  "commit_publication timestamp_ns p st h =
     (if \<not> epoch_active (pub_session p) h then (h, False)
      else
        let f = make_frame timestamp_ns p st h in
        case offer_all (hub_flags h) f (hub_subscribers h) (hub_receivers h) of
          (ids, rs) \<Rightarrow>
            (h\<lparr>hub_subscribers := ids, hub_receivers := rs,
               hub_state := (hub_state h)\<lparr>sn_latest := Some f\<rparr>\<rparr>, True))"

definition saturating_add_u64 :: "nat \<Rightarrow> nat \<Rightarrow> nat" where
  "saturating_add_u64 a b = min (a + b) 18446744073709551615"

text \<open>The accounting part of \<open>finish_publish\<close>, under the pool lock.\<close>

definition account_publication :: "publication \<Rightarrow> hub \<Rightarrow> hub" where
  "account_publication p h =
     (if hub_session h \<noteq> pub_session p then h
      else
        let now = pub_captured_at p;
            q = hub_pool h;
            m = pool_metrics q;
            samples = pool_conversion_samples q;
            samples = (if length samples = 256 then tl samples else samples) @ [pub_elapsed p];
            recent = dropWhile (\<lambda>t. now - t > from_secs 1) (pool_recent q @ [now])
        in h\<lparr>hub_pool := q
               \<lparr>pool_metrics := m
                  \<lparr>fm_published := fm_published m + 1,
                   fm_consecutive_conversion_errors := 0,
                   fm_conversion_total_ns := saturating_add_u64 (fm_conversion_total_ns m) (pub_elapsed p),
                   fm_conversion_max_ns := max (fm_conversion_max_ns m) (pub_elapsed p)\<rparr>,
                pool_conversion_samples := samples, pool_recent := recent\<rparr>\<rparr>)"

definition finish_publish :: "nat \<Rightarrow> publication \<Rightarrow> storage \<Rightarrow> hub \<Rightarrow> hub \<times> bool" where
  "finish_publish timestamp_ns p st h =
     (case commit_publication timestamp_ns p st h of
        (h, published) \<Rightarrow> (if published then account_publication p h else h, published))"

definition commit_lease :: "nat \<Rightarrow> hub \<Rightarrow> hub" where
  "commit_lease lid h =
     (case list_at (hub_leases h) lid of
        None \<Rightarrow> h
      | Some ls \<Rightarrow> h\<lparr>hub_leases := (hub_leases h)[lid := Some (ls\<lparr>ls_committed := True\<rparr>)]\<rparr>)"

text \<open>\<open>Drop for Lease\<close>: indexing a slot that is gone would panic.\<close>

definition drop_lease :: "nat \<Rightarrow> hub \<Rightarrow> hub camera_result" where
  "drop_lease lid h =
     (case list_at (hub_leases h) lid of
        None \<Rightarrow> Panic
      | Some ls \<Rightarrow>
          let slots = pool_slots (hub_pool h) in
          if ls_index ls < length slots
          then Ok ((set_slots (slots[ls_index ls := (slots ! ls_index ls)\<lparr>slot_data := Some (ls_data ls)\<rparr>]) h)
                 \<lparr>hub_leases := (hub_leases h)[lid := None]\<rparr>)
          else Panic)"

text \<open>
  \<open>publish\<close>: reserve, fill through the conversion closure, offer, drop the lease.  The closure
  gets the bytes of the buffer and returns them with its result; \<open>now\<close> is the entry time,
  \<open>failed_at\<close> the time of a conversion error, \<open>elapsed\<close> the duration of the conversion.
\<close>

definition publish ::
  "instant \<Rightarrow> instant \<Rightarrow> nat \<Rightarrow> nat \<Rightarrow> nat \<Rightarrow> frame_layout \<Rightarrow> source_timestamp option \<Rightarrow> nat option \<Rightarrow>
   bool \<Rightarrow> (u8 list \<Rightarrow> u8 list \<times> unit camera_result) \<Rightarrow> hub \<Rightarrow> hub \<times> bool camera_result" where
  "publish now failed_at timestamp_ns elapsed session layout timestamp sequence rgb convert h =
     (case reserve now session layout rgb h of
        (h, Err e) \<Rightarrow> (h, Err e)
      | (h, Panic) \<Rightarrow> (h, Panic)
      | (h, Ok None) \<Rightarrow> (h, Ok False)
      | (h, Ok (Some lid)) \<Rightarrow>
          (case list_at (hub_leases h) lid of
             None \<Rightarrow> (h, Panic)
           | Some ls \<Rightarrow>
               (case convert (lease_bytes h ls) of
                  (data, result) \<Rightarrow>
                    (case write_lease lid data h of
                       Ok h \<Rightarrow>
                         (case result of
                            Ok _ \<Rightarrow>
                              (case finish_publish timestamp_ns
                                 \<lparr>pub_session = session, pub_layout = layout, pub_timestamp = timestamp,
                                  pub_source_sequence = sequence, pub_captured_at = now,
                                  pub_elapsed = elapsed\<rparr> (ls_data ls) (commit_lease lid h) of
                                 (h, published) \<Rightarrow>
                                   (case drop_lease lid h of
                                      Ok h \<Rightarrow> (h, Ok published)
                                    | _ \<Rightarrow> (h, Panic)))
                          | Err e \<Rightarrow>
                              let h = record_conversion_error failed_at session False h in
                              (case drop_lease lid h of Ok h \<Rightarrow> (h, Err e) | _ \<Rightarrow> (h, Panic))
                          | Panic \<Rightarrow> (h, Panic))
                     | _ \<Rightarrow> (h, Panic)))))"

definition publish_rgb where
  "publish_rgb now failed_at timestamp_ns elapsed session width height source_timestamp_ns convert h =
     publish now failed_at timestamp_ns elapsed session (rgb_layout width height)
       (map_option (\<lambda>ns. \<lparr>ts_nanoseconds = ns, ts_clock = ClockUnknown\<rparr>) source_timestamp_ns)
       None True convert h"

definition publish_rgb_metadata where
  "publish_rgb_metadata now failed_at timestamp_ns elapsed session width height timestamp sequence convert h =
     publish now failed_at timestamp_ns elapsed session (rgb_layout width height) timestamp sequence
       True convert h"

fun try_fold_extent :: "plane_layout list \<Rightarrow> usize \<Rightarrow> usize option" where
  "try_fold_extent [] n = Some n"
| "try_fold_extent (p # ps) n =
     (case checked_add (pl_offset p) (pl_length p) of
        None \<Rightarrow> None
      | Some stop \<Rightarrow> try_fold_extent ps (max n stop))"

definition publish_native_into where
  "publish_native_into now failed_at timestamp_ns elapsed session layout timestamp convert h =
     (case and_then (ok_or (try_fold_extent (fl_planes layout) 0)
                       (invalid_frame ''Native plane extent overflow''))
             (\<lambda>len. layout_validate layout len) of
        Ok _ \<Rightarrow> publish now failed_at timestamp_ns elapsed session layout timestamp None False convert h
      | Err e \<Rightarrow> (h, Err e)
      | Panic \<Rightarrow> (h, Panic))"

fun try_fold_add :: "usize list \<Rightarrow> usize \<Rightarrow> usize option" where
  "try_fold_add [] n = Some n"
| "try_fold_add (x # xs) n =
     (case checked_add n x of None \<Rightarrow> None | Some m \<Rightarrow> try_fold_add xs m)"

text \<open>
  The closure of \<open>publish_native\<close> copies the parts one after the other; slicing past the end of
  the buffer, or a buffer that is longer than the parts, is visible as \<open>Panic\<close> or left bytes.
\<close>

definition copy_parts :: "u8 list list \<Rightarrow> u8 list \<Rightarrow> u8 list \<times> unit camera_result" where
  "copy_parts parts out =
     (let data = concat parts in
      if length data \<le> length out then (data @ drop (length data) out, Ok ()) else (out, Panic))"

definition publish_native where
  "publish_native now failed_at timestamp_ns elapsed session layout timestamp sequence parts h =
     (case and_then (ok_or (try_fold_add (map length parts) 0) (invalid_frame ''Native size overflow''))
             (\<lambda>len. and_then (layout_validate layout len) (\<lambda>_.
               and_then (collect_results plane_end (fl_planes layout)) (\<lambda>ends.
               if (case max_list ends of None \<Rightarrow> 0 | Some n \<Rightarrow> n) \<noteq> len
               then Err (invalid_frame ''Native payload contains undescribed trailing data'')
               else Ok ()))) of
        Ok _ \<Rightarrow> publish now failed_at timestamp_ns elapsed session layout timestamp sequence False
                  (copy_parts parts) h
      | Err e \<Rightarrow> (h, Err e)
      | Panic \<Rightarrow> (h, Panic))"

text \<open>\<open>writable_native\<close> and \<open>NativeWriteLease::commit\<close>.\<close>

definition writable_native :: "instant \<Rightarrow> nat \<Rightarrow> frame_layout \<Rightarrow> hub \<Rightarrow> hub \<times> nat camera_result" where
  "writable_native now session layout h =
     (case and_then (frame_length layout False) (\<lambda>len. layout_validate layout len) of
        Err e \<Rightarrow> (h, Err e)
      | Panic \<Rightarrow> (h, Panic)
      | Ok _ \<Rightarrow>
          (case reserve now session layout False h of
             (h, Ok (Some lid)) \<Rightarrow> (h, Ok lid)
           | (h, Ok None) \<Rightarrow> (h, Err buffer_exhausted)
           | (h, Err e) \<Rightarrow> (h, Err e)
           | (h, Panic) \<Rightarrow> (h, Panic)))"

definition native_commit ::
  "nat \<Rightarrow> source_timestamp option \<Rightarrow> instant \<Rightarrow> nat \<Rightarrow> hub \<Rightarrow> hub \<times> bool camera_result" where
  "native_commit timestamp_ns timestamp captured_at lid h =
     (case list_at (hub_leases h) lid of
        None \<Rightarrow> (h, Panic)
      | Some ls \<Rightarrow>
          (case finish_publish timestamp_ns
             \<lparr>pub_session = ls_session ls, pub_layout = ls_layout ls, pub_timestamp = timestamp,
              pub_source_sequence = None, pub_captured_at = captured_at, pub_elapsed = 0\<rparr>
             (ls_data ls) (commit_lease lid h) of
             (h, published) \<Rightarrow>
               (case drop_lease lid h of Ok h \<Rightarrow> (h, Ok published) | _ \<Rightarrow> (h, Panic))))"

section \<open>Metrics\<close>

definition quantile :: "nat list \<Rightarrow> nat \<Rightarrow> nat" where
  "quantile samples percent =
     (let i = div_ceil (length samples * percent) 100 - 1
      in if i < length samples then samples ! i else 0)"

definition metrics :: "hub \<Rightarrow> frame_metrics" where
  "metrics h =
     (let p = hub_pool h; samples = sort (pool_conversion_samples p)
      in (pool_metrics p)
         \<lparr>fm_conversion_p50_ns := quantile samples 50, fm_conversion_p95_ns := quantile samples 95,
          fm_allocated_buffers := length (pool_slots p),
          fm_allocated_bytes := slots_bytes (pool_slots p),
          fm_retained_buffers := length (filter
            (\<lambda>s. case slot_data s of None \<Rightarrow> True | Some d \<Rightarrow> retained h d) (pool_slots p))\<rparr>)"

text \<open>
  \<open>StreamStats\<close> (\<open>src/traits.rs\<close>); the frame rate is a count of frames, exact as an \<open>f64\<close>.
\<close>

record stream_stats =
  st_total_frames :: nat
  st_dropped_frames :: nat
  st_current_fps :: nat
  st_buffer_size :: usize
  st_buffered_frames :: usize
  st_uptime_seconds :: nat

definition stats :: "instant \<Rightarrow> hub \<Rightarrow> stream_stats" where
  "stats now h =
     (let p = hub_pool h; m = pool_metrics p
      in \<lparr>st_total_frames = fm_received m,
          st_dropped_frames = fm_pool_drops m + fm_conversion_errors m,
          st_current_fps =
            (if is_streaming h
             then length (filter (\<lambda>t. now - t < from_secs 1) (pool_recent p)) else 0),
          st_buffer_size = mb_buffers (pool_budget p),
          st_buffered_frames = (if hub_latest h = None then 0 else 1),
          st_uptime_seconds =
            (case pool_started p of
               None \<Rightarrow> 0
             | Some t \<Rightarrow>
                 ((case pool_stopped p of None \<Rightarrow> now | Some stopped \<Rightarrow> stopped) - t) div 1000000000)\<rparr>)"

text \<open>\<open>drop_rate\<close> and \<open>buffer_usage\<close>: the quotient is exact here, the code rounds it to an \<open>f64\<close>.\<close>

definition drop_rate :: "stream_stats \<Rightarrow> rat" where
  "drop_rate s =
     (if st_total_frames s = 0 then 0 else of_nat (st_dropped_frames s) / of_nat (st_total_frames s))"

definition buffer_usage :: "stream_stats \<Rightarrow> rat" where
  "buffer_usage s =
     (if st_buffer_size s = 0 then 0 else of_nat (st_buffered_frames s) / of_nat (st_buffer_size s))"

section \<open>Receivers\<close>

definition subscribe_with :: "subscription_options \<Rightarrow> hub \<Rightarrow> hub \<times> nat camera_result" where
  "subscribe_with options h =
     (case subscription_validate options (pool_budget (hub_pool h)) of
        Err e \<Rightarrow> (h, Err e)
      | Panic \<Rightarrow> (h, Panic)
      | Ok _ \<Rightarrow>
          let latest = sn_latest (hub_state h);
              r = \<lparr>rc_queue = (case latest of None \<Rightarrow> [] | Some f \<Rightarrow> [f]),
                   rc_delivery = so_delivery options, rc_dropped = 0,
                   rc_max_rate = so_max_rate options,
                   rc_last_enqueued = map_option cf_captured_at latest, rc_owner = None,
                   rc_last = None\<rparr>;
              rid = length (hub_receivers h)
          in (h\<lparr>hub_receivers := hub_receivers h @ [Some r],
                hub_subscribers := hub_subscribers h @ [rid]\<rparr>, Ok rid))"

definition with_stop_flag :: "nat \<Rightarrow> nat \<Rightarrow> hub \<Rightarrow> hub" where
  "with_stop_flag rid flag h =
     (case list_at (hub_receivers h) rid of
        None \<Rightarrow> h
      | Some r \<Rightarrow>
          let r = (if hub_flags h flag then r\<lparr>rc_queue := []\<rparr> else r);
              r = (case rc_owner r of None \<Rightarrow> r\<lparr>rc_owner := Some flag\<rparr> | Some _ \<Rightarrow> r)
          in h\<lparr>hub_receivers := (hub_receivers h)[rid := Some r]\<rparr>)"

definition queued_frames :: "receiver \<Rightarrow> nat" where
  "queued_frames r = length (rc_queue r)"

text \<open>\<open>while let Some(f) = q.pop_front()\<close>: the first frame of the session that is not the last one.\<close>

fun pop_frame ::
  "frame_key option \<Rightarrow> nat \<Rightarrow> captured_frame list \<Rightarrow> captured_frame option \<times> captured_frame list" where
  "pop_frame lst session [] = (None, [])"
| "pop_frame lst session (f # q) =
     (if Some (cf_key f) \<noteq> lst \<and> fk_session (cf_key f) = session then (Some f, q)
      else pop_frame lst session q)"

text \<open>
  One turn of the loop of \<open>next\<close>.  \<open>None\<close> is the wait for a change of the snapshot, after which
  the turn is taken again.  A frame handed out is held by the application from then on.
\<close>

definition receiver_next :: "nat \<Rightarrow> hub \<Rightarrow> hub \<times> captured_frame camera_result option" where
  "receiver_next rid h =
     (case list_at (hub_receivers h) rid of
        None \<Rightarrow> (h, None)
      | Some r \<Rightarrow>
          let s = hub_state h in
          if owner_stopped (hub_flags h) r
            \<or> (\<not> sn_active s \<and> \<not> sn_recovering s \<and> \<not> sn_reconnect_enabled s)
          then (h, Some (Err stream_stopped))
          else (case pop_frame (rc_last r) (sn_session s) (rc_queue r) of
                  (None, q) \<Rightarrow>
                    (h\<lparr>hub_receivers := (hub_receivers h)[rid := Some (r\<lparr>rc_queue := q\<rparr>)]\<rparr>, None)
                | (Some f, q) \<Rightarrow>
                    (h\<lparr>hub_receivers := (hub_receivers h)
                         [rid := Some (r\<lparr>rc_queue := q, rc_last := Some (cf_key f)\<rparr>)],
                       hub_held := f # hub_held h\<rparr>, Some (Ok f))))"

definition drop_receiver :: "nat \<Rightarrow> hub \<Rightarrow> hub" where
  "drop_receiver rid h = h\<lparr>hub_receivers := (hub_receivers h)[rid := None]\<rparr>"

text \<open>The application drops a frame, or takes another reference to the latest one.\<close>

definition release_frame :: "nat \<Rightarrow> hub \<Rightarrow> hub" where
  "release_frame k h = h\<lparr>hub_held := take k (hub_held h) @ drop (Suc k) (hub_held h)\<rparr>"

definition hold_latest :: "hub \<Rightarrow> hub" where
  "hold_latest h =
     (case hub_latest h of None \<Rightarrow> h | Some f \<Rightarrow> h\<lparr>hub_held := f # hub_held h\<rparr>)"

definition set_flag :: "nat \<Rightarrow> hub \<Rightarrow> hub" where
  "set_flag flag h = h\<lparr>hub_flags := (hub_flags h)(flag := True)\<rparr>"

text \<open>The condition \<open>wait_first_in\<close> puts on the session before and after its wait.\<close>

definition first_frame_check :: "nat \<Rightarrow> captured_frame \<Rightarrow> captured_frame camera_result" where
  "first_frame_check session f =
     (if fk_session (cf_key f) \<noteq> session then Err stream_stopped else Ok f)"

end
