(* ===== verification/Interfaces.thy ===== *)
theory Interfaces
  imports Prelude
begin

text \<open>
  The interfaces of the development.  A state machine with an inductive invariant, and a bounded
  queue that evicts from its head: the laws a provider discharges once, and the lemmas its
  clients use.
\<close>

section \<open>State machines\<close>

text \<open>The states an initial state reaches by the steps of a machine.\<close>

inductive reachable :: "('s \<Rightarrow> bool) \<Rightarrow> ('s \<Rightarrow> 's \<Rightarrow> bool) \<Rightarrow> 's \<Rightarrow> bool"
  for start :: "'s \<Rightarrow> bool" and step :: "'s \<Rightarrow> 's \<Rightarrow> bool" where
  reachable_start: "start s \<Longrightarrow> reachable start step s"
| reachable_step: "reachable start step s \<Longrightarrow> step s t \<Longrightarrow> reachable start step t"

lemma reachable_steps:
  assumes "step\<^sup>*\<^sup>* s t" "reachable start step s"
  shows "reachable start step t"
  using assms by (induction rule: rtranclp_induct) (auto intro: reachable_step)

locale inductive_invariant =
  fixes start :: "'s \<Rightarrow> bool" and step :: "'s \<Rightarrow> 's \<Rightarrow> bool" and inv :: "'s \<Rightarrow> bool"
  assumes inv_start: "start s \<Longrightarrow> inv s"
    and inv_step: "inv s \<Longrightarrow> step s t \<Longrightarrow> inv t"
begin

lemma inv_reachable: "reachable start step s \<Longrightarrow> inv s"
  by (induction rule: reachable.induct) (auto intro: inv_start inv_step)

lemma inv_steps: "step\<^sup>*\<^sup>* s t \<Longrightarrow> inv s \<Longrightarrow> inv t"
  by (induction rule: rtranclp_induct) (auto intro: inv_step)

text \<open>A relation that holds at every step between invariant states, if it is a preorder, holds
  between a state and everything that follows it.\<close>

lemma steps_relation:
  assumes "step\<^sup>*\<^sup>* s t" "inv s"
    and "\<And>x. R x x" and "\<And>x y z. R x y \<Longrightarrow> R y z \<Longrightarrow> R x z"
    and "\<And>x y. inv x \<Longrightarrow> step x y \<Longrightarrow> R x y"
  shows "R s t"
  using assms(1,2)
proof (induction rule: rtranclp_induct)
  case base
  then show ?case using assms(3) by blast
next
  case (step y z)
  then show ?case using assms(4,5) inv_steps by blast
qed

end

section \<open>Bounded queues\<close>

text \<open>
  A push either keeps the contents or evicts some of the oldest elements and appends the new one;
  it never exceeds the capacity.
\<close>

locale bounded_queue =
  fixes push :: "'a \<Rightarrow> 'q \<Rightarrow> 'q" and contents :: "'q \<Rightarrow> 'a list" and capacity :: "'q \<Rightarrow> nat"
  assumes push_contents:
      "contents (push x q) = contents q \<or> (\<exists>n. contents (push x q) = drop n (contents q) @ [x])"
    and push_capacity: "capacity (push x q) = capacity q"
    and push_bounded:
      "0 < capacity q \<Longrightarrow> length (contents q) \<le> capacity q \<Longrightarrow>
       length (contents (push x q)) \<le> capacity q"
begin

lemma push_subset: "set (contents (push x q)) \<subseteq> insert x (set (contents q))"
  using push_contents [of x q] set_drop_subset by fastforce

lemma push_sorted:
  assumes "sorted_wrt R (contents q)" "\<And>y. y \<in> set (contents q) \<Longrightarrow> R y x"
  shows "sorted_wrt R (contents (push x q))"
  using push_contents [of x q]
proof (elim disjE exE)
  fix n
  assume n: "contents (push x q) = drop n (contents q) @ [x]"
  have "sorted_wrt R (drop n (contents q))"
    using assms(1) by (simp add: sorted_wrt_drop)
  moreover have "\<forall>y \<in> set (drop n (contents q)). R y x"
    using assms(2) set_drop_subset by fast
  ultimately show ?thesis by (simp add: n sorted_wrt_append)
qed (simp add: assms(1))

lemma pushes_bounded:
  assumes "0 < capacity q" "length (contents q) \<le> capacity q"
  shows "length (contents (fold push xs q)) \<le> capacity q"
  using assms
proof (induction xs arbitrary: q)
  case (Cons x xs)
  then show ?case
    using Cons.IH [of "push x q"] push_bounded [of q x] push_capacity [of x q] by simp
qed simp

end

end
