(* ===== verification/Hub_Invariant.thy ===== *)
theory Hub_Invariant
  imports Frame_Hub Interfaces
begin

text \<open>
  The invariant of the frame hub under every interleaving of its operations: the step relation
  \<open>hub_step\<close>, the parts of the invariant (ownership of buffers, memory budget, keys and queues)
  and one preservation lemma per operation.
\<close>

section \<open>The order of frame keys\<close>

definition key_less :: "frame_key \<Rightarrow> frame_key \<Rightarrow> bool" where
  "key_less a b \<longleftrightarrow>
     fk_session a < fk_session b \<or> fk_session a = fk_session b \<and> fk_sequence a < fk_sequence b"

text \<open>A key that a publication in the snapshot's session has already passed.\<close>

definition key_past :: "snapshot \<Rightarrow> frame_key \<Rightarrow> bool" where
  "key_past s k \<longleftrightarrow>
     fk_session k < sn_session s
     \<or> fk_session k = sn_session s
       \<and> (case sn_latest s of Some g \<Rightarrow> fk_sequence k \<le> fk_sequence (cf_key g) | None \<Rightarrow> \<not> sn_active s)"

section \<open>The queue of a receiver is a bounded queue\<close>

definition receiver_capacity :: "receiver \<Rightarrow> nat" where
  "receiver_capacity r = (case rc_delivery r of Latest \<Rightarrow> 1 | Buffered capacity _ \<Rightarrow> capacity)"

interpretation receiver_queue: bounded_queue deliver rc_queue receiver_capacity
proof
  fix f r
  show "rc_queue (deliver f r) = rc_queue r \<or> (\<exists>n. rc_queue (deliver f r) = drop n (rc_queue r) @ [f])"
  proof (cases "rc_delivery r")
    case Latest
    then have "rc_queue (deliver f r) = drop (length (rc_queue r)) (rc_queue r) @ [f]"
      by (simp add: deliver_def)
    then show ?thesis by blast
  next
    case (Buffered c ov)
    then have "rc_queue (deliver f r) = rc_queue r
        \<or> rc_queue (deliver f r) = drop 1 (rc_queue r) @ [f]
        \<or> rc_queue (deliver f r) = drop 0 (rc_queue r) @ [f]"
      by (simp add: deliver_def drop_Suc)
    then show ?thesis by blast
  qed
  show "receiver_capacity (deliver f r) = receiver_capacity r"
    by (simp add: deliver_def receiver_capacity_def split: delivery_policy.splits)
  show "0 < receiver_capacity r \<Longrightarrow> length (rc_queue r) \<le> receiver_capacity r \<Longrightarrow>
      length (rc_queue (deliver f r)) \<le> receiver_capacity r"
    by (auto simp: deliver_def receiver_capacity_def split: delivery_policy.splits)
qed

section \<open>The invariant\<close>

text \<open>What a slot or a lease on it owns.\<close>

definition owns :: "hub \<Rightarrow> nat \<Rightarrow> storage \<Rightarrow> bool" where
  "owns h i st \<longleftrightarrow>
     i < length (pool_slots (hub_pool h))
     \<and> (slot_data (pool_slots (hub_pool h) ! i) = Some st
        \<or> (\<exists>k ls. list_at (hub_leases h) k = Some ls \<and> ls_index ls = i \<and> ls_data ls = st))"

text \<open>The buffer behind a storage uses the bytes its slot accounts for.\<close>

fun buffer_fits :: "heap \<Rightarrow> storage \<Rightarrow> nat \<Rightarrow> bool" where
  "buffer_fits heap (StorageBytes l) n \<longleftrightarrow>
     (\<exists>d. heap l = ByteBuffer d n \<and> length d \<le> n)"
| "buffer_fits heap (StorageRgb l) n \<longleftrightarrow>
     (\<exists>a b c d. heap l = PixelBuffer (a, b, c) d \<and> length d = a * b * c \<and> n = a * b * c)"

definition inv_budget :: "hub \<Rightarrow> bool" where
  "inv_budget h \<longleftrightarrow>
     length (pool_slots (hub_pool h)) \<le> mb_buffers (pool_budget (hub_pool h))
     \<and> slots_bytes (pool_slots (hub_pool h)) \<le> mb_bytes (pool_budget (hub_pool h))
     \<and> (\<forall>s \<in> set (pool_slots (hub_pool h)). 0 < slot_bytes s)"

definition inv_leases :: "hub \<Rightarrow> bool" where
  "inv_leases h \<longleftrightarrow>
     (\<forall>k ls. list_at (hub_leases h) k = Some ls \<longrightarrow>
        ls_index ls < length (pool_slots (hub_pool h))
        \<and> slot_data (pool_slots (hub_pool h) ! ls_index ls) = None
        \<and> length (lease_bytes h ls) < usize_bound
        \<and> layout_validate (ls_layout ls) (length (lease_bytes h ls)) = Ok ()
        \<and> (\<not> ls_committed ls \<longrightarrow> \<not> retained h (ls_data ls)))
     \<and> (\<forall>j k ls ls'. list_at (hub_leases h) j = Some ls \<longrightarrow> list_at (hub_leases h) k = Some ls' \<longrightarrow>
        ls_index ls = ls_index ls' \<longrightarrow> j = k)"

definition inv_storage :: "hub \<Rightarrow> bool" where
  "inv_storage h \<longleftrightarrow>
     (\<forall>i st. owns h i st \<longrightarrow>
        storage_loc st < hub_next_location h
        \<and> buffer_fits (hub_heap h) st (slot_bytes (pool_slots (hub_pool h) ! i)))
     \<and> (\<forall>i j st st'. owns h i st \<longrightarrow> owns h j st' \<longrightarrow> storage_loc st = storage_loc st' \<longrightarrow> i = j)"

definition inv_frames :: "hub \<Rightarrow> bool" where
  "inv_frames h \<longleftrightarrow>
     (\<forall>f \<in> set (live_frames h).
        storage_loc (cf_storage f) < hub_next_location h
        \<and> frame_well_formed (hub_heap h) f
        \<and> key_past (hub_state h) (cf_key f)
        \<and> (\<forall>g \<in> set (live_frames h). cf_key f = cf_key g \<longrightarrow> f = g))"

definition receiver_ok :: "snapshot \<Rightarrow> receiver \<Rightarrow> bool" where
  "receiver_ok s r \<longleftrightarrow>
     0 < receiver_capacity r \<and> length (rc_queue r) \<le> receiver_capacity r
     \<and> sorted_wrt key_less (map cf_key (rc_queue r))
     \<and> (\<forall>k. rc_last r = Some k \<longrightarrow> key_past s k \<and> (\<forall>f \<in> set (rc_queue r). key_less k (cf_key f)))"

definition inv_receivers :: "hub \<Rightarrow> bool" where
  "inv_receivers h \<longleftrightarrow>
     (\<forall>i r. list_at (hub_receivers h) i = Some r \<longrightarrow> receiver_ok (hub_state h) r)
     \<and> distinct (hub_subscribers h)
     \<and> (\<forall>i \<in> set (hub_subscribers h). i < length (hub_receivers h))"

definition inv_session :: "hub \<Rightarrow> bool" where
  "inv_session h \<longleftrightarrow>
     sn_session (hub_state h) < hub_next_session h
     \<and> (\<forall>f. sn_latest (hub_state h) = Some f \<longrightarrow>
          sn_active (hub_state h) \<and> fk_session (cf_key f) = sn_session (hub_state h))"

definition hub_inv :: "hub \<Rightarrow> bool" where
  "hub_inv h \<longleftrightarrow>
     inv_budget h \<and> inv_leases h \<and> inv_storage h \<and> inv_frames h \<and> inv_receivers h \<and> inv_session h"

lemmas hub_inv_defs = hub_inv_def inv_budget_def inv_leases_def inv_storage_def inv_frames_def
  inv_receivers_def inv_session_def

section \<open>Operations that change nothing the invariant reads\<close>

text \<open>The part of the state the invariant depends on.\<close>

definition core where
  "core h =
     (hub_heap h, hub_next_location h, hub_next_session h,
      (sn_session (hub_state h), sn_active (hub_state h), sn_latest (hub_state h)),
      pool_slots (hub_pool h), pool_budget (hub_pool h), hub_subscribers h, hub_receivers h,
      hub_leases h, hub_held h)"

lemma core_eq_iff:
  "core h = core h' \<longleftrightarrow>
     hub_heap h = hub_heap h' \<and> hub_next_location h = hub_next_location h'
     \<and> hub_next_session h = hub_next_session h'
     \<and> sn_session (hub_state h) = sn_session (hub_state h')
     \<and> sn_active (hub_state h) = sn_active (hub_state h')
     \<and> sn_latest (hub_state h) = sn_latest (hub_state h')
     \<and> pool_slots (hub_pool h) = pool_slots (hub_pool h')
     \<and> pool_budget (hub_pool h) = pool_budget (hub_pool h')
     \<and> hub_subscribers h = hub_subscribers h' \<and> hub_receivers h = hub_receivers h'
     \<and> hub_leases h = hub_leases h' \<and> hub_held h = hub_held h'"
  by (auto simp: core_def)

lemma core_live: "core h = core h' \<Longrightarrow> live_frames h = live_frames h'"
  by (simp add: core_eq_iff live_frames_def)

lemma hub_inv_core:
  assumes "core h = core h'"
  shows "hub_inv h = hub_inv h'"
proof -
  note sel = assms [unfolded core_eq_iff]
  note live = core_live [OF assms]
  have retained: "retained h = retained h'"
    by (rule ext) (simp add: retained_def live)
  have owns: "owns h = owns h'"
    by (intro ext) (simp add: owns_def sel)
  have bytes: "lease_bytes h = lease_bytes h'"
    by (rule ext) (simp add: lease_bytes_def sel)
  have past: "key_past (hub_state h) = key_past (hub_state h')"
    by (rule ext) (simp add: key_past_def sel split: option.split)
  have ok: "receiver_ok (hub_state h) = receiver_ok (hub_state h')"
    by (rule ext) (simp add: receiver_ok_def past)
  show ?thesis
    by (simp only: hub_inv_defs sel live retained owns bytes past ok)
qed

lemma hub_inv_quiet: "core h' = core h \<Longrightarrow> hub_inv h \<Longrightarrow> hub_inv h'"
  using hub_inv_core by blast

text \<open>
  How the frames of a state and of a later one are related: a key once passed stays passed, and
  every frame of the later state with such a key was there before, with the same bytes.
\<close>

definition frame_rel :: "hub \<Rightarrow> hub \<Rightarrow> bool" where
  "frame_rel h h' \<longleftrightarrow>
     (\<forall>k. key_past (hub_state h) k \<longrightarrow> key_past (hub_state h') k)
     \<and> (\<forall>f \<in> set (live_frames h'). key_past (hub_state h) (cf_key f) \<longrightarrow>
          f \<in> set (live_frames h) \<and> frame_bytes (hub_heap h') f = frame_bytes (hub_heap h) f)"

lemma frame_rel_refl: "frame_rel h h"
  by (simp add: frame_rel_def)

lemma frame_rel_trans: "frame_rel h h1 \<Longrightarrow> frame_rel h1 h2 \<Longrightarrow> frame_rel h h2"
  unfolding frame_rel_def by metis

lemma frame_rel_same_live:
  assumes "live_frames h' = live_frames h" "key_past (hub_state h') = key_past (hub_state h)"
    and "\<And>f. f \<in> set (live_frames h) \<Longrightarrow>
      hub_heap h' (storage_loc (cf_storage f)) = hub_heap h (storage_loc (cf_storage f))"
  shows "frame_rel h h'"
  using assms by (simp add: frame_rel_def frame_bytes_def)

lemma key_past_core: "core h' = core h \<Longrightarrow> key_past (hub_state h') = key_past (hub_state h)"
  by (rule ext) (simp add: core_eq_iff key_past_def split: option.split)

lemma frame_rel_core: "core h' = core h \<Longrightarrow> frame_rel h h'"
  using frame_rel_same_live [OF core_live key_past_core, of h' h] by (simp add: core_eq_iff)

text \<open>A buffer that a frame retains stays owned by a slot of the pool or a lease.\<close>

definition keeps_owned :: "hub \<Rightarrow> hub \<Rightarrow> bool" where
  "keeps_owned h h' \<longleftrightarrow>
     (\<forall>st. retained h st \<longrightarrow> (\<exists>i. owns h i st) \<longrightarrow> (\<exists>i. owns h' i st))"

lemma keeps_owned_mono: "(\<And>i st. owns h i st \<Longrightarrow> retained h st \<Longrightarrow> owns h' i st) \<Longrightarrow> keeps_owned h h'"
  unfolding keeps_owned_def by blast

lemma keeps_owned_refl: "keeps_owned h h"
  by (simp add: keeps_owned_def)

lemma owns_core: "core h' = core h \<Longrightarrow> owns h' = owns h"
  by (intro ext) (simp add: core_eq_iff owns_def)

lemma keeps_owned_core: "core h' = core h \<Longrightarrow> keeps_owned h h'"
  using owns_core [of h' h] by (simp add: keeps_owned_def)

named_theorems quiet_ops

lemma core_start_reset [quiet_ops]: "core (start_reset now h) = core h"
  by (simp add: core_eq_iff start_reset_def)

lemma core_recovery_flags [quiet_ops]:
  "core (begin_recovery h) = core h" "core (end_recovery h) = core h"
  "core (enable_recovery h) = core h" "core (disable_recovery h) = core h"
  by (simp_all add: core_eq_iff begin_recovery_def end_recovery_def enable_recovery_def
      disable_recovery_def)

lemma core_wake_recovery [quiet_ops]: "core (wake_recovery h) = core h"
  by (simp add: core_eq_iff wake_recovery_def)

lemma core_mark_stopped [quiet_ops]: "core (mark_stopped now h) = core h"
  by (simp add: core_eq_iff mark_stopped_def)

lemma core_report [quiet_ops]: "core (report_resource_pressure n h) = core h"
  by (simp add: core_eq_iff report_resource_pressure_def split: option.splits)

lemma core_pool_receive [quiet_ops]: "core (pool_receive now h) = core h"
  by (simp add: core_eq_iff pool_receive_def Let_def)

lemma core_pool_drop [quiet_ops]: "core (pool_drop h) = core h"
  unfolding pool_drop_def Let_def quiet_ops by (simp add: core_eq_iff)

lemma core_record_conversion_error [quiet_ops]:
  "core (record_conversion_error now session activity h) = core h"
proof (cases "epoch_active session h")
  case True
  then show ?thesis
    by (simp add: record_conversion_error_def Let_def quiet_ops) (simp add: core_eq_iff)
qed (simp add: record_conversion_error_def)

lemma core_log_frame_error [quiet_ops]: "core (fst (log_frame_error now h)) = core h"
  by (simp add: core_eq_iff log_frame_error_def Let_def)

lemma core_record_input_drop [quiet_ops]: "core (record_input_drop now session h) = core h"
  by (simp add: record_input_drop_def quiet_ops)

lemma core_account [quiet_ops]: "core (account_publication p h) = core h"
  by (simp add: core_eq_iff account_publication_def Let_def)

lemma core_set_flag [quiet_ops]: "core (set_flag flag h) = core h"
  by (simp add: core_eq_iff set_flag_def)

lemma core_set_event_sender [quiet_ops]: "core (set_event_sender h) = core h"
  by (simp add: core_eq_iff set_event_sender_def)

section \<open>Operations that only let frames go\<close>

lemma retained_mono:
  "set (live_frames h') \<subseteq> set (live_frames h) \<Longrightarrow> retained h' st \<Longrightarrow> retained h st"
  by (auto simp: retained_def)

text \<open>The state \<open>h'\<close> follows \<open>h\<close> without touching a buffer, a slot or a lease, and holds no frame
  that \<open>h\<close> does not.\<close>

definition shrinks :: "hub \<Rightarrow> hub \<Rightarrow> bool" where
  "shrinks h h' \<longleftrightarrow>
     hub_heap h' = hub_heap h \<and> hub_next_location h' = hub_next_location h
     \<and> pool_slots (hub_pool h') = pool_slots (hub_pool h)
     \<and> pool_budget (hub_pool h') = pool_budget (hub_pool h) \<and> hub_leases h' = hub_leases h
     \<and> set (live_frames h') \<subseteq> set (live_frames h)
     \<and> (\<forall>k. key_past (hub_state h) k \<longrightarrow> key_past (hub_state h') k)
     \<and> inv_receivers h' \<and> inv_session h'"

lemma shrinksI:
  assumes "hub_heap h' = hub_heap h" "hub_next_location h' = hub_next_location h"
    "pool_slots (hub_pool h') = pool_slots (hub_pool h)"
    "pool_budget (hub_pool h') = pool_budget (hub_pool h)" "hub_leases h' = hub_leases h"
    "set (live_frames h') \<subseteq> set (live_frames h)"
    "\<And>k. key_past (hub_state h) k \<Longrightarrow> key_past (hub_state h') k"
    "inv_receivers h'" "inv_session h'"
  shows "shrinks h h'"
  using assms by (simp add: shrinks_def)

lemma shrinks_trans: "shrinks h h1 \<Longrightarrow> shrinks h1 h2 \<Longrightarrow> shrinks h h2"
  by (auto simp: shrinks_def)

lemma shrinks_refl: "hub_inv h \<Longrightarrow> shrinks h h"
  by (simp add: shrinks_def hub_inv_def)

lemma hub_inv_shrinks:
  assumes inv: "hub_inv h" and sh: "shrinks h h'"
  shows "hub_inv h'"
proof -
  have same: "hub_heap h' = hub_heap h" "hub_next_location h' = hub_next_location h"
      "pool_slots (hub_pool h') = pool_slots (hub_pool h)"
      "pool_budget (hub_pool h') = pool_budget (hub_pool h)" "hub_leases h' = hub_leases h"
    and live: "set (live_frames h') \<subseteq> set (live_frames h)"
    and past: "\<And>k. key_past (hub_state h) k \<Longrightarrow> key_past (hub_state h') k"
    and rest: "inv_receivers h'" "inv_session h'"
    using sh by (simp_all add: shrinks_def)
  have owns: "owns h' = owns h"
    by (intro ext) (simp add: owns_def same)
  have bytes: "lease_bytes h' = lease_bytes h"
    by (rule ext) (simp add: lease_bytes_def same)
  have "inv_budget h'" "inv_storage h'"
    using inv by (simp_all add: hub_inv_def inv_budget_def inv_storage_def same owns)
  moreover have "inv_leases h'"
    using inv retained_mono [OF live] by (simp add: hub_inv_def inv_leases_def same bytes) blast
  moreover have "inv_frames h'"
    using inv live past unfolding hub_inv_def inv_frames_def same by blast
  ultimately show ?thesis using rest by (simp add: hub_inv_def)
qed

lemma keeps_owned_shrinks: "shrinks h h' \<Longrightarrow> keeps_owned h h'"
  by (simp add: shrinks_def keeps_owned_def owns_def)

lemma frame_rel_shrinks: "shrinks h h' \<Longrightarrow> frame_rel h h'"
  by (auto simp: shrinks_def frame_rel_def)

lemma receiver_ok_mono:
  assumes "receiver_ok s r" "\<And>k. key_past s k \<Longrightarrow> key_past s' k"
  shows "receiver_ok s' r"
  using assms by (simp add: receiver_ok_def)

lemma inv_receivers_mono:
  assumes "inv_receivers h" "hub_receivers h' = hub_receivers h" "hub_subscribers h' = hub_subscribers h"
    and "\<And>k. key_past (hub_state h) k \<Longrightarrow> key_past (hub_state h') k"
  shows "inv_receivers h'"
  using assms receiver_ok_mono [of "hub_state h" _ "hub_state h'"]
  by (simp add: inv_receivers_def)

lemma receiver_ok_clear: "receiver_ok s r \<Longrightarrow> receiver_ok s (r\<lparr>rc_queue := []\<rparr>)"
  by (simp add: receiver_ok_def receiver_capacity_def)

lemma list_at_update:
  "list_at (xs[i := v]) j = (if i = j \<and> i < length xs then v else list_at xs j)"
  by (auto simp: list_at_def nth_list_update)

lemma list_at_append:
  "list_at (xs @ [v]) j = (if j = length xs then v else list_at xs j)"
  by (auto simp: list_at_def nth_append)

lemma list_at_length: "list_at xs i = Some v \<Longrightarrow> i < length xs"
  by (simp add: list_at_Some)

subsection \<open>Clearing the queues\<close>

lemma length_clear_queue_at [simp]: "length (clear_queue_at rs i) = length rs"
  by (simp add: clear_queue_at_def split: option.splits)

lemma length_clear_queues [simp]: "length (foldl clear_queue_at rs ids) = length rs"
  by (induction ids arbitrary: rs) simp_all

lemma list_at_clear_queue_at:
  "list_at (clear_queue_at rs i) j =
     (if i = j then map_option (\<lambda>r. r\<lparr>rc_queue := []\<rparr>) (list_at rs j) else list_at rs j)"
proof (cases "list_at rs i")
  case None
  then show ?thesis by (auto simp: clear_queue_at_def)
next
  case (Some r)
  moreover from this have "i < length rs" by (simp add: list_at_Some)
  ultimately show ?thesis by (auto simp: clear_queue_at_def list_at_update)
qed

lemma list_at_clear_queues:
  "list_at (foldl clear_queue_at rs ids) j =
     (if j \<in> set ids then map_option (\<lambda>r. r\<lparr>rc_queue := []\<rparr>) (list_at rs j) else list_at rs j)"
  by (induction ids arbitrary: rs) (auto simp: list_at_clear_queue_at option.map_comp comp_def)

lemma receiver_cleared:
  assumes "list_at (foldl clear_queue_at rs ids) j = Some r'"
  obtains r where "list_at rs j = Some r" "r' = r \<or> r' = r\<lparr>rc_queue := []\<rparr>"
  using assms by (auto simp: list_at_clear_queues split: if_splits)

lemma shrinks_clear_queues:
  assumes "hub_inv h"
  shows "shrinks h (clear_queues h)"
proof (rule shrinksI)
  show "set (live_frames (clear_queues h)) \<subseteq> set (live_frames h)"
    by (auto simp: clear_queues_def elim!: live_framesE receiver_cleared intro: live_framesI)
  show "inv_receivers (clear_queues h)"
    using assms
    by (auto simp: hub_inv_def inv_receivers_def clear_queues_def elim!: receiver_cleared
        intro: receiver_ok_clear)
  show "inv_session (clear_queues h)"
    using assms by (simp add: hub_inv_def inv_session_def clear_queues_def)
qed (simp_all add: clear_queues_def)

subsection \<open>Snapshots\<close>

lemma key_past_next_session: "key_past s k \<Longrightarrow> sn_session s < n \<Longrightarrow> fk_session k < n"
  by (auto simp: key_past_def)

lemma shrinks_start_snapshot:
  assumes "hub_inv h"
  shows "shrinks h (start_snapshot h)"
proof (rule shrinksI)
  have less: "sn_session (hub_state h) < hub_next_session h"
    using assms by (simp add: hub_inv_def inv_session_def)
  show "set (live_frames (start_snapshot h)) \<subseteq> set (live_frames h)"
    by (auto simp: start_snapshot_def elim!: live_framesE intro: live_framesI)
  show past: "key_past (hub_state (start_snapshot h)) k" if "key_past (hub_state h) k" for k
    using key_past_next_session [OF that less] by (simp add: key_past_def start_snapshot_def)
  show "inv_receivers (start_snapshot h)"
    by (rule inv_receivers_mono [OF _ _ _ past, of h])
      (use assms in \<open>simp_all add: hub_inv_def start_snapshot_def\<close>)
  show "inv_session (start_snapshot h)"
    by (simp add: inv_session_def start_snapshot_def)
qed (simp_all add: start_snapshot_def)

lemma shrinks_deactivate:
  assumes "hub_inv h"
  shows "shrinks h (deactivate h)"
proof (rule shrinksI)
  show "set (live_frames (deactivate h)) \<subseteq> set (live_frames h)"
    by (auto simp: deactivate_def elim!: live_framesE intro: live_framesI)
  show past: "key_past (hub_state (deactivate h)) k" if "key_past (hub_state h) k" for k
    using that by (auto simp: key_past_def deactivate_def)
  show "inv_receivers (deactivate h)"
    by (rule inv_receivers_mono [OF _ _ _ past, of h])
      (use assms in \<open>simp_all add: hub_inv_def deactivate_def\<close>)
  show "inv_session (deactivate h)"
    using assms by (simp add: hub_inv_def inv_session_def deactivate_def)
qed (simp_all add: deactivate_def)

lemma shrinks_other_session:
  assumes "hub_inv h" "hub_next_session h \<le> n"
  shows "shrinks h (h\<lparr>hub_next_session := n\<rparr>)"
  by (rule shrinksI)
    (use assms in \<open>auto simp: live_frames_def hub_inv_def inv_receivers_def inv_session_def\<close>)

subsection \<open>Receivers\<close>

lemma shrinks_set_receiver:
  assumes inv: "hub_inv h" and i: "list_at (hub_receivers h) i = Some r"
    and sub: "set (rc_queue r') \<subseteq> set (rc_queue r)" and ok: "receiver_ok (hub_state h) r'"
  shows "shrinks h (h\<lparr>hub_receivers := (hub_receivers h)[i := Some r']\<rparr>)"
proof (rule shrinksI)
  let ?h = "h\<lparr>hub_receivers := (hub_receivers h)[i := Some r']\<rparr>"
  show "set (live_frames ?h) \<subseteq> set (live_frames h)"
    using i sub
    by (auto simp: list_at_update split: if_splits elim!: live_framesE intro: live_framesI(1,3))
      (blast intro: live_framesI(2))+
  show "inv_receivers ?h"
    using inv ok by (auto simp: hub_inv_def inv_receivers_def list_at_update split: if_splits)
  show "inv_session ?h" using inv by (simp add: hub_inv_def inv_session_def)
qed simp_all

lemma shrinks_drop_receiver:
  assumes "hub_inv h"
  shows "shrinks h (drop_receiver i h)"
proof (rule shrinksI)
  show "set (live_frames (drop_receiver i h)) \<subseteq> set (live_frames h)"
    by (auto simp: drop_receiver_def list_at_update split: if_splits elim!: live_framesE
        intro: live_framesI)
  show "inv_receivers (drop_receiver i h)"
    using assms
    by (auto simp: hub_inv_def inv_receivers_def drop_receiver_def list_at_update split: if_splits)
  show "inv_session (drop_receiver i h)"
    using assms by (simp add: hub_inv_def inv_session_def drop_receiver_def)
qed (simp_all add: drop_receiver_def)

lemma shrinks_with_stop_flag:
  assumes "hub_inv h"
  shows "shrinks h (with_stop_flag i flag h)"
proof (cases "list_at (hub_receivers h) i")
  case None
  with assms show ?thesis by (simp add: with_stop_flag_def shrinks_refl)
next
  case (Some r)
  then have ok: "receiver_ok (hub_state h) r"
    using assms by (auto simp: hub_inv_def inv_receivers_def)
  then have "receiver_ok (hub_state h) (r\<lparr>rc_queue := [], rc_owner := ow\<rparr>)"
    "receiver_ok (hub_state h) (r\<lparr>rc_owner := ow\<rparr>)"
    "receiver_ok (hub_state h) (r\<lparr>rc_queue := []\<rparr>)" for ow
    by (simp_all add: receiver_ok_def receiver_capacity_def)
  then show ?thesis
    using Some ok by (auto simp: with_stop_flag_def Let_def split: option.split
        intro!: shrinks_set_receiver [OF assms Some])
qed

subsection \<open>Frames held by the application\<close>

lemma shrinks_set_held:
  assumes inv: "hub_inv h" and sub: "set held \<subseteq> set (live_frames h)"
  shows "shrinks h (h\<lparr>hub_held := held\<rparr>)"
proof (rule shrinksI)
  show "set (live_frames (h\<lparr>hub_held := held\<rparr>)) \<subseteq> set (live_frames h)"
    using sub by (auto elim!: live_framesE intro: live_framesI)
qed (use inv in \<open>auto simp: hub_inv_def inv_receivers_def inv_session_def\<close>)

lemma shrinks_release_frame: "hub_inv h \<Longrightarrow> shrinks h (release_frame k h)"
  unfolding release_frame_def
  by (rule shrinks_set_held) (auto intro: live_framesI dest: in_set_takeD in_set_dropD)

lemma shrinks_hold_latest: "hub_inv h \<Longrightarrow> shrinks h (hold_latest h)"
  by (auto simp: hold_latest_def hub_latest_def split: option.split
      intro!: shrinks_set_held shrinks_refl intro: live_framesI)

subsection \<open>The next frame of a receiver\<close>

lemma pop_frame_suffix: "pop_frame lst s q = (o', q') \<Longrightarrow> \<exists>p. q = p @ q'"
  by (induction lst s q rule: pop_frame.induct) (auto split: if_splits)

lemma pop_frame_Some:
  "pop_frame lst s q = (Some f, q') \<Longrightarrow>
     \<exists>p. q = p @ f # q' \<and> Some (cf_key f) \<noteq> lst \<and> fk_session (cf_key f) = s"
proof (induction lst s q rule: pop_frame.induct)
  case (2 lst s g q)
  show ?case
  proof (cases "Some (cf_key g) \<noteq> lst \<and> fk_session (cf_key g) = s")
    case True
    then show ?thesis using 2 by auto
  next
    case False
    then obtain p where "q = p @ f # q'" "Some (cf_key f) \<noteq> lst" "fk_session (cf_key f) = s"
      using 2 by (auto split: if_splits)
    then show ?thesis by (metis append_Cons)
  qed
qed simp

lemma receiver_ok_suffix:
  assumes "receiver_ok s r" "rc_queue r = p @ q"
  shows "receiver_ok s (r\<lparr>rc_queue := q\<rparr>)"
  using assms by (auto simp: receiver_ok_def receiver_capacity_def sorted_wrt_append)

lemma receiver_ok_taken:
  assumes "receiver_ok s r" "rc_queue r = p @ f # q" "key_past s (cf_key f)"
  shows "receiver_ok s (r\<lparr>rc_queue := q, rc_last := Some (cf_key f)\<rparr>)"
  using assms by (auto simp: receiver_ok_def receiver_capacity_def sorted_wrt_append)

lemma shrinks_receiver_next:
  assumes "hub_inv h"
  shows "shrinks h (fst (receiver_next i h))"
proof (cases "list_at (hub_receivers h) i")
  case None
  with assms show ?thesis by (simp add: receiver_next_def shrinks_refl)
next
  case (Some r)
  obtain o' q where pop: "pop_frame (rc_last r) (sn_session (hub_state h)) (rc_queue r) = (o', q)"
    by fastforce
  have ok: "receiver_ok (hub_state h) r"
    using assms Some by (auto simp: hub_inv_def inv_receivers_def)
  from pop_frame_suffix [OF pop] have sub: "set q \<subseteq> set (rc_queue r)" by auto
  show ?thesis
  proof (cases o')
    case None
    have "receiver_ok (hub_state h) (r\<lparr>rc_queue := q\<rparr>)"
      using pop_frame_suffix [OF pop] receiver_ok_suffix [OF ok] by auto
    then have "shrinks h (h\<lparr>hub_receivers := (hub_receivers h)[i := Some (r\<lparr>rc_queue := q\<rparr>)]\<rparr>)"
      using sub by (intro shrinks_set_receiver [OF assms Some]) simp_all
    with assms Some None pop show ?thesis by (simp add: receiver_next_def Let_def shrinks_refl)
  next
    case f: (Some f)
    with pop obtain p where p: "rc_queue r = p @ f # q" using pop_frame_Some by blast
    then have live: "f \<in> set (live_frames h)"
      using Some by (auto intro: live_framesI)
    then have "key_past (hub_state h) (cf_key f)"
      using assms by (auto simp: hub_inv_def inv_frames_def)
    then have ok': "receiver_ok (hub_state h) (r\<lparr>rc_queue := q, rc_last := Some (cf_key f)\<rparr>)"
      by (rule receiver_ok_taken [OF ok p])
    have held: "shrinks h (h\<lparr>hub_held := f # hub_held h\<rparr>)"
      using live by (intro shrinks_set_held [OF assms]) (auto intro: live_framesI)
    let ?r = "r\<lparr>rc_queue := q, rc_last := Some (cf_key f)\<rparr>"
    have "shrinks (h\<lparr>hub_held := f # hub_held h\<rparr>)
      (h\<lparr>hub_held := f # hub_held h, hub_receivers := (hub_receivers h)[i := Some ?r]\<rparr>)"
      using shrinks_set_receiver [OF hub_inv_shrinks [OF assms held], of i r ?r] Some sub ok' by simp
    from shrinks_trans [OF held this]
    have "shrinks h (h\<lparr>hub_receivers := (hub_receivers h)[i := Some ?r], hub_held := f # hub_held h\<rparr>)"
      by (cases h) simp
    with assms Some f pop show ?thesis by (simp add: receiver_next_def Let_def shrinks_refl)
  qed
qed

end
