(* ===== verification/Hub_Steps.thy ===== *)
theory Hub_Steps
  imports Hub_Invariant
begin

text \<open>
  The operations of the hub that move buffers and publish frames preserve the invariant:
  configuring the pool, reserving a buffer, writing it, committing a publication, dropping the
  lease, and subscribing.
\<close>

section \<open>Consequences of the invariant\<close>

lemma inv_lease:
  assumes "hub_inv h" "list_at (hub_leases h) k = Some ls"
  shows "ls_index ls < length (pool_slots (hub_pool h))"
    and "slot_data (pool_slots (hub_pool h) ! ls_index ls) = None"
    and "owns h (ls_index ls) (ls_data ls)"
    and "layout_validate (ls_layout ls) (length (lease_bytes h ls)) = Ok ()"
    and "length (lease_bytes h ls) < usize_bound"
    and "\<not> ls_committed ls \<Longrightarrow> \<not> retained h (ls_data ls)"
  using assms unfolding hub_inv_def inv_leases_def owns_def by blast+

lemma inv_lease_unique:
  assumes "hub_inv h" "list_at (hub_leases h) j = Some ls" "list_at (hub_leases h) k = Some ls'"
    and "ls_index ls = ls_index ls'"
  shows "j = k"
  using assms unfolding hub_inv_def inv_leases_def by blast

lemma inv_owns:
  assumes "hub_inv h" "owns h i st"
  shows "storage_loc st < hub_next_location h"
    and "buffer_fits (hub_heap h) st (slot_bytes (pool_slots (hub_pool h) ! i))"
  using assms unfolding hub_inv_def inv_storage_def by blast+

lemma inv_owns_unique:
  assumes "hub_inv h" "owns h i st" "owns h j st'" "storage_loc st = storage_loc st'"
  shows "i = j"
  using assms unfolding hub_inv_def inv_storage_def by blast

lemma inv_frame:
  assumes "hub_inv h" "f \<in> set (live_frames h)"
  shows "storage_loc (cf_storage f) < hub_next_location h"
    and "frame_well_formed (hub_heap h) f"
    and "key_past (hub_state h) (cf_key f)"
  using assms unfolding hub_inv_def inv_frames_def by blast+

lemma frame_well_formed_heap:
  assumes "heap' (storage_loc (cf_storage f)) = heap (storage_loc (cf_storage f))"
  shows "frame_well_formed heap' f = frame_well_formed heap f"
  using assms by (simp add: frame_well_formed_def frame_bytes_def)

lemma slot_update_bytes:
  assumes "i < length slots"
  shows "slots_bytes (slots[i := s]) = slots_bytes slots - slot_bytes (slots ! i) + slot_bytes s"
proof -
  have "slot_bytes (slots ! i) \<le> slots_bytes slots"
    using assms by (auto simp: slots_bytes_def intro!: elem_le_sum_list [of i "map slot_bytes slots", simplified])
  then show ?thesis
    using assms by (simp add: slots_bytes_def map_update sum_list_update)
qed

section \<open>Reserving\<close>

text \<open>What choosing a slot and preparing its storage establishes, whichever way it went.\<close>

lemma hub_inv_reserved:
  assumes inv: "hub_inv h"
    and slots: "length (pool_slots (hub_pool h)) \<le> length slots" "length slots \<le> mb_buffers (pool_budget (hub_pool h))"
      "\<And>j. j < length (pool_slots (hub_pool h)) \<Longrightarrow> slots ! j = pool_slots (hub_pool h) ! j"
      "\<And>j. j < length slots \<Longrightarrow> \<not> j < length (pool_slots (hub_pool h)) \<Longrightarrow> j = i"
      "slots_bytes slots \<le> mb_bytes (pool_budget (hub_pool h))"
    and i: "i < length slots" "i < length (pool_slots (hub_pool h)) \<Longrightarrow> slot_data (slots ! i) \<noteq> None"
    and heap: "\<And>l. l \<noteq> storage_loc st \<Longrightarrow> heap l = hub_heap h l"
      "storage_loc st < next" "hub_next_location h \<le> next"
    and fresh: "\<not> retained h st" "\<And>j st'. owns h j st' \<Longrightarrow> j \<noteq> i \<Longrightarrow> storage_loc st' \<noteq> storage_loc st"
    and n: "buffer_fits heap st n" "0 < n"
      "n \<le> mb_bytes (pool_budget (hub_pool h)) - (slots_bytes slots - slot_bytes (slots ! i))"
    and free: "\<And>st'. owns h i st' \<Longrightarrow> \<not> retained h st'"
    and bytes: "layout_validate layout (length (buffer_bytes (heap (storage_loc st)))) = Ok ()"
      "length (buffer_bytes (heap (storage_loc st))) < usize_bound"
  shows "hub_inv (h\<lparr>hub_heap := heap, hub_next_location := next,
      hub_pool := (hub_pool h)\<lparr>pool_slots := slots[i := \<lparr>slot_data = None, slot_bytes = n\<rparr>]\<rparr>,
      hub_leases := hub_leases h @ [Some \<lparr>ls_index = i, ls_data = st, ls_session = session,
        ls_layout = layout, ls_committed = False\<rparr>]\<rparr>)
    \<and> keeps_owned h (h\<lparr>hub_heap := heap, hub_next_location := next,
      hub_pool := (hub_pool h)\<lparr>pool_slots := slots[i := \<lparr>slot_data = None, slot_bytes = n\<rparr>]\<rparr>,
      hub_leases := hub_leases h @ [Some \<lparr>ls_index = i, ls_data = st, ls_session = session,
        ls_layout = layout, ls_committed = False\<rparr>]\<rparr>)"
    (is "hub_inv ?h \<and> _")
proof -
  let ?new = "\<lparr>ls_index = i, ls_data = st, ls_session = session, ls_layout = layout, ls_committed = False\<rparr>"
  have lease_index: "ls_index ls \<noteq> i" "ls_index ls < length (pool_slots (hub_pool h))"
    "slot_data (slots ! ls_index ls) = None"
    if "list_at (hub_leases h) k = Some ls" for k ls
    using inv_lease [OF inv that] i slots(3) by auto
  have lease_bytes: "lease_bytes ?h ls = lease_bytes h ls" if "list_at (hub_leases h) k = Some ls" for k ls
    using fresh(2) [OF inv_lease(3) [OF inv that] lease_index(1) [OF that]] heap(1)
    by (simp add: lease_bytes_def)
  have live: "live_frames ?h = live_frames h"
    by (simp add: live_frames_def)
  have retained: "retained ?h st' = retained h st'" for st'
    by (simp add: retained_def live)
  have owns_other: "owns h j st' \<and> slots[i := \<lparr>slot_data = None, slot_bytes = n\<rparr>] ! j = pool_slots (hub_pool h) ! j"
    if "owns ?h j st'" "j \<noteq> i" for j st'
  proof -
    from that have "j < length (pool_slots (hub_pool h))"
      using slots(4) by (auto simp: owns_def)
    with that slots(3) show ?thesis by (auto simp: owns_def list_at_append split: if_splits)
  qed
  have owns_same: "st' = st" if "owns ?h i st'" for st'
    using that i lease_index(1) by (auto simp: owns_def list_at_append split: if_splits)
  have "inv_budget ?h"
    using inv slots i n slot_update_bytes [OF i(1), of "\<lparr>slot_data = None, slot_bytes = n\<rparr>"]
    by (auto simp: hub_inv_def inv_budget_def in_set_conv_nth nth_list_update) (metis nth_mem)
  moreover have "inv_leases ?h"
    unfolding inv_leases_def retained
  proof (intro conjI allI impI)
    fix k ls
    assume k: "list_at (hub_leases ?h) k = Some ls"
    have "ls_index ls < length (pool_slots (hub_pool ?h))
      \<and> slot_data (pool_slots (hub_pool ?h) ! ls_index ls) = None
      \<and> length (lease_bytes ?h ls) < usize_bound
      \<and> layout_validate (ls_layout ls) (length (lease_bytes ?h ls)) = Ok ()
      \<and> (\<not> ls_committed ls \<longrightarrow> \<not> retained h (ls_data ls))"
    proof (cases "k = length (hub_leases h)")
      case True
      with k have "ls = ?new" by (simp add: list_at_append)
      with i(1) bytes fresh(1) show ?thesis by (simp add: lease_bytes_def)
    next
      case False
      with k have old: "list_at (hub_leases h) k = Some ls" by (simp add: list_at_append)
      then have "ls_index ls < length slots"
        using lease_index(2) [OF old] slots(1) by simp
      with lease_index(1,3) [OF old] inv_lease(4-6) [OF inv old] lease_bytes [OF old]
      show ?thesis by simp
    qed
    then show "ls_index ls < length (pool_slots (hub_pool ?h))"
      "slot_data (pool_slots (hub_pool ?h) ! ls_index ls) = None"
      "length (lease_bytes ?h ls) < usize_bound"
      "layout_validate (ls_layout ls) (length (lease_bytes ?h ls)) = Ok ()"
      "\<not> ls_committed ls \<Longrightarrow> \<not> retained h (ls_data ls)"
      by blast+
  next
    fix j k ls ls'
    assume "list_at (hub_leases ?h) j = Some ls" "list_at (hub_leases ?h) k = Some ls'"
      "ls_index ls = ls_index ls'"
    then show "j = k"
      using lease_index(1) [of j ls] lease_index(1) [of k ls'] inv_lease_unique [OF inv, of j ls k ls']
      by (auto simp: list_at_append split: if_splits)
  qed
  moreover have "inv_storage ?h"
    unfolding inv_storage_def
  proof (intro conjI allI impI)
    fix j st'
    assume o: "owns ?h j st'"
    show "storage_loc st' < hub_next_location ?h"
      "buffer_fits (hub_heap ?h) st' (slot_bytes (pool_slots (hub_pool ?h) ! j))"
    proof -
      have "storage_loc st' < hub_next_location ?h
        \<and> buffer_fits (hub_heap ?h) st' (slot_bytes (pool_slots (hub_pool ?h) ! j))"
      proof (cases "j = i")
        case True
        with o owns_same i n heap show ?thesis by auto
      next
        case False
        from owns_other [OF o this] inv_owns [OF inv] fresh(2) False heap
        show ?thesis by (cases st') fastforce+
      qed
      then show "storage_loc st' < hub_next_location ?h"
        "buffer_fits (hub_heap ?h) st' (slot_bytes (pool_slots (hub_pool ?h) ! j))" by auto
    qed
  next
    fix j k st1 st2
    assume "owns ?h j st1" "owns ?h k st2" "storage_loc st1 = storage_loc st2"
    then show "j = k"
      using owns_other owns_same fresh(2) inv_owns_unique [OF inv] by metis
  qed
  moreover have "inv_frames ?h"
  proof -
    have "heap (storage_loc (cf_storage f)) = hub_heap h (storage_loc (cf_storage f))"
      if "f \<in> set (live_frames h)" for f
      using that fresh(1) heap(1) by (auto simp: retained_def)
    then show ?thesis
      using inv heap(3) frame_well_formed_heap [of heap _ "hub_heap h"]
      unfolding inv_frames_def live by (fastforce simp: hub_inv_def inv_frames_def)
  qed
  moreover have "inv_receivers ?h" "inv_session ?h"
    using inv by (simp_all add: hub_inv_def inv_receivers_def inv_session_def)
  moreover have "keeps_owned h ?h"
  proof (rule keeps_owned_mono)
    fix j st'
    assume o: "owns h j st'" "retained h st'"
    then have "j \<noteq> i" using free by blast
    from o(1) [unfolded owns_def] show "owns ?h j st'"
    proof (elim disjE exE conjE)
      assume "j < length (pool_slots (hub_pool h))" "slot_data (pool_slots (hub_pool h) ! j) = Some st'"
      with \<open>j \<noteq> i\<close> slots show ?thesis by (auto simp: owns_def)
    next
      fix k ls
      assume k: "list_at (hub_leases h) k = Some ls" "ls_index ls = j" "ls_data ls = st'"
      then have "list_at (hub_leases ?h) k = Some ls"
        using list_at_length [OF k(1)] by (simp add: list_at_append)
      moreover have "j < length (pool_slots (hub_pool ?h))"
        using inv_lease(1) [OF inv k(1)] k(2) slots(1) by simp
      ultimately show ?thesis using k(2,3) unfolding owns_def by blast
    qed
  qed
  ultimately show ?thesis by (simp only: hub_inv_def)
qed

lemma frame_length_Ok:
  assumes "frame_length layout rgb = Ok len"
  shows "0 < len" "len \<le> MAX_FRAME_BYTES" "len < usize_bound"
    and "rgb \<Longrightarrow> len = unat (fl_height layout) * unat (fl_width layout) * 3"
  using assms
  by (auto simp: frame_length_def MAX_FRAME_BYTES_def usize_bound_def Let_def checked_mul_eq_Some
      bind_eq_Some_conv split: option.splits if_splits)

text \<open>A layout that validates against its own length whenever the length is acceptable: what the
  entry points check, or know of \<open>FrameLayout::rgb\<close>, before they reserve.\<close>

definition publishable :: "frame_layout \<Rightarrow> bool \<Rightarrow> bool" where
  "publishable layout rgb \<longleftrightarrow>
     (case frame_length layout rgb of Ok len \<Rightarrow> layout_validate layout len = Ok () | _ \<Rightarrow> True)"

lemma retained_location: "hub_inv h \<Longrightarrow> retained h st \<Longrightarrow> storage_loc st < hub_next_location h"
  using inv_frame(1) by (fastforce simp: retained_def)

lemma fresh_storage:
  assumes "hub_inv h" "storage_loc st = hub_next_location h"
  shows "\<not> retained h st" "owns h j st' \<Longrightarrow> storage_loc st' \<noteq> storage_loc st"
  using retained_location [OF assms(1), of st] inv_owns(1) [OF assms(1), of j st'] assms(2) by auto

text \<open>The result of preparing a storage for slot \<open>i\<close>.\<close>

definition prepared :: "nat \<Rightarrow> nat \<Rightarrow> hub \<Rightarrow> hub \<Rightarrow> storage \<Rightarrow> bool" where
  "prepared i len h h' st \<longleftrightarrow>
     h' = h\<lparr>hub_heap := hub_heap h', hub_next_location := hub_next_location h'\<rparr>
     \<and> (\<forall>l. l \<noteq> storage_loc st \<longrightarrow> hub_heap h' l = hub_heap h l)
     \<and> storage_loc st < hub_next_location h' \<and> hub_next_location h \<le> hub_next_location h'
     \<and> \<not> retained h st
     \<and> (\<forall>j st'. owns h j st' \<longrightarrow> j \<noteq> i \<longrightarrow> storage_loc st' \<noteq> storage_loc st)
     \<and> buffer_fits (hub_heap h') st (storage_allocated h' len st)
     \<and> length (buffer_bytes (hub_heap h' (storage_loc st))) = len
     \<and> len \<le> storage_allocated h' len st"

lemma prepared_new_rgb:
  assumes "hub_inv h" "len = unat (fl_height layout) * unat (fl_width layout) * 3"
    "new_rgb layout h = (h', st)"
  shows "prepared i len h h' st \<and> storage_allocated h' len st = len"
proof -
  have st: "st = StorageRgb (hub_next_location h)"
    and h': "h' = h\<lparr>hub_heap := (hub_heap h)(hub_next_location h :=
      pixels_zeros (unat (fl_height layout), unat (fl_width layout), 3)),
      hub_next_location := hub_next_location h + 1\<rparr>"
    using assms(3) by (auto simp: new_rgb_def allocate_def)
  show ?thesis
    using fresh_storage [OF assms(1), of st] assms(2) unfolding prepared_def h' st
    by (auto simp: pixels_zeros_def)
qed

lemma prepared_new_bytes:
  assumes "hub_inv h" "new_bytes len h = (h', st)"
  shows "prepared i len h h' st \<and> storage_allocated h' len st = len"
proof -
  have st: "st = StorageBytes (hub_next_location h)"
    and h': "h' = h\<lparr>hub_heap := (hub_heap h)(hub_next_location h := bytes_zeros len),
      hub_next_location := hub_next_location h + 1\<rparr>"
    using assms(2) by (auto simp: new_bytes_def allocate_def)
  show ?thesis
    using fresh_storage [OF assms(1), of st] unfolding prepared_def h' st
    by (auto simp: bytes_zeros_def)
qed

lemma length_resize_bytes [simp]: "length (resize_bytes n data) = n"
  by (simp add: resize_bytes_def)

lemma prepared_reuse:
  assumes inv: "hub_inv h" and d: "owns h i d" "\<not> retained h d"
    and heap: "h' = h\<lparr>hub_heap := (hub_heap h)(storage_loc d := b)\<rparr>"
    and b: "buffer_fits (hub_heap h') d (storage_allocated h' len d)" "length (buffer_bytes b) = len"
      "len \<le> storage_allocated h' len d"
  shows "prepared i len h h' d"
  unfolding prepared_def
  using inv_owns(1) [OF inv d(1)] inv_owns_unique [OF inv d(1)] d(2) b
  by (fastforce simp: heap)

lemma prepare_storage_prepared:
  assumes inv: "hub_inv h" and len: "frame_length layout rgb = Ok len"
    and existing: "existing = None \<or> (\<exists>d. existing = Some d \<and> owns h i d \<and> \<not> retained h d)"
    and prep: "prepare_storage layout rgb len existing h = (h', st)"
  shows "prepared i len h h' st
    \<and> (storage_allocated h' len st = len
       \<or> existing \<noteq> None \<and> storage_allocated h' len st = slot_bytes (pool_slots (hub_pool h) ! i))"
proof -
  note new = prepared_new_rgb [OF inv frame_length_Ok(4) [OF len]] prepared_new_bytes [OF inv]
  show ?thesis
  proof (cases existing)
    case None
    with prep new show ?thesis by (auto simp: prepare_storage_def split: if_splits)
  next
    case (Some d)
    then have d: "owns h i d" "\<not> retained h d" using existing by auto
    note fits = inv_owns(2) [OF inv d(1)]
    show ?thesis
    proof (cases d)
      case (StorageRgb l)
      then obtain a b c x where x: "hub_heap h l = PixelBuffer (a, b, c) x" "length x = a * b * c"
        using fits by auto
      show ?thesis
      proof (cases "rgb \<and> (a, b, c) = (unat (fl_height layout), unat (fl_width layout), 3)")
        case True
        then have "h' = h" "st = d" "length x = len"
          using prep Some StorageRgb x frame_length_Ok(4) [OF len]
          by (auto simp: prepare_storage_def split: if_splits)
        moreover have "prepared i len h h d"
        proof (rule prepared_reuse [OF inv d, of h "hub_heap h l"])
          show "h = h\<lparr>hub_heap := (hub_heap h)(storage_loc d := hub_heap h l)\<rparr>"
            using StorageRgb by simp
        qed (use StorageRgb x \<open>length x = len\<close> in auto)
        ultimately show ?thesis using StorageRgb by simp
      next
        case False
        then show ?thesis
          using prep new Some StorageRgb x by (auto simp: prepare_storage_def split: if_splits)
      qed
    next
      case (StorageBytes l)
      then obtain x where x: "hub_heap h l = ByteBuffer x (slot_bytes (pool_slots (hub_pool h) ! i))"
        using fits by auto
      show ?thesis
      proof (cases "\<not> rgb \<and> len \<le> slot_bytes (pool_slots (hub_pool h) ! i)")
        case True
        let ?b = "ByteBuffer (resize_bytes len x) (slot_bytes (pool_slots (hub_pool h) ! i))"
        have "h' = h\<lparr>hub_heap := (hub_heap h)(l := ?b)\<rparr>" "st = d"
          using prep Some StorageBytes x True by (auto simp: prepare_storage_def split: if_splits)
        moreover from this have "prepared i len h h' d"
          by (intro prepared_reuse [OF inv d, of h' ?b]) (use StorageBytes True in auto)
        ultimately show ?thesis using StorageBytes Some by simp
      next
        case False
        then show ?thesis
          using prep new Some StorageBytes x by (auto simp: prepare_storage_def split: if_splits)
      qed
    qed
  qed
qed

lemma pick_slot_Some:
  assumes "hub_inv h" "pick_slot h = Some (slots, i)"
  shows "(slots = pool_slots (hub_pool h) \<and> i < length slots
      \<and> (\<exists>d. slot_data (slots ! i) = Some d \<and> \<not> retained h d))
    \<or> (slots = pool_slots (hub_pool h) @ [\<lparr>slot_data = None, slot_bytes = 0\<rparr>]
      \<and> i = length (pool_slots (hub_pool h))
      \<and> length (pool_slots (hub_pool h)) < mb_buffers (pool_budget (hub_pool h)))"
  using assms(2)
  by (auto simp: pick_slot_def Let_def position_eq_Some slot_unique_def unique_def
      split: option.splits if_splits)

lemma hub_inv_reserve:
  assumes inv: "hub_inv h" and publishable: "publishable layout rgb"
  shows "hub_inv (fst (reserve now session layout rgb h))
    \<and> frame_rel h (fst (reserve now session layout rgb h))
    \<and> keeps_owned h (fst (reserve now session layout rgb h))"
proof (cases "epoch_active session h \<and> (\<exists>len. frame_length layout rgb = Ok len)")
  case False
  with inv show ?thesis by (auto simp: reserve_def frame_rel_refl keeps_owned_refl split: result.split)
next
  case True
  then obtain len where len: "frame_length layout rgb = Ok len" by blast
  let ?h = "pool_receive now h"
  have inv': "hub_inv ?h" by (rule hub_inv_quiet [OF core_pool_receive inv])
  show ?thesis
  proof (cases "pick_slot ?h")
    case None
    then have "core (fst (reserve now session layout rgb h)) = core h"
      using True len by (simp add: reserve_def Let_def core_pool_drop core_pool_receive)
    then show ?thesis using inv hub_inv_quiet frame_rel_core keeps_owned_core by blast
  next
    case (Some p)
    then obtain slots i where p: "pick_slot ?h = Some (slots, i)" by (cases p) auto
    note pick = pick_slot_Some [OF inv' p]
    define available where
      "available = mb_bytes (pool_budget (hub_pool ?h)) - (slots_bytes slots - slot_bytes (slots ! i))"
    have sum: "slots_bytes slots \<le> mb_bytes (pool_budget (hub_pool ?h))"
      using inv' pick by (auto simp: hub_inv_def inv_budget_def slots_bytes_def)
    have i: "i < length slots" using pick by auto
    obtain h' st where prep: "prepare_storage layout rgb len (slot_data (slots ! i)) ?h = (h', st)"
      by fastforce
    show ?thesis
    proof (cases "len > available")
      case True
      have "slots = pool_slots (hub_pool ?h) \<Longrightarrow> 0 < slot_bytes (slots ! i)"
        using inv' i by (simp add: hub_inv_def inv_budget_def)
      then have "core (set_slots (if slot_bytes (slots ! i) = 0 then butlast slots else slots) ?h) = core ?h"
        using pick by (auto simp: core_eq_iff set_slots_def nth_append)
      then have "core (fst (reserve now session layout rgb h)) = core h"
        using True \<open>epoch_active session h \<and> _\<close> len p
        by (simp add: reserve_def Let_def core_pool_drop core_pool_receive flip: available_def)
      then show ?thesis using inv hub_inv_quiet frame_rel_core keeps_owned_core by blast
    next
      case False
      have existing: "slot_data (slots ! i) = None
        \<or> (\<exists>d. slot_data (slots ! i) = Some d \<and> owns ?h i d \<and> \<not> retained ?h d)"
        using pick by (auto simp: owns_def)
      note prepared = prepare_storage_prepared [OF inv' len existing prep]
      let ?n = "storage_allocated h' len st"
      have "slot_bytes (slots ! i) \<le> slots_bytes slots"
        using i by (auto simp: slots_bytes_def intro!: elem_le_sum_list [of i "map slot_bytes slots", simplified])
      then have "slot_bytes (slots ! i) \<le> available"
        using sum by (simp add: available_def)
      then have fit: "?n \<le> available"
        using prepared False pick by auto
      from prepared have h': "h' = ?h\<lparr>hub_heap := hub_heap h', hub_next_location := hub_next_location h'\<rparr>"
        unfolding prepared_def by blast
      have "hub_inv (?h\<lparr>hub_heap := hub_heap h', hub_next_location := hub_next_location h',
        hub_pool := (hub_pool ?h)\<lparr>pool_slots := slots[i := \<lparr>slot_data = None, slot_bytes = ?n\<rparr>]\<rparr>,
        hub_leases := hub_leases ?h @ [Some \<lparr>ls_index = i, ls_data = st, ls_session = session,
          ls_layout = layout, ls_committed = False\<rparr>]\<rparr>)
        \<and> keeps_owned ?h (?h\<lparr>hub_heap := hub_heap h', hub_next_location := hub_next_location h',
        hub_pool := (hub_pool ?h)\<lparr>pool_slots := slots[i := \<lparr>slot_data = None, slot_bytes = ?n\<rparr>]\<rparr>,
        hub_leases := hub_leases ?h @ [Some \<lparr>ls_index = i, ls_data = st, ls_session = session,
          ls_layout = layout, ls_committed = False\<rparr>]\<rparr>)"
      proof (rule hub_inv_reserved [OF inv'])
        show "\<not> retained ?h st'" if "owns ?h i st'" for st'
          using that pick inv_lease(2) [OF inv'] by (auto simp: owns_def)
        show "length (pool_slots (hub_pool ?h)) \<le> length slots"
          "length slots \<le> mb_buffers (pool_budget (hub_pool ?h))"
          using inv' pick by (auto simp: hub_inv_def inv_budget_def)
        show "0 < ?n" using prepared frame_length_Ok(1) [OF len] by (auto simp: prepared_def)
        show "?n \<le> mb_bytes (pool_budget (hub_pool ?h)) - (slots_bytes slots - slot_bytes (slots ! i))"
          using fit by (simp add: available_def)
        show "layout_validate layout (length (buffer_bytes (hub_heap h' (storage_loc st)))) = Ok ()"
          using prepared publishable len by (simp add: prepared_def publishable_def)
        show "length (buffer_bytes (hub_heap h' (storage_loc st))) < usize_bound"
          using prepared frame_length_Ok(3) [OF len] by (simp add: prepared_def)
      qed (use pick prepared sum i in \<open>auto simp: prepared_def nth_append\<close>)
      moreover have "fst (reserve now session layout rgb h) =
        h'\<lparr>hub_pool := (hub_pool h')\<lparr>pool_slots := slots[i := \<lparr>slot_data = None, slot_bytes = ?n\<rparr>]\<rparr>,
        hub_leases := hub_leases h' @ [Some \<lparr>ls_index = i, ls_data = st, ls_session = session,
          ls_layout = layout, ls_committed = False\<rparr>]\<rparr>"
        using True False len p prep fit
        by (simp add: reserve_def Let_def available_def set_slots_def)
      moreover have "\<dots> = ?h\<lparr>hub_heap := hub_heap h', hub_next_location := hub_next_location h',
        hub_pool := (hub_pool ?h)\<lparr>pool_slots := slots[i := \<lparr>slot_data = None, slot_bytes = ?n\<rparr>]\<rparr>,
        hub_leases := hub_leases ?h @ [Some \<lparr>ls_index = i, ls_data = st, ls_session = session,
          ls_layout = layout, ls_committed = False\<rparr>]\<rparr>"
      proof -
        obtain H N where "h' = ?h\<lparr>hub_heap := H, hub_next_location := N\<rparr>" using h' by blast
        then show ?thesis by simp
      qed
      moreover have "frame_rel h (?h\<lparr>hub_heap := hub_heap h', hub_next_location := hub_next_location h',
        hub_pool := (hub_pool ?h)\<lparr>pool_slots := slots[i := \<lparr>slot_data = None, slot_bytes = ?n\<rparr>]\<rparr>,
        hub_leases := hub_leases ?h @ [Some \<lparr>ls_index = i, ls_data = st, ls_session = session,
          ls_layout = layout, ls_committed = False\<rparr>]\<rparr>)" (is "frame_rel h ?final")
      proof (rule frame_rel_trans [OF frame_rel_core [OF core_pool_receive [of now h]]])
        show "frame_rel ?h ?final"
        proof (rule frame_rel_same_live)
          show "hub_heap ?final (storage_loc (cf_storage f)) = hub_heap ?h (storage_loc (cf_storage f))"
            if "f \<in> set (live_frames ?h)" for f
            using that prepared by (auto simp: prepared_def retained_def)
        qed (simp_all add: live_frames_def)
      qed
      moreover have "keeps_owned ?h h1 \<Longrightarrow> keeps_owned h h1" for h1
        using owns_core [OF core_pool_receive] core_live [OF core_pool_receive]
        by (simp add: keeps_owned_def retained_def)
      ultimately show ?thesis by simp
    qed
  qed
qed

section \<open>Writing\<close>

lemma buffer_fits_write:
  assumes "length data = length (buffer_bytes (heap l))"
  shows "buffer_fits (heap(l := set_buffer_bytes (heap l) data)) st n = buffer_fits heap st n"
  using assms by (cases st; cases "heap l") auto

lemma hub_inv_write_lease:
  assumes inv: "hub_inv h" and w: "write_lease k data h = Ok h'"
  shows "hub_inv h'"
proof -
  from w obtain ls where k: "list_at (hub_leases h) k = Some ls" "\<not> retained h (ls_data ls)"
      "length data = length (lease_bytes h ls)"
    and h': "h' = h\<lparr>hub_heap := (hub_heap h)(storage_loc (ls_data ls) :=
      set_buffer_bytes (hub_heap h (storage_loc (ls_data ls))) data)\<rparr>"
    by (auto simp: write_lease_def Let_def split: option.splits if_splits)
  define l where "l = storage_loc (ls_data ls)"
  note h' = h' [folded l_def]
  have len: "length data = length (buffer_bytes (hub_heap h l))"
    using k(3) by (simp add: lease_bytes_def l_def)
  then have lengths: "length (buffer_bytes (hub_heap h' l')) = length (buffer_bytes (hub_heap h l'))" for l'
    by (simp add: h')
  have lb: "length (lease_bytes h' ls') = length (lease_bytes h ls')" for ls'
    using lengths by (simp add: lease_bytes_def)
  have live: "live_frames h' = live_frames h" by (simp add: live_frames_def h')
  have ret: "retained h' st = retained h st" for st by (simp add: retained_def live)
  have owns: "owns h' = owns h" by (intro ext) (simp add: owns_def h')
  have wf: "frame_well_formed (hub_heap h') f = frame_well_formed (hub_heap h) f"
    if "f \<in> set (live_frames h)" for f
    using that k(2) by (intro frame_well_formed_heap) (auto simp: h' l_def retained_def)
  have "inv_budget h'" using inv by (simp add: hub_inv_def inv_budget_def h')
  moreover have "inv_leases h'"
    using inv unfolding hub_inv_def inv_leases_def lb ret by (simp add: h')
  moreover have "inv_storage h'"
    using inv unfolding hub_inv_def inv_storage_def owns
    by (simp add: h' buffer_fits_write [where heap = "hub_heap h" and l = l, OF len])
  moreover have "inv_frames h'"
    using inv wf unfolding hub_inv_def inv_frames_def live by (simp add: h')
  moreover have "inv_receivers h'" "inv_session h'"
    using inv by (simp_all add: hub_inv_def inv_receivers_def inv_session_def h')
  ultimately show ?thesis by (simp only: hub_inv_def)
qed

section \<open>Dropping a lease\<close>

lemma hub_inv_drop_lease:
  assumes inv: "hub_inv h" and d: "drop_lease k h = Ok h'"
  shows "hub_inv h'"
proof -
  from d obtain ls where k: "list_at (hub_leases h) k = Some ls"
    and h': "h' = (set_slots ((pool_slots (hub_pool h))[ls_index ls :=
        (pool_slots (hub_pool h) ! ls_index ls)\<lparr>slot_data := Some (ls_data ls)\<rparr>]) h)
      \<lparr>hub_leases := (hub_leases h)[k := None]\<rparr>"
    by (auto simp: drop_lease_def Let_def split: option.splits if_splits)
  note i = inv_lease(1) [OF inv k]
  have live: "live_frames h' = live_frames h" by (simp add: live_frames_def h' set_slots_def)
  have ret: "retained h' st = retained h st" for st by (simp add: retained_def live)
  have lb: "lease_bytes h' ls' = lease_bytes h ls'" for ls' by (simp add: lease_bytes_def h' set_slots_def)
  have old: "list_at (hub_leases h) j = Some ls' \<and> ls_index ls' \<noteq> ls_index ls"
    if "list_at (hub_leases h') j = Some ls'" for j ls'
    using that inv_lease_unique [OF inv k, of j ls']
    by (auto simp: h' list_at_update list_at_length [OF k] split: if_splits)
  have owns: "owns h j st" if "owns h' j st" for j st
    using that old inv_lease(3) [OF inv k]
    by (auto simp: owns_def h' set_slots_def nth_list_update split: if_splits)
  have slots: "slot_bytes (pool_slots (hub_pool h') ! j) = slot_bytes (pool_slots (hub_pool h) ! j)" for j
    using i by (cases "j = ls_index ls") (auto simp: h' set_slots_def)
  have "slots_bytes (pool_slots (hub_pool h')) = slots_bytes (pool_slots (hub_pool h))"
  proof -
    have "map slot_bytes (pool_slots (hub_pool h')) = map slot_bytes (pool_slots (hub_pool h))"
      using slots by (intro nth_equalityI) (simp_all add: h' set_slots_def nth_list_update)
    then show ?thesis by (simp add: slots_bytes_def)
  qed
  moreover have "0 < slot_bytes (pool_slots (hub_pool h') ! j)"
    if "j < length (pool_slots (hub_pool h'))" for j
    unfolding slots using that inv by (simp add: hub_inv_def inv_budget_def h' set_slots_def)
  then have "\<forall>s \<in> set (pool_slots (hub_pool h')). 0 < slot_bytes s"
    by (auto simp: in_set_conv_nth)
  ultimately have "inv_budget h'"
    using inv by (simp add: hub_inv_def inv_budget_def) (simp add: h' set_slots_def)
  moreover have "inv_leases h'"
    unfolding inv_leases_def ret lb
  proof (intro conjI allI impI)
    fix j ls'
    assume "list_at (hub_leases h') j = Some ls'"
    from old [OF this] inv_lease [OF inv, of j ls']
    show "ls_index ls' < length (pool_slots (hub_pool h'))"
      "slot_data (pool_slots (hub_pool h') ! ls_index ls') = None"
      "length (lease_bytes h ls') < usize_bound"
      "layout_validate (ls_layout ls') (length (lease_bytes h ls')) = Ok ()"
      "\<not> ls_committed ls' \<Longrightarrow> \<not> retained h (ls_data ls')"
      by (simp_all add: h' set_slots_def)
  next
    fix j j' ls1 ls2
    assume "list_at (hub_leases h') j = Some ls1" "list_at (hub_leases h') j' = Some ls2"
      "ls_index ls1 = ls_index ls2"
    then show "j = j'" using old inv_lease_unique [OF inv] by blast
  qed
  moreover have "inv_storage h'"
    unfolding inv_storage_def slots
    using owns inv_owns [OF inv] inv_owns_unique [OF inv]
    by (auto simp: h' set_slots_def) blast+
  moreover have "inv_frames h'"
    using inv unfolding hub_inv_def inv_frames_def live by (simp add: h' set_slots_def)
  moreover have "inv_receivers h'" "inv_session h'"
    using inv by (simp_all add: hub_inv_def inv_receivers_def inv_session_def h' set_slots_def)
  ultimately show ?thesis by (simp only: hub_inv_def)
qed

text \<open>Dropping a lease never panics: its slot is still there.\<close>

lemma drop_lease_Ok:
  assumes "hub_inv h" "list_at (hub_leases h) k = Some ls"
  shows "\<exists>h'. drop_lease k h = Ok h'"
  using inv_lease(1) [OF assms] assms(2) by (simp add: drop_lease_def Let_def)

end
