(* ===== verification/Hub_Publish.thy ===== *)
theory Hub_Publish
  imports Hub_Steps
begin

text \<open>
  Publication: offering a frame to the receivers, committing a lease, subscribing and
  configuring preserve the invariant of the hub.
\<close>

section \<open>Offering a frame to the receivers\<close>

lemma offer_all_props:
  assumes "offer_all flags f ids rs = (ids', rs')" "distinct ids"
  shows "length rs' = length rs \<and> set ids' \<subseteq> set ids \<and> distinct ids'
    \<and> (\<forall>j. list_at rs' j =
         (if j \<in> set ids then map_option (\<lambda>r. fst (offer flags f r)) (list_at rs j) else list_at rs j))"
  using assms
proof (induction ids arbitrary: rs ids' rs')
  case Nil
  then show ?case by simp
next
  case (Cons i ids)
  show ?case
  proof (cases "list_at rs i")
    case None
    then have "offer_all flags f ids rs = (ids', rs')" using Cons.prems(1) by simp
    from Cons.IH [OF this] Cons.prems(2) None show ?thesis by auto
  next
    case (Some r)
    obtain ids1 where rec: "offer_all flags f ids (rs[i := Some (fst (offer flags f r))]) = (ids1, rs')"
      and ids': "ids' = (if snd (offer flags f r) then i # ids1 else ids1)"
      using Cons.prems(1) Some by (auto split: prod.splits)
    have "i < length rs" using Some by (rule list_at_length)
    with Cons.IH [OF rec] Cons.prems(2) Some ids' show ?thesis
      by (auto simp: list_at_update)
  qed
qed

lemma deliver_fields [simp]:
  "rc_last (deliver f r) = rc_last r" "rc_max_rate (deliver f r) = rc_max_rate r"
  by (simp_all add: deliver_def split: delivery_policy.splits)

lemma deliver_last_enqueued [simp]:
  "rc_queue (r\<lparr>rc_last_enqueued := t\<rparr>) = rc_queue r"
  "receiver_capacity (r\<lparr>rc_last_enqueued := t\<rparr>) = receiver_capacity r"
  by (simp_all add: receiver_capacity_def)

lemma receiver_ok_deliver:
  assumes ok: "receiver_ok s r" and f: "\<And>k. key_past s k \<Longrightarrow> key_less k (cf_key f)"
    and q: "\<And>g. g \<in> set (rc_queue r) \<Longrightarrow> key_past s (cf_key g)"
  shows "receiver_ok s (deliver f r)"
proof -
  have "sorted_wrt (\<lambda>a b. key_less (cf_key a) (cf_key b)) (rc_queue (deliver f r))"
    using ok f q by (intro receiver_queue.push_sorted) (auto simp: receiver_ok_def sorted_wrt_map)
  moreover have "length (rc_queue (deliver f r)) \<le> receiver_capacity (deliver f r)"
    using ok by (simp add: receiver_ok_def receiver_queue.push_bounded receiver_queue.push_capacity)
  moreover have "set (rc_queue (deliver f r)) \<subseteq> insert f (set (rc_queue r))"
    by (rule receiver_queue.push_subset)
  ultimately show ?thesis
    using ok f by (auto simp: receiver_ok_def sorted_wrt_map receiver_queue.push_capacity)
qed

lemma receiver_ok_offer:
  assumes ok: "receiver_ok s r" and f: "\<And>k. key_past s k \<Longrightarrow> key_less k (cf_key f)"
    and q: "\<And>g. g \<in> set (rc_queue r) \<Longrightarrow> key_past s (cf_key g)"
  shows "receiver_ok s (fst (offer flags f r))"
proof -
  have "receiver_ok s (r\<lparr>rc_last_enqueued := t\<rparr>)" for t
    using ok by (simp add: receiver_ok_def)
  moreover have "receiver_ok s (r\<lparr>rc_dropped := n\<rparr>)" for n
    using ok by (simp add: receiver_ok_def receiver_capacity_def)
  moreover have "receiver_ok s (deliver f r)"
    by (rule receiver_ok_deliver [OF ok f q])
  moreover have "receiver_ok s (deliver f (r\<lparr>rc_last_enqueued := t\<rparr>))" for t
    using ok q by (intro receiver_ok_deliver [OF _ f]) (simp_all add: receiver_ok_def)
  ultimately show ?thesis
    using receiver_ok_clear [OF ok] ok by (auto simp: offer_def split: option.split)
qed

lemma offer_queue_subset: "set (rc_queue (fst (offer flags f r))) \<subseteq> insert f (set (rc_queue r))"
  using receiver_queue.push_subset [of f r]
    receiver_queue.push_subset [of f "r\<lparr>rc_last_enqueued := Some (cf_captured_at f)\<rparr>"]
  by (auto simp: offer_def split: option.split)

section \<open>Committing\<close>

lemma hub_inv_commit_lease:
  assumes "hub_inv h"
  shows "hub_inv (commit_lease k h)"
proof (cases "list_at (hub_leases h) k")
  case None
  with assms show ?thesis by (simp add: commit_lease_def)
next
  case (Some ls)
  let ?h = "commit_lease k h"
  have h': "?h = h\<lparr>hub_leases := (hub_leases h)[k := Some (ls\<lparr>ls_committed := True\<rparr>)]\<rparr>"
    using Some by (simp add: commit_lease_def)
  have old: "\<exists>ls0. list_at (hub_leases h) j = Some ls0 \<and> ls_index ls' = ls_index ls0
      \<and> ls_data ls' = ls_data ls0 \<and> ls_layout ls' = ls_layout ls0
      \<and> (\<not> ls_committed ls' \<longrightarrow> \<not> ls_committed ls0)"
    if "list_at (hub_leases ?h) j = Some ls'" for j ls'
    using that Some by (auto simp: h' list_at_update split: if_splits)
  have owns: "owns h i st" if "owns ?h i st" for i st
    using that old by (fastforce simp: owns_def h')
  have live: "live_frames ?h = live_frames h" by (simp add: live_frames_def h')
  have ret: "retained ?h st = retained h st" for st by (simp add: retained_def live)
  have lb: "lease_bytes ?h ls1 = lease_bytes h ls2" if "ls_data ls1 = ls_data ls2" for ls1 ls2
    using that by (simp add: lease_bytes_def h')
  have "inv_leases ?h"
    unfolding inv_leases_def ret
  proof (intro conjI allI impI)
    fix j ls'
    assume "list_at (hub_leases ?h) j = Some ls'"
    from old [OF this] obtain ls0 where j: "list_at (hub_leases h) j = Some ls0"
      and e: "ls_index ls' = ls_index ls0" "ls_data ls' = ls_data ls0" "ls_layout ls' = ls_layout ls0"
      "\<not> ls_committed ls' \<Longrightarrow> \<not> ls_committed ls0" by blast
    from inv_lease [OF assms j] e(1-3) lb [OF e(2)]
    show "ls_index ls' < length (pool_slots (hub_pool ?h))"
      "slot_data (pool_slots (hub_pool ?h) ! ls_index ls') = None"
      "length (lease_bytes ?h ls') < usize_bound"
      "layout_validate (ls_layout ls') (length (lease_bytes ?h ls')) = Ok ()"
      by (simp_all add: h')
    show "\<not> ls_committed ls' \<Longrightarrow> \<not> retained h (ls_data ls')"
      using inv_lease(6) [OF assms j] e by simp
  next
    fix j j' ls1 ls2
    assume "list_at (hub_leases ?h) j = Some ls1" "list_at (hub_leases ?h) j' = Some ls2"
      "ls_index ls1 = ls_index ls2"
    then show "j = j'" using old inv_lease_unique [OF assms] by metis
  qed
  moreover have "inv_storage ?h"
    unfolding inv_storage_def using owns inv_owns [OF assms] inv_owns_unique [OF assms]
    by (auto simp: h') blast+
  moreover have "inv_frames ?h"
    using assms unfolding hub_inv_def inv_frames_def live by (simp add: h')
  moreover have "inv_budget ?h" "inv_receivers ?h" "inv_session ?h"
    using assms by (simp_all add: hub_inv_def inv_budget_def inv_receivers_def inv_session_def h')
  ultimately show ?thesis by (simp only: hub_inv_def)
qed

lemma next_key_after_past:
  assumes "inv_session h" "epoch_active (pub_session p) h" "key_past (hub_state h) k"
  shows "key_less k (cf_key (make_frame t p st h))"
  using assms
  by (auto simp: key_past_def key_less_def make_frame_def next_sequence_def epoch_active_def
      split: option.splits)

text \<open>What a committed publication does to the hub.\<close>

lemma commit_publication_active:
  assumes "inv_receivers h" "epoch_active (pub_session p) h"
  obtains ids rs where
    "commit_publication t p st h =
      (h\<lparr>hub_subscribers := ids, hub_receivers := rs,
         hub_state := (hub_state h)\<lparr>sn_latest := Some (make_frame t p st h)\<rparr>\<rparr>, True)"
    "length rs = length (hub_receivers h)" "set ids \<subseteq> set (hub_subscribers h)" "distinct ids"
    "\<And>j. list_at rs j =
      (if j \<in> set (hub_subscribers h)
       then map_option (\<lambda>r. fst (offer (hub_flags h) (make_frame t p st h) r)) (list_at (hub_receivers h) j)
       else list_at (hub_receivers h) j)"
proof -
  obtain ids rs where o: "offer_all (hub_flags h) (make_frame t p st h) (hub_subscribers h)
      (hub_receivers h) = (ids, rs)" by fastforce
  show thesis
    using offer_all_props [OF o] assms o
    by (intro that [where ids = ids and rs = rs]) (simp_all add: commit_publication_def inv_receivers_def Let_def)
qed

lemma hub_inv_commit_publication:
  assumes inv: "hub_inv h" and k: "list_at (hub_leases h) k = Some ls" "ls_committed ls"
    and p: "pub_layout p = ls_layout ls"
  shows "hub_inv (fst (commit_publication t p (ls_data ls) h))"
proof (cases "epoch_active (pub_session p) h")
  case False
  with inv show ?thesis by (simp add: commit_publication_def)
next
  case True
  let ?f = "make_frame t p (ls_data ls) h"
  have recv: "inv_receivers h" and session: "inv_session h" using inv by (simp_all add: hub_inv_def)
  from commit_publication_active [OF recv True, of t "ls_data ls"] obtain ids rs where
    h': "fst (commit_publication t p (ls_data ls) h) = h\<lparr>hub_subscribers := ids, hub_receivers := rs,
         hub_state := (hub_state h)\<lparr>sn_latest := Some ?f\<rparr>\<rparr>" (is "_ = ?h")
    and len: "length rs = length (hub_receivers h)" and ids: "set ids \<subseteq> set (hub_subscribers h)" "distinct ids"
    and rs: "\<And>j. list_at rs j =
      (if j \<in> set (hub_subscribers h)
       then map_option (\<lambda>r. fst (offer (hub_flags h) ?f r)) (list_at (hub_receivers h) j)
       else list_at (hub_receivers h) j)"
    by (metis fst_conv)
  note newer = next_key_after_past [OF session True, of _ t "ls_data ls"]
  have live: "g = ?f \<or> g \<in> set (live_frames h)" if g: "g \<in> set (live_frames ?h)" for g
    using g
  proof (cases rule: live_framesE)
    case (queued i r)
    then obtain r0 where r0: "list_at (hub_receivers h) i = Some r0"
      "r = r0 \<or> r = fst (offer (hub_flags h) ?f r0)"
      using rs [of i] by (auto split: if_splits)
    then show ?thesis
      using queued offer_queue_subset [of "hub_flags h" ?f r0] by (auto intro: live_framesI(2))
  qed (auto intro: live_framesI)
  have past: "key_past (hub_state ?h) g" if "key_past (hub_state h) g" for g
    using newer [OF that] that True
    by (auto simp: key_past_def key_less_def make_frame_def next_sequence_def epoch_active_def
        split: option.splits)
  have past_new: "key_past (hub_state ?h) (cf_key ?f)"
    using True by (simp add: key_past_def make_frame_def epoch_active_def)
  have old_less: "key_less (cf_key g) (cf_key ?f)" if "g \<in> set (live_frames h)" for g
    using newer inv_frame(3) [OF inv that] by blast
  have owns: "owns ?h = owns h" by (intro ext) (simp add: owns_def)
  have other: "storage_loc (ls_data ls') \<noteq> storage_loc (ls_data ls)"
    if "list_at (hub_leases h) j = Some ls'" "\<not> ls_committed ls'" for j ls'
  proof
    assume "storage_loc (ls_data ls') = storage_loc (ls_data ls)"
    then have "ls_index ls' = ls_index ls"
      by (rule inv_owns_unique [OF inv inv_lease(3) [OF inv that(1)] inv_lease(3) [OF inv k(1)]])
    then have "j = k" by (rule inv_lease_unique [OF inv that(1) k(1)])
    with that k show False by simp
  qed
  have ret: "\<not> retained ?h (ls_data ls')"
    if "list_at (hub_leases h) j = Some ls'" "\<not> ls_committed ls'" for j ls'
  proof
    assume "retained ?h (ls_data ls')"
    then obtain g where "g = ?f \<or> g \<in> set (live_frames h)"
      "storage_loc (cf_storage g) = storage_loc (ls_data ls')"
      using live by (auto simp: retained_def)
    then show False
      using other [OF that] inv_lease(6) [OF inv that] by (auto simp: retained_def make_frame_def)
  qed
  have "inv_budget ?h" using inv by (simp add: hub_inv_def inv_budget_def)
  moreover have "inv_leases ?h"
    using inv ret unfolding hub_inv_def inv_leases_def by (simp add: lease_bytes_def)
  moreover have "inv_storage ?h"
    using inv by (simp add: hub_inv_def inv_storage_def owns)
  moreover have "inv_frames ?h"
  proof -
    have wf: "frame_well_formed (hub_heap h) ?f" "storage_loc (cf_storage ?f) < hub_next_location h"
      using inv_lease(4,5) [OF inv k(1)] inv_owns(1) [OF inv inv_lease(3) [OF inv k(1)]] p
      by (simp_all add: frame_well_formed_def frame_bytes_def make_frame_def lease_bytes_def)
    have "f = g" if "f \<in> set (live_frames ?h)" "g \<in> set (live_frames ?h)" "cf_key f = cf_key g" for f g
    proof -
      have "f \<in> set (live_frames h) \<Longrightarrow> g \<in> set (live_frames h) \<Longrightarrow> f = g"
        using inv that(3) by (auto simp: hub_inv_def inv_frames_def)
      moreover have "\<not> key_less (cf_key f) (cf_key g)" "\<not> key_less (cf_key g) (cf_key f)"
        using that(3) by (simp_all add: key_less_def)
      ultimately show ?thesis
        using live [OF that(1)] live [OF that(2)] old_less [of f] old_less [of g] by metis
    qed
    moreover have "storage_loc (cf_storage f) < hub_next_location ?h \<and> frame_well_formed (hub_heap ?h) f
      \<and> key_past (hub_state ?h) (cf_key f)" if "f \<in> set (live_frames ?h)" for f
    proof (cases "f = ?f")
      case True
      with wf past_new show ?thesis by simp
    next
      case False
      with live [OF that] have "f \<in> set (live_frames h)" by simp
      from inv_frame [OF inv this] past show ?thesis by simp
    qed
    ultimately show ?thesis unfolding inv_frames_def by blast
  qed
  moreover have "inv_receivers ?h"
  proof -
    have "receiver_ok (hub_state ?h) r" if "list_at rs i = Some r" for i r
    proof -
      from that obtain r0 where r0: "list_at (hub_receivers h) i = Some r0"
        "r = r0 \<or> r = fst (offer (hub_flags h) ?f r0)"
        using rs [of i] by (auto split: if_splits)
      then have ok: "receiver_ok (hub_state h) r0" using recv by (auto simp: inv_receivers_def)
      have "key_past (hub_state h) (cf_key g)" if "g \<in> set (rc_queue r0)" for g
        using that r0 by (intro inv_frame(3) [OF inv]) (auto intro: live_framesI)
      from receiver_ok_offer [OF ok newer this] r0 ok have "receiver_ok (hub_state h) r" by auto
      then show ?thesis by (rule receiver_ok_mono) (rule past)
    qed
    then show ?thesis
      using recv len ids by (auto simp: inv_receivers_def)
  qed
  moreover have "inv_session ?h"
    using session True by (simp add: inv_session_def epoch_active_def make_frame_def)
  ultimately show ?thesis unfolding h' by (simp only: hub_inv_def)
qed

section \<open>Subscribing\<close>

lemma subscription_validate_capacity:
  assumes "subscription_validate options budget = Ok ()"
  shows "0 < (case so_delivery options of Latest \<Rightarrow> 1 | Buffered capacity _ \<Rightarrow> capacity)"
  using assms by (auto simp: subscription_validate_def split: delivery_policy.splits if_splits)

lemma shrinks_subscribe_with:
  assumes inv: "hub_inv h"
  shows "shrinks h (fst (subscribe_with options h))"
proof (cases "subscription_validate options (pool_budget (hub_pool h)) = Ok ()")
  case False
  with inv show ?thesis by (auto simp: subscribe_with_def shrinks_refl split: result.split)
next
  case True
  define r where "r = \<lparr>rc_queue = (case sn_latest (hub_state h) of None \<Rightarrow> [] | Some f \<Rightarrow> [f]),
    rc_delivery = so_delivery options, rc_dropped = 0, rc_max_rate = so_max_rate options,
    rc_last_enqueued = map_option cf_captured_at (sn_latest (hub_state h)), rc_owner = None,
    rc_last = None\<rparr>"
  let ?h = "h\<lparr>hub_receivers := hub_receivers h @ [Some r],
    hub_subscribers := hub_subscribers h @ [length (hub_receivers h)]\<rparr>"
  have eq: "fst (subscribe_with options h) = ?h"
    using True by (simp add: subscribe_with_def r_def Let_def)
  have ok: "receiver_ok (hub_state h) r"
    using subscription_validate_capacity [OF True]
    by (auto simp: receiver_ok_def receiver_capacity_def r_def split: option.splits)
  have "shrinks h ?h"
  proof (rule shrinksI)
    show "set (live_frames ?h) \<subseteq> set (live_frames h)"
    proof
      fix f
      assume "f \<in> set (live_frames ?h)"
      then show "f \<in> set (live_frames h)"
      proof (cases rule: live_framesE)
        case (queued i q)
        then show ?thesis
          by (auto simp: list_at_append r_def split: if_splits option.splits intro: live_framesI)
      qed (auto intro: live_framesI)
    qed
    show "inv_receivers ?h"
      using inv ok by (auto simp: hub_inv_def inv_receivers_def list_at_append less_Suc_eq
          split: if_splits)
    show "inv_session ?h" using inv by (simp add: hub_inv_def inv_session_def)
  qed simp_all
  then show ?thesis by (simp only: eq)
qed

section \<open>Configuring\<close>

lemma hub_inv_configure:
  assumes inv: "hub_inv h"
  shows "hub_inv (fst (configure r h))"
proof (cases "is_streaming h
    \<or> list_ex (\<lambda>s. slot_data s = None \<and> slot_bytes s > 0) (pool_slots (hub_pool h))")
  case True
  with inv show ?thesis by (auto simp: configure_def)
next
  case False
  let ?slots = "pool_slots (hub_pool h)"
  let ?keep = "\<lambda>s :: slot. case slot_data s of None \<Rightarrow> True | Some d \<Rightarrow> \<not> unique h d"
  let ?kept = "filter ?keep ?slots"
  define loc where "loc s = storage_loc (the (slot_data s))" for s :: slot
  have data: "slot_data s \<noteq> None" if "s \<in> set ?slots" for s
    using that inv False by (auto simp: hub_inv_def inv_budget_def list_ex_iff)
  have no_lease: "list_at (hub_leases h) k = None" for k
    using inv_lease(1,2) [OF inv, of k] data by (cases "list_at (hub_leases h) k") (auto dest: nth_mem)
  have "distinct (map loc ?slots)"
  proof (subst distinct_conv_nth, intro allI impI)
    fix i j
    assume ij: "i < length (map loc ?slots)" "j < length (map loc ?slots)" "i \<noteq> j"
    then obtain di dj where "slot_data (?slots ! i) = Some di" "slot_data (?slots ! j) = Some dj"
      using data [of "?slots ! i"] data [of "?slots ! j"] by auto
    moreover from this ij have "owns h i di" "owns h j dj" by (auto simp: owns_def)
    ultimately show "map loc ?slots ! i \<noteq> map loc ?slots ! j"
      using inv_owns_unique [OF inv] ij by (auto simp: loc_def)
  qed
  then have distinct: "distinct (map loc ?kept)" by (rule distinct_map_filter)
  have owned: "owns h i st" if "i < length ?slots" "slot_data (?slots ! i) = Some st" for i st
    using that by (simp add: owns_def)
  have inv_of: "hub_inv h'"
    if h': "hub_heap h' = hub_heap h" "hub_next_location h' = hub_next_location h"
      "hub_next_session h' = hub_next_session h" "hub_state h' = hub_state h"
      "pool_slots (hub_pool h') = ?kept" "hub_subscribers h' = hub_subscribers h"
      "hub_receivers h' = hub_receivers h" "hub_leases h' = hub_leases h" "hub_held h' = hub_held h"
      "length ?kept \<le> mb_buffers (pool_budget (hub_pool h'))"
      "slots_bytes ?kept \<le> mb_bytes (pool_budget (hub_pool h'))" for h'
  proof -
    have live: "live_frames h' = live_frames h" by (simp add: live_frames_def h')
    have own': "\<exists>j. owns h j st \<and> slot_bytes (?slots ! j) = slot_bytes (?kept ! i) \<and> i < length ?kept
        \<and> loc (?kept ! i) = storage_loc st"
      if "owns h' i st" for i st
    proof -
      have i: "i < length ?kept" "slot_data (?kept ! i) = Some st"
        using that by (auto simp: owns_def h' no_lease)
      then have "?kept ! i \<in> set ?slots" by (metis filter_is_subset nth_mem subsetD)
      then obtain j where "j < length ?slots" "?slots ! j = ?kept ! i" by (auto simp: in_set_conv_nth)
      with i owned [of j st] show ?thesis by (auto simp: loc_def)
    qed
    have "inv_storage h'"
      unfolding inv_storage_def
    proof (intro conjI allI impI)
      fix i st
      assume "owns h' i st"
      from own' [OF this] inv_owns [OF inv]
      show "storage_loc st < hub_next_location h'"
        "buffer_fits (hub_heap h') st (slot_bytes (pool_slots (hub_pool h') ! i))"
        unfolding h' by metis+
    next
      fix i j st st'
      assume o: "owns h' i st" "owns h' j st'" "storage_loc st = storage_loc st'"
      from own' [OF o(1)] own' [OF o(2)] o(3)
      have "i < length ?kept" "j < length ?kept" "map loc ?kept ! i = map loc ?kept ! j" by auto
      with distinct show "i = j" by (simp add: distinct_conv_nth) metis
    qed
    moreover have "inv_budget h'"
      using inv h' by (simp add: hub_inv_def inv_budget_def)
    moreover have "inv_leases h'" by (simp add: inv_leases_def h' no_lease)
    moreover have "inv_frames h'" "inv_receivers h'" "inv_session h'"
      using inv by (simp_all add: hub_inv_def inv_frames_def inv_receivers_def inv_session_def live h')
    ultimately show ?thesis by (simp only: hub_inv_def)
  qed
  have "slots_bytes ?kept \<le> slots_bytes ?slots"
    unfolding slots_bytes_def by (rule sum_list_filter_le_nat)
  then have "length ?kept \<le> mb_buffers (pool_budget (hub_pool h))"
    "slots_bytes ?kept \<le> mb_bytes (pool_budget (hub_pool h))"
    using inv order_trans [OF length_filter_le [of ?keep ?slots]]
    by (auto simp: hub_inv_def inv_budget_def)
  then have "hub_inv (set_slots ?kept h)" by (intro inv_of) (simp_all add: set_slots_def)
  moreover have "hub_inv ((set_slots ?kept h)\<lparr>hub_pool := (hub_pool (set_slots ?kept h))\<lparr>pool_budget := sr_memory r\<rparr>,
      hub_native_output := b\<rparr>)"
    if "length ?kept \<le> mb_buffers (sr_memory r)" "slots_bytes ?kept \<le> mb_bytes (sr_memory r)" for b
    by (intro inv_of) (use that in \<open>simp_all add: set_slots_def\<close>)
  ultimately show ?thesis
    using False by (auto simp: configure_def Let_def not_less)
qed

end
