(* ===== verification/Hub_Machine.thy ===== *)
theory Hub_Machine
  imports Hub_Publish
begin

text \<open>
  The frame hub as a state machine: every interleaving of producers, receivers, the application
  and the life cycle is a sequence of \<open>hub_step\<close>.  The invariant holds in every reachable state,
  and the promises of \<open>src/frame.rs\<close> follow: bounded memory, immutable frames, ordered keys,
  rejection of late callbacks, bounded queues, and no panic.
\<close>

section \<open>The machine\<close>

text \<open>
  One rule per operation.  A producer reserves a layout it has validated (\<open>publishable\<close>), writes
  an uncommitted lease, commits it once and drops it.  \<open>Other_Session\<close> is another hub taking
  numbers from the global session counter.
\<close>

inductive hub_step :: "hub \<Rightarrow> hub \<Rightarrow> bool" where
  Configure: "hub_step h (fst (configure r h))"
| Start_Reset: "hub_step h (start_reset now h)"
| Clear_Queues: "hub_step h (clear_queues h)"
| Start_Snapshot: "hub_step h (start_snapshot h)"
| Other_Session: "hub_next_session h \<le> n \<Longrightarrow> hub_step h (h\<lparr>hub_next_session := n\<rparr>)"
| Set_Events: "hub_step h (set_event_sender h)"
| Begin_Recovery: "hub_step h (begin_recovery h)"
| End_Recovery: "hub_step h (end_recovery h)"
| Enable_Recovery: "hub_step h (enable_recovery h)"
| Disable_Recovery: "hub_step h (disable_recovery h)"
| Wake: "hub_step h (wake_recovery h)"
| Mark_Stopped: "hub_step h (mark_stopped now h)"
| Deactivate: "hub_step h (deactivate h)"
| Record_Error: "hub_step h (record_conversion_error now session activity h)"
| Log_Error: "hub_step h (fst (log_frame_error now h))"
| Input_Drop: "hub_step h (record_input_drop now session h)"
| Reserve: "publishable layout rgb \<Longrightarrow> hub_step h (fst (reserve now session layout rgb h))"
| Write: "write_lease k data h = Ok h' \<Longrightarrow> hub_step h h'"
| Commit:
    "list_at (hub_leases h) k = Some ls \<Longrightarrow> pub_layout p = ls_layout ls \<Longrightarrow>
     hub_step h (fst (commit_publication t p (ls_data ls) (commit_lease k h)))"
| Account: "hub_step h (account_publication p h)"
| Drop_Lease: "drop_lease k h = Ok h' \<Longrightarrow> hub_step h h'"
| Subscribe: "hub_step h (fst (subscribe_with options h))"
| Stop_Flag: "hub_step h (with_stop_flag i flag h)"
| Set_Flag: "hub_step h (set_flag flag h)"
| Next: "hub_step h (fst (receiver_next i h))"
| Drop_Receiver: "hub_step h (drop_receiver i h)"
| Release_Frame: "hub_step h (release_frame k h)"
| Hold_Latest: "hub_step h (hold_latest h)"

inductive_cases hub_stepE: "hub_step h h'"

definition hub_start_state :: "hub \<Rightarrow> bool" where
  "hub_start_state h \<longleftrightarrow> (\<exists>n c. 1 \<le> n \<and> h = hub_new n c)"

abbreviation hub_reachable :: "hub \<Rightarrow> bool" where
  "hub_reachable \<equiv> reachable hub_start_state hub_step"

section \<open>Preservation\<close>

lemma frame_rel_write_lease:
  assumes "write_lease k data h = Ok h'"
  shows "frame_rel h h'"
proof -
  obtain ls where ls: "list_at (hub_leases h) k = Some ls"
    using assms by (auto simp: write_lease_def split: option.splits)
  then have "\<not> retained h (ls_data ls)"
    "h' = h\<lparr>hub_heap := (hub_heap h)(storage_loc (ls_data ls) :=
      set_buffer_bytes (hub_heap h (storage_loc (ls_data ls))) data)\<rparr>"
    using assms by (auto simp: write_lease_def Let_def split: if_splits)
  then show ?thesis
    by (intro frame_rel_same_live) (auto simp: live_frames_def retained_def)
qed

lemma frame_rel_drop_lease:
  assumes "drop_lease k h = Ok h'"
  shows "frame_rel h h'"
  using assms by (intro frame_rel_same_live)
    (auto simp: drop_lease_def Let_def set_slots_def live_frames_def split: option.splits if_splits)

lemma frame_rel_commit_lease: "frame_rel h (commit_lease k h)"
  by (intro frame_rel_same_live) (auto simp: commit_lease_def live_frames_def split: option.splits)

lemma frame_rel_configure: "frame_rel h (fst (configure r h))"
  by (intro frame_rel_same_live)
    (auto simp: configure_def Let_def set_slots_def live_frames_def)

lemma key_less_irrefl: "\<not> key_less k k"
  by (simp add: key_less_def)

lemma commit_live:
  assumes "inv_receivers h" "epoch_active (pub_session p) h"
    and "g \<in> set (live_frames (fst (commit_publication t p st h)))"
  shows "g = make_frame t p st h \<or> g \<in> set (live_frames h)"
proof -
  let ?f = "make_frame t p st h"
  from commit_publication_active [OF assms(1,2), of t st] obtain ids rs where
    h': "fst (commit_publication t p st h) = h\<lparr>hub_subscribers := ids, hub_receivers := rs,
         hub_state := (hub_state h)\<lparr>sn_latest := Some ?f\<rparr>\<rparr>"
    and rs: "\<And>j. list_at rs j =
      (if j \<in> set (hub_subscribers h)
       then map_option (\<lambda>r. fst (offer (hub_flags h) ?f r)) (list_at (hub_receivers h) j)
       else list_at (hub_receivers h) j)"
    by (metis fst_conv)
  from assms(3) show ?thesis
    unfolding h'
  proof (cases rule: live_framesE)
    case (queued i r)
    then obtain r0 where "list_at (hub_receivers h) i = Some r0"
      "r = r0 \<or> r = fst (offer (hub_flags h) ?f r0)"
      using rs [of i] by (auto split: if_splits)
    then show ?thesis
      using queued offer_queue_subset [of "hub_flags h" ?f r0] by (auto intro: live_framesI(2))
  qed (auto intro: live_framesI)
qed

lemma commit_state:
  "hub_heap (fst (commit_publication t p st h)) = hub_heap h"
  "epoch_active (pub_session p) h \<Longrightarrow>
     hub_state (fst (commit_publication t p st h)) = (hub_state h)\<lparr>sn_latest := Some (make_frame t p st h)\<rparr>"
  by (auto simp: commit_publication_def Let_def split: prod.splits)

lemma frame_rel_commit_publication:
  assumes "hub_inv h"
  shows "frame_rel h (fst (commit_publication t p st h))"
proof (cases "epoch_active (pub_session p) h")
  case False
  then show ?thesis by (simp add: commit_publication_def frame_rel_refl)
next
  case True
  have inv: "inv_receivers h" "inv_session h" using assms by (simp_all add: hub_inv_def)
  note newer = next_key_after_past [OF inv(2) True, of _ t st]
  have "key_past ((hub_state h)\<lparr>sn_latest := Some (make_frame t p st h)\<rparr>) k"
    if "key_past (hub_state h) k" for k
    using newer [OF that] that True
    by (auto simp: key_past_def key_less_def make_frame_def next_sequence_def epoch_active_def
        split: option.splits)
  moreover have "f \<in> set (live_frames h)"
    if "f \<in> set (live_frames (fst (commit_publication t p st h)))" "key_past (hub_state h) (cf_key f)"
    for f
    using commit_live [OF inv(1) True that(1)] newer [OF that(2)] key_less_irrefl by auto
  ultimately show ?thesis
    unfolding frame_rel_def commit_state(1) commit_state(2) [OF True] by blast
qed

lemma simple_step_preserves:
  assumes "hub_inv h" "core h' = core h \<or> shrinks h h'"
  shows "hub_inv h' \<and> frame_rel h h'"
  using assms hub_inv_quiet frame_rel_core hub_inv_shrinks frame_rel_shrinks by blast

lemma hub_step_preserves:
  assumes "hub_inv h" "hub_step h h'"
  shows "hub_inv h' \<and> frame_rel h h'"
  using assms(2)
proof cases
  case (Configure r)
  then show ?thesis using hub_inv_configure [OF assms(1)] frame_rel_configure by simp
next
  case (Reserve layout rgb now session)
  then show ?thesis using hub_inv_reserve [OF assms(1)] by simp
next
  case (Write k data)
  then show ?thesis using hub_inv_write_lease [OF assms(1)] frame_rel_write_lease by simp
next
  case (Commit k ls p t)
  let ?h = "commit_lease k h"
  have inv: "hub_inv ?h" by (rule hub_inv_commit_lease [OF assms(1)])
  have "list_at (hub_leases ?h) k = Some (ls\<lparr>ls_committed := True\<rparr>)"
    using Commit list_at_length [OF Commit(2)] by (simp add: commit_lease_def list_at_update)
  from hub_inv_commit_publication [OF inv this, of p t] Commit(1,3)
  have "hub_inv h'" by simp
  moreover have "frame_rel h h'"
    unfolding Commit(1)
    by (rule frame_rel_trans [OF frame_rel_commit_lease frame_rel_commit_publication [OF inv]])
  ultimately show ?thesis by simp
next
  case (Drop_Lease k)
  then show ?thesis using hub_inv_drop_lease [OF assms(1)] frame_rel_drop_lease by simp
qed (rule simple_step_preserves [OF assms(1)]; use assms(1) in \<open>simp add: quiet_ops
    shrinks_clear_queues shrinks_start_snapshot shrinks_other_session shrinks_deactivate
    shrinks_subscribe_with shrinks_with_stop_flag shrinks_receiver_next shrinks_drop_receiver
    shrinks_release_frame shrinks_hold_latest\<close>)+

lemma hub_inv_new: "1 \<le> n \<Longrightarrow> hub_inv (hub_new n c)"
  by (simp add: hub_inv_defs hub_new_def snapshot_default_def list_at_def live_frames_def
      receiver_frames_def owns_def slots_bytes_def memory_budget_default_def)

text \<open>Every buffer a live frame retains is accounted for: a slot of the pool or a lease holds it.\<close>

definition inv_owned :: "hub \<Rightarrow> bool" where
  "inv_owned h \<longleftrightarrow> (\<forall>f \<in> set (live_frames h). \<exists>i. owns h i (cf_storage f))"

definition hub_safe :: "hub \<Rightarrow> bool" where
  "hub_safe h \<longleftrightarrow> hub_inv h \<and> inv_owned h"

lemma live_retained: "f \<in> set (live_frames h) \<Longrightarrow> retained h (cf_storage f)"
  by (auto simp: retained_def)

lemma inv_owned_step:
  assumes "inv_owned h" "keeps_owned h h'" "set (live_frames h') \<subseteq> set (live_frames h)"
  shows "inv_owned h'"
  using assms live_retained unfolding inv_owned_def keeps_owned_def by blast

lemma inv_owned_simple:
  assumes "inv_owned h" "core h' = core h \<or> shrinks h h'"
  shows "inv_owned h'"
  using assms(2)
proof
  assume c: "core h' = core h"
  show ?thesis
    by (rule inv_owned_step [OF assms(1) keeps_owned_core [OF c]]) (simp add: core_live [OF c])
next
  assume s: "shrinks h h'"
  have "owns h' = owns h" using s by (intro ext) (simp add: owns_def shrinks_def)
  then show ?thesis
    using s by (intro inv_owned_step [OF assms(1)]) (auto simp: keeps_owned_def shrinks_def)
qed

lemma inv_owned_configure:
  assumes inv: "hub_inv h" and o: "inv_owned h"
  shows "inv_owned (fst (configure r h))"
proof (cases "is_streaming h
    \<or> list_ex (\<lambda>s. slot_data s = None \<and> slot_bytes s > 0) (pool_slots (hub_pool h))")
  case True
  with o show ?thesis by (auto simp: configure_def)
next
  case False
  let ?slots = "pool_slots (hub_pool h)"
  let ?kept = "filter (\<lambda>s. case slot_data s of None \<Rightarrow> True | Some d \<Rightarrow> \<not> unique h d) ?slots"
  have slots: "pool_slots (hub_pool (fst (configure r h))) = ?kept"
    using False by (simp add: configure_def Let_def set_slots_def)
  have data: "slot_data s \<noteq> None" if "s \<in> set ?slots" for s
    using that inv False by (auto simp: hub_inv_def inv_budget_def list_ex_iff)
  have live: "live_frames (fst (configure r h)) = live_frames h"
    by (simp add: live_frames_def configure_def Let_def set_slots_def)
  have "\<exists>i. owns (fst (configure r h)) i (cf_storage f)" if f: "f \<in> set (live_frames h)" for f
  proof -
    obtain i where "owns h i (cf_storage f)" using o f unfolding inv_owned_def by blast
    then have i: "i < length ?slots" "slot_data (?slots ! i) = Some (cf_storage f)"
      using inv_lease(1,2) [OF inv] data by (auto simp: owns_def dest: nth_mem)
    with f have "?slots ! i \<in> set ?kept" by (simp add: unique_def live_retained)
    then obtain j where "j < length ?kept" "?kept ! j = ?slots ! i" by (auto simp only: in_set_conv_nth)
    with i(2) have "owns (fst (configure r h)) j (cf_storage f)" by (simp add: owns_def slots)
    then show ?thesis ..
  qed
  then show ?thesis by (simp add: inv_owned_def live)
qed

lemma keeps_owned_drop_lease:
  assumes inv: "hub_inv h" and d: "drop_lease k h = Ok h'"
  shows "keeps_owned h h'"
proof (rule keeps_owned_mono)
  fix i st
  assume o: "owns h i st"
  from d obtain ls where k: "list_at (hub_leases h) k = Some ls"
    and h': "h' = (set_slots ((pool_slots (hub_pool h))[ls_index ls :=
        (pool_slots (hub_pool h) ! ls_index ls)\<lparr>slot_data := Some (ls_data ls)\<rparr>]) h)
      \<lparr>hub_leases := (hub_leases h)[k := None]\<rparr>"
    by (auto simp: drop_lease_def Let_def split: option.splits if_splits)
  from o have i: "i < length (pool_slots (hub_pool h))" by (simp add: owns_def)
  from o [unfolded owns_def] show "owns h' i st"
  proof (elim disjE exE conjE)
    assume "slot_data (pool_slots (hub_pool h) ! i) = Some st"
    moreover from this have "ls_index ls \<noteq> i" using inv_lease(2) [OF inv k] by auto
    ultimately show ?thesis using i by (simp add: owns_def h' set_slots_def)
  next
    fix j ls'
    assume j: "list_at (hub_leases h) j = Some ls'" "ls_index ls' = i" "ls_data ls' = st"
    show ?thesis
    proof (cases "j = k")
      case True
      with j k i show ?thesis by (simp add: owns_def h' set_slots_def)
    next
      case False
      with j have "list_at (hub_leases h') j = Some ls'" by (simp add: h' list_at_update)
      moreover have "i < length (pool_slots (hub_pool h'))" using i by (simp add: h' set_slots_def)
      ultimately show ?thesis using j(2,3) unfolding owns_def by blast
    qed
  qed
qed

lemma owns_commit_publication: "owns (fst (commit_publication t p st h)) = owns h"
  by (intro ext) (auto simp: owns_def commit_publication_def Let_def split: prod.split)

lemma owns_commit_lease: "owns h i d \<Longrightarrow> owns (commit_lease k h) i d"
proof -
  assume o: "owns h i d"
  have "\<exists>ls'. list_at (hub_leases (commit_lease k h)) j = Some ls'
      \<and> ls_index ls' = ls_index ls \<and> ls_data ls' = ls_data ls"
    if "list_at (hub_leases h) j = Some ls" for j ls
    using that list_at_length [OF that]
    by (auto simp: commit_lease_def list_at_update split: option.split)
  moreover have "hub_pool (commit_lease k h) = hub_pool h"
    by (simp add: commit_lease_def split: option.split)
  ultimately show ?thesis using o unfolding owns_def by metis
qed

lemma live_commit_lease: "live_frames (commit_lease k h) = live_frames h"
  by (simp add: commit_lease_def live_frames_def split: option.split)

lemma inv_owned_commit:
  assumes inv: "hub_inv h" and o: "inv_owned h" and k: "list_at (hub_leases h) k = Some ls"
  shows "inv_owned (fst (commit_publication t p (ls_data ls) (commit_lease k h)))"
    (is "inv_owned ?h'")
  unfolding inv_owned_def owns_commit_publication
proof
  let ?h = "commit_lease k h"
  have lease: "\<exists>i. owns ?h i (ls_data ls)"
    using k inv_lease(1) [OF inv k] owns_commit_lease by (metis owns_def)
  have old: "\<exists>i. owns ?h i (cf_storage f)" if "f \<in> set (live_frames ?h)" for f
    using that o owns_commit_lease unfolding inv_owned_def live_commit_lease by blast
  fix f
  assume f: "f \<in> set (live_frames ?h')"
  have "inv_receivers ?h" using hub_inv_commit_lease [OF inv] by (simp add: hub_inv_def)
  then have "f = make_frame t p (ls_data ls) ?h \<or> f \<in> set (live_frames ?h)"
    using commit_live [OF _ _ f] f
    by (cases "epoch_active (pub_session p) ?h") (auto simp: commit_publication_def)
  then show "\<exists>i. owns ?h i (cf_storage f)"
    using lease old by (auto simp: make_frame_def)
qed

lemma live_pool:
  "live_frames (pool_receive now h) = live_frames h" "live_frames (pool_drop h) = live_frames h"
  "live_frames (set_slots slots h) = live_frames h"
  by (rule core_live [OF core_pool_receive], rule core_live [OF core_pool_drop])
    (simp add: set_slots_def live_frames_def)

lemma live_storage:
  "new_rgb layout h = (h', st) \<Longrightarrow> live_frames h' = live_frames h"
  "new_bytes len h = (h', st) \<Longrightarrow> live_frames h' = live_frames h"
  by (auto simp: new_rgb_def new_bytes_def allocate_def live_frames_def)

lemma live_prepare_storage:
  "prepare_storage layout rgb len existing h = (h', st) \<Longrightarrow> live_frames h' = live_frames h"
  by (auto simp: prepare_storage_def live_storage split: option.splits storage.splits if_splits)
    (simp_all add: live_frames_def)

lemma live_reserve: "live_frames (fst (reserve now session layout rgb h)) = live_frames h"
  by (auto simp: reserve_def Let_def live_pool split: result.split option.split prod.split
      dest!: live_prepare_storage live_storage(2)) (simp add: live_frames_def set_slots_def)

lemma hub_step_owned:
  assumes "hub_inv h" "inv_owned h" "hub_step h h'"
  shows "inv_owned h'"
  using assms(3)
proof cases
  case (Configure r)
  then show ?thesis using inv_owned_configure [OF assms(1,2)] by simp
next
  case (Reserve layout rgb now session)
  have "live_frames h' = live_frames h"
    unfolding Reserve(1) by (rule live_reserve)
  with Reserve show ?thesis
    using hub_inv_reserve [OF assms(1)] by (intro inv_owned_step [OF assms(2)]) simp_all
next
  case (Write k data)
  then obtain heap where h': "h' = h\<lparr>hub_heap := heap\<rparr>"
    by (auto simp: write_lease_def Let_def split: option.splits if_splits)
  have "live_frames h' = live_frames h" "owns h' = owns h"
    by (simp_all add: h' live_frames_def owns_def fun_eq_iff)
  then show ?thesis by (intro inv_owned_step [OF assms(2)]) (simp_all add: keeps_owned_def)
next
  case (Commit k ls p t)
  then show ?thesis using inv_owned_commit [OF assms(1,2)] by simp
next
  case (Drop_Lease k)
  then have "live_frames h' = live_frames h"
    by (auto simp: drop_lease_def live_frames_def set_slots_def Let_def split: option.splits if_splits)
  with Drop_Lease keeps_owned_drop_lease [OF assms(1)] show ?thesis
    by (intro inv_owned_step [OF assms(2)]) simp_all
qed (rule inv_owned_simple [OF assms(2)]; use assms(1) in \<open>simp add: quiet_ops
    shrinks_clear_queues shrinks_start_snapshot shrinks_other_session shrinks_deactivate
    shrinks_subscribe_with shrinks_with_stop_flag shrinks_receiver_next shrinks_drop_receiver
    shrinks_release_frame shrinks_hold_latest\<close>)+

lemma inv_owned_new: "inv_owned (hub_new n c)"
  by (simp add: inv_owned_def live_frames_def hub_new_def receiver_frames_def
      snapshot_default_def)

interpretation hub_machine: inductive_invariant hub_start_state hub_step hub_safe
  by unfold_locales
    (use hub_inv_new inv_owned_new hub_step_preserves hub_step_owned in
      \<open>auto simp: hub_start_state_def hub_safe_def\<close>)

end
