(* ===== verification/Hub_Producers.thy ===== *)
theory Hub_Producers
  imports Hub_Machine
begin

text \<open>
  The producers' entry points of the hub, \<open>publish_rgb\<close>, \<open>publish_native_into\<close>,
  \<open>publish_native\<close> and the native write lease: each is a sequence of steps of the machine, never
  panics, and shows exactly the bytes that were converted.
\<close>

section \<open>Reservations\<close>

lemma frame_length_not_Panic: "frame_length layout rgb \<noteq> Panic"
  by (simp add: frame_length_def Let_def split: option.split)

lemma reserve_not_Panic: "snd (reserve now session layout rgb h) \<noteq> Panic"
  using frame_length_not_Panic
  by (auto simp: reserve_def Let_def split: result.split option.split prod.split)

lemma state_pool:
  "hub_state (pool_receive now h) = hub_state h" "hub_state (pool_drop h) = hub_state h"
  "hub_state (set_slots slots h) = hub_state h"
  by (simp_all add: pool_receive_def pool_drop_def report_resource_pressure_def set_slots_def Let_def
      split: option.split)

lemma state_storage:
  "new_rgb layout h = (h', st) \<Longrightarrow> hub_state h' = hub_state h"
  "new_bytes len h = (h', st) \<Longrightarrow> hub_state h' = hub_state h"
  "prepare_storage layout rgb len existing h = (h', st) \<Longrightarrow> hub_state h' = hub_state h"
  by (auto simp: prepare_storage_def new_rgb_def new_bytes_def allocate_def
      split: option.splits storage.splits if_splits)

lemma state_reserve: "hub_state (fst (reserve now session layout rgb h)) = hub_state h"
  by (auto simp: reserve_def Let_def state_pool split: result.split option.split prod.split
      dest!: state_storage(2,3))

lemma reserve_Some:
  assumes inv: "hub_inv h" and r: "reserve now session layout rgb h = (h1, Ok (Some lid))"
  obtains ls len where "list_at (hub_leases h1) lid = Some ls" "ls_session ls = session"
    "ls_layout ls = layout" "\<not> ls_committed ls" "frame_length layout rgb = Ok len"
    "length (lease_bytes h1 ls) = len" "hub_state h1 = hub_state h" "epoch_active session h"
proof -
  from r have active: "epoch_active session h" by (auto simp: reserve_def split: if_splits)
  with r obtain len where len: "frame_length layout rgb = Ok len"
    by (auto simp: reserve_def split: result.splits)
  let ?h = "pool_receive now h"
  have inv': "hub_inv ?h" by (rule hub_inv_quiet [OF core_pool_receive inv])
  from r active len obtain slots i where p: "pick_slot ?h = Some (slots, i)"
    by (auto simp: reserve_def Let_def split: option.splits)
  note pick = pick_slot_Some [OF inv' p]
  obtain h' st where prep: "prepare_storage layout rgb len (slot_data (slots ! i)) ?h = (h', st)"
    by fastforce
  have existing: "slot_data (slots ! i) = None
    \<or> (\<exists>d. slot_data (slots ! i) = Some d \<and> owns ?h i d \<and> \<not> retained ?h d)"
    using pick by (auto simp: owns_def)
  note prepared = prepare_storage_prepared [OF inv' len existing prep]
  have h': "hub_leases h' = hub_leases h" "hub_state h' = hub_state h"
  proof -
    have "h' = ?h\<lparr>hub_heap := hub_heap h', hub_next_location := hub_next_location h'\<rparr>"
      using prepared unfolding prepared_def by blast
    then obtain H N where "h' = ?h\<lparr>hub_heap := H, hub_next_location := N\<rparr>" by blast
    then show "hub_leases h' = hub_leases h" "hub_state h' = hub_state h"
      by (simp_all add: pool_receive_def Let_def)
  qed
  let ?ls = "\<lparr>ls_index = i, ls_data = st, ls_session = session, ls_layout = layout, ls_committed = False\<rparr>"
  from r active len p prep have
    "h1 = (set_slots (slots[i := \<lparr>slot_data = None, slot_bytes = storage_allocated h' len st\<rparr>]) h')
       \<lparr>hub_leases := hub_leases h' @ [Some ?ls]\<rparr>" "lid = length (hub_leases h')"
    by (auto simp: reserve_def Let_def new_bytes_def allocate_def split: if_splits)
  then have "list_at (hub_leases h1) lid = Some ?ls" "hub_state h1 = hub_state h" "hub_heap h1 = hub_heap h'"
    by (simp_all add: list_at_append set_slots_def h')
  with prepared active len show thesis
    by (intro that [of ?ls len]) (simp_all add: lease_bytes_def prepared_def)
qed

lemma commit_lease_fields [simp]:
  "hub_heap (commit_lease k h) = hub_heap h" "hub_state (commit_lease k h) = hub_state h"
  "hub_pool (commit_lease k h) = hub_pool h"
  by (simp_all add: commit_lease_def split: option.split)

lemma finish_publish_fields:
  assumes "finish_publish t p st h = (h1, b)"
  shows "hub_heap h1 = hub_heap h" "hub_leases h1 = hub_leases h"
    "pool_slots (hub_pool h1) = pool_slots (hub_pool h)" "b = epoch_active (pub_session p) h"
    "b \<Longrightarrow> sn_latest (hub_state h1) = Some (make_frame t p st h)" "\<not> b \<Longrightarrow> h1 = h"
  using assms
  by (auto simp: finish_publish_def commit_publication_def account_publication_def Let_def
      split: prod.splits if_splits)

lemma drop_lease_fields:
  assumes "drop_lease k h = Ok h'"
  shows "hub_heap h' = hub_heap h" "hub_state h' = hub_state h" "live_frames h' = live_frames h"
  using assms
  by (auto simp: drop_lease_def set_slots_def live_frames_def Let_def split: option.splits if_splits)

lemma commit_drop:
  assumes inv: "hub_inv h" and k: "list_at (hub_leases h) k = Some ls" and l: "pub_layout p = ls_layout ls"
    and f: "finish_publish t p (ls_data ls) (commit_lease k h) = (h1, b)"
  obtains h2 where "drop_lease k h1 = Ok h2" "hub_step\<^sup>*\<^sup>* h h2" "hub_heap h2 = hub_heap h"
    "b = epoch_active (pub_session p) h"
    "b \<Longrightarrow> sn_latest (hub_state h2) = Some (make_frame t p (ls_data ls) h)"
    "\<not> b \<Longrightarrow> live_frames h2 = live_frames h \<and> hub_state h2 = hub_state h"
proof -
  note fields = finish_publish_fields [OF f]
  let ?c = "fst (commit_publication t p (ls_data ls) (commit_lease k h))"
  have step: "hub_step h ?c" by (rule hub_step.Commit [of h k ls p t, OF k l])
  have "hub_step ?c h1 \<or> h1 = ?c"
    using f by (auto simp: finish_publish_def split: prod.splits if_splits intro: hub_step.Account)
  with step have steps: "hub_step\<^sup>*\<^sup>* h h1" by auto
  have "list_at (hub_leases (commit_lease k h)) k = Some (ls\<lparr>ls_committed := True\<rparr>)"
    using k list_at_length [OF k] by (simp add: commit_lease_def list_at_update)
  then have "\<exists>h2. drop_lease k h1 = Ok h2"
    using inv_lease(1) [OF inv k] fields(2,3) by (simp add: drop_lease_def Let_def)
  then obtain h2 where h2: "drop_lease k h1 = Ok h2" by blast
  have active: "epoch_active s (commit_lease k h) = epoch_active s h" for s
    by (simp add: epoch_active_def)
  have "make_frame t p st (commit_lease k h) = make_frame t p st h" for st
    by (simp add: make_frame_def next_sequence_def)
  with that [OF h2] steps h2 fields drop_lease_fields [OF h2] show thesis
    by (simp add: active live_commit_lease) (meson hub_step.Drop_Lease rtranclp.rtrancl_into_rtrancl)
qed

text \<open>What a conversion closure may do: fill the slice it is given, or fail.\<close>

definition converts :: "frame_layout \<Rightarrow> bool \<Rightarrow> (u8 list \<Rightarrow> u8 list \<times> unit camera_result) \<Rightarrow> bool" where
  "converts layout rgb convert \<longleftrightarrow>
     (\<forall>d. frame_length layout rgb = Ok (length d) \<longrightarrow>
        length (fst (convert d)) = length d \<and> snd (convert d) \<noteq> Panic)"

text \<open>How the hub \<open>h'\<close> and the answer \<open>r\<close> of a publication into \<open>session\<close> follow from \<open>h\<close>.\<close>

definition published :: "nat \<Rightarrow> frame_layout \<Rightarrow> bool \<Rightarrow> (u8 list \<Rightarrow> u8 list \<times> unit camera_result) \<Rightarrow>
    hub \<Rightarrow> hub \<Rightarrow> bool camera_result \<Rightarrow> bool" where
  "published session layout rgb convert h h' r \<longleftrightarrow>
     hub_step\<^sup>*\<^sup>* h h' \<and> r \<noteq> Panic
     \<and> (if r = Ok True
        then epoch_active session h
          \<and> (\<exists>f d. sn_latest (hub_state h') = Some f \<and> cf_layout f = layout
               \<and> cf_key f = \<lparr>fk_session = session, fk_sequence = next_sequence h\<rparr>
               \<and> frame_length layout rgb = Ok (length d)
               \<and> convert d = (frame_bytes (hub_heap h') f, Ok ()))
        else live_frames h' = live_frames h \<and> hub_session h' = hub_session h)
     \<and> (\<not> epoch_active session h \<longrightarrow> h' = h \<and> r = Ok False)"

lemma publish_result:
  assumes inv: "hub_inv h" and pub: "publishable layout rgb" and conv: "converts layout rgb convert"
    and p: "publish now failed_at t elapsed session layout timestamp sequence rgb convert h = (h', r)"
  shows "published session layout rgb convert h h' r
    \<and> ((\<exists>h1 lid. reserve now session layout rgb h = (h1, Ok (Some lid))) \<longrightarrow>
       (\<forall>d. snd (convert d) = Ok ()) \<longrightarrow> r = Ok True)"
proof (cases "reserve now session layout rgb h")
  case (Pair h1 res)
  have step1: "hub_step h h1" using hub_step.Reserve [OF pub, of h now session] Pair by simp
  have inv1: "hub_inv h1" using hub_inv_reserve [OF inv pub, of now session] Pair by simp
  have live1: "live_frames h1 = live_frames h" using live_reserve [of now session layout rgb h] Pair by simp
  have state1: "hub_state h1 = hub_state h"
    using state_reserve [of now session layout rgb h] Pair by simp
  show ?thesis
  proof (cases "\<exists>lid. res = Ok (Some lid)")
    case False
    have "res \<noteq> Panic" using reserve_not_Panic [of now session layout rgb h] Pair by simp
    with False p Pair have "h' = h1" "r = Ok False \<or> (\<exists>e. r = Err e)"
      by (auto simp: publish_def split: result.splits option.splits)
    moreover have "h1 = h \<and> r = Ok False" if "\<not> epoch_active session h"
      using that Pair p by (auto simp: reserve_def publish_def)
    ultimately show ?thesis
      using step1 live1 state1 Pair False by (auto simp: published_def hub_session_def)
  next
    case True
    then obtain lid where res: "res = Ok (Some lid)" by blast
    obtain ls len where ls: "list_at (hub_leases h1) lid = Some ls" "ls_session ls = session"
      "ls_layout ls = layout" "\<not> ls_committed ls" "frame_length layout rgb = Ok len"
      "length (lease_bytes h1 ls) = len" "hub_state h1 = hub_state h" "epoch_active session h"
      using reserve_Some [OF inv Pair [unfolded res]] .
    obtain data result where c: "convert (lease_bytes h1 ls) = (data, result)" by fastforce
    with conv ls(5,6) have data: "length data = length (lease_bytes h1 ls)" "result \<noteq> Panic"
      unfolding converts_def by (metis fst_conv, metis snd_conv)
    have free: "\<not> retained h1 (ls_data ls)" using inv_lease(6) [OF inv1 ls(1)] ls(4) by blast
    then obtain h2 where h2: "write_lease lid data h1 = Ok h2"
      "h2 = h1\<lparr>hub_heap := (hub_heap h1)(storage_loc (ls_data ls) :=
        set_buffer_bytes (hub_heap h1 (storage_loc (ls_data ls))) data)\<rparr>"
      using ls(1) data(1) by (simp add: write_lease_def Let_def)
    have inv2: "hub_inv h2" by (rule hub_inv_write_lease [OF inv1 h2(1)])
    have steps2: "hub_step\<^sup>*\<^sup>* h h2" using step1 hub_step.Write [OF h2(1)] by auto
    have ls2: "list_at (hub_leases h2) lid = Some ls" "live_frames h2 = live_frames h"
      "hub_state h2 = hub_state h" "lease_bytes h2 ls = data"
      using ls(1,7) live1 by (simp_all add: h2(2) live_frames_def lease_bytes_def)
    show ?thesis
    proof (cases result)
      case Panic
      with data show ?thesis by simp
    next
      case (Err e)
      let ?h3 = "record_conversion_error failed_at session False h2"
      have inv3: "hub_inv ?h3" by (rule hub_inv_quiet [OF core_record_conversion_error inv2])
      have "core ?h3 = core h2" by (rule core_record_conversion_error)
      then have h3: "hub_leases ?h3 = hub_leases h2" "live_frames ?h3 = live_frames h2"
        "hub_session ?h3 = hub_session h2"
        using core_live [of ?h3 h2] by (simp_all add: core_eq_iff hub_session_def)
      obtain h4 where h4: "drop_lease lid ?h3 = Ok h4"
        using drop_lease_Ok [OF inv3] ls2(1) h3(1) by metis
      then have "h' = h4" "r = Err e" using p Pair res ls c h2 Err by (simp_all add: publish_def)
      moreover have "hub_step\<^sup>*\<^sup>* h h4"
        using steps2 hub_step.Record_Error [of h2 failed_at session False] hub_step.Drop_Lease [OF h4] by auto
      moreover have "live_frames h4 = live_frames h" "hub_session h4 = hub_session h"
        using drop_lease_fields [OF h4] h3 ls2 by (simp_all add: hub_session_def)
      moreover have "\<not> (\<forall>d. snd (convert d) = Ok ())" using c Err by (metis snd_conv result.distinct(1))
      ultimately show ?thesis using ls(8) by (simp add: published_def)
    next
      case (Ok u)
      let ?p = "\<lparr>pub_session = session, pub_layout = layout, pub_timestamp = timestamp,
        pub_source_sequence = sequence, pub_captured_at = now, pub_elapsed = elapsed\<rparr>"
      obtain h3 b where f: "finish_publish t ?p (ls_data ls) (commit_lease lid h2) = (h3, b)"
        by fastforce
      obtain h4 where h4: "drop_lease lid h3 = Ok h4" "hub_step\<^sup>*\<^sup>* h2 h4" "hub_heap h4 = hub_heap h2"
        "b = epoch_active session h2"
        "b \<Longrightarrow> sn_latest (hub_state h4) = Some (make_frame t ?p (ls_data ls) h2)"
        using commit_drop [OF inv2 ls2(1) _ f] ls(3) by auto
      have "h' = h4" "r = Ok b" using p Pair res ls c h2 f h4 Ok by (simp_all add: publish_def)
      moreover have b: "b" using h4(4) ls(8) ls2(3) by (simp add: epoch_active_def)
      moreover have "frame_bytes (hub_heap h4) (make_frame t ?p (ls_data ls) h2) = data"
        using ls2(4) h4(3) by (simp add: frame_bytes_def make_frame_def lease_bytes_def)
      moreover have "next_sequence h2 = next_sequence h" using ls2(3) by (simp add: next_sequence_def)
      ultimately show ?thesis
        using h4(2) h4(5) [OF b] steps2 ls(5,6,8) c Ok
        by (auto simp: published_def make_frame_def intro!: exI [of _ "lease_bytes h1 ls"])
    qed
  qed
qed

lemmas publish_published = publish_result [THEN conjunct1]

text \<open>A reservation succeeds when a slot is unique or the pool may grow, and the bytes fit.\<close>

lemma reserve_progress:
  assumes inv: "hub_inv h" and active: "epoch_active session h"
    and len: "frame_length layout rgb = Ok len"
    and slot: "list_ex (slot_unique h) (pool_slots (hub_pool h))
      \<or> length (pool_slots (hub_pool h)) < mb_buffers (pool_budget (hub_pool h))"
    and fits: "slots_bytes (pool_slots (hub_pool h)) + len \<le> mb_bytes (pool_budget (hub_pool h))"
  shows "\<exists>h1 lid. reserve now session layout rgb h = (h1, Ok (Some lid))"
proof -
  let ?h = "pool_receive now h"
  have inv': "hub_inv ?h" by (rule hub_inv_quiet [OF core_pool_receive inv])
  have pool: "pool_slots (hub_pool ?h) = pool_slots (hub_pool h)"
    "pool_budget (hub_pool ?h) = pool_budget (hub_pool h)"
    using core_pool_receive [of now h] by (simp_all add: core_eq_iff)
  have "retained ?h = retained h" by (intro ext) (simp add: retained_def live_pool)
  then have unique: "slot_unique ?h = slot_unique h"
    by (intro ext) (simp add: slot_unique_def unique_def split: option.split)
  have "pick_slot ?h \<noteq> None"
  proof (cases "position (slot_unique h) (pool_slots (hub_pool h))")
    case None
    then have "\<not> list_ex (slot_unique h) (pool_slots (hub_pool h))"
      by (simp add: position_eq_None list_ex_iff)
    with slot None show ?thesis by (simp add: pick_slot_def pool unique Let_def)
  qed (simp add: pick_slot_def pool unique Let_def)
  then obtain slots i where p: "pick_slot ?h = Some (slots, i)" by auto
  note pick = pick_slot_Some [OF inv' p]
  have i: "i < length slots" using pick by auto
  have sum: "slots_bytes slots = slots_bytes (pool_slots (hub_pool h))"
    using pick by (auto simp: slots_bytes_def pool)
  have "slot_bytes (slots ! i) \<le> slots_bytes slots"
    using i by (auto simp: slots_bytes_def intro!: elem_le_sum_list [of i "map slot_bytes slots", simplified])
  then have available: "len \<le> mb_bytes (pool_budget (hub_pool ?h)) - (slots_bytes slots - slot_bytes (slots ! i))"
    "slot_bytes (slots ! i) \<le> mb_bytes (pool_budget (hub_pool ?h)) - (slots_bytes slots - slot_bytes (slots ! i))"
    using fits sum pool(2) by simp_all
  obtain h' st where prep: "prepare_storage layout rgb len (slot_data (slots ! i)) ?h = (h', st)"
    by fastforce
  have existing: "slot_data (slots ! i) = None
    \<or> (\<exists>d. slot_data (slots ! i) = Some d \<and> owns ?h i d \<and> \<not> retained ?h d)"
    using pick by (auto simp: owns_def)
  have "storage_allocated h' len st \<le> mb_bytes (pool_budget (hub_pool ?h)) - (slots_bytes slots - slot_bytes (slots ! i))"
    using prepare_storage_prepared [OF inv' len existing prep] available pick by auto
  with available active len p prep show ?thesis
    by (simp add: reserve_def Let_def)
qed

lemma publishable_rgb: "publishable (rgb_layout w h) True"
proof (cases "frame_length (rgb_layout w h) True")
  case (Ok len)
  note len = frame_length_Ok(1,3) [OF Ok] frame_length_Ok(4) [OF Ok]
  have wh: "len = unat h * unat w * 3" "0 < unat w" "0 < unat h"
    using len by (auto simp: rgb_layout_def intro: Nat.gr0I)
  have "unat w * 3 * 1 \<le> unat w * 3 * unat h"
    by (rule mult_le_mono2) (use wh(3) in simp)
  moreover have len': "len = unat w * unat h * 3" using wh(1) by (simp add: mult.commute)
  ultimately have bounds: "unat w * 3 \<le> len" "unat w * unat h \<le> len" "len < usize_bound"
    using len(2) by auto
  then have "unat w * 3 < usize_bound" "unat w * unat h < usize_bound" by linarith+
  then have "checked_mul (unat w) (unat h) = Some (unat w * unat h)"
    "checked_mul (unat w * unat h) 3 = Some len" "checked_mul (unat w) 3 = Some (unat w * 3)"
    using len' bounds(3) by (simp_all add: checked_simps)
  then have planes: "fl_planes (rgb_layout w h) =
      [\<lparr>pl_offset = 0, pl_length = len, pl_row_stride = unat w * 3, pl_pixel_stride = 3\<rparr>]"
    by (simp add: rgb_layout_def)
  have "plane_fits Rgb8 len (fl_planes (rgb_layout w h) ! 0) (unat w, unat h, 3)"
  proof -
    obtain a b where ab: "unat w = Suc a" "unat h = Suc b" using wh by (metis gr0_implies_Suc)
    show ?thesis using len(1) by (simp add: planes plane_fits_def wh(1) ab is_packed_422_def algebra_simps)
  qed
  then have "layout_validate (rgb_layout w h) len = Ok ()"
    using wh planes validate_plane_Ok [OF bounds(3), of Rgb8 "fl_planes (rgb_layout w h) ! 0" "(unat w, unat h, 3)"]
    by (auto simp: layout_validate_def rgb_layout_def orientation_default_def)
  with Ok show ?thesis by (simp add: publishable_def)
qed (simp_all add: publishable_def)

lemma max_list_frame_length:
  assumes "frame_length layout False = Ok len"
    and "\<And>p. p \<in> set (fl_planes layout) \<Longrightarrow> checked_add (pl_offset p) (pl_length p) = Some (e p)"
  shows "len = Max (e ` set (fl_planes layout)) \<and> fl_planes layout \<noteq> []"
proof -
  have "List.map_filter (\<lambda>p. checked_add (pl_offset p) (pl_length p)) (fl_planes layout)
      = map e (fl_planes layout)"
    using assms(2) by (simp add: List.map_filter_def filter_id_conv)
  with assms(1) show ?thesis
    by (auto simp: frame_length_def max_list_def split: if_splits)
qed

lemma try_fold_extent_Some:
  assumes "try_fold_extent ps n = Some m"
  shows "(\<forall>p \<in> set ps. checked_add (pl_offset p) (pl_length p) = Some (pl_offset p + pl_length p))
    \<and> m = Max (insert n ((\<lambda>p. pl_offset p + pl_length p) ` set ps))"
  using assms
proof (induction ps arbitrary: n)
  case (Cons p ps)
  then obtain stop where stop: "checked_add (pl_offset p) (pl_length p) = Some stop"
    "try_fold_extent ps (max n stop) = Some m"
    by (auto split: option.splits)
  from Cons.IH [OF this(2)] stop(1) show ?case
    by (cases "ps = []") (auto simp: checked_simps max.assoc max.left_commute)
qed simp

lemma publishable_native_into:
  assumes "try_fold_extent (fl_planes layout) 0 = Some len" "layout_validate layout len = Ok ()"
  shows "publishable layout False"
proof (cases "frame_length layout False")
  case (Ok n)
  note fold = try_fold_extent_Some [OF assms(1)]
  have "n = Max ((\<lambda>p. pl_offset p + pl_length p) ` set (fl_planes layout)) \<and> fl_planes layout \<noteq> []"
    by (rule max_list_frame_length [OF Ok]) (use fold in blast)
  with fold have "n = len" by simp
  with Ok assms(2) show ?thesis by (simp add: publishable_def)
qed (simp_all add: publishable_def)

text \<open>A layout that validates against a length describes planes that end within it.\<close>

lemma layout_validate_ends:
  assumes "layout_validate layout len = Ok ()" "p \<in> set (fl_planes layout)"
  shows "checked_add (pl_offset p) (pl_length p) = Some (pl_offset p + pl_length p)"
    and "pl_offset p + pl_length p \<le> len"
proof -
  from assms(1) obtain specs where s: "length (fl_planes layout) = length specs"
    "\<And>i. i < length specs \<Longrightarrow> validate_plane (fl_format layout) len (fl_planes layout ! i) (specs ! i) = Ok ()"
    using layout_validate_Ok by blast
  from assms(2) obtain i where i: "i < length (fl_planes layout)" "p = fl_planes layout ! i"
    by (auto simp: in_set_conv_nth)
  from s i have "validate_plane (fl_format layout) len p (specs ! i) = Ok ()" by simp
  then show "checked_add (pl_offset p) (pl_length p) = Some (pl_offset p + pl_length p)"
    "pl_offset p + pl_length p \<le> len"
    by (auto simp: validate_plane_def checked_simps split: prod.splits if_splits option.splits)
qed

lemma publishable_native:
  assumes "layout_validate layout len = Ok ()" "collect_results plane_end (fl_planes layout) = Ok ends"
    and "(case max_list ends of None \<Rightarrow> 0 | Some n \<Rightarrow> n) = len"
  shows "publishable layout False" and "frame_length layout False = Ok n \<Longrightarrow> n = len"
proof -
  note fits = layout_validate_ends [OF assms(1)]
  have "collect_results plane_end (fl_planes layout) = Ok (map (\<lambda>p. pl_offset p + pl_length p) (fl_planes layout))"
    by (rule collect_results_Ok_map) (simp add: plane_end_def fits(1) unwrap_def)
  with assms(2) have ends: "ends = map (\<lambda>p. pl_offset p + pl_length p) (fl_planes layout)" by simp
  show len: "n = len" if "frame_length layout False = Ok n" for n
  proof -
    have "n = Max ((\<lambda>p. pl_offset p + pl_length p) ` set (fl_planes layout)) \<and> fl_planes layout \<noteq> []"
      by (rule max_list_frame_length [OF that fits(1)])
    then show ?thesis using assms(3) by (simp add: ends max_list_def)
  qed
  then show "publishable layout False"
    using assms(1) by (cases "frame_length layout False") (auto simp: publishable_def)
qed

text \<open>The producer's entry points are safe whatever they are asked to publish.\<close>

lemma collect_plane_end_not_Panic:
  assumes "layout_validate layout len = Ok ()"
  shows "collect_results plane_end (fl_planes layout) \<noteq> Panic"
  by (rule collect_results_not_Panic) (simp add: plane_end_def layout_validate_ends(1) [OF assms] unwrap_def)

lemma publish_native_into_published:
  assumes inv: "hub_inv h" and conv: "converts layout False convert"
    and p: "publish_native_into now failed_at t elapsed session layout timestamp convert h = (h', r)"
  shows "h' = h \<and> (\<exists>e. r = Err e) \<or> published session layout False convert h h' r"
proof (cases "try_fold_extent (fl_planes layout) 0")
  case None
  with p show ?thesis by (auto simp: publish_native_into_def ok_or_def)
next
  case (Some len)
  show ?thesis
    using layout_validate_total [of layout len]
  proof
    assume v: "layout_validate layout len = Ok ()"
    from publish_published [OF inv publishable_native_into [OF Some v] conv] p Some v show ?thesis
      by (simp add: publish_native_into_def ok_or_def)
  qed (use p Some in \<open>auto simp: publish_native_into_def ok_or_def\<close>)
qed

lemma publish_native_published:
  assumes inv: "hub_inv h"
    and p: "publish_native now failed_at t elapsed session layout timestamp sequence parts h = (h', r)"
  shows "h' = h \<and> (\<exists>e. r = Err e)
    \<or> published session layout False (copy_parts parts) h h' r
      \<and> (\<forall>n. frame_length layout False = Ok n \<longrightarrow> n = length (concat parts))"
proof -
  have sum: "try_fold_add (map length ps) n = Some m \<Longrightarrow> m = n + length (concat ps)" for ps :: "u8 list list" and n m
    by (induction ps arbitrary: n) (fastforce simp: checked_simps split: option.splits)+
  let ?check = "and_then (ok_or (try_fold_add (map length parts) 0) (invalid_frame ''Native size overflow''))
             (\<lambda>len. and_then (layout_validate layout len) (\<lambda>_.
               and_then (collect_results plane_end (fl_planes layout)) (\<lambda>ends.
               if (case max_list ends of None \<Rightarrow> 0 | Some n \<Rightarrow> n) \<noteq> len
               then Err (invalid_frame ''Native payload contains undescribed trailing data'')
               else Ok ())))"
  show ?thesis
  proof (cases ?check)
    case (Err e)
    with p show ?thesis by (auto simp: publish_native_def)
  next
    case Panic
    then have "\<exists>len. layout_validate layout len = Panic
        \<or> layout_validate layout len = Ok () \<and> collect_results plane_end (fl_planes layout) = Panic"
      by (auto simp: ok_or_def and_then_eq_Panic split: option.splits if_splits)
    with collect_plane_end_not_Panic layout_validate_total [of layout] show ?thesis
      by (metis result.distinct(3) result.distinct(5))
  next
    case (Ok u)
    then obtain len ends where l: "try_fold_add (map length parts) 0 = Some len"
      "layout_validate layout len = Ok ()" "collect_results plane_end (fl_planes layout) = Ok ends"
      "(case max_list ends of None \<Rightarrow> 0 | Some n \<Rightarrow> n) = len"
      by (auto simp: result_simps ok_or_def split: if_splits option.splits)
    note pub = publishable_native [OF l(2-4)]
    have len: "len = length (concat parts)" using sum [OF l(1)] by simp
    have "converts layout False (copy_parts parts)"
      using pub(2) len by (auto simp: converts_def copy_parts_def Let_def)
    from publish_published [OF inv pub(1) this] p Ok pub(2) len show ?thesis
      by (simp add: publish_native_def)
  qed
qed

lemma publish_rgb_Ok_True:
  assumes "hub_inv h" "epoch_active session h" "converts (rgb_layout width height) True convert"
    and "\<And>d. snd (convert d) = Ok ()"
    and "frame_length (rgb_layout width height) True = Ok len"
    and "list_ex (slot_unique h) (pool_slots (hub_pool h))
      \<or> length (pool_slots (hub_pool h)) < mb_buffers (pool_budget (hub_pool h))"
    and "slots_bytes (pool_slots (hub_pool h)) + len \<le> mb_bytes (pool_budget (hub_pool h))"
  shows "snd (publish_rgb now failed_at t elapsed session width height source_ns convert h) = Ok True"
proof (cases "publish_rgb now failed_at t elapsed session width height source_ns convert h")
  case (Pair h' r)
  from publish_result [OF assms(1) publishable_rgb assms(3) this [unfolded publish_rgb_def]]
    reserve_progress [OF assms(1,2,5,6,7)] assms(4) Pair
  show ?thesis by simp
qed

end
