(* ===== verification/Hub_Example.thy ===== *)
theory Hub_Example
  imports Hub_Producers
begin

text \<open>A concrete run: a receiver of every frame, a started session, two published 2x1 frames, and
  the receiver taking the first.\<close>

definition demo_convert :: "u8 \<Rightarrow> u8 list \<Rightarrow> u8 list \<times> unit camera_result" where
  "demo_convert v d = (map (\<lambda>_. v) d, Ok ())"

definition demo_start :: hub where
  "demo_start = start_snapshot (fst (subscribe_with (so_buffered 2) (hub_new 1 4)))"

definition demo_publish :: "u8 \<Rightarrow> hub \<Rightarrow> hub \<times> bool camera_result" where
  "demo_publish v = publish_rgb 5 6 7 8 1 2 1 None (demo_convert v)"

definition demo_hub :: hub where
  "demo_hub = fst (demo_publish 7 demo_start)"

lemma demo_converts: "converts (rgb_layout 2 1) True (demo_convert v)"
  by (simp add: converts_def demo_convert_def)

lemma demo_length: "frame_length (rgb_layout 2 1) True = Ok 6"
  by (simp add: frame_length_def rgb_layout_def checked_mul_def usize_bound_def MAX_FRAME_BYTES_def)

lemma demo_start_state:
  "demo_start = (hub_new 1 4)\<lparr>hub_next_session := 2,
     hub_state := snapshot_default\<lparr>sn_session := 1, sn_active := True\<rparr>,
     hub_subscribers := [0],
     hub_receivers := [Some \<lparr>rc_queue = [], rc_delivery = Buffered 2 DropOldest, rc_dropped = 0,
       rc_max_rate = None, rc_last_enqueued = None, rc_owner = None, rc_last = None\<rparr>]\<rparr>"
  by (simp add: demo_start_def start_snapshot_def subscribe_with_def so_buffered_def
      subscription_validate_def hub_new_def snapshot_default_def memory_budget_default_def)

lemma demo_start_reachable: "hub_reachable demo_start"
proof -
  have "hub_reachable (hub_new 1 4)" by (rule reachable_start) (auto simp: hub_start_state_def)
  then show ?thesis
    unfolding demo_start_def by (blast intro: reachable_step hub_step.Start_Snapshot hub_step.Subscribe)
qed

lemma demo_layout: "fl_width (rgb_layout w h) = w" "fl_height (rgb_layout w h) = h"
  by (simp_all add: rgb_layout_def)

lemmas demo_eval = demo_layout slot_unique_def unique_def demo_publish_def publish_rgb_def publish_def reserve_def demo_start_state
  demo_length epoch_active_def pick_slot_def
  pool_receive_def hub_new_def snapshot_default_def memory_budget_default_def Let_def
  slots_bytes_def prepare_storage_def new_rgb_def allocate_def set_slots_def
  list_at_def lease_bytes_def demo_convert_def write_lease_def retained_def live_frames_def
  receiver_frames_def pixels_zeros_def finish_publish_def commit_publication_def commit_lease_def
  make_frame_def next_sequence_def offer_def owner_stopped_def deliver_def account_publication_def
  drop_lease_def hub_session_def frame_metrics_default_def saturating_add_u64_def

definition demo_frame :: captured_frame where
  "demo_frame = \<lparr>cf_key = \<lparr>fk_session = 1, fk_sequence = 1\<rparr>, cf_storage = StorageRgb 0,
     cf_layout = rgb_layout 2 1, cf_captured_at = 5, cf_timestamp_ns = 7,
     cf_source_timestamp_ns = None, cf_source_clock = ClockUnknown, cf_source_sequence = None\<rparr>"

lemma demo_hub_facts:
  "snd (demo_publish 7 demo_start) = Ok True"
  "hub_state demo_hub = snapshot_default\<lparr>sn_session := 1, sn_active := True, sn_latest := Some demo_frame\<rparr>"
  "hub_receivers demo_hub = [Some \<lparr>rc_queue = [demo_frame], rc_delivery = Buffered 2 DropOldest, rc_dropped = 0,
       rc_max_rate = None, rc_last_enqueued = None, rc_owner = None, rc_last = None\<rparr>]"
  "hub_held demo_hub = []" "hub_flags demo_hub = (\<lambda>_. False)"
  "pool_slots (hub_pool demo_hub) = [\<lparr>slot_data = Some (StorageRgb 0), slot_bytes = 6\<rparr>]"
  "pool_budget (hub_pool demo_hub) = \<lparr>mb_buffers = 4, mb_bytes = 201326592\<rparr>"
  "hub_heap demo_hub 0 = PixelBuffer (1, 2, 3) (replicate 6 7)"
  by (simp_all add: demo_hub_def demo_frame_def demo_eval frame_bytes_def)

definition demo_hub2 :: hub where
  "demo_hub2 = fst (demo_publish 9 demo_hub)"

definition demo_frame2 :: captured_frame where
  "demo_frame2 = demo_frame\<lparr>cf_key := \<lparr>fk_session = 1, fk_sequence = 2\<rparr>, cf_storage := StorageRgb 1\<rparr>"

lemma demo_hub2_facts:
  "snd (demo_publish 9 demo_hub) = Ok True"
  "hub_state demo_hub2 = snapshot_default\<lparr>sn_session := 1, sn_active := True, sn_latest := Some demo_frame2\<rparr>"
  "hub_receivers demo_hub2 = [Some \<lparr>rc_queue = [demo_frame, demo_frame2], rc_delivery = Buffered 2 DropOldest, rc_dropped = 0,
       rc_max_rate = None, rc_last_enqueued = None, rc_owner = None, rc_last = None\<rparr>]"
  "pool_budget (hub_pool demo_hub2) = \<lparr>mb_buffers = 4, mb_bytes = 201326592\<rparr>"
  by (simp_all add: demo_hub2_def demo_frame2_def demo_hub_def demo_frame_def demo_eval
      frame_bytes_def)

lemma demo_session: "fk_session (cf_key demo_frame) = 1"
  by (simp add: demo_frame_def)

lemma demo_steps: "hub_step\<^sup>*\<^sup>* h (fst (demo_publish v h))" if "hub_reachable h"
proof -
  have "hub_inv h" using hub_machine.inv_reachable [OF that] by (simp add: hub_safe_def)
  then show ?thesis
    using publish_published [OF _ publishable_rgb demo_converts, of h 5 6 7 8 1 "map_option (\<lambda>ns. \<lparr>ts_nanoseconds = ns, ts_clock = ClockUnknown\<rparr>) None" None v]
    by (cases "demo_publish v h") (auto simp: demo_publish_def publish_rgb_def published_def)
qed

lemma demo_hub_reachable: "hub_reachable demo_hub"
  using reachable_steps [OF demo_steps [OF demo_start_reachable] demo_start_reachable]
  by (simp add: demo_hub_def)

lemma demo_hub_steps: "hub_step\<^sup>*\<^sup>* demo_hub demo_hub2"
  using demo_steps [OF demo_hub_reachable] by (simp add: demo_hub2_def)

lemma demo_hub2_reachable: "hub_reachable demo_hub2"
  by (rule reachable_steps [OF demo_hub_steps demo_hub_reachable])

lemma demo_live: "demo_frame \<in> set (live_frames demo_hub)" "demo_frame \<in> set (live_frames demo_hub2)"
  "demo_frame2 \<in> set (live_frames demo_hub2)" "demo_frame2 \<notin> set (live_frames demo_hub)"
  by (simp_all add: live_frames_def receiver_frames_def demo_hub_facts demo_hub2_facts snapshot_default_def)
    (simp add: demo_frame2_def demo_frame_def)

end
