(* ===== verification/Hub_Properties.thy ===== *)
theory Hub_Properties
  imports Hub_Example
begin

text \<open>
  What the hub promises, over every reachable state: bounded memory, immutable frames, increasing
  keys, bounded and ordered queues, what a receiver is given, and that publishing never panics
  and shows exactly the converted bytes.
\<close>

section \<open>Memory\<close>

text \<open>The bytes a buffer occupies, and the buffers of the frames that someone still holds.\<close>

fun buffer_capacity :: "buffer \<Rightarrow> nat" where
  "buffer_capacity (ByteBuffer d n) = n"
| "buffer_capacity (PixelBuffer s d) = length d"

definition live_buffers :: "hub \<Rightarrow> location set" where
  "live_buffers h = (\<lambda>f. storage_loc (cf_storage f)) ` set (live_frames h)"

lemma buffer_fits_capacity: "buffer_fits heap st n \<Longrightarrow> buffer_capacity (heap (storage_loc st)) = n"
  by (cases st) auto

lemma live_buffers_slots:
  assumes "hub_safe h"
  obtains i where "inj_on i (live_buffers h)"
    "\<And>l. l \<in> live_buffers h \<Longrightarrow> i l < length (pool_slots (hub_pool h))"
    "\<And>l. l \<in> live_buffers h \<Longrightarrow>
       buffer_capacity (hub_heap h l) = slot_bytes (pool_slots (hub_pool h) ! i l)"
proof -
  have inv: "hub_inv h" using assms by (simp add: hub_safe_def)
  have "\<forall>l \<in> live_buffers h. \<exists>i st. owns h i st \<and> storage_loc st = l"
    using assms unfolding hub_safe_def inv_owned_def live_buffers_def by blast
  then obtain i st where o: "\<And>l. l \<in> live_buffers h \<Longrightarrow> owns h (i l) (st l) \<and> storage_loc (st l) = l"
    by metis
  have "l = l'" if "l \<in> live_buffers h" "l' \<in> live_buffers h" "i l = i l'" for l l'
  proof -
    have "st l = st l'"
      using o [OF that(1)] o [OF that(2)] that(3) inv_lease(2) [OF inv] inv_lease_unique [OF inv]
      unfolding owns_def by (metis option.inject option.distinct(1))
    then show ?thesis using o that by metis
  qed
  then have "inj_on i (live_buffers h)" by (auto intro: inj_onI)
  then show thesis
  proof (rule that)
    fix l assume l: "l \<in> live_buffers h"
    with o show "i l < length (pool_slots (hub_pool h))" by (simp add: owns_def)
    show "buffer_capacity (hub_heap h l) = slot_bytes (pool_slots (hub_pool h) ! i l)"
      using o [OF l] inv_owns(2) [OF inv] buffer_fits_capacity by metis
  qed
qed

text \<open>C2: In every reachable state of the frame hub the pool holds no more buffers and no more
  bytes than the memory budget, and neither do the distinct buffers behind all the frames the
  latest slot, the receiver queues and the application retain.\<close>

theorem hub_memory_bounded:
  assumes "hub_reachable h"
  shows "fm_allocated_buffers (metrics h) \<le> mb_buffers (pool_budget (hub_pool h))
    \<and> fm_allocated_bytes (metrics h) \<le> mb_bytes (pool_budget (hub_pool h))
    \<and> fm_retained_buffers (metrics h) \<le> fm_allocated_buffers (metrics h)
    \<and> card (live_buffers h) \<le> mb_buffers (pool_budget (hub_pool h))
    \<and> (\<Sum>l \<in> live_buffers h. buffer_capacity (hub_heap h l)) \<le> mb_bytes (pool_budget (hub_pool h))"
proof (intro conjI)
  let ?slots = "pool_slots (hub_pool h)"
  have safe: "hub_safe h" by (rule hub_machine.inv_reachable [OF assms])
  then have budget: "length ?slots \<le> mb_buffers (pool_budget (hub_pool h))"
    "slots_bytes ?slots \<le> mb_bytes (pool_budget (hub_pool h))"
    by (simp_all add: hub_safe_def hub_inv_def inv_budget_def)
  then show "fm_allocated_buffers (metrics h) \<le> mb_buffers (pool_budget (hub_pool h))"
    "fm_allocated_bytes (metrics h) \<le> mb_bytes (pool_budget (hub_pool h))"
    "fm_retained_buffers (metrics h) \<le> fm_allocated_buffers (metrics h)"
    by (simp_all add: metrics_def Let_def)
  obtain i where i: "inj_on i (live_buffers h)" "\<And>l. l \<in> live_buffers h \<Longrightarrow> i l < length ?slots"
    "\<And>l. l \<in> live_buffers h \<Longrightarrow> buffer_capacity (hub_heap h l) = slot_bytes (?slots ! i l)"
    using live_buffers_slots [OF safe] by metis
  then have sub: "i ` live_buffers h \<subseteq> {..<length ?slots}" by auto
  from card_mono [OF _ this] i(1) have "card (live_buffers h) \<le> length ?slots"
    by (simp add: card_image)
  with budget(1) show "card (live_buffers h) \<le> mb_buffers (pool_budget (hub_pool h))" by simp
  have "(\<Sum>l \<in> live_buffers h. buffer_capacity (hub_heap h l)) = (\<Sum>k \<in> i ` live_buffers h. slot_bytes (?slots ! k))"
    using i by (simp add: sum.reindex)
  also have "\<dots> \<le> (\<Sum>k<length ?slots. slot_bytes (?slots ! k))"
    by (rule sum_mono2) (use sub in auto)
  also have "\<dots> = slots_bytes ?slots"
    by (simp add: slots_bytes_def sum_list_sum_nth lessThan_atLeast0)
  finally show "(\<Sum>l \<in> live_buffers h. buffer_capacity (hub_heap h l))
      \<le> mb_bytes (pool_budget (hub_pool h))"
    using budget(2) by simp
qed

lemma hub_memory_bounded_witness:
  "fm_allocated_bytes (metrics demo_hub2) \<le> 201326592 \<and> card (live_buffers demo_hub2) \<le> 4"
proof -
  have "pool_budget (hub_pool demo_hub2) = \<lparr>mb_buffers = 4, mb_bytes = 201326592\<rparr>"
    by (rule demo_hub2_facts)
  then show ?thesis using hub_memory_bounded [OF demo_hub2_reachable] by simp
qed

section \<open>Frames\<close>

lemma hub_steps_frame_rel:
  assumes "hub_reachable h" "hub_step\<^sup>*\<^sup>* h h'"
  shows "frame_rel h h'"
  using assms(2) hub_machine.inv_reachable [OF assms(1)]
  by (rule hub_machine.steps_relation)
    (auto intro: frame_rel_refl frame_rel_trans simp: hub_safe_def dest: hub_step_preserves)

lemma live_key_past:
  assumes "hub_reachable h" "f \<in> set (live_frames h)"
  shows "key_past (hub_state h) (cf_key f)"
  using hub_machine.inv_reachable [OF assms(1)] assms(2)
  by (simp add: hub_safe_def hub_inv_def inv_frames_def)

text \<open>C1: A published frame is immutable: whatever producers, receivers and the application do
  afterwards, a frame that is still held has the bytes it was published with, also when its buffer
  came from the pool and the pool has been reused since.\<close>

theorem hub_frames_immutable:
  assumes "hub_reachable h" "hub_step\<^sup>*\<^sup>* h h'"
    and "f \<in> set (live_frames h)" "f \<in> set (live_frames h')"
  shows "frame_bytes (hub_heap h') f = frame_bytes (hub_heap h) f"
  using hub_steps_frame_rel [OF assms(1,2)] live_key_past [OF assms(1,3)] assms(4)
  by (simp add: frame_rel_def)

lemma hub_frames_immutable_witness:
  "frame_bytes (hub_heap demo_hub2) demo_frame = [7, 7, 7, 7, 7, 7]"
  using hub_frames_immutable [OF demo_hub_reachable demo_hub_steps demo_live(1,2)]
  by (simp add: frame_bytes_def demo_frame_def demo_hub_facts eval_nat_numeral)

lemma key_past_closed:
  "key_past s k \<Longrightarrow> \<not> key_past s k' \<Longrightarrow> key_less k k'"
  by (auto simp: key_past_def key_less_def split: option.splits)

text \<open>C22: Frame keys identify frames and grow: two live frames with one key are the same frame,
  and a frame that appears later has a greater (session, sequence) key than every frame that was
  alive before.\<close>

theorem hub_keys_increase:
  assumes "hub_reachable h" "hub_step\<^sup>*\<^sup>* h h'" "g \<in> set (live_frames h)" "f \<in> set (live_frames h')"
  shows "(f \<notin> set (live_frames h) \<longrightarrow> key_less (cf_key g) (cf_key f))
    \<and> (cf_key f = cf_key g \<longrightarrow> f = g)"
proof (intro conjI impI)
  note rel = hub_steps_frame_rel [OF assms(1,2)]
  note past = live_key_past [OF assms(1,3)]
  show "key_less (cf_key g) (cf_key f)" if "f \<notin> set (live_frames h)"
  proof (rule key_past_closed [OF past])
    show "\<not> key_past (hub_state h) (cf_key f)"
      using rel assms(4) that by (auto simp: frame_rel_def)
  qed
  show "f = g" if "cf_key f = cf_key g"
  proof -
    from rel assms(4) past that have "f \<in> set (live_frames h)" by (auto simp: frame_rel_def)
    with hub_machine.inv_reachable [OF assms(1)] assms(3) that show ?thesis
      by (auto simp: hub_safe_def hub_inv_def inv_frames_def)
  qed
qed

lemma hub_keys_increase_witness: "key_less (cf_key demo_frame) (cf_key demo_frame2)"
  using hub_keys_increase [OF demo_hub_reachable demo_hub_steps demo_live(1,3)] demo_live(4) by simp

section \<open>Producers\<close>

text \<open>C3: Publishing an RGB frame in a reachable state never panics and only takes steps of the
  machine.  If it answers \<open>Ok(true)\<close> the session was the active one and the latest frame is the
  new one: the next key of the session, the RGB layout, and exactly the bytes the conversion
  produced.  Otherwise no frame appears or disappears, and a publication of a session that is not
  the active one changes nothing and answers \<open>Ok(false)\<close>.\<close>

theorem publish_rgb_correct:
  assumes "hub_reachable h" "converts (rgb_layout width height) True convert"
    and "publish_rgb now failed_at t elapsed session width height source_ns convert h = (h', r)"
  shows "hub_step\<^sup>*\<^sup>* h h' \<and> r \<noteq> Panic
    \<and> (if r = Ok True
       then epoch_active session h
         \<and> (\<exists>f d. sn_latest (hub_state h') = Some f \<and> cf_layout f = rgb_layout width height
              \<and> cf_key f = \<lparr>fk_session = session, fk_sequence = next_sequence h\<rparr>
              \<and> length d = unat height * unat width * 3
              \<and> convert d = (frame_bytes (hub_heap h') f, Ok ()))
       else live_frames h' = live_frames h \<and> hub_session h' = hub_session h)
    \<and> (\<not> epoch_active session h \<longrightarrow> h' = h \<and> r = Ok False)"
proof -
  have inv: "hub_inv h" using hub_machine.inv_reachable [OF assms(1)] by (simp add: hub_safe_def)
  from publish_published [OF inv publishable_rgb assms(2) assms(3) [unfolded publish_rgb_def]]
  show ?thesis
    using frame_length_Ok(4) [of "rgb_layout width height" True]
    unfolding published_def by (auto simp: rgb_layout_def split: if_splits)
qed

lemma publish_rgb_correct_witness:
  "hub_step\<^sup>*\<^sup>* demo_hub demo_hub2
   \<and> (\<exists>f d. sn_latest (hub_state demo_hub2) = Some f \<and> demo_convert 9 d = (frame_bytes (hub_heap demo_hub2) f, Ok ()))"
proof -
  have "demo_publish 9 demo_hub = (demo_hub2, Ok True)"
    by (rule prod_eqI) (simp_all add: demo_hub2_facts demo_hub2_def)
  from publish_rgb_correct [OF demo_hub_reachable demo_converts this [unfolded demo_publish_def]]
  show ?thesis by auto
qed

text \<open>C8: Publishing makes progress: in a reachable state with the session active, if some slot's
  buffer is no longer shared or the pool may still grow, and the image fits the rest of the byte
  budget, then a conversion that succeeds is published.\<close>

theorem publish_rgb_progress:
  assumes "hub_reachable h" "epoch_active session h" "converts (rgb_layout width height) True convert"
    and "\<And>d. snd (convert d) = Ok ()"
    and "0 < unat height * unat width * 3" "unat height * unat width * 3 \<le> MAX_FRAME_BYTES"
    and "list_ex (slot_unique h) (pool_slots (hub_pool h))
      \<or> length (pool_slots (hub_pool h)) < mb_buffers (pool_budget (hub_pool h))"
    and "slots_bytes (pool_slots (hub_pool h)) + unat height * unat width * 3
      \<le> mb_bytes (pool_budget (hub_pool h))"
  shows "snd (publish_rgb now failed_at t elapsed session width height source_ns convert h) = Ok True"
proof -
  have "hub_inv h" using hub_machine.inv_reachable [OF assms(1)] by (simp add: hub_safe_def)
  moreover have "frame_length (rgb_layout width height) True = Ok (unat height * unat width * 3)"
    using assms(5,6)
    by (simp add: frame_length_def rgb_layout_def checked_mul_def MAX_FRAME_BYTES_def usize_bound_def
        mult.commute)
  ultimately show ?thesis using publish_rgb_Ok_True assms(2-4,7,8) by blast
qed

lemma publish_rgb_progress_witness: "snd (demo_publish 9 demo_hub) = Ok True"
  unfolding demo_publish_def
  by (rule publish_rgb_progress [OF demo_hub_reachable])
    (simp_all add: demo_hub_facts epoch_active_def snapshot_default_def demo_converts demo_convert_def
      MAX_FRAME_BYTES_def slots_bytes_def)

text \<open>C25: The native entry points are safe in every reachable state: \<open>publish_native_into\<close> and
  \<open>publish_native\<close> never panic and only take steps of the machine, whatever layout they are
  given; and a frame that \<open>publish_native\<close> reports as published holds the parts, one after the
  other.\<close>

theorem publish_native_safe:
  assumes "hub_reachable h" "converts layout False convert"
  shows "(case publish_native_into now failed_at t elapsed session layout timestamp convert h of
      (h', r) \<Rightarrow> hub_step\<^sup>*\<^sup>* h h' \<and> r \<noteq> Panic)
    \<and> (case publish_native now failed_at t elapsed session layout timestamp sequence parts h of
      (h', r) \<Rightarrow> hub_step\<^sup>*\<^sup>* h h' \<and> r \<noteq> Panic
        \<and> (r = Ok True \<longrightarrow> (\<exists>f. sn_latest (hub_state h') = Some f
              \<and> cf_key f = \<lparr>fk_session = session, fk_sequence = next_sequence h\<rparr>
              \<and> frame_bytes (hub_heap h') f = concat parts)))"
proof -
  have inv: "hub_inv h" using hub_machine.inv_reachable [OF assms(1)] by (simp add: hub_safe_def)
  note into = publish_native_into_published [OF inv assms(2), of now failed_at t elapsed session timestamp]
  note native = publish_native_published [OF inv, of now failed_at t elapsed session layout timestamp sequence parts]
  show ?thesis
    using into native
    by (auto simp: published_def copy_parts_def Let_def split: prod.splits if_splits) 
qed

lemma publish_native_safe_witness:
  "snd (publish_native 5 6 7 8 1 (rgb_layout 2 1) None None [[1, 2, 3], [4, 5, 6]] demo_hub) \<noteq> Panic"
proof -
  have "converts (rgb_layout 2 1) False (demo_convert 9)" by (simp add: converts_def demo_convert_def)
  from publish_native_safe [OF demo_hub_reachable this, where now = 5 and failed_at = 6 and t = 7
      and elapsed = 8 and session = 1 and timestamp = None and sequence = None
      and parts = "[[1, 2, 3], [4, 5, 6]]"]
  show ?thesis by (simp split: prod.splits)
qed

text \<open>C26: A native write lease is safe.  \<open>writable_native\<close> never panics and hands out an
  uncommitted lease of the requested layout whose buffer no frame shares; committing a lease
  never panics either: the frame is published exactly when the session of the lease is still the
  active one, it then holds the bytes the lease held, and otherwise no frame appears.\<close>

theorem native_lease_safe:
  assumes "hub_reachable h"
  shows "(case writable_native now session layout h of
      (h', r) \<Rightarrow> hub_step\<^sup>*\<^sup>* h h' \<and> r \<noteq> Panic
        \<and> (\<forall>k. r = Ok k \<longrightarrow> (\<exists>ls. list_at (hub_leases h') k = Some ls
              \<and> ls_session ls = session \<and> ls_layout ls = layout \<and> \<not> ls_committed ls
              \<and> \<not> retained h' (ls_data ls))))
    \<and> (\<forall>k ls. list_at (hub_leases h) k = Some ls \<longrightarrow>
        (case native_commit t timestamp captured_at k h of
           (h', r) \<Rightarrow> hub_step\<^sup>*\<^sup>* h h' \<and> r = Ok (epoch_active (ls_session ls) h)
             \<and> (if epoch_active (ls_session ls) h
                then \<exists>f. sn_latest (hub_state h') = Some f \<and> frame_bytes (hub_heap h') f = lease_bytes h ls
                else live_frames h' = live_frames h)))"
proof (intro conjI allI impI)
  have inv: "hub_inv h" using hub_machine.inv_reachable [OF assms] by (simp add: hub_safe_def)
  show "case writable_native now session layout h of
      (h', r) \<Rightarrow> hub_step\<^sup>*\<^sup>* h h' \<and> r \<noteq> Panic
        \<and> (\<forall>k. r = Ok k \<longrightarrow> (\<exists>ls. list_at (hub_leases h') k = Some ls
              \<and> ls_session ls = session \<and> ls_layout ls = layout \<and> \<not> ls_committed ls
              \<and> \<not> retained h' (ls_data ls)))"
  proof (cases "\<exists>len. frame_length layout False = Ok len \<and> layout_validate layout len = Ok ()")
    case False
    then have "\<exists>e. and_then (frame_length layout False) (\<lambda>len. layout_validate layout len) = Err e"
      using frame_length_not_Panic [of layout False] layout_validate_total [of layout]
      by (cases "frame_length layout False") auto
    then show ?thesis by (auto simp: writable_native_def)
  next
    case True
    then obtain len where v: "frame_length layout False = Ok len" "layout_validate layout len = Ok ()"
      by blast
    then have pub: "publishable layout False" by (simp add: publishable_def)
    obtain h1 res where r: "reserve now session layout False h = (h1, res)" by fastforce
    have step: "hub_step h h1" using hub_step.Reserve [OF pub, of h now session] r by simp
    have inv1: "hub_inv h1" using hub_inv_reserve [OF inv pub, of now session] r by simp
    have "res \<noteq> Panic" using reserve_not_Panic [of now session layout False h] r by simp
    moreover have "\<exists>ls. list_at (hub_leases h1) k = Some ls \<and> ls_session ls = session
        \<and> ls_layout ls = layout \<and> \<not> ls_committed ls \<and> \<not> retained h1 (ls_data ls)"
      if "res = Ok (Some k)" for k
      using reserve_Some [OF inv r [unfolded that]] inv_lease(6) [OF inv1] by metis
    ultimately show ?thesis
      using step v r by (auto simp: writable_native_def split: result.split option.split)
  qed
  fix k ls
  assume k: "list_at (hub_leases h) k = Some ls"
  let ?p = "\<lparr>pub_session = ls_session ls, pub_layout = ls_layout ls, pub_timestamp = timestamp,
    pub_source_sequence = None, pub_captured_at = captured_at, pub_elapsed = 0\<rparr>"
  obtain h1 b where f: "finish_publish t ?p (ls_data ls) (commit_lease k h) = (h1, b)" by fastforce
  obtain h2 where h2: "drop_lease k h1 = Ok h2" "hub_step\<^sup>*\<^sup>* h h2" "hub_heap h2 = hub_heap h"
    "b = epoch_active (ls_session ls) h"
    "b \<Longrightarrow> sn_latest (hub_state h2) = Some (make_frame t ?p (ls_data ls) h)"
    "\<not> b \<Longrightarrow> live_frames h2 = live_frames h \<and> hub_state h2 = hub_state h"
    using commit_drop [OF inv k _ f] by auto
  have "frame_bytes (hub_heap h2) (make_frame t ?p (ls_data ls) h) = lease_bytes h ls"
    by (simp add: h2(3) frame_bytes_def make_frame_def lease_bytes_def)
  with h2 show "case native_commit t timestamp captured_at k h of
           (h', r) \<Rightarrow> hub_step\<^sup>*\<^sup>* h h' \<and> r = Ok (epoch_active (ls_session ls) h)
             \<and> (if epoch_active (ls_session ls) h
                then \<exists>f. sn_latest (hub_state h') = Some f \<and> frame_bytes (hub_heap h') f = lease_bytes h ls
                else live_frames h' = live_frames h)"
    using k f by (simp add: native_commit_def)
qed

lemma native_lease_safe_witness:
  "snd (writable_native 5 1 (rgb_layout 2 1) demo_hub) \<noteq> Panic"
  using native_lease_safe [OF demo_hub_reachable, where now = 5 and session = 1
      and layout = "rgb_layout 2 1" and t = 0 and timestamp = None and captured_at = 0]
  by (auto split: prod.splits)

section \<open>Receivers\<close>

text \<open>C23: In every reachable state every receiver queue is within the capacity of its delivery
  policy and strictly ordered by frame key, so no receiver ever sees a frame twice or out of
  order.\<close>

theorem hub_queues_bounded:
  assumes "hub_reachable h" "list_at (hub_receivers h) i = Some r"
  shows "(case rc_delivery r of Latest \<Rightarrow> length (rc_queue r) \<le> 1
          | Buffered capacity _ \<Rightarrow> 0 < capacity \<and> length (rc_queue r) \<le> capacity)
    \<and> sorted_wrt key_less (map cf_key (rc_queue r))
    \<and> (case rc_last r of None \<Rightarrow> True | Some k \<Rightarrow> list_all (\<lambda>f. key_less k (cf_key f)) (rc_queue r))"
proof -
  have "receiver_ok (hub_state h) r"
    using hub_machine.inv_reachable [OF assms(1)] assms(2)
    by (auto simp: hub_safe_def hub_inv_def inv_receivers_def)
  then show ?thesis
    by (auto simp: receiver_ok_def receiver_capacity_def list_all_iff split: delivery_policy.splits option.splits)
qed

lemma hub_queues_bounded_witness: "sorted_wrt key_less (map cf_key [demo_frame, demo_frame2])"
  using hub_queues_bounded [OF demo_hub2_reachable, of 0] by (simp add: demo_hub2_facts list_at_def)

lemma pop_frame_delivers:
  assumes "pop_frame lst session q = (Some f, q')"
  shows "Some (cf_key f) \<noteq> lst \<and> fk_session (cf_key f) = session
    \<and> (\<exists>skipped. q = skipped @ f # q'
        \<and> list_all (\<lambda>g. Some (cf_key g) = lst \<or> fk_session (cf_key g) \<noteq> session) skipped)"
  using assms
proof (induction lst session q rule: pop_frame.induct)
  case (2 lst session g q)
  show ?case
  proof (cases "Some (cf_key g) \<noteq> lst \<and> fk_session (cf_key g) = session")
    case True
    with 2(2) show ?thesis by (auto intro: exI [of _ "[]"])
  next
    case False
    with 2 obtain skipped where "Some (cf_key f) \<noteq> lst" "fk_session (cf_key f) = session"
      "q = skipped @ f # q'"
      "list_all (\<lambda>g. Some (cf_key g) = lst \<or> fk_session (cf_key g) \<noteq> session) skipped" by auto
    with False show ?thesis by (intro conjI exI [of _ "g # skipped"]) auto
  qed
qed simp

text \<open>C24: What \<open>FrameReceiver::next\<close> hands out: only a stopped stream is an error; a frame belongs
  to the current session, is strictly newer than the one delivered before, is the oldest such
  frame of the queue, and its layout describes its bytes; the application holds it from then
  on.\<close>

theorem receiver_next_delivers:
  assumes "hub_reachable h" "list_at (hub_receivers h) i = Some r"
    and "receiver_next i h = (h', Some answer)"
  shows "(case answer of
      Ok f \<Rightarrow>
        fk_session (cf_key f) = hub_session h \<and> f \<in> set (hub_held h')
        \<and> (case rc_last r of None \<Rightarrow> True | Some k \<Rightarrow> key_less k (cf_key f))
        \<and> frame_well_formed (hub_heap h') f
        \<and> (\<exists>stale q. rc_queue r = stale @ f # q
             \<and> list_all (\<lambda>g. fk_session (cf_key g) \<noteq> hub_session h) stale
             \<and> map_option rc_queue (list_at (hub_receivers h') i) = Some q)
    | Err e \<Rightarrow> h' = h \<and> e = stream_stopped
        \<and> (owner_stopped (hub_flags h) r \<or> \<not> is_streaming h)
    | Panic \<Rightarrow> False)"
proof -
  let ?s = "hub_state h"
  have inv: "hub_inv h" using hub_machine.inv_reachable [OF assms(1)] by (simp add: hub_safe_def)
  then have ok: "receiver_ok ?s r" using assms(2) by (auto simp: hub_inv_def inv_receivers_def)
  show ?thesis
  proof (cases "owner_stopped (hub_flags h) r \<or> (\<not> sn_active ?s \<and> \<not> sn_recovering ?s \<and> \<not> sn_reconnect_enabled ?s)")
    case True
    then show ?thesis using assms(2,3) by (auto simp: receiver_next_def is_streaming_def Let_def)
  next
    case False
    with assms(2,3) obtain f q where p: "pop_frame (rc_last r) (sn_session ?s) (rc_queue r) = (Some f, q)"
      and a: "answer = Ok f"
      and h': "h' = h\<lparr>hub_receivers := (hub_receivers h)
        [i := Some (r\<lparr>rc_queue := q, rc_last := Some (cf_key f)\<rparr>)], hub_held := f # hub_held h\<rparr>"
      by (auto simp: receiver_next_def Let_def split: prod.splits option.splits)
    from pop_frame_delivers [OF p] obtain stale where
      f: "Some (cf_key f) \<noteq> rc_last r" "fk_session (cf_key f) = sn_session ?s" "rc_queue r = stale @ f # q"
      and s: "list_all (\<lambda>g. Some (cf_key g) = rc_last r \<or> fk_session (cf_key g) \<noteq> sn_session ?s) stale"
      by blast
    have newer: "key_less k (cf_key g)" if "rc_last r = Some k" "g \<in> set (rc_queue r)" for k g
      using ok that by (simp add: receiver_ok_def)
    have "list_all (\<lambda>g. fk_session (cf_key g) \<noteq> sn_session ?s) stale"
      using s newer f(3) key_less_irrefl unfolding list_all_iff
      by (metis in_set_conv_decomp append_is_Nil_conv UnCI set_append)
    moreover have "f \<in> set (live_frames h)"
      by (rule live_framesI(2) [OF assms(2)]) (simp add: f(3))
    then have "frame_well_formed (hub_heap h) f"
      using inv by (simp add: hub_inv_def inv_frames_def)
    ultimately show ?thesis
      using a f newer list_at_length [OF assms(2)]
      by (auto simp: h' hub_session_def list_at_update split: option.split)
  qed
qed

lemma receiver_next_delivers_witness:
  "\<exists>h. receiver_next 0 demo_hub2 = (h, Some (Ok demo_frame)) \<and> demo_frame \<in> set (hub_held h)
     \<and> fk_session (cf_key demo_frame) = hub_session demo_hub2"
proof -
  have r: "list_at (hub_receivers demo_hub2) 0 = Some \<lparr>rc_queue = [demo_frame, demo_frame2],
      rc_delivery = Buffered 2 DropOldest, rc_dropped = 0, rc_max_rate = None, rc_last_enqueued = None,
      rc_owner = None, rc_last = None\<rparr>"
    by (simp add: demo_hub2_facts list_at_def)
  obtain h where h: "receiver_next 0 demo_hub2 = (h, Some (Ok demo_frame))"
    by (simp add: receiver_next_def r Let_def demo_hub2_facts(2) owner_stopped_def snapshot_default_def
        demo_session)
  from receiver_next_delivers [OF demo_hub2_reachable r h] h show ?thesis by auto
qed

section \<open>Sessions\<close>

lemma session_of_core:
  "core h' = core h \<Longrightarrow> sn_session (hub_state h') = sn_session (hub_state h)
     \<and> sn_active (hub_state h') = sn_active (hub_state h)"
  by (simp add: core_eq_iff)

lemmas session_quiet = quiet_ops [THEN session_of_core, THEN conjunct1]
  quiet_ops [THEN session_of_core, THEN conjunct2]

lemma session_storage [simp]:
  "hub_state (set_slots s h) = hub_state h"
  by (simp add: set_slots_def)

lemma hub_step_session:
  assumes "hub_step h h'"
  shows "sn_session (hub_state h') = sn_session (hub_state h)
      \<and> (sn_active (hub_state h') \<longrightarrow> sn_active (hub_state h))
    \<or> sn_session (hub_state h') = hub_next_session h"
  using assms
proof cases
  case (Reserve layout rgb now session)
  then show ?thesis by (simp add: state_reserve)
next
  case (Commit k ls p t)
  then show ?thesis
    by (simp add: commit_publication_def Let_def split: prod.split)
qed (auto simp: session_quiet configure_def clear_queues_def start_snapshot_def
    deactivate_def write_lease_def drop_lease_def set_slots_def subscribe_with_def with_stop_flag_def
    receiver_next_def drop_receiver_def release_frame_def hold_latest_def Let_def
    split: option.splits if_splits result.splits prod.splits)

text \<open>A session that is over: the current one or an earlier one, and not active.\<close>

definition session_over :: "nat \<Rightarrow> hub \<Rightarrow> bool" where
  "session_over s h \<longleftrightarrow> s \<le> hub_session h \<and> \<not> epoch_active s h"

lemma session_over_steps:
  assumes "hub_reachable h" "hub_step\<^sup>*\<^sup>* h h'" "session_over s h"
  shows "session_over s h'"
proof -
  have "session_over s h \<longrightarrow> session_over s h'"
    using assms(2) hub_machine.inv_reachable [OF assms(1)]
  proof (rule hub_machine.steps_relation)
    fix x y
    assume inv: "hub_safe x" and step: "hub_step x y"
    from inv have "sn_session (hub_state x) < hub_next_session x"
      by (simp add: hub_safe_def hub_inv_def inv_session_def)
    with hub_step_session [OF step] show "session_over s x \<longrightarrow> session_over s y"
      by (auto simp: session_over_def hub_session_def epoch_active_def)
  qed auto
  with assms(3) show ?thesis by blast
qed



end
