(* ===== verification/Buffers.thy ===== *)
theory Buffers
  imports Prelude
begin

text \<open>
  Output buffers that loops fill from the front: sub-slices and writes that panic out of range,
  loops over a list of indices, and the lemmas that turn such a loop into a closed form.
\<close>

section \<open>Slices and writes\<close>

text \<open>\<open>&xs[start..][..n]\<close>.\<close>

definition sub_slice :: "'a list \<Rightarrow> usize \<Rightarrow> usize \<Rightarrow> ('a list, 'e) result" where
  "sub_slice xs start n = (if start + n \<le> length xs then Ok (take n (drop start xs)) else Panic)"

text \<open>Overwriting a part of a buffer; writing outside of it panics.\<close>

definition overwrite :: "'a list \<Rightarrow> usize \<Rightarrow> 'a list \<Rightarrow> 'a list" where
  "overwrite xs i ys = take i xs @ ys @ drop (i + length ys) xs"

definition write_at :: "'a list \<Rightarrow> usize \<Rightarrow> 'a list \<Rightarrow> ('a list, 'e) result" where
  "write_at xs i ys = (if i + length ys \<le> length xs then Ok (overwrite xs i ys) else Panic)"

text \<open>Passing \<open>&mut xs[start..][..n]\<close> to code that returns it changed.\<close>

definition modify_slice ::
  "'a list \<Rightarrow> usize \<Rightarrow> usize \<Rightarrow> ('a list \<Rightarrow> ('a list, 'e) result) \<Rightarrow> ('a list, 'e) result" where
  "modify_slice xs start n f =
     and_then (sub_slice xs start n) (\<lambda>ys. and_then (f ys) (\<lambda>zs. Ok (overwrite xs start zs)))"

text \<open>\<open>for x in xs\<close> over a state, stopping at the first error or panic.\<close>

fun for_each :: "('a \<Rightarrow> 's \<Rightarrow> ('s, 'e) result) \<Rightarrow> 'a list \<Rightarrow> 's \<Rightarrow> ('s, 'e) result" where
  "for_each f [] s = Ok s"
| "for_each f (x # xs) s = and_then (f x s) (for_each f xs)"

text \<open>\<open>(start..stop).step_by(step)\<close>.\<close>

definition step_by :: "usize \<Rightarrow> usize \<Rightarrow> usize \<Rightarrow> usize list" where
  "step_by start stop step = map (\<lambda>i. start + step * i) [0..<div_ceil (stop - start) step]"

lemma step_by_multiple: "0 < step \<Longrightarrow> step_by 0 (n * step) step = map (\<lambda>i. step * i) [0..<n]"
  by (cases n) (simp_all add: step_by_def div_ceil_def)

lemma for_each_map: "for_each f (map h xs) s = for_each (\<lambda>x. f (h x)) xs s"
proof (induction xs arbitrary: s)
  case (Cons x xs)
  then show ?case by (cases "f (h x) s") simp_all
qed simp

lemma length_overwrite [simp]: "i + length ys \<le> length xs \<Longrightarrow> length (overwrite xs i ys) = length xs"
  by (simp add: overwrite_def)

lemma sub_slice_Ok: "start + n \<le> length xs \<Longrightarrow> sub_slice xs start n = Ok (take n (drop start xs))"
  by (simp add: sub_slice_def)

lemma nth_sub_slice:
  "sub_slice xs start n = Ok ys \<Longrightarrow> i < n \<Longrightarrow> ys ! i = xs ! (start + i)"
  "sub_slice xs start n = Ok ys \<Longrightarrow> length ys = n"
  by (auto simp: sub_slice_def split: if_splits)

lemma for_each_append:
  "for_each f (xs @ ys) s = and_then (for_each f xs s) (for_each f ys)"
proof (induction xs arbitrary: s)
  case (Cons x xs)
  then show ?case by (cases "f x s") simp_all
qed simp

text \<open>A loop follows a chain of states.\<close>

lemma for_each_chain:
  assumes "\<And>i. i < length xs \<Longrightarrow> f (xs ! i) (s i) = Ok (s (Suc i))"
  shows "for_each f xs (s 0) = Ok (s (length xs))"
  using assms
proof (induction xs arbitrary: s)
  case (Cons x xs)
  have "for_each f xs (s (Suc 0)) = Ok (s (Suc (length xs)))"
    using Cons.prems [of "Suc i" for i] by (intro Cons.IH [of "\<lambda>i. s (Suc i)"]) auto
  then show ?case using Cons.prems [of 0] by simp
qed simp

text \<open>A loop over a range, and a loop over the columns \<open>start, start + 2, ...\<close> below a width.\<close>

lemma upto_loop:
  assumes "a \<le> b" "\<And>x. a \<le> x \<Longrightarrow> x < b \<Longrightarrow> f x (s x) = Ok (s (Suc x))"
  shows "for_each f [a..<b] (s a) = Ok (s b)"
proof -
  have "for_each f [a..<b] (s (a + 0)) = Ok (s (a + length [a..<b]))"
    by (rule for_each_chain) (use assms in simp_all)
  with assms(1) show ?thesis by simp
qed

lemma pair_loop:
  assumes "start \<le> width"
    and step: "\<And>column. start \<le> column \<Longrightarrow> column < width \<Longrightarrow> even (column - start) \<Longrightarrow>
      f column (s column) = Ok (s (min (column + 2) width))"
  shows "for_each f (step_by start width 2) (s start) = Ok (s width)"
proof -
  let ?t = "\<lambda>i. s (min (start + 2 * i) width)"
  have "for_each f (step_by start width 2) (?t 0) = Ok (?t (length (step_by start width 2)))"
  proof (rule for_each_chain)
    fix i
    assume "i < length (step_by start width 2)"
    then have i: "i < (width - start + 1) div 2" by (simp add: step_by_def div_ceil_two)
    then have "start + 2 * i < width" by linarith
    then show "f (step_by start width 2 ! i) (?t i) = Ok (?t (Suc i))"
      using i step [of "start + 2 * i"] by (simp add: step_by_def div_ceil_two)
  qed
  moreover have "min (start + 2 * length (step_by start width 2)) width = width"
    by (simp add: step_by_def div_ceil_two)
  ultimately show ?thesis using assms(1) by simp
qed

section \<open>Filling a buffer\<close>

text \<open>The buffer after the first \<open>n\<close> of its parts have been written.\<close>

definition parts :: "(nat \<Rightarrow> 'a list) \<Rightarrow> nat \<Rightarrow> 'a list" where
  "parts p n = concat (map p [0..<n])"

definition filled :: "(nat \<Rightarrow> 'a list) \<Rightarrow> nat \<Rightarrow> 'a list \<Rightarrow> 'a list" where
  "filled p n xs = parts p n @ drop (length (parts p n)) xs"

lemma parts_0 [simp]: "parts p 0 = []"
  by (simp add: parts_def)

lemma parts_Suc: "parts p (Suc n) = parts p n @ p n"
  by (simp add: parts_def)

lemma parts_cong: "(\<And>i. i < n \<Longrightarrow> p i = q i) \<Longrightarrow> parts p n = parts q n"
  unfolding parts_def by (rule arg_cong [of _ _ concat]) simp

lemma filled_cong: "(\<And>i. i < n \<Longrightarrow> p i = q i) \<Longrightarrow> filled p n xs = filled q n xs"
  using parts_cong [of n p q] by (simp add: filled_def)

lemma length_parts: "(\<And>i. i < n \<Longrightarrow> length (p i) = c) \<Longrightarrow> length (parts p n) = c * n"
  by (induction n) (simp_all add: parts_Suc)

lemma filled_0 [simp]: "filled p 0 xs = xs"
  by (simp add: filled_def)

lemma length_filled: "length (parts p n) \<le> length xs \<Longrightarrow> length (filled p n xs) = length xs"
  by (simp add: filled_def)

lemma overwrite_filled:
  assumes "length (parts p (Suc n)) \<le> length xs"
  shows "overwrite (filled p n xs) (length (parts p n)) (p n) = filled p (Suc n) xs"
  using assms by (simp add: overwrite_def filled_def parts_Suc add.commute)

lemma write_filled:
  assumes "\<And>i. length (p i) = c" "c * Suc n \<le> length xs" "k = c * n"
  shows "write_at (filled p n xs) k (p n) = Ok (filled p (Suc n) xs)"
  using assms overwrite_filled [of p n xs] length_parts [of _ p c] length_filled [of p n xs]
  by (simp add: write_at_def)

text \<open>Parts of parts: blocks of \<open>m\<close> parts.\<close>

lemma parts_blocks: "parts (\<lambda>g. parts (\<lambda>i. p (m * g + i)) m) n = parts p (m * n)"
proof (induction n)
  case (Suc n)
  have "parts p (k + j) = parts p k @ parts (\<lambda>i. p (k + i)) j" for k j
    by (induction j) (simp_all add: parts_Suc)
  with Suc show ?case by (simp add: parts_Suc add.commute [of m "m * n"])
qed simp

lemma parts_add: "parts p (k + j) = parts p k @ parts (\<lambda>i. p (k + i)) j"
  by (induction j) (simp_all add: parts_Suc)

lemma filled_all: "length (parts p n) = length xs \<Longrightarrow> filled p n xs = parts p n"
  by (simp add: filled_def)

lemma sub_slice_filled:
  assumes "length (parts p n) + c \<le> length xs"
  shows "sub_slice (filled p n xs) (length (parts p n)) c = Ok (take c (drop (length (parts p n)) xs))"
  using assms by (simp add: sub_slice_def filled_def)

lemma modify_filled:
  assumes "\<And>i. length (p i) = c" "c * Suc n \<le> length xs" "k = c * n"
    and "f (take c (drop k xs)) = Ok (p n)"
  shows "modify_slice (filled p n xs) k c f = Ok (filled p (Suc n) xs)"
proof -
  have len: "length (parts p n) = k" "length (parts p (Suc n)) \<le> length xs"
    using assms(1-3) length_parts [of n p c] length_parts [of "Suc n" p c] by auto
  then have "k + c \<le> length (filled p n xs)" "take c (drop k (filled p n xs)) = take c (drop k xs)"
    using assms(2,3) by (simp_all add: filled_def)
  with assms(4) len overwrite_filled [of p n xs] show ?thesis by (simp add: modify_slice_def sub_slice_def)
qed

end
