(* ===== verification/Simd.thy ===== *)
theory Simd
  imports Buffers
begin

text \<open>
  The x86 vector intrinsics that \<open>src/utils/color_convert.rs\<close> uses, on lists of lanes.  A
  128-bit value is a list of 16 bytes, a 256-bit value a list of 32 bytes or of eight \<open>i32\<close> lanes;
  the halves of a 256-bit value are the halves of the list in either view.  A load or store
  through a pointer that would leave its slice, which is undefined behaviour, is \<open>Panic\<close>.
\<close>

section \<open>Loads, stores and bytes\<close>

type_synonym m128 = "u8 list"

definition mm_loadu_si128 :: "u8 list \<Rightarrow> usize \<Rightarrow> (m128, 'e) result" where
  "mm_loadu_si128 xs i = sub_slice xs i 16"

definition mm_loadl_epi64 :: "u8 list \<Rightarrow> usize \<Rightarrow> (m128, 'e) result" where
  "mm_loadl_epi64 xs i = and_then (sub_slice xs i 8) (\<lambda>a. Ok (a @ replicate 8 0))"

definition mm256_loadu_si256 :: "u8 list \<Rightarrow> usize \<Rightarrow> (u8 list, 'e) result" where
  "mm256_loadu_si256 xs i = sub_slice xs i 32"

definition mm_storeu_si128 :: "u8 list \<Rightarrow> usize \<Rightarrow> m128 \<Rightarrow> (u8 list, 'e) result" where
  "mm_storeu_si128 out i a = write_at out i (take 16 a)"

definition mm_storel_epi64 :: "u8 list \<Rightarrow> usize \<Rightarrow> m128 \<Rightarrow> (u8 list, 'e) result" where
  "mm_storel_epi64 out i a = write_at out i (take 8 a)"

definition mm256_castsi256_si128 :: "'a list \<Rightarrow> 'a list" where
  "mm256_castsi256_si128 a = take (length a div 2) a"

definition mm256_extracti128_si256_1 :: "'a list \<Rightarrow> 'a list" where
  "mm256_extracti128_si256_1 a = drop (length a div 2) a"

definition mm256_broadcastsi128_si256 :: "m128 \<Rightarrow> u8 list" where
  "mm256_broadcastsi128_si256 a = a @ a"

definition mm_setr_epi8 :: "int list \<Rightarrow> m128" where
  "mm_setr_epi8 xs = map word_of_int xs"

definition shuffle_byte :: "m128 \<Rightarrow> u8 \<Rightarrow> u8" where
  "shuffle_byte a b = (if 128 \<le> b then 0 else a ! (unat b mod 16))"

definition mm_shuffle_epi8 :: "m128 \<Rightarrow> m128 \<Rightarrow> m128" where
  "mm_shuffle_epi8 a m = map (shuffle_byte a) m"

definition mm256_shuffle_epi8 :: "u8 list \<Rightarrow> u8 list \<Rightarrow> u8 list" where
  "mm256_shuffle_epi8 a m =
     mm_shuffle_epi8 (take 16 a) (take 16 m) @ mm_shuffle_epi8 (drop 16 a) (drop 16 m)"

definition mm_unpacklo_epi64 :: "m128 \<Rightarrow> m128 \<Rightarrow> m128" where
  "mm_unpacklo_epi64 a b = take 8 a @ take 8 b"

definition mm_unpacklo_epi32 :: "m128 \<Rightarrow> m128 \<Rightarrow> m128" where
  "mm_unpacklo_epi32 a b = take 4 a @ take 4 b @ take 4 (drop 4 a) @ take 4 (drop 4 b)"

definition mm_unpacklo_epi8 :: "m128 \<Rightarrow> m128 \<Rightarrow> m128" where
  "mm_unpacklo_epi8 a b = concat (map2 (\<lambda>x y. [x, y]) (take 8 a) (take 8 b))"

definition mm_srli_si128_8 :: "m128 \<Rightarrow> m128" where
  "mm_srli_si128_8 a = drop 8 a @ replicate 8 0"

definition mm_or_si128 :: "m128 \<Rightarrow> m128 \<Rightarrow> m128" where
  "mm_or_si128 a b = map2 (\<lambda>x y. or x y) a b"

section \<open>Lanes of 32 bits\<close>

definition mm256_cvtepu8_epi32 :: "m128 \<Rightarrow> i32 list" where
  "mm256_cvtepu8_epi32 a = map ucast (take 8 a)"

definition mm256_set1_epi32 :: "i32 \<Rightarrow> i32 list" where
  "mm256_set1_epi32 x = replicate 8 x"

definition mm256_add_epi32 :: "i32 list \<Rightarrow> i32 list \<Rightarrow> i32 list" where
  "mm256_add_epi32 = map2 (+)"

definition mm256_sub_epi32 :: "i32 list \<Rightarrow> i32 list \<Rightarrow> i32 list" where
  "mm256_sub_epi32 = map2 (-)"

definition mm256_mullo_epi32 :: "i32 list \<Rightarrow> i32 list \<Rightarrow> i32 list" where
  "mm256_mullo_epi32 = map2 (*)"

definition i32_min :: "i32 \<Rightarrow> i32 \<Rightarrow> i32" where
  "i32_min a b = (if sint a \<le> sint b then a else b)"

definition i32_max :: "i32 \<Rightarrow> i32 \<Rightarrow> i32" where
  "i32_max a b = (if sint a \<le> sint b then b else a)"

definition mm256_min_epi32 :: "i32 list \<Rightarrow> i32 list \<Rightarrow> i32 list" where
  "mm256_min_epi32 = map2 i32_min"

definition mm256_max_epi32 :: "i32 list \<Rightarrow> i32 list \<Rightarrow> i32 list" where
  "mm256_max_epi32 = map2 i32_max"

definition mm256_srai_epi32 :: "nat \<Rightarrow> i32 list \<Rightarrow> i32 list" where
  "mm256_srai_epi32 n = map (signed_drop_bit n)"

definition saturate_u16 :: "i32 \<Rightarrow> u16" where
  "saturate_u16 x = (if sint x < 0 then 0 else if 65535 < sint x then 65535 else ucast x)"

definition saturate_u8 :: "u16 \<Rightarrow> u8" where
  "saturate_u8 x = (if sint x < 0 then 0 else if 255 < sint x then 255 else ucast x)"

definition mm_packus_epi32 :: "i32 list \<Rightarrow> i32 list \<Rightarrow> u16 list" where
  "mm_packus_epi32 a b = map saturate_u16 a @ map saturate_u16 b"

definition mm_packus_epi16 :: "u16 list \<Rightarrow> u16 list \<Rightarrow> m128" where
  "mm_packus_epi16 a b = map saturate_u8 a @ map saturate_u8 b"

section \<open>Packing clamped lanes\<close>

text \<open>\<open>x.clamp(0, 255) as u8\<close>.\<close>

definition clamp_u8 :: "i32 \<Rightarrow> u8" where
  "clamp_u8 x = (if sint x < 0 then 0 else if 255 < sint x then 255 else ucast x)"

lemma sint_small:
  assumes "0 \<le> sint (x :: i32)" "sint x \<le> 255"
  shows "uint x = sint x" "sint (ucast x :: u16) = sint x"
proof -
  have "uint (word_of_int (sint x) :: i32) = sint x"
    unfolding uint_word_of_int_eq using assms by (simp add: take_bit_int_eq_self_iff)
  then show "uint x = sint x" by simp
  then have u: "uint x \<le> 255" using assms(2) by simp
  have "uint (ucast x :: u16) = uint x"
    using u by (simp add: unsigned_ucast_eq take_bit_int_eq_self_iff)
  moreover have "sint (ucast x :: u16) = uint (ucast x :: u16)"
  proof -
    have "- 32768 \<le> uint x" by (rule order_trans [of _ 0]) simp_all
    then show ?thesis
      unfolding sint_uint using u calculation by (simp add: signed_take_bit_int_eq_self_iff)
  qed
  ultimately show "sint (ucast x :: u16) = sint x" using \<open>uint x = sint x\<close> by simp
qed

lemma ucast_narrow: "ucast (ucast (x :: i32) :: u16) = (ucast x :: u8)"
  by (rule bit_word_eqI) (auto simp: bit_simps)

lemma pack_clamped:
  "saturate_u8 (saturate_u16 (i32_min (i32_max x 0) 255)) = clamp_u8 x"
proof -
  consider "sint x < 0" | "0 \<le> sint x" "sint x \<le> 255" | "255 < sint x" by linarith
  then show ?thesis
  proof cases
    case 2
    then have "i32_min (i32_max x 0) 255 = x"
      using word_eq_iff_signed [of x 0] by (auto simp: i32_min_def i32_max_def)
    with 2 sint_small [OF 2] show ?thesis
      by (simp add: saturate_u16_def saturate_u8_def clamp_u8_def ucast_narrow)
  qed (auto simp: saturate_u16_def saturate_u8_def clamp_u8_def i32_min_def i32_max_def)
qed

end
