(* ===== verification/Yuv.thy ===== *)
theory Yuv
  imports Layout Simd
begin

text \<open>
  YUV planes, colour coefficients and the conversion of one pixel
  (\<open>src/utils/color_convert.rs\<close>).  An \<open>i32\<close> is a 32-bit word: its operations wrap, and
  \<open>yuv_pixel_exact\<close> shows that with the crate's coefficients nothing ever wraps.
\<close>

section \<open>Planes\<close>

record yuv_plane =
  yp_data :: "u8 list"
  yp_row_stride :: usize
  yp_pixel_stride :: usize

record yuv420sp =
  sp_y :: "u8 list"
  sp_uv :: "u8 list"
  sp_y_stride :: usize
  sp_uv_stride :: usize
  sp_vu_order :: bool

definition yuv_plane_validate :: "yuv_plane \<Rightarrow> usize \<Rightarrow> usize \<Rightarrow> unit camera_result" where
  "yuv_plane_validate p width height =
     (let row_bytes =
        Option.bind (checked_sub width 1) (\<lambda>n.
        Option.bind (checked_mul n (yp_pixel_stride p)) (\<lambda>n. checked_add n 1));
          required =
        Option.bind (checked_sub height 1) (\<lambda>n.
        Option.bind (checked_mul n (yp_row_stride p)) (\<lambda>n.
        Option.bind row_bytes (\<lambda>b. checked_add n b)))
      in if yp_pixel_stride p = 0
          \<or> (case row_bytes of None \<Rightarrow> True | Some n \<Rightarrow> yp_row_stride p < n)
          \<or> (case required of None \<Rightarrow> True | Some n \<Rightarrow> length (yp_data p) < n)
        then Err (invalid_frame ''Invalid YUV plane stride or truncated data'')
        else Ok ())"

section \<open>Coefficients\<close>

text \<open>\<open>[cy, cr, gu, gv, cb, offset]\<close>.\<close>

type_synonym coefficients = "i32 \<times> i32 \<times> i32 \<times> i32 \<times> i32 \<times> i32"

definition BT601_FULL_COEFFICIENTS :: coefficients where
  "BT601_FULL_COEFFICIENTS = (1024, 1436, 352, 731, 1815, 0)"

text \<open>
  \<open>x.round() as i32\<close> of a positive number.  The code computes the argument in \<open>f64\<close>; the exact
  values are at least 0.002 away from a tie, far more than the rounding error of the few
  operations, so the integers are the same.
\<close>

definition round_i32 :: "rat \<Rightarrow> i32" where
  "round_i32 x = of_int \<lfloor>x + 1 / 2\<rfloor>"

definition matrix_weights :: "color_matrix \<Rightarrow> (rat \<times> rat) option" where
  "matrix_weights m =
     (case m of
        MatrixBt601 \<Rightarrow> Some (299 / 1000, 114 / 1000)
      | MatrixBt709 \<Rightarrow> Some (2126 / 10000, 722 / 10000)
      | MatrixBt2020 \<Rightarrow> Some (2627 / 10000, 593 / 10000)
      | MatrixSmpte240M \<Rightarrow> Some (212 / 1000, 87 / 1000)
      | MatrixUnknown \<Rightarrow> None)"

definition range_scales :: "color_range \<Rightarrow> (rat \<times> rat \<times> i32) option" where
  "range_scales r =
     (case r of
        RangeFull \<Rightarrow> Some (1, 1, 0)
      | RangeLimited \<Rightarrow> Some (255 / 219, 255 / 224, 16)
      | RangeUnknown \<Rightarrow> None)"

definition color_coefficients :: "color_info \<Rightarrow> coefficients camera_result" where
  "color_coefficients color =
     (if ci_matrix color = MatrixBt601 \<and> ci_range color = RangeFull
      then Ok BT601_FULL_COEFFICIENTS
      else
        and_then (ok_or (matrix_weights (ci_matrix color))
          (unsupported_format ''YUV color matrix is unknown; supply a color override'')) (\<lambda>(kr, kb).
        and_then (ok_or (range_scales (ci_range color))
          (unsupported_format ''YUV quantization range is unknown; supply a color override''))
          (\<lambda>(sy, sc, offset).
          let kg = 1 - kr - kb
          in Ok (round_i32 (sy * 1024),
                 round_i32 ((2 - 2 * kr) * sc * 1024),
                 round_i32 ((2 - 2 * kb) * kb / kg * sc * 1024),
                 round_i32 ((2 - 2 * kr) * kr / kg * sc * 1024),
                 round_i32 ((2 - 2 * kb) * sc * 1024),
                 offset))))"

section \<open>Pixels\<close>

text \<open>The three bytes \<open>yuv_pixel\<close> writes.\<close>

definition yuv_pixel :: "coefficients \<Rightarrow> u8 \<Rightarrow> u8 \<Rightarrow> u8 \<Rightarrow> u8 list" where
  "yuv_pixel c y u v =
     (case c of (cy, cr, gu, gv, cb, offset) \<Rightarrow>
        let y = (ucast y - offset) * cy;
            u = ucast u - 128;
            v = ucast v - 128
        in [clamp_u8 (signed_drop_bit 10 (y + cr * v + 512)),
            clamp_u8 (signed_drop_bit 10 (y - gu * u - gv * v + 512)),
            clamp_u8 (signed_drop_bit 10 (y + cb * u + 512))])"

lemma length_yuv_pixel [simp]: "length (yuv_pixel c y u v) = 3"
  by (cases c) (simp add: yuv_pixel_def Let_def)

section \<open>The pixel formula is exact\<close>

text \<open>The coefficients the crate can use.\<close>

definition crate_coefficients :: "coefficients set" where
  "crate_coefficients =
     {(1024, 1436, 352, 731, 1815, 0), (1192, 1634, 401, 832, 2066, 16),
      (1024, 1613, 192, 479, 1900, 0), (1192, 1836, 218, 546, 2163, 16),
      (1024, 1510, 169, 585, 1927, 0), (1192, 1719, 192, 666, 2193, 16),
      (1024, 1614, 232, 488, 1870, 0), (1192, 1837, 264, 556, 2129, 16)}"

lemma floor_quotient: "\<lfloor>numeral a / numeral b :: rat\<rfloor> = numeral a div numeral b"
  using floor_divide_of_int_eq [of "numeral a" "numeral b", where 'a = rat] by simp

lemma color_coefficients_table:
  "ci_matrix color = MatrixBt601 \<Longrightarrow> ci_range color = RangeLimited \<Longrightarrow>
     color_coefficients color = Ok (1192, 1634, 401, 832, 2066, 16)"
  "ci_matrix color = MatrixBt709 \<Longrightarrow> ci_range color = RangeFull \<Longrightarrow>
     color_coefficients color = Ok (1024, 1613, 192, 479, 1900, 0)"
  "ci_matrix color = MatrixBt709 \<Longrightarrow> ci_range color = RangeLimited \<Longrightarrow>
     color_coefficients color = Ok (1192, 1836, 218, 546, 2163, 16)"
  "ci_matrix color = MatrixBt2020 \<Longrightarrow> ci_range color = RangeFull \<Longrightarrow>
     color_coefficients color = Ok (1024, 1510, 169, 585, 1927, 0)"
  "ci_matrix color = MatrixBt2020 \<Longrightarrow> ci_range color = RangeLimited \<Longrightarrow>
     color_coefficients color = Ok (1192, 1719, 192, 666, 2193, 16)"
  "ci_matrix color = MatrixSmpte240M \<Longrightarrow> ci_range color = RangeFull \<Longrightarrow>
     color_coefficients color = Ok (1024, 1614, 232, 488, 1870, 0)"
  "ci_matrix color = MatrixSmpte240M \<Longrightarrow> ci_range color = RangeLimited \<Longrightarrow>
     color_coefficients color = Ok (1192, 1837, 264, 556, 2129, 16)"
  by (simp_all add: color_coefficients_def matrix_weights_def range_scales_def ok_or_def Let_def
      round_i32_def floor_quotient)

lemma color_coefficients_crate:
  assumes "color_coefficients color = Ok c"
  shows "c \<in> crate_coefficients"
proof -
  have unknown: "ci_matrix color \<noteq> MatrixUnknown" "ci_range color \<noteq> RangeUnknown"
    using assms
    by (auto simp: color_coefficients_def matrix_weights_def range_scales_def ok_or_def Let_def
        split: color_matrix.splits if_splits)
  show ?thesis
  proof (cases "ci_matrix color = MatrixBt601 \<and> ci_range color = RangeFull")
    case True
    with assms show ?thesis
      by (simp add: color_coefficients_def BT601_FULL_COEFFICIENTS_def crate_coefficients_def)
  next
    case False
    with unknown assms color_coefficients_table [of color] show ?thesis
      unfolding crate_coefficients_def
      by (cases "ci_matrix color"; cases "ci_range color"; simp)
  qed
qed

definition coefficient_ints :: "coefficients \<Rightarrow> int \<times> int \<times> int \<times> int \<times> int \<times> int" where
  "coefficient_ints c =
     (case c of (cy, cr, gu, gv, cb, offset) \<Rightarrow>
        (sint cy, sint cr, sint gu, sint gv, sint cb, sint offset))"

definition clamp_int :: "int \<Rightarrow> u8" where
  "clamp_int n = of_int (max 0 (min 255 n))"

lemma sint_word_of_int_small:
  "- 2147483648 \<le> n \<Longrightarrow> n < 2147483648 \<Longrightarrow> sint (word_of_int n :: i32) = n"
  by (simp add: sint_sbintrunc' signed_take_bit_int_eq_self_iff)

lemma clamp_shift:
  assumes "- 2147483648 \<le> n" "n < 2147483648"
  shows "clamp_u8 (signed_drop_bit 10 (word_of_int n)) = clamp_int (n div 1024)"
proof -
  have s: "sint (signed_drop_bit 10 (word_of_int n :: i32)) = n div 1024"
    using sint_word_of_int_small [OF assms]
    by (simp add: sint_signed_drop_bit_eq drop_bit_eq_div)
  have "ucast w = (scast w :: u8)" for w :: i32
    by (rule bit_word_eqI) (auto simp: bit_simps)
  then have "ucast (signed_drop_bit 10 (word_of_int n :: i32)) = (word_of_int (n div 1024) :: u8)"
    using s scast_eq [of "signed_drop_bit 10 (word_of_int n :: i32)"] by metis
  then show ?thesis using s by (auto simp: clamp_u8_def clamp_int_def)
qed

lemma abs_product: "\<bar>a\<bar> \<le> A \<Longrightarrow> \<bar>b\<bar> \<le> B \<Longrightarrow> \<bar>a * b\<bar> \<le> A * (B :: int)"
  unfolding abs_mult by (rule mult_mono) auto

lemma yuv_pixel_ints:
  assumes "\<bar>cy\<bar> \<le> 4000" "\<bar>cr\<bar> \<le> 4000" "\<bar>gu\<bar> \<le> 4000" "\<bar>gv\<bar> \<le> 4000" "\<bar>cb\<bar> \<le> 4000" "\<bar>off\<bar> \<le> 255"
  shows "yuv_pixel (word_of_int cy, word_of_int cr, word_of_int gu, word_of_int gv, word_of_int cb,
      word_of_int off) y u v =
    (let y = (uint y - off) * cy; u = uint u - 128; v = uint v - 128
     in [clamp_int ((y + cr * v + 512) div 1024),
         clamp_int ((y - gu * u - gv * v + 512) div 1024),
         clamp_int ((y + cb * u + 512) div 1024)])"
proof -
  define Y U V where "Y = uint y" and "U = uint u" and "V = uint v"
  have "0 \<le> uint w \<and> uint w < 256" for w :: u8 using unsigned_less [of w, where 'a = int] by simp
  then have b: "\<bar>Y - off\<bar> \<le> 510" "\<bar>U - 128\<bar> \<le> 128" "\<bar>V - 128\<bar> \<le> 128"
    using assms(6) unfolding Y_def U_def V_def by (smt (verit))+
  note p = abs_product [OF b(1) assms(1)] abs_product [OF assms(2) b(3)] abs_product [OF assms(3) b(2)]
    abs_product [OF assms(4) b(3)] abs_product [OF assms(5) b(2)]
  have w: "ucast y = (word_of_int Y :: i32)" "ucast u = (word_of_int U :: i32)"
    "ucast v = (word_of_int V :: i32)"
    by (simp_all add: Y_def U_def V_def)
  have r: "clamp_u8 (signed_drop_bit 10 ((word_of_int Y - word_of_int off) * word_of_int cy
      + word_of_int cr * (word_of_int V - 128) + 512))
    = clamp_int (((Y - off) * cy + cr * (V - 128) + 512) div 1024)"
    using clamp_shift [of "(Y - off) * cy + cr * (V - 128) + 512"] p(1,2) by simp
  have g: "clamp_u8 (signed_drop_bit 10 ((word_of_int Y - word_of_int off) * word_of_int cy
      - word_of_int gu * (word_of_int U - 128) - word_of_int gv * (word_of_int V - 128) + 512))
    = clamp_int (((Y - off) * cy - gu * (U - 128) - gv * (V - 128) + 512) div 1024)"
    using clamp_shift [of "(Y - off) * cy - gu * (U - 128) - gv * (V - 128) + 512"] p(1,3,4) by simp
  have bl: "clamp_u8 (signed_drop_bit 10 ((word_of_int Y - word_of_int off) * word_of_int cy
      + word_of_int cb * (word_of_int U - 128) + 512))
    = clamp_int (((Y - off) * cy + cb * (U - 128) + 512) div 1024)"
    using clamp_shift [of "(Y - off) * cy + cb * (U - 128) + 512"] p(1,5) by simp
  show ?thesis
    unfolding yuv_pixel_def Let_def prod.case w r g bl by (simp add: Y_def U_def V_def)
qed

lemma crate_coefficients_small:
  assumes "c \<in> crate_coefficients" "coefficient_ints c = (cy, cr, gu, gv, cb, off)"
  shows "\<bar>cy\<bar> \<le> 4000 \<and> \<bar>cr\<bar> \<le> 4000 \<and> \<bar>gu\<bar> \<le> 4000 \<and> \<bar>gv\<bar> \<le> 4000 \<and> \<bar>cb\<bar> \<le> 4000 \<and> \<bar>off\<bar> \<le> 255"
  using assms by (auto simp: crate_coefficients_def coefficient_ints_def)

text \<open>C19: With the coefficients of any supported colour description the integer arithmetic of
  \<open>yuv_pixel\<close> never leaves the range of \<open>i32\<close>: each channel is the fixed-point formula over the
  integers, rounded to the nearest value and clamped to a byte.\<close>

theorem yuv_pixel_exact:
  assumes "color_coefficients color = Ok c"
  shows "yuv_pixel c y u v =
    (case coefficient_ints c of (cy, cr, gu, gv, cb, offset) \<Rightarrow>
       let y = (uint y - offset) * cy; u = uint u - 128; v = uint v - 128
       in [clamp_int ((y + cr * v + 512) div 1024),
           clamp_int ((y - gu * u - gv * v + 512) div 1024),
           clamp_int ((y + cb * u + 512) div 1024)])"
proof -
  obtain cy cr gu gv cb off where c: "coefficient_ints c = (cy, cr, gu, gv, cb, off)" by (metis prod_cases6)
  then have "c = (word_of_int cy, word_of_int cr, word_of_int gu, word_of_int gv, word_of_int cb, word_of_int off)"
    by (cases c) (auto simp: coefficient_ints_def)
  with yuv_pixel_ints crate_coefficients_small [OF color_coefficients_crate [OF assms] c] c
  show ?thesis by simp
qed

lemma yuv_pixel_exact_witness:
  "yuv_pixel BT601_FULL_COEFFICIENTS 235 16 240 =
     [clamp_int ((235 * 1024 + 1436 * 112 + 512) div 1024),
      clamp_int ((235 * 1024 - 352 * - 112 - 731 * 112 + 512) div 1024),
      clamp_int ((235 * 1024 + 1815 * - 112 + 512) div 1024)]"
proof -
  have "color_coefficients \<lparr>ci_matrix = MatrixBt601, ci_range = RangeFull, ci_primaries = PrimariesUnknown,
      ci_transfer = TransferUnknown\<rparr> = Ok BT601_FULL_COEFFICIENTS"
    by (simp add: color_coefficients_def)
  from yuv_pixel_exact [OF this, of 235 16 240] show ?thesis
    by (simp add: coefficient_ints_def BT601_FULL_COEFFICIENTS_def Let_def)
qed

end
