(* ===== verification/Avx2.thy ===== *)
theory Avx2
  imports Yuv
begin

text \<open>
  The AVX2 and SSSE3 kernels of \<open>src/utils/color_convert.rs\<close> (\<open>mod x86\<close>), instruction by
  instruction, and what each writes: the pixels of the scalar formula, for a prefix of the row.
\<close>

section \<open>Shuffles\<close>

definition combine_shuffled_halves :: "u8 list \<Rightarrow> m128 \<Rightarrow> m128" where
  "combine_shuffled_halves raw m =
     mm_unpacklo_epi64 (mm_shuffle_epi8 (mm256_castsi256_si128 raw) m)
       (mm_shuffle_epi8 (mm256_extracti128_si256_1 raw) m)"

definition combine_shuffled_quarters :: "u8 list \<Rightarrow> m128 \<Rightarrow> m128" where
  "combine_shuffled_quarters raw m =
     mm_unpacklo_epi32 (mm_shuffle_epi8 (mm256_castsi256_si128 raw) m)
       (mm_shuffle_epi8 (mm256_extracti128_si256_1 raw) m)"

definition store_twelve_bytes :: "m128 \<Rightarrow> u8 list \<Rightarrow> usize \<Rightarrow> (u8 list, 'e) result" where
  "store_twelve_bytes a out i =
     and_then (mm_storel_epi64 out i a) (\<lambda>out.
       write_at out (i + 8) (take 4 (mm_srli_si128_8 a)))"

section \<open>Eight pixels\<close>

definition prepare_chroma ::
  "i32 \<Rightarrow> i32 \<Rightarrow> m128 \<Rightarrow> m128 \<Rightarrow> coefficients \<Rightarrow> i32 list \<times> i32 list \<times> i32 list" where
  "prepare_chroma rounding green_rounding u_bytes v_bytes c =
     (case c of (_, cr, gu, gv, cb, _) \<Rightarrow>
        let center = mm256_set1_epi32 128;
            u = mm256_sub_epi32 (mm256_cvtepu8_epi32 u_bytes) center;
            v = mm256_sub_epi32 (mm256_cvtepu8_epi32 v_bytes) center
        in (mm256_add_epi32 (mm256_mullo_epi32 v (mm256_set1_epi32 cr)) (mm256_set1_epi32 rounding),
            mm256_add_epi32
              (mm256_sub_epi32
                (mm256_sub_epi32 (mm256_set1_epi32 0) (mm256_mullo_epi32 u (mm256_set1_epi32 gu)))
                (mm256_mullo_epi32 v (mm256_set1_epi32 gv)))
              (mm256_set1_epi32 green_rounding),
            mm256_add_epi32 (mm256_mullo_epi32 u (mm256_set1_epi32 cb)) (mm256_set1_epi32 rounding)))"

definition pack_lanes :: "i32 list \<Rightarrow> m128" where
  "pack_lanes a =
     (let words = mm_packus_epi32 (mm256_castsi256_si128 a) (mm256_extracti128_si256_1 a)
      in mm_packus_epi16 words words)"

definition clamp_lanes :: "i32 list \<Rightarrow> i32 list" where
  "clamp_lanes a = mm256_min_epi32 (mm256_max_epi32 a (mm256_set1_epi32 0)) (mm256_set1_epi32 255)"

definition convert_eight_with_chroma ::
  "nat \<Rightarrow> m128 \<Rightarrow> i32 list \<times> i32 list \<times> i32 list \<Rightarrow> coefficients \<Rightarrow> u8 list \<Rightarrow> (u8 list, 'e) result" where
  "convert_eight_with_chroma shift y_bytes chroma c out =
     (case (chroma, c) of ((chroma_r, chroma_g, chroma_b), (cy, _, _, _, _, offset)) \<Rightarrow>
        let y = mm256_mullo_epi32
              (mm256_sub_epi32 (mm256_cvtepu8_epi32 y_bytes) (mm256_set1_epi32 offset))
              (mm256_set1_epi32 cy);
            red = mm256_srai_epi32 shift (mm256_add_epi32 y chroma_r);
            green = mm256_srai_epi32 shift (mm256_add_epi32 y chroma_g);
            blue = mm256_srai_epi32 shift (mm256_add_epi32 y chroma_b);
            red = pack_lanes (clamp_lanes red);
            green = pack_lanes (clamp_lanes green);
            blue = pack_lanes (clamp_lanes blue);
            first = mm_or_si128
              (mm_or_si128
                (mm_shuffle_epi8 red (mm_setr_epi8 [0, -1, -1, 1, -1, -1, 2, -1, -1, 3, -1, -1, 4, -1, -1, 5]))
                (mm_shuffle_epi8 green (mm_setr_epi8 [-1, 0, -1, -1, 1, -1, -1, 2, -1, -1, 3, -1, -1, 4, -1, -1])))
              (mm_shuffle_epi8 blue (mm_setr_epi8 [-1, -1, 0, -1, -1, 1, -1, -1, 2, -1, -1, 3, -1, -1, 4, -1]));
            second = mm_or_si128
              (mm_or_si128
                (mm_shuffle_epi8 red (mm_setr_epi8 [-1, -1, 6, -1, -1, 7, -1, -1, -1, -1, -1, -1, -1, -1, -1, -1]))
                (mm_shuffle_epi8 green (mm_setr_epi8 [5, -1, -1, 6, -1, -1, 7, -1, -1, -1, -1, -1, -1, -1, -1, -1])))
              (mm_shuffle_epi8 blue (mm_setr_epi8 [-1, 5, -1, -1, 6, -1, -1, 7, -1, -1, -1, -1, -1, -1, -1, -1]))
        in and_then (mm_storeu_si128 out 0 first) (\<lambda>out. mm_storel_epi64 out 16 second))"

definition convert_eight ::
  "nat \<Rightarrow> i32 \<Rightarrow> i32 \<Rightarrow> m128 \<Rightarrow> m128 \<Rightarrow> m128 \<Rightarrow> coefficients \<Rightarrow> u8 list \<Rightarrow> (u8 list, 'e) result" where
  "convert_eight shift rounding green_rounding y_bytes u_bytes v_bytes c out =
     convert_eight_with_chroma shift y_bytes
       (prepare_chroma rounding green_rounding u_bytes v_bytes c) c out"

section \<open>What eight lanes compute\<close>

text \<open>The pixel the vector code computes in each lane; with the constants of the callers this is
  \<open>yuv_pixel\<close>.\<close>

definition lane_pixel :: "nat \<Rightarrow> i32 \<Rightarrow> i32 \<Rightarrow> coefficients \<Rightarrow> u8 \<Rightarrow> u8 \<Rightarrow> u8 \<Rightarrow> u8 list" where
  "lane_pixel shift rounding green_rounding c y u v =
     (case c of (cy, cr, gu, gv, cb, offset) \<Rightarrow>
        let y = (ucast y - offset) * cy;
            u = ucast u - 128;
            v = ucast v - 128
        in [clamp_u8 (signed_drop_bit shift (y + (v * cr + rounding))),
            clamp_u8 (signed_drop_bit shift (y + ((0 - u * gu) - v * gv + green_rounding))),
            clamp_u8 (signed_drop_bit shift (y + (u * cb + rounding)))])"

lemma lane_pixel_yuv: "lane_pixel 10 512 512 = yuv_pixel"
  by (intro ext) (simp add: lane_pixel_def yuv_pixel_def Let_def algebra_simps split: prod.split)

lemma pack_clamp_lanes:
  "length a = 8 \<Longrightarrow> pack_lanes (clamp_lanes a) = map clamp_u8 a @ map clamp_u8 a"
proof -
  assume a: "length a = 8"
  have "clamp_lanes a = map (\<lambda>x. i32_min (i32_max x 0) 255) a"
    using a by (intro nth_equalityI)
      (simp_all add: clamp_lanes_def mm256_min_epi32_def mm256_max_epi32_def mm256_set1_epi32_def)
  then show ?thesis
    by (simp add: pack_lanes_def Let_def mm_packus_epi32_def mm_packus_epi16_def
        mm256_castsi256_si128_def mm256_extracti128_si256_1_def a pack_clamped take_map drop_map
        flip: map_append)
qed

lemma list_eight:
  assumes "length xs = 8"
  obtains a b c d e f g h where "xs = [a, b, c, d, e, f, g, h]"
  using assms that by (auto simp: length_Suc_conv eval_nat_numeral)

lemma parts_eight: "parts f 8 = f 0 @ f 1 @ f 2 @ f 3 @ f 4 @ f 5 @ f 6 @ f 7"
  by (simp add: parts_def upt_rec eval_nat_numeral)

lemma shuffle_byte_one [simp]: "shuffle_byte a 1 = a ! 1"
  by (simp add: shuffle_byte_def word_le_nat_alt)

lemma interleave_eight:
  fixes r g b :: "u8 list"
  assumes "length r = 8" "length g = 8" "length b = 8"
  shows
   "mm_or_si128
              (mm_or_si128
                (mm_shuffle_epi8 (r @ r) (mm_setr_epi8 [0, -1, -1, 1, -1, -1, 2, -1, -1, 3, -1, -1, 4, -1, -1, 5]))
                (mm_shuffle_epi8 (g @ g) (mm_setr_epi8 [-1, 0, -1, -1, 1, -1, -1, 2, -1, -1, 3, -1, -1, 4, -1, -1])))
              (mm_shuffle_epi8 (b @ b) (mm_setr_epi8 [-1, -1, 0, -1, -1, 1, -1, -1, 2, -1, -1, 3, -1, -1, 4, -1]))
    = take 16 (parts (\<lambda>i. [r ! i, g ! i, b ! i]) 8)"
    "take 8 (mm_or_si128
              (mm_or_si128
                (mm_shuffle_epi8 (r @ r) (mm_setr_epi8 [-1, -1, 6, -1, -1, 7, -1, -1, -1, -1, -1, -1, -1, -1, -1, -1]))
                (mm_shuffle_epi8 (g @ g) (mm_setr_epi8 [5, -1, -1, 6, -1, -1, 7, -1, -1, -1, -1, -1, -1, -1, -1, -1])))
              (mm_shuffle_epi8 (b @ b) (mm_setr_epi8 [-1, 5, -1, -1, 6, -1, -1, 7, -1, -1, -1, -1, -1, -1, -1, -1])))
    = drop 16 (parts (\<lambda>i. [r ! i, g ! i, b ! i]) 8)"
proof -
  note p = parts_eight
  from assms(1) obtain r0 r1 r2 r3 r4 r5 r6 r7 where r: "r = [r0, r1, r2, r3, r4, r5, r6, r7]" by (rule list_eight)
  from assms(2) obtain g0 g1 g2 g3 g4 g5 g6 g7 where g: "g = [g0, g1, g2, g3, g4, g5, g6, g7]" by (rule list_eight)
  from assms(3) obtain b0 b1 b2 b3 b4 b5 b6 b7 where b: "b = [b0, b1, b2, b3, b4, b5, b6, b7]" by (rule list_eight)
  show "mm_or_si128
              (mm_or_si128
                (mm_shuffle_epi8 (r @ r) (mm_setr_epi8 [0, -1, -1, 1, -1, -1, 2, -1, -1, 3, -1, -1, 4, -1, -1, 5]))
                (mm_shuffle_epi8 (g @ g) (mm_setr_epi8 [-1, 0, -1, -1, 1, -1, -1, 2, -1, -1, 3, -1, -1, 4, -1, -1])))
              (mm_shuffle_epi8 (b @ b) (mm_setr_epi8 [-1, -1, 0, -1, -1, 1, -1, -1, 2, -1, -1, 3, -1, -1, 4, -1]))
    = take 16 (parts (\<lambda>i. [r ! i, g ! i, b ! i]) 8)"
    unfolding p r g b by (simp add: mm_or_si128_def mm_shuffle_epi8_def mm_setr_epi8_def) (simp add: shuffle_byte_def)?
  show  "take 8 (mm_or_si128
              (mm_or_si128
                (mm_shuffle_epi8 (r @ r) (mm_setr_epi8 [-1, -1, 6, -1, -1, 7, -1, -1, -1, -1, -1, -1, -1, -1, -1, -1]))
                (mm_shuffle_epi8 (g @ g) (mm_setr_epi8 [5, -1, -1, 6, -1, -1, 7, -1, -1, -1, -1, -1, -1, -1, -1, -1])))
              (mm_shuffle_epi8 (b @ b) (mm_setr_epi8 [-1, 5, -1, -1, 6, -1, -1, 7, -1, -1, -1, -1, -1, -1, -1, -1])))
    = drop 16 (parts (\<lambda>i. [r ! i, g ! i, b ! i]) 8)"
    unfolding p r g b by (simp add: mm_or_si128_def mm_shuffle_epi8_def mm_setr_epi8_def) (simp add: shuffle_byte_def)?
qed
lemma parts_map: "length a = n \<Longrightarrow> length b = n \<Longrightarrow> length c = n \<Longrightarrow> (\<And>i. i < n \<Longrightarrow> p i = [a ! i, b ! i, c ! i]) \<Longrightarrow>
  parts (\<lambda>i. [a ! i, b ! i, c ! i]) n = parts p n"
  by (rule parts_cong) simp

lemma convert_eight_parts:
  assumes len: "8 \<le> length y" "8 \<le> length u" "8 \<le> length v" and out: "length out = 24"
  shows "convert_eight shift ro gr y u v c out
    = Ok (parts (\<lambda>i. lane_pixel shift ro gr c (y ! i) (u ! i) (v ! i)) 8)"
proof -
  obtain cy cr gu gv cb off where c: "c = (cy, cr, gu, gv, cb, off)" by (cases c)
  let ?p = "\<lambda>i. lane_pixel shift ro gr c (y ! i) (u ! i) (v ! i)"
  define r where "r = map (\<lambda>i. ?p i ! 0) [0..<8]"
  define g where "g = map (\<lambda>i. ?p i ! 1) [0..<8]"
  define b where "b = map (\<lambda>i. ?p i ! 2) [0..<8]"
  define lanes where "lanes k = mm256_srai_epi32 shift
     (mm256_add_epi32 (mm256_mullo_epi32
        (mm256_sub_epi32 (mm256_cvtepu8_epi32 y) (mm256_set1_epi32 off)) (mm256_set1_epi32 cy)) k)" for k
  note lane_defs = mm256_srai_epi32_def mm256_add_epi32_def mm256_mullo_epi32_def mm256_sub_epi32_def
    mm256_cvtepu8_epi32_def mm256_set1_epi32_def
  obtain kr kg kb where k: "prepare_chroma ro gr u v c = (kr, kg, kb)" by (metis prod_cases3)
  have "length kr = 8" "length kg = 8" "length kb = 8"
    using k len by (auto simp: prepare_chroma_def c lane_defs Let_def)
  then have l: "length (lanes kr) = 8" "length (lanes kg) = 8" "length (lanes kb) = 8"
    using len by (simp_all add: lanes_def lane_defs)
  have "map clamp_u8 (lanes kr) = r" "map clamp_u8 (lanes kg) = g" "map clamp_u8 (lanes kb) = b"
    using k len
    by (auto intro!: nth_equalityI simp: l r_def g_def b_def lanes_def prepare_chroma_def c lane_defs
        lane_pixel_def Let_def)
  then have packed: "pack_lanes (clamp_lanes (lanes kr)) = r @ r" "pack_lanes (clamp_lanes (lanes kg)) = g @ g"
    "pack_lanes (clamp_lanes (lanes kb)) = b @ b"
    using l by (simp_all add: pack_clamp_lanes)
  have len8: "length r = 8" "length g = 8" "length b = 8" by (simp_all add: r_def g_def b_def)
  have "parts (\<lambda>i. [r ! i, g ! i, b ! i]) 8 = parts ?p 8"
    by (rule parts_cong) (simp add: r_def g_def b_def lane_pixel_def c Let_def)
  note pixels = interleave_eight [OF len8, unfolded this]
  have "length (parts ?p 8) = 24" by (subst length_parts) (simp_all add: lane_pixel_def c Let_def)
  then have "and_then (mm_storeu_si128 out 0 (take 16 (parts ?p 8))) (\<lambda>out. write_at out 16 (drop 16 (parts ?p 8)))
      = Ok (parts ?p 8)"
    using out by (simp add: mm_storeu_si128_def write_at_def overwrite_def)
  then show ?thesis
    unfolding convert_eight_def convert_eight_with_chroma_def k
    unfolding c prod.case Let_def lanes_def [symmetric] packed mm_storel_epi64_def pixels [unfolded c]
    by simp
qed
definition convert_sixteen ::
  "nat \<Rightarrow> i32 \<Rightarrow> i32 \<Rightarrow> m128 \<Rightarrow> m128 \<Rightarrow> m128 \<Rightarrow> coefficients \<Rightarrow> u8 list \<Rightarrow> (u8 list, 'e) result" where
  "convert_sixteen shift rounding green_rounding y u v c destination =
     and_then (modify_slice destination 0 24 (convert_eight shift rounding green_rounding y u v c))
       (\<lambda>destination.
         modify_slice destination 24 (length destination - 24)
           (convert_eight shift rounding green_rounding
             (mm_srli_si128_8 y) (mm_srli_si128_8 u) (mm_srli_si128_8 v) c))"

lemma length_lane_pixel [simp]: "length (lane_pixel shift ro gr c y u v) = 3"
  by (cases c) (simp add: lane_pixel_def Let_def)

lemma nth_srli: "length a = 16 \<Longrightarrow> i < 8 \<Longrightarrow> mm_srli_si128_8 a ! i = a ! (8 + i)"
  by (simp add: mm_srli_si128_8_def nth_append)

lemma length_srli: "length a = 16 \<Longrightarrow> length (mm_srli_si128_8 a) = 16"
  by (simp add: mm_srli_si128_8_def)

lemma convert_high:
  assumes "length y = 16" "length u = 16" "length v = 16" "length out = 24"
  shows "convert_eight shift ro gr (mm_srli_si128_8 y) (mm_srli_si128_8 u) (mm_srli_si128_8 v) c out
    = Ok (parts (\<lambda>i. lane_pixel shift ro gr c (y ! (8 + i)) (u ! (8 + i)) (v ! (8 + i))) 8)"
  using assms by (simp add: convert_eight_parts length_srli nth_srli cong: parts_cong)

lemma convert_sixteen_parts:
  assumes len: "length y = 16" "length u = 16" "length v = 16" and out: "length out = 48"
  shows "convert_sixteen shift ro gr y u v c out
    = Ok (parts (\<lambda>i. lane_pixel shift ro gr c (y ! i) (u ! i) (v ! i)) 16)"
proof -
  let ?p = "\<lambda>i. lane_pixel shift ro gr c (y ! i) (u ! i) (v ! i)"
  let ?q = "\<lambda>k. parts (\<lambda>i. ?p (8 * k + i)) 8"
  have q: "length (?q k) = 24" for k by (subst length_parts) simp_all
  have low: "convert_eight shift ro gr y u v c (take 24 (drop 0 out)) = Ok (?q 0)"
    using len out by (simp add: convert_eight_parts)
  have high: "convert_eight shift ro gr (mm_srli_si128_8 y) (mm_srli_si128_8 u) (mm_srli_si128_8 v) c
      (take 24 (drop 24 out)) = Ok (?q 1)"
    using len out by (simp add: convert_high)
  have first: "modify_slice (filled ?q 0 out) 0 24 (convert_eight shift ro gr y u v c) = Ok (filled ?q (Suc 0) out)"
    by (rule modify_filled [of ?q 24]) (use q low out in simp_all)
  have second: "modify_slice (filled ?q (Suc 0) out) 24 24
      (convert_eight shift ro gr (mm_srli_si128_8 y) (mm_srli_si128_8 u) (mm_srli_si128_8 v) c)
    = Ok (filled ?q (Suc (Suc 0)) out)"
    by (rule modify_filled [of ?q 24]) (use q high out in simp_all)
  have length: "length (filled ?q (Suc 0) out) = 48"
    using out length_filled [of ?q "Suc 0" out] length_parts [of "Suc 0" ?q 24] q by simp
  have "filled ?q (Suc (Suc 0)) out = parts ?p 16"
    using parts_blocks [of ?p 8 2] out length_parts [of 16 ?p 3]
    by (simp add: filled_def numeral_2_eq_2)
  then show ?thesis
    by (simp add: convert_sixteen_def first [unfolded filled_0] length second)
qed

end
