(* ===== verification/Avx2_Rows.thy ===== *)
theory Avx2_Rows
  imports Avx2
begin

text \<open>
  The row kernels of \<open>mod x86\<close> in \<open>src/utils/color_convert.rs\<close>.  A kernel returns the number of
  pixels it converted with the row it wrote; every lemma \<open><kernel>_filled\<close> states that it reads
  and writes in bounds, and that the prefix it reports holds the pixels of the scalar formula.
\<close>

section \<open>Kernels\<close>

definition planar_row_avx2 ::
  "nat \<Rightarrow> i32 \<Rightarrow> i32 \<Rightarrow> u8 list \<Rightarrow> u8 list \<Rightarrow> u8 list \<Rightarrow> u8 list \<Rightarrow> coefficients \<Rightarrow>
   (usize \<times> u8 list, 'e) result" where
  "planar_row_avx2 shift ro gr y u v rgb c =
     (let groups = min (min (min (length y div 16) (length u div 8)) (length v div 8)) (length rgb div 48)
      in and_then
        (for_each (\<lambda>group rgb.
           and_then (mm_loadu_si128 y (group * 16)) (\<lambda>y.
           and_then (mm_loadl_epi64 u (group * 8)) (\<lambda>u.
           and_then (mm_loadl_epi64 v (group * 8)) (\<lambda>v.
             modify_slice rgb (group * 48) 48
               (convert_sixteen shift ro gr y (mm_unpacklo_epi8 u u) (mm_unpacklo_epi8 v v) c)))))
           [0..<groups] rgb)
        (\<lambda>rgb. Ok (groups * 16, rgb)))"

definition even_mask :: m128 where
  "even_mask = mm_setr_epi8 [0, 2, 4, 6, 8, 10, 12, 14, -1, -1, -1, -1, -1, -1, -1, -1]"

definition odd_mask :: m128 where
  "odd_mask = mm_setr_epi8 [1, 3, 5, 7, 9, 11, 13, 15, -1, -1, -1, -1, -1, -1, -1, -1]"

definition planar_half_row_avx2 ::
  "u8 list \<Rightarrow> u8 list \<Rightarrow> u8 list \<Rightarrow> u8 list \<Rightarrow> coefficients \<Rightarrow> (usize \<times> u8 list, 'e) result" where
  "planar_half_row_avx2 y u v rgb c =
     (let groups = min (min (min (length y div 16) (length u div 8)) (length v div 8)) (length rgb div 24)
      in and_then
        (for_each (\<lambda>group rgb.
           and_then (mm_loadu_si128 y (group * 16)) (\<lambda>y.
           and_then (mm_loadl_epi64 u (group * 8)) (\<lambda>u.
           and_then (mm_loadl_epi64 v (group * 8)) (\<lambda>v.
             modify_slice rgb (group * 24) 24
               (convert_eight 10 512 512 (mm_shuffle_epi8 y even_mask) u v c)))))
           [0..<groups] rgb)
        (\<lambda>rgb. Ok (groups * 8, rgb)))"

text \<open>The body shared by the two kernels that convert two rows at once.\<close>

definition convert_two_rows ::
  "nat \<Rightarrow> i32 \<Rightarrow> i32 \<Rightarrow> usize \<Rightarrow> m128 \<Rightarrow> m128 \<Rightarrow> m128 \<Rightarrow> m128 \<Rightarrow> coefficients \<Rightarrow> u8 list \<times> u8 list \<Rightarrow>
   (u8 list \<times> u8 list, 'e) result" where
  "convert_two_rows shift ro gr offset y0 y1 u v c rgbs =
     (let low = prepare_chroma ro gr u v c;
          high = prepare_chroma ro gr (mm_srli_si128_8 u) (mm_srli_si128_8 v) c
      in case rgbs of (rgb0, rgb1) \<Rightarrow>
        and_then (modify_slice rgb0 offset 24 (convert_eight_with_chroma shift y0 low c)) (\<lambda>rgb0.
        and_then (modify_slice rgb1 offset 24 (convert_eight_with_chroma shift y1 low c)) (\<lambda>rgb1.
        and_then (modify_slice rgb0 (offset + 24) 24
          (convert_eight_with_chroma shift (mm_srli_si128_8 y0) high c)) (\<lambda>rgb0.
        and_then (modify_slice rgb1 (offset + 24) 24
          (convert_eight_with_chroma shift (mm_srli_si128_8 y1) high c)) (\<lambda>rgb1.
        Ok (rgb0, rgb1))))))"

definition planar_two_rows_avx2 ::
  "nat \<Rightarrow> i32 \<Rightarrow> i32 \<Rightarrow> u8 list \<Rightarrow> u8 list \<Rightarrow> u8 list \<Rightarrow> u8 list \<Rightarrow> u8 list \<Rightarrow> u8 list \<Rightarrow> coefficients \<Rightarrow>
   (usize \<times> u8 list \<times> u8 list, 'e) result" where
  "planar_two_rows_avx2 shift ro gr y0 y1 u v rgb0 rgb1 c =
     (let groups = min (min (min (min (min (length y0 div 16) (length y1 div 16)) (length u div 8))
            (length v div 8)) (length rgb0 div 48)) (length rgb1 div 48)
      in and_then
        (for_each (\<lambda>group rgbs.
           and_then (mm_loadu_si128 y0 (group * 16)) (\<lambda>y0.
           and_then (mm_loadu_si128 y1 (group * 16)) (\<lambda>y1.
           and_then (mm_loadl_epi64 u (group * 8)) (\<lambda>u.
           and_then (mm_loadl_epi64 v (group * 8)) (\<lambda>v.
             convert_two_rows shift ro gr (group * 48) y0 y1
               (mm_unpacklo_epi8 u u) (mm_unpacklo_epi8 v v) c rgbs)))))
           [0..<groups] (rgb0, rgb1))
        (\<lambda>rgbs. Ok (groups * 16, rgbs)))"

definition even_pairs_mask :: m128 where
  "even_pairs_mask = mm_setr_epi8 [0, 0, 2, 2, 4, 4, 6, 6, 8, 8, 10, 10, 12, 12, 14, 14]"

definition odd_pairs_mask :: m128 where
  "odd_pairs_mask = mm_setr_epi8 [1, 1, 3, 3, 5, 5, 7, 7, 9, 9, 11, 11, 13, 13, 15, 15]"

definition semiplanar_row_avx2 ::
  "bool \<Rightarrow> nat \<Rightarrow> i32 \<Rightarrow> i32 \<Rightarrow> u8 list \<Rightarrow> u8 list \<Rightarrow> u8 list \<Rightarrow> coefficients \<Rightarrow>
   (usize \<times> u8 list, 'e) result" where
  "semiplanar_row_avx2 vu_order shift ro gr y uv rgb c =
     (let groups = min (min (length y div 16) (length uv div 16)) (length rgb div 48);
          (u_mask, v_mask) =
            (if vu_order then (odd_pairs_mask, even_pairs_mask) else (even_pairs_mask, odd_pairs_mask))
      in and_then
        (for_each (\<lambda>group rgb.
           and_then (mm_loadu_si128 y (group * 16)) (\<lambda>y.
           and_then (mm_loadu_si128 uv (group * 16)) (\<lambda>uv.
             modify_slice rgb (group * 48) 48
               (convert_sixteen shift ro gr y (mm_shuffle_epi8 uv u_mask) (mm_shuffle_epi8 uv v_mask) c))))
           [0..<groups] rgb)
        (\<lambda>rgb. Ok (groups * 16, rgb)))"

definition semiplanar_two_rows_avx2 ::
  "bool \<Rightarrow> nat \<Rightarrow> i32 \<Rightarrow> i32 \<Rightarrow> u8 list \<Rightarrow> u8 list \<Rightarrow> u8 list \<Rightarrow> u8 list \<Rightarrow> u8 list \<Rightarrow> coefficients \<Rightarrow>
   (usize \<times> u8 list \<times> u8 list, 'e) result" where
  "semiplanar_two_rows_avx2 vu_order shift ro gr y0 y1 uv rgb0 rgb1 c =
     (let groups = min (min (min (min (length y0 div 16) (length y1 div 16)) (length uv div 16))
            (length rgb0 div 48)) (length rgb1 div 48);
          (u_mask, v_mask) =
            (if vu_order then (odd_pairs_mask, even_pairs_mask) else (even_pairs_mask, odd_pairs_mask))
      in and_then
        (for_each (\<lambda>group rgbs.
           and_then (mm_loadu_si128 y0 (group * 16)) (\<lambda>y0.
           and_then (mm_loadu_si128 y1 (group * 16)) (\<lambda>y1.
           and_then (mm_loadu_si128 uv (group * 16)) (\<lambda>uv.
             convert_two_rows shift ro gr (group * 48) y0 y1
               (mm_shuffle_epi8 uv u_mask) (mm_shuffle_epi8 uv v_mask) c rgbs))))
           [0..<groups] (rgb0, rgb1))
        (\<lambda>rgbs. Ok (groups * 16, rgbs)))"

definition semiplanar_half_row_avx2 ::
  "bool \<Rightarrow> nat \<Rightarrow> i32 \<Rightarrow> i32 \<Rightarrow> u8 list \<Rightarrow> u8 list \<Rightarrow> u8 list \<Rightarrow> coefficients \<Rightarrow>
   (usize \<times> u8 list, 'e) result" where
  "semiplanar_half_row_avx2 vu_order shift ro gr y uv rgb c =
     (let groups = min (min (length y div 32) (length uv div 32)) (length rgb div 48)
      in and_then
        (for_each (\<lambda>group rgb.
           and_then (mm256_loadu_si256 y (group * 32)) (\<lambda>y.
           and_then (mm256_loadu_si256 uv (group * 32)) (\<lambda>uv.
             let y = combine_shuffled_halves y even_mask;
                 (u, v) =
                   (if vu_order
                    then (combine_shuffled_halves uv odd_mask, combine_shuffled_halves uv even_mask)
                    else (combine_shuffled_halves uv even_mask, combine_shuffled_halves uv odd_mask))
             in modify_slice rgb (group * 48) 48 (convert_sixteen shift ro gr y u v c))))
           [0..<groups] rgb)
        (\<lambda>rgb. Ok (groups * 16, rgb)))"

section \<open>Loads and expansions\<close>

lemma all_less_eight:
  "(\<forall>i<8::nat. P i) \<longleftrightarrow> P 0 \<and> P 1 \<and> P 2 \<and> P 3 \<and> P 4 \<and> P 5 \<and> P 6 \<and> P 7"
  by (simp add: numeral_eq_Suc All_less_Suc conj_ac)

lemma all_less_sixteen:
  "(\<forall>i<16::nat. P i) \<longleftrightarrow> P 0 \<and> P 1 \<and> P 2 \<and> P 3 \<and> P 4 \<and> P 5 \<and> P 6 \<and> P 7
     \<and> P 8 \<and> P 9 \<and> P 10 \<and> P 11 \<and> P 12 \<and> P 13 \<and> P 14 \<and> P 15"
  by (simp add: numeral_eq_Suc All_less_Suc conj_ac)

text \<open>The operand that the loop loads for group \<open>g\<close>.\<close>

definition group_of :: "nat \<Rightarrow> nat \<Rightarrow> u8 list \<Rightarrow> u8 list" where
  "group_of m g xs = take m (drop (m * g) xs)"

lemma group_of:
  assumes "m * Suc g \<le> length xs"
  shows "length (group_of m g xs) = m" "i < m \<Longrightarrow> group_of m g xs ! i = xs ! (m * g + i)"
  using assms by (simp_all add: group_of_def)

lemma load_group:
  "16 * Suc g \<le> length xs \<Longrightarrow> mm_loadu_si128 xs (g * 16) = Ok (group_of 16 g xs)"
  "8 * Suc g \<le> length xs \<Longrightarrow> mm_loadl_epi64 xs (g * 8) = Ok (group_of 8 g xs @ replicate 8 0)"
  "32 * Suc g \<le> length xs \<Longrightarrow> mm256_loadu_si256 xs (g * 32) = Ok (group_of 32 g xs)"
  by (simp_all add: mm_loadu_si128_def mm_loadl_epi64_def mm256_loadu_si256_def sub_slice_def
      group_of_def mult.commute)

lemma unpacklo_self:
  assumes "8 \<le> length a"
  shows "length (mm_unpacklo_epi8 a a) = 16" "i < 16 \<Longrightarrow> mm_unpacklo_epi8 a a ! i = a ! (i div 2)"
proof -
  from assms have "length (take 8 a) = 8" by simp
  then obtain a0 a1 a2 a3 a4 a5 a6 a7 where t: "take 8 a = [a0, a1, a2, a3, a4, a5, a6, a7]"
    by (rule list_eight)
  have "a ! j = take 8 a ! j" if "j < 8" for j using that by simp
  then have "a ! 0 = a0" "a ! 1 = a1" "a ! 2 = a2" "a ! 3 = a3" "a ! 4 = a4" "a ! 5 = a5"
    "a ! 6 = a6" "a ! 7 = a7"
    by (simp_all add: t)
  then have "\<forall>i<16. mm_unpacklo_epi8 a a ! i = a ! (i div 2)"
    unfolding all_less_sixteen by (simp add: mm_unpacklo_epi8_def t)
  then show "i < 16 \<Longrightarrow> mm_unpacklo_epi8 a a ! i = a ! (i div 2)" by blast
  show "length (mm_unpacklo_epi8 a a) = 16" by (simp add: mm_unpacklo_epi8_def t)
qed

lemma length_masks [simp]:
  "length even_mask = 16" "length odd_mask = 16" "length even_pairs_mask = 16" "length odd_pairs_mask = 16"
  by (simp_all add: even_mask_def odd_mask_def even_pairs_mask_def odd_pairs_mask_def mm_setr_epi8_def)

lemma length_shuffle [simp]: "length (mm_shuffle_epi8 a m) = length m"
  by (simp add: mm_shuffle_epi8_def)

lemma shuffle_even: "i < 8 \<Longrightarrow> mm_shuffle_epi8 a even_mask ! i = a ! (2 * i)"
proof -
  have "\<forall>i<8. mm_shuffle_epi8 a even_mask ! i = a ! (2 * i)"
    unfolding all_less_eight
    by (simp add: mm_shuffle_epi8_def even_mask_def mm_setr_epi8_def shuffle_byte_def)
  then show "i < 8 \<Longrightarrow> ?thesis" by blast
qed

lemma shuffle_odd: "i < 8 \<Longrightarrow> mm_shuffle_epi8 a odd_mask ! i = a ! (2 * i + 1)"
proof -
  have "\<forall>i<8. mm_shuffle_epi8 a odd_mask ! i = a ! (2 * i + 1)"
    unfolding all_less_eight
    by (simp add: mm_shuffle_epi8_def odd_mask_def mm_setr_epi8_def) (simp add: shuffle_byte_def)
  then show "i < 8 \<Longrightarrow> ?thesis" by blast
qed

lemma shuffle_pairs:
  "i < 16 \<Longrightarrow> mm_shuffle_epi8 a even_pairs_mask ! i = a ! (2 * (i div 2))"
  "i < 16 \<Longrightarrow> mm_shuffle_epi8 a odd_pairs_mask ! i = a ! (2 * (i div 2) + 1)"
proof -
  have "\<forall>i<16. mm_shuffle_epi8 a even_pairs_mask ! i = a ! (2 * (i div 2))"
    unfolding all_less_sixteen
    by (simp add: mm_shuffle_epi8_def even_pairs_mask_def mm_setr_epi8_def shuffle_byte_def)
  then show "i < 16 \<Longrightarrow> mm_shuffle_epi8 a even_pairs_mask ! i = a ! (2 * (i div 2))" by blast
  have "\<forall>i<16. mm_shuffle_epi8 a odd_pairs_mask ! i = a ! (2 * (i div 2) + 1)"
    unfolding all_less_sixteen
    by (simp add: mm_shuffle_epi8_def odd_pairs_mask_def mm_setr_epi8_def) (simp add: shuffle_byte_def)
  then show "i < 16 \<Longrightarrow> mm_shuffle_epi8 a odd_pairs_mask ! i = a ! (2 * (i div 2) + 1)" by blast
qed

section \<open>What the kernels write\<close>

text \<open>Writing the next block of \<open>m\<close> pixels.\<close>

lemma block_filled:
  assumes pixel: "\<And>i. length (p i) = 3" and room: "3 * m * Suc n \<le> length xs"
    and f: "\<And>out. length out = 3 * m \<Longrightarrow> f out = Ok (parts (\<lambda>i. p (m * n + i)) m)"
  shows "modify_slice (filled p (m * n) xs) (3 * m * n) (3 * m) f = Ok (filled p (m * Suc n) xs)"
proof -
  let ?q = "\<lambda>g. parts (\<lambda>i. p (m * g + i)) m"
  have q: "filled p (m * k) xs = filled ?q k xs" for k by (simp only: filled_def parts_blocks)
  have "length (?q g) = 3 * m" for g using pixel by (simp add: length_parts)
  moreover have "length (take (3 * m) (drop (3 * m * n) xs)) = 3 * m" using room by simp
  ultimately have "modify_slice (filled ?q n xs) (3 * m * n) (3 * m) f = Ok (filled ?q (Suc n) xs)"
    using room f by (intro modify_filled) simp_all
  then show ?thesis unfolding q .
qed

lemma room_Suc: "g < n \<Longrightarrow> m * n \<le> length xs \<Longrightarrow> m * Suc g \<le> length xs"
  by (meson Suc_leI le_trans mult_le_mono2)

lemma group_bound: "g < n \<Longrightarrow> n \<le> length xs div m \<Longrightarrow> m * Suc g \<le> length xs"
proof -
  assume "g < n" "n \<le> length xs div m"
  then have "m * Suc g \<le> m * (length xs div m)" by (intro mult_le_mono2) simp
  also have "\<dots> \<le> length xs" by (simp add: mult.commute)
  finally show ?thesis .
qed

lemma group_room:
  assumes "n \<le> length rgb div m"
  shows "m * n \<le> length rgb"
proof -
  have "m * n \<le> m * (length rgb div m)" using assms by (rule mult_le_mono2)
  also have "\<dots> \<le> length rgb" by (simp add: mult.commute)
  finally show ?thesis .
qed

text \<open>A loop over groups, each writing one block.\<close>

lemma group_loop:
  fixes p :: "nat \<Rightarrow> u8 list"
  assumes pixel: "\<And>i. length (p i) = 3" and room: "3 * m * n \<le> length rgb"
    and body: "\<And>g rgb. g < n \<Longrightarrow> body g rgb = modify_slice rgb (3 * m * g) (3 * m) (f g)"
    and block: "\<And>g out. g < n \<Longrightarrow> length out = 3 * m \<Longrightarrow>
      f g out = Ok (parts (\<lambda>i. p (m * g + i)) m)"
  shows "for_each body [0..<n] rgb = Ok (filled p (m * n) rgb)"
proof -
  have "for_each body [0..<n] (filled p (m * 0) rgb) = Ok (filled p (m * length [0..<n]) rgb)"
    using room_Suc [OF _ room] by (intro for_each_chain) (simp add: body block_filled pixel block)
  then show ?thesis by simp
qed

text \<open>Two rows at once.\<close>

lemma two_rows_filled:
  assumes len: "length y0 = 16" "length y1 = 16" "length u = 16" "length v = 16"
    and room: "48 * Suc g \<le> length rgb0" "48 * Suc g \<le> length rgb1"
    and pixel: "\<And>i. length (p0 i) = 3" "\<And>i. length (p1 i) = 3"
    and p: "\<And>i. i < 16 \<Longrightarrow> p0 (16 * g + i) = lane_pixel shift ro gr c (y0 ! i) (u ! i) (v ! i)"
      "\<And>i. i < 16 \<Longrightarrow> p1 (16 * g + i) = lane_pixel shift ro gr c (y1 ! i) (u ! i) (v ! i)"
  shows "convert_two_rows shift ro gr (48 * g) y0 y1 u v c (filled p0 (16 * g) rgb0, filled p1 (16 * g) rgb1)
    = Ok (filled p0 (16 * Suc g) rgb0, filled p1 (16 * Suc g) rgb1)"
proof -
  have low: "convert_eight shift ro gr y u v c out = Ok (parts (\<lambda>i. p (8 * (2 * g) + i)) 8)"
    if "length out = 3 * 8" "length y = 16" "\<And>i. i < 16 \<Longrightarrow> p (16 * g + i) = lane_pixel shift ro gr c (y ! i) (u ! i) (v ! i)"
    for out y p
    using that len parts_cong [of 8 "\<lambda>i. p (16 * g + i)" "\<lambda>i. lane_pixel shift ro gr c (y ! i) (u ! i) (v ! i)"]
    by (simp add: convert_eight_parts)
  have high: "convert_eight shift ro gr (mm_srli_si128_8 y) (mm_srli_si128_8 u) (mm_srli_si128_8 v) c out
      = Ok (parts (\<lambda>i. p (8 * (2 * g + 1) + i)) 8)"
    if "length out = 3 * 8" "length y = 16" "\<And>i. i < 16 \<Longrightarrow> p (16 * g + i) = lane_pixel shift ro gr c (y ! i) (u ! i) (v ! i)"
    for out y p
  proof -
    have "8 * (2 * g + 1) + i = 16 * g + (8 + i)" for i by simp
    with that(3) have "parts (\<lambda>i. p (8 * (2 * g + 1) + i)) 8
        = parts (\<lambda>i. lane_pixel shift ro gr c (y ! (8 + i)) (u ! (8 + i)) (v ! (8 + i))) 8"
      by (intro parts_cong) (simp only: add_less_cancel_left [of 8 _ 8, simplified] simp_thms)
    then show ?thesis using that(1,2) len by (simp add: convert_high)
  qed
  have first: "modify_slice (filled p (16 * g) rgb) (48 * g) 24 f = Ok (filled p (16 * g + 8) rgb)"
    if "\<And>i. length (p i) = 3" "48 * Suc g \<le> length rgb"
      "\<And>out. length out = 3 * 8 \<Longrightarrow> f out = Ok (parts (\<lambda>i. p (8 * (2 * g) + i)) 8)" for p rgb f
    using block_filled [of p 8 "2 * g" rgb f] that by (simp add: algebra_simps)
  have second: "modify_slice (filled p (16 * g + 8) rgb) (48 * g + 24) 24 f = Ok (filled p (16 * Suc g) rgb)"
    if "\<And>i. length (p i) = 3" "48 * Suc g \<le> length rgb"
      "\<And>out. length out = 3 * 8 \<Longrightarrow> f out = Ok (parts (\<lambda>i. p (8 * (2 * g + 1) + i)) 8)" for p rgb f
    using block_filled [of p 8 "2 * g + 1" rgb f] that by (simp add: algebra_simps)
  have eight: "convert_eight_with_chroma shift y (prepare_chroma ro gr u v c) c = convert_eight shift ro gr y u v c"
    for y u v
    by (rule ext) (simp add: convert_eight_def)
  show ?thesis
    unfolding convert_two_rows_def Let_def prod.case eight
    by (simp add: first [OF pixel(1) room(1) low [OF _ len(1) p(1)]] first [OF pixel(2) room(2) low [OF _ len(2) p(2)]]
        second [OF pixel(1) room(1) high [OF _ len(1) p(1)]] second [OF pixel(2) room(2) high [OF _ len(2) p(2)]])
qed

text \<open>A loop over groups that writes two rows.\<close>

lemma two_rows_loop:
  assumes len: "\<And>g. g < n \<Longrightarrow> length (y0 g) = 16 \<and> length (y1 g) = 16 \<and> length (u g) = 16 \<and> length (v g) = 16"
    and room: "48 * n \<le> length rgb0" "48 * n \<le> length rgb1"
    and pixel: "\<And>i. length (p0 i) = 3" "\<And>i. length (p1 i) = 3"
    and p: "\<And>g i. g < n \<Longrightarrow> i < 16 \<Longrightarrow> p0 (16 * g + i) = lane_pixel shift ro gr c (y0 g ! i) (u g ! i) (v g ! i)
      \<and> p1 (16 * g + i) = lane_pixel shift ro gr c (y1 g ! i) (u g ! i) (v g ! i)"
    and body: "\<And>g rgbs. g < n \<Longrightarrow>
      body g rgbs = convert_two_rows shift ro gr (48 * g) (y0 g) (y1 g) (u g) (v g) c rgbs"
  shows "for_each body [0..<n] (rgb0, rgb1) = Ok (filled p0 (16 * n) rgb0, filled p1 (16 * n) rgb1)"
proof -
  have "for_each body [0..<n] (filled p0 (16 * 0) rgb0, filled p1 (16 * 0) rgb1)
      = Ok (filled p0 (16 * length [0..<n]) rgb0, filled p1 (16 * length [0..<n]) rgb1)"
    using room_Suc [OF _ room(1)] room_Suc [OF _ room(2)]
    by (intro for_each_chain [where s = "\<lambda>n. (filled p0 (16 * n) rgb0, filled p1 (16 * n) rgb1)"])
      (simp add: body two_rows_filled len p pixel)
  then show ?thesis by simp
qed

text \<open>Chroma samples doubled to one per pixel.\<close>

definition doubled :: "nat \<Rightarrow> u8 list \<Rightarrow> m128" where
  "doubled g u =
     mm_unpacklo_epi8 (group_of 8 g u @ replicate 8 0) (group_of 8 g u @ replicate 8 0)"

lemma doubled:
  assumes "8 * Suc g \<le> length u"
  shows "length (doubled g u) = 16" and "i < 16 \<Longrightarrow> doubled g u ! i = u ! ((16 * g + i) div 2)"
proof -
  show "length (doubled g u) = 16" by (simp add: doubled_def unpacklo_self)
  have "(16 * g + i) div 2 = 8 * g + i div 2" by simp
  moreover assume i: "i < 16"
  moreover have "i div 2 < 8" using i by simp
  ultimately show "doubled g u ! i = u ! ((16 * g + i) div 2)"
    using assms by (simp add: doubled_def unpacklo_self nth_append group_of)
qed

lemma group_pairs:
  assumes "16 * Suc g \<le> length uv" "i < 16"
  shows "mm_shuffle_epi8 (group_of 16 g uv) even_pairs_mask ! i = uv ! (2 * ((16 * g + i) div 2))"
    and "mm_shuffle_epi8 (group_of 16 g uv) odd_pairs_mask ! i = uv ! (2 * ((16 * g + i) div 2) + 1)"
proof -
  have "2 * (i div 2) < 15" using assms(2) by presburger
  moreover have "2 * ((16 * g + i) div 2) = 16 * g + 2 * (i div 2)" by presburger
  ultimately show "mm_shuffle_epi8 (group_of 16 g uv) even_pairs_mask ! i = uv ! (2 * ((16 * g + i) div 2))"
    "mm_shuffle_epi8 (group_of 16 g uv) odd_pairs_mask ! i = uv ! (2 * ((16 * g + i) div 2) + 1)"
    using assms by (simp_all add: shuffle_pairs group_of)
qed

section \<open>The kernels\<close>

definition planar_pixel ::
  "nat \<Rightarrow> i32 \<Rightarrow> i32 \<Rightarrow> coefficients \<Rightarrow> u8 list \<Rightarrow> u8 list \<Rightarrow> u8 list \<Rightarrow> nat \<Rightarrow> u8 list" where
  "planar_pixel shift ro gr c y u v i = lane_pixel shift ro gr c (y ! i) (u ! (i div 2)) (v ! (i div 2))"

definition semiplanar_pixel ::
  "bool \<Rightarrow> nat \<Rightarrow> i32 \<Rightarrow> i32 \<Rightarrow> coefficients \<Rightarrow> u8 list \<Rightarrow> u8 list \<Rightarrow> nat \<Rightarrow> u8 list" where
  "semiplanar_pixel vu shift ro gr c y uv i =
     (if vu then lane_pixel shift ro gr c (y ! i) (uv ! (2 * (i div 2) + 1)) (uv ! (2 * (i div 2)))
      else lane_pixel shift ro gr c (y ! i) (uv ! (2 * (i div 2))) (uv ! (2 * (i div 2) + 1)))"

lemma length_pixels [simp]:
  "length (planar_pixel shift ro gr c y u v i) = 3"
  "length (semiplanar_pixel vu shift ro gr c y uv i) = 3"
  by (simp_all add: planar_pixel_def semiplanar_pixel_def)

lemma planar_row_filled:
  assumes "groups = min (min (min (length y div 16) (length u div 8)) (length v div 8)) (length rgb div 48)"
  shows "planar_row_avx2 shift ro gr y u v rgb c =
    Ok (groups * 16, filled (planar_pixel shift ro gr c y u v) (16 * groups) rgb)"
proof -
  have le: "groups \<le> length y div 16" "groups \<le> length u div 8" "groups \<le> length v div 8"
    "groups \<le> length rgb div 48"
    by (simp_all add: assms min_le_iff_disj)
  note bounds = group_bound [OF _ le(1)] group_bound [OF _ le(2)] group_bound [OF _ le(3)]
  have loop: "for_each (\<lambda>group rgb.
           and_then (mm_loadu_si128 y (group * 16)) (\<lambda>y.
           and_then (mm_loadl_epi64 u (group * 8)) (\<lambda>u.
           and_then (mm_loadl_epi64 v (group * 8)) (\<lambda>v.
             modify_slice rgb (group * 48) 48
               (convert_sixteen shift ro gr y (mm_unpacklo_epi8 u u) (mm_unpacklo_epi8 v v) c)))))
           [0..<groups] rgb = Ok (filled (planar_pixel shift ro gr c y u v) (16 * groups) rgb)"
  proof (rule group_loop [where f = "\<lambda>g. convert_sixteen shift ro gr (group_of 16 g y) (doubled g u) (doubled g v) c"])
    fix g out
    assume g: "g < groups"
    note b = bounds [OF g]
    show "and_then (mm_loadu_si128 y (g * 16)) (\<lambda>y.
           and_then (mm_loadl_epi64 u (g * 8)) (\<lambda>u.
           and_then (mm_loadl_epi64 v (g * 8)) (\<lambda>v.
             modify_slice out (g * 48) 48
               (convert_sixteen shift ro gr y (mm_unpacklo_epi8 u u) (mm_unpacklo_epi8 v v) c))))
         = modify_slice out (3 * 16 * g) (3 * 16)
             (convert_sixteen shift ro gr (group_of 16 g y) (doubled g u) (doubled g v) c)"
      by (simp add: load_group(1) [OF b(1)] load_group(2) [OF b(2)] load_group(2) [OF b(3)] doubled_def mult.commute [of g 48])
    assume "length out = 3 * 16"
    moreover have "parts (\<lambda>i. lane_pixel shift ro gr c (group_of 16 g y ! i) (doubled g u ! i) (doubled g v ! i)) 16
        = parts (\<lambda>i. planar_pixel shift ro gr c y u v (16 * g + i)) 16"
      by (rule parts_cong) (simp only: planar_pixel_def group_of doubled b)
    ultimately show "convert_sixteen shift ro gr (group_of 16 g y) (doubled g u) (doubled g v) c out
        = Ok (parts (\<lambda>i. planar_pixel shift ro gr c y u v (16 * g + i)) 16)"
      by (simp add: convert_sixteen_parts group_of(1) [OF b(1)] doubled(1) [OF b(2)] doubled(1) [OF b(3)])
  qed (use group_room [OF le(4)] in simp_all)
  show ?thesis by (simp add: planar_row_avx2_def Let_def loop flip: assms)
qed

lemma planar_two_rows_filled:
  assumes "groups = min (min (min (min (min (length y0 div 16) (length y1 div 16)) (length u div 8))
      (length v div 8)) (length rgb0 div 48)) (length rgb1 div 48)"
  shows "planar_two_rows_avx2 shift ro gr y0 y1 u v rgb0 rgb1 c =
    Ok (groups * 16, filled (planar_pixel shift ro gr c y0 u v) (16 * groups) rgb0,
      filled (planar_pixel shift ro gr c y1 u v) (16 * groups) rgb1)"
proof -
  have le: "groups \<le> length y0 div 16" "groups \<le> length y1 div 16" "groups \<le> length u div 8"
    "groups \<le> length v div 8" "groups \<le> length rgb0 div 48" "groups \<le> length rgb1 div 48"
    by (simp_all add: assms min_le_iff_disj)
  note b = group_bound [OF _ le(1)] group_bound [OF _ le(2)] group_bound [OF _ le(3)] group_bound [OF _ le(4)]
  have loop: "for_each (\<lambda>group rgbs.
           and_then (mm_loadu_si128 y0 (group * 16)) (\<lambda>y0.
           and_then (mm_loadu_si128 y1 (group * 16)) (\<lambda>y1.
           and_then (mm_loadl_epi64 u (group * 8)) (\<lambda>u.
           and_then (mm_loadl_epi64 v (group * 8)) (\<lambda>v.
             convert_two_rows shift ro gr (group * 48) y0 y1
               (mm_unpacklo_epi8 u u) (mm_unpacklo_epi8 v v) c rgbs)))))
           [0..<groups] (rgb0, rgb1)
    = Ok (filled (planar_pixel shift ro gr c y0 u v) (16 * groups) rgb0,
      filled (planar_pixel shift ro gr c y1 u v) (16 * groups) rgb1)"
  proof (rule two_rows_loop [where ?y0.0 = "\<lambda>g. group_of 16 g y0" and ?y1.0 = "\<lambda>g. group_of 16 g y1"
        and u = "\<lambda>g. doubled g u" and v = "\<lambda>g. doubled g v"])
    fix g rgbs
    assume "g < groups"
    note b = b [OF this]
    show "and_then (mm_loadu_si128 y0 (g * 16)) (\<lambda>y0.
           and_then (mm_loadu_si128 y1 (g * 16)) (\<lambda>y1.
           and_then (mm_loadl_epi64 u (g * 8)) (\<lambda>u.
           and_then (mm_loadl_epi64 v (g * 8)) (\<lambda>v.
             convert_two_rows shift ro gr (g * 48) y0 y1
               (mm_unpacklo_epi8 u u) (mm_unpacklo_epi8 v v) c rgbs))))
      = convert_two_rows shift ro gr (48 * g) (group_of 16 g y0) (group_of 16 g y1) (doubled g u) (doubled g v) c rgbs"
      by (simp add: load_group(1) [OF b(1)] load_group(1) [OF b(2)] load_group(2) [OF b(3)] load_group(2) [OF b(4)] doubled_def mult.commute [of g 48])
  qed (use group_room [OF le(5)] group_room [OF le(6)] b in
      \<open>simp_all only: length_pixels length_lane_pixel group_of doubled planar_pixel_def simp_thms\<close>)
  show ?thesis by (simp add: planar_two_rows_avx2_def Let_def loop flip: assms)
qed

text \<open>The chroma operands of group \<open>g\<close> of an interleaved row.\<close>

definition pair_operands :: "bool \<Rightarrow> nat \<Rightarrow> u8 list \<Rightarrow> m128 \<times> m128" where
  "pair_operands vu g uv =
     (let (u_mask, v_mask) =
        (if vu then (odd_pairs_mask, even_pairs_mask) else (even_pairs_mask, odd_pairs_mask))
      in (mm_shuffle_epi8 (group_of 16 g uv) u_mask, mm_shuffle_epi8 (group_of 16 g uv) v_mask))"

lemma pair_operands:
  assumes "16 * Suc g \<le> length y" "16 * Suc g \<le> length uv"
  shows "length (fst (pair_operands vu g uv)) = 16" "length (snd (pair_operands vu g uv)) = 16"
    "i < 16 \<Longrightarrow> lane_pixel shift ro gr c (group_of 16 g y ! i) (fst (pair_operands vu g uv) ! i)
      (snd (pair_operands vu g uv) ! i) = semiplanar_pixel vu shift ro gr c y uv (16 * g + i)"
  by (simp_all add: pair_operands_def semiplanar_pixel_def group_pairs [OF assms(2)]
      group_of(2) [OF assms(1)])

lemma semiplanar_row_filled:
  assumes "groups = min (min (length y div 16) (length uv div 16)) (length rgb div 48)"
  shows "semiplanar_row_avx2 vu shift ro gr y uv rgb c =
    Ok (groups * 16, filled (semiplanar_pixel vu shift ro gr c y uv) (16 * groups) rgb)"
proof -
  let ?m = "if vu then (odd_pairs_mask, even_pairs_mask) else (even_pairs_mask, odd_pairs_mask)"
  let ?f = "\<lambda>g. convert_sixteen shift ro gr (group_of 16 g y) (fst (pair_operands vu g uv))
    (snd (pair_operands vu g uv)) c"
  have le: "groups \<le> length y div 16" "groups \<le> length uv div 16" "groups \<le> length rgb div 48"
    by (simp_all add: assms min_le_iff_disj)
  note bounds = group_bound [OF _ le(1)] group_bound [OF _ le(2)]
  have loop: "for_each (\<lambda>group rgb.
           and_then (mm_loadu_si128 y (group * 16)) (\<lambda>y.
           and_then (mm_loadu_si128 uv (group * 16)) (\<lambda>uv.
             modify_slice rgb (group * 48) 48
               (convert_sixteen shift ro gr y (mm_shuffle_epi8 uv (fst ?m)) (mm_shuffle_epi8 uv (snd ?m)) c))))
           [0..<groups] rgb = Ok (filled (semiplanar_pixel vu shift ro gr c y uv) (16 * groups) rgb)"
  proof (rule group_loop [where f = ?f])
    fix g out
    assume g: "g < groups"
    note b = bounds [OF g]
    show "and_then (mm_loadu_si128 y (g * 16)) (\<lambda>y.
           and_then (mm_loadu_si128 uv (g * 16)) (\<lambda>uv.
             modify_slice out (g * 48) 48
               (convert_sixteen shift ro gr y (mm_shuffle_epi8 uv (fst ?m)) (mm_shuffle_epi8 uv (snd ?m)) c)))
         = modify_slice out (3 * 16 * g) (3 * 16) (?f g)"
      by (simp add: load_group(1) [OF b(1)] load_group(1) [OF b(2)] pair_operands_def mult.commute [of g 48])
    assume "length out = 3 * 16"
    moreover have "parts (\<lambda>i. lane_pixel shift ro gr c (group_of 16 g y ! i)
          (fst (pair_operands vu g uv) ! i) (snd (pair_operands vu g uv) ! i)) 16
        = parts (\<lambda>i. semiplanar_pixel vu shift ro gr c y uv (16 * g + i)) 16"
      by (rule parts_cong) (simp only: pair_operands [OF b])
    ultimately show "?f g out = Ok (parts (\<lambda>i. semiplanar_pixel vu shift ro gr c y uv (16 * g + i)) 16)"
      by (simp add: convert_sixteen_parts group_of(1) [OF b(1)] pair_operands [OF b])
  qed (use group_room [OF le(3)] in simp_all)
  then show ?thesis by (simp add: semiplanar_row_avx2_def Let_def split_beta loop flip: assms)
qed

lemma semiplanar_two_rows_filled:
  assumes "groups = min (min (min (min (length y0 div 16) (length y1 div 16)) (length uv div 16))
            (length rgb0 div 48)) (length rgb1 div 48)"
  shows "semiplanar_two_rows_avx2 vu shift ro gr y0 y1 uv rgb0 rgb1 c =
    Ok (groups * 16, filled (semiplanar_pixel vu shift ro gr c y0 uv) (16 * groups) rgb0,
      filled (semiplanar_pixel vu shift ro gr c y1 uv) (16 * groups) rgb1)"
proof -
  let ?m = "if vu then (odd_pairs_mask, even_pairs_mask) else (even_pairs_mask, odd_pairs_mask)"
  have le: "groups \<le> length y0 div 16" "groups \<le> length y1 div 16" "groups \<le> length uv div 16"
    "groups \<le> length rgb0 div 48" "groups \<le> length rgb1 div 48"
    by (simp_all add: assms min_le_iff_disj)
  note b = group_bound [OF _ le(1)] group_bound [OF _ le(2)] group_bound [OF _ le(3)]
  have loop: "for_each (\<lambda>group rgbs.
           and_then (mm_loadu_si128 y0 (group * 16)) (\<lambda>y0.
           and_then (mm_loadu_si128 y1 (group * 16)) (\<lambda>y1.
           and_then (mm_loadu_si128 uv (group * 16)) (\<lambda>uv.
             convert_two_rows shift ro gr (group * 48) y0 y1
               (mm_shuffle_epi8 uv (fst ?m)) (mm_shuffle_epi8 uv (snd ?m)) c rgbs))))
           [0..<groups] (rgb0, rgb1)
    = Ok (filled (semiplanar_pixel vu shift ro gr c y0 uv) (16 * groups) rgb0,
      filled (semiplanar_pixel vu shift ro gr c y1 uv) (16 * groups) rgb1)"
  proof (rule two_rows_loop [where ?y0.0 = "\<lambda>g. group_of 16 g y0" and ?y1.0 = "\<lambda>g. group_of 16 g y1"
        and u = "\<lambda>g. fst (pair_operands vu g uv)" and v = "\<lambda>g. snd (pair_operands vu g uv)"])
    fix g i :: nat and rgbs
    assume "g < groups"
    note b = b [OF this]
    show "and_then (mm_loadu_si128 y0 (g * 16)) (\<lambda>y0.
           and_then (mm_loadu_si128 y1 (g * 16)) (\<lambda>y1.
           and_then (mm_loadu_si128 uv (g * 16)) (\<lambda>uv.
             convert_two_rows shift ro gr (g * 48) y0 y1
               (mm_shuffle_epi8 uv (fst ?m)) (mm_shuffle_epi8 uv (snd ?m)) c rgbs)))
      = convert_two_rows shift ro gr (48 * g) (group_of 16 g y0) (group_of 16 g y1)
          (fst (pair_operands vu g uv)) (snd (pair_operands vu g uv)) c rgbs"
      by (simp add: load_group(1) [OF b(1)] load_group(1) [OF b(2)] load_group(1) [OF b(3)]
          pair_operands_def mult.commute [of g 48])
    show "length (group_of 16 g y0) = 16 \<and> length (group_of 16 g y1) = 16 \<and>
      length (fst (pair_operands vu g uv)) = 16 \<and> length (snd (pair_operands vu g uv)) = 16"
      by (simp only: group_of(1) b pair_operands(1,2) [OF b(1) b(3)] simp_thms)
    assume "i < 16"
    then show "semiplanar_pixel vu shift ro gr c y0 uv (16 * g + i) = lane_pixel shift ro gr c
        (group_of 16 g y0 ! i) (fst (pair_operands vu g uv) ! i) (snd (pair_operands vu g uv) ! i) \<and>
      semiplanar_pixel vu shift ro gr c y1 uv (16 * g + i) = lane_pixel shift ro gr c
        (group_of 16 g y1 ! i) (fst (pair_operands vu g uv) ! i) (snd (pair_operands vu g uv) ! i)"
      by (simp only: pair_operands(3) [OF b(1) b(3)] pair_operands(3) [OF b(2) b(3)] simp_thms)
  qed (use group_room [OF le(4)] group_room [OF le(5)] in simp_all)
  then show ?thesis by (simp add: semiplanar_two_rows_avx2_def Let_def split_beta loop flip: assms)
qed

section \<open>Half-size rows\<close>

definition planar_half_pixel ::
  "coefficients \<Rightarrow> u8 list \<Rightarrow> u8 list \<Rightarrow> u8 list \<Rightarrow> nat \<Rightarrow> u8 list" where
  "planar_half_pixel c y u v i = lane_pixel 10 512 512 c (y ! (2 * i)) (u ! i) (v ! i)"

definition semiplanar_half_pixel ::
  "bool \<Rightarrow> nat \<Rightarrow> i32 \<Rightarrow> i32 \<Rightarrow> coefficients \<Rightarrow> u8 list \<Rightarrow> u8 list \<Rightarrow> nat \<Rightarrow> u8 list" where
  "semiplanar_half_pixel vu shift ro gr c y uv i =
     (if vu then lane_pixel shift ro gr c (y ! (2 * i)) (uv ! (2 * i + 1)) (uv ! (2 * i))
      else lane_pixel shift ro gr c (y ! (2 * i)) (uv ! (2 * i)) (uv ! (2 * i + 1)))"

lemma length_half_pixels [simp]:
  "length (planar_half_pixel c y u v i) = 3"
  "length (semiplanar_half_pixel vu shift ro gr c y uv i) = 3"
  by (simp_all add: planar_half_pixel_def semiplanar_half_pixel_def)

lemma planar_half_row_filled:
  assumes "groups = min (min (min (length y div 16) (length u div 8)) (length v div 8)) (length rgb div 24)"
  shows "planar_half_row_avx2 y u v rgb c =
    Ok (groups * 8, filled (planar_half_pixel c y u v) (8 * groups) rgb)"
proof -
  let ?f = "\<lambda>g. convert_eight 10 512 512 (mm_shuffle_epi8 (group_of 16 g y) even_mask)
    (group_of 8 g u @ replicate 8 0) (group_of 8 g v @ replicate 8 0) c"
  have le: "groups \<le> length y div 16" "groups \<le> length u div 8" "groups \<le> length v div 8"
    "groups \<le> length rgb div 24"
    by (simp_all add: assms min_le_iff_disj)
  note bounds = group_bound [OF _ le(1)] group_bound [OF _ le(2)] group_bound [OF _ le(3)]
  have loop: "for_each (\<lambda>group rgb.
           and_then (mm_loadu_si128 y (group * 16)) (\<lambda>y.
           and_then (mm_loadl_epi64 u (group * 8)) (\<lambda>u.
           and_then (mm_loadl_epi64 v (group * 8)) (\<lambda>v.
             modify_slice rgb (group * 24) 24
               (convert_eight 10 512 512 (mm_shuffle_epi8 y even_mask) u v c)))))
           [0..<groups] rgb = Ok (filled (planar_half_pixel c y u v) (8 * groups) rgb)"
  proof (rule group_loop [where f = ?f])
    fix g out
    assume g: "g < groups"
    note b = bounds [OF g]
    show "and_then (mm_loadu_si128 y (g * 16)) (\<lambda>y.
           and_then (mm_loadl_epi64 u (g * 8)) (\<lambda>u.
           and_then (mm_loadl_epi64 v (g * 8)) (\<lambda>v.
             modify_slice out (g * 24) 24
               (convert_eight 10 512 512 (mm_shuffle_epi8 y even_mask) u v c))))
         = modify_slice out (3 * 8 * g) (3 * 8) (?f g)"
      by (simp add: load_group(1) [OF b(1)] load_group(2) [OF b(2)] load_group(2) [OF b(3)] mult.commute [of g 24])
    assume "length out = 3 * 8"
    moreover have "parts (\<lambda>i. lane_pixel 10 512 512 c (mm_shuffle_epi8 (group_of 16 g y) even_mask ! i)
        ((group_of 8 g u @ replicate 8 0) ! i) ((group_of 8 g v @ replicate 8 0) ! i)) 8
        = parts (\<lambda>i. planar_half_pixel c y u v (8 * g + i)) 8"
    proof (rule parts_cong)
      fix i :: nat
      assume "i < 8"
      then show "lane_pixel 10 512 512 c (mm_shuffle_epi8 (group_of 16 g y) even_mask ! i)
        ((group_of 8 g u @ replicate 8 0) ! i) ((group_of 8 g v @ replicate 8 0) ! i)
        = planar_half_pixel c y u v (8 * g + i)"
        by (simp add: shuffle_even group_of(2) [OF b(1)] group_of [OF b(2)] group_of [OF b(3)] nth_append
            planar_half_pixel_def algebra_simps)
    qed
    ultimately show "?f g out = Ok (parts (\<lambda>i. planar_half_pixel c y u v (8 * g + i)) 8)"
      by (simp add: convert_eight_parts group_of(1) [OF b(1)] group_of(1) [OF b(2)] group_of(1) [OF b(3)])
  qed (use group_room [OF le(4)] in simp_all)
  show ?thesis by (simp add: planar_half_row_avx2_def Let_def loop flip: assms)
qed

lemma combined_halves:
  assumes "32 * Suc g \<le> length xs"
  shows "length (combine_shuffled_halves (group_of 32 g xs) even_mask) = 16"
    "length (combine_shuffled_halves (group_of 32 g xs) odd_mask) = 16"
    "i < 16 \<Longrightarrow> combine_shuffled_halves (group_of 32 g xs) even_mask ! i = xs ! (2 * (16 * g + i))"
    "i < 16 \<Longrightarrow> combine_shuffled_halves (group_of 32 g xs) odd_mask ! i = xs ! (2 * (16 * g + i) + 1)"
proof -
  note l = group_of(1) [OF assms] group_of(2) [OF assms]
  show "length (combine_shuffled_halves (group_of 32 g xs) even_mask) = 16"
    "length (combine_shuffled_halves (group_of 32 g xs) odd_mask) = 16"
    by (simp_all add: combine_shuffled_halves_def mm_unpacklo_epi64_def)
  assume i: "i < 16"
  show "combine_shuffled_halves (group_of 32 g xs) even_mask ! i = xs ! (2 * (16 * g + i))"
    using i by (cases "i < 8")
      (simp_all add: combine_shuffled_halves_def mm_unpacklo_epi64_def nth_append shuffle_even
        mm256_castsi256_si128_def mm256_extracti128_si256_1_def l algebra_simps)
  show "combine_shuffled_halves (group_of 32 g xs) odd_mask ! i = xs ! (2 * (16 * g + i) + 1)"
    using i by (cases "i < 8")
      (simp_all add: combine_shuffled_halves_def mm_unpacklo_epi64_def nth_append shuffle_odd
        mm256_castsi256_si128_def mm256_extracti128_si256_1_def l algebra_simps)
qed

lemma semiplanar_half_row_filled:
  assumes "groups = min (min (length y div 32) (length uv div 32)) (length rgb div 48)"
  shows "semiplanar_half_row_avx2 vu shift ro gr y uv rgb c =
    Ok (groups * 16, filled (semiplanar_half_pixel vu shift ro gr c y uv) (16 * groups) rgb)"
proof -
  let ?half = "combine_shuffled_halves"
  let ?uv = "\<lambda>uv. if vu then (?half uv odd_mask, ?half uv even_mask) else (?half uv even_mask, ?half uv odd_mask)"
  let ?f = "\<lambda>g. convert_sixteen shift ro gr (?half (group_of 32 g y) even_mask)
    (fst (?uv (group_of 32 g uv))) (snd (?uv (group_of 32 g uv))) c"
  have le: "groups \<le> length y div 32" "groups \<le> length uv div 32" "groups \<le> length rgb div 48"
    by (simp_all add: assms min_le_iff_disj)
  note bounds = group_bound [OF _ le(1)] group_bound [OF _ le(2)]
  have loop: "for_each (\<lambda>group rgb.
           and_then (mm256_loadu_si256 y (group * 32)) (\<lambda>y.
           and_then (mm256_loadu_si256 uv (group * 32)) (\<lambda>uv.
             modify_slice rgb (group * 48) 48
               (convert_sixteen shift ro gr (?half y even_mask) (fst (?uv uv)) (snd (?uv uv)) c))))
           [0..<groups] rgb = Ok (filled (semiplanar_half_pixel vu shift ro gr c y uv) (16 * groups) rgb)"
  proof (rule group_loop [where f = ?f])
    fix g out
    assume g: "g < groups"
    note b = bounds [OF g]
    show "and_then (mm256_loadu_si256 y (g * 32)) (\<lambda>y.
           and_then (mm256_loadu_si256 uv (g * 32)) (\<lambda>uv.
             modify_slice out (g * 48) 48
               (convert_sixteen shift ro gr (?half y even_mask) (fst (?uv uv)) (snd (?uv uv)) c)))
         = modify_slice out (3 * 16 * g) (3 * 16) (?f g)"
      by (simp add: load_group(3) [OF b(1)] load_group(3) [OF b(2)] mult.commute [of g 48])
    assume "length out = 3 * 16"
    moreover have "parts (\<lambda>i. lane_pixel shift ro gr c (?half (group_of 32 g y) even_mask ! i)
          (fst (?uv (group_of 32 g uv)) ! i) (snd (?uv (group_of 32 g uv)) ! i)) 16
        = parts (\<lambda>i. semiplanar_half_pixel vu shift ro gr c y uv (16 * g + i)) 16"
      by (rule parts_cong)
        (cases vu; simp only: combined_halves [OF b(1)] combined_halves [OF b(2)] semiplanar_half_pixel_def
          if_True if_False fst_conv snd_conv)
    ultimately show "?f g out = Ok (parts (\<lambda>i. semiplanar_half_pixel vu shift ro gr c y uv (16 * g + i)) 16)"
      by (simp add: convert_sixteen_parts combined_halves(1,2) [OF b(1)] combined_halves(1,2) [OF b(2)])
  qed (use group_room [OF le(3)] in simp_all)
  then show ?thesis by (simp add: semiplanar_half_row_avx2_def Let_def split_beta loop flip: assms)
qed

end
