(* ===== verification/Avx2_Packed.thy ===== *)
theory Avx2_Packed
  imports Avx2_Rows
begin

text \<open>
  The kernels of \<open>mod x86\<close> in \<open>src/utils/color_convert.rs\<close> that read interleaved pixels: packed
  4:2:2 pairs and packed 8888.
\<close>

section \<open>Kernels\<close>

text \<open>The masks of luma and of the two chroma components; the last eight bytes are zeroed.\<close>

definition luma_mask :: "int \<Rightarrow> m128" where
  "luma_mask j = mm_setr_epi8 [j, j + 2, j + 4, j + 6, j + 8, j + 10, j + 12, j + 14, -1, -1, -1, -1, -1, -1, -1, -1]"

definition chroma_mask :: "int \<Rightarrow> m128" where
  "chroma_mask j = mm_setr_epi8 [j, j, j + 4, j + 4, j + 8, j + 8, j + 12, j + 12, -1, -1, -1, -1, -1, -1, -1, -1]"

definition quarter_mask :: "int \<Rightarrow> m128" where
  "quarter_mask j = mm_setr_epi8 [j, j + 4, j + 8, j + 12, -1, -1, -1, -1, -1, -1, -1, -1, -1, -1, -1, -1]"

text \<open>The last pairs, one at a time.\<close>

definition packed422_pair ::
  "bool \<Rightarrow> nat \<Rightarrow> i32 \<Rightarrow> i32 \<Rightarrow> u8 list \<Rightarrow> coefficients \<Rightarrow> usize \<Rightarrow> u8 list \<Rightarrow> (u8 list, 'e) result" where
  "packed422_pair uyvy shift rounding green_rounding source c pair rgb =
     and_then (sub_slice source (pair * 4) 4) (\<lambda>source.
       let (y0, u, y1, v) =
             (if uyvy then (source ! 1, source ! 0, source ! 3, source ! 2)
              else (source ! 0, source ! 1, source ! 2, source ! 3))
       in case c of (cy, cr, gu, gv, cb, offset) \<Rightarrow>
         let y0 = (ucast y0 - offset) * cy;
             y1 = (ucast y1 - offset) * cy;
             u = ucast u - 128;
             v = ucast v - 128;
             red_chroma = cr * v + rounding;
             green_chroma = - gu * u - gv * v + green_rounding;
             blue_chroma = cb * u + rounding;
             pixel = (\<lambda>y. [clamp_u8 (signed_drop_bit shift (y + red_chroma)),
                           clamp_u8 (signed_drop_bit shift (y + green_chroma)),
                           clamp_u8 (signed_drop_bit shift (y + blue_chroma))])
         in modify_slice rgb (pair * 6) 6 (\<lambda>destination.
              and_then (write_at destination 0 (pixel y0)) (\<lambda>destination.
              write_at destination 3 (pixel y1))))"

definition packed422_avx2 ::
  "bool \<Rightarrow> nat \<Rightarrow> i32 \<Rightarrow> i32 \<Rightarrow> u8 list \<Rightarrow> u8 list \<Rightarrow> coefficients \<Rightarrow> (u8 list, 'e) result" where
  "packed422_avx2 uyvy shift rounding green_rounding source rgb c =
     (let pair_count = min (length source div 4) (length rgb div 6);
          (y_mask, u_mask, v_mask) =
            (if uyvy then (luma_mask 1, chroma_mask 0, chroma_mask 2)
             else (luma_mask 0, chroma_mask 1, chroma_mask 3));
          vectorized_pairs = pair_count div 8 * 8
      in and_then
        (for_each (\<lambda>pair rgb.
           and_then (mm256_loadu_si256 source (pair * 4)) (\<lambda>raw.
             let y = combine_shuffled_halves raw y_mask;
                 u = combine_shuffled_halves raw u_mask;
                 v = combine_shuffled_halves raw v_mask
             in modify_slice rgb (pair * 6) 48 (convert_sixteen shift rounding green_rounding y u v c)))
           (step_by 0 vectorized_pairs 8) rgb)
        (for_each (packed422_pair uyvy shift rounding green_rounding source c)
           [vectorized_pairs..<pair_count]))"

definition packed422_half_row_avx2 ::
  "bool \<Rightarrow> u8 list \<Rightarrow> u8 list \<Rightarrow> coefficients \<Rightarrow> (usize \<times> u8 list, 'e) result" where
  "packed422_half_row_avx2 uyvy source rgb c =
     (let groups = min (length source div 32) (length rgb div 24);
          (y_mask, u_mask, v_mask) =
            (if uyvy then (quarter_mask 1, quarter_mask 0, quarter_mask 2)
             else (quarter_mask 0, quarter_mask 1, quarter_mask 3))
      in and_then
        (for_each (\<lambda>group rgb.
           and_then (mm256_loadu_si256 source (group * 32)) (\<lambda>raw.
             let y = combine_shuffled_quarters raw y_mask;
                 u = combine_shuffled_quarters raw u_mask;
                 v = combine_shuffled_quarters raw v_mask
             in modify_slice rgb (group * 24) 24 (convert_eight 10 512 512 y u v c)))
           [0..<groups] rgb)
        (\<lambda>rgb. Ok (groups * 8, rgb)))"

definition packed_8888_mask :: "nat \<Rightarrow> nat \<Rightarrow> nat \<Rightarrow> m128" where
  "packed_8888_mask r g b = mm_setr_epi8
     [int r, int g, int b, 4 + int r, 4 + int g, 4 + int b, 8 + int r, 8 + int g, 8 + int b,
      12 + int r, 12 + int g, 12 + int b, -1, -1, -1, -1]"

definition packed_8888_row_ssse3 ::
  "nat \<Rightarrow> nat \<Rightarrow> nat \<Rightarrow> u8 list \<Rightarrow> u8 list \<Rightarrow> (usize \<times> u8 list, 'e) result" where
  "packed_8888_row_ssse3 r g b source rgb =
     (let groups = min (length source div 16) (length rgb div 12)
      in and_then
        (for_each (\<lambda>group rgb.
           and_then (mm_loadu_si128 source (group * 16)) (\<lambda>raw.
             store_twelve_bytes (mm_shuffle_epi8 raw (packed_8888_mask r g b)) rgb (group * 12)))
           [0..<groups] rgb)
        (\<lambda>rgb. Ok (groups * 4, rgb)))"

definition packed_8888_row_avx2 ::
  "nat \<Rightarrow> nat \<Rightarrow> nat \<Rightarrow> u8 list \<Rightarrow> u8 list \<Rightarrow> (usize \<times> u8 list, 'e) result" where
  "packed_8888_row_avx2 r g b source rgb =
     (let groups = min (length source div 32) (length rgb div 24);
          m = mm256_broadcastsi128_si256 (packed_8888_mask r g b)
      in and_then
        (for_each (\<lambda>group rgb.
           and_then (mm256_loadu_si256 source (group * 32)) (\<lambda>raw.
             let pixels = mm256_shuffle_epi8 raw m
             in and_then (store_twelve_bytes (mm256_castsi256_si128 pixels) rgb (group * 24)) (\<lambda>rgb.
                  store_twelve_bytes (mm256_extracti128_si256_1 pixels) rgb (group * 24 + 12))))
           [0..<groups] rgb)
        (\<lambda>rgb. Ok (groups * 8, rgb)))"

section \<open>Packed pairs\<close>

definition packed_pixel ::
  "bool \<Rightarrow> nat \<Rightarrow> i32 \<Rightarrow> i32 \<Rightarrow> coefficients \<Rightarrow> u8 list \<Rightarrow> nat \<Rightarrow> u8 list" where
  "packed_pixel uyvy shift ro gr c source i =
     (if uyvy
      then lane_pixel shift ro gr c (source ! (2 * i + 1)) (source ! (4 * (i div 2))) (source ! (4 * (i div 2) + 2))
      else lane_pixel shift ro gr c (source ! (2 * i)) (source ! (4 * (i div 2) + 1)) (source ! (4 * (i div 2) + 3)))"

lemma length_packed_pixel [simp]: "length (packed_pixel uyvy shift ro gr c source i) = 3"
  by (simp add: packed_pixel_def)

lemma length_packed_masks [simp]:
  "length (luma_mask j) = 16" "length (chroma_mask j) = 16" "length (quarter_mask j) = 16"
  by (simp_all add: luma_mask_def chroma_mask_def quarter_mask_def mm_setr_epi8_def)

lemma shuffle_byte_nat: "n < 16 \<Longrightarrow> shuffle_byte a (word_of_int (int n)) = a ! n"
proof -
  assume n: "n < 16"
  then have "unat (word_of_nat n :: u8) = n" by (simp add: unat_of_nat take_bit_nat_eq_self_iff)
  with n show ?thesis by (simp add: shuffle_byte_def word_le_nat_alt)
qed


text \<open>What the masks select.\<close>

lemma pair_offset:
  "i < 8 \<Longrightarrow> j < 4 \<Longrightarrow> 4 * (i div 2) + j < (16 :: nat)"
  "i < 16 \<Longrightarrow> j < 4 \<Longrightarrow> 4 * (i div 2) + j < (32 :: nat)"
  "4 * ((8 + i) div 2) = 16 + 4 * (i div 2 :: nat)"
  by presburger+

lemma shuffle_luma: "j < 2 \<Longrightarrow> i < 8 \<Longrightarrow> mm_shuffle_epi8 a (luma_mask (int j)) ! i = a ! (2 * i + j)"
proof -
  assume j: "j < 2"
  have "mm_shuffle_epi8 a (luma_mask (int j)) ! i = shuffle_byte a (word_of_int (int (2 * i + j)))" if "i < 8" for i
  proof -
    have "\<forall>i<8. mm_shuffle_epi8 a (luma_mask (int j)) ! i = shuffle_byte a (word_of_int (int (2 * i + j)))"
      unfolding all_less_eight by (simp add: mm_shuffle_epi8_def luma_mask_def mm_setr_epi8_def add.commute)
    with that show ?thesis by blast
  qed
  moreover assume "i < 8"
  moreover from this j have "2 * i + j < 16" by linarith
  ultimately show ?thesis by (simp only: shuffle_byte_nat)
qed

lemma shuffle_chroma:
  "j < 4 \<Longrightarrow> i < 8 \<Longrightarrow> mm_shuffle_epi8 a (chroma_mask (int j)) ! i = a ! (4 * (i div 2) + j)"
proof -
  assume j: "j < 4"
  have "mm_shuffle_epi8 a (chroma_mask (int j)) ! i = shuffle_byte a (word_of_int (int (4 * (i div 2) + j)))" if "i < 8" for i
  proof -
    have "\<forall>i<8. mm_shuffle_epi8 a (chroma_mask (int j)) ! i = shuffle_byte a (word_of_int (int (4 * (i div 2) + j)))"
      unfolding all_less_eight by (simp add: mm_shuffle_epi8_def chroma_mask_def mm_setr_epi8_def add.commute)
    with that show ?thesis by blast
  qed
  moreover assume i: "i < 8"
  moreover from i j have "4 * (i div 2) + j < 16" by (rule pair_offset)
  ultimately show ?thesis by (simp only: shuffle_byte_nat)
qed

lemma shuffle_quarter:
  "j < 4 \<Longrightarrow> i < 4 \<Longrightarrow> mm_shuffle_epi8 a (quarter_mask (int j)) ! i = a ! (4 * i + j)"
proof -
  assume j: "j < 4"
  have "mm_shuffle_epi8 a (quarter_mask (int j)) ! i = shuffle_byte a (word_of_int (int (4 * i + j)))" if "i < 4" for i
  proof -
    have "i = 0 \<or> i = 1 \<or> i = 2 \<or> i = 3" using that by linarith
    then show ?thesis by (auto simp: mm_shuffle_epi8_def quarter_mask_def mm_setr_epi8_def add.commute)
  qed
  moreover assume i: "i < 4"
  moreover from i j have "4 * i + j < 16" by linarith
  ultimately show ?thesis by (simp only: shuffle_byte_nat)
qed

lemma length_combined [simp]:
  "length m = 16 \<Longrightarrow> length (combine_shuffled_halves raw m) = 16"
  by (simp add: combine_shuffled_halves_def mm_unpacklo_epi64_def)

lemma combine_halves_nth:
  assumes "length raw = 32" "length m = 16" and m: "\<And>a i. i < 8 \<Longrightarrow> mm_shuffle_epi8 a m ! i = a ! h i"
    and h: "\<And>i. i < 8 \<Longrightarrow> h i < 16" "\<And>i. h (8 + i) = 16 + h i" and i: "i < 16"
  shows "combine_shuffled_halves raw m ! i = raw ! h i"
proof (cases "i < 8")
  case True
  with assms show ?thesis
    by (simp add: combine_shuffled_halves_def mm_unpacklo_epi64_def nth_append mm256_castsi256_si128_def)
next
  case False
  then obtain k where k: "i = 8 + k" "k < 8" using i less_eqE [of 8 i] by auto
  with assms show ?thesis
    by (simp add: combine_shuffled_halves_def mm_unpacklo_epi64_def nth_append mm256_extracti128_si256_1_def)
qed

lemma combined_luma:
  assumes "length raw = 32" "j < 2" "i < 16"
  shows "combine_shuffled_halves raw (luma_mask (int j)) ! i = raw ! (2 * i + j)"
  using assms by (intro combine_halves_nth) (auto simp: shuffle_luma)

lemma combined_chroma:
  assumes "length raw = 32" "j < 4" "i < 16"
  shows "combine_shuffled_halves raw (chroma_mask (int j)) ! i = raw ! (4 * (i div 2) + j)"
  using assms by (intro combine_halves_nth) (auto simp: shuffle_chroma pair_offset)

lemma combined_pixel:
  assumes raw: "32 * Suc g \<le> length source" and i: "i < 16"
    and m: "(if uyvy then (luma_mask 1, chroma_mask 0, chroma_mask 2)
       else (luma_mask 0, chroma_mask 1, chroma_mask 3)) = (y_mask, u_mask, v_mask)"
  shows "lane_pixel shift ro gr c (combine_shuffled_halves (group_of 32 g source) y_mask ! i)
      (combine_shuffled_halves (group_of 32 g source) u_mask ! i)
      (combine_shuffled_halves (group_of 32 g source) v_mask ! i)
    = packed_pixel uyvy shift ro gr c source (16 * g + i)"
proof -
  note r = group_of(1) [OF raw]
  have chroma: "combine_shuffled_halves (group_of 32 g source) (chroma_mask (int j)) ! i
      = source ! (4 * ((16 * g + i) div 2) + j)" if "j < 4" for j
  proof -
    have "4 * (i div 2) + j < 32" using i that by (rule pair_offset)
    moreover have "4 * ((16 * g + i) div 2) + j = 32 * g + (4 * (i div 2) + j)" by presburger
    ultimately show ?thesis using combined_chroma [OF r that i] group_of(2) [OF raw] by (simp add: add.assoc)
  qed
  have luma: "combine_shuffled_halves (group_of 32 g source) (luma_mask (int j)) ! i
      = source ! (2 * (16 * g + i) + j)" if "j < 2" for j
    using combined_luma [OF r that i] group_of(2) [OF raw, of "2 * i + j"] i that by (simp add: add.assoc)
  show ?thesis
    using m luma [of 0] luma [of 1] chroma [of 0] chroma [of 1] chroma [of 2] chroma [of 3]
    by (cases uyvy) (auto simp: packed_pixel_def)
qed

lemma packed422_pair_lanes:
  "packed422_pair uyvy shift ro gr source c pair rgb =
     and_then (sub_slice source (pair * 4) 4) (\<lambda>source.
       let (y0, u, y1, v) =
             (if uyvy then (source ! 1, source ! 0, source ! 3, source ! 2)
              else (source ! 0, source ! 1, source ! 2, source ! 3))
       in modify_slice rgb (pair * 6) 6 (\<lambda>destination.
            and_then (write_at destination 0 (lane_pixel shift ro gr c y0 u v)) (\<lambda>destination.
            write_at destination 3 (lane_pixel shift ro gr c y1 u v))))"
proof -
  obtain cy cr gu gv cb off where c: "c = (cy, cr, gu, gv, cb, off)" by (cases c)
  have lanes: "lane_pixel shift ro gr (cy, cr, gu, gv, cb, off) y u v =
      [clamp_u8 (signed_drop_bit shift ((ucast y - off) * cy + (cr * (ucast v - 128) + ro))),
       clamp_u8 (signed_drop_bit shift ((ucast y - off) * cy + (- gu * (ucast u - 128) - gv * (ucast v - 128) + gr))),
       clamp_u8 (signed_drop_bit shift ((ucast y - off) * cy + (cb * (ucast u - 128) + ro)))]" for y u v
    by (simp add: lane_pixel_def Let_def algebra_simps)
  show ?thesis unfolding packed422_pair_def c lanes Let_def prod.case by (cases uyvy) simp_all
qed

lemma packed422_pair_filled:
  assumes pair: "pair < length source div 4" "pair < length rgb div 6"
  shows "packed422_pair uyvy shift ro gr source c pair (filled (packed_pixel uyvy shift ro gr c source) (2 * pair) rgb)
    = Ok (filled (packed_pixel uyvy shift ro gr c source) (2 * Suc pair) rgb)"
proof -
  let ?p = "packed_pixel uyvy shift ro gr c source"
  have room: "4 * Suc pair \<le> length source" "3 * 2 * Suc pair \<le> length rgb"
    using group_bound [OF pair(1), of source 4] group_bound [OF pair(2), of rgb 6] by simp_all
  have s: "sub_slice source (pair * 4) 4 = Ok (take 4 (drop (4 * pair) source))"
    using room(1) by (simp add: sub_slice_def mult.commute)
  have n: "take 4 (drop (4 * pair) source) ! i = source ! (4 * pair + i)" if "i < 4" for i
    using that room(1) by simp
  have n0: "take 4 (drop (4 * pair) source) ! 0 = source ! (4 * pair)" using n [of 0] by simp
  have offsets: "2 * pair div 2 = pair" "(2 * pair + 1) div 2 = pair" "2 * (2 * pair + 1) + 1 = 4 * pair + 3"
    "2 * (2 * pair + 1) = 4 * pair + 2" "2 * (2 * pair) = 4 * pair"
    by simp_all
  have pixels: "?p (2 * pair) = (if uyvy
      then lane_pixel shift ro gr c (source ! (4 * pair + 1)) (source ! (4 * pair)) (source ! (4 * pair + 2))
      else lane_pixel shift ro gr c (source ! (4 * pair)) (source ! (4 * pair + 1)) (source ! (4 * pair + 3)))"
    "?p (2 * pair + 1) = (if uyvy
      then lane_pixel shift ro gr c (source ! (4 * pair + 3)) (source ! (4 * pair)) (source ! (4 * pair + 2))
      else lane_pixel shift ro gr c (source ! (4 * pair + 2)) (source ! (4 * pair + 1)) (source ! (4 * pair + 3)))"
    unfolding packed_pixel_def offsets by (simp_all add: numeral_3_eq_3)
  have step: "modify_slice (filled ?p (2 * pair) rgb) (3 * 2 * pair) (3 * 2) (\<lambda>destination.
       and_then (write_at destination 0 (?p (2 * pair))) (\<lambda>destination. write_at destination 3 (?p (2 * pair + 1))))
     = Ok (filled ?p (2 * Suc pair) rgb)"
    by (rule block_filled)
      (use room(2) in \<open>simp_all add: write_at_def overwrite_def parts_Suc numeral_2_eq_2\<close>)
  have eq: "packed422_pair uyvy shift ro gr source c pair (filled ?p (2 * pair) rgb)
    = modify_slice (filled ?p (2 * pair) rgb) (6 * pair) 6 (\<lambda>destination.
       and_then (write_at destination 0 (?p (2 * pair))) (\<lambda>destination. write_at destination 3 (?p (2 * pair + 1))))"
    unfolding packed422_pair_lanes s pixels by (cases uyvy) (simp_all only: n n0 Let_def and_then.simps prod.case if_True if_False mult.commute [of pair])
  show ?thesis by (simp add: eq [simplified] step [simplified])
qed

lemma packed422_filled:
  "packed422_avx2 uyvy shift ro gr source rgb c =
    Ok (filled (packed_pixel uyvy shift ro gr c source) (2 * min (length source div 4) (length rgb div 6)) rgb)"
proof -
  let ?p = "packed_pixel uyvy shift ro gr c source"
  define pairs where "pairs = min (length source div 4) (length rgb div 6)"
  define groups where "groups = pairs div 8"
  obtain y_mask u_mask v_mask where m: "(if uyvy then (luma_mask 1, chroma_mask 0, chroma_mask 2)
       else (luma_mask 0, chroma_mask 1, chroma_mask 3)) = (y_mask, u_mask, v_mask)"
    by (metis prod_cases3)
  then have masks: "length y_mask = 16" "length u_mask = 16" "length v_mask = 16"
    by (auto split: if_splits)
  let ?half = "combine_shuffled_halves"
  let ?f = "\<lambda>raw. convert_sixteen shift ro gr (?half raw y_mask) (?half raw u_mask) (?half raw v_mask) c"
  have pairs: "pairs \<le> length source div 4" "pairs \<le> length rgb div 6" by (simp_all add: pairs_def)
  have "8 * groups \<le> pairs" by (simp add: groups_def)
  then have le: "32 * groups \<le> length source" "48 * groups \<le> length rgb"
    using group_room [OF pairs(1)] group_room [OF pairs(2)] by simp_all
  have vectorized: "for_each (\<lambda>pair rgb.
       and_then (mm256_loadu_si256 source (pair * 4)) (\<lambda>raw. modify_slice rgb (pair * 6) 48 (?f raw)))
     (step_by 0 (groups * 8) 8) rgb = Ok (filled ?p (16 * groups) rgb)"
    unfolding step_by_multiple [of 8 groups, simplified] for_each_map
  proof (rule group_loop [where f = "\<lambda>g. ?f (group_of 32 g source)"])
    fix g out
    assume "g < groups"
    from room_Suc [OF this le(1)] have raw: "32 * Suc g \<le> length source" .
    have load: "mm256_loadu_si256 source (32 * g) = Ok (group_of 32 g source)"
      by (subst mult.commute) (rule load_group(3) [OF raw])
    show "and_then (mm256_loadu_si256 source (8 * g * 4)) (\<lambda>raw. modify_slice out (8 * g * 6) 48 (?f raw))
        = modify_slice out (3 * 16 * g) (3 * 16) (?f (group_of 32 g source))"
      by (simp add: load)
    assume "length out = 3 * 16"
    moreover have "parts (\<lambda>i. lane_pixel shift ro gr c (?half (group_of 32 g source) y_mask ! i)
          (?half (group_of 32 g source) u_mask ! i) (?half (group_of 32 g source) v_mask ! i)) 16
        = parts (\<lambda>i. ?p (16 * g + i)) 16"
      by (rule parts_cong) (rule combined_pixel [OF raw _ m])
    ultimately show "?f (group_of 32 g source) out = Ok (parts (\<lambda>i. ?p (16 * g + i)) 16)"
      by (simp add: convert_sixteen_parts masks)
  qed (use le in simp_all)
  have rest: "for_each (packed422_pair uyvy shift ro gr source c) [groups * 8..<pairs]
      (filled ?p (2 * (groups * 8 + 0)) rgb) = Ok (filled ?p (2 * (groups * 8 + length [groups * 8..<pairs])) rgb)"
  proof (rule for_each_chain)
    fix i
    assume "i < length [groups * 8..<pairs]"
    then have i: "[groups * 8..<pairs] ! i = groups * 8 + i" "groups * 8 + i < pairs" by simp_all
    show "packed422_pair uyvy shift ro gr source c ([groups * 8..<pairs] ! i) (filled ?p (2 * (groups * 8 + i)) rgb)
      = Ok (filled ?p (2 * (groups * 8 + Suc i)) rgb)"
      unfolding i(1) add_Suc_right by (rule packed422_pair_filled) (use i(2) pairs in simp_all)
  qed
  have total: "groups * 8 + length [groups * 8..<pairs] = pairs" using \<open>8 * groups \<le> pairs\<close> by simp
  show ?thesis
    unfolding packed422_avx2_def Let_def pairs_def [symmetric] groups_def [symmetric] m prod.case
    by (simp add: vectorized [simplified] rest [unfolded total, simplified])
qed

section \<open>Every other pixel of packed pairs\<close>

definition packed_half_pixel :: "bool \<Rightarrow> coefficients \<Rightarrow> u8 list \<Rightarrow> nat \<Rightarrow> u8 list" where
  "packed_half_pixel uyvy c source i =
     (if uyvy then lane_pixel 10 512 512 c (source ! (4 * i + 1)) (source ! (4 * i)) (source ! (4 * i + 2))
      else lane_pixel 10 512 512 c (source ! (4 * i)) (source ! (4 * i + 1)) (source ! (4 * i + 3)))"

lemma length_packed_half_pixel [simp]: "length (packed_half_pixel uyvy c source i) = 3"
  by (simp add: packed_half_pixel_def)

lemma combined_quarters:
  assumes raw: "length raw = 32" and j: "j < 4" and i: "i < 8"
  shows "combine_shuffled_quarters raw (quarter_mask (int j)) ! i = raw ! (4 * i + j)"
proof (cases "i < 4")
  case True
  with raw j show ?thesis
    by (simp add: combine_shuffled_quarters_def mm_unpacklo_epi32_def nth_append shuffle_quarter
        mm256_castsi256_si128_def)
next
  case False
  then obtain k where k: "i = 4 + k" "k < 4" using i less_eqE [of 4 i] by auto
  with raw j show ?thesis
    by (simp add: combine_shuffled_quarters_def mm_unpacklo_epi32_def nth_append shuffle_quarter
        mm256_extracti128_si256_1_def add.assoc)
qed

lemma length_quarters [simp]:
  "length m = 16 \<Longrightarrow> length (combine_shuffled_quarters raw m) = 16"
  by (simp add: combine_shuffled_quarters_def mm_unpacklo_epi32_def)

lemma quarter_pixel:
  assumes raw: "32 * Suc g \<le> length source" and i: "i < 8"
    and m: "(if uyvy then (quarter_mask 1, quarter_mask 0, quarter_mask 2)
       else (quarter_mask 0, quarter_mask 1, quarter_mask 3)) = (y_mask, u_mask, v_mask)"
  shows "lane_pixel 10 512 512 c (combine_shuffled_quarters (group_of 32 g source) y_mask ! i)
      (combine_shuffled_quarters (group_of 32 g source) u_mask ! i)
      (combine_shuffled_quarters (group_of 32 g source) v_mask ! i)
    = packed_half_pixel uyvy c source (8 * g + i)"
proof -
  note r = group_of(1) [OF raw]
  have "combine_shuffled_quarters (group_of 32 g source) (quarter_mask (int j)) ! i
      = source ! (4 * (8 * g + i) + j)" if "j < 4" for j
    using combined_quarters [OF r that i] group_of(2) [OF raw, of "4 * i + j"] i that by (simp add: add.assoc)
  from this [of 0] this [of 1] this [of 2] this [of 3] m show ?thesis
    by (cases uyvy) (auto simp: packed_half_pixel_def)
qed

lemma packed422_half_row_filled:
  assumes "groups = min (length source div 32) (length rgb div 24)"
  shows "packed422_half_row_avx2 uyvy source rgb c =
    Ok (groups * 8, filled (packed_half_pixel uyvy c source) (8 * groups) rgb)"
proof -
  obtain y_mask u_mask v_mask where m: "(if uyvy then (quarter_mask 1, quarter_mask 0, quarter_mask 2)
       else (quarter_mask 0, quarter_mask 1, quarter_mask 3)) = (y_mask, u_mask, v_mask)"
    by (metis prod_cases3)
  then have masks: "length y_mask = 16" "length u_mask = 16" "length v_mask = 16"
    by (auto split: if_splits)
  let ?quarter = "combine_shuffled_quarters"
  let ?f = "\<lambda>raw. convert_eight 10 512 512 (?quarter raw y_mask) (?quarter raw u_mask) (?quarter raw v_mask) c"
  have le: "groups \<le> length source div 32" "groups \<le> length rgb div 24"
    by (simp_all add: assms)
  have loop: "for_each (\<lambda>group rgb.
       and_then (mm256_loadu_si256 source (group * 32)) (\<lambda>raw. modify_slice rgb (group * 24) 24 (?f raw)))
     [0..<groups] rgb = Ok (filled (packed_half_pixel uyvy c source) (8 * groups) rgb)"
  proof (rule group_loop [where f = "\<lambda>g. ?f (group_of 32 g source)"])
    fix g out
    assume "g < groups"
    from group_bound [OF this le(1)] have raw: "32 * Suc g \<le> length source" .
    show "and_then (mm256_loadu_si256 source (g * 32)) (\<lambda>raw. modify_slice out (g * 24) 24 (?f raw))
        = modify_slice out (3 * 8 * g) (3 * 8) (?f (group_of 32 g source))"
      by (simp add: load_group(3) [OF raw] mult.commute [of g 24])
    assume "length out = 3 * 8"
    moreover have "parts (\<lambda>i. lane_pixel 10 512 512 c (?quarter (group_of 32 g source) y_mask ! i)
          (?quarter (group_of 32 g source) u_mask ! i) (?quarter (group_of 32 g source) v_mask ! i)) 8
        = parts (\<lambda>i. packed_half_pixel uyvy c source (8 * g + i)) 8"
      by (rule parts_cong) (rule quarter_pixel [OF raw _ m])
    ultimately show "?f (group_of 32 g source) out = Ok (parts (\<lambda>i. packed_half_pixel uyvy c source (8 * g + i)) 8)"
      by (simp add: convert_eight_parts masks)
  qed (use group_room [OF le(2)] in simp_all)
  show ?thesis
    unfolding packed422_half_row_avx2_def assms [symmetric] Let_def m prod.case by (simp add: loop)
qed

section \<open>Packed 8888\<close>

definition packed_8888_pixel :: "nat \<Rightarrow> nat \<Rightarrow> nat \<Rightarrow> u8 list \<Rightarrow> nat \<Rightarrow> u8 list" where
  "packed_8888_pixel r g b source i = [source ! (4 * i + r), source ! (4 * i + g), source ! (4 * i + b)]"

lemma length_packed_8888_pixel [simp]: "length (packed_8888_pixel r g b source i) = 3"
  by (simp add: packed_8888_pixel_def)

lemma write_twice:
  "k = i + length a \<Longrightarrow> and_then (write_at xs i a) (\<lambda>xs. write_at xs k b) = write_at xs i (a @ b)"
  by (auto simp: write_at_def overwrite_def ac_simps)

lemma write_as_slice: "write_at xs i a = modify_slice xs i (length a) (\<lambda>_. Ok a)"
  by (simp add: write_at_def modify_slice_def sub_slice_def)

lemma store_twelve: "length a = 16 \<Longrightarrow> store_twelve_bytes a out i = write_at out i (take 12 a)"
proof -
  assume a: "length a = 16"
  then have "take 4 (mm_srli_si128_8 a) = drop 8 (take 12 a)"
    by (simp add: mm_srli_si128_8_def drop_take)
  moreover have "take 8 a @ drop 8 (take 12 a) = take 12 a"
    using append_take_drop_id [of 8 "take 12 a"] by (simp add: min_def)
  ultimately show ?thesis
    using a by (simp add: store_twelve_bytes_def mm_storel_epi64_def write_twice)
qed

lemma length_8888_mask [simp]: "length (packed_8888_mask r g b) = 16"
  by (simp add: packed_8888_mask_def mm_setr_epi8_def)

lemma shuffle_8888:
  assumes "r < 4" "g < 4" "b < 4"
  shows "take 12 (mm_shuffle_epi8 a (packed_8888_mask r g b)) = parts (packed_8888_pixel r g b a) 4"
proof -
  have s: "shuffle_byte a (word_of_int (int i)) = a ! i" "shuffle_byte a (word_of_int (4 + int i)) = a ! (4 + i)"
    "shuffle_byte a (word_of_int (8 + int i)) = a ! (8 + i)"
    "shuffle_byte a (word_of_int (12 + int i)) = a ! (12 + i)" if "i < 4" for i
    using that shuffle_byte_nat [of i] shuffle_byte_nat [of "4 + i"] shuffle_byte_nat [of "8 + i"]
      shuffle_byte_nat [of "12 + i"] by simp_all
  have "take 12 (mm_shuffle_epi8 a (packed_8888_mask r g b)) =
     [a ! r, a ! g, a ! b, a ! (4 + r), a ! (4 + g), a ! (4 + b), a ! (8 + r), a ! (8 + g), a ! (8 + b),
      a ! (12 + r), a ! (12 + g), a ! (12 + b)]"
    unfolding packed_8888_mask_def mm_setr_epi8_def mm_shuffle_epi8_def list.map s [OF assms(1)]
      s [OF assms(2)] s [OF assms(3)] by simp
  also have "\<dots> = parts (packed_8888_pixel r g b a) 4"
    by (simp add: parts_def packed_8888_pixel_def numeral_eq_Suc)
  finally show "take 12 (mm_shuffle_epi8 a (packed_8888_mask r g b)) = parts (packed_8888_pixel r g b a) 4" .
qed

lemma packed_8888_ssse3_filled:
  assumes "groups = min (length source div 16) (length rgb div 12)" and c: "r < 4" "g < 4" "b < 4"
  shows "packed_8888_row_ssse3 r g b source rgb =
    Ok (groups * 4, filled (packed_8888_pixel r g b source) (4 * groups) rgb)"
proof -
  let ?p = "packed_8888_pixel r g b"
  have le: "groups \<le> length source div 16" "groups \<le> length rgb div 12" by (simp_all add: assms)
  have loop: "for_each (\<lambda>group rgb.
       and_then (mm_loadu_si128 source (group * 16)) (\<lambda>raw.
         store_twelve_bytes (mm_shuffle_epi8 raw (packed_8888_mask r g b)) rgb (group * 12)))
     [0..<groups] rgb = Ok (filled (?p source) (4 * groups) rgb)"
  proof (rule group_loop [where f = "\<lambda>k _. Ok (parts (?p (group_of 16 k source)) 4)"])
    fix k and out :: "u8 list"
    assume "k < groups"
    from group_bound [OF this le(1)] have raw: "16 * Suc k \<le> length source" .
    show "and_then (mm_loadu_si128 source (k * 16)) (\<lambda>raw.
         store_twelve_bytes (mm_shuffle_epi8 raw (packed_8888_mask r g b)) out (k * 12))
      = modify_slice out (3 * 4 * k) (3 * 4) (\<lambda>_. Ok (parts (?p (group_of 16 k source)) 4))"
      by (simp add: load_group(1) [OF raw] store_twelve shuffle_8888 c write_as_slice length_parts mult.commute [of k 12])
    have "parts (?p (group_of 16 k source)) 4 = parts (\<lambda>i. ?p source (4 * k + i)) 4"
      by (rule parts_cong) (use c in \<open>simp add: packed_8888_pixel_def group_of(2) [OF raw] algebra_simps\<close>)
    then show "Ok (parts (?p (group_of 16 k source)) 4) = Ok (parts (\<lambda>i. ?p source (4 * k + i)) 4)" by simp
  qed (use group_room [OF le(2)] in simp_all)
  show ?thesis by (simp add: packed_8888_row_ssse3_def Let_def loop flip: assms(1))
qed

lemma packed_8888_avx2_filled:
  assumes "groups = min (length source div 32) (length rgb div 24)" and c: "r < 4" "g < 4" "b < 4"
  shows "packed_8888_row_avx2 r g b source rgb =
    Ok (groups * 8, filled (packed_8888_pixel r g b source) (8 * groups) rgb)"
proof -
  let ?p = "packed_8888_pixel r g b" and ?m = "packed_8888_mask r g b"
  have le: "groups \<le> length source div 32" "groups \<le> length rgb div 24" by (simp_all add: assms)
  have loop: "for_each (\<lambda>group rgb.
       and_then (mm256_loadu_si256 source (group * 32)) (\<lambda>raw.
         and_then (store_twelve_bytes (mm256_castsi256_si128 (mm256_shuffle_epi8 raw (mm256_broadcastsi128_si256 ?m)))
           rgb (group * 24)) (\<lambda>rgb.
         store_twelve_bytes (mm256_extracti128_si256_1 (mm256_shuffle_epi8 raw (mm256_broadcastsi128_si256 ?m)))
           rgb (group * 24 + 12))))
     [0..<groups] rgb = Ok (filled (?p source) (8 * groups) rgb)"
  proof (rule group_loop [where f = "\<lambda>k _. Ok (parts (?p (group_of 32 k source)) 8)"])
    fix k and out :: "u8 list"
    assume "k < groups"
    from group_bound [OF this le(1)] have raw: "32 * Suc k \<le> length source" .
    let ?raw = "group_of 32 k source"
    have halves: "mm256_castsi256_si128 (mm256_shuffle_epi8 ?raw (mm256_broadcastsi128_si256 ?m)) = mm_shuffle_epi8 (take 16 ?raw) ?m"
      "mm256_extracti128_si256_1 (mm256_shuffle_epi8 ?raw (mm256_broadcastsi128_si256 ?m)) = mm_shuffle_epi8 (drop 16 ?raw) ?m"
      by (simp_all add: mm256_castsi256_si128_def mm256_extracti128_si256_1_def mm256_shuffle_epi8_def
          mm256_broadcastsi128_si256_def)
    have low: "parts (?p (take 16 ?raw)) 4 = parts (?p ?raw) 4"
      by (rule parts_cong) (use c in \<open>simp add: packed_8888_pixel_def\<close>)
    have high: "parts (?p (drop 16 ?raw)) 4 = parts (\<lambda>i. ?p ?raw (4 + i)) 4"
      by (rule parts_cong) (use c in \<open>simp add: packed_8888_pixel_def group_of(1) [OF raw] algebra_simps\<close>)
    have "parts (?p ?raw) 4 @ parts (\<lambda>i. ?p ?raw (4 + i)) 4 = parts (?p ?raw) 8"
      using parts_add [of "?p ?raw" 4 4] by simp
    then show "and_then (mm256_loadu_si256 source (k * 32)) (\<lambda>raw.
         and_then (store_twelve_bytes (mm256_castsi256_si128 (mm256_shuffle_epi8 raw (mm256_broadcastsi128_si256 ?m)))
           out (k * 24)) (\<lambda>rgb.
         store_twelve_bytes (mm256_extracti128_si256_1 (mm256_shuffle_epi8 raw (mm256_broadcastsi128_si256 ?m)))
           rgb (k * 24 + 12)))
      = modify_slice out (3 * 8 * k) (3 * 8) (\<lambda>_. Ok (parts (?p ?raw) 8))"
      by (simp add: load_group(3) [OF raw] halves store_twelve shuffle_8888 c low high write_twice length_parts
          mult.commute [of k 24]) (simp add: write_as_slice length_parts)
    have "parts (?p ?raw) 8 = parts (\<lambda>i. ?p source (8 * k + i)) 8"
      by (rule parts_cong) (use c in \<open>simp add: packed_8888_pixel_def group_of(2) [OF raw] algebra_simps\<close>)
    then show "Ok (parts (?p ?raw) 8) = Ok (parts (\<lambda>i. ?p source (8 * k + i)) 8)" by simp
  qed (use group_room [OF le(2)] in simp_all)
  show ?thesis by (simp add: packed_8888_row_avx2_def Let_def loop flip: assms(1))
qed

end
