(* ===== verification/Color_Rows.thy ===== *)
theory Color_Rows
  imports Avx2_Packed
begin

text \<open>
  The loops that the conversions of \<open>src/utils/color_convert.rs\<close> share: the columns a kernel left
  to the scalar code, the rows of an image, and two rows at once.
\<close>

section \<open>Rows of an image\<close>

text \<open>Converting row by row, each into its slice of the image.\<close>

definition for_rows ::
  "usize \<Rightarrow> usize \<Rightarrow> (usize \<Rightarrow> u8 list \<Rightarrow> (u8 list, 'e) result) \<Rightarrow> u8 list \<Rightarrow> (u8 list, 'e) result" where
  "for_rows height row_bytes convert =
     for_each (\<lambda>row rgb. modify_slice rgb (row * row_bytes) row_bytes (convert row)) [0..<height]"

lemma for_rows_filled:
  fixes P :: "nat \<Rightarrow> u8 list"
  assumes pixel: "\<And>i. length (P i) = 3" and room: "3 * (width * height) \<le> length rgb"
    and row: "\<And>row out. row < height \<Longrightarrow> length out = 3 * width \<Longrightarrow>
      convert row out = Ok (parts (\<lambda>i. P (width * row + i)) width)"
    and bytes: "row_bytes = 3 * width"
  shows "for_rows height row_bytes convert rgb = Ok (filled P (width * height) rgb)"
  unfolding for_rows_def bytes
  by (rule group_loop [where f = convert])
    (use assms in \<open>simp_all add: mult.commute [of _ "3 * width"] mult.assoc\<close>)

text \<open>Two rows at once, in adjacent slices of the image (\<open>split_at_mut\<close>).\<close>

definition modify_two_rows ::
  "u8 list \<Rightarrow> usize \<Rightarrow> usize \<Rightarrow> (u8 list \<times> u8 list \<Rightarrow> (u8 list \<times> u8 list, 'e) result) \<Rightarrow> (u8 list, 'e) result" where
  "modify_two_rows rgb offset n f =
     and_then (sub_slice rgb offset n) (\<lambda>rgb0.
     and_then (sub_slice rgb (offset + n) n) (\<lambda>rgb1.
     and_then (f (rgb0, rgb1)) (\<lambda>(rgb0, rgb1).
       Ok (overwrite (overwrite rgb offset rgb0) (offset + n) rgb1))))"

lemma overwrite_blocks:
  assumes "\<And>i. length (p i) = 3" "3 * m * Suc n \<le> length xs"
  shows "overwrite (filled p (m * n) xs) (3 * m * n) (parts (\<lambda>i. p (m * n + i)) m) = filled p (m * Suc n) xs"
proof -
  let ?q = "\<lambda>g. parts (\<lambda>i. p (m * g + i)) m"
  have q: "filled p (m * k) xs = filled ?q k xs" for k by (simp only: filled_def parts_blocks)
  have "length (?q g) = 3 * m" for g using assms(1) by (simp add: length_parts)
  then have "length (parts ?q k) = 3 * m * k" for k by (simp add: length_parts)
  then show ?thesis using assms(2) overwrite_filled [of ?q n xs] unfolding q by simp
qed

lemma two_blocks_filled:
  assumes pixel: "\<And>i. length (p i) = 3" and room: "3 * m * (n + 2) \<le> length xs"
    and f: "\<And>out0 out1. length out0 = 3 * m \<Longrightarrow> length out1 = 3 * m \<Longrightarrow>
      f (out0, out1) = Ok (parts (\<lambda>i. p (m * n + i)) m, parts (\<lambda>i. p (m * Suc n + i)) m)"
  shows "modify_two_rows (filled p (m * n) xs) (3 * m * n) (3 * m) f = Ok (filled p (m * (n + 2)) xs)"
proof -
  have room': "3 * m * Suc n + 3 * m \<le> length xs" "3 * m * Suc (Suc n) \<le> length xs" "3 * m * Suc n \<le> length xs"
    using room by simp_all
  have len: "length (filled p (m * n) xs) = length xs"
    using room' length_parts [of "m * n" p 3] pixel by (intro length_filled) simp
  have "length (take (3 * m) (drop k (filled p (m * n) xs))) = 3 * m" if "k + 3 * m \<le> length xs" for k
    using that len by simp
  then show ?thesis
    using room' overwrite_blocks [of p m n xs, OF pixel room'(3)] overwrite_blocks [of p m "Suc n" xs, OF pixel room'(2)]
    by (simp add: modify_two_rows_def sub_slice_def len f add.commute)
qed

definition for_row_pairs ::
  "usize \<Rightarrow> usize \<Rightarrow> (usize \<Rightarrow> u8 list \<times> u8 list \<Rightarrow> (u8 list \<times> u8 list, 'e) result) \<Rightarrow> u8 list \<Rightarrow>
   (u8 list, 'e) result" where
  "for_row_pairs paired_rows row_bytes convert =
     for_each (\<lambda>row rgb. modify_two_rows rgb (row * row_bytes) row_bytes (convert row))
       (step_by 0 paired_rows 2)"

lemma for_row_pairs_filled:
  fixes P :: "nat \<Rightarrow> u8 list"
  assumes pixel: "\<And>i. length (P i) = 3" and room: "3 * (width * (2 * n)) \<le> length rgb"
    and rows: "\<And>row out0 out1. Suc row < 2 * n \<Longrightarrow> even row \<Longrightarrow> length out0 = 3 * width \<Longrightarrow> length out1 = 3 * width \<Longrightarrow>
      convert row (out0, out1) =
        Ok (parts (\<lambda>i. P (width * row + i)) width, parts (\<lambda>i. P (width * Suc row + i)) width)"
  shows "for_row_pairs (n * 2) (width * 3) convert rgb = Ok (filled P (width * (n * 2)) rgb)"
proof -
  let ?body = "\<lambda>row rgb. modify_two_rows rgb (row * (width * 3)) (width * 3) (convert row)"
  have "for_each (\<lambda>i. ?body (2 * i)) [0..<n] (filled P (width * (2 * 0)) rgb) = Ok (filled P (width * (2 * n)) rgb)"
  proof (rule upto_loop)
    fix i
    assume i: "i < n"
    then have "2 * i + 2 \<le> 2 * n" by simp
    then have "3 * width * (2 * i + 2) \<le> 3 * width * (2 * n)" by (rule mult_le_mono2)
    with room have "3 * width * (2 * i + 2) \<le> length rgb" by simp
    then have "modify_two_rows (filled P (width * (2 * i)) rgb) (3 * width * (2 * i)) (3 * width) (convert (2 * i))
      = Ok (filled P (width * (2 * i + 2)) rgb)"
      using i by (intro two_blocks_filled pixel) (use rows in simp_all)
    then show "?body (2 * i) (filled P (width * (2 * i)) rgb) = Ok (filled P (width * (2 * Suc i)) rgb)"
      by (simp add: mult_ac)
  qed simp
  then show ?thesis
    unfolding for_row_pairs_def step_by_multiple [of 2 n, simplified] for_each_map
    by (simp add: mult.commute [of n 2])
qed

text \<open>Two rows at a time, and the last one of an odd height.\<close>

lemma paired_image:
  fixes P :: "nat \<Rightarrow> u8 list"
  assumes pixel: "\<And>i. length (P i) = 3" and room: "3 * (width * height) \<le> length rgb"
    and two: "\<And>row out0 out1. Suc row < height \<Longrightarrow> even row \<Longrightarrow> length out0 = 3 * width \<Longrightarrow> length out1 = 3 * width \<Longrightarrow>
      convert row (out0, out1) =
        (Ok (parts (\<lambda>i. P (width * row + i)) width, parts (\<lambda>i. P (width * Suc row + i)) width)
          :: (u8 list \<times> u8 list, 'e) result)"
    and one: "\<And>row out. row < height \<Longrightarrow> length out = 3 * width \<Longrightarrow>
      convert_one row out = (Ok (parts (\<lambda>i. P (width * row + i)) width) :: (u8 list, 'e) result)"
  shows "and_then (for_row_pairs (height div 2 * 2) (width * 3) convert rgb) (\<lambda>rgb.
      if height div 2 * 2 \<noteq> height
      then modify_slice rgb (height div 2 * 2 * (width * 3)) (width * 3) (convert_one (height div 2 * 2))
      else Ok rgb) = Ok (filled P (width * height) rgb)"
proof -
  let ?n = "height div 2"
  have "width * (2 * ?n) \<le> width * height" by simp
  then have room2: "3 * (width * (2 * ?n)) \<le> length rgb" using room by linarith
  have pairs: "for_row_pairs (?n * 2) (width * 3) convert rgb = Ok (filled P (width * (?n * 2)) rgb)"
    by (rule for_row_pairs_filled) (use room2 pixel two in simp_all)
  show ?thesis
  proof (cases "?n * 2 = height")
    case True
    with pairs show ?thesis by simp
  next
    case False
    then have odd: "height = Suc (?n * 2)" by presburger
    have "modify_slice (filled P (width * (?n * 2)) rgb) (3 * width * (?n * 2)) (3 * width) (convert_one (?n * 2))
        = Ok (filled P (width * Suc (?n * 2)) rgb)"
      using room odd by (intro block_filled pixel one) (auto simp: mult.assoc)
    with pairs odd False show ?thesis by (simp add: mult_ac)
  qed
qed

section \<open>The columns of a row\<close>

text \<open>The columns of a planar row from \<open>start\<close>: one chroma pair for two columns.\<close>

definition planar_column ::
  "u8 list \<Rightarrow> u8 list \<Rightarrow> u8 list \<Rightarrow> coefficients \<Rightarrow> usize \<Rightarrow> usize \<Rightarrow> u8 list \<Rightarrow> (u8 list, 'e) result" where
  "planar_column y_row u_row v_row c chroma x rgb_row =
     and_then (index_at y_row x) (\<lambda>y.
     and_then (index_at u_row chroma) (\<lambda>u.
     and_then (index_at v_row chroma) (\<lambda>v.
       write_at rgb_row (x * 3) (yuv_pixel c y u v))))"

definition planar_columns ::
  "u8 list \<Rightarrow> u8 list \<Rightarrow> u8 list \<Rightarrow> coefficients \<Rightarrow> usize \<Rightarrow> usize \<times> u8 list \<Rightarrow> (u8 list, 'e) result" where
  "planar_columns y_row u_row v_row c width started =
     (case started of (start, rgb_row) \<Rightarrow>
       for_each (\<lambda>column.
         for_each (planar_column y_row u_row v_row c (column div 2)) [column..<min (column + 2) width])
         (step_by start width 2) rgb_row)"

definition planar_columns_two ::
  "u8 list \<Rightarrow> u8 list \<Rightarrow> u8 list \<Rightarrow> u8 list \<Rightarrow> coefficients \<Rightarrow> usize \<Rightarrow> usize \<times> u8 list \<times> u8 list \<Rightarrow>
   (u8 list \<times> u8 list, 'e) result" where
  "planar_columns_two y0 y1 u_row v_row c width started =
     (case started of (start, rgbs) \<Rightarrow>
       for_each (\<lambda>column (rgb0, rgb1).
         and_then (for_each (planar_column y0 u_row v_row c (column div 2)) [column..<min (column + 2) width] rgb0)
           (\<lambda>rgb0.
         and_then (for_each (planar_column y1 u_row v_row c (column div 2)) [column..<min (column + 2) width] rgb1)
           (\<lambda>rgb1. Ok (rgb0, rgb1))))
         (step_by start width 2) rgbs)"

lemma planar_column_step:
  assumes "length y_row = width" "div_ceil width 2 \<le> length u_row" "div_ceil width 2 \<le> length v_row"
    "length out = 3 * width" "x < width" "chroma = x div 2"
  shows "planar_column y_row u_row v_row c chroma x (filled (planar_pixel 10 512 512 c y_row u_row v_row) x out)
    = Ok (filled (planar_pixel 10 512 512 c y_row u_row v_row) (Suc x) out)"
proof -
  have "x div 2 < div_ceil width 2" using assms(5) by (rule half_less_div_ceil)
  then have eq: "planar_column y_row u_row v_row c chroma x out' =
      write_at out' (x * 3) (planar_pixel 10 512 512 c y_row u_row v_row x)" for out'
    using assms by (simp add: planar_column_def index_at_def planar_pixel_def lane_pixel_yuv)
  have "3 * Suc x \<le> length out" using assms(4,5) by simp
  then show ?thesis unfolding eq by (intro write_filled [where c = 3]) simp_all
qed

lemma pair_columns_run:
  assumes x: "\<And>x. x < width \<Longrightarrow> f (x div 2) x (s x) = Ok (s (Suc x))"
    and column: "column < width" "even column"
  shows "for_each (f (column div 2)) [column..<min (column + 2) width] (s column)
    = Ok (s (min (column + 2) width))"
proof (rule upto_loop)
  fix z
  assume "column \<le> z" "z < min (column + 2) width"
  then have z: "z = column \<or> z = column + 1" "z < width" by auto
  from column(2) obtain k where "column = 2 * k" by blast
  with z(1) have "z div 2 = column div 2" by auto
  with x [OF z(2)] show "f (column div 2) z (s z) = Ok (s (Suc z))" by simp
qed (use column in simp)

lemma planar_columns_filled:
  assumes "length y_row = width" "div_ceil width 2 \<le> length u_row" "div_ceil width 2 \<le> length v_row"
    "length out = 3 * width" "even start" "start \<le> width"
  shows "planar_columns y_row u_row v_row c width (start, filled (planar_pixel 10 512 512 c y_row u_row v_row) start out)
    = Ok (parts (planar_pixel 10 512 512 c y_row u_row v_row) width)"
proof -
  let ?p = "planar_pixel 10 512 512 c y_row u_row v_row"
  have "for_each (\<lambda>column.
         for_each (planar_column y_row u_row v_row c (column div 2)) [column..<min (column + 2) width])
         (step_by start width 2) (filled ?p start out) = Ok (filled ?p width out)"
  proof (rule pair_loop)
    fix column
    assume "start \<le> column" "column < width" "even (column - start)"
    then show "for_each (planar_column y_row u_row v_row c (column div 2)) [column..<min (column + 2) width]
        (filled ?p column out) = Ok (filled ?p (min (column + 2) width) out)"
      using assms by (intro pair_columns_run planar_column_step) auto
  qed (use assms in simp)
  moreover have "filled ?p width out = parts ?p width"
    using assms(4) by (intro filled_all) (simp add: length_parts)
  ultimately show ?thesis by (simp add: planar_columns_def)
qed

lemma planar_columns_two_filled:
  assumes "length y0 = width" "length y1 = width" "div_ceil width 2 \<le> length u_row"
    "div_ceil width 2 \<le> length v_row" "length out0 = 3 * width" "length out1 = 3 * width"
    "even start" "start \<le> width"
  shows "planar_columns_two y0 y1 u_row v_row c width
      (start, filled (planar_pixel 10 512 512 c y0 u_row v_row) start out0,
       filled (planar_pixel 10 512 512 c y1 u_row v_row) start out1)
    = Ok (parts (planar_pixel 10 512 512 c y0 u_row v_row) width,
          parts (planar_pixel 10 512 512 c y1 u_row v_row) width)"
proof -
  let ?p0 = "planar_pixel 10 512 512 c y0 u_row v_row" and ?p1 = "planar_pixel 10 512 512 c y1 u_row v_row"
  have two: "Suc (Suc column) = column + 2" for column by simp
  have run: "for_each (planar_column y u_row v_row c (column div 2)) [column..<min (Suc (Suc column)) width]
      (filled (planar_pixel 10 512 512 c y u_row v_row) column out)
     = Ok (filled (planar_pixel 10 512 512 c y u_row v_row) (min (Suc (Suc column)) width) out)"
    if "column < width" "even column" "length y = width" "length out = 3 * width"
    for column y out
    unfolding two by (rule pair_columns_run [where s = "\<lambda>x. filled (planar_pixel 10 512 512 c y u_row v_row) x out"])
      (rule planar_column_step, use assms that in simp_all)
  have "for_each (\<lambda>column (rgb0, rgb1).
         and_then (for_each (planar_column y0 u_row v_row c (column div 2)) [column..<min (column + 2) width] rgb0)
           (\<lambda>rgb0.
         and_then (for_each (planar_column y1 u_row v_row c (column div 2)) [column..<min (column + 2) width] rgb1)
           (\<lambda>rgb1. Ok (rgb0, rgb1))))
         (step_by start width 2) (filled ?p0 start out0, filled ?p1 start out1)
     = Ok (filled ?p0 width out0, filled ?p1 width out1)"
    by (rule pair_loop [where s = "\<lambda>x. (filled ?p0 x out0, filled ?p1 x out1)"])
      (use assms in \<open>simp_all add: run\<close>)
  moreover have "filled ?p0 width out0 = parts ?p0 width" "filled ?p1 width out1 = parts ?p1 width"
    using assms(5,6) by (auto intro!: filled_all simp: length_parts)
  ultimately show ?thesis by (simp add: planar_columns_two_def)
qed

section \<open>The columns of a semi-planar row\<close>

definition chroma_pair :: "bool \<Rightarrow> u8 list \<Rightarrow> usize \<Rightarrow> (u8 \<times> u8, 'e) result" where
  "chroma_pair vu_order uv_row chroma =
     (if vu_order
      then and_then (index_at uv_row (chroma + 1)) (\<lambda>u. and_then (index_at uv_row chroma) (\<lambda>v. Ok (u, v)))
      else and_then (index_at uv_row chroma) (\<lambda>u. and_then (index_at uv_row (chroma + 1)) (\<lambda>v. Ok (u, v))))"

definition luma_column :: "u8 list \<Rightarrow> u8 \<Rightarrow> u8 \<Rightarrow> coefficients \<Rightarrow> usize \<Rightarrow> u8 list \<Rightarrow> (u8 list, 'e) result" where
  "luma_column y_row u v c x rgb_row =
     and_then (index_at y_row x) (\<lambda>y. write_at rgb_row (x * 3) (yuv_pixel c y u v))"

definition semiplanar_columns ::
  "bool \<Rightarrow> u8 list \<Rightarrow> u8 list \<Rightarrow> coefficients \<Rightarrow> usize \<Rightarrow> usize \<times> u8 list \<Rightarrow> (u8 list, 'e) result" where
  "semiplanar_columns vu_order y_row uv_row c width started =
     (case started of (start, rgb_row) \<Rightarrow>
       for_each (\<lambda>column rgb_row.
         and_then (chroma_pair vu_order uv_row (column div 2 * 2)) (\<lambda>(u, v).
           for_each (luma_column y_row u v c) [column..<min (column + 2) width] rgb_row))
         (step_by start width 2) rgb_row)"

definition semiplanar_columns_two ::
  "bool \<Rightarrow> u8 list \<Rightarrow> u8 list \<Rightarrow> u8 list \<Rightarrow> coefficients \<Rightarrow> usize \<Rightarrow> usize \<times> u8 list \<times> u8 list \<Rightarrow>
   (u8 list \<times> u8 list, 'e) result" where
  "semiplanar_columns_two vu_order y0 y1 uv_row c width started =
     (case started of (start, rgbs) \<Rightarrow>
       for_each (\<lambda>column rgbs.
         and_then (chroma_pair vu_order uv_row (column div 2 * 2)) (\<lambda>(u, v).
           for_each (\<lambda>x (rgb0, rgb1).
             and_then (luma_column y0 u v c x rgb0) (\<lambda>rgb0.
             and_then (luma_column y1 u v c x rgb1) (\<lambda>rgb1. Ok (rgb0, rgb1))))
             [column..<min (column + 2) width] rgbs))
         (step_by start width 2) rgbs)"

definition chroma_of :: "bool \<Rightarrow> u8 list \<Rightarrow> nat \<Rightarrow> u8 \<times> u8" where
  "chroma_of vu_order uv_row k =
     (if vu_order then (uv_row ! (2 * k + 1), uv_row ! (2 * k)) else (uv_row ! (2 * k), uv_row ! (2 * k + 1)))"

lemma chroma_pair_Ok:
  assumes "2 * div_ceil width 2 \<le> length uv_row" "column < width"
  shows "chroma_pair vu_order uv_row (column div 2 * 2) = Ok (chroma_of vu_order uv_row (column div 2))"
proof -
  have "column div 2 < div_ceil width 2" using assms(2) by (rule half_less_div_ceil)
  then have "2 * (column div 2) + 1 < length uv_row" using assms(1) by linarith
  then show ?thesis by (simp add: chroma_pair_def chroma_of_def index_at_def mult.commute)
qed

lemma semiplanar_pixel_chroma:
  "semiplanar_pixel vu_order 10 512 512 c y_row uv_row x =
     (case chroma_of vu_order uv_row (x div 2) of (u, v) \<Rightarrow> yuv_pixel c (y_row ! x) u v)"
  by (simp add: semiplanar_pixel_def chroma_of_def lane_pixel_yuv)

lemma luma_column_step:
  assumes "x < width" "length y_row = width" "length out = 3 * width" "chroma_of vu_order uv_row (x div 2) = (u, v)"
  shows "luma_column y_row u v c x (filled (semiplanar_pixel vu_order 10 512 512 c y_row uv_row) x out)
    = Ok (filled (semiplanar_pixel vu_order 10 512 512 c y_row uv_row) (Suc x) out)"
proof -
  have eq: "luma_column y_row u v c x out' =
      write_at out' (x * 3) (semiplanar_pixel vu_order 10 512 512 c y_row uv_row x)" for out'
    using assms by (simp add: luma_column_def index_at_def semiplanar_pixel_chroma)
  have "3 * Suc x \<le> length out" using assms by simp
  then show ?thesis unfolding eq by (intro write_filled [where c = 3]) simp_all
qed

lemma semiplanar_columns_filled:
  assumes y: "length y_row = width" and uv: "2 * div_ceil width 2 \<le> length uv_row"
    and out: "length out = 3 * width" and start: "even start" "start \<le> width"
  shows "semiplanar_columns vu_order y_row uv_row c width
      (start, filled (semiplanar_pixel vu_order 10 512 512 c y_row uv_row) start out)
    = Ok (parts (semiplanar_pixel vu_order 10 512 512 c y_row uv_row) width)"
proof -
  let ?p = "semiplanar_pixel vu_order 10 512 512 c y_row uv_row"
  let ?f = "\<lambda>k. luma_column y_row (fst (chroma_of vu_order uv_row k)) (snd (chroma_of vu_order uv_row k)) c"
  have run: "for_each (?f (column div 2)) [column..<min (column + 2) width] (filled ?p column out)
      = Ok (filled ?p (min (column + 2) width) out)" if "column < width" "even column" for column
    by (rule pair_columns_run [where s = "\<lambda>x. filled ?p x out"]) (rule luma_column_step, use y out that in simp_all)
  have "for_each (\<lambda>column rgb_row.
         and_then (chroma_pair vu_order uv_row (column div 2 * 2)) (\<lambda>(u, v).
           for_each (luma_column y_row u v c) [column..<min (column + 2) width] rgb_row))
         (step_by start width 2) (filled ?p start out) = Ok (filled ?p width out)"
  proof (rule pair_loop)
    fix column
    assume "start \<le> column" "column < width" "even (column - start)"
    with start(1) show "and_then (chroma_pair vu_order uv_row (column div 2 * 2)) (\<lambda>(u, v).
        for_each (luma_column y_row u v c) [column..<min (column + 2) width] (filled ?p column out))
      = Ok (filled ?p (min (column + 2) width) out)"
      unfolding chroma_pair_Ok [OF uv \<open>column < width\<close>] and_then.simps split_beta by (intro run) auto
  qed (rule start(2))
  moreover have "filled ?p width out = parts ?p width"
    using out by (intro filled_all) (simp add: length_parts)
  ultimately show ?thesis by (simp add: semiplanar_columns_def)
qed

lemma semiplanar_columns_two_filled:
  assumes y: "length y0 = width" "length y1 = width" and uv: "2 * div_ceil width 2 \<le> length uv_row"
    and out: "length out0 = 3 * width" "length out1 = 3 * width" and start: "even start" "start \<le> width"
  shows "semiplanar_columns_two vu_order y0 y1 uv_row c width
      (start, filled (semiplanar_pixel vu_order 10 512 512 c y0 uv_row) start out0,
       filled (semiplanar_pixel vu_order 10 512 512 c y1 uv_row) start out1)
    = Ok (parts (semiplanar_pixel vu_order 10 512 512 c y0 uv_row) width,
          parts (semiplanar_pixel vu_order 10 512 512 c y1 uv_row) width)"
proof -
  let ?p0 = "semiplanar_pixel vu_order 10 512 512 c y0 uv_row"
    and ?p1 = "semiplanar_pixel vu_order 10 512 512 c y1 uv_row"
  let ?s = "\<lambda>x. (filled ?p0 x out0, filled ?p1 x out1)"
  let ?f = "\<lambda>k x (rgb0, rgb1).
    and_then (luma_column y0 (fst (chroma_of vu_order uv_row k)) (snd (chroma_of vu_order uv_row k)) c x rgb0) (\<lambda>rgb0.
    and_then (luma_column y1 (fst (chroma_of vu_order uv_row k)) (snd (chroma_of vu_order uv_row k)) c x rgb1) (\<lambda>rgb1.
      Ok (rgb0, rgb1)))"
  have run: "for_each (?f (column div 2)) [column..<min (column + 2) width] (?s column)
      = Ok (?s (min (column + 2) width))" if "column < width" "even column" for column
    by (rule pair_columns_run [where s = ?s]) (use y out that in \<open>simp_all add: luma_column_step\<close>)
  have "for_each (\<lambda>column rgbs.
         and_then (chroma_pair vu_order uv_row (column div 2 * 2)) (\<lambda>(u, v).
           for_each (\<lambda>x (rgb0, rgb1).
             and_then (luma_column y0 u v c x rgb0) (\<lambda>rgb0.
             and_then (luma_column y1 u v c x rgb1) (\<lambda>rgb1. Ok (rgb0, rgb1))))
             [column..<min (column + 2) width] rgbs))
         (step_by start width 2) (?s start) = Ok (?s width)"
  proof (rule pair_loop [where s = ?s])
    fix column
    assume "start \<le> column" "column < width" "even (column - start)"
    with start(1) show "and_then (chroma_pair vu_order uv_row (column div 2 * 2)) (\<lambda>(u, v).
        for_each (\<lambda>x (rgb0, rgb1).
             and_then (luma_column y0 u v c x rgb0) (\<lambda>rgb0.
             and_then (luma_column y1 u v c x rgb1) (\<lambda>rgb1. Ok (rgb0, rgb1))))
          [column..<min (column + 2) width] (?s column))
      = Ok (?s (min (column + 2) width))"
      unfolding chroma_pair_Ok [OF uv \<open>column < width\<close>] and_then.simps split_beta
      by (intro run [unfolded split_beta]) auto
  qed (rule start(2))
  moreover have "filled ?p0 width out0 = parts ?p0 width" "filled ?p1 width out1 = parts ?p1 width"
    using out by (auto intro!: filled_all simp: length_parts)
  ultimately show ?thesis by (simp add: semiplanar_columns_two_def)
qed

end
