(* ===== verification/Color_Yuv.thy ===== *)
theory Color_Yuv
  imports Color_Rows
begin

text \<open>
  The conversions of planar and semi-planar 4:2:0 images of \<open>src/utils/color_convert.rs\<close>, as
  compiled for x86-64: \<open>avx2\<close> is the answer of \<open>is_x86_feature_detected!("avx2")\<close>.  The theorems
  state that every accepted image becomes the reference image, whichever kernels run.
\<close>

section \<open>Planes that cover an image\<close>

definition plane_covers :: "yuv_plane \<Rightarrow> nat \<Rightarrow> nat \<Rightarrow> bool" where
  "plane_covers p width height \<longleftrightarrow>
     0 < width \<and> 0 < height \<and> 0 < yp_pixel_stride p \<and>
     (width - 1) * yp_pixel_stride p < yp_row_stride p \<and>
     (height - 1) * yp_row_stride p + (width - 1) * yp_pixel_stride p < length (yp_data p)"

definition plane_sample :: "yuv_plane \<Rightarrow> nat \<Rightarrow> nat \<Rightarrow> u8" where
  "plane_sample p row column = yp_data p ! (row * yp_row_stride p + column * yp_pixel_stride p)"

lemma plane_validate_iff:
  assumes "length (yp_data p) < usize_bound"
  shows "yuv_plane_validate p width height =
    (if plane_covers p width height then Ok ()
     else Err (invalid_frame ''Invalid YUV plane stride or truncated data''))"
proof (cases "0 < width \<and> 0 < height")
  case False
  then show ?thesis
    by (auto simp: yuv_plane_validate_def plane_covers_def Let_def checked_sub_def)
next
  case True
  define a b where "a = (width - 1) * yp_pixel_stride p" and "b = (height - 1) * yp_row_stride p"
  from True have s: "checked_sub width 1 = Some (width - 1)" "checked_sub height 1 = Some (height - 1)"
    by (auto simp: checked_sub_def)
  show ?thesis
    using True assms
    unfolding yuv_plane_validate_def plane_covers_def Let_def s Option.bind.simps checked_mul_def checked_add_def
      a_def [symmetric] b_def [symmetric]
    by (auto split: option.splits)
qed

lemma plane_covers_pos: "plane_covers p width height \<Longrightarrow> 0 < width \<and> 0 < height"
  by (simp add: plane_covers_def)

lemma covered_sample:
  assumes "plane_covers p width height" "row < height" "column < width"
  shows "row * yp_row_stride p + column * yp_pixel_stride p < length (yp_data p)"
proof -
  have "row * yp_row_stride p \<le> (height - 1) * yp_row_stride p"
    "column * yp_pixel_stride p \<le> (width - 1) * yp_pixel_stride p"
    using assms(2,3) by (auto intro: mult_le_mono1)
  with assms(1) show ?thesis unfolding plane_covers_def by linarith
qed

lemma covered_row:
  assumes "plane_covers p width height" "yp_pixel_stride p = 1" "row < height"
  shows "row * yp_row_stride p + width \<le> length (yp_data p)"
  using covered_sample [OF assms(1,3), of "width - 1"] assms(1,2) by (simp add: plane_covers_def)

section \<open>Planar images\<close>

definition yuv420_checks :: "yuv_plane \<Rightarrow> yuv_plane \<Rightarrow> yuv_plane \<Rightarrow> usize \<Rightarrow> usize \<Rightarrow> u8 list \<Rightarrow> unit camera_result" where
  "yuv420_checks y u v width height rgb =
     and_then (yuv_plane_validate y width height) (\<lambda>_.
     and_then (yuv_plane_validate u (div_ceil width 2) (div_ceil height 2)) (\<lambda>_.
     and_then (yuv_plane_validate v (div_ceil width 2) (div_ceil height 2)) (\<lambda>_.
     and_then (ok_or (Option.bind (checked_mul width height) (\<lambda>pixels. checked_mul pixels 3))
       (invalid_frame ''RGB size overflow'')) (\<lambda>n.
     if length rgb < n then Err (invalid_frame ''RGB buffer too short'') else Ok ()))))"

text \<open>Two rows, or one, of contiguous planes with the AVX2 kernels.\<close>

definition yuv420_two_rows ::
  "yuv_plane \<Rightarrow> yuv_plane \<Rightarrow> yuv_plane \<Rightarrow> usize \<Rightarrow> coefficients \<Rightarrow> usize \<Rightarrow> u8 list \<times> u8 list \<Rightarrow>
   (u8 list \<times> u8 list) camera_result" where
  "yuv420_two_rows y u v width c row rgbs =
     (let chroma_width = div_ceil width 2
      in and_then (sub_slice (yp_data y) (row * yp_row_stride y) width) (\<lambda>y0.
         and_then (sub_slice (yp_data y) ((row + 1) * yp_row_stride y) width) (\<lambda>y1.
         and_then (sub_slice (yp_data u) (row div 2 * yp_row_stride u) chroma_width) (\<lambda>u_row.
         and_then (sub_slice (yp_data v) (row div 2 * yp_row_stride v) chroma_width) (\<lambda>v_row.
           case rgbs of (rgb0, rgb1) \<Rightarrow>
             and_then (planar_two_rows_avx2 10 512 512 y0 y1 u_row v_row rgb0 rgb1 c)
               (planar_columns_two y0 y1 u_row v_row c width))))))"

definition yuv420_one_row ::
  "yuv_plane \<Rightarrow> yuv_plane \<Rightarrow> yuv_plane \<Rightarrow> usize \<Rightarrow> coefficients \<Rightarrow> usize \<Rightarrow> u8 list \<Rightarrow> (u8 list) camera_result" where
  "yuv420_one_row y u v width c row rgb_row =
     (let chroma_width = div_ceil width 2
      in and_then (sub_slice (yp_data y) (row * yp_row_stride y) width) (\<lambda>y_row.
         and_then (sub_slice (yp_data u) (row div 2 * yp_row_stride u) chroma_width) (\<lambda>u_row.
         and_then (sub_slice (yp_data v) (row div 2 * yp_row_stride v) chroma_width) (\<lambda>v_row.
         and_then (planar_row_avx2 10 512 512 y_row u_row v_row rgb_row c)
           (planar_columns y_row u_row v_row c width)))))"

definition yuv420_avx2_image ::
  "yuv_plane \<Rightarrow> yuv_plane \<Rightarrow> yuv_plane \<Rightarrow> usize \<Rightarrow> usize \<Rightarrow> coefficients \<Rightarrow> u8 list \<Rightarrow> (u8 list) camera_result" where
  "yuv420_avx2_image y u v width height c rgb =
     (let rgb_row_bytes = width * 3;
          paired_rows = height div 2 * 2
      in and_then (for_row_pairs paired_rows rgb_row_bytes (yuv420_two_rows y u v width c) rgb) (\<lambda>rgb.
         if paired_rows \<noteq> height
         then modify_slice rgb (paired_rows * rgb_row_bytes) rgb_row_bytes (yuv420_one_row y u v width c paired_rows)
         else Ok rgb))"

text \<open>One row of planes with any strides, the fallback.\<close>

definition yuv420_scalar_row ::
  "bool \<Rightarrow> yuv_plane \<Rightarrow> yuv_plane \<Rightarrow> yuv_plane \<Rightarrow> usize \<Rightarrow> coefficients \<Rightarrow> usize \<Rightarrow> u8 list \<Rightarrow> (u8 list) camera_result" where
  "yuv420_scalar_row avx2 y u v width c row rgb =
     and_then
       (if yp_pixel_stride y = 1 \<and> yp_pixel_stride u = 1 \<and> yp_pixel_stride v = 1 \<and> avx2
        then
          and_then (sub_slice (yp_data y) (row * yp_row_stride y) width) (\<lambda>y_row.
          and_then (sub_slice (yp_data u) (row div 2 * yp_row_stride u) (div_ceil width 2)) (\<lambda>u_row.
          and_then (sub_slice (yp_data v) (row div 2 * yp_row_stride v) (div_ceil width 2)) (\<lambda>v_row.
          and_then (sub_slice rgb (row * width * 3) (width * 3)) (\<lambda>rgb_row.
          and_then (planar_row_avx2 10 512 512 y_row u_row v_row rgb_row c) (\<lambda>(start, rgb_row).
            Ok (start, overwrite rgb (row * width * 3) rgb_row))))))
        else Ok (0, rgb))
       (\<lambda>(start, rgb).
         for_each (\<lambda>column rgb.
           and_then (index_at (yp_data u) (row div 2 * yp_row_stride u + column div 2 * yp_pixel_stride u)) (\<lambda>u.
           and_then (index_at (yp_data v) (row div 2 * yp_row_stride v + column div 2 * yp_pixel_stride v)) (\<lambda>v.
             for_each (\<lambda>x rgb.
               and_then (index_at (yp_data y) (row * yp_row_stride y + x * yp_pixel_stride y)) (\<lambda>y.
                 write_at rgb ((row * width + x) * 3) (yuv_pixel c y u v)))
               [column..<min (column + 2) width] rgb)))
           (step_by start width 2) rgb)"

definition yuv420_to_rgb_with_coefficients_into ::
  "bool \<Rightarrow> yuv_plane \<Rightarrow> yuv_plane \<Rightarrow> yuv_plane \<Rightarrow> usize \<Rightarrow> usize \<Rightarrow> coefficients \<Rightarrow> u8 list \<Rightarrow> (u8 list) camera_result" where
  "yuv420_to_rgb_with_coefficients_into avx2 y u v width height c rgb =
     and_then (yuv420_checks y u v width height rgb) (\<lambda>_.
       if yp_pixel_stride y = 1 \<and> yp_pixel_stride u = 1 \<and> yp_pixel_stride v = 1 \<and> avx2
       then yuv420_avx2_image y u v width height c rgb
       else for_each (yuv420_scalar_row avx2 y u v width c) [0..<height] rgb)"

definition yuv420_to_rgb_into ::
  "bool \<Rightarrow> yuv_plane \<Rightarrow> yuv_plane \<Rightarrow> yuv_plane \<Rightarrow> usize \<Rightarrow> usize \<Rightarrow> u8 list \<Rightarrow> (u8 list) camera_result" where
  "yuv420_to_rgb_into avx2 y u v width height rgb =
     yuv420_to_rgb_with_coefficients_into avx2 y u v width height BT601_FULL_COEFFICIENTS rgb"

section \<open>The planar image\<close>

text \<open>The image that the conversion should produce: pixel \<open>i\<close> in row-major order.\<close>

definition reference_pixel ::
  "coefficients \<Rightarrow> yuv_plane \<Rightarrow> yuv_plane \<Rightarrow> yuv_plane \<Rightarrow> nat \<Rightarrow> nat \<Rightarrow> u8 list" where
  "reference_pixel c y u v width i =
     (let row = i div width; column = i mod width
      in yuv_pixel c (plane_sample y row column) (plane_sample u (row div 2) (column div 2))
           (plane_sample v (row div 2) (column div 2)))"

definition yuv420_accepts :: "yuv_plane \<Rightarrow> yuv_plane \<Rightarrow> yuv_plane \<Rightarrow> nat \<Rightarrow> nat \<Rightarrow> u8 list \<Rightarrow> bool" where
  "yuv420_accepts y u v width height rgb \<longleftrightarrow>
     plane_covers y width height \<and> plane_covers u (div_ceil width 2) (div_ceil height 2) \<and>
     plane_covers v (div_ceil width 2) (div_ceil height 2) \<and> 3 * (width * height) \<le> length rgb"

lemma length_reference_pixel [simp]: "length (reference_pixel c y u v width i) = 3"
  by (simp add: reference_pixel_def Let_def)

lemma yuv420_checks_iff:
  assumes "length (yp_data y) < usize_bound" "length (yp_data u) < usize_bound"
    "length (yp_data v) < usize_bound" "length rgb < usize_bound"
  shows "(yuv420_checks y u v width height rgb = Ok () \<longleftrightarrow> yuv420_accepts y u v width height rgb) \<and>
    (yuv420_checks y u v width height rgb \<noteq> Ok () \<longrightarrow>
      (\<exists>m. yuv420_checks y u v width height rgb = Err (invalid_frame m)))"
  using assms
  by (auto simp: yuv420_checks_def plane_validate_iff yuv420_accepts_def ok_or_def checked_mul_def mult_ac)

lemma row_pixels:
  assumes "yuv420_accepts y u v width height rgb" "row < height" "i < width"
    and stride: "yp_pixel_stride y = 1" "yp_pixel_stride u = 1" "yp_pixel_stride v = 1"
  shows "planar_pixel 10 512 512 c (take width (drop (row * yp_row_stride y) (yp_data y)))
      (take (div_ceil width 2) (drop (row div 2 * yp_row_stride u) (yp_data u)))
      (take (div_ceil width 2) (drop (row div 2 * yp_row_stride v) (yp_data v))) i
    = reference_pixel c y u v width (width * row + i)"
proof -
  have cover: "plane_covers y width height" "plane_covers u (div_ceil width 2) (div_ceil height 2)"
    "plane_covers v (div_ceil width 2) (div_ceil height 2)"
    using assms(1) by (auto simp: yuv420_accepts_def)
  have half: "i div 2 < div_ceil width 2" "row div 2 < div_ceil height 2"
    using assms(2,3) by (auto intro: half_less_div_ceil)
  have "row * yp_row_stride y + width \<le> length (yp_data y)"
    "row div 2 * yp_row_stride u + div_ceil width 2 \<le> length (yp_data u)"
    "row div 2 * yp_row_stride v + div_ceil width 2 \<le> length (yp_data v)"
    using covered_row [OF cover(1) stride(1) assms(2)] covered_row [OF cover(2) stride(2) half(2)]
      covered_row [OF cover(3) stride(3) half(2)] .
  with half assms(3) stride show ?thesis
    by (simp add: planar_pixel_def reference_pixel_def plane_sample_def lane_pixel_yuv)
qed

lemma kernel_columns:
  "groups \<le> width div 16 \<Longrightarrow> even (groups * 16) \<and> groups * 16 \<le> (width :: nat)"
  by (simp add: less_eq_div_iff_mult_less_eq)

lemma yuv420_rows:
  assumes accepts: "yuv420_accepts y u v width height rgb" and row: "row < height"
    and stride: "yp_pixel_stride y = 1" "yp_pixel_stride u = 1" "yp_pixel_stride v = 1"
  shows "sub_slice (yp_data y) (row * yp_row_stride y) width = Ok (take width (drop (row * yp_row_stride y) (yp_data y)))"
    "sub_slice (yp_data u) (row div 2 * yp_row_stride u) (div_ceil width 2) =
      Ok (take (div_ceil width 2) (drop (row div 2 * yp_row_stride u) (yp_data u)))"
    "sub_slice (yp_data v) (row div 2 * yp_row_stride v) (div_ceil width 2) =
      Ok (take (div_ceil width 2) (drop (row div 2 * yp_row_stride v) (yp_data v)))"
    "length (take width (drop (row * yp_row_stride y) (yp_data y))) = width"
    "length (take (div_ceil width 2) (drop (row div 2 * yp_row_stride u) (yp_data u))) = div_ceil width 2"
    "length (take (div_ceil width 2) (drop (row div 2 * yp_row_stride v) (yp_data v))) = div_ceil width 2"
proof -
  have cover: "plane_covers y width height" "plane_covers u (div_ceil width 2) (div_ceil height 2)"
    "plane_covers v (div_ceil width 2) (div_ceil height 2)"
    using accepts by (auto simp: yuv420_accepts_def)
  have half: "row div 2 < div_ceil height 2" using row by (rule half_less_div_ceil)
  note r = covered_row [OF cover(1) stride(1) row] covered_row [OF cover(2) stride(2) half]
    covered_row [OF cover(3) stride(3) half]
  from r(1) show "sub_slice (yp_data y) (row * yp_row_stride y) width = Ok (take width (drop (row * yp_row_stride y) (yp_data y)))"
    "length (take width (drop (row * yp_row_stride y) (yp_data y))) = width"
    by (simp_all add: sub_slice_def)
  from r(2) show "sub_slice (yp_data u) (row div 2 * yp_row_stride u) (div_ceil width 2) =
      Ok (take (div_ceil width 2) (drop (row div 2 * yp_row_stride u) (yp_data u)))"
    "length (take (div_ceil width 2) (drop (row div 2 * yp_row_stride u) (yp_data u))) = div_ceil width 2"
    by (simp_all add: sub_slice_def)
  from r(3) show "sub_slice (yp_data v) (row div 2 * yp_row_stride v) (div_ceil width 2) =
      Ok (take (div_ceil width 2) (drop (row div 2 * yp_row_stride v) (yp_data v)))"
    "length (take (div_ceil width 2) (drop (row div 2 * yp_row_stride v) (yp_data v))) = div_ceil width 2"
    by (simp_all add: sub_slice_def)
qed

lemma yuv420_one_row_parts:
  assumes accepts: "yuv420_accepts y u v width height rgb" and row: "row < height"
    and stride: "yp_pixel_stride y = 1" "yp_pixel_stride u = 1" "yp_pixel_stride v = 1"
    and out: "length out = 3 * width"
  shows "yuv420_one_row y u v width c row out
    = Ok (parts (\<lambda>i. reference_pixel c y u v width (width * row + i)) width)"
proof -
  note r = yuv420_rows [OF accepts row stride]
  have "parts (planar_pixel 10 512 512 c (take width (drop (row * yp_row_stride y) (yp_data y)))
      (take (div_ceil width 2) (drop (row div 2 * yp_row_stride u) (yp_data u)))
      (take (div_ceil width 2) (drop (row div 2 * yp_row_stride v) (yp_data v)))) width
    = parts (\<lambda>i. reference_pixel c y u v width (width * row + i)) width"
    using row_pixels [OF accepts row _ stride] by (rule parts_cong)
  note eq = this
  show ?thesis
    unfolding yuv420_one_row_def Let_def r(1-3) and_then.simps
      planar_row_filled [OF refl] eq [symmetric] mult.commute [of 16]
    by (rule planar_columns_filled)
      (use out kernel_columns [of _ width] in \<open>simp_all only: r(4-6) order_refl min.cobounded1 min.coboundedI1\<close>)
qed

lemma yuv420_two_rows_parts:
  assumes accepts: "yuv420_accepts y u v width height rgb" and row: "Suc row < height" "even row"
    and stride: "yp_pixel_stride y = 1" "yp_pixel_stride u = 1" "yp_pixel_stride v = 1"
    and out: "length out0 = 3 * width" "length out1 = 3 * width"
  shows "yuv420_two_rows y u v width c row (out0, out1)
    = Ok (parts (\<lambda>i. reference_pixel c y u v width (width * row + i)) width,
          parts (\<lambda>i. reference_pixel c y u v width (width * Suc row + i)) width)"
proof -
  have first: "row < height" and half: "Suc row div 2 = row div 2" using row by auto
  note r = yuv420_rows [OF accepts first stride] and s = yuv420_rows [OF accepts row(1) stride]
  let ?u = "take (div_ceil width 2) (drop (row div 2 * yp_row_stride u) (yp_data u))"
    and ?v = "take (div_ceil width 2) (drop (row div 2 * yp_row_stride v) (yp_data v))"
  have eq: "parts (planar_pixel 10 512 512 c (take width (drop (row * yp_row_stride y) (yp_data y))) ?u ?v) width
      = parts (\<lambda>i. reference_pixel c y u v width (width * row + i)) width"
    "parts (planar_pixel 10 512 512 c (take width (drop (Suc row * yp_row_stride y) (yp_data y))) ?u ?v) width
      = parts (\<lambda>i. reference_pixel c y u v width (width * Suc row + i)) width"
    by (rule parts_cong, rule row_pixels [OF accepts first _ stride], assumption)
      (rule parts_cong, rule row_pixels [OF accepts row(1) _ stride, unfolded half], assumption)
  show ?thesis
    unfolding yuv420_two_rows_def Let_def Suc_eq_plus1 [symmetric] r(1-3) s(1) and_then.simps prod.case
      planar_two_rows_filled [OF refl] eq [symmetric] mult.commute [of 16]
    by (rule planar_columns_two_filled)
      (use out kernel_columns [of _ width] in \<open>simp_all only: r(4-6) s(4) order_refl min.cobounded1 min.coboundedI1\<close>)
qed

lemma yuv420_avx2_image_filled:
  assumes accepts: "yuv420_accepts y u v width height rgb"
    and stride: "yp_pixel_stride y = 1" "yp_pixel_stride u = 1" "yp_pixel_stride v = 1"
  shows "yuv420_avx2_image y u v width height c rgb
    = Ok (filled (reference_pixel c y u v width) (width * height) rgb)"
  unfolding yuv420_avx2_image_def Let_def
proof (rule paired_image)
  show "3 * (width * height) \<le> length rgb" using accepts by (simp add: yuv420_accepts_def)
qed (rule yuv420_two_rows_parts [OF accepts _ _ stride] yuv420_one_row_parts [OF accepts _ stride]
    length_reference_pixel; assumption)+

lemma reference_pixel_at:
  "x < width \<Longrightarrow> reference_pixel c y u v width (width * row + x)
    = yuv_pixel c (plane_sample y row x) (plane_sample u (row div 2) (x div 2)) (plane_sample v (row div 2) (x div 2))"
  by (simp add: reference_pixel_def)

lemma yuv420_scalar_row_filled:
  assumes accepts: "yuv420_accepts y u v width height rgb" and row: "row < height"
    and fallback: "\<not> (yp_pixel_stride y = 1 \<and> yp_pixel_stride u = 1 \<and> yp_pixel_stride v = 1 \<and> avx2)"
  shows "yuv420_scalar_row avx2 y u v width c row (filled (reference_pixel c y u v width) (width * row) rgb)
    = Ok (filled (reference_pixel c y u v width) (width * Suc row) rgb)"
proof -
  let ?p = "reference_pixel c y u v width" and ?s = "\<lambda>x. filled (reference_pixel c y u v width) (width * row + x) rgb"
  have cover: "plane_covers y width height" "plane_covers u (div_ceil width 2) (div_ceil height 2)"
    "plane_covers v (div_ceil width 2) (div_ceil height 2)" and room: "3 * (width * height) \<le> length rgb"
    using accepts by (auto simp: yuv420_accepts_def)
  have half: "row div 2 < div_ceil height 2" using row by (rule half_less_div_ceil)
  have "width * Suc row \<le> width * height" using row by (intro mult_le_mono2) simp
  then have room: "3 * (width * Suc row) \<le> length rgb" using room by linarith
  let ?f = "\<lambda>k x rgb. and_then (index_at (yp_data y) (row * yp_row_stride y + x * yp_pixel_stride y)) (\<lambda>y.
    write_at rgb ((row * width + x) * 3) (yuv_pixel c y (plane_sample u (row div 2) k) (plane_sample v (row div 2) k)))"
  have pixel: "?f (x div 2) x (?s x) = Ok (?s (Suc x))" if x: "x < width" for x
  proof -
    have "write_at (?s x) ((row * width + x) * 3) (?p (width * row + x)) = Ok (filled ?p (Suc (width * row + x)) rgb)"
      using room x by (intro write_filled [where c = 3]) (auto simp: mult.commute)
    then show ?thesis
      using covered_sample [OF cover(1) row x] by (simp add: index_at_def reference_pixel_at [OF x] plane_sample_def)
  qed
  have "for_each (\<lambda>column rgb.
       and_then (index_at (yp_data u) (row div 2 * yp_row_stride u + column div 2 * yp_pixel_stride u)) (\<lambda>u.
       and_then (index_at (yp_data v) (row div 2 * yp_row_stride v + column div 2 * yp_pixel_stride v)) (\<lambda>v.
         for_each (\<lambda>x rgb.
           and_then (index_at (yp_data y) (row * yp_row_stride y + x * yp_pixel_stride y)) (\<lambda>y.
             write_at rgb ((row * width + x) * 3) (yuv_pixel c y u v)))
           [column..<min (column + 2) width] rgb)))
       (step_by 0 width 2) (?s 0) = (Ok (?s width) :: (u8 list) camera_result)"
  proof (rule pair_loop)
    fix column
    assume "column < width" "even (column - 0)"
    have chroma: "column div 2 < div_ceil width 2" using \<open>column < width\<close> by (rule half_less_div_ceil)
    have u: "index_at (yp_data u) (row div 2 * yp_row_stride u + column div 2 * yp_pixel_stride u)
        = Ok (plane_sample u (row div 2) (column div 2))"
      "index_at (yp_data v) (row div 2 * yp_row_stride v + column div 2 * yp_pixel_stride v)
        = Ok (plane_sample v (row div 2) (column div 2))"
      using covered_sample [OF cover(2) half chroma] covered_sample [OF cover(3) half chroma]
      by (simp_all add: index_at_def plane_sample_def)
    show "and_then (index_at (yp_data u) (row div 2 * yp_row_stride u + column div 2 * yp_pixel_stride u)) (\<lambda>u.
       and_then (index_at (yp_data v) (row div 2 * yp_row_stride v + column div 2 * yp_pixel_stride v)) (\<lambda>v.
         for_each (\<lambda>x rgb.
           and_then (index_at (yp_data y) (row * yp_row_stride y + x * yp_pixel_stride y)) (\<lambda>y.
             write_at rgb ((row * width + x) * 3) (yuv_pixel c y u v)))
           [column..<min (column + 2) width] (?s column)))
      = (Ok (?s (min (column + 2) width)) :: (u8 list) camera_result)"
      unfolding u and_then.simps
      by (rule pair_columns_run [where s = ?s and f = ?f]) (use pixel \<open>column < width\<close> \<open>even (column - 0)\<close> in simp_all)
  qed simp
  with fallback show ?thesis by (auto simp: yuv420_scalar_row_def add.commute)
qed

lemma yuv420_image:
  assumes "yuv420_accepts y u v width height rgb"
  shows "(if yp_pixel_stride y = 1 \<and> yp_pixel_stride u = 1 \<and> yp_pixel_stride v = 1 \<and> avx2
       then yuv420_avx2_image y u v width height c rgb
       else for_each (yuv420_scalar_row avx2 y u v width c) [0..<height] rgb)
    = Ok (filled (reference_pixel c y u v width) (width * height) rgb)"
proof (cases "yp_pixel_stride y = 1 \<and> yp_pixel_stride u = 1 \<and> yp_pixel_stride v = 1 \<and> avx2")
  case True
  with yuv420_avx2_image_filled [OF assms] show ?thesis by simp
next
  case False
  have "for_each (yuv420_scalar_row avx2 y u v width c) [0..<height] (filled (reference_pixel c y u v width) (width * 0) rgb)
    = Ok (filled (reference_pixel c y u v width) (width * height) rgb)"
    by (rule upto_loop) (use yuv420_scalar_row_filled [OF assms _ False] in simp_all)
  then have "for_each (yuv420_scalar_row avx2 y u v width c) [0..<height] rgb
    = Ok (filled (reference_pixel c y u v width) (width * height) rgb)" by simp
  then show ?thesis unfolding if_not_P [OF False] .
qed

lemma yuv420_total:
  assumes "length (yp_data y) < usize_bound" "length (yp_data u) < usize_bound"
    "length (yp_data v) < usize_bound" "length rgb < usize_bound"
  shows "if yuv420_accepts y u v width height rgb
    then yuv420_to_rgb_with_coefficients_into avx2 y u v width height c rgb
      = Ok (filled (reference_pixel c y u v width) (width * height) rgb)
    else \<exists>m. yuv420_to_rgb_with_coefficients_into avx2 y u v width height c rgb = Err (invalid_frame m)"
  using yuv420_checks_iff [OF assms, of width height] yuv420_image [of y u v width height rgb avx2 c]
  by (auto simp: yuv420_to_rgb_with_coefficients_into_def)

end
