(* ===== verification/Color_Nv12.thy ===== *)
theory Color_Nv12
  imports Color_Yuv
begin

text \<open>
  The conversions of images with interleaved chroma (NV12 and NV21) of
  \<open>src/utils/color_convert.rs\<close>: the general one, with or without AVX2, and the BT.601 fast path that
  x86-64 processors without AVX2 take.
\<close>

section \<open>The BT.601 fast path\<close>

definition slice_from :: "'a list \<Rightarrow> usize \<Rightarrow> ('a list, 'e) result" where
  "slice_from xs start = (if start \<le> length xs then Ok (drop start xs) else Panic)"

definition bt601_checks ::
  "u8 list \<Rightarrow> u8 list \<Rightarrow> usize \<Rightarrow> usize \<Rightarrow> usize \<Rightarrow> usize \<Rightarrow> u8 list \<Rightarrow> unit camera_result" where
  "bt601_checks y_plane uv_plane width height y_stride uv_stride rgb =
     (if width = 0 \<or> height = 0 \<or> y_stride < width
      then Err (invalid_frame ''invalid YUV420 dimensions or Y stride'')
      else
        and_then (ok_or (checked_mul (div_ceil width 2) 2) (invalid_frame ''YUV420 size overflow'')) (\<lambda>chroma_row_bytes.
        if uv_stride < chroma_row_bytes then Err (invalid_frame ''invalid YUV420 UV stride'')
        else
          and_then (ok_or (Option.bind (checked_mul (height - 1) y_stride) (\<lambda>n. checked_add n width))
            (invalid_frame ''YUV420 Y size overflow'')) (\<lambda>required_y.
          and_then (ok_or (Option.bind (checked_mul (div_ceil height 2 - 1) uv_stride)
              (\<lambda>n. checked_add n chroma_row_bytes))
            (invalid_frame ''YUV420 UV size overflow'')) (\<lambda>required_uv.
          and_then (ok_or (Option.bind (checked_mul width height) (\<lambda>pixels. checked_mul pixels 3))
            (invalid_frame ''RGB size overflow'')) (\<lambda>required_rgb.
          if length y_plane < required_y \<or> length uv_plane < required_uv \<or> length rgb < required_rgb
          then Err (invalid_frame ''YUV420 or RGB buffer is too small'')
          else Ok ())))))"

text \<open>\<open>write_pixel\<close>, with the chroma terms of the pair.\<close>

definition bt601_pixel :: "u8 \<Rightarrow> i32 \<Rightarrow> i32 \<Rightarrow> i32 \<Rightarrow> u8 list" where
  "bt601_pixel y red_chroma green_chroma blue_chroma =
     (case BT601_FULL_COEFFICIENTS of (cy, _, _, _, _, _) \<Rightarrow>
        let y = ucast y * cy
        in [clamp_u8 (signed_drop_bit 10 (y + red_chroma)),
            clamp_u8 (signed_drop_bit 10 (y + green_chroma)),
            clamp_u8 (signed_drop_bit 10 (y + blue_chroma))])"

definition bt601_column ::
  "u8 list \<Rightarrow> u8 list \<Rightarrow> usize \<Rightarrow> usize \<Rightarrow> usize \<Rightarrow> u8 list \<Rightarrow> (u8 list) camera_result" where
  "bt601_column y_row uv_row width rgb_row_start column rgb =
     (let uv_offset = column div 2 * 2
      in and_then (index_at uv_row uv_offset) (\<lambda>u.
         and_then (index_at uv_row (uv_offset + 1)) (\<lambda>v.
         case BT601_FULL_COEFFICIENTS of (_, cr, gu, gv, cb, _) \<Rightarrow>
           let u = ucast u - 128;
               v = ucast v - 128;
               red_chroma = cr * v + 512;
               green_chroma = - gu * u - gv * v + 512;
               blue_chroma = cb * u + 512;
               first_rgb = rgb_row_start + column * 3
           in and_then (index_at y_row column) (\<lambda>y.
              and_then (write_at rgb first_rgb (bt601_pixel y red_chroma green_chroma blue_chroma)) (\<lambda>rgb.
              if column + 1 < width
              then and_then (index_at y_row (column + 1)) (\<lambda>y.
                     write_at rgb (first_rgb + 3) (bt601_pixel y red_chroma green_chroma blue_chroma))
              else Ok rgb)))))"

definition yuv420sp_bt601_full_to_rgb_into ::
  "u8 list \<Rightarrow> u8 list \<Rightarrow> usize \<Rightarrow> usize \<Rightarrow> usize \<Rightarrow> usize \<Rightarrow> u8 list \<Rightarrow> (u8 list) camera_result" where
  "yuv420sp_bt601_full_to_rgb_into y_plane uv_plane width height y_stride uv_stride rgb =
     and_then (bt601_checks y_plane uv_plane width height y_stride uv_stride rgb) (\<lambda>_.
       for_each (\<lambda>row rgb.
         and_then (slice_from y_plane (row * y_stride)) (\<lambda>y_row.
         and_then (slice_from uv_plane (row div 2 * uv_stride)) (\<lambda>uv_row.
           for_each (bt601_column y_row uv_row width (row * width * 3)) (step_by 0 width 2) rgb)))
         [0..<height] rgb)"

section \<open>The general conversion\<close>

definition yuv420sp_checks :: "yuv420sp \<Rightarrow> usize \<Rightarrow> usize \<Rightarrow> u8 list \<Rightarrow> usize camera_result" where
  "yuv420sp_checks planes width height rgb =
     and_then (yuv_plane_validate \<lparr>yp_data = sp_y planes, yp_row_stride = sp_y_stride planes, yp_pixel_stride = 1\<rparr>
       width height) (\<lambda>_.
     and_then (ok_or (checked_mul (div_ceil width 2) 2) (invalid_frame ''YUV420 size overflow'')) (\<lambda>chroma_row_bytes.
     and_then (ok_or (Option.bind (checked_mul (div_ceil height 2 - 1) (sp_uv_stride planes))
         (\<lambda>bytes. checked_add bytes chroma_row_bytes))
       (invalid_frame ''YUV420 size overflow'')) (\<lambda>required_uv.
     and_then (ok_or (Option.bind (checked_mul width height) (\<lambda>pixels. checked_mul pixels 3))
       (invalid_frame ''RGB size overflow'')) (\<lambda>required_rgb.
     if sp_uv_stride planes < chroma_row_bytes \<or> length (sp_uv planes) < required_uv \<or> length rgb < required_rgb
     then Err (invalid_frame ''invalid YUV420 UV stride or buffer size'')
     else Ok chroma_row_bytes))))"

definition yuv420sp_two_rows ::
  "yuv420sp \<Rightarrow> usize \<Rightarrow> usize \<Rightarrow> coefficients \<Rightarrow> usize \<Rightarrow> u8 list \<times> u8 list \<Rightarrow> (u8 list \<times> u8 list) camera_result" where
  "yuv420sp_two_rows planes width chroma_row_bytes c row rgbs =
     and_then (sub_slice (sp_y planes) (row * sp_y_stride planes) width) (\<lambda>y0.
     and_then (sub_slice (sp_y planes) ((row + 1) * sp_y_stride planes) width) (\<lambda>y1.
     and_then (sub_slice (sp_uv planes) (row div 2 * sp_uv_stride planes) chroma_row_bytes) (\<lambda>uv_row.
       case rgbs of (rgb0, rgb1) \<Rightarrow>
         and_then (semiplanar_two_rows_avx2 (sp_vu_order planes) 10 512 512 y0 y1 uv_row rgb0 rgb1 c)
           (semiplanar_columns_two (sp_vu_order planes) y0 y1 uv_row c width))))"

definition yuv420sp_row ::
  "bool \<Rightarrow> yuv420sp \<Rightarrow> usize \<Rightarrow> usize \<Rightarrow> coefficients \<Rightarrow> usize \<Rightarrow> u8 list \<Rightarrow> (u8 list) camera_result" where
  "yuv420sp_row avx2 planes width chroma_row_bytes c row rgb_row =
     and_then (sub_slice (sp_y planes) (row * sp_y_stride planes) width) (\<lambda>y_row.
     and_then (sub_slice (sp_uv planes) (row div 2 * sp_uv_stride planes) chroma_row_bytes) (\<lambda>uv_row.
     and_then (if avx2 then semiplanar_row_avx2 (sp_vu_order planes) 10 512 512 y_row uv_row rgb_row c
               else Ok (0, rgb_row))
       (semiplanar_columns (sp_vu_order planes) y_row uv_row c width)))"

definition yuv420sp_avx2_image ::
  "yuv420sp \<Rightarrow> usize \<Rightarrow> usize \<Rightarrow> usize \<Rightarrow> coefficients \<Rightarrow> u8 list \<Rightarrow> (u8 list) camera_result" where
  "yuv420sp_avx2_image planes width height chroma_row_bytes c rgb =
     (let rgb_row_bytes = width * 3;
          paired_rows = height div 2 * 2
      in and_then (for_row_pairs paired_rows rgb_row_bytes (yuv420sp_two_rows planes width chroma_row_bytes c) rgb)
           (\<lambda>rgb.
         if paired_rows \<noteq> height
         then modify_slice rgb (paired_rows * rgb_row_bytes) rgb_row_bytes
           (yuv420sp_row True planes width chroma_row_bytes c paired_rows)
         else Ok rgb))"

definition yuv420sp_to_rgb_with_coefficients_into ::
  "bool \<Rightarrow> yuv420sp \<Rightarrow> usize \<Rightarrow> usize \<Rightarrow> coefficients \<Rightarrow> u8 list \<Rightarrow> (u8 list) camera_result" where
  "yuv420sp_to_rgb_with_coefficients_into avx2 planes width height c rgb =
     (if c = BT601_FULL_COEFFICIENTS \<and> \<not> sp_vu_order planes \<and> \<not> avx2
      then yuv420sp_bt601_full_to_rgb_into (sp_y planes) (sp_uv planes) width height
        (sp_y_stride planes) (sp_uv_stride planes) rgb
      else and_then (yuv420sp_checks planes width height rgb) (\<lambda>chroma_row_bytes.
        if avx2 then yuv420sp_avx2_image planes width height chroma_row_bytes c rgb
        else for_rows height (width * 3) (yuv420sp_row avx2 planes width chroma_row_bytes c) rgb))"

definition yuv420sp_to_rgb_into ::
  "bool \<Rightarrow> u8 list \<Rightarrow> u8 list \<Rightarrow> usize \<Rightarrow> usize \<Rightarrow> usize \<Rightarrow> usize \<Rightarrow> u8 list \<Rightarrow> (u8 list) camera_result" where
  "yuv420sp_to_rgb_into avx2 y_plane uv_plane width height y_stride uv_stride rgb =
     yuv420sp_to_rgb_with_coefficients_into avx2
       \<lparr>sp_y = y_plane, sp_uv = uv_plane, sp_y_stride = y_stride, sp_uv_stride = uv_stride, sp_vu_order = False\<rparr>
       width height BT601_FULL_COEFFICIENTS rgb"

section \<open>Interleaved chroma as two planes\<close>

definition sp_luma :: "yuv420sp \<Rightarrow> yuv_plane" where
  "sp_luma p = \<lparr>yp_data = sp_y p, yp_row_stride = sp_y_stride p, yp_pixel_stride = 1\<rparr>"

definition sp_u :: "yuv420sp \<Rightarrow> yuv_plane" where
  "sp_u p = \<lparr>yp_data = drop (if sp_vu_order p then 1 else 0) (sp_uv p), yp_row_stride = sp_uv_stride p,
     yp_pixel_stride = 2\<rparr>"

definition sp_v :: "yuv420sp \<Rightarrow> yuv_plane" where
  "sp_v p = \<lparr>yp_data = drop (if sp_vu_order p then 0 else 1) (sp_uv p), yp_row_stride = sp_uv_stride p,
     yp_pixel_stride = 2\<rparr>"

definition yuv420sp_accepts :: "yuv420sp \<Rightarrow> nat \<Rightarrow> nat \<Rightarrow> u8 list \<Rightarrow> bool" where
  "yuv420sp_accepts p width height rgb \<longleftrightarrow>
     plane_covers (sp_luma p) width height \<and> 2 * div_ceil width 2 \<le> sp_uv_stride p \<and>
     (div_ceil height 2 - 1) * sp_uv_stride p + 2 * div_ceil width 2 \<le> length (sp_uv p) \<and>
     3 * (width * height) \<le> length rgb"

lemma sp_accepts_planar:
  assumes "yuv420sp_accepts p width height rgb"
  shows "yuv420_accepts (sp_luma p) (sp_u p) (sp_v p) width height rgb"
proof -
  have "0 < width" "0 < height" using assms by (auto simp: yuv420sp_accepts_def plane_covers_def)
  then have "0 < div_ceil width 2" "0 < div_ceil height 2" by (auto intro: div_ceil_two_pos)
  with assms show ?thesis
    by (auto simp: yuv420sp_accepts_def yuv420_accepts_def sp_luma_def sp_u_def sp_v_def plane_covers_def)
qed

lemma yuv420sp_checks_iff:
  assumes "length (sp_y p) < usize_bound" "length (sp_uv p) < usize_bound" "length rgb < usize_bound"
  shows "(if yuv420sp_accepts p width height rgb
      then yuv420sp_checks p width height rgb = Ok (2 * div_ceil width 2)
      else (\<exists>m. yuv420sp_checks p width height rgb = Err (invalid_frame m)))"
  using assms plane_validate_iff [of "sp_luma p"]
  by (auto simp: yuv420sp_checks_def yuv420sp_accepts_def ok_or_def checked_mul_def checked_add_def sp_luma_def mult_ac
      split: option.splits)

section \<open>The image\<close>

text \<open>The planar views of an interleaved image give its reference pixels.\<close>

abbreviation sp_reference :: "coefficients \<Rightarrow> yuv420sp \<Rightarrow> nat \<Rightarrow> nat \<Rightarrow> u8 list" where
  "sp_reference c p width \<equiv> reference_pixel c (sp_luma p) (sp_u p) (sp_v p) width"

lemma sp_rows:
  assumes accepts: "yuv420sp_accepts p width height rgb" and row: "row < height"
  shows "sub_slice (sp_y p) (row * sp_y_stride p) width = Ok (take width (drop (row * sp_y_stride p) (sp_y p)))"
    "sub_slice (sp_uv p) (row div 2 * sp_uv_stride p) (2 * div_ceil width 2) =
      Ok (take (2 * div_ceil width 2) (drop (row div 2 * sp_uv_stride p) (sp_uv p)))"
    "length (take width (drop (row * sp_y_stride p) (sp_y p))) = width"
    "length (take (2 * div_ceil width 2) (drop (row div 2 * sp_uv_stride p) (sp_uv p))) = 2 * div_ceil width 2"
    "row * sp_y_stride p + width \<le> length (sp_y p)"
    "row div 2 * sp_uv_stride p + 2 * div_ceil width 2 \<le> length (sp_uv p)"
proof -
  have y: "row * sp_y_stride p + width \<le> length (sp_y p)"
    using accepts covered_row [of "sp_luma p" width height row] row by (simp add: yuv420sp_accepts_def sp_luma_def)
  have "row div 2 < div_ceil height 2" using row by (rule half_less_div_ceil)
  then have "row div 2 * sp_uv_stride p \<le> (div_ceil height 2 - 1) * sp_uv_stride p"
    by (intro mult_le_mono1) simp
  then have uv: "row div 2 * sp_uv_stride p + 2 * div_ceil width 2 \<le> length (sp_uv p)"
    using accepts unfolding yuv420sp_accepts_def by linarith
  show "sub_slice (sp_y p) (row * sp_y_stride p) width = Ok (take width (drop (row * sp_y_stride p) (sp_y p)))"
    "length (take width (drop (row * sp_y_stride p) (sp_y p))) = width"
    "row * sp_y_stride p + width \<le> length (sp_y p)"
    using y by (simp_all add: sub_slice_def)
  show "sub_slice (sp_uv p) (row div 2 * sp_uv_stride p) (2 * div_ceil width 2) =
      Ok (take (2 * div_ceil width 2) (drop (row div 2 * sp_uv_stride p) (sp_uv p)))"
    "length (take (2 * div_ceil width 2) (drop (row div 2 * sp_uv_stride p) (sp_uv p))) = 2 * div_ceil width 2"
    "row div 2 * sp_uv_stride p + 2 * div_ceil width 2 \<le> length (sp_uv p)"
    using uv by (simp_all add: sub_slice_def)
qed

lemma sp_chroma:
  assumes "yuv420sp_accepts p width height rgb" "row < height" "k < div_ceil width 2"
  shows "chroma_of (sp_vu_order p) (drop (row div 2 * sp_uv_stride p) (sp_uv p)) k
    = (plane_sample (sp_u p) (row div 2) k, plane_sample (sp_v p) (row div 2) k)"
proof -
  have "row div 2 * sp_uv_stride p + 2 * k + 1 < length (sp_uv p)"
    using sp_rows(6) [OF assms(1,2)] assms(3) by linarith
  then show ?thesis
    by (simp add: chroma_of_def plane_sample_def sp_u_def sp_v_def mult.commute add.assoc)
qed

lemma sp_row_pixels:
  assumes "yuv420sp_accepts p width height rgb" "row < height" "i < width"
  shows "semiplanar_pixel (sp_vu_order p) 10 512 512 c (take width (drop (row * sp_y_stride p) (sp_y p)))
      (take (2 * div_ceil width 2) (drop (row div 2 * sp_uv_stride p) (sp_uv p))) i
    = sp_reference c p width (width * row + i)"
proof -
  have half: "i div 2 < div_ceil width 2" using assms(3) by (rule half_less_div_ceil)
  then have "2 * (i div 2) + 1 < 2 * div_ceil width 2" by linarith
  then have "chroma_of (sp_vu_order p) (take (2 * div_ceil width 2) (drop (row div 2 * sp_uv_stride p) (sp_uv p))) (i div 2)
      = chroma_of (sp_vu_order p) (drop (row div 2 * sp_uv_stride p) (sp_uv p)) (i div 2)"
    by (simp add: chroma_of_def)
  with sp_chroma [OF assms(1,2) half] sp_rows(5) [OF assms(1,2)] assms(3) show ?thesis
    by (simp add: semiplanar_pixel_chroma reference_pixel_at) (simp add: plane_sample_def sp_luma_def)
qed

lemma yuv420sp_row_parts:
  assumes accepts: "yuv420sp_accepts p width height rgb" and row: "row < height" and out: "length out = 3 * width"
  shows "yuv420sp_row avx2 p width (2 * div_ceil width 2) c row out
    = Ok (parts (\<lambda>i. sp_reference c p width (width * row + i)) width)"
proof -
  note r = sp_rows [OF accepts row]
  have eq: "parts (semiplanar_pixel (sp_vu_order p) 10 512 512 c (take width (drop (row * sp_y_stride p) (sp_y p)))
      (take (2 * div_ceil width 2) (drop (row div 2 * sp_uv_stride p) (sp_uv p)))) width
    = parts (\<lambda>i. sp_reference c p width (width * row + i)) width"
    using sp_row_pixels [OF accepts row] by (rule parts_cong)
  show ?thesis
  proof (cases avx2)
    case True
    show ?thesis
      unfolding yuv420sp_row_def r(1,2) and_then.simps if_P [OF True] semiplanar_row_filled [OF refl]
        eq [symmetric] mult.commute [of 16]
      by (rule semiplanar_columns_filled)
        (use out kernel_columns [of _ width] in \<open>simp_all only: r(3,4) order_refl min.cobounded1 min.coboundedI1\<close>)
  next
    case False
    have "semiplanar_columns (sp_vu_order p) (take width (drop (row * sp_y_stride p) (sp_y p)))
        (take (2 * div_ceil width 2) (drop (row div 2 * sp_uv_stride p) (sp_uv p))) c width
        (0, filled (semiplanar_pixel (sp_vu_order p) 10 512 512 c (take width (drop (row * sp_y_stride p) (sp_y p)))
          (take (2 * div_ceil width 2) (drop (row div 2 * sp_uv_stride p) (sp_uv p)))) 0 out)
      = Ok (parts (\<lambda>i. sp_reference c p width (width * row + i)) width)"
      unfolding eq [symmetric]
      by (rule semiplanar_columns_filled) (use out in \<open>simp_all only: r(3,4) order_refl even_zero zero_le\<close>)
    then show ?thesis
      unfolding yuv420sp_row_def r(1,2) and_then.simps if_not_P [OF False] filled_0 .
  qed
qed

lemma yuv420sp_two_rows_parts:
  assumes accepts: "yuv420sp_accepts p width height rgb" and row: "Suc row < height" "even row"
    and out: "length out0 = 3 * width" "length out1 = 3 * width"
  shows "yuv420sp_two_rows p width (2 * div_ceil width 2) c row (out0, out1)
    = Ok (parts (\<lambda>i. sp_reference c p width (width * row + i)) width,
          parts (\<lambda>i. sp_reference c p width (width * Suc row + i)) width)"
proof -
  have first: "row < height" and half: "Suc row div 2 = row div 2" using row by auto
  note r = sp_rows [OF accepts first] and s = sp_rows [OF accepts row(1)]
  let ?uv = "take (2 * div_ceil width 2) (drop (row div 2 * sp_uv_stride p) (sp_uv p))"
  have eq: "parts (semiplanar_pixel (sp_vu_order p) 10 512 512 c (take width (drop (row * sp_y_stride p) (sp_y p))) ?uv) width
      = parts (\<lambda>i. sp_reference c p width (width * row + i)) width"
    "parts (semiplanar_pixel (sp_vu_order p) 10 512 512 c (take width (drop (Suc row * sp_y_stride p) (sp_y p))) ?uv) width
      = parts (\<lambda>i. sp_reference c p width (width * Suc row + i)) width"
    by (rule parts_cong, rule sp_row_pixels [OF accepts first], assumption)
      (rule parts_cong, rule sp_row_pixels [OF accepts row(1), unfolded half], assumption)
  show ?thesis
    unfolding yuv420sp_two_rows_def Suc_eq_plus1 [symmetric] r(1,2) s(1) and_then.simps prod.case
      semiplanar_two_rows_filled [OF refl] eq [symmetric] mult.commute [of 16]
    by (rule semiplanar_columns_two_filled)
      (use out kernel_columns [of _ width] in \<open>simp_all only: r(3,4) s(3) order_refl min.cobounded1 min.coboundedI1\<close>)
qed

lemma bt601_pixel_yuv:
  "bt601_pixel y (1436 * (ucast v - 128) + 512) (- 352 * (ucast u - 128) - 731 * (ucast v - 128) + 512)
      (1815 * (ucast u - 128) + 512) = yuv_pixel BT601_FULL_COEFFICIENTS y u v"
  by (simp add: bt601_pixel_def yuv_pixel_def BT601_FULL_COEFFICIENTS_def Let_def algebra_simps)

lemma bt601_column_step:
  assumes accepts: "yuv420sp_accepts p width height rgb" and row: "row < height"
    and order: "\<not> sp_vu_order p" and column: "column < width" "even column"
    and P: "P = sp_reference BT601_FULL_COEFFICIENTS p width"
  shows "bt601_column (drop (row * sp_y_stride p) (sp_y p)) (drop (row div 2 * sp_uv_stride p) (sp_uv p)) width
      (row * width * 3) column (filled P (width * row + column) rgb)
    = Ok (filled P (width * row + min (column + 2) width) rgb)"
proof -
  define ys uvs where "ys = drop (row * sp_y_stride p) (sp_y p)"
    and "uvs = drop (row div 2 * sp_uv_stride p) (sp_uv p)"
  have half: "column div 2 < div_ceil width 2" using column(1) by (rule half_less_div_ceil)
  have uv: "column div 2 * 2 + 1 < length uvs" using sp_rows(6) [OF accepts row] half by (simp add: uvs_def)
  have y: "x < length ys" if "x < width" for x using sp_rows(5) [OF accepts row] that by (simp add: ys_def)
  define u v where "u = uvs ! (column div 2 * 2)" and "v = uvs ! (column div 2 * 2 + 1)"
  have chroma: "u = plane_sample (sp_u p) (row div 2) (column div 2)" "v = plane_sample (sp_v p) (row div 2) (column div 2)"
    using sp_chroma [OF accepts row half] order by (simp_all add: chroma_of_def mult.commute u_def v_def uvs_def)
  have pixel: "yuv_pixel (1024, 1436, 352, 731, 1815, 0) (ys ! x) u v = P (width * row + x)"
    if "x < width" "x div 2 = column div 2" for x
    using that sp_rows(5) [OF accepts row]
    by (simp add: P reference_pixel_at BT601_FULL_COEFFICIENTS_def)
      (simp add: plane_sample_def sp_luma_def chroma ys_def)
  have "width * Suc row \<le> width * height" using row by (intro mult_le_mono2) simp
  then have room: "3 * (width * Suc row) \<le> length rgb" using accepts unfolding yuv420sp_accepts_def by linarith
  have step: "write_at (filled P (width * row + x) rgb) (row * width * 3 + x * 3) (P (width * row + x))
      = Ok (filled P (Suc (width * row + x)) rgb)" if "x < width" for x
    using room that by (intro write_filled [where c = 3]) (auto simp: P algebra_simps)
  have run: "bt601_column ys uvs width (row * width * 3) column out =
     and_then (write_at out (row * width * 3 + column * 3) (P (width * row + column))) (\<lambda>rgb.
       if column + 1 < width
       then write_at rgb (row * width * 3 + (column + 1) * 3) (P (width * row + (column + 1))) else Ok rgb)" for out
  proof -
    have "(column + 1) div 2 = column div 2" using column(2) by presburger
    note second = pixel [OF _ this]
    have coeffs: "BT601_FULL_COEFFICIENTS = (1024, 1436, 352, 731, 1815, 0)" by (simp add: BT601_FULL_COEFFICIENTS_def)
    have reads: "index_at uvs (column div 2 * 2) = Ok u" "index_at uvs (column div 2 * 2 + 1) = Ok v"
      "index_at ys column = Ok (ys ! column)" "column + 1 < width \<Longrightarrow> index_at ys (column + 1) = Ok (ys ! (column + 1))"
      using uv y [OF column(1)] y [of "column + 1"] by (simp_all add: index_at_def u_def v_def)
    show ?thesis
      unfolding bt601_column_def Let_def coeffs prod.case reads(1-3) and_then.simps bt601_pixel_yuv
      using pixel [OF column(1) refl] second
      by (cases "column + 1 < width") (simp_all add: coeffs reads(4) [simplified] ac_simps)
  qed
  show ?thesis
  proof (cases "column + 1 < width")
    case True
    with run show ?thesis
      by (simp add: ys_def uvs_def step [OF column(1), simplified] step [OF True, simplified])
  next
    case False
    then have m: "min (column + 2) width = Suc column" using column(1) by simp
    show ?thesis
      unfolding ys_def [symmetric] uvs_def [symmetric] run step [OF column(1)] and_then.simps if_not_P [OF False] m
      by simp
  qed
qed

lemma bt601_checks_iff:
  assumes "length (sp_y p) < usize_bound" "length (sp_uv p) < usize_bound" "length rgb < usize_bound"
  shows "(if yuv420sp_accepts p width height rgb
      then bt601_checks (sp_y p) (sp_uv p) width height (sp_y_stride p) (sp_uv_stride p) rgb = Ok ()
      else (\<exists>m. bt601_checks (sp_y p) (sp_uv p) width height (sp_y_stride p) (sp_uv_stride p) rgb
        = Err (invalid_frame m)))"
proof (cases "width = 0 \<or> height = 0 \<or> sp_y_stride p < width")
  case True
  then show ?thesis by (auto simp: bt601_checks_def yuv420sp_accepts_def plane_covers_def sp_luma_def)
next
  case False
  define a b where "a = (height - 1) * sp_y_stride p" and "b = (div_ceil height 2 - 1) * sp_uv_stride p"
  have "plane_covers (sp_luma p) width height \<longleftrightarrow> a + width \<le> length (sp_y p)"
    using False by (auto simp: plane_covers_def sp_luma_def a_def)
  with False show ?thesis
    using assms
    unfolding bt601_checks_def yuv420sp_accepts_def ok_or_def checked_mul_def checked_add_def
      a_def [symmetric] b_def [symmetric]
    by (auto simp: mult_ac)
qed

lemma bt601_image:
  assumes accepts: "yuv420sp_accepts p width height rgb" and order: "\<not> sp_vu_order p"
  shows "for_each (\<lambda>row rgb.
         and_then (slice_from (sp_y p) (row * sp_y_stride p)) (\<lambda>y_row.
         and_then (slice_from (sp_uv p) (row div 2 * sp_uv_stride p)) (\<lambda>uv_row.
           for_each (bt601_column y_row uv_row width (row * width * 3)) (step_by 0 width 2) rgb)))
         [0..<height] rgb
    = Ok (filled (sp_reference BT601_FULL_COEFFICIENTS p width) (width * height) rgb)"
    (is "for_each ?row _ _ = _")
proof -
  let ?p = "sp_reference BT601_FULL_COEFFICIENTS p width"
  have "for_each ?row [0..<height] (filled ?p (width * 0) rgb) = Ok (filled ?p (width * height) rgb)"
  proof (rule upto_loop)
    fix row
    assume row: "row < height"
    note r = sp_rows(5,6) [OF accepts row]
    have y: "slice_from (sp_y p) (row * sp_y_stride p) = Ok (drop (row * sp_y_stride p) (sp_y p))"
      "slice_from (sp_uv p) (row div 2 * sp_uv_stride p) = Ok (drop (row div 2 * sp_uv_stride p) (sp_uv p))"
      using r by (simp_all add: slice_from_def)
    have "for_each (bt601_column (drop (row * sp_y_stride p) (sp_y p)) (drop (row div 2 * sp_uv_stride p) (sp_uv p))
        width (row * width * 3)) (step_by 0 width 2) (filled ?p (width * row + 0) rgb)
      = Ok (filled ?p (width * row + width) rgb)"
      by (rule pair_loop) (use bt601_column_step [OF accepts row order] in simp_all)
    then show "?row row (filled ?p (width * row) rgb) = Ok (filled ?p (width * Suc row) rgb)"
      unfolding y and_then.simps by (simp add: add.commute)
  qed simp
  then show ?thesis by simp
qed

lemma yuv420sp_total:
  assumes "length (sp_y p) < usize_bound" "length (sp_uv p) < usize_bound" "length rgb < usize_bound"
  shows "if yuv420sp_accepts p width height rgb
    then yuv420sp_to_rgb_with_coefficients_into avx2 p width height c rgb
      = Ok (filled (sp_reference c p width) (width * height) rgb)
    else \<exists>m. yuv420sp_to_rgb_with_coefficients_into avx2 p width height c rgb = Err (invalid_frame m)"
proof -
  have avx: "yuv420sp_avx2_image p width height (2 * div_ceil width 2) c rgb
      = Ok (filled (sp_reference c p width) (width * height) rgb)"
    if accepts: "yuv420sp_accepts p width height rgb"
    unfolding yuv420sp_avx2_image_def Let_def
  proof (rule paired_image)
    show "3 * (width * height) \<le> length rgb" using accepts by (simp add: yuv420sp_accepts_def)
  qed (rule yuv420sp_two_rows_parts [OF accepts] yuv420sp_row_parts [OF accepts] length_reference_pixel; assumption)+
  have rows: "for_rows height (width * 3) (yuv420sp_row avx2 p width (2 * div_ceil width 2) c) rgb
      = Ok (filled (sp_reference c p width) (width * height) rgb)"
    if accepts: "yuv420sp_accepts p width height rgb"
  proof (rule for_rows_filled)
    show "3 * (width * height) \<le> length rgb" using accepts by (simp add: yuv420sp_accepts_def)
    show "width * 3 = 3 * width" by simp
  qed (rule yuv420sp_row_parts [OF accepts] length_reference_pixel; assumption)+
  show ?thesis
    using yuv420sp_checks_iff [OF assms, of width height] bt601_checks_iff [OF assms, of width height] avx rows
      bt601_image [of p width height rgb]
    by (auto simp: yuv420sp_to_rgb_with_coefficients_into_def yuv420sp_bt601_full_to_rgb_into_def split: if_splits)
qed

end
