(* ===== verification/Color_Half.thy ===== *)
theory Color_Half
  imports Color_Nv12
begin

text \<open>
  The half-size conversions of \<open>src/utils/color_convert.rs\<close>: each output pixel is the pixel of the
  full-size conversion at twice its coordinates.
\<close>

section \<open>Columns\<close>

text \<open>\<open>for column in start..output_width\<close>, after a kernel.\<close>

definition half_columns ::
  "(usize \<Rightarrow> (u8 list, 'e) result) \<Rightarrow> usize \<Rightarrow> usize \<times> u8 list \<Rightarrow> (u8 list, 'e) result" where
  "half_columns pixel output_width started =
     (case started of (start, rgb_row) \<Rightarrow>
       for_each (\<lambda>column rgb_row. and_then (pixel column) (\<lambda>bytes. write_at rgb_row (column * 3) bytes))
         [start..<output_width] rgb_row)"

lemma half_columns_filled:
  assumes "start \<le> output_width" "length out = 3 * output_width" "\<And>i. length (p i) = 3"
    and pixel: "\<And>i. i < output_width \<Longrightarrow> pixel i = Ok (p i)"
  shows "half_columns pixel output_width (start, filled p start out) = Ok (parts p output_width)"
proof -
  have "for_each (\<lambda>column rgb_row. and_then (pixel column) (\<lambda>bytes. write_at rgb_row (column * 3) bytes))
      [start..<output_width] (filled p start out) = Ok (filled p output_width out)"
  proof (rule upto_loop)
    fix x
    assume "x < output_width"
    moreover from this have "write_at (filled p x out) (x * 3) (p x) = Ok (filled p (Suc x) out)"
      using assms(2,3) by (intro write_filled [where c = 3]) simp_all
    ultimately show "and_then (pixel x) (\<lambda>bytes. write_at (filled p x out) (x * 3) bytes) = Ok (filled p (Suc x) out)"
      by (simp add: pixel)
  qed (rule assms(1))
  moreover have "filled p output_width out = parts p output_width"
    using assms(2,3) by (intro filled_all) (simp add: length_parts)
  ultimately show ?thesis by (simp add: half_columns_def)
qed

text \<open>Sampling an image of width \<open>width\<close> at even coordinates.\<close>

definition sampled :: "nat \<Rightarrow> (nat \<Rightarrow> 'a) \<Rightarrow> nat \<Rightarrow> 'a" where
  "sampled width P i = P (width * (2 * (i div (width div 2))) + 2 * (i mod (width div 2)))"

lemma sampled_at: "k < width div 2 \<Longrightarrow> sampled width P (width div 2 * row + k) = P (width * (2 * row) + 2 * k)"
  by (simp add: sampled_def)

section \<open>Semi-planar\<close>

definition yuv420sp_half_checks :: "yuv420sp \<Rightarrow> usize \<Rightarrow> usize \<Rightarrow> u8 list \<Rightarrow> unit camera_result" where
  "yuv420sp_half_checks planes width height rgb =
     (if width = 0 \<or> height = 0 \<or> odd width \<or> odd height
      then Err (invalid_frame ''half-size YUV420 conversion requires positive even dimensions'')
      else
        and_then (yuv_plane_validate
          \<lparr>yp_data = sp_y planes, yp_row_stride = sp_y_stride planes, yp_pixel_stride = 1\<rparr> width height) (\<lambda>_.
        and_then (ok_or (Option.bind (checked_mul (height div 2 - 1) (sp_uv_stride planes))
            (\<lambda>bytes. checked_add bytes width))
          (invalid_frame ''YUV420 size overflow'')) (\<lambda>required_uv.
        and_then (ok_or (Option.bind (checked_mul (width div 2) (height div 2)) (\<lambda>pixels. checked_mul pixels 3))
          (invalid_frame ''RGB size overflow'')) (\<lambda>required_rgb.
        if sp_uv_stride planes < width \<or> length (sp_uv planes) < required_uv \<or> length rgb < required_rgb
        then Err (invalid_frame ''invalid YUV420 UV stride or half-size RGB buffer'')
        else Ok ()))))"

definition yuv420sp_half_row ::
  "bool \<Rightarrow> yuv420sp \<Rightarrow> usize \<Rightarrow> coefficients \<Rightarrow> usize \<Rightarrow> u8 list \<Rightarrow> (u8 list) camera_result" where
  "yuv420sp_half_row avx2 planes width c row rgb_row =
     and_then (sub_slice (sp_y planes) (row * 2 * sp_y_stride planes) width) (\<lambda>y_row.
     and_then (sub_slice (sp_uv planes) (row * sp_uv_stride planes) width) (\<lambda>uv_row.
     and_then (if avx2 then semiplanar_half_row_avx2 (sp_vu_order planes) 10 512 512 y_row uv_row rgb_row c
               else Ok (0, rgb_row))
       (half_columns (\<lambda>column.
          and_then (chroma_pair (sp_vu_order planes) uv_row (column * 2)) (\<lambda>(u, v).
          and_then (index_at y_row (column * 2)) (\<lambda>y. Ok (yuv_pixel c y u v)))) (width div 2))))"

definition yuv420sp_to_rgb_half_with_coefficients_into ::
  "bool \<Rightarrow> yuv420sp \<Rightarrow> usize \<Rightarrow> usize \<Rightarrow> coefficients \<Rightarrow> u8 list \<Rightarrow> (u8 list) camera_result" where
  "yuv420sp_to_rgb_half_with_coefficients_into avx2 planes width height c rgb =
     and_then (yuv420sp_half_checks planes width height rgb) (\<lambda>_.
       for_rows (height div 2) (width div 2 * 3) (yuv420sp_half_row avx2 planes width c) rgb)"

definition yuv420sp_half_accepts :: "yuv420sp \<Rightarrow> nat \<Rightarrow> nat \<Rightarrow> u8 list \<Rightarrow> bool" where
  "yuv420sp_half_accepts p width height rgb \<longleftrightarrow>
     even width \<and> even height \<and> plane_covers (sp_luma p) width height \<and> width \<le> sp_uv_stride p \<and>
     (height div 2 - 1) * sp_uv_stride p + width \<le> length (sp_uv p) \<and>
     3 * (width div 2 * (height div 2)) \<le> length rgb"

lemma sp_half_rows:
  assumes accepts: "yuv420sp_half_accepts p width height rgb" and row: "row < height div 2"
  shows "row * 2 * sp_y_stride p + width \<le> length (sp_y p)" "row * sp_uv_stride p + width \<le> length (sp_uv p)"
proof -
  have cover: "plane_covers (sp_luma p) width height" using accepts by (simp add: yuv420sp_half_accepts_def)
  have "2 * row < height" using row by simp
  from covered_row [OF cover _ this] show "row * 2 * sp_y_stride p + width \<le> length (sp_y p)"
    by (simp add: sp_luma_def mult_ac)
  have "row * sp_uv_stride p \<le> (height div 2 - 1) * sp_uv_stride p" using row by (intro mult_le_mono1) simp
  then show "row * sp_uv_stride p + width \<le> length (sp_uv p)"
    using accepts unfolding yuv420sp_half_accepts_def by linarith
qed

lemma sp_half_pixel:
  assumes accepts: "yuv420sp_half_accepts p width height rgb" and row: "row < height div 2" and k: "k < width div 2"
  shows "semiplanar_half_pixel (sp_vu_order p) 10 512 512 c (take width (drop (row * 2 * sp_y_stride p) (sp_y p)))
      (take width (drop (row * sp_uv_stride p) (sp_uv p))) k
    = sampled width (sp_reference c p width) (width div 2 * row + k)"
proof -
  note r = sp_half_rows [OF accepts row]
  have k2: "2 * k + 1 < width" using k by linarith
  then have "2 * k < width" by simp
  then have "sampled width (sp_reference c p width) (width div 2 * row + k) =
      yuv_pixel c (plane_sample (sp_luma p) (2 * row) (2 * k)) (plane_sample (sp_u p) row k) (plane_sample (sp_v p) row k)"
    by (simp add: sampled_at k reference_pixel_at)
  also have "\<dots> = semiplanar_half_pixel (sp_vu_order p) 10 512 512 c (take width (drop (row * 2 * sp_y_stride p) (sp_y p)))
      (take width (drop (row * sp_uv_stride p) (sp_uv p))) k"
    using r k2 by (simp add: semiplanar_half_pixel_def lane_pixel_yuv plane_sample_def sp_luma_def sp_u_def sp_v_def mult_ac)
  finally show ?thesis by simp
qed

lemma half_kernel: "groups \<le> width div 32 \<Longrightarrow> groups * 16 \<le> width div (2 :: nat)"
  "groups \<le> width div 16 \<Longrightarrow> groups * 8 \<le> width div 2"
  by (simp_all add: less_eq_div_iff_mult_less_eq)

lemma yuv420sp_half_row_parts:
  assumes accepts: "yuv420sp_half_accepts p width height rgb" and row: "row < height div 2"
    and out: "length out = 3 * (width div 2)"
  shows "yuv420sp_half_row avx2 p width c row out
    = Ok (parts (\<lambda>i. sampled width (sp_reference c p width) (width div 2 * row + i)) (width div 2))"
proof -
  let ?y = "take width (drop (row * 2 * sp_y_stride p) (sp_y p))" and ?uv = "take width (drop (row * sp_uv_stride p) (sp_uv p))"
  let ?p = "semiplanar_half_pixel (sp_vu_order p) 10 512 512 c ?y ?uv"
  note r = sp_half_rows [OF accepts row]
  have slices: "sub_slice (sp_y p) (row * 2 * sp_y_stride p) width = Ok ?y" "sub_slice (sp_uv p) (row * sp_uv_stride p) width = Ok ?uv"
    "length ?y = width" "length ?uv = width"
    using r by (simp_all add: sub_slice_def)
  have eq: "parts ?p (width div 2) = parts (\<lambda>i. sampled width (sp_reference c p width) (width div 2 * row + i)) (width div 2)"
    by (rule parts_cong) (rule sp_half_pixel [OF accepts row])
  have columns: "half_columns (\<lambda>column.
          and_then (chroma_pair (sp_vu_order p) ?uv (column * 2)) (\<lambda>(u, v).
          and_then (index_at ?y (column * 2)) (\<lambda>y. Ok (yuv_pixel c y u v)))) (width div 2) (start, filled ?p start out)
      = Ok (parts ?p (width div 2))" if "start \<le> width div 2" for start
  proof (rule half_columns_filled [OF that out])
    fix i
    assume "i < width div 2"
    then have "2 * i + 1 < width" by linarith
    then show "and_then (chroma_pair (sp_vu_order p) ?uv (i * 2)) (\<lambda>(u, v).
          and_then (index_at ?y (i * 2)) (\<lambda>y. Ok (yuv_pixel c y u v))) = Ok (?p i)"
      using slices(3,4)
      by (simp add: chroma_pair_def index_at_def semiplanar_half_pixel_def lane_pixel_yuv mult.commute)
  qed simp
  show ?thesis
  proof (cases avx2)
    case True
    show ?thesis
      unfolding yuv420sp_half_row_def slices(1,2) and_then.simps if_P [OF True] semiplanar_half_row_filled [OF refl]
        eq [symmetric] mult.commute [of 16]
      by (rule columns) (rule half_kernel(1), simp only: slices(3) min.cobounded1 min.coboundedI1)
  next
    case False
    show ?thesis
      using columns [of 0] False unfolding yuv420sp_half_row_def slices(1,2) and_then.simps eq by simp
  qed
qed

lemma yuv420sp_half_total:
  assumes "length (sp_y p) < usize_bound" "length (sp_uv p) < usize_bound" "length rgb < usize_bound"
  shows "if yuv420sp_half_accepts p width height rgb
    then yuv420sp_to_rgb_half_with_coefficients_into avx2 p width height c rgb
      = Ok (filled (sampled width (sp_reference c p width)) (width div 2 * (height div 2)) rgb)
    else \<exists>m. yuv420sp_to_rgb_half_with_coefficients_into avx2 p width height c rgb = Err (invalid_frame m)"
proof -
  have "if yuv420sp_half_accepts p width height rgb then yuv420sp_half_checks p width height rgb = Ok ()
    else (\<exists>m. yuv420sp_half_checks p width height rgb = Err (invalid_frame m))"
  proof (cases "width = 0 \<or> height = 0 \<or> odd width \<or> odd height")
    case True
    then show ?thesis by (auto simp: yuv420sp_half_checks_def yuv420sp_half_accepts_def plane_covers_def)
  next
    case False
    define a b where "a = width div 2 * (height div 2)" and "b = (height div 2 - 1) * sp_uv_stride p"
    have v: "yuv_plane_validate \<lparr>yp_data = sp_y p, yp_row_stride = sp_y_stride p, yp_pixel_stride = 1\<rparr> width height
      = (if plane_covers (sp_luma p) width height then Ok ()
         else Err (invalid_frame ''Invalid YUV plane stride or truncated data''))"
      using assms(1) plane_validate_iff [of "sp_luma p"] by (simp add: sp_luma_def)
    from False show ?thesis
      using assms(2,3)
      unfolding yuv420sp_half_checks_def yuv420sp_half_accepts_def ok_or_def checked_mul_def checked_add_def v
        a_def [symmetric] b_def [symmetric]
      by (auto split: option.splits)
  qed
  moreover have "for_rows (height div 2) (width div 2 * 3) (yuv420sp_half_row avx2 p width c) rgb
      = Ok (filled (sampled width (sp_reference c p width)) (width div 2 * (height div 2)) rgb)"
    if accepts: "yuv420sp_half_accepts p width height rgb"
  proof (rule for_rows_filled)
    show "3 * (width div 2 * (height div 2)) \<le> length rgb" using accepts by (simp add: yuv420sp_half_accepts_def)
    show "width div 2 * 3 = 3 * (width div 2)" by simp
    show "length (sampled width (sp_reference c p width) i) = 3" for i by (simp add: sampled_def)
  qed (rule yuv420sp_half_row_parts [OF accepts]; assumption)
  ultimately show ?thesis
    by (auto simp: yuv420sp_to_rgb_half_with_coefficients_into_def split: if_splits)
qed

section \<open>Planar\<close>

definition yuv420_half_checks ::
  "yuv_plane \<Rightarrow> yuv_plane \<Rightarrow> yuv_plane \<Rightarrow> usize \<Rightarrow> usize \<Rightarrow> u8 list \<Rightarrow> unit camera_result" where
  "yuv420_half_checks y u v width height rgb =
     (if width = 0 \<or> height = 0 \<or> odd width \<or> odd height
      then Err (invalid_frame ''half-size YUV420 conversion requires positive even dimensions'')
      else
        and_then (yuv_plane_validate y width height) (\<lambda>_.
        and_then (yuv_plane_validate u (width div 2) (height div 2)) (\<lambda>_.
        and_then (yuv_plane_validate v (width div 2) (height div 2)) (\<lambda>_.
        if yp_pixel_stride y \<noteq> 1 \<or> yp_pixel_stride u \<noteq> 1 \<or> yp_pixel_stride v \<noteq> 1
        then Err (invalid_frame ''direct half-size planar YUV requires contiguous pixels'')
        else
          and_then (ok_or (Option.bind (checked_mul (width div 2) (height div 2)) (\<lambda>pixels. checked_mul pixels 3))
            (invalid_frame ''RGB size overflow'')) (\<lambda>required_rgb.
          if length rgb < required_rgb then Err (invalid_frame ''half-size RGB buffer is too small'')
          else Ok ())))))"

definition yuv420_half_row ::
  "bool \<Rightarrow> yuv_plane \<Rightarrow> yuv_plane \<Rightarrow> yuv_plane \<Rightarrow> usize \<Rightarrow> coefficients \<Rightarrow> usize \<Rightarrow> u8 list \<Rightarrow> (u8 list) camera_result" where
  "yuv420_half_row avx2 y u v width c row rgb_row =
     and_then (sub_slice (yp_data y) (row * 2 * yp_row_stride y) width) (\<lambda>y_row.
     and_then (sub_slice (yp_data u) (row * yp_row_stride u) (width div 2)) (\<lambda>u_row.
     and_then (sub_slice (yp_data v) (row * yp_row_stride v) (width div 2)) (\<lambda>v_row.
     and_then (if avx2 then planar_half_row_avx2 y_row u_row v_row rgb_row c else Ok (0, rgb_row))
       (half_columns (\<lambda>column.
          and_then (index_at y_row (column * 2)) (\<lambda>y.
          and_then (index_at u_row column) (\<lambda>u.
          and_then (index_at v_row column) (\<lambda>v. Ok (yuv_pixel c y u v))))) (width div 2)))))"

definition yuv420_to_rgb_half_with_coefficients_into ::
  "bool \<Rightarrow> yuv_plane \<Rightarrow> yuv_plane \<Rightarrow> yuv_plane \<Rightarrow> usize \<Rightarrow> usize \<Rightarrow> coefficients \<Rightarrow> u8 list \<Rightarrow> (u8 list) camera_result" where
  "yuv420_to_rgb_half_with_coefficients_into avx2 y u v width height c rgb =
     and_then (yuv420_half_checks y u v width height rgb) (\<lambda>_.
       for_rows (height div 2) (width div 2 * 3) (yuv420_half_row avx2 y u v width c) rgb)"

definition yuv420_half_accepts :: "yuv_plane \<Rightarrow> yuv_plane \<Rightarrow> yuv_plane \<Rightarrow> nat \<Rightarrow> nat \<Rightarrow> u8 list \<Rightarrow> bool" where
  "yuv420_half_accepts y u v width height rgb \<longleftrightarrow>
     even width \<and> even height \<and> plane_covers y width height \<and>
     plane_covers u (width div 2) (height div 2) \<and> plane_covers v (width div 2) (height div 2) \<and>
     yp_pixel_stride y = 1 \<and> yp_pixel_stride u = 1 \<and> yp_pixel_stride v = 1 \<and>
     3 * (width div 2 * (height div 2)) \<le> length rgb"

lemma nth_take_drop: "i < n \<Longrightarrow> a + n \<le> length xs \<Longrightarrow> take n (drop a xs) ! i = xs ! (a + i)"
  by simp

lemma yuv420_half_row_parts:
  assumes accepts: "yuv420_half_accepts y u v width height rgb" and row: "row < height div 2"
    and out: "length out = 3 * (width div 2)"
  shows "yuv420_half_row avx2 y u v width c row out
    = Ok (parts (\<lambda>i. sampled width (reference_pixel c y u v width) (width div 2 * row + i)) (width div 2))"
proof -
  let ?y = "take width (drop (row * 2 * yp_row_stride y) (yp_data y))"
    and ?u = "take (width div 2) (drop (row * yp_row_stride u) (yp_data u))"
    and ?v = "take (width div 2) (drop (row * yp_row_stride v) (yp_data v))"
  let ?p = "planar_half_pixel c ?y ?u ?v"
  have cover: "plane_covers y width height" "plane_covers u (width div 2) (height div 2)"
    "plane_covers v (width div 2) (height div 2)"
    and stride: "yp_pixel_stride y = 1" "yp_pixel_stride u = 1" "yp_pixel_stride v = 1"
    using accepts by (auto simp: yuv420_half_accepts_def)
  have row2: "2 * row < height" using row by simp
  have r: "row * 2 * yp_row_stride y + width \<le> length (yp_data y)"
    "row * yp_row_stride u + width div 2 \<le> length (yp_data u)"
    "row * yp_row_stride v + width div 2 \<le> length (yp_data v)"
    using covered_row [OF cover(1) stride(1) row2] covered_row [OF cover(2) stride(2) row]
      covered_row [OF cover(3) stride(3) row] by (simp_all add: mult.commute [of row])
  then have slices: "sub_slice (yp_data y) (row * 2 * yp_row_stride y) width = Ok ?y"
    "sub_slice (yp_data u) (row * yp_row_stride u) (width div 2) = Ok ?u"
    "sub_slice (yp_data v) (row * yp_row_stride v) (width div 2) = Ok ?v"
    "length ?y = width" "length ?u = width div 2" "length ?v = width div 2"
    by (simp_all add: sub_slice_def)
  have eq: "parts ?p (width div 2)
      = parts (\<lambda>i. sampled width (reference_pixel c y u v width) (width div 2 * row + i)) (width div 2)"
  proof (rule parts_cong)
    fix k
    assume k: "k < width div 2"
    then have "2 * k < width" by linarith
    then have s: "sampled width (reference_pixel c y u v width) (width div 2 * row + k) =
        yuv_pixel c (plane_sample y (2 * row) (2 * k)) (plane_sample u row k) (plane_sample v row k)"
      by (simp add: sampled_at k reference_pixel_at)
    show "?p k = sampled width (reference_pixel c y u v width) (width div 2 * row + k)"
      unfolding s planar_half_pixel_def lane_pixel_yuv plane_sample_def mult.commute [of 2 row] stride mult_1_right
        nth_take_drop [OF \<open>2 * k < width\<close> r(1)] nth_take_drop [OF k r(2)] nth_take_drop [OF k r(3)] ..
  qed
  have columns: "half_columns (\<lambda>column.
          and_then (index_at ?y (column * 2)) (\<lambda>y.
          and_then (index_at ?u column) (\<lambda>u.
          and_then (index_at ?v column) (\<lambda>v. Ok (yuv_pixel c y u v))))) (width div 2) (start, filled ?p start out)
      = Ok (parts ?p (width div 2))" if "start \<le> width div 2" for start
  proof (rule half_columns_filled [OF that out])
    fix i
    assume "i < width div 2"
    moreover from this have "2 * i < width" by linarith
    ultimately show "and_then (index_at ?y (i * 2)) (\<lambda>y. and_then (index_at ?u i) (\<lambda>u.
          and_then (index_at ?v i) (\<lambda>v. Ok (yuv_pixel c y u v)))) = Ok (?p i)"
      using slices(4-6) by (simp add: index_at_def planar_half_pixel_def lane_pixel_yuv mult.commute)
  qed simp
  show ?thesis
  proof (cases avx2)
    case True
    show ?thesis
      unfolding yuv420_half_row_def slices(1-3) and_then.simps if_P [OF True] planar_half_row_filled [OF refl]
        eq [symmetric] mult.commute [of 8]
      by (rule columns) (rule half_kernel(2), simp only: slices(4) min.cobounded1 min.coboundedI1)
  next
    case False
    show ?thesis
      using columns [of 0] False unfolding yuv420_half_row_def slices(1-3) and_then.simps eq by simp
  qed
qed

lemma yuv420_half_total:
  assumes "length (yp_data y) < usize_bound" "length (yp_data u) < usize_bound"
    "length (yp_data v) < usize_bound" "length rgb < usize_bound"
  shows "if yuv420_half_accepts y u v width height rgb
    then yuv420_to_rgb_half_with_coefficients_into avx2 y u v width height c rgb
      = Ok (filled (sampled width (reference_pixel c y u v width)) (width div 2 * (height div 2)) rgb)
    else \<exists>m. yuv420_to_rgb_half_with_coefficients_into avx2 y u v width height c rgb = Err (invalid_frame m)"
proof -
  have "if yuv420_half_accepts y u v width height rgb then yuv420_half_checks y u v width height rgb = Ok ()
    else (\<exists>m. yuv420_half_checks y u v width height rgb = Err (invalid_frame m))"
  proof (cases "width = 0 \<or> height = 0 \<or> odd width \<or> odd height")
    case True
    then have "\<not> yuv420_half_accepts y u v width height rgb"
      using plane_covers_pos [of y width height] by (auto simp: yuv420_half_accepts_def)
    then show ?thesis using True by (auto simp: yuv420_half_checks_def)
  next
    case False
    define a where "a = width div 2 * (height div 2)"
    from False show ?thesis
      using assms(4)
      unfolding yuv420_half_checks_def yuv420_half_accepts_def ok_or_def checked_mul_def a_def [symmetric]
        plane_validate_iff [OF assms(1)] plane_validate_iff [OF assms(2)] plane_validate_iff [OF assms(3)]
      by auto
  qed
  moreover have "for_rows (height div 2) (width div 2 * 3) (yuv420_half_row avx2 y u v width c) rgb
      = Ok (filled (sampled width (reference_pixel c y u v width)) (width div 2 * (height div 2)) rgb)"
    if accepts: "yuv420_half_accepts y u v width height rgb"
  proof (rule for_rows_filled)
    show "3 * (width div 2 * (height div 2)) \<le> length rgb" using accepts by (simp add: yuv420_half_accepts_def)
    show "width div 2 * 3 = 3 * (width div 2)" by simp
    show "length (sampled width (reference_pixel c y u v width) i) = 3" for i by (simp add: sampled_def)
  qed (rule yuv420_half_row_parts [OF accepts]; assumption)
  ultimately show ?thesis
    by (auto simp: yuv420_to_rgb_half_with_coefficients_into_def split: if_splits)
qed

end
