(* ===== verification/Color_Yuv422.thy ===== *)
theory Color_Yuv422
  imports Color_Half
begin

text \<open>
  The conversions of packed 4:2:2 images (YUYV and UYVY) with configured coefficients, full and half
  size (\<open>src/utils/color_convert.rs\<close>).
\<close>

section \<open>Full size\<close>

definition yuv422_checks ::
  "u8 list \<Rightarrow> usize \<Rightarrow> usize \<Rightarrow> usize \<Rightarrow> u8 list \<Rightarrow> (usize \<times> usize) camera_result" where
  "yuv422_checks source width height stride rgb =
     and_then (ok_or (checked_mul width 2) (invalid_frame ''YUV422 size overflow'')) (\<lambda>source_row_bytes.
     and_then (ok_or (checked_mul width 3) (invalid_frame ''RGB size overflow'')) (\<lambda>rgb_row_bytes.
     if width = 0 \<or> height = 0 \<or> odd width \<or> stride < source_row_bytes
     then Err (invalid_frame ''invalid YUV422 dimensions or stride'')
     else
       and_then (ok_or (Option.bind (checked_mul (height - 1) stride) (\<lambda>bytes. checked_add bytes source_row_bytes))
         (invalid_frame ''YUV422 size overflow'')) (\<lambda>required_source.
       and_then (ok_or (checked_mul height rgb_row_bytes) (invalid_frame ''RGB size overflow'')) (\<lambda>required_rgb.
       if length source < required_source \<or> length rgb < required_rgb
       then Err (invalid_frame ''YUV422 or RGB buffer is too small'')
       else Ok (source_row_bytes, rgb_row_bytes)))))"

text \<open>The pair of columns at \<open>column\<close> of a row.\<close>

definition yuv422_pair :: "bool \<Rightarrow> u8 list \<Rightarrow> coefficients \<Rightarrow> usize \<Rightarrow> u8 list \<Rightarrow> (u8 list) camera_result" where
  "yuv422_pair uyvy source_row c column rgb_row =
     (let input = column * 2;
          output = column * 3
      in and_then
           (if uyvy
            then and_then (index_at source_row (input + 1)) (\<lambda>y0. and_then (index_at source_row input) (\<lambda>u.
                 and_then (index_at source_row (input + 3)) (\<lambda>y1. and_then (index_at source_row (input + 2)) (\<lambda>v.
                   Ok (y0, u, y1, v)))))
            else and_then (index_at source_row input) (\<lambda>y0. and_then (index_at source_row (input + 1)) (\<lambda>u.
                 and_then (index_at source_row (input + 2)) (\<lambda>y1. and_then (index_at source_row (input + 3)) (\<lambda>v.
                   Ok (y0, u, y1, v))))))
           (\<lambda>(y0, u, y1, v).
              and_then (write_at rgb_row output (yuv_pixel c y0 u v)) (\<lambda>rgb_row.
                write_at rgb_row (output + 3) (yuv_pixel c y1 u v))))"

definition yuv422_row ::
  "bool \<Rightarrow> bool \<Rightarrow> u8 list \<Rightarrow> usize \<Rightarrow> usize \<Rightarrow> usize \<Rightarrow> coefficients \<Rightarrow> usize \<Rightarrow> u8 list \<Rightarrow> (u8 list) camera_result" where
  "yuv422_row avx2 uyvy source width stride source_row_bytes c row rgb_row =
     and_then (sub_slice source (row * stride) source_row_bytes) (\<lambda>source_row.
     and_then
       (if avx2
        then and_then (packed422_avx2 uyvy 10 512 512 source_row rgb_row c) (\<lambda>rgb_row. Ok (width, rgb_row))
        else Ok (0, rgb_row))
       (\<lambda>(start, rgb_row). for_each (yuv422_pair uyvy source_row c) (step_by start width 2) rgb_row))"

definition yuv422_to_rgb_with_coefficients_into ::
  "bool \<Rightarrow> u8 list \<Rightarrow> usize \<Rightarrow> usize \<Rightarrow> usize \<Rightarrow> bool \<Rightarrow> coefficients \<Rightarrow> u8 list \<Rightarrow> (u8 list) camera_result" where
  "yuv422_to_rgb_with_coefficients_into avx2 source width height stride uyvy c rgb =
     and_then (yuv422_checks source width height stride rgb) (\<lambda>(source_row_bytes, rgb_row_bytes).
       for_rows height rgb_row_bytes (yuv422_row avx2 uyvy source width stride source_row_bytes c) rgb)"

text \<open>Pixel \<open>i\<close>, in row-major order, of a packed image with padded rows.\<close>

definition yuv422_reference :: "bool \<Rightarrow> coefficients \<Rightarrow> u8 list \<Rightarrow> nat \<Rightarrow> nat \<Rightarrow> nat \<Rightarrow> u8 list" where
  "yuv422_reference uyvy c source stride width i =
     (let row = i div width; x = i mod width; pair = row * stride + 4 * (x div 2);
          luma = row * stride + 2 * x
      in if uyvy then yuv_pixel c (source ! (luma + 1)) (source ! pair) (source ! (pair + 2))
         else yuv_pixel c (source ! luma) (source ! (pair + 1)) (source ! (pair + 3)))"

definition yuv422_accepts :: "u8 list \<Rightarrow> nat \<Rightarrow> nat \<Rightarrow> nat \<Rightarrow> u8 list \<Rightarrow> bool" where
  "yuv422_accepts source width height stride rgb \<longleftrightarrow>
     0 < width \<and> even width \<and> 0 < height \<and> 2 * width \<le> stride \<and>
     (height - 1) * stride + 2 * width \<le> length source \<and> 3 * (width * height) \<le> length rgb"

lemma length_yuv422_reference [simp]: "length (yuv422_reference uyvy c source stride width i) = 3"
  by (simp add: yuv422_reference_def Let_def)

lemma yuv422_slice:
  assumes "yuv422_accepts source width height stride rgb" "row < height"
  shows "row * stride + 2 * width \<le> length source"
proof -
  have "row * stride \<le> (height - 1) * stride" using assms(2) by (intro mult_le_mono1) simp
  with assms(1) show ?thesis unfolding yuv422_accepts_def by linarith
qed

lemma yuv422_row_pixel:
  assumes room: "row * stride + 2 * width \<le> length source" and x: "x < width" and even: "even width"
  shows "packed_pixel uyvy 10 512 512 c (take (2 * width) (drop (row * stride) source)) x
    = yuv422_reference uyvy c source stride width (width * row + x)"
proof -
  have "4 * (x div 2) + 3 < 2 * width" using x even by presburger
  moreover have "2 * x + 1 < 2 * width" using x by simp
  ultimately show ?thesis
    using room x by (simp add: packed_pixel_def yuv422_reference_def lane_pixel_yuv Let_def add.assoc)
qed

lemma yuv422_pair_step:
  assumes "length source_row = 2 * width" "length out = 3 * width" "even width" "even column" "column < width"
  shows "yuv422_pair uyvy source_row c column (filled (packed_pixel uyvy 10 512 512 c source_row) column out)
    = Ok (filled (packed_pixel uyvy 10 512 512 c source_row) (min (column + 2) width) out)"
proof -
  let ?p = "packed_pixel uyvy 10 512 512 c source_row"
  obtain k where k: "column = 2 * k" using assms(4) by blast
  have bound: "column + 1 < width" using assms(3-5) by presburger
  then have "column * 2 + 3 < length source_row" using assms(1) by simp
  then have eq: "yuv422_pair uyvy source_row c column out' =
     and_then (write_at out' (column * 3) (?p column)) (\<lambda>rgb_row. write_at rgb_row (column * 3 + 3) (?p (Suc column)))" for out'
    by (cases uyvy)
      (simp_all add: yuv422_pair_def Let_def index_at_def packed_pixel_def lane_pixel_yuv k numeral_3_eq_3 mult.commute)
  have step: "write_at (filled ?p x out) (x * 3) (?p x) = Ok (filled ?p (Suc x) out)" if "x < width" for x
    using that assms(2) by (intro write_filled [where c = 3]) simp_all
  have "min (column + 2) width = Suc (Suc column)" using bound by simp
  moreover have "column * 3 + 3 = Suc column * 3" by simp
  ultimately show ?thesis
    unfolding eq step [OF assms(5)] and_then.simps
    using step [of "Suc column"] bound by (simp add: add.commute)
qed

lemma yuv422_row_parts:
  assumes accepts: "yuv422_accepts source width height stride rgb" and row: "row < height"
    and out: "length out = 3 * width"
  shows "yuv422_row avx2 uyvy source width stride (width * 2) c row out
    = Ok (parts (\<lambda>i. yuv422_reference uyvy c source stride width (width * row + i)) width)"
proof -
  note room = yuv422_slice [OF accepts row]
  have even: "even width" using accepts by (simp add: yuv422_accepts_def)
  let ?s = "take (2 * width) (drop (row * stride) source)"
  let ?p = "packed_pixel uyvy 10 512 512 c ?s"
  have s: "sub_slice source (row * stride) (width * 2) = Ok ?s" "length ?s = 2 * width"
    using room by (simp_all add: sub_slice_def mult.commute)
  have eq: "parts ?p width = parts (\<lambda>i. yuv422_reference uyvy c source stride width (width * row + i)) width"
    by (rule parts_cong) (rule yuv422_row_pixel [OF room _ even])
  have all: "filled ?p width out = parts ?p width"
    using out by (intro filled_all) (simp add: length_parts)
  show ?thesis
  proof (cases avx2)
    case True
    have pairs: "2 * min (length ?s div 4) (length out div 6) = width" using s(2) out even by (auto elim: evenE)
    have kernel: "packed422_avx2 uyvy 10 512 512 ?s out c = Ok (filled ?p width out)"
      unfolding packed422_filled pairs ..
    show ?thesis
      unfolding yuv422_row_def s(1) and_then.simps if_P [OF True] kernel prod.case eq [symmetric] all
      by (simp add: step_by_def div_ceil_def)
  next
    case False
    have "for_each (yuv422_pair uyvy ?s c) (step_by 0 width 2) (filled ?p 0 out) = Ok (filled ?p width out)"
      by (rule pair_loop) (use yuv422_pair_step [OF s(2) out even] in simp_all)
    then show ?thesis
      unfolding yuv422_row_def s(1) and_then.simps if_not_P [OF False] prod.case eq [symmetric] all by simp
  qed
qed

lemma yuv422_total:
  assumes "length source < usize_bound" "length rgb < usize_bound"
  shows "if yuv422_accepts source width height stride rgb
    then yuv422_to_rgb_with_coefficients_into avx2 source width height stride uyvy c rgb
      = Ok (filled (yuv422_reference uyvy c source stride width) (width * height) rgb)
    else \<exists>m. yuv422_to_rgb_with_coefficients_into avx2 source width height stride uyvy c rgb = Err (invalid_frame m)"
proof -
  have "if yuv422_accepts source width height stride rgb
    then yuv422_checks source width height stride rgb = Ok (width * 2, width * 3)
    else (\<exists>m. yuv422_checks source width height stride rgb = Err (invalid_frame m))"
  proof (cases "width = 0 \<or> height = 0 \<or> odd width \<or> stride < width * 2")
    case True
    then show ?thesis by (auto simp: yuv422_checks_def yuv422_accepts_def ok_or_def checked_mul_def)
  next
    case False
    define a where "a = (height - 1) * stride"
    have small: "width * 2 < usize_bound \<and> width * 3 < usize_bound" if "yuv422_accepts source width height stride rgb"
    proof -
      have "width * 1 \<le> width * height" using False by (intro mult_le_mono2) simp
      then show ?thesis using that assms unfolding yuv422_accepts_def by linarith
    qed
    have r: "height * (width * 3) = 3 * (width * height)" by simp
    from False show ?thesis
      using assms small
      unfolding yuv422_checks_def ok_or_def checked_mul_def checked_add_def a_def [symmetric] r
      by (auto simp: yuv422_accepts_def a_def [unfolded One_nat_def, symmetric] r)
  qed
  moreover have "for_rows height (width * 3) (yuv422_row avx2 uyvy source width stride (width * 2) c) rgb
      = Ok (filled (yuv422_reference uyvy c source stride width) (width * height) rgb)"
    if accepts: "yuv422_accepts source width height stride rgb"
  proof (rule for_rows_filled)
    show "3 * (width * height) \<le> length rgb" using accepts by (simp add: yuv422_accepts_def)
    show "width * 3 = 3 * width" by simp
  qed (rule yuv422_row_parts [OF accepts] length_yuv422_reference; assumption)+
  ultimately show ?thesis
    by (auto simp: yuv422_to_rgb_with_coefficients_into_def split: if_splits)
qed

section \<open>Half size\<close>

definition yuv422_half_checks ::
  "u8 list \<Rightarrow> usize \<Rightarrow> usize \<Rightarrow> usize \<Rightarrow> u8 list \<Rightarrow> (usize \<times> usize) camera_result" where
  "yuv422_half_checks source width height stride rgb =
     and_then (ok_or (checked_mul width 2) (invalid_frame ''YUV422 size overflow'')) (\<lambda>source_row_bytes.
     and_then (ok_or (checked_mul (width div 2) 3) (invalid_frame ''RGB size overflow'')) (\<lambda>rgb_row_bytes.
     if width = 0 \<or> height = 0 \<or> odd width \<or> odd height \<or> stride < source_row_bytes
     then Err (invalid_frame ''invalid half-size YUV422 dimensions or stride'')
     else
       and_then (ok_or (Option.bind (checked_mul (height - 1) stride) (\<lambda>bytes. checked_add bytes source_row_bytes))
         (invalid_frame ''YUV422 size overflow'')) (\<lambda>required_source.
       and_then (ok_or (checked_mul (height div 2) rgb_row_bytes) (invalid_frame ''RGB size overflow'')) (\<lambda>required_rgb.
       if length source < required_source \<or> length rgb < required_rgb
       then Err (invalid_frame ''YUV422 or half-size RGB buffer is too small'')
       else Ok (source_row_bytes, rgb_row_bytes)))))"

definition yuv422_half_row ::
  "bool \<Rightarrow> bool \<Rightarrow> u8 list \<Rightarrow> usize \<Rightarrow> usize \<Rightarrow> usize \<Rightarrow> coefficients \<Rightarrow> usize \<Rightarrow> u8 list \<Rightarrow> (u8 list) camera_result" where
  "yuv422_half_row avx2 uyvy source width stride source_row_bytes c row rgb_row =
     and_then (sub_slice source (row * 2 * stride) source_row_bytes) (\<lambda>source_row.
     and_then (if avx2 then packed422_half_row_avx2 uyvy source_row rgb_row c else Ok (0, rgb_row))
       (half_columns (\<lambda>column.
          let input = column * 4
          in and_then
               (if uyvy
                then and_then (index_at source_row (input + 1)) (\<lambda>y. and_then (index_at source_row input) (\<lambda>u.
                     and_then (index_at source_row (input + 2)) (\<lambda>v. Ok (y, u, v))))
                else and_then (index_at source_row input) (\<lambda>y. and_then (index_at source_row (input + 1)) (\<lambda>u.
                     and_then (index_at source_row (input + 3)) (\<lambda>v. Ok (y, u, v)))))
               (\<lambda>(y, u, v). Ok (yuv_pixel c y u v))) (width div 2)))"

definition yuv422_to_rgb_half_with_coefficients_into ::
  "bool \<Rightarrow> u8 list \<Rightarrow> usize \<Rightarrow> usize \<Rightarrow> usize \<Rightarrow> bool \<Rightarrow> coefficients \<Rightarrow> u8 list \<Rightarrow> (u8 list) camera_result" where
  "yuv422_to_rgb_half_with_coefficients_into avx2 source width height stride uyvy c rgb =
     and_then (yuv422_half_checks source width height stride rgb) (\<lambda>(source_row_bytes, rgb_row_bytes).
       for_rows (height div 2) rgb_row_bytes (yuv422_half_row avx2 uyvy source width stride source_row_bytes c) rgb)"

definition yuv422_half_accepts :: "u8 list \<Rightarrow> nat \<Rightarrow> nat \<Rightarrow> nat \<Rightarrow> u8 list \<Rightarrow> bool" where
  "yuv422_half_accepts source width height stride rgb \<longleftrightarrow>
     0 < width \<and> even width \<and> 0 < height \<and> even height \<and> 2 * width \<le> stride \<and>
     (height - 1) * stride + 2 * width \<le> length source \<and> 3 * (width div 2 * (height div 2)) \<le> length rgb"

lemma yuv422_half_row_parts:
  assumes accepts: "yuv422_half_accepts source width height stride rgb" and row: "row < height div 2"
    and out: "length out = 3 * (width div 2)"
  shows "yuv422_half_row avx2 uyvy source width stride (width * 2) c row out
    = Ok (parts (\<lambda>i. sampled width (yuv422_reference uyvy c source stride width) (width div 2 * row + i)) (width div 2))"
proof -
  have even: "even width" using accepts by (simp add: yuv422_half_accepts_def)
  have "row * 2 * stride \<le> (height - 1) * stride" using row by (intro mult_le_mono1) linarith
  then have room: "row * 2 * stride + 2 * width \<le> length source"
    using accepts unfolding yuv422_half_accepts_def by linarith
  let ?s = "take (2 * width) (drop (row * 2 * stride) source)"
  let ?p = "packed_half_pixel uyvy c ?s"
  have s: "sub_slice source (row * 2 * stride) (width * 2) = Ok ?s" "length ?s = 2 * width"
    using room by (simp_all add: sub_slice_def mult.commute)
  have full: "?p k = packed_pixel uyvy 10 512 512 c ?s (2 * k)" for k
    by (simp add: packed_half_pixel_def packed_pixel_def)
  have eq: "parts ?p (width div 2)
      = parts (\<lambda>i. sampled width (yuv422_reference uyvy c source stride width) (width div 2 * row + i)) (width div 2)"
  proof (rule parts_cong)
    fix k
    assume k: "k < width div 2"
    then have "2 * k < width" by linarith
    from yuv422_row_pixel [OF room this even] show "?p k
        = sampled width (yuv422_reference uyvy c source stride width) (width div 2 * row + k)"
      unfolding full sampled_at [OF k] by (simp add: mult.commute)
  qed
  have columns: "half_columns (\<lambda>column.
          let input = column * 4
          in and_then
               (if uyvy
                then and_then (index_at ?s (input + 1)) (\<lambda>y. and_then (index_at ?s input) (\<lambda>u.
                     and_then (index_at ?s (input + 2)) (\<lambda>v. Ok (y, u, v))))
                else and_then (index_at ?s input) (\<lambda>y. and_then (index_at ?s (input + 1)) (\<lambda>u.
                     and_then (index_at ?s (input + 3)) (\<lambda>v. Ok (y, u, v)))))
               (\<lambda>(y, u, v). Ok (yuv_pixel c y u v))) (width div 2) (start, filled ?p start out)
      = Ok (parts ?p (width div 2))" if "start \<le> width div 2" for start
  proof (rule half_columns_filled [OF that out])
    fix i
    assume "i < width div 2"
    then have "i * 4 + 3 < length ?s" unfolding s(2) by linarith
    then show "(let input = i * 4
          in and_then
               (if uyvy
                then and_then (index_at ?s (input + 1)) (\<lambda>y. and_then (index_at ?s input) (\<lambda>u.
                     and_then (index_at ?s (input + 2)) (\<lambda>v. Ok (y, u, v))))
                else and_then (index_at ?s input) (\<lambda>y. and_then (index_at ?s (input + 1)) (\<lambda>u.
                     and_then (index_at ?s (input + 3)) (\<lambda>v. Ok (y, u, v)))))
               (\<lambda>(y, u, v). Ok (yuv_pixel c y u v))) = Ok (?p i)"
      by (cases uyvy) (simp_all add: Let_def index_at_def packed_half_pixel_def lane_pixel_yuv mult.commute)
  qed (simp add: packed_half_pixel_def)
  show ?thesis
  proof (cases avx2)
    case True
    have "min (length ?s div 32) (length out div 24) * 8 \<le> width div 2" unfolding s(2) out by linarith
    note columns = columns [OF this]
    show ?thesis
      unfolding yuv422_half_row_def s(1) and_then.simps if_P [OF True] packed422_half_row_filled [OF refl]
        eq [symmetric] mult.commute [of 8]
      by (rule columns)
  next
    case False
    show ?thesis
      using columns [of 0] unfolding yuv422_half_row_def s(1) and_then.simps if_not_P [OF False] eq by simp
  qed
qed

lemma yuv422_half_total:
  assumes "length source < usize_bound" "length rgb < usize_bound"
  shows "if yuv422_half_accepts source width height stride rgb
    then yuv422_to_rgb_half_with_coefficients_into avx2 source width height stride uyvy c rgb
      = Ok (filled (sampled width (yuv422_reference uyvy c source stride width)) (width div 2 * (height div 2)) rgb)
    else \<exists>m. yuv422_to_rgb_half_with_coefficients_into avx2 source width height stride uyvy c rgb = Err (invalid_frame m)"
proof -
  have "if yuv422_half_accepts source width height stride rgb
    then yuv422_half_checks source width height stride rgb = Ok (width * 2, width div 2 * 3)
    else (\<exists>m. yuv422_half_checks source width height stride rgb = Err (invalid_frame m))"
  proof (cases "width = 0 \<or> height = 0 \<or> odd width \<or> odd height \<or> stride < width * 2")
    case True
    then show ?thesis by (auto simp: yuv422_half_checks_def yuv422_half_accepts_def ok_or_def checked_mul_def)
  next
    case False
    define a w where "a = (height - 1) * stride" and "w = width div 2"
    have small: "width * 2 < usize_bound \<and> w * 3 < usize_bound" if "yuv422_half_accepts source width height stride rgb"
    proof -
      have "w * 1 \<le> w * (height div 2)" using False by (intro mult_le_mono2) (auto elim: evenE)
      then show ?thesis using that assms unfolding yuv422_half_accepts_def w_def by linarith
    qed
    have r: "height div 2 * (w * 3) = 3 * (w * (height div 2))" by simp
    from False show ?thesis
      using assms small
      unfolding yuv422_half_checks_def ok_or_def checked_mul_def checked_add_def a_def [symmetric] w_def [symmetric] r
      by (auto simp: yuv422_half_accepts_def a_def [unfolded One_nat_def, symmetric] w_def [symmetric] r)
  qed
  moreover have "for_rows (height div 2) (width div 2 * 3) (yuv422_half_row avx2 uyvy source width stride (width * 2) c) rgb
      = Ok (filled (sampled width (yuv422_reference uyvy c source stride width)) (width div 2 * (height div 2)) rgb)"
    if accepts: "yuv422_half_accepts source width height stride rgb"
  proof (rule for_rows_filled)
    show "3 * (width div 2 * (height div 2)) \<le> length rgb" using accepts by (simp add: yuv422_half_accepts_def)
    show "width div 2 * 3 = 3 * (width div 2)" by simp
    show "length (sampled width (yuv422_reference uyvy c source stride width) i) = 3" for i by (simp add: sampled_def)
  qed (rule yuv422_half_row_parts [OF accepts]; assumption)
  ultimately show ?thesis
    by (auto simp: yuv422_to_rgb_half_with_coefficients_into_def split: if_splits)
qed

end
