(* ===== verification/Color_Converter.thy ===== *)
theory Color_Converter
  imports Avx2_Packed Layout
begin

text \<open>
  \<open>ColorConverter\<close> and the packed 4:2:2 routines behind it (\<open>src/utils/color_convert.rs\<close>): the
  scalar loop, the loop unrolled in batches of eight pixels, and the AVX2 kernel.  All three write
  the same bytes.
\<close>

section \<open>One pair\<close>

definition V_TO_R :: i32 where "V_TO_R = 359"
definition U_TO_G :: i32 where "U_TO_G = 88"
definition V_TO_G :: i32 where "V_TO_G = 183"
definition U_TO_B :: i32 where "U_TO_B = 454"

text \<open>The six bytes of a pair.\<close>

definition pair_pixels :: "u8 \<Rightarrow> u8 \<Rightarrow> u8 \<Rightarrow> u8 \<Rightarrow> u8 list" where
  "pair_pixels y0 u y1 v =
     (let y0 = ucast y0; u = ucast u - 128; y1 = ucast y1; v = ucast v - 128;
          v_r = signed_drop_bit 8 (V_TO_R * v);
          uv_g = signed_drop_bit 8 (U_TO_G * u + V_TO_G * v);
          u_b = signed_drop_bit 8 (U_TO_B * u)
      in [clamp_u8 (y0 + v_r), clamp_u8 (y0 - uv_g), clamp_u8 (y0 + u_b),
          clamp_u8 (y1 + v_r), clamp_u8 (y1 - uv_g), clamp_u8 (y1 + u_b)])"

definition yuyv_pair :: "u8 list \<Rightarrow> usize \<Rightarrow> usize \<Rightarrow> u8 list \<Rightarrow> (u8 list) camera_result" where
  "yuyv_pair yuyv_data yuyv_idx rgb_idx rgb_buffer =
     and_then (index_at yuyv_data yuyv_idx) (\<lambda>y0.
     and_then (index_at yuyv_data (yuyv_idx + 1)) (\<lambda>u.
     and_then (index_at yuyv_data (yuyv_idx + 2)) (\<lambda>y1.
     and_then (index_at yuyv_data (yuyv_idx + 3)) (\<lambda>v.
       write_at rgb_buffer rgb_idx (pair_pixels y0 u y1 v)))))"

definition uyvy_pair :: "u8 list \<Rightarrow> usize \<Rightarrow> usize \<Rightarrow> u8 list \<Rightarrow> (u8 list) camera_result" where
  "uyvy_pair uyvy_data uyvy_idx rgb_idx rgb_buffer =
     and_then (index_at uyvy_data uyvy_idx) (\<lambda>u.
     and_then (index_at uyvy_data (uyvy_idx + 1)) (\<lambda>y0.
     and_then (index_at uyvy_data (uyvy_idx + 2)) (\<lambda>v.
     and_then (index_at uyvy_data (uyvy_idx + 3)) (\<lambda>y1.
       write_at rgb_buffer rgb_idx (pair_pixels y0 u y1 v)))))"

section \<open>The loops\<close>

text \<open>\<open>while idx + 3 < data.len() && rgb_idx + 5 < rgb.len()\<close>, with a pair as the body.\<close>

function pair_while ::
  "(usize \<Rightarrow> usize \<Rightarrow> u8 list \<Rightarrow> (u8 list) camera_result) \<Rightarrow> usize \<Rightarrow> usize \<Rightarrow> usize \<Rightarrow> usize \<Rightarrow> u8 list \<Rightarrow>
   (u8 list) camera_result" where
  "pair_while pair data_len rgb_len idx rgb_idx rgb =
     (if idx + 3 < data_len \<and> rgb_idx + 5 < rgb_len
      then and_then (pair idx rgb_idx rgb) (pair_while pair data_len rgb_len (idx + 4) (rgb_idx + 6))
      else Ok rgb)"
  by pat_completeness auto
termination by (relation "measure (\<lambda>(_, n, _, i, _, _). n - i)") auto

declare pair_while.simps [simp del]

definition yuyv_to_rgb_scalar_into :: "u8 list \<Rightarrow> u8 list \<Rightarrow> (u8 list) camera_result" where
  "yuyv_to_rgb_scalar_into yuyv_data rgb_buffer =
     pair_while (yuyv_pair yuyv_data) (length yuyv_data) (length rgb_buffer) 0 0 rgb_buffer"

definition uyvy_to_rgb_scalar_into :: "u8 list \<Rightarrow> u8 list \<Rightarrow> (u8 list) camera_result" where
  "uyvy_to_rgb_scalar_into uyvy_data rgb_buffer =
     pair_while (uyvy_pair uyvy_data) (length uyvy_data) (length rgb_buffer) 0 0 rgb_buffer"

text \<open>The batches: \<open>num_batches\<close> rounds of four pairs, left early when the output is full.\<close>

fun batch_loop ::
  "(usize \<Rightarrow> usize \<Rightarrow> u8 list \<Rightarrow> (u8 list) camera_result) \<Rightarrow> usize \<Rightarrow> usize \<Rightarrow> usize \<Rightarrow> usize \<Rightarrow> u8 list \<Rightarrow>
   (usize \<times> usize \<times> u8 list) camera_result" where
  "batch_loop pair rgb_len 0 idx rgb_idx rgb = Ok (idx, rgb_idx, rgb)"
| "batch_loop pair rgb_len (Suc n) idx rgb_idx rgb =
     (if rgb_idx + 24 > rgb_len then Ok (idx, rgb_idx, rgb)
      else and_then (pair idx rgb_idx rgb) (\<lambda>rgb.
           and_then (pair (idx + 4) (rgb_idx + 6) rgb) (\<lambda>rgb.
           and_then (pair (idx + 8) (rgb_idx + 12) rgb) (\<lambda>rgb.
           and_then (pair (idx + 12) (rgb_idx + 18) rgb)
             (batch_loop pair rgb_len n (idx + 16) (rgb_idx + 24))))))"

definition yuyv_to_rgb_simd_generic :: "u8 list \<Rightarrow> u8 list \<Rightarrow> (u8 list) camera_result" where
  "yuyv_to_rgb_simd_generic yuyv_data rgb_buffer =
     (let yuyv_len = length yuyv_data; rgb_len = length rgb_buffer
      in and_then (batch_loop (yuyv_pair yuyv_data) rgb_len (yuyv_len div 16) 0 0 rgb_buffer)
           (\<lambda>(yuyv_idx, rgb_idx, rgb_buffer).
             pair_while (yuyv_pair yuyv_data) yuyv_len rgb_len yuyv_idx rgb_idx rgb_buffer))"

definition uyvy_to_rgb_simd_generic :: "u8 list \<Rightarrow> u8 list \<Rightarrow> (u8 list) camera_result" where
  "uyvy_to_rgb_simd_generic uyvy_data rgb_buffer =
     (let uyvy_len = length uyvy_data; rgb_len = length rgb_buffer
      in and_then (batch_loop (uyvy_pair uyvy_data) rgb_len (uyvy_len div 16) 0 0 rgb_buffer)
           (\<lambda>(uyvy_idx, rgb_idx, rgb_buffer).
             pair_while (uyvy_pair uyvy_data) uyvy_len rgb_len uyvy_idx rgb_idx rgb_buffer))"

text \<open>Dispatch; \<open>avx2\<close> is the answer of the feature detection.\<close>

definition yuyv_to_rgb_simd_into :: "bool \<Rightarrow> u8 list \<Rightarrow> u8 list \<Rightarrow> (u8 list) camera_result" where
  "yuyv_to_rgb_simd_into avx2 yuyv_data rgb_buffer =
     (if avx2 then packed422_avx2 False 8 0 255 yuyv_data rgb_buffer (256, 359, 88, 183, 454, 0)
      else yuyv_to_rgb_simd_generic yuyv_data rgb_buffer)"

definition uyvy_to_rgb_simd_into :: "bool \<Rightarrow> u8 list \<Rightarrow> u8 list \<Rightarrow> (u8 list) camera_result" where
  "uyvy_to_rgb_simd_into avx2 uyvy_data rgb_buffer =
     (if avx2 then packed422_avx2 True 8 0 255 uyvy_data rgb_buffer (256, 359, 88, 183, 454, 0)
      else uyvy_to_rgb_simd_generic uyvy_data rgb_buffer)"

section \<open>The loops write the same pairs\<close>

text \<open>The fixed-point arithmetic of the kernel, with its rounding of the green channel, agrees with the
  scalar formula.\<close>

lemma shift8:
  assumes "- 2147483648 \<le> n" "n < 2147483648"
  shows "signed_drop_bit 8 (word_of_int n :: i32) = word_of_int (n div 256)"
proof -
  have "sint (signed_drop_bit 8 (word_of_int n :: i32)) = n div 256"
    using sint_word_of_int_small [OF assms] by (simp add: sint_signed_drop_bit_eq drop_bit_eq_div)
  moreover have "sint (word_of_int (n div 256) :: i32) = n div 256"
    by (rule sint_word_of_int_small) (use assms in linarith)+
  ultimately show ?thesis by (intro iffD2 [OF word_eq_iff_signed]) (rule trans, assumption, rule sym)
qed

abbreviation bt601_coefficients :: coefficients where
  "bt601_coefficients \<equiv> (256, 359, 88, 183, 454, 0)"

lemma pair_pixels_lanes:
  "pair_pixels y0 u y1 v =
     lane_pixel 8 0 255 bt601_coefficients y0 u v @ lane_pixel 8 0 255 bt601_coefficients y1 u v"
proof -
  define U V where "U = uint u - 128" and "V = uint v - 128"
  have byte: "0 \<le> uint w \<and> uint w < 256" for w :: u8 using unsigned_less [of w, where 'a = int] by simp
  then have b: "- 128 \<le> U" "U < 128" "- 128 \<le> V" "V < 128"
    using byte [of u] byte [of v] unfolding U_def V_def by linarith+
  have w: "ucast u - 128 = (word_of_int U :: i32)" "ucast v - 128 = (word_of_int V :: i32)"
    by (simp_all add: U_def V_def)
  have lane: "lane_pixel 8 0 255 bt601_coefficients y u v =
      [clamp_u8 (word_of_int (uint y + 359 * V div 256)),
       clamp_u8 (word_of_int (uint y - (88 * U + 183 * V) div 256)),
       clamp_u8 (word_of_int (uint y + 454 * U div 256))]" for y
  proof -
    define Y where "Y = uint y"
    have Y: "0 \<le> Y" "Y < 256" and yw: "ucast y = (word_of_int Y :: i32)" using byte [of y] by (simp_all add: Y_def)
    have "signed_drop_bit 8 ((word_of_int Y - 0) * 256 + (word_of_int V * 359 + 0) :: i32)
        = word_of_int ((Y * 256 + V * 359) div 256)"
      using shift8 [of "Y * 256 + V * 359"] Y b by simp
    moreover have "(Y * 256 + V * 359) div 256 = Y + 359 * V div 256" by (simp add: mult.commute)
    moreover have "signed_drop_bit 8 ((word_of_int Y - 0) * 256 + ((0 - word_of_int U * 88) - word_of_int V * 183 + 255) :: i32)
        = word_of_int ((Y * 256 + (0 - U * 88 - V * 183 + 255)) div 256)"
      using shift8 [of "Y * 256 + (0 - U * 88 - V * 183 + 255)"] Y b by simp
    moreover have "(Y * 256 + (0 - U * 88 - V * 183 + 255)) div 256 = Y - (88 * U + 183 * V) div 256"
      by linarith
    moreover have "signed_drop_bit 8 ((word_of_int Y - 0) * 256 + (word_of_int U * 454 + 0) :: i32)
        = word_of_int ((Y * 256 + U * 454) div 256)"
      using shift8 [of "Y * 256 + U * 454"] Y b by simp
    moreover have "(Y * 256 + U * 454) div 256 = Y + 454 * U div 256" by (simp add: mult.commute)
    ultimately show ?thesis
      unfolding lane_pixel_def prod.case Let_def w yw Y_def [symmetric] by simp
  qed
  have s: "signed_drop_bit 8 (359 * word_of_int V :: i32) = word_of_int (359 * V div 256)"
    "signed_drop_bit 8 (88 * word_of_int U + 183 * word_of_int V :: i32) = word_of_int ((88 * U + 183 * V) div 256)"
    "signed_drop_bit 8 (454 * word_of_int U :: i32) = word_of_int (454 * U div 256)"
    using shift8 [of "359 * V"] shift8 [of "88 * U + 183 * V"] shift8 [of "454 * U"] b by simp_all
  show ?thesis
    unfolding lane pair_pixels_def Let_def w V_TO_R_def U_TO_G_def V_TO_G_def U_TO_B_def s
    by simp
qed

text \<open>What both loops write after \<open>k\<close> pairs.\<close>

definition converter_pixel :: "bool \<Rightarrow> u8 list \<Rightarrow> nat \<Rightarrow> u8 list" where
  "converter_pixel uyvy source i = packed_pixel uyvy 8 0 255 bt601_coefficients source i"

lemma length_converter_pixel [simp]: "length (converter_pixel uyvy source i) = 3"
  by (simp add: converter_pixel_def)

definition packed_pair :: "bool \<Rightarrow> u8 list \<Rightarrow> usize \<Rightarrow> usize \<Rightarrow> u8 list \<Rightarrow> (u8 list) camera_result" where
  "packed_pair uyvy = (if uyvy then uyvy_pair else yuyv_pair)"

lemma write_pair_filled:
  fixes p :: "nat \<Rightarrow> 'a list"
  assumes "\<And>i. length (p i) = 3" "6 * Suc k \<le> length out"
  shows "write_at (filled p (2 * k) out) (6 * k) (p (2 * k) @ p (2 * k + 1))
    = (Ok (filled p (2 * Suc k) out) :: ('a list) camera_result)"
proof -
  have "write_at (filled p (2 * k) out) (6 * k) (p (2 * k)) = (Ok (filled p (Suc (2 * k)) out) :: ('a list) camera_result)"
    "write_at (filled p (Suc (2 * k)) out) (6 * k + 3) (p (Suc (2 * k)))
      = (Ok (filled p (Suc (Suc (2 * k))) out) :: ('a list) camera_result)"
    by (rule write_filled [where c = 3]; use assms in simp)+
  moreover have "write_at (filled p (2 * k) out) (6 * k) (p (2 * k) @ p (2 * k + 1)) =
      (and_then (write_at (filled p (2 * k) out) (6 * k) (p (2 * k))) (\<lambda>xs. write_at xs (6 * k + 3) (p (2 * k + 1)))
        :: ('a list) camera_result)"
    by (rule write_twice [symmetric]) (simp add: assms(1))
  ultimately show ?thesis by simp
qed

lemma packed_pair_filled:
  assumes "4 * Suc k \<le> length source" "6 * Suc k \<le> length out"
  shows "packed_pair uyvy source (4 * k) (6 * k) (filled (converter_pixel uyvy source) (2 * k) out)
    = Ok (filled (converter_pixel uyvy source) (2 * Suc k) out)"
proof -
  let ?p = "converter_pixel uyvy source"
  have "packed_pair uyvy source (4 * k) (6 * k) out' = write_at out' (6 * k) (?p (2 * k) @ ?p (2 * k + 1))" for out'
    using assms(1)
    by (cases uyvy) (simp_all add: packed_pair_def uyvy_pair_def yuyv_pair_def index_at_def pair_pixels_lanes
        converter_pixel_def packed_pixel_def numeral_3_eq_3)
  with write_pair_filled [of ?p k out] assms(2) show ?thesis by simp
qed

lemma pair_while_filled:
  assumes "length out = rgb_len" "length source = data_len"
  shows "k \<le> min (data_len div 4) (rgb_len div 6) \<Longrightarrow>
    pair_while (packed_pair uyvy source) data_len rgb_len (4 * k) (6 * k) (filled (converter_pixel uyvy source) (2 * k) out)
      = Ok (filled (converter_pixel uyvy source) (2 * min (data_len div 4) (rgb_len div 6)) out)"
proof (induction "min (data_len div 4) (rgb_len div 6) - k" arbitrary: k)
  case 0
  then have k: "k = data_len div 4 \<or> k = rgb_len div 6" "min (data_len div 4) (rgb_len div 6) = k" by auto
  from k(1) have "\<not> (4 * k + 3 < data_len \<and> 6 * k + 5 < rgb_len)" by auto
  then show ?case unfolding k(2) by (subst pair_while.simps) (rule if_not_P)
next
  case (Suc n)
  then have k: "Suc k \<le> data_len div 4" "Suc k \<le> rgb_len div 6" by auto
  then have "4 * Suc k \<le> data_len" "6 * Suc k \<le> rgb_len" by auto
  moreover have "pair_while (packed_pair uyvy source) data_len rgb_len (4 * Suc k) (6 * Suc k)
      (filled (converter_pixel uyvy source) (2 * Suc k) out)
    = Ok (filled (converter_pixel uyvy source) (2 * min (data_len div 4) (rgb_len div 6)) out)"
    by (rule Suc(1)) (simp only: diff_Suc Suc(2) [symmetric] nat.case, use k in simp)
  ultimately show ?case
    using packed_pair_filled [of k source out uyvy] assms by (subst pair_while.simps) (simp add: add.commute)
qed

lemma batch_loop_filled:
  assumes "length out = rgb_len" "length source = data_len"
  shows "n + g \<le> data_len div 16 \<Longrightarrow> 24 * g \<le> rgb_len \<Longrightarrow> \<exists>k. k \<le> min (data_len div 4) (rgb_len div 6) \<and>
    batch_loop (packed_pair uyvy source) rgb_len n (16 * g) (24 * g) (filled (converter_pixel uyvy source) (2 * (4 * g)) out)
      = Ok (4 * k, 6 * k, filled (converter_pixel uyvy source) (2 * k) out)"
proof (induction n arbitrary: g)
  case 0
  then have "4 * g \<le> min (data_len div 4) (rgb_len div 6)" by auto
  then show ?case by (intro exI [of _ "4 * g"]) simp
next
  case (Suc n)
  show ?case
  proof (cases "24 * g + 24 > rgb_len")
    case True
    from Suc.prems have "4 * g \<le> min (data_len div 4) (rgb_len div 6)" by auto
    with True show ?thesis by (intro exI [of _ "4 * g"]) simp
  next
    case False
    with Suc.prems have room: "16 * Suc g \<le> data_len" "24 * Suc g \<le> rgb_len" by auto
    have s: "packed_pair uyvy source (16 * g) (24 * g) (filled (converter_pixel uyvy source) (2 * (4 * g)) out)
        = Ok (filled (converter_pixel uyvy source) (8 * g + 2) out)"
      "packed_pair uyvy source (16 * g + 4) (24 * g + 6) (filled (converter_pixel uyvy source) (8 * g + 2) out)
        = Ok (filled (converter_pixel uyvy source) (8 * g + 4) out)"
      "packed_pair uyvy source (16 * g + 8) (24 * g + 12) (filled (converter_pixel uyvy source) (8 * g + 4) out)
        = Ok (filled (converter_pixel uyvy source) (8 * g + 6) out)"
      "packed_pair uyvy source (16 * g + 12) (24 * g + 18) (filled (converter_pixel uyvy source) (8 * g + 6) out)
        = Ok (filled (converter_pixel uyvy source) (8 * g + 8) out)"
      using packed_pair_filled [of "4 * g" source out uyvy] packed_pair_filled [of "4 * g + 1" source out uyvy]
        packed_pair_filled [of "4 * g + 2" source out uyvy] packed_pair_filled [of "4 * g + 3" source out uyvy]
        room assms
      by (simp_all add: algebra_simps eval_nat_numeral)
    have "batch_loop (packed_pair uyvy source) rgb_len (Suc n) (16 * g) (24 * g)
        (filled (converter_pixel uyvy source) (2 * (4 * g)) out)
      = batch_loop (packed_pair uyvy source) rgb_len n (16 * Suc g) (24 * Suc g)
        (filled (converter_pixel uyvy source) (2 * (4 * Suc g)) out)"
      unfolding batch_loop.simps if_not_P [OF False] s and_then.simps by (simp add: add.commute)
    moreover have "n + Suc g \<le> data_len div 16" using Suc.prems by simp
    ultimately show ?thesis using Suc.IH [of "Suc g"] room(2) by simp
  qed
qed

lemma converter_routines:
  defines "result source uyvy rgb \<equiv>
    filled (converter_pixel uyvy source) (2 * min (length source div 4) (length rgb div 6)) rgb"
  shows "yuyv_to_rgb_scalar_into source rgb = Ok (result source False rgb)"
    "uyvy_to_rgb_scalar_into source rgb = Ok (result source True rgb)"
    "yuyv_to_rgb_simd_into avx2 source rgb = Ok (result source False rgb)"
    "uyvy_to_rgb_simd_into avx2 source rgb = Ok (result source True rgb)"
proof -
  have scalar: "pair_while (packed_pair uyvy source) (length source) (length rgb) 0 0 rgb = Ok (result source uyvy rgb)"
    for uyvy
    using pair_while_filled [OF refl refl, of 0 source rgb uyvy] by (simp add: result_def)
  from scalar [of False] scalar [of True]
  show "yuyv_to_rgb_scalar_into source rgb = Ok (result source False rgb)"
    "uyvy_to_rgb_scalar_into source rgb = Ok (result source True rgb)"
    by (simp_all add: yuyv_to_rgb_scalar_into_def uyvy_to_rgb_scalar_into_def packed_pair_def)
  have batched: "and_then (batch_loop (packed_pair uyvy source) (length rgb) (length source div 16) 0 0 rgb)
     (\<lambda>(i, j, rgb'). pair_while (packed_pair uyvy source) (length source) (length rgb) i j rgb')
    = Ok (result source uyvy rgb)" for uyvy
    using batch_loop_filled [OF refl refl, of "length source div 16" 0 source rgb uyvy]
      pair_while_filled [OF refl refl, of _ source rgb uyvy]
    by (auto simp: result_def)
  have kernel: "packed422_avx2 uyvy 8 0 255 source rgb bt601_coefficients
    = (Ok (result source uyvy rgb) :: (u8 list) camera_result)" for uyvy
    by (simp add: packed422_filled result_def) (simp add: filled_def converter_pixel_def cong: parts_cong)
  show "yuyv_to_rgb_simd_into avx2 source rgb = Ok (result source False rgb)"
    "uyvy_to_rgb_simd_into avx2 source rgb = Ok (result source True rgb)"
    using batched [of False] batched [of True] kernel [of False] kernel [of True]
    by (simp_all add: yuyv_to_rgb_simd_into_def uyvy_to_rgb_simd_into_def yuyv_to_rgb_simd_generic_def
        uyvy_to_rgb_simd_generic_def packed_pair_def Let_def)
qed

section \<open>Sizes\<close>

definition checked_pixels :: "u32 \<Rightarrow> u32 \<Rightarrow> usize camera_result" where
  "checked_pixels width height =
     (if width = 0 \<or> height = 0
      then Err (invalid_frame (''Frame dimensions must be non-zero: '' @ show_nat (unat width) @ ''x'' @ show_nat (unat height)))
      else ok_or (checked_mul (unat width) (unat height))
        (invalid_frame (''Frame dimensions are too large: '' @ show_nat (unat width) @ ''x'' @ show_nat (unat height))))"

definition checked_packed_422_pixel_count :: "u32 \<Rightarrow> u32 \<Rightarrow> string \<Rightarrow> usize camera_result" where
  "checked_packed_422_pixel_count width height format =
     (if unat width mod 2 \<noteq> 0
      then Err (invalid_frame (format @ '' frame width must be even for packed 4:2:2 data: '' @ show_nat (unat width)))
      else checked_pixels width height)"

definition checked_frame_size :: "usize \<Rightarrow> usize \<Rightarrow> string \<Rightarrow> usize camera_result" where
  "checked_frame_size pixel_count bytes format =
     ok_or (checked_mul pixel_count bytes)
       (invalid_frame (format @ '' frame size is too large: '' @ show_nat pixel_count @ '' pixels * ''
         @ show_nat bytes @ '' bytes''))"

section \<open>ColorConverter\<close>

record color_convert_options =
  use_simd :: bool

definition color_convert_options_default :: color_convert_options where
  "color_convert_options_default = \<lparr>use_simd = True\<rparr>"

record color_converter =
  converter_options :: color_convert_options

definition color_converter_new :: color_converter where
  "color_converter_new = \<lparr>converter_options = color_convert_options_default\<rparr>"

definition color_converter_with_options :: "color_convert_options \<Rightarrow> color_converter" where
  "color_converter_with_options options = \<lparr>converter_options = options\<rparr>"

definition data_size_mismatch :: "string \<Rightarrow> usize \<Rightarrow> usize \<Rightarrow> camera_error" where
  "data_size_mismatch format expected got =
     invalid_frame (format @ '' data size mismatch: expected '' @ show_nat expected @ '', got '' @ show_nat got)"

definition rgb_too_small :: "usize \<Rightarrow> usize \<Rightarrow> camera_error" where
  "rgb_too_small expected got =
     invalid_frame (''RGB buffer too small: expected '' @ show_nat expected @ '', got '' @ show_nat got)"

definition yuyv_to_rgb_into ::
  "bool \<Rightarrow> color_converter \<Rightarrow> u8 list \<Rightarrow> u32 \<Rightarrow> u32 \<Rightarrow> u8 list \<Rightarrow> (u8 list) camera_result" where
  "yuyv_to_rgb_into avx2 self yuyv_data width height rgb_buffer =
     and_then (checked_packed_422_pixel_count width height ''YUYV'') (\<lambda>pixel_count.
     and_then (checked_frame_size pixel_count 2 ''YUYV'') (\<lambda>expected_yuyv_size.
     and_then (checked_frame_size pixel_count 3 ''RGB'') (\<lambda>expected_rgb_size.
     if length yuyv_data < expected_yuyv_size
     then Err (data_size_mismatch ''YUYV'' expected_yuyv_size (length yuyv_data))
     else if length rgb_buffer < expected_rgb_size
     then Err (rgb_too_small expected_rgb_size (length rgb_buffer))
     else and_then (slice_at yuyv_data 0 expected_yuyv_size) (\<lambda>yuyv_data.
       modify_slice rgb_buffer 0 expected_rgb_size (\<lambda>rgb_buffer.
         if use_simd (converter_options self) then yuyv_to_rgb_simd_into avx2 yuyv_data rgb_buffer
         else yuyv_to_rgb_scalar_into yuyv_data rgb_buffer)))))"

definition uyvy_to_rgb_into ::
  "bool \<Rightarrow> color_converter \<Rightarrow> u8 list \<Rightarrow> u32 \<Rightarrow> u32 \<Rightarrow> u8 list \<Rightarrow> (u8 list) camera_result" where
  "uyvy_to_rgb_into avx2 self uyvy_data width height rgb_buffer =
     and_then (checked_packed_422_pixel_count width height ''UYVY'') (\<lambda>pixel_count.
     and_then (checked_frame_size pixel_count 2 ''UYVY'') (\<lambda>expected_uyvy_size.
     and_then (checked_frame_size pixel_count 3 ''RGB'') (\<lambda>expected_rgb_size.
     if length uyvy_data < expected_uyvy_size
     then Err (data_size_mismatch ''UYVY'' expected_uyvy_size (length uyvy_data))
     else if length rgb_buffer < expected_rgb_size
     then Err (rgb_too_small expected_rgb_size (length rgb_buffer))
     else and_then (slice_at uyvy_data 0 expected_uyvy_size) (\<lambda>uyvy_data.
       modify_slice rgb_buffer 0 expected_rgb_size (\<lambda>rgb_buffer.
         if use_simd (converter_options self) then uyvy_to_rgb_simd_into avx2 uyvy_data rgb_buffer
         else uyvy_to_rgb_scalar_into uyvy_data rgb_buffer)))))"

text \<open>The allocating variants; \<open>vec![0u8; n]\<close> is a list of zeroes.\<close>

definition yuyv_to_rgb :: "bool \<Rightarrow> color_converter \<Rightarrow> u8 list \<Rightarrow> u32 \<Rightarrow> u32 \<Rightarrow> (u8 list) camera_result" where
  "yuyv_to_rgb avx2 self yuyv_data width height =
     and_then (checked_packed_422_pixel_count width height ''YUYV'') (\<lambda>pixel_count.
     and_then (checked_frame_size pixel_count 2 ''YUYV'') (\<lambda>expected_yuyv_size.
     and_then (checked_frame_size pixel_count 3 ''RGB'') (\<lambda>expected_rgb_size.
     if length yuyv_data < expected_yuyv_size
     then Err (data_size_mismatch ''YUYV'' expected_yuyv_size (length yuyv_data))
     else
       let rgb = replicate expected_rgb_size 0
       in and_then (slice_at yuyv_data 0 expected_yuyv_size) (\<lambda>yuyv_data.
         if use_simd (converter_options self) then yuyv_to_rgb_simd_into avx2 yuyv_data rgb
         else yuyv_to_rgb_scalar_into yuyv_data rgb))))"

definition uyvy_to_rgb :: "bool \<Rightarrow> color_converter \<Rightarrow> u8 list \<Rightarrow> u32 \<Rightarrow> u32 \<Rightarrow> (u8 list) camera_result" where
  "uyvy_to_rgb avx2 self uyvy_data width height =
     and_then (checked_packed_422_pixel_count width height ''UYVY'') (\<lambda>pixel_count.
     and_then (checked_frame_size pixel_count 2 ''UYVY'') (\<lambda>expected_uyvy_size.
     and_then (checked_frame_size pixel_count 3 ''RGB'') (\<lambda>expected_rgb_size.
     if length uyvy_data < expected_uyvy_size
     then Err (data_size_mismatch ''UYVY'' expected_uyvy_size (length uyvy_data))
     else
       let rgb = replicate expected_rgb_size 0
       in and_then (slice_at uyvy_data 0 expected_uyvy_size) (\<lambda>uyvy_data.
         if use_simd (converter_options self) then uyvy_to_rgb_simd_into avx2 uyvy_data rgb
         else uyvy_to_rgb_scalar_into uyvy_data rgb))))"

text \<open>The routines of the module that use a default converter.\<close>

definition default_yuyv_to_rgb :: "bool \<Rightarrow> u8 list \<Rightarrow> u32 \<Rightarrow> u32 \<Rightarrow> (u8 list) camera_result" where
  "default_yuyv_to_rgb avx2 = yuyv_to_rgb avx2 color_converter_new"

definition default_uyvy_to_rgb :: "bool \<Rightarrow> u8 list \<Rightarrow> u32 \<Rightarrow> u32 \<Rightarrow> (u8 list) camera_result" where
  "default_uyvy_to_rgb avx2 = uyvy_to_rgb avx2 color_converter_new"

definition default_yuyv_to_rgb_into ::
  "bool \<Rightarrow> u8 list \<Rightarrow> u32 \<Rightarrow> u32 \<Rightarrow> u8 list \<Rightarrow> (u8 list) camera_result" where
  "default_yuyv_to_rgb_into avx2 = yuyv_to_rgb_into avx2 color_converter_new"

definition default_uyvy_to_rgb_into ::
  "bool \<Rightarrow> u8 list \<Rightarrow> u32 \<Rightarrow> u32 \<Rightarrow> u8 list \<Rightarrow> (u8 list) camera_result" where
  "default_uyvy_to_rgb_into avx2 = uyvy_to_rgb_into avx2 color_converter_new"

section \<open>What a converter writes\<close>

definition converter_accepts :: "u32 \<Rightarrow> u32 \<Rightarrow> u8 list \<Rightarrow> u8 list \<Rightarrow> bool" where
  "converter_accepts width height data rgb \<longleftrightarrow>
     even (unat width) \<and> 0 < unat width \<and> 0 < unat height \<and>
     2 * (unat width * unat height) \<le> length data \<and> 3 * (unat width * unat height) \<le> length rgb"

lemma converter_pixel_take:
  assumes "i < n" "even n" "2 * n \<le> length source"
  shows "converter_pixel uyvy (take (2 * n) source) i = converter_pixel uyvy source i"
proof -
  have "4 * (i div 2) + 3 < 2 * n" using assms(1,2) by presburger
  moreover have "2 * i + 1 < 2 * n" using assms(1) by simp
  ultimately show ?thesis by (simp add: converter_pixel_def packed_pixel_def)
qed

lemma converter_run:
  assumes n: "even n" "2 * n \<le> length data" "3 * n \<le> length rgb"
    and run: "\<And>out. length out = 3 * n \<Longrightarrow> convert (take (2 * n) data) out =
      Ok (filled (converter_pixel uyvy (take (2 * n) data)) (2 * min (length (take (2 * n) data) div 4) (length out div 6)) out)"
  shows "and_then (slice_at data 0 (n * 2)) (\<lambda>data. modify_slice rgb 0 (n * 3) (convert data))
    = (Ok (filled (converter_pixel uyvy data) n rgb) :: (u8 list) camera_result)"
proof -
  let ?p = "converter_pixel uyvy data" and ?q = "converter_pixel uyvy (take (2 * n) data)"
  have pairs: "2 * min (length (take (2 * n) data) div 4) (3 * n div 6) = n" using n by (auto elim: evenE)
  have eq: "parts ?q n = parts ?p n" by (rule parts_cong) (rule converter_pixel_take [OF _ n(1,2)])
  have "length (parts ?q n) = 3 * n" by (simp add: length_parts)
  then have all: "filled ?q n (take (3 * n) rgb) = parts ?p n"
    using n(3) eq filled_all [of ?q n "take (3 * n) rgb"] by simp
  have out: "length (take (3 * n) rgb) = 3 * n" using n(3) by simp
  have "convert (take (2 * n) data) (take (3 * n) rgb) = Ok (parts ?p n)"
    using run [OF out] unfolding out pairs all .
  moreover have "slice_at data 0 (n * 2) = (Ok (take (2 * n) data) :: (u8 list) camera_result)"
    using n(2) by (simp add: slice_at_def slice_get_def unwrap_def mult.commute)
  moreover have "length (parts ?p n) = 3 * n" by (simp add: length_parts)
  ultimately show ?thesis
    using n(3) by (simp add: modify_slice_def sub_slice_def overwrite_def filled_def mult.commute)
qed

lemma converter_sizes:
  assumes bounds: "length data < usize_bound" "length rgb < usize_bound"
    and ok: "converter_accepts width height data rgb \<Longrightarrow>
      rest (unat width * unat height * 2) (unat width * unat height * 3) = Ok result"
  shows "if converter_accepts width height data rgb
    then and_then (checked_packed_422_pixel_count width height format) (\<lambda>pixel_count.
       and_then (checked_frame_size pixel_count 2 format) (\<lambda>expected.
       and_then (checked_frame_size pixel_count 3 ''RGB'') (\<lambda>expected_rgb.
       if length data < expected then Err (data_size_mismatch format expected (length data))
       else if length rgb < expected_rgb then Err (rgb_too_small expected_rgb (length rgb))
       else rest expected expected_rgb))) = Ok result
    else \<exists>m. and_then (checked_packed_422_pixel_count width height format) (\<lambda>pixel_count.
       and_then (checked_frame_size pixel_count 2 format) (\<lambda>expected.
       and_then (checked_frame_size pixel_count 3 ''RGB'') (\<lambda>expected_rgb.
       if length data < expected then Err (data_size_mismatch format expected (length data))
       else if length rgb < expected_rgb then Err (rgb_too_small expected_rgb (length rgb))
       else rest expected expected_rgb))) = Err (invalid_frame m)"
proof (cases "odd (unat width) \<or> width = 0 \<or> height = 0")
  case True
  then have "\<not> converter_accepts width height data rgb" by (auto simp: converter_accepts_def)
  moreover have "\<exists>m. checked_packed_422_pixel_count width height format = Err (invalid_frame m)"
    using True by (auto simp: checked_packed_422_pixel_count_def checked_pixels_def odd_iff_mod_2_eq_one even_iff_mod_2_eq_zero)
  ultimately show ?thesis by auto
next
  case False
  define n where "n = unat width * unat height"
  have pos: "0 < unat width" "0 < unat height" using False by (simp_all add: unat_gt_0)
  have "checked_mul (unat width) (unat height) = Some n"
    using unat_u32_mult_bound [of width height] by (simp add: checked_mul_def n_def)
  then have count: "checked_packed_422_pixel_count width height format = Ok n"
    using False by (simp add: checked_packed_422_pixel_count_def checked_pixels_def ok_or_def even_iff_mod_2_eq_zero)
  have accepts: "converter_accepts width height data rgb \<longleftrightarrow> 2 * n \<le> length data \<and> 3 * n \<le> length rgb"
    using False pos by (auto simp: converter_accepts_def n_def)
  show ?thesis
    using ok bounds unfolding accepts count and_then.simps checked_frame_size_def checked_mul_def n_def [symmetric]
    by (auto simp: ok_or_def data_size_mismatch_def rgb_too_small_def)
qed

lemma converter_into:
  assumes bounds: "length data < usize_bound" "length rgb < usize_bound"
  shows "if converter_accepts width height data rgb
    then yuyv_to_rgb_into avx2 self data width height rgb
        = Ok (filled (converter_pixel False data) (unat width * unat height) rgb)
      \<and> uyvy_to_rgb_into avx2 self data width height rgb
        = Ok (filled (converter_pixel True data) (unat width * unat height) rgb)
    else (\<exists>m. yuyv_to_rgb_into avx2 self data width height rgb = Err (invalid_frame m))
      \<and> (\<exists>m. uyvy_to_rgb_into avx2 self data width height rgb = Err (invalid_frame m))"
proof -
  define n where "n = unat width * unat height"
  have size: "even n \<and> 2 * n \<le> length data \<and> 3 * n \<le> length rgb" if "converter_accepts width height data rgb"
    using that by (simp add: converter_accepts_def n_def)
  have yuyv: "and_then (slice_at data 0 (n * 2)) (\<lambda>data. modify_slice rgb 0 (n * 3) (\<lambda>rgb.
       if use_simd (converter_options self) then yuyv_to_rgb_simd_into avx2 data rgb
       else yuyv_to_rgb_scalar_into data rgb)) = Ok (filled (converter_pixel False data) n rgb)"
    if "converter_accepts width height data rgb"
    using size [OF that] by (intro converter_run) (auto simp: converter_routines)
  have uyvy: "and_then (slice_at data 0 (n * 2)) (\<lambda>data. modify_slice rgb 0 (n * 3) (\<lambda>rgb.
       if use_simd (converter_options self) then uyvy_to_rgb_simd_into avx2 data rgb
       else uyvy_to_rgb_scalar_into data rgb)) = Ok (filled (converter_pixel True data) n rgb)"
    if "converter_accepts width height data rgb"
    using size [OF that] by (intro converter_run) (auto simp: converter_routines)
  note a = converter_sizes [where rest = "\<lambda>a b. and_then (slice_at data 0 a) (\<lambda>data. modify_slice rgb 0 b (\<lambda>rgb.
       if use_simd (converter_options self) then yuyv_to_rgb_simd_into avx2 data rgb
       else yuyv_to_rgb_scalar_into data rgb))", OF bounds yuyv [unfolded n_def], of "''YUYV''"]
    and b = converter_sizes [where rest = "\<lambda>a b. and_then (slice_at data 0 a) (\<lambda>data. modify_slice rgb 0 b (\<lambda>rgb.
       if use_simd (converter_options self) then uyvy_to_rgb_simd_into avx2 data rgb
       else uyvy_to_rgb_scalar_into data rgb))", OF bounds uyvy [unfolded n_def], of "''UYVY''"]
  show ?thesis
    using a b unfolding yuyv_to_rgb_into_def uyvy_to_rgb_into_def by (simp split: if_splits)
qed

end
