(* ===== verification/Color_8888.thy ===== *)
theory Color_8888
  imports Color_Half
begin

text \<open>
  Dropping the alpha channel of packed 8888 images (\<open>src/utils/color_convert.rs\<close>).  The byte offsets
  of the three channels are the const parameters \<open>R\<close>, \<open>G\<close> and \<open>B\<close>; \<open>avx2\<close> and \<open>has_ssse3\<close>
  are the answers of the feature detection.
\<close>

definition packed_8888_checks ::
  "u8 list \<Rightarrow> usize \<Rightarrow> usize \<Rightarrow> usize \<Rightarrow> u8 list \<Rightarrow> (usize \<times> usize) camera_result" where
  "packed_8888_checks packed width height packed_stride rgb =
     and_then (ok_or (checked_mul width 4) (invalid_frame ''packed 8888 size overflow'')) (\<lambda>packed_row_bytes.
     and_then (ok_or (checked_mul width 3) (invalid_frame ''RGB size overflow'')) (\<lambda>rgb_row_bytes.
     if width = 0 \<or> height = 0 \<or> packed_stride < packed_row_bytes
     then Err (invalid_frame ''invalid packed 8888 dimensions or stride'')
     else
       and_then (ok_or (Option.bind (checked_mul (height - 1) packed_stride) (\<lambda>n. checked_add n packed_row_bytes))
         (invalid_frame ''packed 8888 size overflow'')) (\<lambda>required_packed.
       and_then (ok_or (checked_mul height rgb_row_bytes) (invalid_frame ''RGB size overflow'')) (\<lambda>required_rgb.
       if length packed < required_packed \<or> length rgb < required_rgb
       then Err (invalid_frame ''packed 8888 or RGB buffer is too small'')
       else Ok (packed_row_bytes, rgb_row_bytes)))))"

definition packed_8888_row ::
  "bool \<Rightarrow> bool \<Rightarrow> nat \<Rightarrow> nat \<Rightarrow> nat \<Rightarrow> u8 list \<Rightarrow> usize \<Rightarrow> usize \<Rightarrow> usize \<Rightarrow> usize \<Rightarrow> u8 list \<Rightarrow> (u8 list) camera_result" where
  "packed_8888_row avx2 ssse3 r g b packed width packed_stride packed_row_bytes row destination =
     and_then (sub_slice packed (row * packed_stride) packed_row_bytes) (\<lambda>source.
     and_then
       (if avx2 then packed_8888_row_avx2 r g b source destination
        else if ssse3 then packed_8888_row_ssse3 r g b source destination
        else Ok (0, destination))
       (half_columns (\<lambda>x.
          and_then (sub_slice source (x * 4) 4) (\<lambda>source_pixel.
          and_then (index_at source_pixel r) (\<lambda>red.
          and_then (index_at source_pixel g) (\<lambda>green.
          and_then (index_at source_pixel b) (\<lambda>blue. Ok [red, green, blue]))))) width))"

definition packed_8888_to_rgb_into ::
  "bool \<Rightarrow> bool \<Rightarrow> nat \<Rightarrow> nat \<Rightarrow> nat \<Rightarrow> u8 list \<Rightarrow> usize \<Rightarrow> usize \<Rightarrow> usize \<Rightarrow> u8 list \<Rightarrow> (u8 list) camera_result" where
  "packed_8888_to_rgb_into avx2 has_ssse3 r g b packed width height packed_stride rgb =
     and_then (packed_8888_checks packed width height packed_stride rgb) (\<lambda>(packed_row_bytes, rgb_row_bytes).
       let ssse3 = \<not> avx2 \<and> has_ssse3
       in for_rows height rgb_row_bytes
            (packed_8888_row avx2 ssse3 r g b packed width packed_stride packed_row_bytes) rgb)"

definition rgba8888_to_rgb_into ::
  "bool \<Rightarrow> bool \<Rightarrow> u8 list \<Rightarrow> usize \<Rightarrow> usize \<Rightarrow> usize \<Rightarrow> u8 list \<Rightarrow> (u8 list) camera_result" where
  "rgba8888_to_rgb_into avx2 has_ssse3 = packed_8888_to_rgb_into avx2 has_ssse3 0 1 2"

definition bgra8888_to_rgb_into ::
  "bool \<Rightarrow> bool \<Rightarrow> u8 list \<Rightarrow> usize \<Rightarrow> usize \<Rightarrow> usize \<Rightarrow> u8 list \<Rightarrow> (u8 list) camera_result" where
  "bgra8888_to_rgb_into avx2 has_ssse3 = packed_8888_to_rgb_into avx2 has_ssse3 2 1 0"

definition argb8888_to_rgb_into ::
  "bool \<Rightarrow> bool \<Rightarrow> u8 list \<Rightarrow> usize \<Rightarrow> usize \<Rightarrow> usize \<Rightarrow> u8 list \<Rightarrow> (u8 list) camera_result" where
  "argb8888_to_rgb_into avx2 has_ssse3 = packed_8888_to_rgb_into avx2 has_ssse3 1 2 3"

section \<open>The image\<close>

definition packed_8888_accepts :: "u8 list \<Rightarrow> nat \<Rightarrow> nat \<Rightarrow> nat \<Rightarrow> u8 list \<Rightarrow> bool" where
  "packed_8888_accepts packed width height stride rgb \<longleftrightarrow>
     0 < width \<and> 0 < height \<and> 4 * width \<le> stride \<and>
     (height - 1) * stride + 4 * width \<le> length packed \<and> 3 * (width * height) \<le> length rgb"

definition packed_8888_reference :: "nat \<Rightarrow> nat \<Rightarrow> nat \<Rightarrow> u8 list \<Rightarrow> nat \<Rightarrow> nat \<Rightarrow> nat \<Rightarrow> u8 list" where
  "packed_8888_reference r g b packed stride width i =
     (let pixel = (i div width) * stride + 4 * (i mod width)
      in [packed ! (pixel + r), packed ! (pixel + g), packed ! (pixel + b)])"

lemma length_packed_8888_reference [simp]: "length (packed_8888_reference r g b packed stride width i) = 3"
  by (simp add: packed_8888_reference_def Let_def)

lemma length_take_drop: "a + n \<le> length xs \<Longrightarrow> length (take n (drop a xs)) = n"
  by simp

lemma packed_8888_row_parts:
  assumes accepts: "packed_8888_accepts packed width height stride rgb" and row: "row < height"
    and out: "length out = 3 * width" and c: "r < 4" "g < 4" "b < 4"
  shows "packed_8888_row avx2 ssse3 r g b packed width stride (width * 4) row out
    = Ok (parts (\<lambda>i. packed_8888_reference r g b packed stride width (width * row + i)) width)"
proof -
  have "row * stride \<le> (height - 1) * stride" using row by (intro mult_le_mono1) simp
  then have room: "row * stride + 4 * width \<le> length packed"
    using accepts unfolding packed_8888_accepts_def by linarith
  let ?s = "take (4 * width) (drop (row * stride) packed)"
  let ?p = "packed_8888_pixel r g b ?s"
  have s: "sub_slice packed (row * stride) (width * 4) = (Ok ?s :: (u8 list) camera_result)" "length ?s = 4 * width"
    using room by (simp_all add: sub_slice_def mult.commute)
  have eq: "parts ?p width = parts (\<lambda>i. packed_8888_reference r g b packed stride width (width * row + i)) width"
    by (rule parts_cong) (use c room in \<open>simp add: packed_8888_pixel_def packed_8888_reference_def Let_def add.assoc\<close>)
  have columns: "half_columns (\<lambda>x.
          and_then (sub_slice ?s (x * 4) 4) (\<lambda>source_pixel.
          and_then (index_at source_pixel r) (\<lambda>red.
          and_then (index_at source_pixel g) (\<lambda>green.
          and_then (index_at source_pixel b) (\<lambda>blue. Ok [red, green, blue]))))) width (start, filled ?p start out)
      = (Ok (parts ?p width) :: (u8 list) camera_result)" if "start \<le> width" for start
  proof (rule half_columns_filled [OF that out])
    fix x
    assume "x < width"
    then have x: "x * 4 + 4 \<le> length ?s" unfolding s(2) by linarith
    define pixel where "pixel = take 4 (drop (4 * x) ?s)"
    have pixel: "length pixel = 4" "i < 4 \<Longrightarrow> pixel ! i = ?s ! (4 * x + i)" for i
      unfolding pixel_def mult.commute [of 4 x] by (rule length_take_drop [OF x]) (rule nth_take_drop [OF _ x])
    have slice: "sub_slice ?s (x * 4) 4 = (Ok pixel :: (u8 list) camera_result)"
      unfolding pixel_def mult.commute [of 4 x] by (rule sub_slice_Ok [OF x])
    show "and_then (sub_slice ?s (x * 4) 4) (\<lambda>source_pixel.
          and_then (index_at source_pixel r) (\<lambda>red.
          and_then (index_at source_pixel g) (\<lambda>green.
          and_then (index_at source_pixel b) (\<lambda>blue. Ok [red, green, blue])))) = (Ok (?p x) :: (u8 list) camera_result)"
      unfolding slice and_then.simps index_at_def packed_8888_pixel_def using c by (simp add: pixel del: nth_take)
  qed simp
  have avx: "min (length ?s div 32) (length out div 24) * 8 \<le> width"
    and sse: "min (length ?s div 16) (length out div 12) * 4 \<le> width"
    unfolding s(2) out by linarith+
  consider avx2 | "\<not> avx2" ssse3 | "\<not> avx2" "\<not> ssse3" by blast
  then show ?thesis
  proof cases
    case 1
    show ?thesis
      unfolding packed_8888_row_def s(1) and_then.simps if_P [OF 1] packed_8888_avx2_filled [OF refl c]
        eq [symmetric] mult.commute [of 8]
      by (rule columns [OF avx])
  next
    case 2
    show ?thesis
      unfolding packed_8888_row_def s(1) and_then.simps if_not_P [OF 2(1)] if_P [OF 2(2)]
        packed_8888_ssse3_filled [OF refl c] eq [symmetric] mult.commute [of 4 "min _ _"]
      by (rule columns [OF sse])
  next
    case 3
    show ?thesis
      using columns [of 0]
      unfolding packed_8888_row_def s(1) and_then.simps if_not_P [OF 3(1)] if_not_P [OF 3(2)] eq by simp
  qed
qed

lemma packed_8888_total:
  assumes bounds: "length packed < usize_bound" "length rgb < usize_bound" and c: "r < 4" "g < 4" "b < 4"
  shows "if packed_8888_accepts packed width height stride rgb
    then packed_8888_to_rgb_into avx2 has_ssse3 r g b packed width height stride rgb
      = Ok (filled (packed_8888_reference r g b packed stride width) (width * height) rgb)
    else \<exists>m. packed_8888_to_rgb_into avx2 has_ssse3 r g b packed width height stride rgb = Err (invalid_frame m)"
proof -
  have "if packed_8888_accepts packed width height stride rgb
    then packed_8888_checks packed width height stride rgb = Ok (width * 4, width * 3)
    else (\<exists>m. packed_8888_checks packed width height stride rgb = Err (invalid_frame m))"
  proof (cases "width = 0 \<or> height = 0 \<or> stride < width * 4")
    case True
    then show ?thesis by (auto simp: packed_8888_checks_def packed_8888_accepts_def ok_or_def checked_mul_def)
  next
    case False
    define a where "a = (height - 1) * stride"
    have small: "width * 4 < usize_bound \<and> width * 3 < usize_bound"
      if "packed_8888_accepts packed width height stride rgb"
      using that bounds unfolding packed_8888_accepts_def by linarith
    have r: "height * (width * 3) = 3 * (width * height)" by simp
    from False show ?thesis
      using bounds small
      unfolding packed_8888_checks_def ok_or_def checked_mul_def checked_add_def a_def [symmetric] r
      by (auto simp: packed_8888_accepts_def a_def [unfolded One_nat_def, symmetric] r)
  qed
  moreover have "for_rows height (width * 3) (packed_8888_row avx2 ssse3 r g b packed width stride (width * 4)) rgb
      = Ok (filled (packed_8888_reference r g b packed stride width) (width * height) rgb)"
    if accepts: "packed_8888_accepts packed width height stride rgb" for ssse3
  proof (rule for_rows_filled)
    show "3 * (width * height) \<le> length rgb" using accepts by (simp add: packed_8888_accepts_def)
    show "width * 3 = 3 * width" by simp
    show "packed_8888_row avx2 ssse3 r g b packed width stride (width * 4) row out
      = Ok (parts (\<lambda>i. packed_8888_reference r g b packed stride width (width * row + i)) width)"
      if "row < height" "length out = 3 * width" for row out
      by (rule packed_8888_row_parts [OF accepts that c])
  qed simp
  ultimately show ?thesis
    by (auto simp: packed_8888_to_rgb_into_def Let_def split: if_splits)
qed

end
