(* ===== verification/Color_Properties.thy ===== *)
theory Color_Properties
  imports Color_Yuv422 Color_Converter Color_8888
begin

text \<open>
  The properties of the colour conversions.  A slice in Rust is shorter than \<open>usize_bound\<close>; the
  answers of the CPU feature detection are universally quantified, so every statement also says that
  the vector kernels and the scalar code write the same bytes.
\<close>

lemma small_bound: "n < 4294967296 \<Longrightarrow> n < usize_bound"
  by (simp add: usize_bound_def)

lemma parts_two: "parts p 2 = p 0 @ p (1 :: nat)"
  by (simp add: numeral_2_eq_2 parts_Suc)

text \<open>C13: Converting a planar 4:2:0 image succeeds exactly when each plane covers the image and the
  output holds it; then every pixel is the fixed-point formula of its luma sample and of the chroma
  sample shared by its 2x2 block, whatever the strides, the parity of the dimensions and the CPU, and
  the bytes after the image are untouched.  Otherwise the result is an invalid-frame error: no input
  panics.\<close>

theorem yuv420_conversion_exact:
  assumes "length (yp_data y) < usize_bound" "length (yp_data u) < usize_bound"
    "length (yp_data v) < usize_bound" "length rgb < usize_bound"
  shows "if yuv420_accepts y u v width height rgb
    then yuv420_to_rgb_with_coefficients_into avx2 y u v width height c rgb
      = Ok (filled (\<lambda>i. let row = i div width; column = i mod width
          in yuv_pixel c (plane_sample y row column) (plane_sample u (row div 2) (column div 2))
               (plane_sample v (row div 2) (column div 2))) (width * height) rgb)
    else \<exists>m. yuv420_to_rgb_with_coefficients_into avx2 y u v width height c rgb = Err (invalid_frame m)"
proof -
  have "(\<lambda>i. let row = i div width; column = i mod width
      in yuv_pixel c (plane_sample y row column) (plane_sample u (row div 2) (column div 2))
           (plane_sample v (row div 2) (column div 2))) = reference_pixel c y u v width"
    by (rule ext) (simp add: reference_pixel_def)
  with yuv420_total [OF assms] show ?thesis by simp
qed

lemma yuv420_conversion_exact_witness:
  "yuv420_to_rgb_with_coefficients_into True \<lparr>yp_data = [10, 200, 0], yp_row_stride = 3, yp_pixel_stride = 1\<rparr>
     \<lparr>yp_data = [128], yp_row_stride = 1, yp_pixel_stride = 1\<rparr>
     \<lparr>yp_data = [228], yp_row_stride = 1, yp_pixel_stride = 1\<rparr> 2 1 BT601_FULL_COEFFICIENTS [0, 0, 0, 0, 0, 0, 7]
   = Ok (yuv_pixel BT601_FULL_COEFFICIENTS 10 128 228 @ yuv_pixel BT601_FULL_COEFFICIENTS 200 128 228 @ [7])"
proof -
  let ?y = "\<lparr>yp_data = [10, 200, 0 :: u8], yp_row_stride = 3, yp_pixel_stride = 1\<rparr>"
  let ?u = "\<lparr>yp_data = [128 :: u8], yp_row_stride = 1, yp_pixel_stride = 1\<rparr>"
  let ?v = "\<lparr>yp_data = [228 :: u8], yp_row_stride = 1, yp_pixel_stride = 1\<rparr>"
  have "yuv420_accepts ?y ?u ?v 2 1 [0, 0, 0, 0, 0, 0, 7]"
    by (simp add: yuv420_accepts_def plane_covers_def div_ceil_def)
  with yuv420_conversion_exact [of ?y ?u ?v "[0, 0, 0, 0, 0, 0, 7]" 2 1 True BT601_FULL_COEFFICIENTS] show ?thesis
    by (simp add: small_bound filled_def parts_two plane_sample_def)
qed

text \<open>C14: NV12 and NV21 are planar images whose chroma planes are the two interleavings of one buffer:
  the conversion of an accepted semi-planar image is the planar conversion of those views, on a CPU
  with or without AVX2 for either, and in particular on the BT.601 fast path; an image that is not
  accepted gives an invalid-frame error.\<close>

theorem yuv420sp_planar_equivalent:
  assumes "length (sp_y p) < usize_bound" "length (sp_uv p) < usize_bound" "length rgb < usize_bound"
  shows "if yuv420sp_accepts p width height rgb
    then yuv420sp_to_rgb_with_coefficients_into avx2 p width height c rgb
        = yuv420_to_rgb_with_coefficients_into avx2' (sp_luma p) (sp_u p) (sp_v p) width height c rgb
      \<and> is_ok (yuv420sp_to_rgb_with_coefficients_into avx2 p width height c rgb)
    else \<exists>m. yuv420sp_to_rgb_with_coefficients_into avx2 p width height c rgb = Err (invalid_frame m)"
proof -
  have "length (yp_data (sp_luma p)) < usize_bound" "length (yp_data (sp_u p)) < usize_bound"
    "length (yp_data (sp_v p)) < usize_bound"
    using assms by (simp_all add: sp_luma_def sp_u_def sp_v_def)
  from yuv420_total [OF this assms(3), of width height avx2' c]
    yuv420sp_total [OF assms, of width height avx2 c] sp_accepts_planar [of p width height rgb]
  show ?thesis by (auto split: if_splits)
qed

lemma yuv420sp_planar_equivalent_witness:
  "yuv420sp_to_rgb_with_coefficients_into False
     \<lparr>sp_y = [1, 2, 3, 4, 5, 6], sp_uv = [100, 200, 101, 201], sp_y_stride = 3, sp_uv_stride = 4, sp_vu_order = True\<rparr>
     3 2 BT601_FULL_COEFFICIENTS (replicate 18 0)
   = yuv420_to_rgb_with_coefficients_into True
     \<lparr>yp_data = [1, 2, 3, 4, 5, 6], yp_row_stride = 3, yp_pixel_stride = 1\<rparr>
     \<lparr>yp_data = [200, 101, 201], yp_row_stride = 4, yp_pixel_stride = 2\<rparr>
     \<lparr>yp_data = [100, 200, 101, 201], yp_row_stride = 4, yp_pixel_stride = 2\<rparr> 3 2 BT601_FULL_COEFFICIENTS (replicate 18 0)"
proof -
  let ?p = "\<lparr>sp_y = [1, 2, 3, 4, 5, 6], sp_uv = [100, 200, 101, 201], sp_y_stride = 3, sp_uv_stride = 4, sp_vu_order = True\<rparr>"
  have "yuv420sp_accepts ?p 3 2 (replicate 18 0)"
    by (simp add: yuv420sp_accepts_def plane_covers_def sp_luma_def div_ceil_def)
  with yuv420sp_planar_equivalent [of ?p "replicate 18 0" 3 2 False BT601_FULL_COEFFICIENTS True] show ?thesis
    by (simp add: small_bound sp_luma_def sp_u_def sp_v_def)
qed

text \<open>C16: A half-size conversion of an accepted image (semi-planar, planar or packed 4:2:2, of even
  dimensions) gives at \<open>(column, row)\<close> the pixel that the full-size conversion gives at
  \<open>(2 * column, 2 * row)\<close>, on every CPU; other inputs give an invalid-frame error.\<close>

theorem half_size_samples_full_size:
  assumes "length (sp_y p) < usize_bound" "length (sp_uv p) < usize_bound" "length rgb < usize_bound"
    "length (yp_data y) < usize_bound" "length (yp_data u) < usize_bound" "length (yp_data v) < usize_bound"
    "length source < usize_bound"
  shows "(if yuv420sp_half_accepts p width height rgb
      then yuv420sp_to_rgb_half_with_coefficients_into avx2 p width height c rgb
        = Ok (filled (sampled width (reference_pixel c (sp_luma p) (sp_u p) (sp_v p) width))
            (width div 2 * (height div 2)) rgb)
      else \<exists>m. yuv420sp_to_rgb_half_with_coefficients_into avx2 p width height c rgb = Err (invalid_frame m))
    \<and> (if yuv420_half_accepts y u v width height rgb
      then yuv420_to_rgb_half_with_coefficients_into avx2 y u v width height c rgb
        = Ok (filled (sampled width (reference_pixel c y u v width)) (width div 2 * (height div 2)) rgb)
      else \<exists>m. yuv420_to_rgb_half_with_coefficients_into avx2 y u v width height c rgb = Err (invalid_frame m))
    \<and> (if yuv422_half_accepts source width height stride rgb
      then yuv422_to_rgb_half_with_coefficients_into avx2 source width height stride uyvy c rgb
        = Ok (filled (sampled width (yuv422_reference uyvy c source stride width)) (width div 2 * (height div 2)) rgb)
      else \<exists>m. yuv422_to_rgb_half_with_coefficients_into avx2 source width height stride uyvy c rgb = Err (invalid_frame m))"
  by (intro conjI yuv420sp_half_total [OF assms(1-3)] yuv420_half_total [OF assms(4-6,3)]
      yuv422_half_total [OF assms(7,3)])

lemma half_size_samples_full_size_witness:
  "yuv422_to_rgb_half_with_coefficients_into True [1, 100, 2, 200, 3, 101, 4, 201, 5, 102, 6, 202, 7, 103, 8, 203]
     4 2 8 False BT601_FULL_COEFFICIENTS (replicate 6 0)
   = Ok (yuv_pixel BT601_FULL_COEFFICIENTS 1 100 200 @ yuv_pixel BT601_FULL_COEFFICIENTS 3 101 201)"
proof -
  let ?source = "[1, 100, 2, 200, 3, 101, 4, 201, 5, 102, 6, 202, 7, 103, 8, 203]"
  let ?p = "\<lparr>sp_y = [], sp_uv = [], sp_y_stride = 0, sp_uv_stride = 0, sp_vu_order = False\<rparr>"
  let ?y = "\<lparr>yp_data = [], yp_row_stride = 0, yp_pixel_stride = 0\<rparr>"
  have "yuv422_half_accepts ?source 4 2 8 (replicate 6 0)" by (simp add: yuv422_half_accepts_def)
  with half_size_samples_full_size [of ?p "replicate 6 0" ?y ?y ?y ?source 4 2 True BT601_FULL_COEFFICIENTS 8 False]
  show ?thesis
    by (simp add: small_bound filled_def parts_two sampled_def yuv422_reference_def)
qed

text \<open>C15: Converting a packed 4:2:2 image with configured coefficients accepts exactly the images of even
  width whose rows fit the stride and the buffers, and writes for every pixel the fixed-point formula
  of its luma byte and the chroma of its pair, in the byte order asked for, on every CPU.\<close>

theorem yuv422_conversion_exact:
  assumes "length source < usize_bound" "length rgb < usize_bound"
  shows "if yuv422_accepts source width height stride rgb
    then yuv422_to_rgb_with_coefficients_into avx2 source width height stride uyvy c rgb
      = Ok (filled (\<lambda>i. let row = i div width; x = i mod width; pair = row * stride + 4 * (x div 2);
            luma = row * stride + 2 * x
          in if uyvy then yuv_pixel c (source ! (luma + 1)) (source ! pair) (source ! (pair + 2))
             else yuv_pixel c (source ! luma) (source ! (pair + 1)) (source ! (pair + 3))) (width * height) rgb)
    else \<exists>m. yuv422_to_rgb_with_coefficients_into avx2 source width height stride uyvy c rgb = Err (invalid_frame m)"
proof -
  have "(\<lambda>i. let row = i div width; x = i mod width; pair = row * stride + 4 * (x div 2);
        luma = row * stride + 2 * x
      in if uyvy then yuv_pixel c (source ! (luma + 1)) (source ! pair) (source ! (pair + 2))
         else yuv_pixel c (source ! luma) (source ! (pair + 1)) (source ! (pair + 3)))
    = yuv422_reference uyvy c source stride width"
    by (rule ext) (simp add: yuv422_reference_def)
  with yuv422_total [OF assms] show ?thesis by simp
qed

lemma yuv422_conversion_exact_witness:
  "yuv422_to_rgb_with_coefficients_into True [100, 1, 200, 2, 9, 9] 2 1 5 True BT601_FULL_COEFFICIENTS (replicate 6 0)
   = Ok (yuv_pixel BT601_FULL_COEFFICIENTS 1 100 200 @ yuv_pixel BT601_FULL_COEFFICIENTS 2 100 200)"
proof -
  have "yuv422_accepts [100, 1, 200, 2, 9, 9] 2 1 5 (replicate 6 0)" by (simp add: yuv422_accepts_def)
  with yuv422_conversion_exact [of "[100, 1, 200, 2, 9, 9]" "replicate 6 0" 2 1 5 True True BT601_FULL_COEFFICIENTS]
  show ?thesis by (simp add: small_bound filled_def parts_two)
qed

text \<open>C17: \<open>ColorConverter\<close> writes the same bytes with and without SIMD, and with and without AVX2: for an
  accepted YUYV or UYVY image, the BT.601 pixels of every pair, the rest of the output untouched.  The
  vector kernel's way of rounding the green channel (adding 255 before the shift of the negated sum)
  agrees with the scalar code's subtraction of a floor.  Any other input is an invalid-frame error.\<close>

theorem converter_simd_equivalent:
  assumes "length data < usize_bound" "length rgb < usize_bound"
  shows "if converter_accepts width height data rgb
    then yuyv_to_rgb_into avx2 self data width height rgb
        = Ok (filled (converter_pixel False data) (unat width * unat height) rgb)
      \<and> uyvy_to_rgb_into avx2 self data width height rgb
        = Ok (filled (converter_pixel True data) (unat width * unat height) rgb)
    else (\<exists>m. yuyv_to_rgb_into avx2 self data width height rgb = Err (invalid_frame m))
      \<and> (\<exists>m. uyvy_to_rgb_into avx2 self data width height rgb = Err (invalid_frame m))"
  by (rule converter_into [OF assms])

lemma converter_simd_equivalent_witness:
  "yuyv_to_rgb_into True \<lparr>converter_options = \<lparr>use_simd = True\<rparr>\<rparr> [1, 128, 2, 128] 2 1 (replicate 6 9)
   = yuyv_to_rgb_into False \<lparr>converter_options = \<lparr>use_simd = False\<rparr>\<rparr> [1, 128, 2, 128] 2 1 (replicate 6 9)"
proof -
  have "converter_accepts 2 1 [1, 128, 2, 128] (replicate 6 9)" by (simp add: converter_accepts_def)
  with converter_simd_equivalent [of "[1, 128, 2, 128]" "replicate 6 9" 2 1 True "\<lparr>converter_options = \<lparr>use_simd = True\<rparr>\<rparr>"]
    converter_simd_equivalent [of "[1, 128, 2, 128]" "replicate 6 9" 2 1 False "\<lparr>converter_options = \<lparr>use_simd = False\<rparr>\<rparr>"]
  show ?thesis by (simp add: small_bound)
qed

text \<open>C18: Removing the alpha channel of a packed 8888 image with padded rows: every output pixel holds the
  three bytes at the channel offsets of its source pixel, with SSSE3, AVX2 or neither.\<close>

theorem packed_8888_exact:
  assumes "length packed < usize_bound" "length rgb < usize_bound" and "r < 4" "g < 4" "b < 4"
  shows "if packed_8888_accepts packed width height stride rgb
    then packed_8888_to_rgb_into avx2 has_ssse3 r g b packed width height stride rgb
      = Ok (filled (\<lambda>i. let pixel = (i div width) * stride + 4 * (i mod width)
          in [packed ! (pixel + r), packed ! (pixel + g), packed ! (pixel + b)]) (width * height) rgb)
    else \<exists>m. packed_8888_to_rgb_into avx2 has_ssse3 r g b packed width height stride rgb = Err (invalid_frame m)"
proof -
  have "(\<lambda>i. let pixel = (i div width) * stride + 4 * (i mod width)
      in [packed ! (pixel + r), packed ! (pixel + g), packed ! (pixel + b)])
    = packed_8888_reference r g b packed stride width"
    by (rule ext) (simp add: packed_8888_reference_def)
  with packed_8888_total [OF assms] show ?thesis by simp
qed

lemma packed_8888_exact_witness:
  "packed_8888_to_rgb_into False True 2 1 0 [1, 2, 3, 4, 5, 6, 7, 8, 9] 1 2 5 (replicate 6 0) = Ok [3, 2, 1, 8, 7, 6]"
proof -
  have "packed_8888_accepts [1, 2, 3, 4, 5, 6, 7, 8, 9] 1 2 5 (replicate 6 0)" by (simp add: packed_8888_accepts_def)
  with packed_8888_exact [of "[1, 2, 3, 4, 5, 6, 7, 8, 9]" "replicate 6 0" 2 1 0 1 2 5 False True] show ?thesis
    by (simp add: small_bound filled_def parts_two)
qed

end
