(* ===== verification/Backends.thy ===== *)
theory Backends
  imports Frame_Hub
begin

text \<open>
  The backend layer of \<open>src/backends/mod.rs\<close>: the backend types, which of them a build contains
  (cargo features, target system and the \<open>camera_v4l2\<close> switch of \<open>build.rs\<close>), the choice of
  the effective backend and the dispatch of every camera operation to its driver.

  The drivers themselves talk to the operating system.  They are a parameter: a record of
  operations on an abstract driver state \<open>'d\<close>, one record per backend type.  The conditional
  compilation removes the constructors of absent backends from \<open>BackendCamera\<close>; here the
  constructors exist always and \<open>camera_in_build\<close> says which values a build can hold, so the
  arms that remain for an empty type have no counterpart.
\<close>

section \<open>Backend types and builds\<close>

datatype backend_type = Auto | Uvc | V4l2 | AVFoundation | Camera2 | MediaFoundation

datatype target_os = Linux | Android | MacOs | Ios | Windows | OtherOs string

fun os_name :: "target_os \<Rightarrow> string" where
  "os_name Linux = ''linux''"
| "os_name Android = ''android''"
| "os_name MacOs = ''macos''"
| "os_name Ios = ''ios''"
| "os_name Windows = ''windows''"
| "os_name (OtherOs s) = s"

record build =
  bd_os :: target_os
  bd_features :: features
  bd_native :: bool
  bd_uvc :: bool
  bd_v4l2 :: bool
  bd_avfoundation :: bool
  bd_camera2 :: bool
  bd_mf :: bool

text \<open>\<open>native\<close> enables the four native backends (\<open>Cargo.toml\<close>).\<close>

definition cargo_features :: "build \<Rightarrow> bool" where
  "cargo_features b \<longleftrightarrow>
     (bd_native b \<longrightarrow> bd_v4l2 b \<and> bd_avfoundation b \<and> bd_camera2 b \<and> bd_mf b)"

definition camera_v4l2 :: "build \<Rightarrow> bool" where
  "camera_v4l2 b \<longleftrightarrow> (bd_os b = Linux \<or> bd_os b = Android) \<and> bd_v4l2 b"

definition default_for_platform :: "build \<Rightarrow> backend_type" where
  "default_for_platform b =
     (if bd_os b = Android \<and> (bd_native b \<or> bd_camera2 b) then Camera2
      else if (bd_os b = MacOs \<or> bd_os b = Ios) \<and> (bd_native b \<or> bd_avfoundation b) then AVFoundation
      else if bd_os b = Windows \<and> (bd_native b \<or> bd_mf b) then MediaFoundation
      else if camera_v4l2 b then V4l2
      else Uvc)"

text \<open>The \<open>Auto\<close> arms of the next three functions call the function on the default backend, which
  is never \<open>Auto\<close> (\<open>default_not_auto\<close>), so one unfolding is the whole recursion.\<close>

fun is_compiled_in :: "build \<Rightarrow> backend_type \<Rightarrow> bool" where
  "is_compiled_in b Auto = False"
| "is_compiled_in b Uvc = bd_uvc b"
| "is_compiled_in b V4l2 = bd_v4l2 b"
| "is_compiled_in b AVFoundation = bd_avfoundation b"
| "is_compiled_in b Camera2 = bd_camera2 b"
| "is_compiled_in b MediaFoundation = bd_mf b"

definition is_compiled :: "build \<Rightarrow> backend_type \<Rightarrow> bool" where
  "is_compiled b t = is_compiled_in b (if t = Auto then default_for_platform b else t)"

fun supports_target_in :: "build \<Rightarrow> backend_type \<Rightarrow> bool" where
  "supports_target_in b Auto = False"
| "supports_target_in b Uvc = (bd_os b = Linux \<or> bd_os b = MacOs \<or> bd_os b = Android)"
| "supports_target_in b V4l2 = (bd_os b = Linux \<or> bd_os b = Android)"
| "supports_target_in b AVFoundation = (bd_os b = MacOs \<or> bd_os b = Ios)"
| "supports_target_in b Camera2 = (bd_os b = Android)"
| "supports_target_in b MediaFoundation = (bd_os b = Windows)"

definition supports_target :: "build \<Rightarrow> backend_type \<Rightarrow> bool" where
  "supports_target b t = supports_target_in b (if t = Auto then default_for_platform b else t)"

fun is_available_in :: "build \<Rightarrow> backend_type \<Rightarrow> bool" where
  "is_available_in b Auto = False"
| "is_available_in b Uvc =
     (bd_uvc b \<and> (bd_os b = Linux \<or> bd_os b = MacOs \<or> bd_os b = Android))"
| "is_available_in b V4l2 = camera_v4l2 b"
| "is_available_in b AVFoundation =
     ((bd_native b \<or> bd_avfoundation b) \<and> (bd_os b = MacOs \<or> bd_os b = Ios))"
| "is_available_in b Camera2 = ((bd_native b \<or> bd_camera2 b) \<and> bd_os b = Android)"
| "is_available_in b MediaFoundation = ((bd_native b \<or> bd_mf b) \<and> bd_os b = Windows)"

definition is_available :: "build \<Rightarrow> backend_type \<Rightarrow> bool" where
  "is_available b t = is_available_in b (if t = Auto then default_for_platform b else t)"

fun display_name :: "backend_type \<Rightarrow> string" where
  "display_name Auto = ''Auto''"
| "display_name Uvc = ''UVC (libuvc)''"
| "display_name V4l2 = ''Linux V4L2''"
| "display_name AVFoundation = ''AVFoundation''"
| "display_name Camera2 = ''Android Camera2''"
| "display_name MediaFoundation = ''Windows Media Foundation''"

fun id_of_backend :: "backend_type \<Rightarrow> backend_id" where
  "id_of_backend Auto = BackendId ''platform-default''"
| "id_of_backend Uvc = UVC"
| "id_of_backend V4l2 = V4L2"
| "id_of_backend AVFoundation = AV_FOUNDATION"
| "id_of_backend Camera2 = CAMERA2"
| "id_of_backend MediaFoundation = MEDIA_FOUNDATION"

definition backend_of_id :: "backend_id \<Rightarrow> backend_type option" where
  "backend_of_id i =
     (let s = backend_as_str i in
      if s = ''uvc'' then Some Uvc
      else if s = ''v4l2'' then Some V4l2
      else if s = ''avfoundation'' then Some AVFoundation
      else if s = ''camera2'' then Some Camera2
      else if s = ''media-foundation'' then Some MediaFoundation
      else None)"

definition available_backends :: "build \<Rightarrow> backend_type list" where
  "available_backends b =
     (if bd_uvc b \<and> (bd_os b = Linux \<or> bd_os b = MacOs \<or> bd_os b = Android) then [Uvc] else [])
     @ (if (bd_native b \<or> bd_avfoundation b) \<and> (bd_os b = MacOs \<or> bd_os b = Ios)
        then [AVFoundation] else [])
     @ (if (bd_native b \<or> bd_camera2 b) \<and> bd_os b = Android then [Camera2] else [])
     @ (if (bd_native b \<or> bd_mf b) \<and> bd_os b = Windows then [MediaFoundation] else [])
     @ (if camera_v4l2 b then [V4l2] else [])"

definition backend_unavailable :: "build \<Rightarrow> backend_type \<Rightarrow> camera_error" where
  "backend_unavailable b t =
     (if supports_target b t then backend_not_compiled (id_of_backend t)
      else unsupported_target (id_of_backend t) (os_name (bd_os b)))"

definition no_camera_backend_enabled :: "build \<Rightarrow> camera_error" where
  "no_camera_backend_enabled b = backend_unavailable b (default_for_platform b)"

section \<open>Drivers\<close>

text \<open>The modes of an automatic control (\<open>src/controls.rs\<close>), which two drivers report.\<close>

datatype control_mode = ModeManual | ModeAutomatic | ModeLocked | ModeSingle | ModeContinuous

record 'd driver =
  drv_frame_hub :: "'d \<Rightarrow> hub option"
  drv_capabilities :: "'d \<Rightarrow> device_capabilities camera_result"
  drv_compatible_formats :: "'d \<Rightarrow> camera_config list camera_result"
  drv_start_stream :: "camera_config \<Rightarrow> 'd \<Rightarrow> 'd \<times> unit camera_result"
  drv_stop_stream :: "'d \<Rightarrow> 'd \<times> unit camera_result"
  drv_get_latest_frame :: "'d \<Rightarrow> buffer option camera_result"
  drv_wait_for_frame :: "duration \<Rightarrow> 'd \<Rightarrow> 'd \<times> buffer camera_result"
  drv_is_streaming :: "'d \<Rightarrow> bool"
  drv_get_config :: "'d \<Rightarrow> camera_config option"
  drv_get_stats :: "'d \<Rightarrow> stream_stats"
  drv_set_buffer_size :: "usize \<Rightarrow> 'd \<Rightarrow> 'd \<times> unit camera_result"
  drv_set_camera2_options :: "camera2_options \<Rightarrow> 'd \<Rightarrow> 'd \<times> unit camera_result"
  drv_set_avfoundation_options :: "av_foundation_options \<Rightarrow> 'd \<Rightarrow> 'd \<times> unit camera_result"
  drv_cleanup :: "'d \<Rightarrow> 'd"
  drv_get_control :: "camera_control_type \<Rightarrow> 'd \<Rightarrow> camera_control_value camera_result"
  drv_set_control :: "camera_control_type \<Rightarrow> camera_control_value \<Rightarrow> 'd \<Rightarrow> 'd \<times> unit camera_result"
  drv_get_control_range :: "camera_control_type \<Rightarrow> 'd \<Rightarrow> control_range camera_result"
  drv_supports_control :: "camera_control_type \<Rightarrow> 'd \<Rightarrow> bool"
  drv_get_supported_controls :: "'d \<Rightarrow> camera_control_type list"
  drv_reset_control :: "camera_control_type \<Rightarrow> 'd \<Rightarrow> 'd \<times> unit camera_result"
  drv_reset_all_controls :: "'d \<Rightarrow> 'd \<times> unit camera_result"
  drv_supported_modes :: "camera_control_type \<Rightarrow> 'd \<Rightarrow> i32 list camera_result"
  drv_exposure_modes :: "'d \<Rightarrow> control_mode list camera_result"
  drv_control_writable :: "camera_control_type \<Rightarrow> 'd \<Rightarrow> bool camera_result"

text \<open>The associated functions of the drivers: opening and enumeration.\<close>

record 'd platform =
  pf_driver :: "backend_type \<Rightarrow> 'd driver"
  pf_new_selected :: "backend_type \<Rightarrow> u32 \<Rightarrow> hub \<Rightarrow> string option \<Rightarrow> 'd camera_result"
  pf_v4l2_from_path :: "string \<Rightarrow> hub \<Rightarrow> 'd camera_result"
  pf_v4l2_new :: "u32 \<Rightarrow> hub \<Rightarrow> 'd camera_result"
  pf_uvc_from_fd :: "i32 \<Rightarrow> 'd camera_result"
  pf_list_devices :: "backend_type \<Rightarrow> camera_device_info list camera_result"
  pf_supported_configs :: "backend_type \<Rightarrow> u32 \<Rightarrow> camera_config list camera_result"
  pf_v4l2_capabilities :: "u32 \<Rightarrow> device_capabilities camera_result"
  pf_v4l2_requested :: "u32 \<Rightarrow> capture_request \<Rightarrow> camera_config list \<Rightarrow> camera_config list camera_result"

datatype 'd backend_camera =
  V4l2Camera (cam_driver: 'd)
  | UvcCamera (cam_driver: 'd)
  | AVFoundationCamera (cam_driver: 'd)
  | Camera2Camera (cam_driver: 'd)
  | MFCamera (cam_driver: 'd)

fun camera_backend_type :: "'d backend_camera \<Rightarrow> backend_type" where
  "camera_backend_type (UvcCamera _) = Uvc"
| "camera_backend_type (AVFoundationCamera _) = AVFoundation"
| "camera_backend_type (Camera2Camera _) = Camera2"
| "camera_backend_type (MFCamera _) = MediaFoundation"
| "camera_backend_type (V4l2Camera _) = V4l2"

definition camera_in_build :: "build \<Rightarrow> 'd backend_camera \<Rightarrow> bool" where
  "camera_in_build b cam \<longleftrightarrow> is_available b (camera_backend_type cam)"

section \<open>Dispatch\<close>

text \<open>A query reads the driver of the variant; an action also replaces its state.\<close>

definition ask :: "'d platform \<Rightarrow> ('d driver \<Rightarrow> 'd \<Rightarrow> 'r) \<Rightarrow> 'd backend_camera \<Rightarrow> 'r" where
  "ask P f cam = f (pf_driver P (camera_backend_type cam)) (cam_driver cam)"

fun set_driver :: "'d \<Rightarrow> 'd backend_camera \<Rightarrow> 'd backend_camera" where
  "set_driver d (V4l2Camera _) = V4l2Camera d"
| "set_driver d (UvcCamera _) = UvcCamera d"
| "set_driver d (AVFoundationCamera _) = AVFoundationCamera d"
| "set_driver d (Camera2Camera _) = Camera2Camera d"
| "set_driver d (MFCamera _) = MFCamera d"

definition act ::
  "'d platform \<Rightarrow> ('d driver \<Rightarrow> 'd \<Rightarrow> 'd \<times> 'r) \<Rightarrow> 'd backend_camera \<Rightarrow> 'd backend_camera \<times> 'r" where
  "act P f cam =
     (case f (pf_driver P (camera_backend_type cam)) (cam_driver cam) of
        (d, r) \<Rightarrow> (set_driver d cam, r))"

definition camera_frame_hub :: "'d platform \<Rightarrow> 'd backend_camera \<Rightarrow> hub option" where
  "camera_frame_hub P cam = ask P drv_frame_hub cam"

definition get_shared_frame ::
  "build \<Rightarrow> 'd platform \<Rightarrow> 'd backend_camera \<Rightarrow> captured_frame option camera_result" where
  "get_shared_frame b P cam =
     ok_or (map_option hub_latest (camera_frame_hub P cam)) (no_camera_backend_enabled b)"

text \<open>\<open>wait_after\<close> of the hub waits for the environment: its answer is an argument.\<close>

definition wait_for_shared_frame ::
  "build \<Rightarrow> 'd platform \<Rightarrow> (hub \<Rightarrow> captured_frame camera_result) \<Rightarrow> 'd backend_camera \<Rightarrow>
     captured_frame camera_result" where
  "wait_for_shared_frame b P wait_after cam =
     and_then (ok_or (camera_frame_hub P cam) (no_camera_backend_enabled b)) wait_after"

definition opened_device_capabilities ::
  "build \<Rightarrow> 'd platform \<Rightarrow> 'd backend_camera \<Rightarrow> device_capabilities camera_result" where
  "opened_device_capabilities b P cam =
     (case cam of
        MFCamera _ \<Rightarrow> and_then (ask P drv_compatible_formats cam)
          (\<lambda>formats. Ok (from_configurations (bd_features b) formats))
      | UvcCamera _ \<Rightarrow> ask P drv_capabilities cam
      | _ \<Rightarrow> Err (invalid_state
          ''Opened-device capability queries are only required for descriptor-backed UVC''))"

definition camera_start_stream ::
  "'d platform \<Rightarrow> camera_config \<Rightarrow> 'd backend_camera \<Rightarrow> 'd backend_camera \<times> unit camera_result" where
  "camera_start_stream P config = act P (\<lambda>D. drv_start_stream D config)"

definition camera_stop_stream ::
  "'d platform \<Rightarrow> 'd backend_camera \<Rightarrow> 'd backend_camera \<times> unit camera_result" where
  "camera_stop_stream P = act P drv_stop_stream"

definition camera_get_latest_frame ::
  "'d platform \<Rightarrow> 'd backend_camera \<Rightarrow> buffer option camera_result" where
  "camera_get_latest_frame P = ask P drv_get_latest_frame"

definition camera_wait_for_frame ::
  "'d platform \<Rightarrow> duration \<Rightarrow> 'd backend_camera \<Rightarrow> 'd backend_camera \<times> buffer camera_result" where
  "camera_wait_for_frame P timeout = act P (\<lambda>D. drv_wait_for_frame D timeout)"

definition camera_is_streaming :: "'d platform \<Rightarrow> 'd backend_camera \<Rightarrow> bool" where
  "camera_is_streaming P = ask P drv_is_streaming"

definition camera_get_config :: "'d platform \<Rightarrow> 'd backend_camera \<Rightarrow> camera_config option" where
  "camera_get_config P = ask P drv_get_config"

definition camera_get_stats :: "'d platform \<Rightarrow> 'd backend_camera \<Rightarrow> stream_stats" where
  "camera_get_stats P = ask P drv_get_stats"

definition camera_set_buffer_size ::
  "'d platform \<Rightarrow> usize \<Rightarrow> 'd backend_camera \<Rightarrow> 'd backend_camera \<times> unit camera_result" where
  "camera_set_buffer_size P n = act P (\<lambda>D. drv_set_buffer_size D n)"

definition camera_set_camera2_options ::
  "build \<Rightarrow> 'd platform \<Rightarrow> camera2_options \<Rightarrow> 'd backend_camera \<Rightarrow> 'd backend_camera \<times> unit camera_result" where
  "camera_set_camera2_options b P opts cam =
     (case cam of
        Camera2Camera _ \<Rightarrow> act P (\<lambda>D. drv_set_camera2_options D opts) cam
      | _ \<Rightarrow> (cam, Err (unsupported_target CAMERA2 (os_name (bd_os b)))))"

definition camera_set_avfoundation_options ::
  "build \<Rightarrow> 'd platform \<Rightarrow> av_foundation_options \<Rightarrow> 'd backend_camera \<Rightarrow>
     'd backend_camera \<times> unit camera_result" where
  "camera_set_avfoundation_options b P opts cam =
     (case cam of
        AVFoundationCamera _ \<Rightarrow> act P (\<lambda>D. drv_set_avfoundation_options D opts) cam
      | _ \<Rightarrow> (cam, Err (unsupported_target AV_FOUNDATION (os_name (bd_os b)))))"

definition camera_cleanup :: "'d platform \<Rightarrow> 'd backend_camera \<Rightarrow> 'd backend_camera" where
  "camera_cleanup P cam =
     (case cam of
        AVFoundationCamera _ \<Rightarrow> cam
      | _ \<Rightarrow> fst (act P (\<lambda>D d. (drv_cleanup D d, ())) cam))"

definition camera_get_control ::
  "'d platform \<Rightarrow> camera_control_type \<Rightarrow> 'd backend_camera \<Rightarrow> camera_control_value camera_result" where
  "camera_get_control P c = ask P (\<lambda>D. drv_get_control D c)"

definition camera_set_control ::
  "'d platform \<Rightarrow> camera_control_type \<Rightarrow> camera_control_value \<Rightarrow> 'd backend_camera \<Rightarrow>
     'd backend_camera \<times> unit camera_result" where
  "camera_set_control P c v = act P (\<lambda>D. drv_set_control D c v)"

definition camera_get_control_range ::
  "'d platform \<Rightarrow> camera_control_type \<Rightarrow> 'd backend_camera \<Rightarrow> control_range camera_result" where
  "camera_get_control_range P c = ask P (\<lambda>D. drv_get_control_range D c)"

definition camera_supports_control ::
  "'d platform \<Rightarrow> camera_control_type \<Rightarrow> 'd backend_camera \<Rightarrow> bool" where
  "camera_supports_control P c = ask P (\<lambda>D. drv_supports_control D c)"

definition camera_get_supported_controls ::
  "'d platform \<Rightarrow> 'd backend_camera \<Rightarrow> camera_control_type list" where
  "camera_get_supported_controls P = ask P drv_get_supported_controls"

definition camera_reset_control ::
  "'d platform \<Rightarrow> camera_control_type \<Rightarrow> 'd backend_camera \<Rightarrow> 'd backend_camera \<times> unit camera_result" where
  "camera_reset_control P c = act P (\<lambda>D. drv_reset_control D c)"

definition camera_reset_all_controls ::
  "'d platform \<Rightarrow> 'd backend_camera \<Rightarrow> 'd backend_camera \<times> unit camera_result" where
  "camera_reset_all_controls P = act P drv_reset_all_controls"

section \<open>Opening and enumeration\<close>

definition effective_backend :: "build \<Rightarrow> backend_type \<Rightarrow> backend_type" where
  "effective_backend b t = (if t = Auto then default_for_platform b else t)"

fun camera_of_type :: "backend_type \<Rightarrow> 'd \<Rightarrow> 'd backend_camera camera_result" where
  "camera_of_type Auto d = Panic"
| "camera_of_type Uvc d = Ok (UvcCamera d)"
| "camera_of_type V4l2 d = Ok (V4l2Camera d)"
| "camera_of_type AVFoundation d = Ok (AVFoundationCamera d)"
| "camera_of_type Camera2 d = Ok (Camera2Camera d)"
| "camera_of_type MediaFoundation d = Ok (MFCamera d)"

definition create_selected_camera ::
  "build \<Rightarrow> 'd platform \<Rightarrow> u32 \<Rightarrow> backend_type \<Rightarrow> hub \<Rightarrow> string option \<Rightarrow> 'd backend_camera camera_result"
where
  "create_selected_camera b P index t hub expected =
     (let e = effective_backend b t in
      if e = Auto then Panic
      else if \<not> is_available_in b e then Err (backend_unavailable b e)
      else and_then
        (if e = V4l2
         then (case expected of
                 Some path \<Rightarrow> pf_v4l2_from_path P path hub
               | None \<Rightarrow> pf_v4l2_new P index hub)
         else pf_new_selected P e index hub expected)
        (camera_of_type e))"

definition create_camera ::
  "build \<Rightarrow> 'd platform \<Rightarrow> hub \<Rightarrow> u32 \<Rightarrow> backend_type \<Rightarrow> 'd backend_camera camera_result" where
  "create_camera b P default_hub index t = create_selected_camera b P index t default_hub None"

definition create_camera_from_fd :: "'d platform \<Rightarrow> i32 \<Rightarrow> 'd backend_camera camera_result" where
  "create_camera_from_fd P fd = and_then (pf_uvc_from_fd P fd) (\<lambda>d. Ok (UvcCamera d))"

definition list_devices ::
  "build \<Rightarrow> 'd platform \<Rightarrow> backend_type \<Rightarrow> camera_device_info list camera_result" where
  "list_devices b P t =
     (let e = effective_backend b t in
      if e = Auto then Panic
      else if \<not> is_available_in b e then Err (backend_unavailable b e)
      else pf_list_devices P e)"

definition get_supported_configs ::
  "build \<Rightarrow> 'd platform \<Rightarrow> backend_type \<Rightarrow> u32 \<Rightarrow> camera_config list camera_result" where
  "get_supported_configs b P t index =
     (let e = effective_backend b t in
      if e = Auto then Panic
      else if \<not> is_available_in b e then Err (backend_unavailable b e)
      else pf_supported_configs P e index)"

definition get_device_capabilities ::
  "build \<Rightarrow> 'd platform \<Rightarrow> backend_type \<Rightarrow> u32 \<Rightarrow> device_capabilities camera_result" where
  "get_device_capabilities b P t index =
     (if camera_v4l2 b \<and> t = V4l2 then pf_v4l2_capabilities P index
      else and_then (get_supported_configs b P t index)
        (\<lambda>configs. Ok (from_configurations (bd_features b) configs)))"

definition requested_configs ::
  "build \<Rightarrow> 'd platform \<Rightarrow> backend_type \<Rightarrow> u32 \<Rightarrow> capture_request \<Rightarrow> camera_config list \<Rightarrow>
     camera_config list camera_result" where
  "requested_configs b P t index request advertised =
     (if camera_v4l2 b \<and> t = V4l2 then pf_v4l2_requested P index request advertised else Ok [])"

section \<open>Lemmas\<close>

lemma default_not_auto [simp]: "default_for_platform b \<noteq> Auto"
  by (simp add: default_for_platform_def)

lemma effective_not_auto [simp]: "effective_backend b t \<noteq> Auto"
  by (simp add: effective_backend_def)

lemma is_available_effective: "is_available b t = is_available_in b (effective_backend b t)"
  by (simp add: is_available_def effective_backend_def)

lemma available_iff:
  assumes "cargo_features b"
  shows "is_available b t \<longleftrightarrow> is_compiled b t \<and> supports_target b t"
proof -
  have "is_available_in b e \<longleftrightarrow> is_compiled_in b e \<and> supports_target_in b e" for e
    using assms by (cases e) (auto simp: cargo_features_def camera_v4l2_def)
  then show ?thesis
    by (simp add: is_available_def is_compiled_def supports_target_def)
qed

lemma set_available_backends: "set (available_backends b) = {t. t \<noteq> Auto \<and> is_available_in b t}"
proof (rule set_eqI)
  fix t
  show "t \<in> set (available_backends b) \<longleftrightarrow> t \<in> {t. t \<noteq> Auto \<and> is_available_in b t}"
    by (cases t) (auto simp: available_backends_def)
qed

lemma backend_id_type: "t \<noteq> Auto \<Longrightarrow> backend_of_id (id_of_backend t) = Some t"
  by (cases t) (simp_all add: backend_of_id_def backend_consts)

lemma backend_of_id_eq:
  assumes "backend_of_id i = Some t"
  shows "t \<noteq> Auto" "id_of_backend t = i"
  using assms by (cases i; auto simp: backend_of_id_def Let_def backend_consts split: if_splits)+

lemma act_backend_type [simp]: "camera_backend_type (fst (act P f cam)) = camera_backend_type cam"
  by (cases cam) (auto simp: act_def split: prod.split)

lemma err_kind_backend_unavailable:
  "err_kind (backend_unavailable b t) = (if supports_target b t then BackendNotCompiled else UnsupportedTarget)"
  by (simp add: backend_unavailable_def error_constructors)

lemma supports_target_effective: "supports_target b (effective_backend b t) = supports_target b t"
  by (simp add: supports_target_def effective_backend_def)

lemma unavailable_errors:
  assumes "\<not> is_available b t"
  shows "list_devices b P t = Err (backend_unavailable b (effective_backend b t))"
    and "get_supported_configs b P t n = Err (backend_unavailable b (effective_backend b t))"
    and "create_selected_camera b P n t h expected = Err (backend_unavailable b (effective_backend b t))"
  using assms by (simp_all add: is_available_effective list_devices_def get_supported_configs_def
      create_selected_camera_def Let_def)

lemma create_selected_camera_Ok:
  assumes "create_selected_camera b P n t h expected = Ok cam"
  shows "camera_backend_type cam = effective_backend b t" "camera_in_build b cam"
proof -
  have av: "is_available_in b (effective_backend b t)"
    using assms by (auto simp: create_selected_camera_def Let_def split: if_splits)
  obtain d where "camera_of_type (effective_backend b t) d = Ok cam"
    using assms by (auto simp: create_selected_camera_def Let_def result_simps split: if_splits)
  then show "camera_backend_type cam = effective_backend b t"
    by (cases "effective_backend b t") auto
  with av show "camera_in_build b cam"
    by (simp add: camera_in_build_def is_available_def)
qed

text \<open>In a build whose features are closed as the manifest says, a backend is available exactly
  when it is compiled and supports the target.  The list of available backends holds exactly the
  available concrete ones; every concrete backend is known by its identifier and by no other; and
  opening, enumerating and querying never panic in the layer itself: they ask the driver of the
  effective backend when it is available and otherwise fail with the error that says why, the
  same for all three.\<close>

theorem backend_selection:
  assumes "cargo_features b"
  shows "(is_available b t \<longleftrightarrow> is_compiled b t \<and> supports_target b t)
    \<and> set (available_backends b) = {t. t \<noteq> Auto \<and> is_available b t}
    \<and> (backend_of_id i = Some t \<longleftrightarrow> t \<noteq> Auto \<and> id_of_backend t = i)
    \<and> (\<not> is_available b t \<longrightarrow>
        list_devices b P t = Err (backend_unavailable b (effective_backend b t))
        \<and> get_supported_configs b P t n = Err (backend_unavailable b (effective_backend b t))
        \<and> create_selected_camera b P n t h expected
            = Err (backend_unavailable b (effective_backend b t))
        \<and> err_kind (backend_unavailable b (effective_backend b t))
            = (if supports_target b t then BackendNotCompiled else UnsupportedTarget))
    \<and> (create_selected_camera b P n t h expected = Ok cam \<longrightarrow>
        camera_backend_type cam = effective_backend b t \<and> camera_in_build b cam)"
proof (intro conjI impI)
  show "is_available b t \<longleftrightarrow> is_compiled b t \<and> supports_target b t"
    by (rule available_iff [OF assms])
  show "set (available_backends b) = {t. t \<noteq> Auto \<and> is_available b t}"
    by (auto simp: set_available_backends is_available_def)
  show "backend_of_id i = Some t \<longleftrightarrow> t \<noteq> Auto \<and> id_of_backend t = i"
    using backend_of_id_eq backend_id_type by blast
qed (simp_all add: unavailable_errors err_kind_backend_unavailable supports_target_effective
    create_selected_camera_Ok)

definition example_build :: build where
  "example_build =
     \<lparr>bd_os = Linux, bd_features = \<lparr>feat_convert_rgb = True, feat_decode_mjpeg = False\<rparr>,
      bd_native = True, bd_uvc = False, bd_v4l2 = True, bd_avfoundation = True,
      bd_camera2 = True, bd_mf = True\<rparr>"

lemma backend_selection_witness:
  "is_available example_build V4l2 \<and> available_backends example_build = [V4l2]
   \<and> (\<forall>P :: nat platform. list_devices example_build P Uvc = Err (backend_not_compiled UVC))"
proof (intro conjI allI)
  have f: "cargo_features example_build"
    by (simp add: cargo_features_def example_build_def)
  show "available_backends example_build = [V4l2]"
    by (simp add: available_backends_def example_build_def camera_v4l2_def)
  have "is_compiled example_build V4l2" "supports_target example_build V4l2"
    by (simp_all add: is_compiled_def supports_target_def example_build_def)
  then show "is_available example_build V4l2"
    using backend_selection [OF f, of V4l2] by blast
  fix P :: "nat platform"
  have "\<not> is_available example_build Uvc"
    by (simp add: is_available_def example_build_def)
  then have "list_devices example_build P Uvc
      = Err (backend_unavailable example_build (effective_backend example_build Uvc))"
    using backend_selection [OF f, of Uvc undefined P] by blast
  then show "list_devices example_build P Uvc = Err (backend_not_compiled UVC)"
    by (simp add: backend_unavailable_def effective_backend_def supports_target_def example_build_def)
qed

end
