(* ===== verification/Negotiate.thy ===== *)
theory Negotiate
  imports Request Layout "HOL-Library.List_Lexorder"
begin

text \<open>
  The negotiation of \<open>src/api.rs\<close>: which configurations of a device satisfy a capture request, in
  which order the session tries them, and how the answer of the driver is checked after the
  start and after a recovery; with the delays of the recovery loop.
\<close>

section \<open>Floating-point distance and printing\<close>

text \<open>
  \<open>(a - b).abs() * 1_000_000.0\<close> of two rates: a rounded difference, a rounded product and a
  truncation to \<open>u64\<close>, which is below \<open>2 ^ 64\<close> as rates are below \<open>2 ^ 32\<close>.  The zero is \<open>(0, 0)\<close>.
\<close>

definition f64_of_ratio0 :: "nat \<Rightarrow> nat \<Rightarrow> nat \<times> int" where
  "f64_of_ratio0 n d = (if n = 0 then (0, 0) else f64_of_ratio n d)"

definition f64_distance :: "nat \<times> int \<Rightarrow> nat \<times> int \<Rightarrow> nat \<times> int" where
  "f64_distance a b =
     (let e = min (min (snd a) (snd b)) 0;
          x = fst a * 2 ^ nat (snd a - e);
          y = fst b * 2 ^ nat (snd b - e)
      in f64_of_ratio0 ((x - y) + (y - x)) (2 ^ nat (- e)))"

definition f64_scale :: "nat \<Rightarrow> nat \<times> int \<Rightarrow> nat \<times> int" where
  "f64_scale k x = f64_of_ratio0 (fst x * k * 2 ^ nat (snd x)) (2 ^ nat (- snd x))"

definition f64_truncate :: "nat \<times> int \<Rightarrow> nat" where
  "f64_truncate x = fst x * 2 ^ nat (snd x) div 2 ^ nat (- snd x)"

text \<open>
  \<open>Display\<close> of a positive \<open>f64\<close>: the fewest decimal digits that read back as the value, and of
  those the nearest.  \<open>decimal_place n d\<close> is the power of ten of the leading digit.
\<close>

fun decimal_length :: "nat \<Rightarrow> nat" where
  "decimal_length n = (if n < 10 then 1 else Suc (decimal_length (n div 10)))"

declare decimal_length.simps [simp del]

definition decimal_place :: "nat \<Rightarrow> nat \<Rightarrow> int" where
  "decimal_place n d =
     (if d \<le> n then int (decimal_length (n div d)) - 1
      else - (let q = d div n in
              int (decimal_length q) - (if q * n = d \<and> q = 10 ^ (decimal_length q - 1) then 1 else 0)))"

definition decimal_candidates :: "nat \<Rightarrow> nat \<Rightarrow> int \<Rightarrow> nat list" where
  "decimal_candidates n d p =
     (let n' = n * 10 ^ nat (- p); d' = d * 10 ^ nat p; q = n' div d'
      in if 2 * (n' mod d') < d' \<or> (2 * (n' mod d') = d' \<and> even q) then [q, q + 1] else [q + 1, q])"

fun shortest_decimal :: "nat \<times> int \<Rightarrow> nat \<Rightarrow> nat \<Rightarrow> int \<Rightarrow> nat \<Rightarrow> nat \<times> int" where
  "shortest_decimal x n d p 0 = (hd (decimal_candidates n d p), p)"
| "shortest_decimal x n d p (Suc k) =
     (case filter (\<lambda>q. 0 < q \<and> f64_of_ratio (q * 10 ^ nat p) (10 ^ nat (- p)) = x)
             (decimal_candidates n d p) of
        q # _ \<Rightarrow> (q, p)
      | [] \<Rightarrow> shortest_decimal x n d (p - 1) k)"

definition pad_zeros :: "nat \<Rightarrow> string \<Rightarrow> string" where
  "pad_zeros n s = replicate (n - length s) CHR ''0'' @ s"

definition show_f64 :: "nat \<times> int \<Rightarrow> string" where
  "show_f64 x =
     (let n = fst x * 2 ^ nat (snd x); d = 2 ^ nat (- snd x);
          (q, p) = shortest_decimal x n d (decimal_place n d) 16
      in if 0 \<le> p then show_nat (q * 10 ^ nat p)
         else let m = 10 ^ nat (- p)
              in show_nat (q div m) @ (if q mod m = 0 then ''''
                   else ''.'' @ pad_zeros (nat (- p)) (show_nat (q mod m))))"

section \<open>Checking the answer of a driver\<close>

definition aspect_matches :: "u32 \<times> u32 \<Rightarrow> camera_config \<Rightarrow> bool" where
  "aspect_matches r c \<longleftrightarrow>
     (ucast (cfg_width c) :: u64) * ucast (snd r) = ucast (cfg_height c) * ucast (fst r)"

definition accepts_format :: "capture_request \<Rightarrow> video_format \<Rightarrow> bool" where
  "accepts_format q f \<longleftrightarrow>
     cr_preferred_formats q = []
     \<or> list_ex (\<lambda>p. video_of_capture p = f) (cr_preferred_formats q)"

definition show_size :: "u32 \<Rightarrow> u32 \<Rightarrow> string" where
  "show_size w h = show_nat (unat w) @ ''x'' @ show_nat (unat h)"

definition validate_requested_capture ::
  "capture_request \<Rightarrow> camera_config \<Rightarrow> frame_layout \<Rightarrow> unit camera_result" where
  "validate_requested_capture q actual first_layout =
     and_then (config_validate actual) (\<lambda>_.
     and_then (config_frame_rate actual) (\<lambda>rate.
       if (case cr_minimum_fps q of None \<Rightarrow> False | Some m \<Rightarrow> frame_rate_less rate m)
       then Err (unsupported_format (''Driver negotiated '' @ show_f64 (as_f64 rate)
         @ '' fps below required '' @ show_f64 (as_f64 (the (cr_minimum_fps q))) @ '' fps''))
       else if cr_preferred_formats q \<noteq> []
         \<and> \<not> list_ex (\<lambda>p. video_of_capture p = cfg_format actual) (cr_preferred_formats q)
       then Err (unsupported_format
         (''Driver negotiated unaccepted format '' @ video_format_debug (cfg_format actual)))
       else if cr_exact_resolution q
         \<and> (cfg_width actual, cfg_height actual) \<noteq> (cr_width q, cr_height q)
       then Err (unsupported_format (''Driver negotiated '' @ show_size (cfg_width actual) (cfg_height actual)
         @ '' instead of the required '' @ show_size (cr_width q) (cr_height q) @ '' resolution''))
       else if (case cr_required_aspect_ratio q of None \<Rightarrow> False
                | Some r \<Rightarrow> \<not> aspect_matches r actual)
       then Err (unsupported_format (''Driver negotiated '' @ show_size (cfg_width actual) (cfg_height actual)
         @ '' outside the required aspect ratio''))
       else if fl_width first_layout \<noteq> cfg_width actual \<or> fl_height first_layout \<noteq> cfg_height actual
       then Err (invalid_frame ''First frame differs from negotiated dimensions'')
       else Ok ()))"

definition validate_recovered_capture ::
  "camera_config \<Rightarrow> camera_config \<Rightarrow> frame_layout \<Rightarrow> unit camera_result" where
  "validate_recovered_capture expected actual first =
     (let differs = Err (unsupported_format
            ''Recovered capture differs from the negotiated configuration'');
          dimensions =
            (if (fl_width first, fl_height first) \<noteq> (cfg_width actual, cfg_height actual)
             then Err (invalid_frame ''Recovered first frame differs from negotiated dimensions'')
             else Ok ())
      in if (cfg_width actual, cfg_height actual, cfg_format actual)
           \<noteq> (cfg_width expected, cfg_height expected, cfg_format expected)
         then differs
         else and_then (config_frame_rate actual) (\<lambda>a.
              and_then (config_frame_rate expected) (\<lambda>e.
                if a \<noteq> e then differs else dimensions)))"

section \<open>Ranking the configurations of a device\<close>

definition acceptable :: "capture_request \<Rightarrow> camera_config \<Rightarrow> bool" where
  "acceptable q c \<longleftrightarrow>
     is_ok (config_validate c)
     \<and> accepts_format q (cfg_format c)
     \<and> (case cr_minimum_fps q of None \<Rightarrow> True
        | Some m \<Rightarrow>
            (case config_frame_rate c of Ok rate \<Rightarrow> \<not> frame_rate_less rate m | _ \<Rightarrow> False))
     \<and> (cr_exact_resolution q \<longrightarrow> (cfg_width c, cfg_height c) = (cr_width q, cr_height q))
     \<and> (case cr_required_aspect_ratio q of None \<Rightarrow> True | Some r \<Rightarrow> aspect_matches r c)"

definition preference :: "capture_request \<Rightarrow> video_format \<Rightarrow> usize" where
  "preference q f =
     (case position (\<lambda>p. video_of_capture p = f) (cr_preferred_formats q) of
        Some i \<Rightarrow> i | None \<Rightarrow> length (cr_preferred_formats q))"

fun priority_cost :: "negotiation_priority \<Rightarrow> video_format \<Rightarrow> nat" where
  "priority_cost LowCpu f =
     (case f of Gray \<Rightarrow> 1 | MJPEG \<Rightarrow> 2 | VideoH264 \<Rightarrow> 3 | _ \<Rightarrow> 0)"
| "priority_cost LowBandwidth f =
     (case f of VideoH264 \<Rightarrow> 0 | MJPEG \<Rightarrow> 1 | NV12 \<Rightarrow> 2 | Gray \<Rightarrow> 2 | _ \<Rightarrow> 3)"
| "priority_cost LowLatency f =
     (case f of NV12 \<Rightarrow> 0 | YUYV \<Rightarrow> 0 | UYVY \<Rightarrow> 0 | RGB \<Rightarrow> 0 | Gray \<Rightarrow> 1 | _ \<Rightarrow> 2)"
| "priority_cost Fidelity f = 0"

definition resolution_delta :: "capture_request \<Rightarrow> camera_config \<Rightarrow> nat" where
  "resolution_delta q c =
     nat \<bar>uint (cfg_width c) - uint (cr_width q)\<bar> + nat \<bar>uint (cfg_height c) - uint (cr_height q)\<bar>"

definition frame_rate_delta :: "capture_request \<Rightarrow> camera_config \<Rightarrow> nat" where
  "frame_rate_delta q c =
     (case config_frame_rate c of
        Ok rate \<Rightarrow>
          f64_truncate (f64_scale 1000000 (f64_distance (as_f64 rate) (as_f64 (cr_preferred_fps q))))
      | _ \<Rightarrow> 2 ^ 64 - 1)"

definition ranking_key :: "capture_request \<Rightarrow> camera_config \<Rightarrow> nat list" where
  "ranking_key q c =
     [preference q (cfg_format c), priority_cost (cr_priority q) (cfg_format c),
      resolution_delta q c, frame_rate_delta q c]"

definition rank_capture_configurations ::
  "capture_request \<Rightarrow> camera_config list \<Rightarrow> camera_config list camera_result" where
  "rank_capture_configurations q cs =
     (let ranked = remdups_adj (sort_key (ranking_key q) (filter (acceptable q) cs))
      in if ranked = []
         then Err (unsupported_format ''No capture mode satisfies the required constraints'')
         else Ok ranked)"

definition direct_capture_candidates :: "capture_request \<Rightarrow> camera_config list" where
  "direct_capture_candidates q =
     (let formats = (if cr_preferred_formats q = [] then [CaptureMjpeg] else cr_preferred_formats q)
      in map (\<lambda>f. with_frame_rate
           (camera_config_new (video_of_capture f) (cr_width q) (cr_height q)
             (fr_numerator (cr_preferred_fps q)))
           (cr_preferred_fps q)) formats)"

section \<open>Delays of the recovery loop\<close>

definition recovery_retry_delay :: "duration \<Rightarrow> u32 \<Rightarrow> duration" where
  "recovery_retry_delay configured failed =
     min configured
       (if failed = 0 \<or> failed = 1 then from_millis 100
        else if failed = 2 then from_millis 200
        else if failed = 3 then from_millis 400
        else configured)"

text \<open>\<open>Duration::MAX\<close> is \<open>u64::MAX\<close> seconds and 999999999 nanoseconds.\<close>

definition duration_max :: duration where
  "duration_max = (2 ^ 64 - 1) * 1000000000 + 999999999"

definition duration_saturating_mul :: "duration \<Rightarrow> nat \<Rightarrow> duration" where
  "duration_saturating_mul d n = min (d * n) duration_max"

definition fast_restart_first_frame_timeout ::
  "camera_config \<Rightarrow> duration \<Rightarrow> duration camera_result" where
  "fast_restart_first_frame_timeout c timeout =
     and_then (config_frame_rate c) (\<lambda>rate.
       Ok (min timeout
            (max (from_millis 750) (duration_saturating_mul (frame_rate_interval rate) 3))))"

section \<open>Lemmas\<close>

lemma config_frame_rate_Ok:
  assumes "config_validate c = Ok ()"
  obtains r where "config_frame_rate c = Ok r"
  using assms that frame_rate_new_is_Ok [of "cfg_fps c" "cfg_fps_denominator c"]
  by (auto simp: config_validate_def config_frame_rate_def split: if_splits)

lemma validate_requested_acceptable:
  "validate_requested_capture q c l = Ok () \<longleftrightarrow>
     acceptable q c \<and> fl_width l = cfg_width c \<and> fl_height l = cfg_height c"
proof (cases "config_validate c = Ok ()")
  case True
  then obtain r where r: "config_frame_rate c = Ok r"
    by (rule config_frame_rate_Ok)
  show ?thesis
    by (auto simp: validate_requested_capture_def acceptable_def accepts_format_def True r
        split: option.splits if_splits)
next
  case False
  then show ?thesis
    by (auto simp: validate_requested_capture_def acceptable_def result_simps)
qed

lemma validate_recovered_eq:
  "validate_recovered_capture c d l = Ok () \<longleftrightarrow>
     cfg_width d = cfg_width c \<and> cfg_height d = cfg_height c \<and> cfg_format d = cfg_format c
     \<and> (\<exists>r. config_frame_rate c = Ok r \<and> config_frame_rate d = Ok r)
     \<and> fl_width l = cfg_width d \<and> fl_height l = cfg_height d"
  by (auto simp: validate_recovered_capture_def Let_def result_simps)

lemma acceptable_same_mode:
  assumes "acceptable q c" "cfg_width d = cfg_width c" "cfg_height d = cfg_height c"
    "cfg_format d = cfg_format c" "config_frame_rate c = Ok r" "config_frame_rate d = Ok r"
  shows "acceptable q d"
proof -
  have "config_validate c = Ok ()"
    using assms(1) by (simp add: acceptable_def is_ok_iff)
  moreover have "cfg_fps d \<noteq> 0" "cfg_fps_denominator d \<noteq> 0"
    using assms(6) by (auto simp: config_frame_rate_def frame_rate_new_def split: if_splits)
  ultimately have "config_validate d = Ok ()"
    using assms(2-4) by (auto simp: config_validate_def frame_size_def split: if_splits)
  then show ?thesis
    using assms by (auto simp: acceptable_def aspect_matches_def is_ok_iff split: option.splits)
qed

lemma ranked_set:
  "set (remdups_adj (sort_key (ranking_key q) (filter (acceptable q) cs))) = {c \<in> set cs. acceptable q c}"
  by simp

lemma ranked_sorted:
  "sorted (map (ranking_key q) (remdups_adj (sort_key (ranking_key q) cs)))"
  by (rule sorted_map_remdups_adj) simp

abbreviation nv12_vga :: "u32 \<Rightarrow> u32 \<Rightarrow> camera_config" where
  "nv12_vga n d \<equiv>
     \<lparr>cfg_format = NV12, cfg_width = 640, cfg_height = 480, cfg_fps = n, cfg_fps_denominator = d\<rparr>"
definition example_request :: capture_request where
  "example_request = cr_minimum_frame_rate (cr_set_preferred_formats
     (cr_require_aspect_ratio (cr_set_exact_resolution capture_builder 640 480) 4 3)
     [CaptureNv12, CaptureMjpeg]) frame_rate_default"


text \<open>C28: The check of the driver's answer accepts exactly what the ranking accepts, with a first
  frame of the negotiated size.  So a candidate that the driver starts as asked is never refused,
  and what a recovery restores passes the check of the original request again.\<close>

theorem negotiation_consistent:
  "(validate_requested_capture q c l = Ok () \<longleftrightarrow>
      acceptable q c \<and> fl_width l = cfg_width c \<and> fl_height l = cfg_height c)
   \<and> (acceptable q c \<and> validate_recovered_capture c d l = Ok () \<longrightarrow>
      validate_requested_capture q d l = Ok ())"
  unfolding validate_requested_acceptable validate_recovered_eq
  using acceptable_same_mode by blast

lemma vga_rate:
  "config_frame_rate (nv12_vga 30 1) = Ok frame_rate_default"
  "config_frame_rate (nv12_vga 60 2) = Ok frame_rate_default"
  unfolding config_frame_rate_def
  by (rule frame_rate_new_unique [OF _ _ valid_frame_rate_default]; simp add: frame_rate_default_def)+

lemma vga_acceptable: "acceptable example_request (nv12_vga 30 1)"
proof -
  have "config_validate (nv12_vga 30 1) = Ok ()"
    by (simp add: config_validate_def frame_size_def frame_data_size_def checked_pixel_count_def
        checked_mul_def checked_add_def usize_bound_def)
  moreover have "\<not> frame_rate_less frame_rate_default frame_rate_default"
    by (simp add: frame_rate_less_def frame_rate_cmp_def u64_cmp_def)
  ultimately show ?thesis
    by (simp add: acceptable_def vga_rate example_request_def accepts_format_def aspect_matches_def
        capture_builder_def cr_minimum_frame_rate_def cr_set_preferred_formats_def
        cr_require_aspect_ratio_def cr_set_exact_resolution_def)
qed

lemma negotiation_consistent_witness:
  "validate_requested_capture example_request (nv12_vga 60 2) (rgb_layout 640 480) = Ok ()"
proof -
  have "validate_recovered_capture (nv12_vga 30 1) (nv12_vga 60 2) (rgb_layout 640 480) = Ok ()"
    by (simp add: validate_recovered_eq vga_rate rgb_layout_def)
  with vga_acceptable negotiation_consistent show ?thesis by blast
qed

text \<open>
  \<open>dedup\<close> removes equal neighbours only, and the key does not separate \<open>30/1\<close> from \<open>60/2\<close>: a
  configuration that the device lists twice around an equivalent one is tried twice.
\<close>

lemma rank_leaves_duplicates:
  "\<exists>cs ranked. rank_capture_configurations capture_builder cs = Ok ranked \<and> \<not> distinct ranked"
proof -
  define a where "a = camera_config_new RGB 640 480 30"
  define b where "b = \<lparr>cfg_format = RGB, cfg_width = 640, cfg_height = 480, cfg_fps = 60, cfg_fps_denominator = 2\<rparr>"
  have "config_frame_rate a = config_frame_rate b"
    unfolding a_def b_def config_frame_rate_def camera_config_new_def
    using frame_rate_new_unique [OF _ _ valid_frame_rate_default, of 30 1]
      frame_rate_new_unique [OF _ _ valid_frame_rate_default, of 60 2]
    by (simp add: frame_rate_default_def)
  moreover have "cfg_format a = cfg_format b" "cfg_width a = cfg_width b" "cfg_height a = cfg_height b"
    by (simp_all add: a_def b_def camera_config_new_def)
  ultimately have key: "ranking_key capture_builder b = ranking_key capture_builder a"
    by (simp add: ranking_key_def resolution_delta_def frame_rate_delta_def)
  have ok: "acceptable capture_builder a" "acceptable capture_builder b"
    by (simp_all add: acceptable_def capture_builder_def accepts_format_def config_validate_def
        frame_size_def frame_data_size_def checked_pixel_count_def checked_mul_def usize_bound_def
        a_def b_def camera_config_new_def)
  have "a \<noteq> b" by (simp add: a_def b_def camera_config_new_def)
  then have "rank_capture_configurations capture_builder [a, b, a] = Ok [a, b, a]"
    by (simp add: rank_capture_configurations_def ok key sort_key_def)
  then show ?thesis by (intro exI [of _ "[a, b, a]"]) simp
qed

end
