(* ===== verification/Controls.thy ===== *)
theory Controls
  imports Backends Negotiate
begin

text \<open>
  Camera controls (\<open>src/controls.rs\<close>): the mapping of backend-neutral controls to the native
  ones of each backend, the decoding of native values, the descriptors, and the operations of a
  session that read and change controls.
\<close>

section \<open>Identifiers and values\<close>

datatype control_id =
  IdExposureMode | IdExposureTime | IdExposureCompensation | IdFocusMode | IdFocusPosition
  | IdWhiteBalanceMode | IdWhiteBalanceTemperature | IdZoom | IdBrightness | IdContrast | IdHue
  | IdSaturation | IdSharpness | IdGamma | IdBacklightCompensation | IdGain | IdPan | IdTilt
  | IdIris

fun control_id_debug :: "control_id \<Rightarrow> string" where
  "control_id_debug IdExposureMode = ''ExposureMode''"
| "control_id_debug IdExposureTime = ''ExposureTime''"
| "control_id_debug IdExposureCompensation = ''ExposureCompensation''"
| "control_id_debug IdFocusMode = ''FocusMode''"
| "control_id_debug IdFocusPosition = ''FocusPosition''"
| "control_id_debug IdWhiteBalanceMode = ''WhiteBalanceMode''"
| "control_id_debug IdWhiteBalanceTemperature = ''WhiteBalanceTemperature''"
| "control_id_debug IdZoom = ''Zoom''"
| "control_id_debug IdBrightness = ''Brightness''"
| "control_id_debug IdContrast = ''Contrast''"
| "control_id_debug IdHue = ''Hue''"
| "control_id_debug IdSaturation = ''Saturation''"
| "control_id_debug IdSharpness = ''Sharpness''"
| "control_id_debug IdGamma = ''Gamma''"
| "control_id_debug IdBacklightCompensation = ''BacklightCompensation''"
| "control_id_debug IdGain = ''Gain''"
| "control_id_debug IdPan = ''Pan''"
| "control_id_debug IdTilt = ''Tilt''"
| "control_id_debug IdIris = ''Iris''"

datatype control_unit =
  UnitBoolean | UnitMode | UnitNative | UnitHundredMicroseconds | UnitLog2Seconds | UnitMilliEv
  | UnitCompensationIndex | UnitKelvin | UnitPercent | UnitDegrees | UnitArcSeconds | UnitIso

fun mode_debug :: "control_mode \<Rightarrow> string" where
  "mode_debug ModeManual = ''Manual''"
| "mode_debug ModeAutomatic = ''Automatic''"
| "mode_debug ModeLocked = ''Locked''"
| "mode_debug ModeSingle = ''Single''"
| "mode_debug ModeContinuous = ''Continuous''"

text \<open>
  An \<open>f64\<close>: a rational number, an infinity or NaN.  The operations below are exact on the values
  they meet: integers of at most 33 bits.
\<close>

datatype f64 = Fin rat | PosInf | NegInf | NaN

fun f64_less :: "f64 \<Rightarrow> f64 \<Rightarrow> bool" where
  "f64_less (Fin a) (Fin b) \<longleftrightarrow> a < b"
| "f64_less (Fin _) PosInf \<longleftrightarrow> True"
| "f64_less NegInf (Fin _) \<longleftrightarrow> True"
| "f64_less NegInf PosInf \<longleftrightarrow> True"
| "f64_less _ _ \<longleftrightarrow> False"

definition f64_of_i32 :: "i32 \<Rightarrow> f64" where
  "f64_of_i32 v = Fin (of_int (sint v))"

text \<open>\<open>v as f64\<close> of an \<open>f32\<close>, given by its bit pattern.\<close>

definition f64_of_f32 :: "u32 \<Rightarrow> f64" where
  "f64_of_f32 w =
     (let e = f32_exponent w; m = f32_fraction w in
      if e = 255 then (if m \<noteq> 0 then NaN else if f32_sign w then NegInf else PosInf)
      else
        let significand = (if e = 0 then m else 8388608 + m);
            magnitude = of_nat significand * 2 ^ max e 1 / (2 ^ 150 :: rat)
        in Fin (if f32_sign w then - magnitude else magnitude))"

datatype control_value = Number f64 | ModeValue control_mode

datatype control_readback = Actual control_value | Requested control_value | UnknownReadback

definition kelvin_new :: "u32 \<Rightarrow> u32 camera_result" where
  "kelvin_new v =
     (if \<not> (1000 \<le> v \<and> v \<le> 40000)
      then Err (invalid_config ''White-balance temperature must be 1000..=40000 K'')
      else Ok v)"

datatype exposure = ExposureAuto | ExposureManual duration

datatype white_balance = WhiteBalanceAuto | WhiteBalanceTemperature u32

datatype focus = FocusAuto | FocusPosition f64

record value_range =
  vr_min :: f64
  vr_max :: f64
  vr_step :: "f64 option"
  vr_default :: "control_value option"

record control_descriptor =
  cd_id :: control_id
  cd_unit :: control_unit
  cd_readable :: bool
  cd_writable :: "bool option"
  cd_range :: "value_range option"
  cd_modes :: "control_mode list"
  cd_requires_manual :: "control_id option"

record control_outcome =
  co_id :: control_id
  co_result :: "unit camera_result"

section \<open>Native controls\<close>

definition mapping ::
  "backend_type \<Rightarrow> control_id \<Rightarrow> (camera_control_type \<times> control_unit) camera_result" where
  "mapping backend i =
     (let av = (backend = AVFoundation); c2 = (backend = Camera2);
          unsupported = Err (control_not_supported
            (control_id_debug i @ '' on '' @ display_name backend))
      in case i of
          IdExposureMode \<Rightarrow> Ok (if av then Exposure else AutoExposure, UnitMode)
        | IdExposureTime \<Rightarrow>
            if av \<or> c2 then unsupported
            else Ok (Exposure, if backend = MediaFoundation then UnitLog2Seconds
                               else UnitHundredMicroseconds)
        | IdExposureCompensation \<Rightarrow>
            if av then Ok (Brightness, UnitMilliEv)
            else if c2 then Ok (Exposure, UnitCompensationIndex)
            else unsupported
        | IdFocusMode \<Rightarrow> Ok (if av then Focus else AutoFocus, UnitMode)
        | IdWhiteBalanceMode \<Rightarrow> Ok (if av then WhiteBalance else AutoWhiteBalance, UnitMode)
        | IdFocusPosition \<Rightarrow> if av \<or> c2 then unsupported else Ok (Focus, UnitNative)
        | IdWhiteBalanceTemperature \<Rightarrow>
            if av \<or> c2 then unsupported else Ok (WhiteBalance, UnitKelvin)
        | IdBrightness \<Rightarrow> if av \<or> c2 then unsupported else Ok (Brightness, UnitNative)
        | IdContrast \<Rightarrow> Ok (Contrast, UnitNative)
        | IdHue \<Rightarrow> Ok (Hue, UnitNative)
        | IdSaturation \<Rightarrow> Ok (Saturation, UnitNative)
        | IdSharpness \<Rightarrow> Ok (Sharpness, UnitNative)
        | IdGamma \<Rightarrow> Ok (Gamma, UnitNative)
        | IdBacklightCompensation \<Rightarrow> Ok (BacklightCompensation, UnitNative)
        | IdGain \<Rightarrow> Ok (Gain, if c2 then UnitIso else UnitNative)
        | IdZoom \<Rightarrow> Ok (Zoom, if av \<or> c2 then UnitPercent else UnitNative)
        | IdPan \<Rightarrow> Ok (Pan, UnitNative)
        | IdTilt \<Rightarrow> Ok (Tilt, UnitNative)
        | IdIris \<Rightarrow> Ok (Iris, UnitNative))"

definition IDS :: "control_id list" where
  "IDS =
     [IdExposureMode, IdExposureTime, IdExposureCompensation, IdFocusMode, IdFocusPosition,
      IdWhiteBalanceMode, IdWhiteBalanceTemperature, IdZoom, IdBrightness, IdContrast, IdHue,
      IdSaturation, IdSharpness, IdGamma, IdBacklightCompensation, IdGain, IdPan, IdTilt, IdIris]"

definition decode ::
  "backend_type \<Rightarrow> control_id \<Rightarrow> camera_control_value \<Rightarrow> control_value camera_result" where
  "decode backend i v =
     and_then (mapping backend i) (\<lambda>(_, u).
       if u = UnitMode
       then (if backend = AVFoundation
             then (if as_i32 v = Some 0 then Ok (ModeValue ModeLocked)
                   else if as_i32 v = Some 1 then Ok (ModeValue ModeSingle)
                   else if as_i32 v = Some 2 then Ok (ModeValue ModeContinuous)
                   else Err (control_not_readable ''Unknown native mode''))
             else Ok (ModeValue (if as_bool v = Some True then ModeAutomatic else ModeManual)))
       else (case v of
               Float w \<Rightarrow> Ok (Number (f64_of_f32 w))
             | _ \<Rightarrow> and_then (ok_or (as_i32 v) (control_not_readable ''Native numeric value''))
                     (\<lambda>n. Ok (Number (f64_of_i32 n)))))"

definition describe_range ::
  "backend_type \<Rightarrow> control_id \<Rightarrow> camera_control_type \<Rightarrow> control_range \<Rightarrow> value_range" where
  "describe_range backend i raw r =
     \<lparr>vr_min = f64_of_i32 (rng_min r), vr_max = f64_of_i32 (rng_max r),
      vr_step = (if sint (rng_step r) > 0 then Some (f64_of_i32 (rng_step r)) else None),
      vr_default =
        (if backend = Camera2 then None
         else ok (decode backend i
                (if is_auto_control raw then Boolean (rng_default r \<noteq> 0)
                 else manual (rng_default r))))\<rparr>"

definition camera2_mode :: "control_id \<Rightarrow> i32 \<Rightarrow> control_mode option" where
  "camera2_mode i v =
     (if i = IdFocusMode \<and> v = 0 then Some ModeManual
      else if i = IdFocusMode \<and> v = 1 then Some ModeSingle
      else if i = IdFocusMode \<and> (v = 3 \<or> v = 4) then Some ModeContinuous
      else if (i = IdExposureMode \<or> i = IdWhiteBalanceMode) \<and> v = 0 then Some ModeManual
      else if (i = IdExposureMode \<or> i = IdWhiteBalanceMode) \<and> v = 1 then Some ModeAutomatic
      else None)"

definition avfoundation_mode :: "control_id \<Rightarrow> i32 \<Rightarrow> control_mode option" where
  "avfoundation_mode i v =
     (case ok (decode AVFoundation i (manual v)) of Some (ModeValue m) \<Rightarrow> Some m | _ \<Rightarrow> None)"

definition requires_manual :: "control_id \<Rightarrow> control_id option" where
  "requires_manual i =
     (case i of
        IdExposureTime \<Rightarrow> Some IdExposureMode
      | IdFocusPosition \<Rightarrow> Some IdFocusMode
      | IdWhiteBalanceTemperature \<Rightarrow> Some IdWhiteBalanceMode
      | _ \<Rightarrow> None)"

text \<open>
  The modes and the writability a driver adds to the descriptor: \<open>modes\<close> and \<open>limits\<close> are the
  values the function has computed before the \<open>match camera\<close>.
\<close>

definition driver_modes ::
  "'d platform \<Rightarrow> 'd backend_camera \<Rightarrow> control_id \<Rightarrow> camera_control_type \<Rightarrow> control_unit \<Rightarrow>
     control_mode list \<Rightarrow> value_range option \<Rightarrow> (control_mode list \<times> bool option) camera_result" where
  "driver_modes P cam i raw u modes limits =
     (case cam of
        Camera2Camera _ \<Rightarrow>
          if u = UnitMode
          then and_then (ask P (\<lambda>D. drv_supported_modes D raw) cam) (\<lambda>vs.
                 let ms = remdups_adj (List.map_filter (camera2_mode i) vs) in Ok (ms, Some (ms \<noteq> [])))
          else Ok (modes, map_option (\<lambda>r. f64_less (vr_min r) (vr_max r)) limits)
      | UvcCamera _ \<Rightarrow>
          if i = IdExposureMode
          then and_then (ask P drv_exposure_modes cam) (\<lambda>ms. Ok (ms, None))
          else Ok (modes, None)
      | AVFoundationCamera _ \<Rightarrow>
          if u = UnitMode
          then and_then (ask P (\<lambda>D. drv_supported_modes D raw) cam) (\<lambda>vs.
                 let ms = List.map_filter (avfoundation_mode i) vs in Ok (ms, Some (ms \<noteq> [])))
          else Ok (modes, Some True)
      | V4l2Camera _ \<Rightarrow>
          and_then (ask P (\<lambda>D. drv_control_writable D raw) cam) (\<lambda>w.
            if i = IdExposureMode
            then and_then (ask P drv_exposure_modes cam) (\<lambda>ms. Ok (ms, Some w))
            else Ok (modes, Some w))
      | MFCamera _ \<Rightarrow> Ok (modes, None))"

definition descriptor ::
  "'d platform \<Rightarrow> 'd backend_camera \<Rightarrow> control_id \<Rightarrow> control_descriptor camera_result" where
  "descriptor P cam i =
     (let backend = camera_backend_type cam in
      and_then (mapping backend i) (\<lambda>(raw, u).
        if \<not> camera_supports_control P raw cam
        then Err (control_not_supported (control_id_debug i))
        else
          let readable = (backend \<noteq> Camera2 \<and> is_ok (camera_get_control P raw cam));
              limits = map_option (describe_range backend i raw) (ok (camera_get_control_range P raw cam));
              modes = (if u = UnitMode
                       then (if backend = AVFoundation then [ModeLocked, ModeSingle, ModeContinuous]
                             else [ModeManual, ModeAutomatic])
                       else [])
          in and_then (driver_modes P cam i raw u modes limits) (\<lambda>(modes, writable).
               Ok \<lparr>cd_id = i, cd_unit = u, cd_readable = readable, cd_writable = writable,
                   cd_range = limits, cd_modes = modes, cd_requires_manual = requires_manual i\<rparr>)))"

section \<open>Setting a control\<close>

text \<open>\<open>%\<close> on \<open>f64\<close>: the remainder of the truncated division, exact on integers.\<close>

definition rat_truncate :: "rat \<Rightarrow> int" where
  "rat_truncate x = (if 0 \<le> x then \<lfloor>x\<rfloor> else \<lceil>x\<rceil>)"

definition rat_rem :: "rat \<Rightarrow> rat \<Rightarrow> rat" where
  "rat_rem a b = a - b * of_int (rat_truncate (a / b))"

text \<open>\<open>v as i32\<close> for a finite integral \<open>v\<close>, when it is representable.\<close>

definition representable :: "f64 \<Rightarrow> int option" where
  "representable v =
     (case v of
        Fin x \<Rightarrow>
          if x - of_int (rat_truncate x) \<noteq> 0 \<or> x < - 2147483648 \<or> 2147483647 < x then None
          else Some (rat_truncate x)
      | _ \<Rightarrow> None)"

definition off_step :: "f64 \<Rightarrow> f64 \<Rightarrow> f64 option \<Rightarrow> bool" where
  "off_step v lo step =
     (case step of
        Some s \<Rightarrow>
          (case (v, lo, s) of
             (Fin x, Fin a, Fin d) \<Rightarrow> 0 < d \<and> rat_rem (x - a) d \<noteq> 0
           | _ \<Rightarrow> False)
      | None \<Rightarrow> False)"

definition in_value_range :: "f64 \<Rightarrow> value_range \<Rightarrow> bool" where
  "in_value_range v r \<longleftrightarrow>
     \<not> (f64_less v (vr_min r) \<or> f64_less (vr_max r) v \<or> off_step v (vr_min r) (vr_step r))"

text \<open>
  The native value of a request: \<open>Ok (raw, value)\<close> is what the code hands to the driver.  The
  Camera2 branch returns early with the native mode number.
\<close>

definition mode_value ::
  "'d platform \<Rightarrow> 'd backend_camera \<Rightarrow> control_id \<Rightarrow> camera_control_type \<Rightarrow> control_descriptor \<Rightarrow>
     control_mode \<Rightarrow> camera_control_value camera_result" where
  "mode_value P cam i raw desc mode =
     (let backend = camera_backend_type cam in
      if mode \<notin> set (cd_modes desc)
      then (if backend = V4l2
            then Err (control_not_supported (control_id_debug i @ '': '' @ mode_debug mode))
            else Err (invalid_config ''Invalid control mode''))
      else if backend = Camera2
      then and_then (ask P (\<lambda>D. drv_supported_modes D raw) cam) (\<lambda>vs.
             case filter (\<lambda>v. camera2_mode i v = Some mode) vs of
               v # _ \<Rightarrow> Ok (manual v)
             | [] \<Rightarrow> Err (control_not_supported ''Camera2 mode''))
      else if backend = AVFoundation
      then (case mode of
              ModeLocked \<Rightarrow> Ok (manual 0)
            | ModeSingle \<Rightarrow> Ok (manual 1)
            | ModeContinuous \<Rightarrow> Ok (manual 2)
            | _ \<Rightarrow> Panic)
      else Ok (Boolean (mode = ModeAutomatic)))"

definition number_value :: "control_descriptor \<Rightarrow> f64 \<Rightarrow> camera_control_value camera_result" where
  "number_value desc v =
     (case representable v of
        None \<Rightarrow> Err (invalid_config ''Native control expects a finite representable integer'')
      | Some n \<Rightarrow>
          if (case cd_range desc of Some r \<Rightarrow> \<not> in_value_range v r | None \<Rightarrow> False)
          then Err (invalid_config ''Control value outside native range/step'')
          else Ok (manual (word_of_int n)))"

definition native_value ::
  "'d platform \<Rightarrow> 'd backend_camera \<Rightarrow> control_id \<Rightarrow> control_value \<Rightarrow>
     (camera_control_type \<times> camera_control_value) camera_result" where
  "native_value P cam i v =
     and_then (mapping (camera_backend_type cam) i) (\<lambda>(raw, u).
     and_then (descriptor P cam i) (\<lambda>desc.
       if cd_writable desc = Some False then Err (control_not_supported ''Read-only control'')
       else and_then
         (case v of
            ModeValue mode \<Rightarrow>
              if u = UnitMode then mode_value P cam i raw desc mode
              else Err (invalid_config ''Control value kind differs from descriptor'')
          | Number x \<Rightarrow>
              if u \<noteq> UnitMode then number_value desc x
              else Err (invalid_config ''Control value kind differs from descriptor''))
         (\<lambda>rv. Ok (raw, rv))))"

definition native_set_control ::
  "'d platform \<Rightarrow> control_id \<Rightarrow> control_value \<Rightarrow> 'd backend_camera \<Rightarrow> 'd backend_camera \<times> unit camera_result"
where
  "native_set_control P i v cam =
     (case native_value P cam i v of
        Ok (raw, rv) \<Rightarrow> camera_set_control P raw rv cam
      | Err e \<Rightarrow> (cam, Err e)
      | Panic \<Rightarrow> (cam, Panic))"

section \<open>Operations of a session\<close>

text \<open>
  What the control operations use of a session: the backend of its device, the stop flag, its
  source (a native camera unless a reconnection has taken it away) and the requested values.
  Each operation runs under the lifecycle lock of the session.
\<close>

datatype 'd control_source = NativeControl "'d backend_camera option" | NoControl

record 'd controlled =
  ct_backend :: backend_id
  ct_stopping :: bool
  ct_source :: "'d control_source"
  ct_requested :: "control_id \<rightharpoonup> control_value"

definition with_native ::
  "('d backend_camera \<Rightarrow> 'd backend_camera \<times> 'r camera_result) \<Rightarrow> 'd controlled \<Rightarrow>
     'd controlled \<times> 'r camera_result" where
  "with_native operation s =
     (if ct_stopping s then (s, Err stream_stopped)
      else case ct_source s of
          NoControl \<Rightarrow>
            (s, Err (control_not_supported ''Synthetic source has no device controls''))
        | NativeControl None \<Rightarrow> (s, Err (disconnected ''Device is reconnecting''))
        | NativeControl (Some cam) \<Rightarrow>
            (case operation cam of
               (cam, r) \<Rightarrow> (s\<lparr>ct_source := NativeControl (Some cam)\<rparr>, r)))"

definition requested_control :: "control_id \<Rightarrow> 'd controlled \<Rightarrow> control_value option" where
  "requested_control i s = ct_requested s i"

definition record_control :: "control_id \<Rightarrow> control_value \<Rightarrow> 'd controlled \<Rightarrow> 'd controlled" where
  "record_control i v s = s\<lparr>ct_requested := (ct_requested s)(i \<mapsto> v)\<rparr>"

fun collect_descriptors ::
  "'d platform \<Rightarrow> 'd backend_camera \<Rightarrow> control_id list \<Rightarrow> control_descriptor list camera_result" where
  "collect_descriptors P cam [] = Ok []"
| "collect_descriptors P cam (i # is) =
     (case descriptor P cam i of
        Ok d \<Rightarrow> and_then (collect_descriptors P cam is) (\<lambda>ds. Ok (d # ds))
      | Err e \<Rightarrow> if err_kind e = ControlNotSupported then collect_descriptors P cam is else Err e
      | Panic \<Rightarrow> Panic)"

definition controls ::
  "'d platform \<Rightarrow> 'd controlled \<Rightarrow> 'd controlled \<times> control_descriptor list camera_result" where
  "controls P s =
     (if ct_backend s = SYNTHETIC then (s, Ok [])
      else with_native (\<lambda>cam. (cam, collect_descriptors P cam IDS)) s)"

definition control ::
  "'d platform \<Rightarrow> control_id \<Rightarrow> 'd controlled \<Rightarrow> 'd controlled \<times> control_readback camera_result" where
  "control P i s =
     (case with_native (\<lambda>cam. (cam,
          and_then (mapping (camera_backend_type cam) i) (\<lambda>(raw, _).
          and_then (camera_get_control P raw cam) (\<lambda>v.
            decode (camera_backend_type cam) i v)))) s of
        (s, Ok v) \<Rightarrow> (s, Ok (Actual v))
      | (s, Err e) \<Rightarrow>
          if err_kind e = ControlNotReadable
          then (s, Ok (case requested_control i s of None \<Rightarrow> UnknownReadback | Some v \<Rightarrow> Requested v))
          else (s, Err e)
      | (s, Panic) \<Rightarrow> (s, Panic))"

definition set_control ::
  "'d platform \<Rightarrow> control_id \<Rightarrow> control_value \<Rightarrow> 'd controlled \<Rightarrow> 'd controlled \<times> unit camera_result" where
  "set_control P i v s =
     (case with_native (native_set_control P i v) s of
        (s, Ok _) \<Rightarrow> (record_control i v s, Ok ())
      | (s, r) \<Rightarrow> (s, r))"

fun set_controls ::
  "'d platform \<Rightarrow> (control_id \<times> control_value) list \<Rightarrow> 'd controlled \<Rightarrow>
     'd controlled \<times> control_outcome list" where
  "set_controls P [] s = (s, [])"
| "set_controls P ((i, v) # rest) s =
     (case set_control P i v s of
        (s, r) \<Rightarrow> (case set_controls P rest s of
          (s, os) \<Rightarrow> (s, \<lparr>co_id = i, co_result = r\<rparr> # os)))"

fun reset_each ::
  "'d platform \<Rightarrow> control_descriptor list \<Rightarrow> 'd controlled \<Rightarrow> 'd controlled \<times> control_outcome list" where
  "reset_each P [] s = (s, [])"
| "reset_each P (d # ds) s =
     (case (case Option.bind (cd_range d) vr_default of
              Some v \<Rightarrow> set_control P (cd_id d) v s
            | None \<Rightarrow> (s, Err (control_not_supported ''Native default is unavailable''))) of
        (s, r) \<Rightarrow> (case reset_each P ds s of
          (s, os) \<Rightarrow> (s, \<lparr>co_id = cd_id d, co_result = r\<rparr> # os)))"

definition reset_controls ::
  "'d platform \<Rightarrow> 'd controlled \<Rightarrow> 'd controlled \<times> control_outcome list camera_result" where
  "reset_controls P s =
     (case controls P s of
        (s, Ok ds) \<Rightarrow> (case reset_each P ds s of (s, os) \<Rightarrow> (s, Ok os))
      | (s, Err e) \<Rightarrow> (s, Err e)
      | (s, Panic) \<Rightarrow> (s, Panic))"

text \<open>
  Exposure durations: \<open>as_secs_f64() * 10_000.0\<close> rounds the quotient of the nanoseconds, the sum
  with the seconds and the product.  \<open>f64::log2\<close> is the platform's, a parameter.
\<close>

definition f64_value :: "nat \<times> int \<Rightarrow> rat" where
  "f64_value x = of_nat (fst x * 2 ^ nat (snd x)) / 2 ^ nat (- snd x)"

definition f64_add :: "nat \<times> int \<Rightarrow> nat \<times> int \<Rightarrow> nat \<times> int" where
  "f64_add a b =
     (let e = min (min (snd a) (snd b)) 0
      in f64_of_ratio0 (fst a * 2 ^ nat (snd a - e) + fst b * 2 ^ nat (snd b - e)) (2 ^ nat (- e)))"

definition as_secs_f64 :: "duration \<Rightarrow> nat \<times> int" where
  "as_secs_f64 d =
     f64_add (f64_of_ratio0 (d div 1000000000) 1) (f64_of_ratio0 (d mod 1000000000) 1000000000)"

definition round_rat :: "rat \<Rightarrow> rat" where
  "round_rat x = of_int (if 0 \<le> x then \<lfloor>x + 1 / 2\<rfloor> else \<lceil>x - 1 / 2\<rceil>)"

definition set_exposure_time ::
  "'d platform \<Rightarrow> (nat \<times> int \<Rightarrow> f64) \<Rightarrow> duration \<Rightarrow> 'd controlled \<Rightarrow> 'd controlled \<times> unit camera_result"
where
  "set_exposure_time P log2 d s =
     (case controls P s of
        (s, Ok ds) \<Rightarrow>
          (case find (\<lambda>c. cd_id c = IdExposureTime) ds of
             None \<Rightarrow> (s, Err (control_not_supported ''Exposure duration''))
           | Some c \<Rightarrow>
               if cd_unit c \<noteq> UnitHundredMicroseconds \<and> cd_unit c \<noteq> UnitLog2Seconds
               then (s, Err (control_not_supported ''Exposure duration unit''))
               else
                 case (if cd_unit c = UnitHundredMicroseconds
                       then Fin (f64_value (f64_scale 10000 (as_secs_f64 d)))
                       else log2 (as_secs_f64 d)) of
                   Fin x \<Rightarrow>
                     if \<bar>x - round_rat x\<bar> > f64_value (f64_of_ratio 1 1000000)
                     then (s, Err (invalid_config
                       ''Duration is not representable in the native control unit''))
                     else set_control P IdExposureTime (Number (Fin (round_rat x))) s
                 | _ \<Rightarrow> (s, Err (invalid_config
                       ''Duration is not representable in the native control unit'')))
      | (s, Err e) \<Rightarrow> (s, Err e)
      | (s, Panic) \<Rightarrow> (s, Panic))"

text \<open>\<open>?\<close> after a first control.\<close>

definition then_control ::
  "'d controlled \<times> unit camera_result \<Rightarrow> ('d controlled \<Rightarrow> 'd controlled \<times> unit camera_result) \<Rightarrow>
     'd controlled \<times> unit camera_result" where
  "then_control r k = (case r of (s, Ok _) \<Rightarrow> k s | (s, e) \<Rightarrow> (s, e))"

definition set_exposure ::
  "'d platform \<Rightarrow> (nat \<times> int \<Rightarrow> f64) \<Rightarrow> exposure \<Rightarrow> 'd controlled \<Rightarrow> 'd controlled \<times> unit camera_result"
where
  "set_exposure P log2 v s =
     (case v of
        ExposureAuto \<Rightarrow> set_control P IdExposureMode (ModeValue ModeAutomatic) s
      | ExposureManual d \<Rightarrow>
          then_control (set_control P IdExposureMode (ModeValue ModeManual) s)
            (set_exposure_time P log2 d))"

definition set_white_balance ::
  "'d platform \<Rightarrow> white_balance \<Rightarrow> 'd controlled \<Rightarrow> 'd controlled \<times> unit camera_result" where
  "set_white_balance P v s =
     (case v of
        WhiteBalanceAuto \<Rightarrow> set_control P IdWhiteBalanceMode (ModeValue ModeAutomatic) s
      | WhiteBalanceTemperature k \<Rightarrow>
          then_control (set_control P IdWhiteBalanceMode (ModeValue ModeManual) s)
            (set_control P IdWhiteBalanceTemperature (Number (Fin (of_nat (unat k))))))"

definition set_focus ::
  "'d platform \<Rightarrow> focus \<Rightarrow> 'd controlled \<Rightarrow> 'd controlled \<times> unit camera_result" where
  "set_focus P v s =
     (case v of
        FocusAuto \<Rightarrow> set_control P IdFocusMode (ModeValue ModeAutomatic) s
      | FocusPosition x \<Rightarrow>
          then_control (set_control P IdFocusMode (ModeValue ModeManual) s)
            (set_control P IdFocusPosition (Number x)))"

section \<open>Lemmas\<close>

lemma rat_truncate_of_int [simp]: "rat_truncate (of_int n) = n"
  by (simp add: rat_truncate_def)

lemma representable_eq_Some:
  "representable v = Some n \<longleftrightarrow> v = Fin (of_int n) \<and> - 2147483648 \<le> n \<and> n \<le> 2147483647"
proof (cases v)
  case (Fin x)
  show ?thesis
  proof (cases "x = of_int (rat_truncate x)")
    case True
    then obtain k where k: "x = of_int k" by blast
    have "(of_int k < (- 2147483648 :: rat)) = (k < - 2147483648)"
      "((2147483647 :: rat) < of_int k) = (2147483647 < k)"
      using of_int_less_iff [where 'a = rat, of k "- 2147483648"]
        of_int_less_iff [where 'a = rat, of 2147483647 k] by simp_all
    then show ?thesis by (auto simp: representable_def Fin k)
  next
    case False
    then have "x \<noteq> of_int n" for n by auto
    with False show ?thesis by (simp add: representable_def Fin)
  qed
qed (simp_all add: representable_def)

lemma rat_rem_zero:
  assumes "0 < d" "0 \<le> a"
  shows "rat_rem (of_int a) (of_int d) = 0 \<longleftrightarrow> d dvd a"
proof -
  have "rat_truncate (of_int a / of_int d) = a div d"
    using assms by (simp add: rat_truncate_def floor_divide_of_int_eq)
  then have "rat_rem (of_int a) (of_int d) = of_int (a - d * (a div d))"
    by (simp add: rat_rem_def)
  also have "a - d * (a div d) = a mod d" by (simp add: minus_mult_div_eq_mod)
  finally show ?thesis by (simp add: dvd_eq_mod_eq_0)
qed

lemma described_range:
  assumes "in_value_range (Fin (of_int n)) (describe_range backend i raw r)"
  shows "sint (rng_min r) \<le> n" "n \<le> sint (rng_max r)"
    "0 < sint (rng_step r) \<Longrightarrow> sint (rng_step r) dvd n - sint (rng_min r)"
proof -
  from assms show lo: "sint (rng_min r) \<le> n" and "n \<le> sint (rng_max r)"
    by (simp_all add: in_value_range_def describe_range_def f64_of_i32_def del: of_int_sint)
  assume step: "0 < sint (rng_step r)"
  with assms have "rat_rem (of_int n - of_int (sint (rng_min r))) (of_int (sint (rng_step r))) = 0"
    by (simp add: in_value_range_def describe_range_def f64_of_i32_def off_step_def del: of_int_sint)
  then have "rat_rem (of_int (n - sint (rng_min r))) (of_int (sint (rng_step r))) = 0"
    by (simp del: of_int_sint)
  then show "sint (rng_step r) dvd n - sint (rng_min r)"
    using rat_rem_zero [OF step, of "n - sint (rng_min r)"] lo by (simp del: of_int_sint)
qed

lemma decode_avfoundation_mode:
  "decode AVFoundation i v = Ok (ModeValue m) \<Longrightarrow> m \<in> {ModeLocked, ModeSingle, ModeContinuous}"
  by (auto simp: decode_def result_simps split: if_splits camera_control_value.splits)

lemma avfoundation_mode_cases:
  "avfoundation_mode i v = Some m \<Longrightarrow> m \<in> {ModeLocked, ModeSingle, ModeContinuous}"
  by (rule decode_avfoundation_mode)
    (auto simp: avfoundation_mode_def result_simps split: option.splits control_value.splits)

lemma set_map_filter: "y \<in> set (List.map_filter f xs) \<longleftrightarrow> (\<exists>x \<in> set xs. f x = Some y)"
  by (induction xs) (auto simp: List.map_filter_simps split: option.splits)

lemma descriptor_Ok:
  assumes "descriptor P cam i = Ok d"
  obtains raw where "mapping (camera_backend_type cam) i = Ok (raw, cd_unit d)"
    "cd_range d = map_option (describe_range (camera_backend_type cam) i raw)
      (ok (camera_get_control_range P raw cam))"
    "driver_modes P cam i raw (cd_unit d)
      (if cd_unit d = UnitMode
       then (if camera_backend_type cam = AVFoundation then [ModeLocked, ModeSingle, ModeContinuous]
             else [ModeManual, ModeAutomatic]) else []) (cd_range d) = Ok (cd_modes d, cd_writable d)"
  using assms by (fastforce simp: descriptor_def Let_def result_simps split: if_splits prod.splits)

lemma avfoundation_modes:
  assumes "descriptor P (AVFoundationCamera c) i = Ok d"
  shows "set (cd_modes d) \<subseteq> {ModeLocked, ModeSingle, ModeContinuous}"
  using assms
proof (rule descriptor_Ok)
  fix raw
  assume "driver_modes P (AVFoundationCamera c) i raw (cd_unit d)
      (if cd_unit d = UnitMode
       then (if camera_backend_type (AVFoundationCamera c) = AVFoundation
             then [ModeLocked, ModeSingle, ModeContinuous]
             else [ModeManual, ModeAutomatic]) else []) (cd_range d) = Ok (cd_modes d, cd_writable d)"
  then have "cd_modes d = [] \<or> (\<exists>vs. cd_modes d = List.map_filter (avfoundation_mode i) vs)"
    by (cases "cd_unit d = UnitMode")
      (auto simp: driver_modes_def Let_def result_simps dest: sym [of _ "cd_modes d"])
  then show ?thesis
    by (auto simp: set_map_filter dest: avfoundation_mode_cases)
qed

lemma camera2_modes:
  assumes "descriptor P (Camera2Camera c) IdFocusMode = Ok d"
  shows "ModeAutomatic \<notin> set (cd_modes d)"
  using assms
proof (rule descriptor_Ok)
  fix raw
  assume m: "mapping (camera_backend_type (Camera2Camera c)) IdFocusMode = Ok (raw, cd_unit d)"
  assume "driver_modes P (Camera2Camera c) IdFocusMode raw (cd_unit d)
      (if cd_unit d = UnitMode
       then (if camera_backend_type (Camera2Camera c) = AVFoundation
             then [ModeLocked, ModeSingle, ModeContinuous]
             else [ModeManual, ModeAutomatic]) else []) (cd_range d) = Ok (cd_modes d, cd_writable d)"
  with m obtain vs where "remdups_adj (List.map_filter (camera2_mode IdFocusMode) vs) = cd_modes d"
    by (auto simp: driver_modes_def mapping_def Let_def result_simps)
  then have "set (cd_modes d) = set (List.map_filter (camera2_mode IdFocusMode) vs)"
    by (metis remdups_adj_set)
  then show ?thesis by (auto simp: set_map_filter camera2_mode_def split: if_splits)
qed

lemma native_value_Ok:
  assumes "native_value P cam i v = Ok (raw, rv)"
  obtains desc where "mapping (camera_backend_type cam) i = Ok (raw, cd_unit desc)"
    "descriptor P cam i = Ok desc" "cd_writable desc \<noteq> Some False"
    "\<And>m. v = ModeValue m \<Longrightarrow> m \<in> set (cd_modes desc)"
    "\<And>x. v = Number x \<Longrightarrow> number_value desc x = Ok rv"
proof -
  from assms obtain u desc where m: "mapping (camera_backend_type cam) i = Ok (raw, u)"
    and d: "descriptor P cam i = Ok desc" and w: "cd_writable desc \<noteq> Some False"
    and x: "(case v of
            ModeValue mode \<Rightarrow>
              if u = UnitMode then mode_value P cam i raw desc mode
              else Err (invalid_config ''Control value kind differs from descriptor'')
          | Number x \<Rightarrow>
              if u \<noteq> UnitMode then number_value desc x
              else Err (invalid_config ''Control value kind differs from descriptor'')) = Ok rv"
    by (auto simp: native_value_def result_simps split: if_splits)
  have u: "u = cd_unit desc"
  proof (rule descriptor_Ok [OF d])
    fix raw'
    assume "mapping (camera_backend_type cam) i = Ok (raw', cd_unit desc)"
    with m show ?thesis by simp
  qed
  show ?thesis
  proof (rule that [OF _ d w])
    show "mapping (camera_backend_type cam) i = Ok (raw, cd_unit desc)" using m u by simp
    show "\<And>m. v = ModeValue m \<Longrightarrow> m \<in> set (cd_modes desc)"
      using x by (auto simp: mode_value_def Let_def split: if_splits)
    show "\<And>x. v = Number x \<Longrightarrow> number_value desc x = Ok rv"
      using x by (auto split: if_splits)
  qed
qed

text \<open>The queries of the driver that a descriptor needs come back: they do not panic.\<close>

definition driver_returns :: "'d platform \<Rightarrow> 'd backend_camera \<Rightarrow> bool" where
  "driver_returns P cam \<longleftrightarrow>
     ask P drv_exposure_modes cam \<noteq> Panic
     \<and> (\<forall>raw. ask P (\<lambda>D. drv_supported_modes D raw) cam \<noteq> Panic
           \<and> ask P (\<lambda>D. drv_control_writable D raw) cam \<noteq> Panic)"

lemma mapping_not_Panic: "mapping backend i \<noteq> Panic"
  by (cases i) (simp_all add: mapping_def)

lemma descriptor_not_Panic:
  assumes "driver_returns P cam"
  shows "descriptor P cam i \<noteq> Panic"
proof -
  have "driver_modes P cam i raw u modes limits \<noteq> Panic" for raw u modes limits
    using assms by (cases cam) (auto simp: driver_modes_def driver_returns_def result_simps Let_def)
  then show ?thesis
    by (auto simp: descriptor_def Let_def result_simps mapping_not_Panic)
qed

lemma mode_value_not_Panic:
  assumes "driver_returns P cam" "descriptor P cam i = Ok d"
  shows "mode_value P cam i raw d m \<noteq> Panic"
proof (cases cam)
  case (AVFoundationCamera c)
  then have "set (cd_modes d) \<subseteq> {ModeLocked, ModeSingle, ModeContinuous}"
    using avfoundation_modes [of P c i d] assms(2) by simp
  then show ?thesis
    by (auto simp: mode_value_def Let_def AVFoundationCamera split: control_mode.split)
qed (use assms in \<open>auto simp: mode_value_def Let_def driver_returns_def result_simps split: list.split\<close>)

lemma native_value_not_Panic:
  assumes "driver_returns P cam"
  shows "native_value P cam i v \<noteq> Panic"
  using descriptor_not_Panic [OF assms] mode_value_not_Panic [OF assms]
  by (auto simp: native_value_def result_simps mapping_not_Panic number_value_def
      split: control_value.split option.split)

lemma number_value_Ok:
  assumes "number_value desc x = Ok rv"
    "cd_range desc = map_option (describe_range backend i raw) (ok g)"
  obtains n where "x = Fin (of_int n)" "rv = manual (word_of_int n)" "sint (word_of_int n :: i32) = n"
    "\<And>rng. g = Ok rng \<Longrightarrow> sint (rng_min rng) \<le> n \<and> n \<le> sint (rng_max rng)
      \<and> (sint (rng_step rng) \<le> 0 \<or> sint (rng_step rng) dvd n - sint (rng_min rng))"
proof -
  from assms(1) obtain n where n: "representable x = Some n" and rv: "rv = manual (word_of_int n)"
    and r: "\<And>vr. cd_range desc = Some vr \<Longrightarrow> in_value_range x vr"
    by (auto simp: number_value_def split: option.splits if_splits)
  from n have x: "x = Fin (of_int n)" and b: "- 2147483648 \<le> n" "n \<le> 2147483647"
    by (simp_all add: representable_eq_Some)
  show ?thesis
  proof (rule that [OF x rv])
    show "sint (word_of_int n :: i32) = n"
      using b by (simp add: sint_sbintrunc' signed_take_bit_int_eq_self)
    fix rng
    assume "g = Ok rng"
    with assms(2) r have "in_value_range (Fin (of_int n)) (describe_range backend i raw rng)"
      by (simp add: x)
    from described_range [OF this] show "sint (rng_min rng) \<le> n \<and> n \<le> sint (rng_max rng)
      \<and> (sint (rng_step rng) \<le> 0 \<or> sint (rng_step rng) dvd n - sint (rng_min rng))"
      by (meson not_le)
  qed
qed

text \<open>
  Automatic modes: an AVFoundation camera offers locked, single and continuous modes only, and
  the focus of a Camera2 camera has no automatic mode, yet the convenience operations ask for
  the automatic mode on every backend.
\<close>

lemma automatic_modes_refused:
  assumes "ct_source s = NativeControl (Some (AVFoundationCamera c))"
  shows "snd (set_focus P FocusAuto s) \<noteq> Ok () \<and> snd (set_exposure P log2 ExposureAuto s) \<noteq> Ok ()
    \<and> snd (set_white_balance P WhiteBalanceAuto s) \<noteq> Ok ()"
proof -
  have "native_value P (AVFoundationCamera c) i (ModeValue ModeAutomatic) \<noteq> Ok (raw, rv)" for i raw rv
  proof
    assume "native_value P (AVFoundationCamera c) i (ModeValue ModeAutomatic) = Ok (raw, rv)"
    then show False
    proof (rule native_value_Ok)
      fix desc
      assume "descriptor P (AVFoundationCamera c) i = Ok desc"
        and "\<And>m. ModeValue ModeAutomatic = ModeValue m \<Longrightarrow> m \<in> set (cd_modes desc)"
      then show False using avfoundation_modes by fastforce
    qed
  qed
  then have "snd (native_set_control P i (ModeValue ModeAutomatic) (AVFoundationCamera c)) \<noteq> Ok ()" for i
    by (auto simp: native_set_control_def split: result.split)
  then have "snd (set_control P i (ModeValue ModeAutomatic) s) \<noteq> Ok ()" for i
    using assms by (auto simp: set_control_def with_native_def split: prod.split result.split)
      (metis snd_conv)+
  then show ?thesis
    by (simp add: set_focus_def set_exposure_def set_white_balance_def)
qed

text \<open>What the driver may receive for a control: an offered mode, or an integer that fits \<open>i32\<close>, lies
  in the range the driver reports and is on its step.\<close>

definition offered ::
  "'d platform \<Rightarrow> 'd backend_camera \<Rightarrow> control_descriptor \<Rightarrow> camera_control_type \<Rightarrow>
     control_value \<Rightarrow> camera_control_value \<Rightarrow> bool" where
  "offered P cam desc raw v rv \<longleftrightarrow>
     cd_writable desc \<noteq> Some False
     \<and> (case v of
          ModeValue m \<Rightarrow> m \<in> set (cd_modes desc)
        | Number x \<Rightarrow> \<exists>n. x = Fin (of_int n) \<and> rv = manual (word_of_int n)
            \<and> sint (word_of_int n :: i32) = n
            \<and> (case camera_get_control_range P raw cam of
                 Ok rng \<Rightarrow> sint (rng_min rng) \<le> n \<and> n \<le> sint (rng_max rng)
                   \<and> (sint (rng_step rng) \<le> 0 \<or> sint (rng_step rng) dvd n - sint (rng_min rng))
               | _ \<Rightarrow> True))"

lemma native_value_offered:
  assumes "native_value P cam i v = Ok (raw, rv)"
  obtains desc where "descriptor P cam i = Ok desc" "offered P cam desc raw v rv"
proof (rule native_value_Ok [OF assms])
  fix desc
  assume m: "mapping (camera_backend_type cam) i = Ok (raw, cd_unit desc)"
    and d: "descriptor P cam i = Ok desc" and w: "cd_writable desc \<noteq> Some False"
    and modes: "\<And>m. v = ModeValue m \<Longrightarrow> m \<in> set (cd_modes desc)"
    and numbers: "\<And>x. v = Number x \<Longrightarrow> number_value desc x = Ok rv"
  have range: "cd_range desc = map_option (describe_range (camera_backend_type cam) i raw)
      (ok (camera_get_control_range P raw cam))"
  proof (rule descriptor_Ok [OF d])
    fix raw'
    assume "mapping (camera_backend_type cam) i = Ok (raw', cd_unit desc)"
      "cd_range desc = map_option (describe_range (camera_backend_type cam) i raw')
        (ok (camera_get_control_range P raw' cam))"
    with m show ?thesis by simp
  qed
  have "offered P cam desc raw v rv"
  proof (cases v)
    case (Number x)
    from number_value_Ok [OF numbers [OF Number] range] obtain n where
      "x = Fin (of_int n)" "rv = manual (word_of_int n)" "sint (word_of_int n :: i32) = n"
      "\<And>rng. camera_get_control_range P raw cam = Ok rng \<Longrightarrow>
        sint (rng_min rng) \<le> n \<and> n \<le> sint (rng_max rng)
        \<and> (sint (rng_step rng) \<le> 0 \<or> sint (rng_step rng) dvd n - sint (rng_min rng))"
      by metis
    with w Number show ?thesis
      unfolding offered_def by (auto split: result.split)
  next
    case (ModeValue m)
    with w modes show ?thesis by (simp add: offered_def)
  qed
  with d show thesis by (rule that)
qed

definition example_range :: control_range where
  "example_range =
     \<lparr>rng_min = 0, rng_max = 100, rng_step = 5, rng_default = 50, rng_supports_auto = False\<rparr>"

definition example_driver :: "i32 driver" where
  "example_driver =
     \<lparr>drv_frame_hub = (\<lambda>_. None), drv_capabilities = (\<lambda>_. Err stream_stopped),
      drv_compatible_formats = (\<lambda>_. Ok []), drv_start_stream = (\<lambda>_ d. (d, Ok ())),
      drv_stop_stream = (\<lambda>d. (d, Ok ())), drv_get_latest_frame = (\<lambda>_. Ok None),
      drv_wait_for_frame = (\<lambda>_ d. (d, Err stream_stopped)), drv_is_streaming = (\<lambda>_. False),
      drv_get_config = (\<lambda>_. None), drv_get_stats = (\<lambda>_. stats 0 (hub_new 1 1)),
      drv_set_buffer_size = (\<lambda>_ d. (d, Ok ())), drv_set_camera2_options = (\<lambda>_ d. (d, Ok ())),
      drv_set_avfoundation_options = (\<lambda>_ d. (d, Ok ())), drv_cleanup = (\<lambda>d. d),
      drv_get_control = (\<lambda>_ d. Ok (manual d)),
      drv_set_control = (\<lambda>_ v d. (case v of Integer n _ \<Rightarrow> (n, Ok ()) | _ \<Rightarrow> (d, Ok ()))),
      drv_get_control_range = (\<lambda>_ _. Ok example_range), drv_supports_control = (\<lambda>_ _. True),
      drv_get_supported_controls = (\<lambda>_. [Gain]), drv_reset_control = (\<lambda>_ d. (d, Ok ())),
      drv_reset_all_controls = (\<lambda>d. (d, Ok ())), drv_supported_modes = (\<lambda>_ _. Ok []),
      drv_exposure_modes = (\<lambda>_. Ok [ModeManual]), drv_control_writable = (\<lambda>_ _. Ok True)\<rparr>"

definition example_platform :: "i32 platform" where
  "example_platform =
     \<lparr>pf_driver = (\<lambda>_. example_driver), pf_new_selected = (\<lambda>_ _ _ _. Ok 0),
      pf_v4l2_from_path = (\<lambda>_ _. Ok 0), pf_v4l2_new = (\<lambda>_ _. Ok 0), pf_uvc_from_fd = (\<lambda>_. Ok 0),
      pf_list_devices = (\<lambda>_. Ok []), pf_supported_configs = (\<lambda>_ _. Ok []),
      pf_v4l2_capabilities = (\<lambda>_. Err stream_stopped), pf_v4l2_requested = (\<lambda>_ _ _. Ok [])\<rparr>"



end
