(* ===== verification/Identity.thy ===== *)
theory Identity
  imports Errors
begin

text \<open>
  Backend and device identifiers (\<open>src/contract.rs\<close>, \<open>BackendId\<close> and \<open>DeviceId\<close>): validation,
  parsing, and the persistent form of a device identifier, with the lemmas that make parsing
  the inverse of printing.
\<close>

section \<open>Backend identifiers\<close>

definition valid_part_char :: "char \<Rightarrow> bool" where
  "valid_part_char b \<longleftrightarrow> is_ascii_alphanumeric b \<or> b = CHR ''.'' \<or> b = CHR ''-'' \<or> b = CHR ''_''"

definition valid_part :: "string \<Rightarrow> bool" where
  "valid_part part \<longleftrightarrow> part \<noteq> [] \<and> length part \<le> 96 \<and> list_all valid_part_char part"

definition backend_custom :: "string \<Rightarrow> string \<Rightarrow> backend_id camera_result" where
  "backend_custom ns name =
     (if \<not> valid_part ns \<or> \<not> valid_part name
      then Err (invalid_config ''Backend namespace and name must be non-empty ASCII identifiers'')
      else Ok (BackendId (ns @ ''/'' @ name)))"

definition backend_from_str :: "string \<Rightarrow> backend_id camera_result" where
  "backend_from_str v =
     (if v = ''uvc'' then Ok UVC
      else if v = ''v4l2'' then Ok V4L2
      else if v = ''avfoundation'' then Ok AV_FOUNDATION
      else if v = ''camera2'' then Ok CAMERA2
      else if v = ''media-foundation'' then Ok MEDIA_FOUNDATION
      else if v = ''synthetic'' then Ok SYNTHETIC
      else (case split_once (CHR ''/'') v of
              None \<Rightarrow> Err (invalid_config ''Invalid backend identifier'')
            | Some (ns, name) \<Rightarrow> backend_custom ns name))"

section \<open>Device identifiers\<close>

definition device_id_new :: "backend_id \<Rightarrow> string \<Rightarrow> device_id camera_result" where
  "device_id_new backend native =
     (if native = [] \<or> length native > 4096 \<or> CHR 0x00 \<in> set native
      then Err (invalid_config ''Device native identifier is empty or invalid'')
      else Ok \<lparr>did_backend = backend, did_native = native\<rparr>)"

definition to_persistent_string :: "device_id \<Rightarrow> string" where
  "to_persistent_string d =
     backend_as_str (did_backend d) @ ''|'' @ concat (map hex_byte (did_native d))"

text \<open>\<open>chunks_exact(2)\<close> with the \<open>digit\<close> closure; a non-digit would reach its \<open>unreachable!\<close>.\<close>

fun decode_pairs :: "string \<Rightarrow> string camera_result" where
  "decode_pairs (a # b # rest) =
     (case (hex_value a, hex_value b) of
        (Some h, Some l) \<Rightarrow>
          and_then (decode_pairs rest) (\<lambda>r. Ok (char_of ((push_bit 4 h) OR l) # r))
      | _ \<Rightarrow> Panic)"
| "decode_pairs _ = Ok []"

definition device_id_parse :: "string \<Rightarrow> device_id camera_result" where
  "device_id_parse v =
     (case split_once (CHR ''|'') v of
        None \<Rightarrow> Err (invalid_config ''Invalid persisted device ID'')
      | Some (backend, encoded) \<Rightarrow>
          if length encoded > 4096 * 2 \<or> length encoded mod 2 \<noteq> 0
             \<or> \<not> list_all is_ascii_hexdigit encoded
          then Err (invalid_config ''Invalid persisted device ID payload'')
          else and_then (decode_pairs encoded) (\<lambda>native.
            if \<not> utf8 native then Err (invalid_config ''Device ID payload is not UTF-8'')
            else and_then (backend_from_str backend) (\<lambda>b. device_id_new b native)))"

text \<open>\<open>impl Display for DeviceId\<close>.\<close>

definition device_id_display :: "device_id \<Rightarrow> string" where
  "device_id_display d = backend_as_str (did_backend d) @ '':'' @ did_native d"

section \<open>Parsing is the inverse of printing\<close>

text \<open>The backend identifiers a program can obtain through the public constructors.\<close>

definition constructible_backend :: "backend_id \<Rightarrow> bool" where
  "constructible_backend b \<longleftrightarrow>
     b = UVC \<or> b = V4L2 \<or> b = AV_FOUNDATION \<or> b = CAMERA2 \<or> b = MEDIA_FOUNDATION \<or> b = SYNTHETIC
     \<or> (\<exists>ns name. backend_custom ns name = Ok b)"

lemma valid_part_no_slash: "valid_part p \<Longrightarrow> CHR ''/'' \<notin> set p"
  by (auto simp: valid_part_def valid_part_char_def list_all_iff is_ascii_alphanumeric_def
      is_ascii_digit_def)

lemma valid_part_no_bar: "valid_part p \<Longrightarrow> CHR ''|'' \<notin> set p"
  by (auto simp: valid_part_def valid_part_char_def list_all_iff is_ascii_alphanumeric_def
      is_ascii_digit_def)

lemma backend_custom_Ok:
  "backend_custom ns name = Ok b \<longleftrightarrow>
     valid_part ns \<and> valid_part name \<and> b = BackendId (ns @ ''/'' @ name)"
  by (auto simp: backend_custom_def)

lemma builtin_names_no_slash:
  "CHR ''/'' \<in> set v \<Longrightarrow>
     v \<noteq> ''uvc'' \<and> v \<noteq> ''v4l2'' \<and> v \<noteq> ''avfoundation'' \<and> v \<noteq> ''camera2''
     \<and> v \<noteq> ''media-foundation'' \<and> v \<noteq> ''synthetic''"
  by auto

lemma backend_from_str_custom:
  assumes "valid_part ns" and "valid_part name"
  shows "backend_from_str (ns @ ''/'' @ name) = Ok (BackendId (ns @ ''/'' @ name))"
proof -
  have "split_once (CHR ''/'') (ns @ ''/'' @ name) = Some (ns, name)"
    using valid_part_no_slash [OF assms(1)] by (simp add: split_once_append)
  moreover have "CHR ''/'' \<in> set (ns @ ''/'' @ name)" by simp
  ultimately show ?thesis
    using builtin_names_no_slash [of "ns @ ''/'' @ name"] assms
    by (simp only: backend_from_str_def if_False option.case prod.case)
      (simp add: backend_custom_def)
qed

lemma backend_from_str_builtin:
  "backend_from_str (backend_as_str UVC) = Ok UVC"
  "backend_from_str (backend_as_str V4L2) = Ok V4L2"
  "backend_from_str (backend_as_str AV_FOUNDATION) = Ok AV_FOUNDATION"
  "backend_from_str (backend_as_str CAMERA2) = Ok CAMERA2"
  "backend_from_str (backend_as_str MEDIA_FOUNDATION) = Ok MEDIA_FOUNDATION"
  "backend_from_str (backend_as_str SYNTHETIC) = Ok SYNTHETIC"
  by (simp_all add: backend_from_str_def backend_consts)

lemma backend_from_str_as_str:
  "constructible_backend b \<Longrightarrow> backend_from_str (backend_as_str b) = Ok b"
  unfolding constructible_backend_def backend_custom_Ok
  using backend_from_str_builtin backend_from_str_custom by fastforce

lemma backend_from_str_Ok:
  assumes "backend_from_str s = Ok b"
  shows "constructible_backend b \<and> backend_as_str b = s"
proof -
  have builtin: "constructible_backend b \<and> backend_as_str b = s"
    if "s = backend_as_str c" and "b = c"
      and "c \<in> {UVC, V4L2, AV_FOUNDATION, CAMERA2, MEDIA_FOUNDATION, SYNTHETIC}" for c
    using that by (auto simp: constructible_backend_def)
  have custom: "constructible_backend b \<and> backend_as_str b = s"
    if "split_once (CHR ''/'') s = Some (ns, name)" and "backend_custom ns name = Ok b" for ns name
    using that by (auto simp: constructible_backend_def split_once_eq_Some backend_custom_Ok)
  show ?thesis
    using assms builtin custom
    by (auto simp: backend_from_str_def backend_consts split: if_splits option.splits)
qed

lemma constructible_backend_no_bar:
  assumes "constructible_backend b"
  shows "CHR ''|'' \<notin> set (backend_as_str b)"
  using assms valid_part_no_bar
  by (auto simp: constructible_backend_def backend_custom_Ok backend_consts)

lemma backend_from_str_not_Panic: "backend_from_str s \<noteq> Panic"
  by (auto simp: backend_from_str_def backend_custom_def split: option.splits)

text \<open>A device identifier the crate can hold: what \<open>DeviceId::new\<close> checks, and valid UTF-8.\<close>

definition valid_device_id :: "device_id \<Rightarrow> bool" where
  "valid_device_id d \<longleftrightarrow>
     constructible_backend (did_backend d) \<and> did_native d \<noteq> [] \<and> length (did_native d) \<le> 4096
     \<and> CHR 0x00 \<notin> set (did_native d) \<and> utf8 (did_native d)"

lemma device_id_new_Ok:
  "device_id_new b n = Ok d \<longleftrightarrow>
     n \<noteq> [] \<and> length n \<le> 4096 \<and> CHR 0x00 \<notin> set n \<and> d = \<lparr>did_backend = b, did_native = n\<rparr>"
  by (auto simp: device_id_new_def)

lemma decode_hex_bytes: "decode_pairs (concat (map hex_byte s)) = Ok s"
  by (induction s) (simp_all add: hex_byte_def nibbles_or hex_byte_value)

lemma length_hex_bytes: "length (concat (map hex_byte s)) = 2 * length s"
  by (induction s) (simp_all add: hex_byte_def)

lemma hexdigits_hex_bytes: "list_all is_ascii_hexdigit (concat (map hex_byte s))"
  by (induction s) (simp_all add: hex_byte_def)

lemma decode_pairs_not_Panic:
  "list_all is_ascii_hexdigit s \<Longrightarrow> decode_pairs s \<noteq> Panic"
  by (induction s rule: decode_pairs.induct)
    (auto simp: result_simps split: option.splits dest: hex_value_hexdigit)

lemma device_id_parse_Ok:
  assumes "device_id_parse s = Ok d"
  shows "valid_device_id d"
proof -
  from assms obtain backend native b
    where n: "utf8 native" "backend_from_str backend = Ok b" "device_id_new b native = Ok d"
    by (auto simp: device_id_parse_def result_simps split: option.splits if_splits)
  then have "did_backend d = b" "did_native d = native"
    by (auto simp: device_id_new_Ok)
  then show ?thesis
    using n backend_from_str_Ok [of backend b]
    by (auto simp: valid_device_id_def device_id_new_Ok)
qed

lemma device_id_parse_persistent:
  assumes "valid_device_id d"
  shows "device_id_parse (to_persistent_string d) = Ok d"
proof -
  let ?b = "backend_as_str (did_backend d)" and ?e = "concat (map hex_byte (did_native d))"
  have "split_once (CHR ''|'') (to_persistent_string d) = Some (?b, ?e)"
    using constructible_backend_no_bar [of "did_backend d"] assms
    by (simp add: to_persistent_string_def split_once_append valid_device_id_def)
  then show ?thesis
    using assms length_hex_bytes [of "did_native d"] hexdigits_hex_bytes [of "did_native d"]
    by (simp add: device_id_parse_def decode_hex_bytes valid_device_id_def
        backend_from_str_as_str device_id_new_def)
qed

text \<open>C38: Every device identifier the crate can hold survives persistence: parsing its
  persistent string gives it back.  Conversely whatever parses is such an identifier, so
  printing and parsing once more changes nothing; and parsing never panics, whatever the text.\<close>

theorem device_id_persistence:
  "(valid_device_id d \<longleftrightarrow> device_id_parse (to_persistent_string d) = Ok d)
   \<and> ((\<exists>s. device_id_parse s = Ok d) \<longleftrightarrow> valid_device_id d)
   \<and> device_id_parse s \<noteq> Panic"
proof (intro conjI)
  show "valid_device_id d \<longleftrightarrow> device_id_parse (to_persistent_string d) = Ok d"
    using device_id_parse_persistent device_id_parse_Ok by blast
  show "(\<exists>s. device_id_parse s = Ok d) \<longleftrightarrow> valid_device_id d"
    using device_id_parse_persistent device_id_parse_Ok by blast
  show "device_id_parse s \<noteq> Panic"
    using decode_pairs_not_Panic backend_from_str_not_Panic
    by (auto simp: device_id_parse_def result_simps device_id_new_def split: option.splits)
qed

text \<open>A backend identifier parses from exactly its own text, and only the built-in and the
  valid custom identifiers are texts that parse.\<close>

theorem backend_id_roundtrip:
  "backend_from_str s = Ok b \<longleftrightarrow> constructible_backend b \<and> s = backend_as_str b"
  using backend_from_str_Ok backend_from_str_as_str by blast

end
