(* ===== verification/Source.thy ===== *)
theory Source
  imports Controls Identity
begin

text \<open>
  The sources of a capture session (\<open>Source\<close> in \<open>src/api.rs\<close>, \<open>FrameSink\<close> in
  \<open>src/extension.rs\<close>): a native camera, an application-provided device, or the synthetic test
  pattern, with starting, stopping, releasing and reopening, and the options of a backend.

  The devices of an application are a parameter, like the native drivers.  A native driver
  publishes into the hub of its source by the operations of the hub; its own steps on the hub
  are interleaved by the session machine.
\<close>

section \<open>Plans and sinks\<close>

record negotiated_capture =
  nc_capture :: capture_mode
  nc_adjustments :: "string list"
  nc_first_frame_latency :: duration

record capture_plan =
  plan_selected :: negotiated_capture
  plan_alternatives :: "capture_mode list"
  plan_ranking_reason :: string
  plan_estimated_pool_bytes :: usize
  plan_adjustments :: "string list"

text \<open>A sink is the hub with the number of the session it was made for.\<close>

definition sink_begin :: "instant \<Rightarrow> hub \<Rightarrow> hub \<times> nat" where
  "sink_begin now h = hub_start now h"

definition sink_publish_bytes ::
  "instant \<Rightarrow> instant \<Rightarrow> nat \<Rightarrow> nat \<Rightarrow> nat \<Rightarrow> frame_layout \<Rightarrow> source_timestamp option \<Rightarrow> u8 list \<Rightarrow> hub \<Rightarrow>
     hub \<times> bool camera_result" where
  "sink_publish_bytes now failed_at timestamp_ns elapsed session layout timestamp bytes h =
     publish_native now failed_at timestamp_ns elapsed session layout timestamp None [bytes] h"

definition sink_writable :: "instant \<Rightarrow> nat \<Rightarrow> frame_layout \<Rightarrow> hub \<Rightarrow> hub \<times> nat camera_result" where
  "sink_writable now session layout h = writable_native now session layout h"

definition sink_disconnect :: "instant \<Rightarrow> nat \<Rightarrow> hub \<Rightarrow> hub" where
  "sink_disconnect now session h = hub_stop now h"

record 'c custom_device =
  cx_capabilities :: "'c \<Rightarrow> device_capabilities camera_result"
  cx_start :: "nat \<Rightarrow> capture_plan \<Rightarrow> 'c \<Rightarrow> 'c \<times> unit camera_result"
  cx_stop :: "'c \<Rightarrow> 'c \<times> unit camera_result"

section \<open>Sources\<close>

datatype ('d, 'c) source =
  SourceNative (src_camera: "'d backend_camera option") (src_id: "device_id option")
  | SourceCustom (src_device: "'c option") (src_actual: "camera_config option")
  | SourceSynthetic

definition closed_device :: camera_error where
  "closed_device = invalid_state ''Device has been closed; open it again through CameraSystem''"

definition native_current :: "'d backend_camera option \<Rightarrow> 'd backend_camera camera_result" where
  "native_current cam = ok_or cam (disconnected ''Device is reconnecting'')"

definition native_backend_type :: "device_id option \<Rightarrow> backend_type" where
  "native_backend_type i =
     (case Option.bind i (\<lambda>d. backend_of_id (did_backend d)) of Some t \<Rightarrow> t | None \<Rightarrow> Uvc)"

definition custom_plan :: "camera_config \<Rightarrow> capture_plan camera_result" where
  "custom_plan config =
     and_then (mode_from_config config) (\<lambda>mode.
       Ok \<lparr>plan_selected = \<lparr>nc_capture = mode, nc_adjustments = [], nc_first_frame_latency = 0\<rparr>,
           plan_alternatives = [],
           plan_ranking_reason = ''selected by the camera negotiation layer'',
           plan_estimated_pool_bytes = 0, plan_adjustments = []\<rparr>)"

text \<open>
  \<open>Source::start\<close>.  Starting a custom device begins the session of its sink first; the session
  stays begun when the plan or the device fails.
\<close>

definition source_start ::
  "'d platform \<Rightarrow> 'c custom_device \<Rightarrow> instant \<Rightarrow> camera_config \<Rightarrow> ('d, 'c) source \<Rightarrow> hub \<Rightarrow>
     ('d, 'c) source \<times> hub \<times> unit camera_result" where
  "source_start P C now config src h =
     (case src of
        SourceNative cam i \<Rightarrow>
          (case native_current cam of
             Ok cam \<Rightarrow>
               (case camera_start_stream P config cam of
                  (cam, r) \<Rightarrow> (SourceNative (Some cam) i, h, r))
           | Err e \<Rightarrow> (src, h, Err e)
           | Panic \<Rightarrow> (src, h, Panic))
      | SourceCustom device actual \<Rightarrow>
          (case sink_begin now h of (h, session) \<Rightarrow>
            (case custom_plan config of
               Err e \<Rightarrow> (src, h, Err e)
             | Panic \<Rightarrow> (src, h, Panic)
             | Ok plan \<Rightarrow>
                 (case device of
                    None \<Rightarrow> (src, h, Err closed_device)
                  | Some d \<Rightarrow>
                      (case cx_start C session plan d of
                         (d, Ok _) \<Rightarrow> (SourceCustom (Some d) (Some config), h, Ok ())
                       | (d, r) \<Rightarrow> (SourceCustom (Some d) actual, h, r)))))
      | SourceSynthetic \<Rightarrow>
          (case hub_start now h of (h, session) \<Rightarrow>
            (case config_frame_rate config of
               Ok _ \<Rightarrow> (src, h, Ok ())
             | Err e \<Rightarrow> (src, h, Err e)
             | Panic \<Rightarrow> (src, h, Panic))))"

text \<open>One tick of the task that paints the synthetic frames of a session.\<close>

definition synthetic_tick ::
  "instant \<Rightarrow> nat \<Rightarrow> nat \<Rightarrow> camera_config \<Rightarrow> nat \<Rightarrow> hub \<Rightarrow> hub \<times> bool" where
  "synthetic_tick now timestamp_ns session config sequence h =
     (if \<not> (is_streaming h \<and> hub_session h = session) then (h, False)
      else
        let fill = (\<lambda>out :: u8 list. (replicate (length out) (of_nat (sequence mod 255)), Ok ()))
        in (if wants_native h
            then (fst (publish_native_into now now timestamp_ns 0 session
                   (rgb_layout (cfg_width config) (cfg_height config)) None fill h), True)
            else (fst (publish_rgb now now timestamp_ns 0 session (cfg_width config)
                   (cfg_height config) None fill h), True)))"

definition source_stop ::
  "'d platform \<Rightarrow> 'c custom_device \<Rightarrow> instant \<Rightarrow> ('d, 'c) source \<Rightarrow> hub \<Rightarrow>
     ('d, 'c) source \<times> hub \<times> unit camera_result" where
  "source_stop P C now src h =
     (case src of
        SourceNative cam i \<Rightarrow>
          (case cam of
             Some cam \<Rightarrow>
               (case camera_stop_stream P cam of (cam, r) \<Rightarrow> (SourceNative (Some cam) i, h, r))
           | None \<Rightarrow> (src, h, Ok ()))
      | SourceCustom device actual \<Rightarrow>
          let h = hub_stop now h in
            (case device of
               Some d \<Rightarrow> (case cx_stop C d of (d, r) \<Rightarrow> (SourceCustom (Some d) None, h, r))
             | None \<Rightarrow> (SourceCustom None None, h, Ok ()))
      | SourceSynthetic \<Rightarrow> (src, hub_stop now h, Ok ()))"

definition source_release ::
  "'d platform \<Rightarrow> 'c custom_device \<Rightarrow> instant \<Rightarrow> ('d, 'c) source \<Rightarrow> hub \<Rightarrow>
     ('d, 'c) source \<times> hub \<times> unit camera_result" where
  "source_release P C now src h =
     (case source_stop P C now src h of
        (src, h, Ok _) \<Rightarrow>
          ((case src of
              SourceNative _ i \<Rightarrow> SourceNative None i
            | SourceCustom _ actual \<Rightarrow> SourceCustom None actual
            | SourceSynthetic \<Rightarrow> src), h, Ok ())
      | (src, h, r) \<Rightarrow> (src, h, r))"

definition source_actual ::
  "'d platform \<Rightarrow> camera_config \<Rightarrow> ('d, 'c) source \<Rightarrow> camera_config camera_result" where
  "source_actual P fallback src =
     (case src of
        SourceNative cam _ \<Rightarrow>
          ok_or (Option.bind cam (camera_get_config P))
            (invalid_state ''Backend did not report negotiated configuration'')
      | SourceSynthetic \<Rightarrow> Ok fallback
      | SourceCustom _ actual \<Rightarrow>
          ok_or actual (invalid_state ''External backend did not start a capture''))"

text \<open>\<open>opened_device_capabilities_if_available\<close> of the UVC driver is the parameter \<open>uvc_opened\<close>.\<close>

definition external_capabilities ::
  "build \<Rightarrow> 'd platform \<Rightarrow> 'c custom_device \<Rightarrow> ('d \<Rightarrow> device_capabilities option camera_result) \<Rightarrow>
     ('d, 'c) source \<Rightarrow> device_capabilities option camera_result" where
  "external_capabilities b P C uvc_opened src =
     (case src of
        SourceNative cam i \<Rightarrow>
          if (case i of Some d \<Rightarrow> did_backend d = MEDIA_FOUNDATION | None \<Rightarrow> False)
          then and_then (native_current cam) (\<lambda>c.
                 and_then (opened_device_capabilities b P c) (\<lambda>caps. Ok (Some caps)))
          else if is_available_in b Uvc \<and> (case i of Some d \<Rightarrow> did_backend d = UVC | None \<Rightarrow> False)
          then and_then (native_current cam) (\<lambda>c.
                 case c of
                   UvcCamera d \<Rightarrow> uvc_opened d
                 | _ \<Rightarrow> Err (invalid_state ''UVC source has a different backend''))
          else Ok None
      | SourceCustom device _ \<Rightarrow>
          and_then (ok_or device closed_device) (\<lambda>d.
          and_then (cx_capabilities C d) (\<lambda>caps. Ok (Some caps)))
      | SourceSynthetic \<Rightarrow> Ok None)"

section \<open>Reopening and options\<close>

text \<open>\<open>NativeSource::reopen\<close>: the camera is gone from the moment the search begins.\<close>

definition find_device ::
  "build \<Rightarrow> 'd platform \<Rightarrow> device_id \<Rightarrow> (backend_type \<times> camera_device_info) camera_result" where
  "find_device b P i =
     and_then (ok_or (backend_of_id (did_backend i)) (backend_not_compiled (did_backend i))) (\<lambda>t.
     and_then (list_devices b P t) (\<lambda>ds.
       case filter (\<lambda>d. unique_id d = did_native i) ds of
         [] \<Rightarrow> Err (disconnected (device_id_display i))
       | [d] \<Rightarrow> Ok (t, d)
       | _ \<Rightarrow> Err (ambiguous_device (device_id_display i))))"

definition native_reopen ::
  "build \<Rightarrow> 'd platform \<Rightarrow> hub \<Rightarrow> 'd backend_camera option \<Rightarrow> device_id option \<Rightarrow>
     ('d, 'c) source \<times> unit camera_result" where
  "native_reopen b P h cam i =
     (case i of
        None \<Rightarrow> (SourceNative cam None,
          Err (disconnected ''USB permission descriptor requires explicit reopening''))
      | Some d \<Rightarrow>
          (case and_then (find_device b P d) (\<lambda>(t, info).
                  create_selected_camera b P (cdi_index info) t h (Some (did_native d))) of
             Ok cam \<Rightarrow> (SourceNative (Some cam) i, Ok ())
           | Err e \<Rightarrow> (SourceNative None i, Err e)
           | Panic \<Rightarrow> (SourceNative None i, Panic)))"

definition apply_option ::
  "build \<Rightarrow> 'd platform \<Rightarrow> backend_options \<Rightarrow> 'd backend_camera option \<Rightarrow> device_id option \<Rightarrow>
     'd backend_camera option \<times> unit camera_result" where
  "apply_option b P opt cam i =
     (case opt of
        OptV4l2 opts \<Rightarrow>
          if native_backend_type i \<noteq> V4l2
          then (cam, Err (invalid_config ''Driver queue configuration is only supported by V4L2''))
          else (case v4l2_mmap_buffers opts of
                  None \<Rightarrow> (cam, Ok ())
                | Some n \<Rightarrow>
                    (case cam of
                       None \<Rightarrow> (cam, Err (disconnected ''Device is reconnecting''))
                     | Some c \<Rightarrow> map_prod Some id (camera_set_buffer_size P n c)))
      | OptCamera2 opts \<Rightarrow>
          (case cam of
             None \<Rightarrow> (cam, Err (disconnected ''Device is reconnecting''))
           | Some c \<Rightarrow> map_prod Some id (camera_set_camera2_options b P opts c))
      | OptAvFoundation opts \<Rightarrow>
          (case cam of
             None \<Rightarrow> (cam, Err (disconnected ''Device is reconnecting''))
           | Some c \<Rightarrow> map_prod Some id (camera_set_avfoundation_options b P opts c)))"

fun apply_backend_options ::
  "build \<Rightarrow> 'd platform \<Rightarrow> backend_id \<Rightarrow> backend_options list \<Rightarrow> ('d, 'c) source \<Rightarrow>
     ('d, 'c) source \<times> unit camera_result" where
  "apply_backend_options b P selected [] src = (src, Ok ())"
| "apply_backend_options b P selected (opt # opts) src =
     (if options_backend opt \<noteq> selected
      then (src, Err (backend_option_mismatch (options_backend opt) selected))
      else case src of
          SourceNative cam i \<Rightarrow>
            (case apply_option b P opt cam i of
               (cam, Ok _) \<Rightarrow> apply_backend_options b P selected opts (SourceNative cam i)
             | (cam, r) \<Rightarrow> (SourceNative cam i, r))
        | _ \<Rightarrow> apply_backend_options b P selected opts src)"

section \<open>Lemmas\<close>

text \<open>
  Stopping a source whose device answers leaves no trace of the capture: a custom or synthetic
  source has deactivated its hub, and the negotiated configuration is gone.
\<close>

lemma source_stop_hub:
  assumes "source_stop P C now src h = (src', h', r)"
  shows "case src of SourceNative _ _ \<Rightarrow> h' = h | _ \<Rightarrow> h' = hub_stop now h"
  using assms by (auto simp: source_stop_def Let_def split: source.splits option.splits prod.splits)

text \<open>
  The sink of an earlier session is not told apart: its \<open>disconnect\<close> stops the session that has
  begun since.
\<close>

lemma stale_disconnect_stops_new_session:
  "is_streaming (fst (sink_begin later (fst (sink_begin now h))))
   \<and> \<not> is_streaming (sink_disconnect t (snd (sink_begin now h))
        (fst (sink_begin later (fst (sink_begin now h)))))"
  by (simp add: sink_begin_def sink_disconnect_def hub_start_def hub_stop_def is_streaming_def
      start_snapshot_def deactivate_def wake_recovery_def)

end
