(* ===== verification/Session.thy ===== *)
theory Session
  imports Source Hub_Machine
begin

text \<open>
  Capture sessions (\<open>SessionInner\<close>, \<open>CaptureSession\<close> and the tasks around them in
  \<open>src/api.rs\<close>): the shared state of a session and the atomic segments of the code that act on
  it.  \<open>Session_Machine\<close> interleaves the segments.

  The atomic booleans are fields; the watch channel holds the last published state and the
  broadcast channel the list of events sent.  The \<open>stopping\<close> flag is also the stop flag of the
  receivers of the session in its hub.  Calls to the source are recorded in order; what they
  return is up to the source (\<open>Source\<close> says what each does).  \<open>se_waiting\<close> is the receiver of the
  oneshot channel of the start, \<open>se_reply\<close> its value.  \<open>se_opened\<close> tells that \<open>start\<close>
  has handed the session to the application, \<open>se_other\<close> that another session of the same device
  has taken the busy flag.
\<close>

section \<open>States and events\<close>

datatype session_state =
  Starting | Streaming | Recovering u32 | Stopping | Stopped | Failed camera_error

fun state_is_streaming :: "session_state \<Rightarrow> bool" where
  "state_is_streaming Streaming \<longleftrightarrow> True"
| "state_is_streaming _ \<longleftrightarrow> False"

fun state_is_terminal :: "session_state \<Rightarrow> bool" where
  "state_is_terminal Stopped \<longleftrightarrow> True"
| "state_is_terminal (Failed _) \<longleftrightarrow> True"
| "state_is_terminal _ \<longleftrightarrow> False"

fun state_error :: "session_state \<Rightarrow> camera_error option" where
  "state_error (Failed e) = Some e"
| "state_error _ = None"

datatype session_event =
  Lifecycle session_state
  | ConfigurationAdjusted string
  | ResourcePressure nat
  | Missed nat

fun event_is_lifecycle :: "session_event \<Rightarrow> bool" where
  "event_is_lifecycle (Lifecycle _) \<longleftrightarrow> True"
| "event_is_lifecycle _ \<longleftrightarrow> False"

text \<open>The answers of the tokio channels are the arguments of the two receivers.\<close>

datatype recv_result = Received session_event | Lagged nat | ChannelClosed

fun event_receiver_next :: "recv_result \<Rightarrow> session_event camera_result" where
  "event_receiver_next (Received e) = Ok e"
| "event_receiver_next (Lagged n) = Ok (Missed n)"
| "event_receiver_next ChannelClosed = Err stream_stopped"

definition watcher_changed :: "bool \<Rightarrow> session_state \<Rightarrow> session_state camera_result" where
  "watcher_changed sender_alive current = (if sender_alive then Ok current else Err stream_stopped)"

section \<open>The shared state\<close>

datatype source_call =
  Call_Start camera_config | Call_Stop | Call_Reopen | Call_Options

record session =
  se_intent :: capture_request
  se_policy :: "reconnect_policy option"
  se_native :: bool
  se_flag :: nat
  se_hub :: hub
  se_calls :: "source_call list"
  se_busy :: bool
  se_stopping :: bool
  se_closed :: bool
  se_state :: session_state
  se_events :: "session_event list"
  se_terminal :: "(frame_metrics \<times> stream_stats) option"
  se_requested :: "control_id \<rightharpoonup> control_value"
  se_locked :: bool
  se_waiting :: bool
  se_reply :: "(camera_config \<times> captured_frame) camera_result option"
  se_opened :: bool
  se_other :: bool

definition set_state :: "session_state \<Rightarrow> session \<Rightarrow> session" where
  "set_state st s = s\<lparr>se_state := st, se_events := se_events s @ [Lifecycle st]\<rparr>"

text \<open>\<open>stopping.store(true)\<close>: receivers made by \<open>subscribe\<close> watch the same flag.\<close>

definition raise_stopping :: "session \<Rightarrow> session" where
  "raise_stopping s = s\<lparr>se_stopping := True, se_hub := set_flag (se_flag s) (se_hub s)\<rparr>"

text \<open>\<open>hub.disable_recovery(); hub.end_recovery(); hub.stop()\<close>.\<close>

definition quiesce :: "instant \<Rightarrow> session \<Rightarrow> session" where
  "quiesce now s = s\<lparr>se_hub := hub_stop now (end_recovery (disable_recovery (se_hub s)))\<rparr>"

definition call_source :: "source_call \<Rightarrow> session \<Rightarrow> session" where
  "call_source c s = s\<lparr>se_calls := se_calls s @ [c]\<rparr>"

definition record_terminal :: "instant \<Rightarrow> session \<Rightarrow> session" where
  "record_terminal now s =
     s\<lparr>se_terminal := Some (Frame_Hub.metrics (se_hub s), Frame_Hub.stats now (se_hub s))\<rparr>"

definition close_flag :: "session \<Rightarrow> session" where
  "close_flag s = s\<lparr>se_closed := True\<rparr>"

definition release_busy :: "session \<Rightarrow> session" where
  "release_busy s = s\<lparr>se_busy := False\<rparr>"

definition lock :: "session \<Rightarrow> session" where
  "lock s = s\<lparr>se_locked := True\<rparr>"

definition unlock :: "session \<Rightarrow> session" where
  "unlock s = s\<lparr>se_locked := False\<rparr>"

definition on_hub :: "(hub \<Rightarrow> hub) \<Rightarrow> session \<Rightarrow> session" where
  "on_hub f s = s\<lparr>se_hub := f (se_hub s)\<rparr>"

text \<open>What \<open>stop\<close> publishes and returns; \<open>None\<close> is success of \<open>source.stop()\<close>.\<close>

definition stop_state :: "camera_error option \<Rightarrow> session_state" where
  "stop_state r = (case r of None \<Rightarrow> Stopped | Some e \<Rightarrow> Failed e)"

definition closed_result :: "session_state \<Rightarrow> unit camera_result" where
  "closed_result st = (case st of Failed e \<Rightarrow> Err e | _ \<Rightarrow> Ok ())"

section \<open>Queries of a session\<close>

definition session_is_streaming :: "session \<Rightarrow> bool" where
  "session_is_streaming s \<longleftrightarrow> \<not> se_stopping s \<and> is_streaming (se_hub s)"

definition session_subscribe ::
  "subscription_options \<Rightarrow> session \<Rightarrow> session \<times> nat camera_result" where
  "session_subscribe options s =
     (case subscribe_with options (se_hub s) of
        (h, Ok rid) \<Rightarrow> (s\<lparr>se_hub := with_stop_flag rid (se_flag s) h\<rparr>, Ok rid)
      | (h, r) \<Rightarrow> (s\<lparr>se_hub := h\<rparr>, r))"

definition session_latest :: "session \<Rightarrow> captured_frame option" where
  "session_latest s = (if se_stopping s then None else hub_latest (se_hub s))"

definition session_metrics :: "session \<Rightarrow> frame_metrics" where
  "session_metrics s =
     (case se_terminal s of Some (m, _) \<Rightarrow> m | None \<Rightarrow> Frame_Hub.metrics (se_hub s))"

definition session_stats :: "instant \<Rightarrow> session \<Rightarrow> stream_stats" where
  "session_stats now s =
     (case se_terminal s of Some (_, st) \<Rightarrow> st | None \<Rightarrow> Frame_Hub.stats now (se_hub s))"

section \<open>Checks of the start and of a recovery\<close>

text \<open>
  What one attempt of the start makes of the first frame and of the configuration the source
  reports; and the same for an attempt of the recovery, with its two checks.
\<close>

definition start_check ::
  "capture_request \<Rightarrow> captured_frame camera_result \<Rightarrow> camera_config camera_result \<Rightarrow>
     (camera_config \<times> captured_frame) camera_result" where
  "start_check intent first actual =
     and_then first (\<lambda>frame.
     and_then actual (\<lambda>c.
     and_then (validate_requested_capture intent c (cf_layout frame)) (\<lambda>_. Ok (c, frame))))"

definition recovery_check ::
  "capture_request \<Rightarrow> camera_config \<Rightarrow> captured_frame camera_result \<Rightarrow> camera_config camera_result \<Rightarrow>
     unit camera_result" where
  "recovery_check intent config first actual =
     and_then first (\<lambda>frame.
     and_then actual (\<lambda>c.
     and_then (validate_recovered_capture config c (cf_layout frame)) (\<lambda>_.
       validate_requested_capture intent c (cf_layout frame))))"

definition first_frame_timeout ::
  "reconnect_policy \<Rightarrow> camera_config \<Rightarrow> bool \<Rightarrow> duration camera_result" where
  "first_frame_timeout policy config reopened =
     (if reopened then Ok (rp_stall_timeout policy)
      else fast_restart_first_frame_timeout config (rp_stall_timeout policy))"

definition not_new_session :: camera_error where
  "not_new_session = invalid_state ''Backend did not begin a new frame session''"

definition no_usable :: camera_error where
  "no_usable = unsupported_format ''No usable capture configuration''"

text \<open>The adjustments \<open>start_inner\<close> reports.\<close>

definition start_adjustments :: "stream_request \<Rightarrow> camera_config \<Rightarrow> string list camera_result" where
  "start_adjustments request actual =
     and_then (config_frame_rate actual) (\<lambda>rate.
       Ok ((if (cfg_width actual, cfg_height actual) \<noteq> (sr_width request, sr_height request)
            then [''Resolution '' @ show_size (cfg_width actual) (cfg_height actual) @ '' selected'']
            else [])
         @ (if rate \<noteq> sr_fps request
            then [''Requested '' @ show_f64 (as_f64 (sr_fps request)) @ '' fps, selected ''
                  @ show_f64 (as_f64 rate) @ '' fps'']
            else [])
         @ (case sr_format request of
              Some f \<Rightarrow>
                if f \<noteq> cfg_format actual
                then [''Capture format '' @ video_format_debug (cfg_format actual) @ '' selected'']
                else []
            | None \<Rightarrow> [])))"

end
