(* ===== verification/Session_Machine.thy ===== *)
theory Session_Machine
  imports Session
begin

text \<open>
  The tasks of a session and their interleavings: \<open>request_stop\<close> and \<open>stop\<close>, the task that tries
  the candidates of a start and the caller that waits for it, and the recovery loop of
  \<open>spawn_recovery\<close>.  A task is the place it has reached and the values it holds there; a step
  runs one atomic segment: a load or store of a flag, a publication of the state, one call of
  the hub or of the source, or the return of an awaited call with any result.
\<close>

section \<open>Tasks\<close>

datatype task =
  Done
  | Req bool | Req_Load bool | Req_Announce bool | Req_Quiesce bool
  | Stop_Lock | Stop_Check | Stop_Begin | Stop_Call | Stop_Await
  | Stop_Record "camera_error option" | Stop_Close "camera_error option"
  | Stop_Publish "camera_error option" | Stop_Release | Stop_Unlock
  | Start_Lock "camera_config list"
  | Start_Next "camera_config list" "(camera_config \<times> captured_frame) camera_result"
  | Start_Call camera_config "camera_config list"
  | Start_Source camera_config "camera_config list" nat
  | Start_First camera_config "camera_config list" nat
  | Start_Undo "camera_config list" camera_error
  | Start_End "(camera_config \<times> captured_frame) camera_result"
  | Start_Abort "(camera_config \<times> captured_frame) camera_result"
  | Start_Close "(camera_config \<times> captured_frame) camera_result"
  | Start_Publish "(camera_config \<times> captured_frame) camera_result"
  | Start_Release "(camera_config \<times> captured_frame) camera_result"
  | Start_Send "(camera_config \<times> captured_frame) camera_result"
  | Start_Unlock
  | Open_Options "camera_config list" | Open_Wait | Open_Publish camera_config
  | Open_Adjust camera_config | Open_Recovery camera_config
  | Rec_Wait camera_config u32 "recovery_trigger option"
  | Rec_Check camera_config u32 bool recovery_trigger
  | Rec_Lock camera_config u32 bool recovery_trigger
  | Rec_Locked camera_config u32 bool recovery_trigger
  | Rec_Announce camera_config u32 recovery_trigger
  | Rec_Begin camera_config u32 recovery_trigger
  | Rec_Stopped camera_config u32 recovery_trigger
  | Rec_Reopened camera_config u32 recovery_trigger
  | Rec_Configured camera_config u32 recovery_trigger
  | Rec_Restart camera_config u32 recovery_trigger bool
  | Rec_Call camera_config u32 recovery_trigger bool
  | Rec_Started camera_config u32 recovery_trigger bool
  | Rec_First camera_config u32 recovery_trigger nat
  | Rec_Result camera_config u32 recovery_trigger "camera_error option"
  | Rec_Leave
  | Rec_Recovered camera_config
  | Rec_Failed camera_config u32 recovery_trigger camera_error
  | Rec_Unlock camera_config u32 "recovery_trigger option"
  | Fail_Announce camera_error | Fail_Stopping | Fail_Quiesce | Fail_Call | Fail_Record
  | Fail_Close | Fail_Release | Fail_Unlock

text \<open>What follows \<open>request_stop\<close>: \<open>close\<close> goes on to \<open>stop\<close>.\<close>

fun after_request :: "bool \<Rightarrow> task" where
  "after_request True = Stop_Lock"
| "after_request False = Done"

definition max_attempts_reached :: "reconnect_policy option \<Rightarrow> u32 \<Rightarrow> bool" where
  "max_attempts_reached policy attempt =
     (case Option.bind policy rp_max_attempts of None \<Rightarrow> False | Some n \<Rightarrow> n \<le> attempt)"

definition force_reopen :: "u32 \<Rightarrow> recovery_trigger \<Rightarrow> bool" where
  "force_reopen attempt trigger \<longleftrightarrow> 1 < attempt \<or> trigger = SourceStopped"

definition stall_timeout :: "session \<Rightarrow> duration" where
  "stall_timeout s = (case se_policy s of Some p \<Rightarrow> rp_stall_timeout p | None \<Rightarrow> 0)"

inductive task_step :: "task \<Rightarrow> session \<Rightarrow> task \<Rightarrow> session \<Rightarrow> task list \<Rightarrow> bool" where
  Req_Again: "se_stopping s \<Longrightarrow> task_step (Req c) s (after_request c) s []"
| Req_Swap: "\<not> se_stopping s \<Longrightarrow> task_step (Req c) s (Req_Load c) (raise_stopping s) []"
| Req_Closed: "se_closed s \<Longrightarrow> task_step (Req_Load c) s (after_request c) s []"
| Req_Open: "\<not> se_closed s \<Longrightarrow> task_step (Req_Load c) s (Req_Announce c) s []"
| Req_State: "task_step (Req_Announce c) s (Req_Quiesce c) (set_state Stopping s) []"
| Req_Hub: "task_step (Req_Quiesce c) s (after_request c) (quiesce now s) [Stop_Lock]"
| Stop_Acquire: "\<not> se_locked s \<Longrightarrow> task_step Stop_Lock s Stop_Check (lock s) []"
| Stop_Already: "se_closed s \<Longrightarrow> task_step Stop_Check s Stop_Unlock s []"
| Stop_First: "\<not> se_closed s \<Longrightarrow> task_step Stop_Check s Stop_Begin s []"
| Stop_Flag: "task_step Stop_Begin s Stop_Call (raise_stopping s) []"
| Stop_Source: "task_step Stop_Call s Stop_Await (call_source Call_Stop (quiesce now s)) []"
| Stop_Result: "task_step Stop_Await s (Stop_Record r) s []"
| Stop_Metrics: "task_step (Stop_Record r) s (Stop_Close r) (record_terminal now s) []"
| Stop_Closed: "task_step (Stop_Close r) s (Stop_Publish r) (close_flag s) []"
| Stop_State: "task_step (Stop_Publish r) s Stop_Release (set_state (stop_state r) s) []"
| Stop_Busy: "task_step Stop_Release s Stop_Unlock (release_busy s) []"
| Stop_Drop: "task_step Stop_Unlock s Done (unlock s) []"
| Start_Acquire:
    "\<not> se_locked s \<Longrightarrow> task_step (Start_Lock cs) s (Start_Next cs (Err no_usable)) (lock s) []"
| Start_Stop:
    "cs = [] \<or> se_stopping s \<or> \<not> se_waiting s \<Longrightarrow> task_step (Start_Next cs r) s (Start_End r) s []"
| Start_Try:
    "\<not> se_stopping s \<Longrightarrow> se_waiting s \<Longrightarrow>
     task_step (Start_Next (c # cs) r) s (Start_Call c cs) s []"
| Start_Begin:
    "task_step (Start_Call c cs) s (Start_Source c cs (hub_session (se_hub s)))
       (call_source (Call_Start c) s) []"
| Start_Refused: "task_step (Start_Source c cs n) s (Start_Undo cs e) s []"
| Start_No_Session:
    "hub_session (se_hub s) = n \<Longrightarrow>
     task_step (Start_Source c cs n) s (Start_Undo cs not_new_session) s []"
| Start_Session:
    "hub_session (se_hub s) \<noteq> n \<Longrightarrow>
     task_step (Start_Source c cs n) s (Start_First c cs (hub_session (se_hub s))) s []"
| Start_Bad:
    "start_check (se_intent s) first actual = Err e \<Longrightarrow>
     task_step (Start_First c cs n) s (Start_Undo cs e) s []"
| Start_Good:
    "start_check (se_intent s) first actual = Ok p \<Longrightarrow>
     task_step (Start_First c cs n) s (Start_End (Ok p)) s []"
| Start_Undone:
    "task_step (Start_Undo cs e) s (Start_Next cs (Err e)) (call_source Call_Stop s) []"
| Start_Give_Up:
    "se_stopping s \<or> \<not> se_waiting s \<or> \<not> is_ok r \<Longrightarrow>
     task_step (Start_End r) s (Start_Abort r) (call_source Call_Stop s) []"
| Start_Keep:
    "\<not> se_stopping s \<Longrightarrow> se_waiting s \<Longrightarrow> is_ok r \<Longrightarrow>
     task_step (Start_End r) s (Start_Send r) s []"
| Start_Flag: "task_step (Start_Abort r) s (Start_Close r) (raise_stopping s) []"
| Start_Closed: "task_step (Start_Close r) s (Start_Publish r) (close_flag s) []"
| Start_State: "task_step (Start_Publish r) s (Start_Release r) (set_state Stopped s) []"
| Start_Busy: "task_step (Start_Release r) s (Start_Send r) (release_busy s) []"
| Start_Reply:
    "task_step (Start_Send r) s Start_Unlock
       (if se_waiting s then s\<lparr>se_reply := Some r\<rparr> else s) []"
| Start_Drop: "task_step Start_Unlock s Done (unlock s) []"
| Open_Bad: "task_step (Open_Options cs) s (Req False) (s\<lparr>se_waiting := False\<rparr>) []"
| Open_Spawn:
    "task_step (Open_Options cs) s Open_Wait (call_source Call_Options s) [Start_Lock cs]"
| Open_Abandon: "task_step Open_Wait s (Req False) (s\<lparr>se_waiting := False\<rparr>) []"
| Open_Error:
    "se_reply s = Some (Err e) \<Longrightarrow>
     task_step Open_Wait s (Req False) (s\<lparr>se_waiting := False\<rparr>) []"
| Open_Ok:
    "se_reply s = Some (Ok (c, f)) \<Longrightarrow> task_step Open_Wait s (Open_Publish c) s []"
| Open_Unrated:
    "\<not> is_ok (config_frame_rate c) \<Longrightarrow> task_step (Open_Publish c) s (Req False) s []"
| Open_State:
    "is_ok (config_frame_rate c) \<Longrightarrow>
     task_step (Open_Publish c) s (Open_Adjust c) (set_state Streaming s) []"
| Open_Events:
    "task_step (Open_Adjust c) s (Open_Recovery c)
       (s\<lparr>se_events := se_events s @ map ConfigurationAdjusted adjustments\<rparr>) []"
| Open_Recovers:
    "se_policy s = Some p \<Longrightarrow>
     task_step (Open_Recovery c) s Done ((on_hub enable_recovery s)\<lparr>se_opened := True\<rparr>)
       [Rec_Wait c 0 None]"
| Open_Done:
    "se_policy s = None \<Longrightarrow> task_step (Open_Recovery c) s Done (s\<lparr>se_opened := True\<rparr>) []"
| Rec_Gone: "task_step (Rec_Wait c a p) s Done s []"
| Rec_Retry: "task_step (Rec_Wait c a (Some t)) s (Rec_Check c a True t) s []"
| Rec_Wake: "task_step (Rec_Wait c a None) s (Rec_Check c a False t) s []"
| Rec_Break: "se_stopping s \<Longrightarrow> task_step (Rec_Check c a r t) s Done s []"
| Rec_Go_On: "\<not> se_stopping s \<Longrightarrow> task_step (Rec_Check c a r t) s (Rec_Lock c a r t) s []"
| Rec_Acquire:
    "\<not> se_locked s \<Longrightarrow> task_step (Rec_Lock c a r t) s (Rec_Locked c a r t) (lock s) []"
| Rec_Too_Late: "se_stopping s \<Longrightarrow> task_step (Rec_Locked c a r t) s Rec_Leave s []"
| Rec_Spurious:
    "\<not> se_stopping s \<Longrightarrow> \<not> r \<Longrightarrow> recovery_trigger (stall_timeout s) now (se_hub s) = None \<Longrightarrow>
     task_step (Rec_Locked c a r t) s (Rec_Unlock c a None) s []"
| Rec_Needed:
    "\<not> se_stopping s \<Longrightarrow> r \<or> recovery_trigger (stall_timeout s) now (se_hub s) \<noteq> None \<Longrightarrow>
     task_step (Rec_Locked c a r t) s (Rec_Announce c (a + 1) t) s []"
| Rec_State:
    "task_step (Rec_Announce c a t) s (Rec_Begin c a t) (set_state (Recovering a) s) []"
| Rec_Hub:
    "task_step (Rec_Begin c a t) s (Rec_Stopped c a t)
       (call_source Call_Stop (on_hub begin_recovery s)) []"
| Rec_Reopen:
    "se_native s \<Longrightarrow> force_reopen a t \<or> stop_result \<noteq> (Ok () :: unit camera_result) \<Longrightarrow>
     task_step (Rec_Stopped c a t) s (Rec_Reopened c a t) (call_source Call_Reopen s) []"
| Rec_Soft:
    "\<not> (se_native s \<and> force_reopen a t) \<Longrightarrow>
     task_step (Rec_Stopped c a t) s (Rec_Restart c a t (force_reopen a t)) s []"
| Rec_Stop_Failed:
    "\<not> se_native s \<Longrightarrow>
     task_step (Rec_Stopped c a t) s (Rec_Result c a t (Some e)) s []"
| Rec_Reopen_Failed: "task_step (Rec_Reopened c a t) s (Rec_Result c a t (Some e)) s []"
| Rec_Options:
    "task_step (Rec_Reopened c a t) s (Rec_Configured c a t) (call_source Call_Options s) []"
| Rec_Options_Failed: "task_step (Rec_Configured c a t) s (Rec_Result c a t (Some e)) s []"
| Rec_Forget:
    "task_step (Rec_Configured c a t) s (Rec_Restart c a t True)
       (s\<lparr>se_requested := Map.empty\<rparr>) []"
| Rec_Overtaken:
    "se_stopping s \<Longrightarrow>
     task_step (Rec_Restart c a t b) s (Rec_Result c a t (Some stream_stopped)) s []"
| Rec_Proceed:
    "\<not> se_stopping s \<Longrightarrow> task_step (Rec_Restart c a t b) s (Rec_Call c a t b) s []"
| Rec_Start:
    "task_step (Rec_Call c a t b) s (Rec_Started c a t b) (call_source (Call_Start c) s) []"
| Rec_Refused: "task_step (Rec_Started c a t b) s (Rec_Result c a t (Some e)) s []"
| Rec_No_Timeout:
    "se_policy s = Some p \<Longrightarrow> first_frame_timeout p c b = Err e \<Longrightarrow>
     task_step (Rec_Started c a t b) s (Rec_Result c a t (Some e)) s []"
| Rec_Session:
    "se_policy s = Some p \<Longrightarrow> is_ok (first_frame_timeout p c b) \<Longrightarrow>
     task_step (Rec_Started c a t b) s (Rec_First c a t (hub_session (se_hub s))) s []"
| Rec_Bad:
    "recovery_check (se_intent s) c first actual = Err e \<Longrightarrow>
     task_step (Rec_First c a t n) s (Rec_Result c a t (Some e)) s []"
| Rec_Good:
    "recovery_check (se_intent s) c first actual = Ok () \<Longrightarrow>
     task_step (Rec_First c a t n) s (Rec_Result c a t None) s []"
| Rec_Stopping:
    "se_stopping s \<Longrightarrow>
     task_step (Rec_Result c a t r) s Rec_Leave (call_source Call_Stop s) []"
| Rec_Ok:
    "\<not> se_stopping s \<Longrightarrow>
     task_step (Rec_Result c a t None) s (Rec_Recovered c) (on_hub end_recovery s) []"
| Rec_Err:
    "\<not> se_stopping s \<Longrightarrow>
     task_step (Rec_Result c a t (Some e)) s (Rec_Failed c a t e) (call_source Call_Stop s) []"
| Rec_Left: "task_step Rec_Leave s Done (unlock s) []"
| Rec_Streams:
    "task_step (Rec_Recovered c) s (Rec_Unlock c 0 None) (set_state Streaming s) []"
| Rec_Again:
    "\<not> max_attempts_reached (se_policy s) a \<Longrightarrow>
     task_step (Rec_Failed c a t e) s (Rec_Unlock c a (Some t)) (on_hub (hub_stop now) s) []"
| Rec_Exhausted:
    "max_attempts_reached (se_policy s) a \<Longrightarrow>
     task_step (Rec_Failed c a t e) s (Fail_Announce e) (on_hub (hub_stop now) s) []"
| Rec_Drop: "task_step (Rec_Unlock c a p) s (Rec_Wait c a p) (unlock s) []"
| Fail_State: "task_step (Fail_Announce e) s Fail_Stopping (set_state (Failed e) s) []"
| Fail_Flag: "task_step Fail_Stopping s Fail_Quiesce (raise_stopping s) []"
| Fail_Hub: "task_step Fail_Quiesce s Fail_Call (quiesce now s) []"
| Fail_Source: "task_step Fail_Call s Fail_Record (call_source Call_Stop s) []"
| Fail_Metrics: "task_step Fail_Record s Fail_Close (record_terminal now s) []"
| Fail_Closed: "task_step Fail_Close s Fail_Release (close_flag s) []"
| Fail_Busy: "task_step Fail_Release s Fail_Unlock (release_busy s) []"
| Fail_Drop: "task_step Fail_Unlock s Done (unlock s) []"

inductive_cases task_stepE: "task_step t s t' s' new"

section \<open>The machine\<close>

type_synonym machine = "session \<times> task list"

text \<open>
  Beside the tasks: the hub takes its own steps (the driver, the receivers, the application),
  the application closes or drops the session, a control operation records its value, and other
  sessions of the device take and release the busy flag.
\<close>

inductive machine_step :: "machine \<Rightarrow> machine \<Rightarrow> bool" where
  Task_Step:
    "i < length ts \<Longrightarrow> task_step (ts ! i) s t s' new \<Longrightarrow>
     machine_step (s, ts) (s', ts[i := t] @ new)"
| Hub_Step: "hub_step (se_hub s) h \<Longrightarrow> machine_step (s, ts) (s\<lparr>se_hub := h\<rparr>, ts)"
| Close_Call: "se_opened s \<Longrightarrow> machine_step (s, ts) (s, ts @ [Req True])"
| Session_Drop: "se_opened s \<Longrightarrow> \<not> se_stopping s \<Longrightarrow> machine_step (s, ts) (s, ts @ [Req False])"
| Record_Control:
    "se_opened s \<Longrightarrow> machine_step (s, ts) (s\<lparr>se_requested := (se_requested s)(i \<mapsto> v)\<rparr>, ts)"
| Other_Start: "\<not> se_busy s \<Longrightarrow> machine_step (s, ts) (s\<lparr>se_busy := True, se_other := True\<rparr>, ts)"
| Other_Close: "se_other s \<Longrightarrow> machine_step (s, ts) (s\<lparr>se_busy := False, se_other := False\<rparr>, ts)"

inductive_cases machine_stepE: "machine_step m m'"

text \<open>A session just after the checks of \<open>start_inner\<close>, with the caller about to go on.\<close>

definition session_new ::
  "capture_request \<Rightarrow> reconnect_policy option \<Rightarrow> bool \<Rightarrow> nat \<Rightarrow> hub \<Rightarrow> session" where
  "session_new intent policy native flag h =
     \<lparr>se_intent = intent, se_policy = policy, se_native = native, se_flag = flag, se_hub = h,
      se_calls = [], se_busy = True, se_stopping = False, se_closed = False, se_state = Starting,
      se_events = [], se_terminal = None, se_requested = Map.empty, se_locked = False,
      se_waiting = True, se_reply = None, se_opened = False, se_other = False\<rparr>"

definition machine_start :: "machine \<Rightarrow> bool" where
  "machine_start m \<longleftrightarrow>
     (\<exists>intent policy native flag h cs. hub_reachable h
        \<and> m = (session_new intent policy native flag h, [Open_Options cs]))"

abbreviation machine_reachable :: "machine \<Rightarrow> bool" where
  "machine_reachable \<equiv> reachable machine_start machine_step"

section \<open>What each task knows\<close>

text \<open>The tasks between the acquisition of the lifecycle lock and its release.\<close>

definition holds_lock :: "task \<Rightarrow> bool" where
  "holds_lock t =
     (case t of
        Done \<Rightarrow> False | Req _ \<Rightarrow> False | Req_Load _ \<Rightarrow> False | Req_Announce _ \<Rightarrow> False
      | Req_Quiesce _ \<Rightarrow> False | Stop_Lock \<Rightarrow> False | Start_Lock _ \<Rightarrow> False
      | Open_Options _ \<Rightarrow> False | Open_Wait \<Rightarrow> False | Open_Publish _ \<Rightarrow> False
      | Open_Adjust _ \<Rightarrow> False | Open_Recovery _ \<Rightarrow> False | Rec_Wait _ _ _ \<Rightarrow> False
      | Rec_Check _ _ _ _ \<Rightarrow> False | Rec_Lock _ _ _ _ \<Rightarrow> False | _ \<Rightarrow> True)"

text \<open>Those that have raised the stop flag, or found it raised.\<close>

definition knows_stopping :: "task \<Rightarrow> bool" where
  "knows_stopping t =
     (case t of
        Req_Load _ \<Rightarrow> True | Req_Announce _ \<Rightarrow> True | Req_Quiesce _ \<Rightarrow> True
      | Stop_Call \<Rightarrow> True | Stop_Await \<Rightarrow> True | Stop_Record _ \<Rightarrow> True | Stop_Close _ \<Rightarrow> True
      | Start_Close _ \<Rightarrow> True | Fail_Quiesce \<Rightarrow> True | Fail_Call \<Rightarrow> True | Fail_Record \<Rightarrow> True
      | Fail_Close \<Rightarrow> True | _ \<Rightarrow> False)"

definition knows_closed :: "task \<Rightarrow> bool" where
  "knows_closed t =
     (case t of
        Stop_Publish _ \<Rightarrow> True | Stop_Release \<Rightarrow> True | Stop_Unlock \<Rightarrow> True
      | Start_Publish _ \<Rightarrow> True | Start_Release _ \<Rightarrow> True | Fail_Release \<Rightarrow> True
      | Fail_Unlock \<Rightarrow> True | _ \<Rightarrow> False)"

text \<open>Those that hold the lock of a session that is not closed: only they close it or use its source.\<close>

definition knows_open :: "task \<Rightarrow> bool" where
  "knows_open t =
     (case t of
        Stop_Begin \<Rightarrow> True | Stop_Call \<Rightarrow> True | Stop_Await \<Rightarrow> True | Stop_Record _ \<Rightarrow> True
      | Stop_Close _ \<Rightarrow> True | Start_Call _ _ \<Rightarrow> True | Start_Source _ _ _ \<Rightarrow> True
      | Start_First _ _ _ \<Rightarrow> True | Start_Undo _ _ \<Rightarrow> True | Rec_Announce _ _ _ \<Rightarrow> True
      | Rec_Begin _ _ _ \<Rightarrow> True | Rec_Stopped _ _ _ \<Rightarrow> True | Rec_Reopened _ _ _ \<Rightarrow> True
      | Rec_Configured _ _ _ \<Rightarrow> True | Rec_Restart _ _ _ _ \<Rightarrow> True | Rec_Call _ _ _ _ \<Rightarrow> True
      | Rec_Started _ _ _ _ \<Rightarrow> True | Rec_First _ _ _ _ \<Rightarrow> True | Rec_Result _ _ _ _ \<Rightarrow> True
      | Rec_Recovered _ \<Rightarrow> True | Rec_Failed _ _ _ _ \<Rightarrow> True | Fail_Announce _ \<Rightarrow> True
      | Fail_Stopping \<Rightarrow> True | Fail_Quiesce \<Rightarrow> True | Fail_Call \<Rightarrow> True | Fail_Record \<Rightarrow> True
      | Fail_Close \<Rightarrow> True | _ \<Rightarrow> False)"

text \<open>Those that have stopped the source and will not use it again.\<close>

definition knows_quiet :: "task \<Rightarrow> bool" where
  "knows_quiet t =
     (case t of
        Stop_Await \<Rightarrow> True | Stop_Record _ \<Rightarrow> True | Stop_Close _ \<Rightarrow> True | Start_Abort _ \<Rightarrow> True
      | Start_Close _ \<Rightarrow> True | Fail_Record \<Rightarrow> True | Fail_Close \<Rightarrow> True | _ \<Rightarrow> False)"

lemmas task_knowledge =
  holds_lock_def knows_stopping_def knows_closed_def knows_open_def knows_quiet_def

text \<open>Whether the source runs after a sequence of calls.\<close>

fun runs_after :: "bool \<Rightarrow> source_call \<Rightarrow> bool" where
  "runs_after b (Call_Start _) = True"
| "runs_after b Call_Stop = False"
| "runs_after b _ = b"

definition source_runs :: "session \<Rightarrow> bool" where
  "source_runs s = foldl runs_after False (se_calls s)"

definition task_inv :: "session \<Rightarrow> task \<Rightarrow> bool" where
  "task_inv s t \<longleftrightarrow>
     (knows_stopping t \<longrightarrow> se_stopping s) \<and> (knows_closed t \<longrightarrow> se_closed s)
     \<and> (knows_open t \<longrightarrow> \<not> se_closed s) \<and> (knows_quiet t \<longrightarrow> \<not> source_runs s)"

definition shared_inv :: "session \<Rightarrow> bool" where
  "shared_inv s \<longleftrightarrow>
     (se_closed s \<longrightarrow> se_stopping s \<and> \<not> source_runs s)
     \<and> (\<not> se_busy s \<or> se_other s \<longrightarrow> se_closed s)"

definition lock_inv :: "machine \<Rightarrow> bool" where
  "lock_inv m \<longleftrightarrow> length (filter holds_lock (snd m)) = (if se_locked (fst m) then 1 else 0)"

definition machine_inv :: "machine \<Rightarrow> bool" where
  "machine_inv m \<longleftrightarrow>
     shared_inv (fst m) \<and> lock_inv m \<and> (\<forall>t \<in> set (snd m). task_inv (fst m) t)"

section \<open>Effects of a step\<close>

lemma session_ops [simp]:
  "se_stopping (set_state st s) = se_stopping s" "se_closed (set_state st s) = se_closed s"
  "se_busy (set_state st s) = se_busy s" "se_other (set_state st s) = se_other s"
  "se_calls (set_state st s) = se_calls s" "se_locked (set_state st s) = se_locked s"
  "se_hub (set_state st s) = se_hub s"
  "se_stopping (raise_stopping s) = True" "se_closed (raise_stopping s) = se_closed s"
  "se_busy (raise_stopping s) = se_busy s" "se_other (raise_stopping s) = se_other s"
  "se_calls (raise_stopping s) = se_calls s" "se_locked (raise_stopping s) = se_locked s"
  "se_stopping (quiesce now s) = se_stopping s" "se_closed (quiesce now s) = se_closed s"
  "se_busy (quiesce now s) = se_busy s" "se_other (quiesce now s) = se_other s"
  "se_calls (quiesce now s) = se_calls s" "se_locked (quiesce now s) = se_locked s"
  "se_stopping (call_source c s) = se_stopping s" "se_closed (call_source c s) = se_closed s"
  "se_busy (call_source c s) = se_busy s" "se_other (call_source c s) = se_other s"
  "se_locked (call_source c s) = se_locked s" "se_hub (call_source c s) = se_hub s"
  "se_stopping (record_terminal now s) = se_stopping s"
  "se_closed (record_terminal now s) = se_closed s"
  "se_busy (record_terminal now s) = se_busy s" "se_other (record_terminal now s) = se_other s"
  "se_calls (record_terminal now s) = se_calls s"
  "se_locked (record_terminal now s) = se_locked s" "se_hub (record_terminal now s) = se_hub s"
  "se_stopping (close_flag s) = se_stopping s" "se_closed (close_flag s) = True"
  "se_busy (close_flag s) = se_busy s" "se_other (close_flag s) = se_other s"
  "se_calls (close_flag s) = se_calls s" "se_locked (close_flag s) = se_locked s"
  "se_hub (close_flag s) = se_hub s"
  "se_stopping (release_busy s) = se_stopping s" "se_closed (release_busy s) = se_closed s"
  "se_busy (release_busy s) = False" "se_other (release_busy s) = se_other s"
  "se_calls (release_busy s) = se_calls s" "se_locked (release_busy s) = se_locked s"
  "se_hub (release_busy s) = se_hub s"
  "se_stopping (lock s) = se_stopping s" "se_closed (lock s) = se_closed s"
  "se_busy (lock s) = se_busy s" "se_other (lock s) = se_other s"
  "se_calls (lock s) = se_calls s" "se_locked (lock s) = True" "se_hub (lock s) = se_hub s"
  "se_stopping (unlock s) = se_stopping s" "se_closed (unlock s) = se_closed s"
  "se_busy (unlock s) = se_busy s" "se_other (unlock s) = se_other s"
  "se_calls (unlock s) = se_calls s" "se_locked (unlock s) = False" "se_hub (unlock s) = se_hub s"
  "se_stopping (on_hub f s) = se_stopping s" "se_closed (on_hub f s) = se_closed s"
  "se_busy (on_hub f s) = se_busy s" "se_other (on_hub f s) = se_other s"
  "se_calls (on_hub f s) = se_calls s" "se_locked (on_hub f s) = se_locked s"
  by (simp_all add: set_state_def raise_stopping_def quiesce_def call_source_def
      record_terminal_def close_flag_def release_busy_def lock_def unlock_def on_hub_def)

lemma source_runs_eq: "se_calls s = se_calls s' \<Longrightarrow> source_runs s = source_runs s'"
  by (simp add: source_runs_def)

lemma source_runs_ops [simp]:
  "source_runs (set_state st s) = source_runs s" "source_runs (raise_stopping s) = source_runs s"
  "source_runs (quiesce now s) = source_runs s" "source_runs (record_terminal now s) = source_runs s"
  "source_runs (close_flag s) = source_runs s" "source_runs (release_busy s) = source_runs s"
  "source_runs (lock s) = source_runs s" "source_runs (unlock s) = source_runs s"
  "source_runs (on_hub f s) = source_runs s"
  "source_runs (call_source c s) = runs_after (source_runs s) c"
  "source_runs (s\<lparr>se_waiting := w\<rparr>) = source_runs s" "source_runs (s\<lparr>se_reply := r\<rparr>) = source_runs s"
  "source_runs (s\<lparr>se_opened := w\<rparr>) = source_runs s" "source_runs (s\<lparr>se_events := e\<rparr>) = source_runs s"
  "source_runs (s\<lparr>se_requested := q\<rparr>) = source_runs s" "source_runs (s\<lparr>se_hub := h\<rparr>) = source_runs s"
  "source_runs (s\<lparr>se_busy := w, se_other := w\<rparr>) = source_runs s"
  by (simp_all add: source_runs_def call_source_def)

text \<open>The flags only rise; the holder of the lock alone closes the session and starts the source.\<close>

lemma step_flags:
  assumes "task_step t s t' s' new"
  shows "(se_stopping s \<longrightarrow> se_stopping s') \<and> (se_closed s \<longrightarrow> se_closed s')
    \<and> (\<not> se_closed s \<and> se_closed s' \<longrightarrow> holds_lock t)
    \<and> (\<not> source_runs s \<and> source_runs s' \<longrightarrow> holds_lock t)"
  using assms by cases (simp_all add: holds_lock_def)

lemma step_task_inv:
  assumes "task_step t s t' s' new" "shared_inv s" "task_inv s t"
  shows "task_inv s' t' \<and> (\<forall>u \<in> set new. task_inv s' u)"
  using assms(1)
proof cases
  case (Req_Again c)
  then show ?thesis by (cases c) (simp_all add: task_inv_def task_knowledge)
next
  case (Req_Closed c)
  then show ?thesis by (cases c) (simp_all add: task_inv_def task_knowledge)
next
  case (Req_Hub c now)
  then show ?thesis by (cases c) (simp_all add: task_inv_def task_knowledge)
qed (use assms(2,3) in \<open>simp_all add: task_inv_def shared_inv_def task_knowledge\<close>)

lemma step_shared_inv:
  assumes "task_step t s t' s' new" "shared_inv s" "task_inv s t"
  shows "shared_inv s'"
  using assms(1)
proof cases
  case (Start_Reply r)
  then show ?thesis using assms(2) by (simp add: shared_inv_def)
qed (use assms(2,3) in \<open>auto simp: task_inv_def shared_inv_def task_knowledge\<close>)

text \<open>A step keeps what the other tasks know, since at most one of them holds the lock.\<close>

lemma step_other_inv:
  assumes "task_step t s t' s' new" "task_inv s u" "\<not> (holds_lock t \<and> holds_lock u)"
  shows "task_inv s' u"
proof -
  have "knows_open u \<or> knows_quiet u \<Longrightarrow> holds_lock u"
    by (cases u) (simp_all add: task_knowledge)
  with step_flags [OF assms(1)] assms(2,3) show ?thesis
    unfolding task_inv_def by blast
qed

lemma step_lock:
  assumes "task_step t s t' s' new"
  shows "length (filter holds_lock (t' # new)) + (if se_locked s then 1 else 0)
    = (if se_locked s' then 1 else 0) + (if holds_lock t then 1 else 0 :: nat)
    \<or> holds_lock t \<and> \<not> se_locked s"
  using assms
proof cases
  case (Req_Again c)
  then show ?thesis by (cases c) (simp_all add: holds_lock_def)
next
  case (Req_Closed c)
  then show ?thesis by (cases c) (simp_all add: holds_lock_def)
next
  case (Req_Hub c now)
  then show ?thesis by (cases c) (simp_all add: holds_lock_def)
qed (simp_all add: holds_lock_def)

lemma filter_update:
  "i < length xs \<Longrightarrow> length (filter P (xs[i := y])) + (if P (xs ! i) then 1 else 0)
     = length (filter P xs) + (if P y then 1 else 0)"
proof (induction xs arbitrary: i)
  case (Cons x xs)
  then show ?case by (cases i) auto
qed simp

lemma list_update_member:
  assumes "u \<in> set (xs[i := y])"
  obtains "u = y" | j where "j < length xs" "j \<noteq> i" "u = xs ! j"
proof -
  from assms obtain j where j: "j < length xs" "u = xs[i := y] ! j" by (auto simp: in_set_conv_nth)
  then show ?thesis using that by (cases "j = i") auto
qed

lemma holder_unique:
  assumes "lock_inv (s, ts)" "i < length ts" "j < length ts" "i \<noteq> j"
  shows "\<not> (holds_lock (ts ! i) \<and> holds_lock (ts ! j))"
proof
  assume both: "holds_lock (ts ! i) \<and> holds_lock (ts ! j)"
  have "{i, j} \<subseteq> {k. k < length ts \<and> holds_lock (ts ! k)}" using assms both by auto
  then have "card {i, j} \<le> length (filter holds_lock ts)"
    unfolding length_filter_conv_card by (intro card_mono) auto
  with assms(1,4) show False by (simp add: lock_inv_def split: if_splits)
qed

lemma holder_locked:
  assumes "lock_inv (s, ts)" "i < length ts" "holds_lock (ts ! i)"
  shows "se_locked s"
proof -
  have "ts ! i \<in> set (filter holds_lock ts)" using assms by simp
  then have "filter holds_lock ts \<noteq> []" by (metis empty_iff list.set(1))
  then show ?thesis using assms(1) by (auto simp: lock_inv_def split: if_splits)
qed

lemma step_machine_inv:
  assumes inv: "machine_inv (s, ts)" and i: "i < length ts"
    and step: "task_step (ts ! i) s t' s' new"
  shows "machine_inv (s', ts[i := t'] @ new)"
proof -
  have shared: "shared_inv s" and lock: "lock_inv (s, ts)" and tasks: "\<And>u. u \<in> set ts \<Longrightarrow> task_inv s u"
    using inv by (simp_all add: machine_inv_def)
  have t: "task_inv s (ts ! i)" using tasks i by simp
  have "length (filter holds_lock (t' # new)) + (if se_locked s then 1 else 0)
    = (if se_locked s' then 1 else 0) + (if holds_lock (ts ! i) then 1 else 0 :: nat)"
    using step_lock [OF step] holder_locked [OF lock i] by blast
  with filter_update [OF i, of holds_lock t'] lock have "lock_inv (s', ts[i := t'] @ new)"
    by (simp add: lock_inv_def split: if_splits)
  moreover have "task_inv s' u" if u: "u \<in> set (ts[i := t'] @ new)" for u
  proof -
    from u consider "u = t' \<or> u \<in> set new" | j where "j < length ts" "j \<noteq> i" "u = ts ! j"
      by (auto elim: list_update_member)
    then show ?thesis
    proof cases
      case 1
      then show ?thesis using step_task_inv [OF step shared t] by blast
    next
      case 2
      then show ?thesis
        using step_other_inv [OF step] tasks holder_unique [OF lock i] by (metis nth_mem)
    qed
  qed
  ultimately show ?thesis
    using step_shared_inv [OF step shared t] by (simp add: machine_inv_def)
qed

lemma task_inv_same:
  assumes "se_stopping s' = se_stopping s" "se_closed s' = se_closed s" "se_calls s' = se_calls s"
  shows "task_inv s' t = task_inv s t"
  using assms by (simp add: task_inv_def source_runs_def)

lemma machine_inv_start: "machine_start m \<Longrightarrow> machine_inv m"
  by (auto simp: machine_start_def machine_inv_def session_new_def shared_inv_def lock_inv_def
      task_inv_def task_knowledge)

lemma machine_inv_step:
  assumes "machine_inv m" "machine_step m m'"
  shows "machine_inv m'"
  using assms(2)
proof cases
  case (Task_Step i ts s t s' new)
  then show ?thesis using step_machine_inv assms(1) by simp
qed (use assms(1) in \<open>auto simp: machine_inv_def shared_inv_def lock_inv_def source_runs_def
    task_inv_def task_knowledge\<close>)

interpretation session_machine: inductive_invariant machine_start machine_step machine_inv
  by unfold_locales (rule machine_inv_start, assumption, rule machine_inv_step)

end
