(* ===== verification/Session_Shutdown.thy ===== *)
theory Session_Shutdown
  imports Session_Machine
begin

text \<open>
  What the session machine promises: its hub only ever takes steps of the hub machine, a session
  that has been asked to stop shuts down completely in a bounded number of steps, and the
  recovery loop keeps to its number of attempts.
\<close>

section \<open>The hub of a session\<close>

lemma hub_step_once: "hub_step h h' \<Longrightarrow> hub_step\<^sup>*\<^sup>* h h'" by blast

lemma hub_stop_steps: "hub_step\<^sup>*\<^sup>* h (hub_stop now h)"
proof -
  have "hub_step\<^sup>*\<^sup>* h (mark_stopped now h)"
    by (rule hub_step_once, rule hub_step.Mark_Stopped)
  also have "hub_step\<^sup>*\<^sup>* (mark_stopped now h) (clear_queues (mark_stopped now h))"
    by (rule hub_step_once, rule hub_step.Clear_Queues)
  also have "hub_step\<^sup>*\<^sup>* (clear_queues (mark_stopped now h)) (deactivate (clear_queues (mark_stopped now h)))"
    by (rule hub_step_once, rule hub_step.Deactivate)
  also have "hub_step\<^sup>*\<^sup>* (deactivate (clear_queues (mark_stopped now h))) (hub_stop now h)"
    unfolding hub_stop_def by (rule hub_step_once, rule hub_step.Wake)
  finally show ?thesis .
qed

lemma quiesce_steps: "hub_step\<^sup>*\<^sup>* (se_hub s) (se_hub (quiesce now s))"
proof -
  let ?h = "se_hub s"
  have "hub_step\<^sup>*\<^sup>* ?h (disable_recovery ?h)"
    by (rule hub_step_once, rule hub_step.Disable_Recovery)
  also have "hub_step\<^sup>*\<^sup>* (disable_recovery ?h) (end_recovery (disable_recovery ?h))"
    by (rule hub_step_once, rule hub_step.End_Recovery)
  also have "hub_step\<^sup>*\<^sup>* (end_recovery (disable_recovery ?h)) (se_hub (quiesce now s))"
    unfolding quiesce_def by (simp add: hub_stop_steps)
  finally show ?thesis .
qed

lemma task_step_hub:
  assumes "task_step t s t' s' new"
  shows "hub_step\<^sup>*\<^sup>* (se_hub s) (se_hub s')"
  using assms
  by cases (auto simp: raise_stopping_def on_hub_def quiesce_steps hub_stop_steps
      intro: hub_step_once hub_step.intros)

lemma machine_step_hub:
  assumes "machine_step m m'"
  shows "hub_step\<^sup>*\<^sup>* (se_hub (fst m)) (se_hub (fst m'))"
  using assms
  by cases (auto dest: task_step_hub)

lemma machine_steps_hub:
  assumes "machine_step\<^sup>*\<^sup>* m m'"
  shows "hub_step\<^sup>*\<^sup>* (se_hub (fst m)) (se_hub (fst m'))"
  using assms by (induction rule: rtranclp_induct) (auto dest: machine_step_hub)

lemma machine_hub_reachable: "machine_reachable m \<Longrightarrow> hub_reachable (se_hub (fst m))"
proof (induction rule: reachable.induct)
  case (reachable_start m)
  then show ?case by (auto simp: machine_start_def session_new_def)
next
  case (reachable_step m m')
  show ?case
    by (rule reachable_steps [OF machine_step_hub [OF reachable_step.hyps(2)] reachable_step.IH])
qed

section \<open>Shutting down\<close>

text \<open>The steps a task still takes itself, with those of the tasks it spawns, once the stop flag is up.\<close>

definition steps_left :: "task \<Rightarrow> nat" where
  "steps_left t =
     (case t of
        Done \<Rightarrow> 0 | Req _ \<Rightarrow> 11 | Req_Load _ \<Rightarrow> 23 | Req_Announce _ \<Rightarrow> 22 | Req_Quiesce _ \<Rightarrow> 21
      | Stop_Lock \<Rightarrow> 10 | Stop_Check \<Rightarrow> 9 | Stop_Begin \<Rightarrow> 8 | Stop_Call \<Rightarrow> 7 | Stop_Await \<Rightarrow> 6
      | Stop_Record _ \<Rightarrow> 5 | Stop_Close _ \<Rightarrow> 4 | Stop_Publish _ \<Rightarrow> 3 | Stop_Release \<Rightarrow> 2
      | Stop_Unlock \<Rightarrow> 1
      | Start_Lock _ \<Rightarrow> 9 | Start_Next _ _ \<Rightarrow> 8 | Start_Call _ _ \<Rightarrow> 12 | Start_Source _ _ _ \<Rightarrow> 11
      | Start_First _ _ _ \<Rightarrow> 10 | Start_Undo _ _ \<Rightarrow> 9 | Start_End _ \<Rightarrow> 7 | Start_Abort _ \<Rightarrow> 6
      | Start_Close _ \<Rightarrow> 5 | Start_Publish _ \<Rightarrow> 4 | Start_Release _ \<Rightarrow> 3 | Start_Send _ \<Rightarrow> 2
      | Start_Unlock \<Rightarrow> 1
      | Open_Options _ \<Rightarrow> 25 | Open_Wait \<Rightarrow> 15 | Open_Publish _ \<Rightarrow> 14 | Open_Adjust _ \<Rightarrow> 13
      | Open_Recovery _ \<Rightarrow> 12
      | Rec_Wait _ _ _ \<Rightarrow> 2 | Rec_Check _ _ _ _ \<Rightarrow> 1 | Rec_Lock _ _ _ _ \<Rightarrow> 3 | Rec_Locked _ _ _ _ \<Rightarrow> 2
      | Rec_Announce _ _ _ \<Rightarrow> 12 | Rec_Begin _ _ _ \<Rightarrow> 11 | Rec_Stopped _ _ _ \<Rightarrow> 10
      | Rec_Reopened _ _ _ \<Rightarrow> 9 | Rec_Configured _ _ _ \<Rightarrow> 8 | Rec_Restart _ _ _ _ \<Rightarrow> 7
      | Rec_Call _ _ _ _ \<Rightarrow> 6 | Rec_Started _ _ _ _ \<Rightarrow> 5 | Rec_First _ _ _ _ \<Rightarrow> 4
      | Rec_Result _ _ _ _ \<Rightarrow> 2 | Rec_Leave \<Rightarrow> 1 | Rec_Recovered _ \<Rightarrow> 4
      | Rec_Failed _ _ _ _ \<Rightarrow> 9 | Rec_Unlock _ _ _ \<Rightarrow> 3
      | Fail_Announce _ \<Rightarrow> 8 | Fail_Stopping \<Rightarrow> 7 | Fail_Quiesce \<Rightarrow> 6 | Fail_Call \<Rightarrow> 5
      | Fail_Record \<Rightarrow> 4 | Fail_Close \<Rightarrow> 3 | Fail_Release \<Rightarrow> 2 | Fail_Unlock \<Rightarrow> 1)"

definition total_left :: "task list \<Rightarrow> nat" where
  "total_left ts = sum_list (map steps_left ts)"

lemma steps_left_decreases:
  assumes "task_step t s t' s' new" "se_stopping s"
  shows "steps_left t' + total_left new < steps_left t"
  using assms(1)
proof cases
  case (Req_Again c)
  then show ?thesis by (cases c) (simp_all add: steps_left_def total_left_def)
next
  case (Req_Closed c)
  then show ?thesis by (cases c) (simp_all add: steps_left_def total_left_def)
next
  case (Req_Hub c now)
  then show ?thesis by (cases c) (simp_all add: steps_left_def total_left_def)
qed (use assms(2) in \<open>simp_all add: steps_left_def total_left_def\<close>)

text \<open>A move of one of the tasks.\<close>

inductive task_move :: "machine \<Rightarrow> machine \<Rightarrow> bool" where
  Move:
    "i < length ts \<Longrightarrow> task_step (ts ! i) s t s' new \<Longrightarrow> task_move (s, ts) (s', ts[i := t] @ new)"

lemma task_move_machine: "task_move m m' \<Longrightarrow> machine_step m m'"
  by (auto elim!: task_move.cases intro: machine_step.Task_Step)

lemma total_left_update:
  "i < length ts \<Longrightarrow> total_left (ts[i := t]) + steps_left (ts ! i) = total_left ts + steps_left t"
proof (induction ts arbitrary: i)
  case (Cons x xs)
  then show ?case by (cases i) (auto simp: total_left_def)
qed simp

lemma task_move_decreases:
  assumes "task_move m m'" "se_stopping (fst m)"
  shows "total_left (snd m') < total_left (snd m) \<and> se_stopping (fst m')"
  using assms(1)
proof cases
  case (Move i ts s t s' new)
  then have "total_left (ts[i := t] @ new) + steps_left (ts ! i)
      = total_left ts + steps_left t + total_left new"
    using total_left_update [of i ts t] by (simp add: total_left_def)
  moreover have "steps_left t + total_left new < steps_left (ts ! i)"
    using steps_left_decreases Move assms(2) by fastforce
  ultimately show ?thesis
    using step_flags [OF Move(4)] Move assms(2) by simp
qed

lemma task_moves_bounded:
  assumes "(task_move ^^ n) m m'" "se_stopping (fst m)"
  shows "total_left (snd m') + n \<le> total_left (snd m) \<and> se_stopping (fst m')"
  using assms
proof (induction n arbitrary: m')
  case (Suc n)
  then obtain k where "(task_move ^^ n) m k" "task_move k m'" by auto
  with Suc task_move_decreases [of k m'] show ?case by fastforce
qed simp

section \<open>Progress\<close>

lemma lock_free_enabled:
  assumes "t \<noteq> Done" "\<not> se_locked s" "se_stopping s" "\<not> holds_lock t"
  shows "\<exists>s' t' new. task_step t s t' s' new"
proof (cases t)
  case (Req_Load c)
  then show ?thesis using task_step.Req_Closed task_step.Req_Open by blast
next
  case (Rec_Wait c a p)
  then show ?thesis using task_step.Rec_Gone by blast
next
  case (Open_Publish c)
  then show ?thesis using task_step.Open_Unrated task_step.Open_State by blast
next
  case (Open_Recovery c)
  then show ?thesis using task_step.Open_Recovers task_step.Open_Done by (cases "se_policy s") blast+
qed (use assms in \<open>auto simp: holds_lock_def intro: task_step.intros\<close>)

lemma start_check_fails: "start_check intent (Err e) actual = Err e"
  by (simp add: start_check_def)

lemma recovery_check_fails: "recovery_check intent c (Err e) actual = Err e"
  by (simp add: recovery_check_def)

lemma holder_enabled:
  assumes "holds_lock t" "se_stopping s"
  shows "\<exists>t' s' new. task_step t s t' s' new"
proof (cases t)
  case Stop_Check
  then show ?thesis using task_step.Stop_Already task_step.Stop_First by blast
next
  case (Start_First c cs n)
  then show ?thesis using task_step.Start_Bad [OF start_check_fails] by blast
next
  case (Rec_Stopped c a t)
  then show ?thesis
    using task_step.Rec_Soft task_step.Rec_Reopen [of s a t "Err stream_stopped"]
    by (cases "se_native s \<and> force_reopen a t") blast+
next
  case (Rec_First c a t n)
  then show ?thesis using task_step.Rec_Bad [OF recovery_check_fails] by blast
next
  case (Rec_Failed c a t e)
  then show ?thesis
    using task_step.Rec_Again task_step.Rec_Exhausted
    by (cases "max_attempts_reached (se_policy s) a") blast+
qed (use assms in \<open>auto simp: holds_lock_def intro: task_step.intros\<close>)

lemma task_progress:
  assumes "lock_inv (s, ts)" "se_stopping s" "t \<in> set ts" "t \<noteq> Done"
  shows "\<exists>m'. task_move (s, ts) m'"
proof (cases "se_locked s")
  case True
  then have "filter holds_lock ts \<noteq> []" using assms(1) by (auto simp: lock_inv_def)
  then obtain i where "i < length ts" "holds_lock (ts ! i)"
    by (metis filter_False in_set_conv_nth)
  then show ?thesis using holder_enabled assms(2) task_move.Move by metis
next
  case False
  obtain i where i: "i < length ts" "ts ! i = t" using assms(3) by (auto simp: in_set_conv_nth)
  then have "\<not> holds_lock t" using holder_locked [OF assms(1)] False by blast
  then have "\<exists>s' t' new. task_step t s t' s' new"
    using lock_free_enabled [OF assms(4) False assms(2)] by blast
  then show ?thesis using i task_move.Move by metis
qed

section \<open>Closing\<close>

text \<open>
  A session whose stop flag is up and that is not closed has a task that will close it; a closed
  one that still holds the busy flag has a task that will release it.
\<close>

definition will_close :: "task \<Rightarrow> bool" where
  "will_close t =
     (case t of
        Req_Load _ \<Rightarrow> True | Req_Announce _ \<Rightarrow> True | Req_Quiesce _ \<Rightarrow> True
      | Stop_Lock \<Rightarrow> True | Stop_Check \<Rightarrow> True | Stop_Begin \<Rightarrow> True | Stop_Call \<Rightarrow> True
      | Stop_Await \<Rightarrow> True | Stop_Record _ \<Rightarrow> True | Stop_Close _ \<Rightarrow> True | Start_Close _ \<Rightarrow> True
      | Fail_Quiesce \<Rightarrow> True | Fail_Call \<Rightarrow> True | Fail_Record \<Rightarrow> True | Fail_Close \<Rightarrow> True
      | _ \<Rightarrow> False)"

definition will_release :: "task \<Rightarrow> bool" where
  "will_release t =
     (case t of
        Stop_Publish _ \<Rightarrow> True | Stop_Release \<Rightarrow> True | Start_Publish _ \<Rightarrow> True
      | Start_Release _ \<Rightarrow> True | Fail_Release \<Rightarrow> True | _ \<Rightarrow> False)"

definition closing_inv :: "machine \<Rightarrow> bool" where
  "closing_inv m \<longleftrightarrow>
     (se_stopping (fst m) \<and> \<not> se_closed (fst m) \<longrightarrow> (\<exists>t \<in> set (snd m). will_close t))
     \<and> (se_closed (fst m) \<and> se_busy (fst m) \<and> \<not> se_other (fst m) \<longrightarrow>
         (\<exists>t \<in> set (snd m). will_release t))"

text \<open>A step that raises the stop flag, closes the session, or leaves a task that was to close or
  release, is made by or leaves a task that will.\<close>

lemma step_closing:
  assumes "task_step t s t' s' new" "shared_inv s"
  shows "(se_stopping s' \<and> \<not> se_closed s' \<and> (\<not> se_stopping s \<or> will_close t) \<longrightarrow>
       (\<exists>u \<in> set (t' # new). will_close u))
    \<and> (se_closed s' \<and> se_busy s' \<and> \<not> se_other s' \<and> (\<not> se_closed s \<or> will_release t) \<longrightarrow>
       (\<exists>u \<in> set (t' # new). will_release u))
    \<and> (se_busy s' \<longrightarrow> se_busy s) \<and> se_other s' = se_other s"
  using assms(1)
proof cases
  case (Req_Again c)
  then show ?thesis by (cases c) (simp_all add: will_close_def will_release_def)
next
  case (Req_Closed c)
  then show ?thesis by (cases c) (simp_all add: will_close_def will_release_def)
next
  case (Req_Hub c now)
  then show ?thesis by (cases c) (simp_all add: will_close_def will_release_def)
qed (use assms(2) in \<open>simp_all add: will_close_def will_release_def shared_inv_def\<close>)

lemma closing_inv_update:
  assumes "\<exists>u \<in> set ts. P u" "i < length ts" "P (ts ! i) \<longrightarrow> (\<exists>u \<in> set (t' # new). P u)"
  shows "\<exists>u \<in> set (ts[i := t'] @ new). P u"
proof (cases "P (ts ! i)")
  case True
  with assms(3) obtain u where "u \<in> set (t' # new)" "P u" by blast
  moreover have "t' \<in> set (ts[i := t'])" using assms(2) by (rule set_update_memI)
  ultimately show ?thesis by auto
next
  case False
  from assms(1) obtain j where j: "j < length ts" "P (ts ! j)" by (auto simp: in_set_conv_nth)
  with False have "ts[i := t'] ! j = ts ! j" by (metis nth_list_update_neq)
  with j have "ts ! j \<in> set (ts[i := t'])" by (metis length_list_update nth_mem)
  with j show ?thesis by auto
qed

lemma closing_inv_step:
  assumes "closing_inv m" "machine_inv m" "machine_step m m'"
  shows "closing_inv m'"
  using assms(3)
proof cases
  case (Task_Step i ts s t' s' new)
  have shared: "shared_inv s" using assms(2) Task_Step by (simp add: machine_inv_def)
  note step = step_closing [OF Task_Step(4) shared] and flags = step_flags [OF Task_Step(4)]
  have new: "t' \<in> set (ts[i := t'])" using Task_Step(3) by (rule set_update_memI)
  have "\<exists>u \<in> set (ts[i := t'] @ new). will_close u" if "se_stopping s'" "\<not> se_closed s'"
  proof (cases "se_stopping s")
    case True
    then have "\<exists>u \<in> set ts. will_close u"
      using assms(1) that flags Task_Step by (auto simp: closing_inv_def)
    then show ?thesis using closing_inv_update [OF _ Task_Step(3)] step that by blast
  next
    case False
    then show ?thesis using step that new by auto
  qed
  moreover have "\<exists>u \<in> set (ts[i := t'] @ new). will_release u"
    if "se_closed s'" "se_busy s'" "\<not> se_other s'"
  proof (cases "se_closed s")
    case True
    then have "\<exists>u \<in> set ts. will_release u"
      using assms(1) that step Task_Step by (auto simp: closing_inv_def)
    then show ?thesis using closing_inv_update [OF _ Task_Step(3)] step that by blast
  next
    case False
    then show ?thesis using step that new by auto
  qed
  ultimately show ?thesis by (simp add: Task_Step closing_inv_def)
qed (use assms(1,2) in \<open>auto simp: closing_inv_def\<close>)

lemma closing_inv_start: "machine_start m \<Longrightarrow> closing_inv m"
  by (auto simp: machine_start_def closing_inv_def session_new_def)

interpretation session_closing:
  inductive_invariant machine_start machine_step "\<lambda>m. machine_inv m \<and> closing_inv m"
  by unfold_locales (blast intro: machine_inv_start closing_inv_start,
    blast intro: machine_inv_step closing_inv_step)

lemma task_moves_machine: "task_move\<^sup>*\<^sup>* m m' \<Longrightarrow> machine_step\<^sup>*\<^sup>* m m'"
proof (induction rule: rtranclp_induct)
  case (step y z)
  then show ?case using task_move_machine by (meson rtranclp.rtrancl_into_rtrancl)
qed simp

text \<open>With no task left to move, everything is done: a task that is not could still move.\<close>

lemma all_done_settled:
  assumes "machine_inv (s, ts)" "closing_inv (s, ts)" "se_stopping s" "set ts \<subseteq> {Done}"
  shows "se_closed s \<and> \<not> source_runs s \<and> \<not> se_locked s \<and> (\<not> se_busy s \<or> se_other s)"
proof -
  have none: "\<not> will_close t \<and> \<not> will_release t \<and> \<not> holds_lock t" if "t \<in> set ts" for t
  proof -
    have "t = Done" using assms(4) that by blast
    then show ?thesis by (simp add: will_close_def will_release_def holds_lock_def)
  qed
  have "filter holds_lock ts = []" using none by (simp add: filter_empty_conv)
  then have "\<not> se_locked s"
    using assms(1) by (simp add: machine_inv_def lock_inv_def split: if_splits)
  moreover have closed: "se_closed s"
    using assms(2,3) none unfolding closing_inv_def fst_conv snd_conv by blast
  moreover have "\<not> se_busy s \<or> se_other s"
    using assms(2) closed none unfolding closing_inv_def fst_conv snd_conv by blast
  moreover have "\<not> source_runs s"
    using assms(1) closed by (simp add: machine_inv_def shared_inv_def)
  ultimately show ?thesis by blast
qed

lemma runs_to_done:
  assumes "machine_inv m" "closing_inv m" "se_stopping (fst m)"
  shows "\<exists>m'. task_move\<^sup>*\<^sup>* m m' \<and> set (snd m') \<subseteq> {Done}"
  using assms
proof (induction "total_left (snd m)" arbitrary: m rule: less_induct)
  case less
  show ?case
  proof (cases "set (snd m) \<subseteq> {Done}")
    case False
    then obtain t where "t \<in> set (snd m)" "t \<noteq> Done" by blast
    then obtain k where k: "task_move m k"
      using task_progress [of "fst m" "snd m" t] less.prems by (auto simp: machine_inv_def)
    from k have "machine_step m k" by (rule task_move_machine)
    then have "machine_inv k" "closing_inv k"
      using less.prems machine_inv_step closing_inv_step by blast+
    with less.hyps [of k] task_move_decreases [OF k less.prems(3)] obtain m'
      where "task_move\<^sup>*\<^sup>* k m'" "set (snd m') \<subseteq> {Done}" by blast
    with k show ?thesis by (meson converse_rtranclp_into_rtranclp)
  qed blast
qed

lemma moves_stopping:
  assumes "task_move\<^sup>*\<^sup>* m m'" "se_stopping (fst m)"
  shows "se_stopping (fst m')"
  using assms by (induction rule: rtranclp_induct) (auto dest: task_move_decreases)

section \<open>The life of a session\<close>

text \<open>
  The specification a session implements: it lives, drains and dies, in this order; its source
  may run until it dies, is at rest when it dies, and never runs again.
\<close>

datatype life = Live | Draining | Dead

inductive life_step :: "life \<times> bool \<Rightarrow> life \<times> bool \<Rightarrow> bool" where
  Use_Source: "l \<noteq> Dead \<Longrightarrow> life_step (l, r) (l, r')"
| Drain: "life_step (Live, r) (Draining, r)"
| Die: "life_step (Draining, False) (Dead, False)"

definition life_of :: "machine \<Rightarrow> life \<times> bool" where
  "life_of m =
     (if se_closed (fst m) then Dead else if se_stopping (fst m) then Draining else Live,
      source_runs (fst m))"

lemma task_step_life:
  assumes "task_step t s t' s' new" "shared_inv s" "task_inv s t"
  shows "life_of (s', ts') = life_of (s, ts) \<or> life_step (life_of (s, ts)) (life_of (s', ts'))"
  using assms(1)
proof cases
  case (Start_Reply r)
  then show ?thesis by (simp add: life_of_def)
qed (use assms(2,3) in \<open>auto simp: life_of_def task_inv_def task_knowledge shared_inv_def
      intro: life_step.intros\<close>)

lemma machine_step_life:
  assumes "machine_inv m" "machine_step m m'"
  shows "life_of m' = life_of m \<or> life_step (life_of m) (life_of m')"
  using assms(2)
proof cases
  case (Task_Step i ts s t s' new)
  then have "shared_inv s" "task_inv s (ts ! i)" using assms(1) by (auto simp: machine_inv_def)
  with Task_Step task_step_life show ?thesis by blast
qed (auto simp: life_of_def source_runs_def)

lemma machine_steps_life:
  assumes "machine_step\<^sup>*\<^sup>* m m'" "machine_inv m"
  shows "life_step\<^sup>*\<^sup>* (life_of m) (life_of m')"
  using assms(1)
proof (induction rule: rtranclp_induct)
  case (step y z)
  have "machine_inv y" using session_machine.inv_steps [OF step(1) assms(2)] .
  from machine_step_life [OF this step(2)] step(3) show ?case
    by (auto intro: rtranclp.rtrancl_into_rtrancl)
qed simp

end
