(* ===== verification/Session_States.thy ===== *)
theory Session_States
  imports Session_Shutdown
begin

text \<open>
  What a session publishes: while \<open>start\<close> has not returned, the caller and the start task are the
  only tasks; a session that is closed shows a state of its end; and the recovery loop announces
  no more attempts than its policy allows.
\<close>

section \<open>The opening phase\<close>

definition opens :: "task \<Rightarrow> bool" where
  "opens t =
     (case t of
        Open_Options _ \<Rightarrow> True | Open_Wait \<Rightarrow> True | Open_Publish _ \<Rightarrow> True | Open_Adjust _ \<Rightarrow> True
      | Open_Recovery _ \<Rightarrow> True | _ \<Rightarrow> False)"

definition publishes_opening :: "task \<Rightarrow> bool" where
  "publishes_opening t =
     (case t of
        Open_Publish _ \<Rightarrow> True | Open_Adjust _ \<Rightarrow> True | Open_Recovery _ \<Rightarrow> True | _ \<Rightarrow> False)"

text \<open>The start task beside a caller that waits: no one else can have raised the stop flag.\<close>

definition start_phase :: "session \<Rightarrow> task \<Rightarrow> bool" where
  "start_phase s t =
     (case t of
        Start_Lock _ \<Rightarrow> \<not> se_stopping s \<and> se_reply s = None
      | Start_Next _ _ \<Rightarrow> \<not> se_stopping s \<and> se_reply s = None
      | Start_Call _ _ \<Rightarrow> \<not> se_stopping s \<and> se_reply s = None
      | Start_Source _ _ _ \<Rightarrow> \<not> se_stopping s \<and> se_reply s = None
      | Start_First _ _ _ \<Rightarrow> \<not> se_stopping s \<and> se_reply s = None
      | Start_Undo _ _ \<Rightarrow> \<not> se_stopping s \<and> se_reply s = None
      | Start_End _ \<Rightarrow> \<not> se_stopping s \<and> se_reply s = None
      | Start_Abort r \<Rightarrow> \<not> is_ok r \<and> se_reply s = None
      | Start_Close r \<Rightarrow> \<not> is_ok r \<and> se_reply s = None
      | Start_Publish r \<Rightarrow> \<not> is_ok r \<and> se_reply s = None
      | Start_Release r \<Rightarrow> \<not> is_ok r \<and> se_reply s = None
      | Start_Send r \<Rightarrow> (is_ok r \<longrightarrow> \<not> se_stopping s) \<and> se_reply s = None
      | Start_Unlock \<Rightarrow> (\<exists>r. se_reply s = Some r \<and> (is_ok r \<longrightarrow> \<not> se_stopping s))
      | Done \<Rightarrow> (\<exists>r. se_reply s = Some r \<and> (is_ok r \<longrightarrow> \<not> se_stopping s))
      | _ \<Rightarrow> False)"

definition opening_inv :: "machine \<Rightarrow> bool" where
  "opening_inv m =
     (case m of (s, ts) \<Rightarrow>
        list_all (\<lambda>t. \<not> opens t) ts
        \<or> \<not> se_opened s \<and> \<not> se_closed s \<and> \<not> se_stopping s \<and> se_waiting s \<and> se_reply s = None
            \<and> (\<exists>cs. ts = [Open_Options cs])
        \<or> \<not> se_opened s \<and> se_waiting s \<and> (\<exists>st. ts = [Open_Wait, st] \<and> start_phase s st)
        \<or> \<not> se_opened s \<and> \<not> se_stopping s
            \<and> (\<exists>t st. ts = [t, st] \<and> publishes_opening t \<and> (st = Start_Unlock \<or> st = Done)))"

lemma session_fields [simp]:
  "se_waiting (set_state st s) = se_waiting s" "se_reply (set_state st s) = se_reply s"
  "se_opened (set_state st s) = se_opened s"
  "se_waiting (raise_stopping s) = se_waiting s" "se_reply (raise_stopping s) = se_reply s"
  "se_opened (raise_stopping s) = se_opened s"
  "se_waiting (quiesce now s) = se_waiting s" "se_reply (quiesce now s) = se_reply s"
  "se_opened (quiesce now s) = se_opened s"
  "se_waiting (call_source c s) = se_waiting s" "se_reply (call_source c s) = se_reply s"
  "se_opened (call_source c s) = se_opened s"
  "se_waiting (record_terminal now s) = se_waiting s"
  "se_reply (record_terminal now s) = se_reply s"
  "se_opened (record_terminal now s) = se_opened s"
  "se_waiting (close_flag s) = se_waiting s" "se_reply (close_flag s) = se_reply s"
  "se_opened (close_flag s) = se_opened s"
  "se_waiting (release_busy s) = se_waiting s" "se_reply (release_busy s) = se_reply s"
  "se_opened (release_busy s) = se_opened s"
  "se_waiting (lock s) = se_waiting s" "se_reply (lock s) = se_reply s"
  "se_opened (lock s) = se_opened s"
  "se_waiting (unlock s) = se_waiting s" "se_reply (unlock s) = se_reply s"
  "se_opened (unlock s) = se_opened s"
  "se_waiting (on_hub f s) = se_waiting s" "se_reply (on_hub f s) = se_reply s"
  "se_opened (on_hub f s) = se_opened s"
  by (simp_all add: set_state_def raise_stopping_def quiesce_def call_source_def
      record_terminal_def close_flag_def release_busy_def lock_def unlock_def on_hub_def)

lemma step_not_opens:
  assumes "task_step t s t' s' new" "\<not> opens t"
  shows "\<not> opens t' \<and> list_all (\<lambda>u. \<not> opens u) new"
  using assms(1)
proof cases
  case (Req_Again c)
  then show ?thesis by (cases c) (simp_all add: opens_def)
next
  case (Req_Closed c)
  then show ?thesis by (cases c) (simp_all add: opens_def)
next
  case (Req_Hub c now)
  then show ?thesis by (cases c) (simp_all add: opens_def)
qed (use assms(2) in \<open>simp_all add: opens_def\<close>)

lemma list_all_update:
  "list_all P ts \<Longrightarrow> P t' \<Longrightarrow> list_all P (ts[i := t'])"
  using set_update_subset_insert [of ts i t'] by (auto simp: list_all_iff)

text \<open>The start task steps beside the waiting caller.\<close>

lemma step_start_phase:
  assumes "task_step t s t' s' new" "start_phase s t" "se_waiting s"
  shows "start_phase s' t' \<and> new = [] \<and> se_waiting s' \<and> se_opened s' = se_opened s"
  using assms(1)
  by cases (use assms(2,3) in \<open>auto simp: start_phase_def\<close>)

text \<open>The caller steps beside the start task.\<close>

lemma step_open_wait:
  assumes "task_step Open_Wait s t' s' new" "start_phase s st" "se_waiting s" "\<not> se_opened s"
    "\<not> opens st"
  shows "opening_inv (s', [t', st] @ new)"
  using assms(1)
proof cases
  case (Open_Ok c f)
  then have "(st = Start_Unlock \<or> st = Done) \<and> \<not> se_stopping s"
    using assms(2) by (cases st) (auto simp: start_phase_def)
  then show ?thesis
    using Open_Ok assms(4) by (simp add: opening_inv_def publishes_opening_def)
qed (use assms(5) in \<open>simp_all add: opening_inv_def opens_def\<close>)

lemma step_publishes:
  assumes "task_step t s t' s' new" "publishes_opening t" "st = Start_Unlock \<or> st = Done"
    "\<not> se_stopping s" "\<not> se_opened s"
  shows "opening_inv (s', [t', st] @ new)"
  using assms(1)
  by cases (use assms(2-5) in \<open>auto simp: opening_inv_def publishes_opening_def opens_def\<close>)

lemma start_phase_not_opens: "start_phase s st \<Longrightarrow> \<not> opens st"
  by (cases st) (simp_all add: start_phase_def opens_def)

lemma start_phase_same:
  "se_stopping s' = se_stopping s \<Longrightarrow> se_reply s' = se_reply s \<Longrightarrow> start_phase s' t = start_phase s t"
  by (cases t) (simp_all add: start_phase_def)

lemma opening_inv_same:
  assumes "opening_inv (s, ts)" "se_opened s' = se_opened s" "se_closed s' = se_closed s"
    "se_stopping s' = se_stopping s" "se_waiting s' = se_waiting s" "se_reply s' = se_reply s"
  shows "opening_inv (s', ts)"
  using assms start_phase_same [OF assms(4,6)] by (simp add: opening_inv_def)

lemma opening_inv_opened:
  assumes "opening_inv (s, ts)" "se_opened s" "\<not> opens u"
  shows "opening_inv (s, ts @ [u])"
  using assms by (auto simp: opening_inv_def)

lemma opening_cases:
  assumes "opening_inv (s, ts)"
  obtains (Closed) "list_all (\<lambda>t. \<not> opens t) ts"
  | (First) cs where "ts = [Open_Options cs]" "\<not> se_opened s" "\<not> se_closed s" "\<not> se_stopping s"
      "se_waiting s" "se_reply s = None"
  | (Waiting) st where "ts = [Open_Wait, st]" "\<not> se_opened s" "se_waiting s" "start_phase s st"
  | (Publishing) t st where "ts = [t, st]" "\<not> se_opened s" "\<not> se_stopping s"
      "publishes_opening t" "st = Start_Unlock \<or> st = Done"
  using assms unfolding opening_inv_def prod.case by blast

lemma step_open_options:
  assumes "task_step (Open_Options cs) s t' s' new" "\<not> se_opened s" "\<not> se_stopping s"
    "se_waiting s" "se_reply s = None"
  shows "opening_inv (s', t' # new)"
  using assms(1) by cases (use assms(2-) in \<open>simp_all add: opening_inv_def opens_def start_phase_def\<close>)

lemma opening_inv_task:
  assumes "opening_inv (s, ts)" "i < length ts" "task_step (ts ! i) s t' s' new"
  shows "opening_inv (s', ts[i := t'] @ new)"
  using assms(1)
proof (cases rule: opening_cases)
  case Closed
  then have "\<not> opens (ts ! i)" using assms(2) by (simp add: list_all_length)
  then have "\<not> opens t' \<and> list_all (\<lambda>u. \<not> opens u) new" using step_not_opens [OF assms(3)] by blast
  with Closed show ?thesis by (simp add: opening_inv_def list_all_update)
next
  case (First cs)
  then show ?thesis using assms(2,3) step_open_options by simp
next
  case (Waiting st)
  show ?thesis
  proof (cases i)
    case 0
    then show ?thesis
      using Waiting assms(3) step_open_wait start_phase_not_opens by simp
  next
    case (Suc j)
    then have "i = 1" using Waiting assms(2) by simp
    then show ?thesis
      using Waiting assms(3) step_start_phase [of st s t' s' new] by (simp add: opening_inv_def)
  qed
next
  case (Publishing t st)
  show ?thesis
  proof (cases i)
    case 0
    then show ?thesis using Publishing assms(3) step_publishes by simp
  next
    case (Suc j)
    then have i: "i = 1" using Publishing assms(2) by simp
    then have "task_step st s t' s' new" using Publishing assms(3) by simp
    then have "t' = Done \<and> s' = unlock s \<and> new = []"
      using Publishing(5) by (auto elim: task_step.cases)
    then show ?thesis using Publishing i by (simp add: opening_inv_def)
  qed
qed

lemma opening_inv_step:
  assumes "opening_inv m" "machine_step m m'"
  shows "opening_inv m'"
  using assms(2)
proof cases
  case (Task_Step i ts s t s' new)
  then show ?thesis using assms(1) opening_inv_task by simp
next
  case (Hub_Step s h ts)
  then show ?thesis using assms(1) opening_inv_same [of s ts] by simp
next
  case (Close_Call s ts)
  then show ?thesis using assms(1) opening_inv_opened by (simp add: opens_def)
next
  case (Session_Drop s ts)
  then show ?thesis using assms(1) opening_inv_opened by (simp add: opens_def)
next
  case (Record_Control s ts i v)
  then show ?thesis using assms(1) opening_inv_same [of s ts] by simp
next
  case (Other_Start s ts)
  then show ?thesis using assms(1) opening_inv_same [of s ts] by simp
next
  case (Other_Close s ts)
  then show ?thesis using assms(1) opening_inv_same [of s ts] by simp
qed

lemma opening_inv_start: "machine_start m \<Longrightarrow> opening_inv m"
  by (auto simp: machine_start_def opening_inv_def session_new_def)

section \<open>The state of a closed session\<close>

fun state_ends :: "session_state \<Rightarrow> bool" where
  "state_ends Stopping \<longleftrightarrow> True"
| "state_ends Stopped \<longleftrightarrow> True"
| "state_ends (Failed _) \<longleftrightarrow> True"
| "state_ends _ \<longleftrightarrow> False"

lemma stop_state_ends [simp]: "state_ends (stop_state r)"
  by (simp add: stop_state_def split: option.splits)

definition fails :: "task \<Rightarrow> bool" where
  "fails t =
     (case t of
        Fail_Stopping \<Rightarrow> True | Fail_Quiesce \<Rightarrow> True | Fail_Call \<Rightarrow> True | Fail_Record \<Rightarrow> True
      | Fail_Close \<Rightarrow> True | _ \<Rightarrow> False)"

definition will_publish :: "task \<Rightarrow> bool" where
  "will_publish t = (case t of Stop_Publish _ \<Rightarrow> True | Start_Publish _ \<Rightarrow> True | _ \<Rightarrow> False)"

definition state_inv :: "machine \<Rightarrow> bool" where
  "state_inv m \<longleftrightarrow>
     (se_closed (fst m) \<longrightarrow> state_ends (se_state (fst m)) \<or> (\<exists>t \<in> set (snd m). will_publish t))
     \<and> (\<forall>t \<in> set (snd m). fails t \<longrightarrow> state_ends (se_state (fst m)))"

lemma session_states [simp]:
  "se_state (set_state st s) = st" "se_state (raise_stopping s) = se_state s"
  "se_state (quiesce now s) = se_state s" "se_state (call_source c s) = se_state s"
  "se_state (record_terminal now s) = se_state s" "se_state (close_flag s) = se_state s"
  "se_state (release_busy s) = se_state s" "se_state (lock s) = se_state s"
  "se_state (unlock s) = se_state s" "se_state (on_hub f s) = se_state s"
  by (simp_all add: set_state_def raise_stopping_def quiesce_def call_source_def
      record_terminal_def close_flag_def release_busy_def lock_def unlock_def on_hub_def)

lemma step_state:
  assumes "task_step t s t' s' new" "fails t \<longrightarrow> state_ends (se_state s)"
  shows "(se_state s' = se_state s \<or> state_ends (se_state s') \<or> knows_open t \<or> publishes_opening t)
    \<and> (\<forall>u \<in> set (t' # new). fails u \<longrightarrow> state_ends (se_state s'))
    \<and> (\<not> se_closed s \<and> se_closed s' \<longrightarrow> will_publish t' \<or> state_ends (se_state s'))
    \<and> (will_publish t \<longrightarrow> state_ends (se_state s'))"
  using assms(1)
proof cases
  case (Req_Again c)
  then show ?thesis by (cases c) (simp_all add: fails_def will_publish_def)
next
  case (Req_Closed c)
  then show ?thesis by (cases c) (simp_all add: fails_def will_publish_def)
next
  case (Req_Hub c now)
  then show ?thesis by (cases c) (simp_all add: fails_def will_publish_def)
qed (use assms(2) in \<open>simp_all add: fails_def will_publish_def knows_open_def publishes_opening_def\<close>)

lemma fails_holds_lock: "fails t \<Longrightarrow> holds_lock t"
  by (cases t) (simp_all add: fails_def holds_lock_def)

lemma knows_open_holds_lock: "knows_open t \<Longrightarrow> holds_lock t"
  by (cases t) (simp_all add: knows_open_def holds_lock_def)

lemma publishes_alone:
  assumes "opening_inv (s, ts)" "t \<in> set ts" "publishes_opening t"
  shows "\<not> se_stopping s \<and> (\<forall>u \<in> set ts. \<not> fails u)"
  using assms(1)
proof (cases rule: opening_cases)
  case Closed
  then show ?thesis
    using assms(2,3) by (auto simp: list_all_iff opens_def publishes_opening_def split: task.splits)
next
  case (Waiting st)
  then show ?thesis
    using assms(2,3) by (cases st) (auto simp: start_phase_def publishes_opening_def)
next
  case (Publishing t' st)
  then show ?thesis
    using assms(2,3) by (cases t') (auto simp: fails_def publishes_opening_def)
qed (use assms(2,3) in \<open>auto simp: publishes_opening_def\<close>)

lemma state_inv_task:
  assumes inv: "state_inv (s, ts)" "machine_inv (s, ts)" "opening_inv (s, ts)"
    and i: "i < length ts" and step: "task_step (ts ! i) s t' s' new"
  shows "state_inv (s', ts[i := t'] @ new)"
proof -
  let ?t = "ts ! i"
  have t: "?t \<in> set ts" using i by simp
  have fails: "\<And>u. u \<in> set ts \<Longrightarrow> fails u \<Longrightarrow> state_ends (se_state s)"
    using inv(1) unfolding state_inv_def fst_conv snd_conv by blast
  note st = step_state [OF step impI [OF fails [OF t]]]
  have lock: "lock_inv (s, ts)" and knows: "task_inv s ?t"
    using inv(2) t by (simp_all add: machine_inv_def)
  have others: "state_ends (se_state s')" if "fails u" "j < length ts" "j \<noteq> i" "u = ts ! j" for u j
  proof -
    have "\<not> knows_open ?t"
      using holder_unique [OF lock i that(2)] that fails_holds_lock knows_open_holds_lock by metis
    moreover have u: "u \<in> set ts" using that by simp
    moreover have "\<not> publishes_opening ?t" using publishes_alone [OF inv(3) t] u that(1) by blast
    ultimately show ?thesis using st fails [OF u that(1)] by metis
  qed
  have 1: "\<forall>u \<in> set (ts[i := t'] @ new). fails u \<longrightarrow> state_ends (se_state s')"
  proof (intro ballI impI)
    fix u
    assume u: "u \<in> set (ts[i := t'] @ new)" "fails u"
    from u(1) consider "u = t' \<or> u \<in> set new" | j where "j < length ts" "j \<noteq> i" "u = ts ! j"
      by (auto elim: list_update_member)
    then show "state_ends (se_state s')"
      by cases (use st u(2) others in auto)
  qed
  moreover have "state_ends (se_state s') \<or> (\<exists>u \<in> set (ts[i := t'] @ new). will_publish u)"
    if closed: "se_closed s'"
  proof (cases "se_closed s")
    case True
    then have "se_stopping s" "\<not> knows_open ?t"
      using inv(2) knows by (auto simp: machine_inv_def shared_inv_def task_inv_def)
    then have keep: "se_state s' = se_state s \<or> state_ends (se_state s')"
      using st publishes_alone [OF inv(3) t] by blast
    show ?thesis
    proof (cases "state_ends (se_state s)")
      case False
      then have "\<exists>u \<in> set ts. will_publish u" using inv(1) True by (auto simp: state_inv_def)
      then show ?thesis using closing_inv_update [OF _ i] st by blast
    qed (use keep in auto)
  next
    case False
    then have "will_publish t' \<or> state_ends (se_state s')" using st closed by blast
    then show ?thesis using set_update_memI [OF i, of t'] by auto
  qed
  ultimately show ?thesis by (simp add: state_inv_def)
qed

lemma state_inv_step:
  assumes "state_inv m" "machine_inv m" "opening_inv m" "machine_step m m'"
  shows "state_inv m'"
  using assms(4)
proof cases
  case (Task_Step i ts s t' s' new)
  then show ?thesis using assms(1-3) state_inv_task by blast
qed (use assms(1) in \<open>auto simp: state_inv_def fails_def\<close>)

lemma state_inv_start: "machine_start m \<Longrightarrow> state_inv m"
  by (auto simp: machine_start_def state_inv_def session_new_def fails_def)

interpretation session_states:
  inductive_invariant machine_start machine_step
    "\<lambda>m. machine_inv m \<and> opening_inv m \<and> state_inv m"
  by unfold_locales (blast intro: machine_inv_start opening_inv_start state_inv_start,
    blast intro: machine_inv_step opening_inv_step state_inv_step)

section \<open>The attempts of the recovery loop\<close>

definition within_limit :: "reconnect_policy option \<Rightarrow> u32 \<Rightarrow> bool" where
  "within_limit policy a =
     (case Option.bind policy rp_max_attempts of None \<Rightarrow> True | Some n \<Rightarrow> a \<le> max 1 n)"

definition may_retry :: "reconnect_policy option \<Rightarrow> u32 \<Rightarrow> bool" where
  "may_retry policy a =
     (case Option.bind policy rp_max_attempts of None \<Rightarrow> True | Some n \<Rightarrow> a = 0 \<or> a < n)"

definition attempt_ok :: "reconnect_policy option \<Rightarrow> task \<Rightarrow> bool" where
  "attempt_ok policy t =
     (case t of
        Rec_Wait _ a _ \<Rightarrow> may_retry policy a | Rec_Check _ a _ _ \<Rightarrow> may_retry policy a
      | Rec_Lock _ a _ _ \<Rightarrow> may_retry policy a | Rec_Locked _ a _ _ \<Rightarrow> may_retry policy a
      | Rec_Unlock _ a _ \<Rightarrow> may_retry policy a
      | Rec_Announce _ a _ \<Rightarrow> within_limit policy a | Rec_Begin _ a _ \<Rightarrow> within_limit policy a
      | Rec_Stopped _ a _ \<Rightarrow> within_limit policy a | Rec_Reopened _ a _ \<Rightarrow> within_limit policy a
      | Rec_Configured _ a _ \<Rightarrow> within_limit policy a | Rec_Restart _ a _ _ \<Rightarrow> within_limit policy a
      | Rec_Call _ a _ _ \<Rightarrow> within_limit policy a | Rec_Started _ a _ _ \<Rightarrow> within_limit policy a
      | Rec_First _ a _ _ \<Rightarrow> within_limit policy a | Rec_Result _ a _ _ \<Rightarrow> within_limit policy a
      | Rec_Failed _ a _ _ \<Rightarrow> within_limit policy a | _ \<Rightarrow> True)"

fun event_ok :: "reconnect_policy option \<Rightarrow> session_event \<Rightarrow> bool" where
  "event_ok policy (Lifecycle (Recovering a)) \<longleftrightarrow> within_limit policy a"
| "event_ok policy _ \<longleftrightarrow> True"

definition attempts_inv :: "machine \<Rightarrow> bool" where
  "attempts_inv m \<longleftrightarrow>
     (\<forall>t \<in> set (snd m). attempt_ok (se_policy (fst m)) t)
     \<and> (\<forall>e \<in> set (se_events (fst m)). event_ok (se_policy (fst m)) e)"

lemma retry_within [simp]: "may_retry policy a \<Longrightarrow> within_limit policy (a + 1)"
  by (auto simp: may_retry_def within_limit_def le_max_iff_disj inc_le split: option.splits)

lemma may_retry_zero [simp]: "may_retry policy 0"
  by (simp add: may_retry_def split: option.splits)

lemma not_reached_retry [simp]: "\<not> max_attempts_reached policy a \<Longrightarrow> may_retry policy a"
  by (auto simp: may_retry_def max_attempts_reached_def split: option.splits)

lemma session_policies [simp]:
  "se_policy (set_state st s) = se_policy s" "se_policy (raise_stopping s) = se_policy s"
  "se_policy (quiesce now s) = se_policy s" "se_policy (call_source c s) = se_policy s"
  "se_policy (record_terminal now s) = se_policy s" "se_policy (close_flag s) = se_policy s"
  "se_policy (release_busy s) = se_policy s" "se_policy (lock s) = se_policy s"
  "se_policy (unlock s) = se_policy s" "se_policy (on_hub f s) = se_policy s"
  by (simp_all add: set_state_def raise_stopping_def quiesce_def call_source_def
      record_terminal_def close_flag_def release_busy_def lock_def unlock_def on_hub_def)

lemma session_events [simp]:
  "se_events (set_state st s) = se_events s @ [Lifecycle st]"
  "se_events (raise_stopping s) = se_events s" "se_events (quiesce now s) = se_events s"
  "se_events (call_source c s) = se_events s" "se_events (record_terminal now s) = se_events s"
  "se_events (close_flag s) = se_events s" "se_events (release_busy s) = se_events s"
  "se_events (lock s) = se_events s" "se_events (unlock s) = se_events s"
  "se_events (on_hub f s) = se_events s"
  by (simp_all add: set_state_def raise_stopping_def quiesce_def call_source_def
      record_terminal_def close_flag_def release_busy_def lock_def unlock_def on_hub_def)

lemma stop_state_event [simp]: "event_ok policy (Lifecycle (stop_state r))"
  by (simp add: stop_state_def split: option.splits)

lemma step_attempts:
  assumes "task_step t s t' s' new" "attempt_ok (se_policy s) t"
    "\<forall>e \<in> set (se_events s). event_ok (se_policy s) e"
  shows "se_policy s' = se_policy s \<and> (\<forall>u \<in> set (t' # new). attempt_ok (se_policy s) u)
    \<and> (\<forall>e \<in> set (se_events s'). event_ok (se_policy s) e)"
  using assms(1)
proof cases
  case (Req_Again c)
  then show ?thesis using assms(3) by (cases c) (simp_all add: attempt_ok_def)
next
  case (Req_Closed c)
  then show ?thesis using assms(3) by (cases c) (simp_all add: attempt_ok_def)
next
  case (Req_Hub c now)
  then show ?thesis using assms(3) by (cases c) (simp_all add: attempt_ok_def)
qed (use assms(2,3) in \<open>auto simp: attempt_ok_def\<close>)

lemma attempts_inv_step:
  assumes "attempts_inv m" "machine_step m m'"
  shows "attempts_inv m'"
  using assms(2)
proof cases
  case (Task_Step i ts s t' s' new)
  have all: "\<forall>t \<in> set ts. attempt_ok (se_policy s) t"
    and events: "\<forall>e \<in> set (se_events s). event_ok (se_policy s) e"
    using assms(1) Task_Step by (simp_all add: attempts_inv_def)
  then have "attempt_ok (se_policy s) (ts ! i)" using Task_Step(3) by simp
  note st = step_attempts [OF Task_Step(4) this events]
  have "attempt_ok (se_policy s) u" if "u \<in> set (ts[i := t'] @ new)" for u
    using that all st set_update_subset_insert [of ts i t'] by auto
  with st show ?thesis by (simp add: Task_Step attempts_inv_def)
qed (use assms(1) in \<open>auto simp: attempts_inv_def attempt_ok_def\<close>)

lemma attempts_inv_start: "machine_start m \<Longrightarrow> attempts_inv m"
  by (auto simp: machine_start_def attempts_inv_def session_new_def attempt_ok_def)

interpretation session_attempts: inductive_invariant machine_start machine_step attempts_inv
  by unfold_locales (rule attempts_inv_start, assumption, rule attempts_inv_step)

end
