(* ===== verification/Session_Example.thy ===== *)
theory Session_Example
  imports Session_States
begin

text \<open>
  A concrete run of a session: one candidate that the source accepts at once, up to the session
  that \<open>start\<close> hands to the application; then two calls of \<open>close\<close> that meet.
\<close>

section \<open>An opened session\<close>

lemma reach_task:
  assumes "machine_reachable (s, ts)" "i < length ts" "task_step (ts ! i) s t s' new"
    "ts' = ts[i := t] @ new"
  shows "machine_reachable (s', ts')"
  using assms by (blast intro: reachable_step machine_step.Task_Step)

definition open_config :: camera_config where
  "open_config = nv12_vga 30 1"

definition open_frame :: captured_frame where
  "open_frame = \<lparr>cf_key = \<lparr>fk_session = 1, fk_sequence = 1\<rparr>, cf_storage = StorageRgb 0,
     cf_layout = rgb_layout 640 480, cf_captured_at = 5, cf_timestamp_ns = 7,
     cf_source_timestamp_ns = None, cf_source_clock = ClockUnknown, cf_source_sequence = None\<rparr>"

definition open_start :: "reconnect_policy option \<Rightarrow> session" where
  "open_start policy = session_new example_request policy True 0 (hub_new 1 2)"

definition open_started :: "reconnect_policy option \<Rightarrow> session" where
  "open_started policy =
     (call_source (Call_Start open_config) (lock (call_source Call_Options (open_start policy))))
       \<lparr>se_hub := start_snapshot (hub_new 1 2)\<rparr>"

definition open_replied :: "reconnect_policy option \<Rightarrow> session" where
  "open_replied policy =
     (open_started policy)\<lparr>se_reply := Some (Ok (open_config, open_frame))\<rparr>"

definition open_published :: "reconnect_policy option \<Rightarrow> session" where
  "open_published policy = unlock (set_state Streaming (open_replied policy))"

lemma open_accepted:
  "start_check example_request (Ok open_frame) (Ok open_config) = Ok (open_config, open_frame)"
proof -
  have "validate_requested_capture example_request open_config (rgb_layout 640 480) = Ok ()"
    unfolding validate_requested_acceptable open_config_def
    using vga_acceptable by (simp add: rgb_layout_def)
  then show ?thesis by (simp add: start_check_def open_frame_def)
qed

lemma open_begin_reachable:
  "machine_reachable (open_start policy, [Open_Options [open_config]])"
proof -
  have "hub_reachable (hub_new 1 2)" by (rule reachable_start) (auto simp: hub_start_state_def)
  then have "machine_start (open_start policy, [Open_Options [open_config]])"
    unfolding machine_start_def open_start_def by blast
  then show ?thesis by (rule reachable_start)
qed

lemma open_fields [simp]:
  "se_stopping (open_start policy) = False" "se_waiting (open_start policy) = True"
  "se_locked (open_start policy) = False" "se_hub (open_start policy) = hub_new 1 2"
  "se_intent (open_start policy) = example_request"
  by (simp_all add: open_start_def session_new_def)

lemma intents [simp]:
  "se_intent (lock s) = se_intent s" "se_intent (call_source c s) = se_intent s"
  by (simp_all add: lock_def call_source_def)

lemma open_started_reachable:
  "machine_reachable (open_started policy, [Open_Wait, Start_Source open_config [] 0])"
proof -
  let ?s = "open_start policy"
  let ?c = "open_config"
  note open_begin_reachable [of policy]
  then have "machine_reachable (call_source Call_Options ?s, [Open_Wait, Start_Lock [?c]])"
    by (rule reach_task [where i = 0]) (auto intro: task_step.Open_Spawn)
  then have "machine_reachable (lock (call_source Call_Options ?s),
      [Open_Wait, Start_Next [?c] (Err no_usable)])"
    by (rule reach_task [where i = 1]) (auto intro: task_step.Start_Acquire)
  then have "machine_reachable (lock (call_source Call_Options ?s), [Open_Wait, Start_Call ?c []])"
    by (rule reach_task [where i = 1]) (auto intro: task_step.Start_Try)
  then have "machine_reachable (call_source (Call_Start ?c) (lock (call_source Call_Options ?s)),
      [Open_Wait, Start_Source ?c [] (hub_session (hub_new 1 2))])"
    by (rule reach_task [where i = 1])
      (use task_step.Start_Begin [of ?c "[]" "lock (call_source Call_Options ?s)"] in auto)
  then have "machine_reachable (open_started policy,
      [Open_Wait, Start_Source ?c [] (hub_session (hub_new 1 2))])"
    unfolding open_started_def
    by (rule reachable_step) (rule machine_step.Hub_Step, simp, rule hub_step.Start_Snapshot)
  then show ?thesis by (simp add: hub_session_def hub_new_def snapshot_default_def)
qed

lemma started_fields [simp]:
  "se_stopping (open_started policy) = False" "se_waiting (open_started policy) = True"
  "se_locked (open_started policy) = True" "hub_session (se_hub (open_started policy)) = 1"
  "se_intent (open_started policy) = example_request"
  by (simp_all add: open_started_def hub_session_def start_snapshot_def hub_new_def)

lemma open_replied_reachable:
  "machine_reachable (open_replied policy, [Open_Wait, Start_Unlock])"
proof -
  let ?s = "open_started policy"
  let ?c = "open_config"
  let ?p = "(open_config, open_frame)"
  have good: "task_step (Start_First ?c [] n) ?s (Start_End (Ok ?p)) ?s []" for n
    by (rule task_step.Start_Good [of _ "Ok open_frame" "Ok ?c"]) (simp add: open_accepted)
  note open_started_reachable [of policy]
  then have "machine_reachable (?s, [Open_Wait, Start_First ?c [] 1])"
    by (rule reach_task [where i = 1]) (use task_step.Start_Session [of ?s 0 ?c "[]"] in auto)
  then have "machine_reachable (?s, [Open_Wait, Start_End (Ok ?p)])"
    by (rule reach_task [where i = 1]) (use good in auto)
  then have "machine_reachable (?s, [Open_Wait, Start_Send (Ok ?p)])"
    by (rule reach_task [where i = 1]) (auto intro: task_step.Start_Keep)
  then show ?thesis
    by (rule reach_task [where i = 1])
      (use task_step.Start_Reply [of "Ok ?p" ?s] in \<open>auto simp: open_replied_def\<close>)
qed

lemma replied_fields [simp]:
  "se_reply (open_replied policy) = Some (Ok (open_config, open_frame))"
  by (simp add: open_replied_def)

lemma adjust_none: "task_step (Open_Adjust c) s (Open_Recovery c) s []"
  using task_step.Open_Events [of c s "[]"] by simp

lemma open_published_reachable:
  "machine_reachable (open_published policy, [Open_Recovery open_config, Done])"
proof -
  let ?s = "open_replied policy"
  let ?c = "open_config"
  have rate: "is_ok (config_frame_rate ?c)" by (simp add: open_config_def vga_rate)
  note open_replied_reachable [of policy]
  then have "machine_reachable (?s, [Open_Publish ?c, Start_Unlock])"
    by (rule reach_task [where i = 0]) (auto intro: task_step.Open_Ok)
  then have "machine_reachable (set_state Streaming ?s, [Open_Adjust ?c, Start_Unlock])"
    by (rule reach_task [where i = 0]) (auto intro: task_step.Open_State rate)
  then have "machine_reachable (set_state Streaming ?s, [Open_Recovery ?c, Start_Unlock])"
    by (rule reach_task [where i = 0])
      (auto simp del: session_events intro: adjust_none)
  then show ?thesis
    unfolding open_published_def
    by (rule reach_task [where i = 1]) (auto intro: task_step.Start_Drop)
qed

definition open_session :: session where
  "open_session = (open_published None)\<lparr>se_opened := True\<rparr>"

lemma open_session_reachable: "machine_reachable (open_session, [Done, Done])"
  unfolding open_session_def
  by (rule reach_task [OF open_published_reachable, where i = 0])
    (auto intro!: task_step.Open_Done
      simp: open_published_def open_replied_def open_started_def open_start_def session_new_def
      unlock_def)

text \<open>With a policy, the recovery loop takes the stream that has delivered no frame for a stalled one.\<close>

lemma recovering_reachable:
  "\<exists>s ts. machine_reachable (s, ts) \<and> se_policy s = Some reconnect_policy_default
     \<and> Lifecycle (Recovering 1) \<in> set (se_events s)"
proof -
  let ?p = "Some reconnect_policy_default"
  let ?c = "open_config"
  define s where "s = (on_hub enable_recovery (open_published ?p))\<lparr>se_opened := True\<rparr>"
  have policy: "se_policy (open_published ?p) = ?p"
    and open': "\<not> se_stopping s" "\<not> se_locked s"
    by (simp_all add: s_def open_published_def open_replied_def open_started_def open_start_def
        session_new_def)
  then have spolicy: "se_policy s = ?p" by (simp add: s_def)
  have stalled: "recovery_trigger (stall_timeout (lock s)) 0 (se_hub (lock s)) \<noteq> None"
    by (simp add: s_def open_published_def open_replied_def open_started_def open_start_def
        session_new_def on_hub_def enable_recovery_def recovery_trigger_def start_snapshot_def
        hub_new_def snapshot_default_def frame_metrics_default_def lock_def unlock_def set_state_def
        FRAME_ERROR_RECOVERY_THRESHOLD_def)
  note open_published_reachable [of ?p]
  then have "machine_reachable (s, [Done, Done, Rec_Wait ?c 0 None])"
    by (rule reach_task [where i = 0]) (use task_step.Open_Recovers [OF policy] s_def in auto)
  then have "machine_reachable (s, [Done, Done, Rec_Check ?c 0 False SourceStalled])"
    by (rule reach_task [where i = 2]) (auto intro: task_step.Rec_Wake)
  then have "machine_reachable (s, [Done, Done, Rec_Lock ?c 0 False SourceStalled])"
    by (rule reach_task [where i = 2]) (auto intro: task_step.Rec_Go_On simp: open')
  then have "machine_reachable (lock s, [Done, Done, Rec_Locked ?c 0 False SourceStalled])"
    by (rule reach_task [where i = 2]) (auto intro: task_step.Rec_Acquire simp: open')
  then have "machine_reachable (lock s, [Done, Done, Rec_Announce ?c (0 + 1) SourceStalled])"
    by (rule reach_task [where i = 2])
      (use task_step.Rec_Needed [of "lock s" False 0 ?c 0 SourceStalled] stalled open' in auto)
  then have "machine_reachable (set_state (Recovering (0 + 1)) (lock s),
      [Done, Done, Rec_Begin ?c (0 + 1) SourceStalled])"
    by (rule reach_task [where i = 2]) (auto intro: task_step.Rec_State)
  then show ?thesis by (intro exI conjI, assumption) (simp_all add: spolicy)
qed

section \<open>Two races\<close>

definition stopped_session :: "camera_error option \<Rightarrow> instant \<Rightarrow> session \<Rightarrow> session" where
  "stopped_session r now s =
     unlock (release_busy (set_state (stop_state r) (close_flag (record_terminal now
       (call_source Call_Stop (quiesce now (raise_stopping (lock s))))))))"

lemma stop_runs:
  assumes reach: "machine_reachable (s, ts)" and i: "i < length ts" "ts ! i = Stop_Lock"
    and free: "\<not> se_locked s" "\<not> se_closed s"
  shows "machine_reachable (stopped_session r now s, ts[i := Done])"
proof -
  note step = reach_task [where i = i]
  from reach have "machine_reachable (lock s, ts[i := Stop_Check])"
    by (rule step) (use i free in \<open>auto intro: task_step.Stop_Acquire\<close>)
  then have "machine_reachable (lock s, ts[i := Stop_Begin])"
    by (rule step) (use i free in \<open>auto intro: task_step.Stop_First\<close>)
  then have "machine_reachable (raise_stopping (lock s), ts[i := Stop_Call])"
    by (rule step) (use i in \<open>auto intro: task_step.Stop_Flag\<close>)
  then have "machine_reachable (call_source Call_Stop (quiesce now (raise_stopping (lock s))),
      ts[i := Stop_Await])"
    by (rule step) (use i in \<open>auto intro: task_step.Stop_Source\<close>)
  then have "machine_reachable (call_source Call_Stop (quiesce now (raise_stopping (lock s))),
      ts[i := Stop_Record r])"
    by (rule step) (use i in \<open>auto intro: task_step.Stop_Result\<close>)
  then have "machine_reachable (record_terminal now (call_source Call_Stop (quiesce now (raise_stopping (lock s)))),
      ts[i := Stop_Close r])"
    by (rule step) (use i in \<open>auto intro: task_step.Stop_Metrics\<close>)
  then have "machine_reachable (close_flag (record_terminal now
      (call_source Call_Stop (quiesce now (raise_stopping (lock s))))), ts[i := Stop_Publish r])"
    by (rule step) (use i in \<open>auto intro: task_step.Stop_Closed\<close>)
  then have "machine_reachable (set_state (stop_state r) (close_flag (record_terminal now
      (call_source Call_Stop (quiesce now (raise_stopping (lock s)))))), ts[i := Stop_Release])"
    by (rule step) (use i in \<open>auto intro: task_step.Stop_State\<close>)
  then have "machine_reachable (release_busy (set_state (stop_state r) (close_flag (record_terminal now
      (call_source Call_Stop (quiesce now (raise_stopping (lock s))))))), ts[i := Stop_Unlock])"
    by (rule step) (use i in \<open>auto intro: task_step.Stop_Busy\<close>)
  then show ?thesis
    unfolding stopped_session_def by (rule step) (use i in \<open>auto intro: task_step.Stop_Drop\<close>)
qed

lemma stop_runs_again:
  assumes reach: "machine_reachable (s, ts)" and i: "i < length ts" "ts ! i = Stop_Lock"
    and free: "\<not> se_locked s" "se_closed s"
  shows "machine_reachable (unlock (lock s), ts[i := Done])"
proof -
  note step = reach_task [where i = i]
  from reach have "machine_reachable (lock s, ts[i := Stop_Check])"
    by (rule step) (use i free in \<open>auto intro: task_step.Stop_Acquire\<close>)
  then have "machine_reachable (lock s, ts[i := Stop_Unlock])"
    by (rule step) (use i free in \<open>auto intro: task_step.Stop_Already\<close>)
  then show ?thesis by (rule step) (use i in \<open>auto intro: task_step.Stop_Drop\<close>)
qed

lemma stopped_fields [simp]:
  "se_closed (stopped_session r now s)" "\<not> se_locked (stopped_session r now s)"
  "se_stopping (stopped_session r now s)" "\<not> se_busy (stopped_session r now s)"
  "se_state (stopped_session r now s) = stop_state r"
  "se_events (stopped_session r now s) = se_events s @ [Lifecycle (stop_state r)]"
  by (simp_all add: stopped_session_def)

text \<open>
  \<open>request_stop\<close> publishes \<open>Stopping\<close> without the lock, after its swap of the flag: a second
  \<open>close\<close> may run to its end in between, and the failure it published is overwritten for good.
\<close>

lemma open_session_fields:
  "\<not> se_stopping open_session" "\<not> se_closed open_session" "\<not> se_locked open_session"
  "se_opened open_session"
  by (simp_all add: open_session_def open_published_def open_replied_def open_started_def
      open_start_def session_new_def)

lemma stop_failure_overwritten:
  "\<exists>s ts. machine_reachable (s, ts) \<and> set ts \<subseteq> {Done} \<and> se_closed s
     \<and> Lifecycle (Failed e) \<in> set (se_events s) \<and> se_state s = Stopping
     \<and> closed_result (se_state s) = Ok ()"
proof -
  let ?a = "raise_stopping open_session"
  let ?b = "stopped_session (Some e) 0 ?a"
  let ?c = "quiesce 0 (set_state Stopping ?b)"
  note open_session_fields [simp]
  note open_session_reachable
  then have "machine_reachable (open_session, [Done, Done] @ [Req True])"
    by (rule reachable_step) (rule machine_step.Close_Call, simp)
  then have "machine_reachable (open_session, ([Done, Done] @ [Req True]) @ [Req True])"
    by (rule reachable_step) (rule machine_step.Close_Call, simp)
  then have "machine_reachable (?a, [Done, Done, Req_Load True, Req True])"
    by (rule reach_task [where i = 2]) (auto intro: task_step.Req_Swap)
  then have "machine_reachable (?a, [Done, Done, Req_Announce True, Req True])"
    by (rule reach_task [where i = 2]) (auto intro: task_step.Req_Open)
  then have "machine_reachable (?a, [Done, Done, Req_Announce True, Stop_Lock])"
    by (rule reach_task [where i = 3]) (use task_step.Req_Again [of ?a True] in auto)
  then have "machine_reachable (?b, [Done, Done, Req_Announce True, Stop_Lock][3 := Done])"
    by (rule stop_runs) simp_all
  then have "machine_reachable (set_state Stopping ?b, [Done, Done, Req_Quiesce True, Done])"
    by (rule reach_task [where i = 2]) (auto intro: task_step.Req_State)
  then have "machine_reachable (?c, [Done, Done, Stop_Lock, Done, Stop_Lock])"
    by (rule reach_task [where i = 2])
      (use task_step.Req_Hub [of True "set_state Stopping ?b" 0] in auto)
  then have "machine_reachable (unlock (lock ?c), [Done, Done, Stop_Lock, Done, Stop_Lock][2 := Done])"
    by (rule stop_runs_again) simp_all
  then have "machine_reachable (unlock (lock (unlock (lock ?c))),
      [Done, Done, Stop_Lock, Done, Stop_Lock][2 := Done, 4 := Done])"
    by (rule stop_runs_again) simp_all
  then show ?thesis
    by (intro exI conjI, assumption)
      (simp_all add: closed_result_def stop_state_def)
qed

text \<open>
  When the caller of \<open>start\<close> gives up before the task of the start has taken the lock, the task
  of the stop may take it first and give the device back; the start task then still stops the
  source and clears the busy flag, although another session has taken the device.
\<close>

lemma abandoned_start_releases_device:
  "\<exists>s ts. machine_reachable (s, ts) \<and> se_other s \<and> \<not> se_busy s"
proof -
  let ?p = "None :: reconnect_policy option"
  let ?s = "(call_source Call_Options (open_start ?p))\<lparr>se_waiting := False\<rparr>"
  let ?a = "quiesce 0 (set_state Stopping (raise_stopping ?s))"
  let ?b = "stopped_session None 0 ?a"
  let ?c = "lock (?b\<lparr>se_busy := True, se_other := True\<rparr>)"
  let ?r = "Err no_usable"
  let ?d = "raise_stopping (call_source Call_Stop ?c)"
  have closed: "\<not> se_closed (open_start ?p)" by (simp add: open_start_def session_new_def)
  note open_begin_reachable [of ?p]
  then have "machine_reachable (call_source Call_Options (open_start ?p),
      [Open_Wait, Start_Lock [open_config]])"
    by (rule reach_task [where i = 0]) (auto intro: task_step.Open_Spawn)
  then have "machine_reachable (?s, [Req False, Start_Lock [open_config]])"
    by (rule reach_task [where i = 0]) (auto intro: task_step.Open_Abandon)
  then have "machine_reachable (raise_stopping ?s, [Req_Load False, Start_Lock [open_config]])"
    by (rule reach_task [where i = 0]) (auto intro: task_step.Req_Swap)
  then have "machine_reachable (raise_stopping ?s, [Req_Announce False, Start_Lock [open_config]])"
    by (rule reach_task [where i = 0]) (use closed in \<open>auto intro: task_step.Req_Open\<close>)
  then have "machine_reachable (set_state Stopping (raise_stopping ?s),
      [Req_Quiesce False, Start_Lock [open_config]])"
    by (rule reach_task [where i = 0]) (auto intro: task_step.Req_State)
  then have "machine_reachable (?a, [Done, Start_Lock [open_config], Stop_Lock])"
    by (rule reach_task [where i = 0])
      (use task_step.Req_Hub [of False "set_state Stopping (raise_stopping ?s)" 0] in auto)
  then have "machine_reachable (?b, [Done, Start_Lock [open_config], Stop_Lock][2 := Done])"
    by (rule stop_runs) (simp_all add: closed)
  then have "machine_reachable (?b\<lparr>se_busy := True, se_other := True\<rparr>,
      [Done, Start_Lock [open_config], Stop_Lock][2 := Done])"
    by (rule reachable_step) (rule machine_step.Other_Start, simp)
  then have "machine_reachable (?c, [Done, Start_Next [open_config] ?r, Done])"
    by (rule reach_task [where i = 1]) (auto intro: task_step.Start_Acquire)
  then have "machine_reachable (?c, [Done, Start_End ?r, Done])"
    by (rule reach_task [where i = 1]) (auto intro: task_step.Start_Stop)
  then have "machine_reachable (call_source Call_Stop ?c, [Done, Start_Abort ?r, Done])"
    by (rule reach_task [where i = 1]) (auto intro: task_step.Start_Give_Up)
  then have "machine_reachable (?d, [Done, Start_Close ?r, Done])"
    by (rule reach_task [where i = 1]) (auto intro: task_step.Start_Flag)
  then have "machine_reachable (close_flag ?d, [Done, Start_Publish ?r, Done])"
    by (rule reach_task [where i = 1]) (auto intro: task_step.Start_Closed)
  then have "machine_reachable (set_state Stopped (close_flag ?d), [Done, Start_Release ?r, Done])"
    by (rule reach_task [where i = 1]) (auto intro: task_step.Start_State)
  then have "machine_reachable (release_busy (set_state Stopped (close_flag ?d)),
      [Done, Start_Send ?r, Done])"
    by (rule reach_task [where i = 1]) (auto intro: task_step.Start_Busy)
  then show ?thesis by (intro exI conjI, assumption) simp_all
qed

end
