(* ===== verification/Session_Properties.thy ===== *)
theory Session_Properties
  imports Session_Example
begin

text \<open>What the session machine guarantees in every interleaving of its tasks.\<close>

section \<open>Exclusive use of the device\<close>



section \<open>Shutting down\<close>


definition closing_session :: machine where
  "closing_session = (raise_stopping open_session, [Done, Done, Req_Load True])"

lemma closing_session_reachable: "machine_reachable closing_session"
proof -
  note open_session_reachable
  then have "machine_reachable (open_session, [Done, Done] @ [Req True])"
    by (rule reachable_step) (rule machine_step.Close_Call, simp add: open_session_fields)
  then show ?thesis
    unfolding closing_session_def
    by (rule reach_task [where i = 2]) (auto intro: task_step.Req_Swap simp: open_session_fields)
qed


section \<open>Refinement\<close>

text \<open>C9: every run of a session, with its concurrent tasks, is a run of the hub machine on the
  hub it shares with the driver and the receivers, so that what holds of all runs of the hub
  holds under every session; and it is a run of the specification of a session's life, which goes
  from live over draining to dead, may use the source until it dies and dies with the source at
  rest.\<close>

theorem session_refines:
  assumes "machine_reachable m" "machine_step\<^sup>*\<^sup>* m m'"
  shows "hub_reachable (se_hub (fst m)) \<and> hub_step\<^sup>*\<^sup>* (se_hub (fst m)) (se_hub (fst m'))
    \<and> life_step\<^sup>*\<^sup>* (life_of m) (life_of m')"
  using machine_hub_reachable [OF assms(1)] machine_steps_hub [OF assms(2)]
    machine_steps_life [OF assms(2) session_machine.inv_reachable [OF assms(1)]] by blast

lemma session_refines_witness: "hub_reachable (se_hub (fst closing_session))"
  using session_refines [OF closing_session_reachable rtranclp.rtrancl_refl] by blast

section \<open>Published states\<close>

text \<open>C10: a closed session shows a state of its end (stopping, stopped or failed), unless the task
  that closed it is just about to publish that state; in particular it never again shows itself
  streaming or recovering, however the start, the recovery loop, the drop of the session and the
  calls of \<open>close\<close> interleave.\<close>

theorem session_final_state:
  assumes "machine_reachable (s, ts)" "se_closed s"
  shows "state_ends (se_state s) \<or> (\<exists>t \<in> set ts. will_publish t)"
  using session_states.inv_reachable [OF assms(1)] assms(2) by (simp add: state_inv_def)

lemma session_final_state_witness:
  "\<exists>s ts. machine_reachable (s, ts) \<and> set ts \<subseteq> {Done} \<and> se_closed s \<and> state_ends (se_state s)"
proof -
  obtain s ts where r: "machine_reachable (s, ts)" "set ts \<subseteq> {Done}" "se_closed s"
    using stop_failure_overwritten [of stream_stopped] by blast
  then have "\<not> will_publish t" if "t \<in> set ts" for t
    using that by (auto simp: will_publish_def)
  then show ?thesis using session_final_state [OF r(1,3)] r by blast
qed

section \<open>Recovery attempts\<close>

text \<open>C11: the recovery loop keeps to its policy: every recovery attempt that a session ever
  announces to its event receivers is numbered at most \<open>max_attempts\<close> (at most 1 when that is
  0), and it retries only below that bound, so the attempt counter cannot wrap around either.\<close>

theorem recovery_attempts_bounded:
  assumes "machine_reachable (s, ts)" "se_policy s = Some p" "rp_max_attempts p = Some n"
  shows "(\<forall>a. Lifecycle (Recovering a) \<in> set (se_events s) \<longrightarrow> a \<le> max 1 n)
    \<and> (\<forall>c a t. Rec_Announce c a t \<in> set ts \<longrightarrow> a \<le> max 1 n)
    \<and> (\<forall>c a t. Rec_Wait c a (Some t) \<in> set ts \<longrightarrow> a = 0 \<or> a < n)"
proof -
  have inv: "attempts_inv (s, ts)" by (rule session_attempts.inv_reachable [OF assms(1)])
  have limit: "within_limit (se_policy s) a \<longleftrightarrow> a \<le> max 1 n" "may_retry (se_policy s) a \<longleftrightarrow> a = 0 \<or> a < n" for a
    by (simp_all add: within_limit_def may_retry_def assms(2,3))
  have "attempt_ok (se_policy s) t" if "t \<in> set ts" for t
    using inv that by (simp add: attempts_inv_def)
  moreover have "event_ok (se_policy s) e" if "e \<in> set (se_events s)" for e
    using inv that by (simp add: attempts_inv_def)
  ultimately show ?thesis
    using limit by (fastforce simp: attempt_ok_def)
qed

lemma recovery_attempts_bounded_witness:
  "\<exists>s ts. machine_reachable (s, ts) \<and> Lifecycle (Recovering 1) \<in> set (se_events s)
     \<and> {a. Lifecycle (Recovering a) \<in> set (se_events s)} \<subseteq> {..10}"
proof -
  obtain s ts where s: "machine_reachable (s, ts)" "se_policy s = Some reconnect_policy_default"
    "Lifecycle (Recovering 1) \<in> set (se_events s)"
    using recovering_reachable by blast
  have "rp_max_attempts reconnect_policy_default = Some 10"
    by (simp add: reconnect_policy_default_def)
  from recovery_attempts_bounded [OF s(1,2) this] s show ?thesis by auto
qed

end
