(* ===== verification/Mjpeg.thy ===== *)
theory Mjpeg
  imports Errors Buffers
begin

text \<open>
  Motion JPEG frames (\<open>src/mjpeg.rs\<close>): the extent of the JPEG image in a transport buffer, and the
  decoder that is kept from frame to frame until it fails.  The \<open>turbojpeg\<close> decoder is a parameter:
  the record of the operations the crate calls.
\<close>

section \<open>The extent of a frame\<close>

definition windows2 :: "'a list \<Rightarrow> 'a list list" where
  "windows2 xs = map (\<lambda>i. [xs ! i, xs ! (i + 1)]) [0..<length xs - 1]"

definition rposition :: "('a \<Rightarrow> bool) \<Rightarrow> 'a list \<Rightarrow> usize option" where
  "rposition p xs = map_option (\<lambda>i. length xs - 1 - i) (position p (rev xs))"

definition complete_frame :: "u8 list \<Rightarrow> (u8 list) camera_result" where
  "complete_frame data =
     (if length data < 4 \<or> take 2 data \<noteq> [0xff, 0xd8]
      then Err (invalid_frame ''MJPEG frame is missing its JPEG start marker'')
      else if drop (length data - 2) data = [0xff, 0xd9] then Ok data
      else and_then
        (ok_or (map_option (\<lambda>position. position + 2)
            (rposition (\<lambda>marker. marker = [0xff, 0xd9]) (windows2 data)))
          (invalid_frame ''MJPEG frame is missing its JPEG end marker''))
        (\<lambda>end_at. slice_at data 0 end_at))"

definition mjpeg_validate :: "u8 list \<Rightarrow> unit camera_result" where
  "mjpeg_validate data = and_then (complete_frame data) (\<lambda>_. Ok ())"

section \<open>The decoder\<close>

record jpeg_header =
  jh_width :: usize
  jh_height :: usize
  jh_lossless :: bool

type_synonym scaling_factor = "usize \<times> usize"

text \<open>
  \<open>Decompressor::new\<close>, \<open>read_header\<close>, \<open>set_scaling_factor\<close> and \<open>decompress\<close> into an image of the
  given width, height and pitch; errors are their messages.  \<open>jp_scale\<close> and \<open>jp_scaled\<close> are
  \<open>ScalingFactor::scale\<close> and \<open>DecompressHeader::scaled\<close>.
\<close>

record 'j jpeg =
  jp_new :: "('j, string) result"
  jp_read_header :: "u8 list \<Rightarrow> 'j \<Rightarrow> 'j \<times> (jpeg_header, string) result"
  jp_factors :: "scaling_factor list"
  jp_scale :: "scaling_factor \<Rightarrow> usize \<Rightarrow> usize"
  jp_scaled :: "jpeg_header \<Rightarrow> scaling_factor \<Rightarrow> jpeg_header"
  jp_set_scaling :: "scaling_factor \<Rightarrow> 'j \<Rightarrow> 'j \<times> (unit, string) result"
  jp_decompress :: "u8 list \<Rightarrow> usize \<Rightarrow> usize \<Rightarrow> usize \<Rightarrow> u8 list \<Rightarrow> 'j \<Rightarrow> 'j \<times> u8 list \<times> (unit, string) result"

fun map_frame_error :: "('a, string) result \<Rightarrow> 'a camera_result" where
  "map_frame_error (Ok x) = Ok x"
| "map_frame_error (Err message) = Err (invalid_frame message)"
| "map_frame_error Panic = Panic"

text \<open>\<open>decode\<close> also changes the state \<open>s\<close> that the closure borrows.\<close>

definition decode_with ::
  "'j jpeg \<Rightarrow> 'j option \<Rightarrow> u8 list \<Rightarrow> ('j \<Rightarrow> u8 list \<Rightarrow> 's \<Rightarrow> 'j \<times> 's \<times> 'a camera_result) \<Rightarrow> 's \<Rightarrow>
     'j option \<times> 's \<times> 'a camera_result" where
  "decode_with J decoder data decode s =
     (case complete_frame data of
        Err e \<Rightarrow> (decoder, s, Err e)
      | Panic \<Rightarrow> (decoder, s, Panic)
      | Ok complete \<Rightarrow>
          (case (case decoder of Some d \<Rightarrow> Ok d | None \<Rightarrow> map_frame_error (jp_new J)) of
             Err e \<Rightarrow> (decoder, s, Err e)
           | Panic \<Rightarrow> (decoder, s, Panic)
           | Ok d \<Rightarrow>
               (case decode d complete s of
                  (d, s, result) \<Rightarrow>
                    (case result of
                       Err e \<Rightarrow> (None, s, Err e)
                     | r \<Rightarrow> (Some d, s, r)))))"

section \<open>Lemmas\<close>

lemma length_windows2 [simp]: "length (windows2 xs) = length xs - 1"
  by (simp add: windows2_def)

lemma rposition_eq_Some:
  "rposition p xs = Some i \<longleftrightarrow> i < length xs \<and> p (xs ! i) \<and> (\<forall>j < length xs. i < j \<longrightarrow> \<not> p (xs ! j))"
proof
  assume "rposition p xs = Some i"
  then obtain k where k: "position p (rev xs) = Some k" "i = length xs - 1 - k"
    by (auto simp: rposition_def)
  then have kp: "k < length xs" "p (rev xs ! k)" "\<forall>j < k. \<not> p (rev xs ! j)"
    by (auto simp: position_eq_Some)
  have "\<not> p (xs ! j)" if "j < length xs" "i < j" for j
  proof -
    have "length xs - 1 - j < k" using that k(2) kp(1) by simp
    then have "\<not> p (rev xs ! (length xs - 1 - j))" using kp(3) by blast
    with that show ?thesis by (simp add: rev_nth)
  qed
  with kp k show "i < length xs \<and> p (xs ! i) \<and> (\<forall>j < length xs. i < j \<longrightarrow> \<not> p (xs ! j))"
    by (simp add: rev_nth)
next
  assume i: "i < length xs \<and> p (xs ! i) \<and> (\<forall>j < length xs. i < j \<longrightarrow> \<not> p (xs ! j))"
  have "position p (rev xs) = Some (length xs - 1 - i)"
    unfolding position_eq_Some using i by (auto simp: rev_nth)
  with i show "rposition p xs = Some i" by (simp add: rposition_def)
qed

lemma rposition_eq_None: "rposition p xs = None \<longleftrightarrow> (\<forall>x \<in> set xs. \<not> p x)"
  by (simp add: rposition_def position_eq_None)

text \<open>\<open>ends_at data n\<close>: the first \<open>n\<close> bytes end with the end marker.\<close>

definition ends_at :: "u8 list \<Rightarrow> nat \<Rightarrow> bool" where
  "ends_at data n \<longleftrightarrow> 2 \<le> n \<and> n \<le> length data \<and> data ! (n - 2) = 0xff \<and> data ! (n - 1) = 0xd9"

lemma windows2_marker:
  "i < length data - 1 \<Longrightarrow> windows2 data ! i = [0xff, 0xd9] \<longleftrightarrow> ends_at data (i + 2)"
  by (auto simp: windows2_def ends_at_def)

lemma ends_with_marker:
  assumes "2 \<le> length data"
  shows "drop (length data - 2) data = [0xff, 0xd9] \<longleftrightarrow> ends_at data (length data)"
proof -
  have "drop (length data - 2) data = [data ! (length data - 2), data ! (length data - 1)]"
    using assms by (intro nth_equalityI) (auto simp: less_Suc_eq nth_Cons' numeral_2_eq_2)
  then show ?thesis using assms by (auto simp: ends_at_def)
qed

text \<open>of a transport buffer, \<open>complete_frame\<close> takes the JPEG image: it succeeds exactly when the
  buffer has at least four bytes, begins with the start marker and has an end marker; the frame is
  then the longest prefix that ends with one, so padding after the image is dropped and nothing of
  the image is.  It never panics.\<close>

theorem complete_frame_exact:
  "complete_frame data =
     (if 4 \<le> length data \<and> take 2 data = [0xff, 0xd8]
      then if \<exists>n. ends_at data n
           then Ok (take (GREATEST n. ends_at data n) data)
           else Err (invalid_frame ''MJPEG frame is missing its JPEG end marker'')
      else Err (invalid_frame ''MJPEG frame is missing its JPEG start marker''))"
proof (cases "length data < 4 \<or> take 2 data \<noteq> [0xff, 0xd8]")
  case False
  let ?marker = "\<lambda>marker. marker = [0xff, 0xd9 :: u8]"
  have two: "2 \<le> length data" using False by simp
  have greatest: "(GREATEST n. ends_at data n) = n"
    if "ends_at data n" "\<forall>m > n. \<not> ends_at data m" for n
    using that by (intro Greatest_equality) (auto simp: not_less [symmetric])
  show ?thesis
  proof (cases "ends_at data (length data)")
    case True
    have "\<forall>m > length data. \<not> ends_at data m" by (simp add: ends_at_def)
    with True greatest False show ?thesis
      by (auto simp: complete_frame_def ends_with_marker [OF two])
  next
    case open': False
    show ?thesis
    proof (cases "rposition ?marker (windows2 data)")
      case None
      then have "\<not> ends_at data (i + 2)" if "i < length data - 1" for i
        using that windows2_marker [OF that] nth_mem [of i "windows2 data"]
        by (auto simp: rposition_eq_None)
      then have "\<not> ends_at data n" for n
        using le_Suc_ex [of 2 n] by (auto simp: ends_at_def add.commute)
      with None open' False show ?thesis
        by (simp add: complete_frame_def ends_with_marker [OF two] ok_or_def)
    next
      case (Some i)
      then have i: "i < length data - 1" "ends_at data (i + 2)"
        "\<And>j. i < j \<Longrightarrow> j < length data - 1 \<Longrightarrow> \<not> ends_at data (j + 2)"
        by (auto simp: rposition_eq_Some windows2_marker)
      have "\<not> ends_at data m" if "i + 2 < m" for m
      proof
        assume m: "ends_at data m"
        then have "i < m - 2" "m - 2 < length data - 1" "m - 2 + 2 = m"
          using that by (auto simp: ends_at_def)
        with i(3) [of "m - 2"] m show False by metis
      qed
      then have "(GREATEST n. ends_at data n) = i + 2" using greatest i(2) by blast
      with Some i open' False show ?thesis
        by (auto simp: complete_frame_def ends_with_marker [OF two] ok_or_def slice_at_def
            slice_get_def unwrap_def)
    qed
  qed
qed (auto simp: complete_frame_def)

text \<open>A rejected frame leaves the decoder alone, a failed decode drops it.\<close>

lemma decode_with_decoder:
  assumes "decode_with J decoder data decode s = (decoder', s', Err e)"
  shows "decoder' = None \<or> decoder' = decoder \<and> s' = s"
  using assms by (auto simp: decode_with_def split: result.splits option.splits prod.splits)

end
