(* ===== verification/Conversion.thy ===== *)
theory Conversion
  imports Color_8888 Color_Half Color_Yuv422 Mjpeg
begin

text \<open>
  The conversion of a captured frame to RGB of a requested size (\<open>src/conversion.rs\<close>): the choice
  of a path, the direct conversions, and nearest-neighbour scaling by cached coordinate maps.  The
  output buffer of a failed conversion is not modelled.

  As in \<open>Color_Yuv\<close>, \<open>avx2\<close> and \<open>has_ssse3\<close> are the answers of the CPU feature detection.  The
  JPEG decoder is \<open>None\<close> when the feature \<open>decode-mjpeg\<close> is off.
\<close>

section \<open>Requests\<close>

record conversion_request =
  qr_width :: u32
  qr_height :: u32
  qr_color_override :: "color_info option"

definition conversion_output_len :: "conversion_request \<Rightarrow> usize camera_result" where
  "conversion_output_len q =
     ok_or
       (Option.bind
         (Option.bind (checked_mul (unat (qr_width q)) (unat (qr_height q)))
           (\<lambda>pixels. checked_mul pixels 3))
         (\<lambda>bytes. if bytes > 0 then Some bytes else None))
       (invalid_frame ''Invalid RGB output dimensions'')"

definition conversion_request_new :: "u32 \<Rightarrow> u32 \<Rightarrow> conversion_request camera_result" where
  "conversion_request_new width height =
     (let request = \<lparr>qr_width = width, qr_height = height, qr_color_override = None\<rparr>
      in and_then (conversion_output_len request) (\<lambda>_. Ok request))"

definition conversion_for_layout :: "frame_layout \<Rightarrow> conversion_request" where
  "conversion_for_layout l =
     \<lparr>qr_width = fl_width l, qr_height = fl_height l, qr_color_override = None\<rparr>"

definition conversion_with_color :: "conversion_request \<Rightarrow> color_info \<Rightarrow> conversion_request" where
  "conversion_with_color q color = q\<lparr>qr_color_override := Some color\<rparr>"

section \<open>Choosing a path\<close>

definition is_exact_half :: "frame_layout \<Rightarrow> conversion_request \<Rightarrow> bool" where
  "is_exact_half l q \<longleftrightarrow>
     (let width = unat (fl_width l); height = unat (fl_height l)
      in \<not> fl_bottom_up l \<and> width mod 2 = 0 \<and> height mod 2 = 0
         \<and> (unat (qr_width q), unat (qr_height q)) = (width div 2, height div 2))"

definition is_exact_two_thirds :: "frame_layout \<Rightarrow> conversion_request \<Rightarrow> bool" where
  "is_exact_two_thirds l q \<longleftrightarrow>
     unat (qr_width q) * 3 = unat (fl_width l) * 2 \<and> unat (qr_height q) * 3 = unat (fl_height l) * 2"

definition is_exact_three_quarters :: "frame_layout \<Rightarrow> conversion_request \<Rightarrow> bool" where
  "is_exact_three_quarters l q \<longleftrightarrow>
     unat (qr_width q) * 4 = unat (fl_width l) * 3 \<and> unat (qr_height q) * 4 = unat (fl_height l) * 3"

text \<open>\<open>planes[i].pixel_stride == n\<close>; only asked of planes that exist.\<close>

definition plane_pixel_stride :: "frame_layout \<Rightarrow> nat \<Rightarrow> usize" where
  "plane_pixel_stride l i = pl_pixel_stride (fl_planes l ! i)"

definition direct_half_path :: "frame_layout \<Rightarrow> conversion_request \<Rightarrow> string option" where
  "direct_half_path l q =
     (if \<not> is_exact_half l q then None
      else if fl_format l \<in> {Nv12, Nv21} \<and> length (fl_planes l) = 2
        \<and> plane_pixel_stride l 0 = 1 \<and> plane_pixel_stride l 1 = 2
      then Some ''nv12-direct-half''
      else if fl_format l \<in> {Yuyv, Uyvy} \<and> length (fl_planes l) = 1 \<and> plane_pixel_stride l 0 = 2
      then Some ''yuv422-direct-half''
      else if fl_format l = Yuv420p \<and> length (fl_planes l) = 3
        \<and> list_all (\<lambda>p. pl_pixel_stride p = 1) (fl_planes l)
      then Some ''yuv420p-direct-half''
      else None)"

definition supports_yuv_row_conversion :: "frame_layout \<Rightarrow> bool" where
  "supports_yuv_row_conversion l =
     (case fl_format l of
        Yuyv \<Rightarrow> True
      | Uyvy \<Rightarrow> True
      | Nv12 \<Rightarrow> length (fl_planes l) = 2 \<and> plane_pixel_stride l 0 = 1 \<and> plane_pixel_stride l 1 = 2
      | Nv21 \<Rightarrow> length (fl_planes l) = 2 \<and> plane_pixel_stride l 0 = 1 \<and> plane_pixel_stride l 1 = 2
      | Yuv420p \<Rightarrow> length (fl_planes l) = 3 \<and> list_all (\<lambda>p. pl_pixel_stride p = 1) (fl_planes l)
      | _ \<Rightarrow> False)"

definition is_yuv :: "pixel_format \<Rightarrow> bool" where
  "is_yuv f \<longleftrightarrow> f \<in> {Yuyv, Uyvy, Nv12, Nv21, Yuv420p}"

definition selected_conversion_path :: "frame_layout \<Rightarrow> conversion_request \<Rightarrow> string" where
  "selected_conversion_path l q =
     (if fl_format l = Mjpeg then ''jpeg-adaptive-decode-scale''
      else if fl_format l = H264 then ''unsupported-h264''
      else case direct_half_path l q of
        Some path \<Rightarrow> path
      | None \<Rightarrow>
          if (qr_width q, qr_height q) = (fl_width l, fl_height l) \<and> \<not> fl_bottom_up l
          then ''direct-full-size''
          else if fl_format l = Rgb8 \<and> fl_planes l \<noteq> [] \<and> plane_pixel_stride l 0 = 3
            \<and> is_exact_two_thirds l q
          then ''rgb-row-nearest-2x3''
          else if fl_format l = Rgb8 \<and> fl_planes l \<noteq> [] \<and> plane_pixel_stride l 0 = 3
            \<and> is_exact_three_quarters l q
          then ''rgb-row-nearest-3x4''
          else if is_yuv (fl_format l) \<and> supports_yuv_row_conversion l
            \<and> unat (fl_width l) \<le> saturating_mul (unat (qr_width q)) 4
          then if is_exact_two_thirds l q then ''yuv-row-convert-nearest-2x3''
               else if is_exact_three_quarters l q then ''yuv-row-convert-nearest-3x4''
               else ''yuv-row-convert-nearest''
          else ''mapped-nearest'')"

section \<open>Coordinate maps\<close>

record nearest_map =
  nm_dimensions :: "usize \<times> usize \<times> usize \<times> usize \<times> bool"
  nm_x :: "usize list"
  nm_y :: "usize list"

definition nearest_map_default :: nearest_map where
  "nearest_map_default = \<lparr>nm_dimensions = (0, 0, 0, 0, False), nm_x = [], nm_y = []\<rparr>"

definition nearest_update ::
  "usize \<Rightarrow> usize \<Rightarrow> usize \<Rightarrow> usize \<Rightarrow> bool \<Rightarrow> nearest_map \<Rightarrow> nearest_map" where
  "nearest_update source_width source_height destination_width destination_height bottom_up m =
     (let dimensions =
        (source_width, source_height, destination_width, destination_height, bottom_up)
      in if nm_dimensions m = dimensions then m
         else \<lparr>nm_dimensions = dimensions,
               nm_x = map (\<lambda>destination. destination * source_width div destination_width)
                 [0..<destination_width],
               nm_y = map (\<lambda>destination.
                   let row = destination * source_height div destination_height
                   in if bottom_up then source_height - row - 1 else row)
                 [0..<destination_height]\<rparr>)"

section \<open>Scaling rows\<close>

text \<open>\<open>for (row, &source_y) in destination.chunks_exact_mut(n).zip(y_map)\<close>.\<close>

definition for_destination_rows ::
  "usize \<Rightarrow> usize list \<Rightarrow> (usize \<Rightarrow> u8 list \<Rightarrow> (u8 list, 'e) result) \<Rightarrow> u8 list \<Rightarrow> (u8 list, 'e) result" where
  "for_destination_rows n y_map f destination =
     (if n = 0 then Panic
      else for_each (\<lambda>i out. modify_slice out (i * n) n (f (y_map ! i)))
        [0..<min (length destination div n) (length y_map)] destination)"

text \<open>\<open>for (pixel, &source_x) in row.as_chunks_mut::<3>().0.iter_mut().zip(x_map)\<close>.\<close>

definition for_pixels ::
  "usize list \<Rightarrow> (usize \<Rightarrow> (u8 list, 'e) result) \<Rightarrow> u8 list \<Rightarrow> (u8 list, 'e) result" where
  "for_pixels x_map f row =
     for_each (\<lambda>i out. and_then (f (x_map ! i)) (\<lambda>pixel. write_at out (3 * i) pixel))
       [0..<min (length row div 3) (length x_map)] row"

text \<open>Copying the first \<open>b\<close> bytes of each group of \<open>a\<close> into groups of \<open>b\<close>.\<close>

definition copy_groups :: "usize \<Rightarrow> usize \<Rightarrow> u8 list \<Rightarrow> u8 list \<Rightarrow> (u8 list, 'e) result" where
  "copy_groups a b source destination =
     for_each (\<lambda>i out. and_then (sub_slice source (i * a) b) (\<lambda>group. write_at out (i * b) group))
       [0..<min (length source div a) (length destination div b)] destination"

definition resize_rgb_row_nearest ::
  "u8 list \<Rightarrow> u8 list \<Rightarrow> usize list \<Rightarrow> (u8 list, 'e) result" where
  "resize_rgb_row_nearest source_row destination x_map =
     (let source_width = length source_row div 3;
          destination_width = length destination div 3
      in if source_width mod 3 = 0 \<and> destination_width * 3 = source_width * 2
           \<and> length x_map = destination_width
         then copy_groups 9 6 source_row destination
         else if source_width mod 4 = 0 \<and> destination_width * 4 = source_width * 3
           \<and> length x_map = destination_width
         then copy_groups 12 9 source_row destination
         else for_pixels x_map (\<lambda>source_x. sub_slice source_row (source_x * 3) 3) destination)"

definition resize_rgb_nearest ::
  "u8 list \<Rightarrow> usize \<Rightarrow> u8 list \<Rightarrow> usize \<Rightarrow> usize list \<Rightarrow> usize list \<Rightarrow> (u8 list, 'e) result" where
  "resize_rgb_nearest source source_width destination destination_width x_map y_map =
     for_destination_rows (destination_width * 3) y_map
       (\<lambda>source_y row.
         and_then (sub_slice source (source_y * source_width * 3) (source_width * 3)) (\<lambda>source_row.
           resize_rgb_row_nearest source_row row x_map)) destination"

text \<open>The three bytes of a pixel at an offset, in the order of the format.\<close>

definition rgb_bytes :: "pixel_format \<Rightarrow> u8 list \<Rightarrow> usize \<Rightarrow> (u8 list, 'e) result" where
  "rgb_bytes format data source =
     (case format of
        Rgb8 \<Rightarrow> sub_slice data source 3
      | Rgba8 \<Rightarrow> sub_slice data source 3
      | Bgr8 \<Rightarrow> and_then (sub_slice data source 3) (\<lambda>bytes. Ok (rev bytes))
      | Bgra8 \<Rightarrow> and_then (sub_slice data source 3) (\<lambda>bytes. Ok (rev bytes))
      | Argb8 \<Rightarrow> sub_slice data (source + 1) 3
      | Gray8 \<Rightarrow> and_then (index_at data source) (\<lambda>byte. Ok [byte, byte, byte])
      | _ \<Rightarrow> Panic)"

definition scale_nearest ::
  "frame_layout \<Rightarrow> u8 list \<Rightarrow> u8 list \<Rightarrow> usize \<Rightarrow> usize list \<Rightarrow> usize list \<Rightarrow> (u8 list) camera_result" where
  "scale_nearest l data destination destination_width x_map y_map =
     and_then (index_at (fl_planes l) 0) (\<lambda>packed.
       if is_yuv (fl_format l) \<or> is_encoded (fl_format l) then Panic
       else for_destination_rows (destination_width * 3) y_map
         (\<lambda>source_y row_out.
           let row = pl_offset packed + source_y * pl_row_stride packed
           in if fl_format l = Rgb8 \<and> pl_pixel_stride packed = 3
              then and_then (sub_slice data row (unat (fl_width l) * 3)) (\<lambda>source_row.
                resize_rgb_row_nearest source_row row_out x_map)
              else for_pixels x_map
                (\<lambda>source_x. rgb_bytes (fl_format l) data (row + source_x * pl_pixel_stride packed))
                row_out) destination)"

text \<open>The luma and chroma bytes of a pixel.\<close>

definition yuv_bytes :: "frame_layout \<Rightarrow> u8 list \<Rightarrow> usize \<Rightarrow> usize \<Rightarrow> (u8 \<times> u8 \<times> u8, 'e) result" where
  "yuv_bytes l data source_y source_x =
     and_then (index_at (fl_planes l) 0) (\<lambda>y_plane.
       let y_row = pl_offset y_plane + source_y * pl_row_stride y_plane;
           y_offset = y_row + source_x * pl_pixel_stride y_plane;
           triple = (\<lambda>a b c. and_then (index_at data a) (\<lambda>y. and_then (index_at data b) (\<lambda>u.
             and_then (index_at data c) (\<lambda>v. Ok (y, u, v)))))
       in case fl_format l of
            Uyvy \<Rightarrow>
              (let pair = y_row + source_x div 2 * 2 * 2 in triple (y_offset + 1) pair (pair + 2))
          | Yuyv \<Rightarrow>
              (let pair = y_row + source_x div 2 * 2 * 2 in triple y_offset (pair + 1) (pair + 3))
          | Nv12 \<Rightarrow>
              and_then (index_at (fl_planes l) 1) (\<lambda>chroma.
                let uv = pl_offset chroma + source_y div 2 * pl_row_stride chroma
                      + source_x div 2 * pl_pixel_stride chroma
                in triple y_offset uv (uv + 1))
          | Nv21 \<Rightarrow>
              and_then (index_at (fl_planes l) 1) (\<lambda>chroma.
                let uv = pl_offset chroma + source_y div 2 * pl_row_stride chroma
                      + source_x div 2 * pl_pixel_stride chroma
                in triple y_offset (uv + 1) uv)
          | Yuv420p \<Rightarrow>
              and_then (index_at (fl_planes l) 1) (\<lambda>u. and_then (index_at (fl_planes l) 2) (\<lambda>v.
                triple y_offset
                  (pl_offset u + source_y div 2 * pl_row_stride u + source_x div 2 * pl_pixel_stride u)
                  (pl_offset v + source_y div 2 * pl_row_stride v + source_x div 2 * pl_pixel_stride v)))
          | _ \<Rightarrow> Panic)"

definition scale_yuv_scalar ::
  "frame_layout \<Rightarrow> u8 list \<Rightarrow> u8 list \<Rightarrow> usize \<Rightarrow> usize list \<Rightarrow> usize list \<Rightarrow> coefficients \<Rightarrow>
     (u8 list) camera_result" where
  "scale_yuv_scalar l data destination destination_width x_map y_map c =
     for_destination_rows (destination_width * 3) y_map
       (\<lambda>source_y. for_pixels x_map (\<lambda>source_x.
         and_then (yuv_bytes l data source_y source_x) (\<lambda>(y, u, v). Ok (yuv_pixel c y u v))))
       destination"

section \<open>Scaling converted rows\<close>

definition convert_yuv_rows ::
  "bool \<Rightarrow> frame_layout \<Rightarrow> u8 list \<Rightarrow> usize \<Rightarrow> usize \<Rightarrow> coefficients \<Rightarrow> u8 list \<Rightarrow> (u8 list) camera_result" where
  "convert_yuv_rows avx2 l data source_y rows c rgb =
     and_then (index_at (fl_planes l) 0) (\<lambda>y_plane.
       let width = unat (fl_width l);
           y_start = pl_offset y_plane + source_y * pl_row_stride y_plane
       in if fl_format l \<in> {Yuyv, Uyvy}
          then and_then (sub_slice data y_start ((rows - 1) * pl_row_stride y_plane + width * 2)) (\<lambda>source.
            yuv422_to_rgb_with_coefficients_into avx2 source width rows (pl_row_stride y_plane)
              (fl_format l = Uyvy) c rgb)
          else if fl_format l \<in> {Nv12, Nv21}
          then and_then (index_at (fl_planes l) 1) (\<lambda>uv_plane.
            and_then (sub_slice data y_start ((rows - 1) * pl_row_stride y_plane + width)) (\<lambda>y.
            and_then (sub_slice data (pl_offset uv_plane + source_y div 2 * pl_row_stride uv_plane)
                (div_ceil width 2 * 2)) (\<lambda>uv.
              yuv420sp_to_rgb_with_coefficients_into avx2
                \<lparr>sp_y = y, sp_uv = uv, sp_y_stride = pl_row_stride y_plane,
                 sp_uv_stride = pl_row_stride uv_plane, sp_vu_order = (fl_format l = Nv21)\<rparr>
                width rows c rgb)))
          else if fl_format l = Yuv420p
          then and_then (index_at (fl_planes l) 1) (\<lambda>u_plane.
            and_then (index_at (fl_planes l) 2) (\<lambda>v_plane.
            and_then (sub_slice data y_start ((rows - 1) * pl_row_stride y_plane + width)) (\<lambda>y.
            and_then (sub_slice data (pl_offset u_plane + source_y div 2 * pl_row_stride u_plane)
                (div_ceil width 2)) (\<lambda>u.
            and_then (sub_slice data (pl_offset v_plane + source_y div 2 * pl_row_stride v_plane)
                (div_ceil width 2)) (\<lambda>v.
              yuv420_to_rgb_with_coefficients_into avx2
                \<lparr>yp_data = y, yp_row_stride = pl_row_stride y_plane,
                 yp_pixel_stride = pl_pixel_stride y_plane\<rparr>
                \<lparr>yp_data = u, yp_row_stride = pl_row_stride u_plane,
                 yp_pixel_stride = pl_pixel_stride u_plane\<rparr>
                \<lparr>yp_data = v, yp_row_stride = pl_row_stride v_plane,
                 yp_pixel_stride = pl_pixel_stride v_plane\<rparr>
                width rows c rgb)))))
          else Panic)"

definition is_pairable :: "pixel_format \<Rightarrow> bool" where
  "is_pairable f \<longleftrightarrow> f \<in> {Nv12, Nv21, Yuv420p}"

text \<open>The state of the loop is the scratch row pair and the destination; \<open>rows\<close> is the number of
  destination rows, and the row the iterator is at is always \<open>index\<close>.\<close>

function scale_yuv_rows ::
  "bool \<Rightarrow> frame_layout \<Rightarrow> u8 list \<Rightarrow> usize list \<Rightarrow> usize list \<Rightarrow> coefficients \<Rightarrow> usize \<Rightarrow> usize \<Rightarrow>
     u8 list \<times> u8 list \<Rightarrow> (u8 list \<times> u8 list) camera_result" where
  "scale_yuv_rows avx2 l data x_map y_map c rows index (rgb_row, destination) =
     (if rows \<le> index then Ok (rgb_row, destination)
      else
        let source_row_bytes = unat (fl_width l) * 3;
            n = length x_map * 3
        in and_then (index_at y_map index) (\<lambda>source_y.
          if is_pairable (fl_format l) \<and> source_y mod 2 = 0
            \<and> index + 1 < length y_map \<and> y_map ! (index + 1) = source_y + 1
          then if rows \<le> index + 1 then Panic
            else
              and_then (modify_slice rgb_row 0 (source_row_bytes * 2)
                (convert_yuv_rows avx2 l data source_y 2 c)) (\<lambda>rgb_row.
              and_then (sub_slice rgb_row 0 source_row_bytes) (\<lambda>first_source.
              and_then (modify_slice destination (index * n) n
                (\<lambda>row. resize_rgb_row_nearest first_source row x_map)) (\<lambda>destination.
              and_then (sub_slice rgb_row source_row_bytes source_row_bytes) (\<lambda>second_source.
              and_then (modify_slice destination ((index + 1) * n) n
                (\<lambda>row. resize_rgb_row_nearest second_source row x_map)) (\<lambda>destination.
                scale_yuv_rows avx2 l data x_map y_map c rows (index + 2) (rgb_row, destination))))))
          else
            and_then (modify_slice rgb_row 0 source_row_bytes
              (convert_yuv_rows avx2 l data source_y 1 c)) (\<lambda>rgb_row.
            and_then (sub_slice rgb_row 0 source_row_bytes) (\<lambda>source.
            and_then (modify_slice destination (index * n) n
              (\<lambda>row. resize_rgb_row_nearest source row x_map)) (\<lambda>destination.
              scale_yuv_rows avx2 l data x_map y_map c rows (index + 1) (rgb_row, destination))))))"
  by pat_completeness auto
termination by (relation "measure (\<lambda>(avx2, l, data, x_map, y_map, c, rows, index, s). rows - index)") auto

definition scale_yuv_nearest ::
  "bool \<Rightarrow> frame_layout \<Rightarrow> u8 list \<Rightarrow> u8 list \<Rightarrow> usize list \<Rightarrow> usize list \<Rightarrow> coefficients \<Rightarrow> u8 list \<Rightarrow>
     (u8 list \<times> u8 list) camera_result" where
  "scale_yuv_nearest avx2 l data destination x_map y_map c rgb_row =
     (let n = length x_map * 3
      in if n = 0 then Panic
         else scale_yuv_rows avx2 l data x_map y_map c (length destination div n) 0
           (rgb_row, destination))"

section \<open>The converter\<close>

record 'j rgb_converter =
  rc_jpeg :: "'j option"
  rc_jpeg_scratch :: "u8 list"
  rc_nearest :: nearest_map
  rc_rgb_row_scratch :: "u8 list"

definition rgb_converter_new :: "'j rgb_converter" where
  "rgb_converter_new =
     \<lparr>rc_jpeg = None, rc_jpeg_scratch = [], rc_nearest = nearest_map_default,
      rc_rgb_row_scratch = []\<rparr>"

text \<open>\<open>Vec::resize(n, 0)\<close>.\<close>

definition vec_resize :: "usize \<Rightarrow> u8 list \<Rightarrow> u8 list" where
  "vec_resize n xs = take n xs @ replicate (n - length xs) 0"

definition jpeg_scaling ::
  "'j jpeg \<Rightarrow> jpeg_header \<Rightarrow> usize \<Rightarrow> usize \<Rightarrow> scaling_factor" where
  "jpeg_scaling J header target_width target_height =
     (if jh_lossless header \<or> jh_width header \<le> target_width \<or> jh_height header \<le> target_height
      then (1, 1)
      else
        let size = (\<lambda>f. saturating_mul (jp_scale J f (jh_width header)) (jp_scale J f (jh_height header)));
            usable = filter (\<lambda>f. fst f \<le> snd f \<and> (fst f * 2 \<le> snd f \<or> fst f = snd f)
              \<and> target_width \<le> jp_scale J f (jh_width header)
              \<and> target_height \<le> jp_scale J f (jh_height header)) (jp_factors J)
        in case usable of
             [] \<Rightarrow> (1, 1)
           | f # fs \<Rightarrow> fold (\<lambda>g best. if size g < size best then g else best) fs f)"

text \<open>The closure that \<open>decode_with\<close> runs; its state is the output, the scratch and the maps.\<close>

definition decode_jpeg ::
  "'j jpeg \<Rightarrow> usize \<Rightarrow> usize \<Rightarrow> usize \<Rightarrow> usize \<Rightarrow> 'j \<Rightarrow> u8 list \<Rightarrow> u8 list \<times> u8 list \<times> nearest_map \<Rightarrow>
     'j \<times> (u8 list \<times> u8 list \<times> nearest_map) \<times> unit camera_result" where
  "decode_jpeg J w h out_w out_h decoder data s =
     (case jp_read_header J data decoder of
        (decoder, Err e) \<Rightarrow> (decoder, s, Err (invalid_frame e))
      | (decoder, Panic) \<Rightarrow> (decoder, s, Panic)
      | (decoder, Ok header) \<Rightarrow>
          if (jh_width header, jh_height header) \<noteq> (w, h)
          then (decoder, s, Err (invalid_frame ''JPEG dimensions differ from layout''))
          else
            let scaling = jpeg_scaling J header out_w out_h
            in case jp_set_scaling J scaling decoder of
                 (decoder, Err e) \<Rightarrow> (decoder, s, Err (invalid_frame e))
               | (decoder, Panic) \<Rightarrow> (decoder, s, Panic)
               | (decoder, Ok _) \<Rightarrow>
                   (case s of (out, scratch, nearest) \<Rightarrow>
                     let scaled = jp_scaled J header scaling
                     in if (jh_width scaled, jh_height scaled) = (out_w, out_h)
                        then case jp_decompress J data out_w out_h (out_w * 3) out decoder of
                            (decoder, out, r) \<Rightarrow> (decoder, (out, scratch, nearest), map_frame_error r)
                        else case Option.bind (checked_mul (jh_width scaled) (jh_height scaled))
                            (\<lambda>pixels. checked_mul pixels 3) of
                            None \<Rightarrow> (decoder, s, Err (invalid_frame ''JPEG output size overflow''))
                          | Some scratch_len \<Rightarrow>
                              (case jp_decompress J data (jh_width scaled) (jh_height scaled)
                                  (jh_width scaled * 3) (vec_resize scratch_len scratch) decoder of
                                 (decoder, scratch, Err e) \<Rightarrow>
                                   (decoder, (out, scratch, nearest), Err (invalid_frame e))
                               | (decoder, scratch, Panic) \<Rightarrow> (decoder, (out, scratch, nearest), Panic)
                               | (decoder, scratch, Ok _) \<Rightarrow>
                                   let nearest = nearest_update (jh_width scaled) (jh_height scaled)
                                         out_w out_h False nearest
                                   in case resize_rgb_nearest scratch (jh_width scaled) out out_w
                                       (nm_x nearest) (nm_y nearest) of
                                        Ok out \<Rightarrow> (decoder, (out, scratch, nearest), Ok ())
                                      | Err e \<Rightarrow> (decoder, (out, scratch, nearest), Err e)
                                      | Panic \<Rightarrow> (decoder, (out, scratch, nearest), Panic))))"

definition plane_slice :: "frame_layout \<Rightarrow> u8 list \<Rightarrow> nat \<Rightarrow> usize \<Rightarrow> yuv_plane camera_result" where
  "plane_slice l data i shift =
     and_then (index_at (fl_planes l) i) (\<lambda>p.
     and_then (slice_at data (pl_offset p + shift) (pl_offset p + pl_length p)) (\<lambda>bytes.
       Ok \<lparr>yp_data = bytes, yp_row_stride = pl_row_stride p, yp_pixel_stride = pl_pixel_stride p\<rparr>))"

definition semi_planes :: "frame_layout \<Rightarrow> u8 list \<Rightarrow> yuv420sp camera_result" where
  "semi_planes l data =
     and_then (plane_slice l data 0 0) (\<lambda>y.
     and_then (plane_slice l data 1 0) (\<lambda>uv.
       Ok \<lparr>sp_y = yp_data y, sp_uv = yp_data uv, sp_y_stride = yp_row_stride y,
           sp_uv_stride = yp_row_stride uv, sp_vu_order = (fl_format l = Nv21)\<rparr>))"

definition convert_half ::
  "bool \<Rightarrow> frame_layout \<Rightarrow> u8 list \<Rightarrow> coefficients \<Rightarrow> u8 list \<Rightarrow> (u8 list) camera_result" where
  "convert_half avx2 l data c out =
     (let w = unat (fl_width l); h = unat (fl_height l)
      in if fl_format l \<in> {Nv12, Nv21}
         then and_then (semi_planes l data) (\<lambda>planes.
           yuv420sp_to_rgb_half_with_coefficients_into avx2 planes w h c out)
         else if fl_format l \<in> {Yuyv, Uyvy}
         then and_then (plane_slice l data 0 0) (\<lambda>p.
           yuv422_to_rgb_half_with_coefficients_into avx2 (yp_data p) w h (yp_row_stride p)
             (fl_format l = Uyvy) c out)
         else if fl_format l = Yuv420p
         then and_then (plane_slice l data 0 0) (\<lambda>y. and_then (plane_slice l data 1 0) (\<lambda>u.
           and_then (plane_slice l data 2 0) (\<lambda>v.
             yuv420_to_rgb_half_with_coefficients_into avx2 y u v w h c out)))
         else Panic)"

text \<open>The direct conversions of a same-size top-down frame; \<open>Ok None\<close> falls through to scaling.\<close>

definition convert_same_size ::
  "bool \<Rightarrow> bool \<Rightarrow> frame_layout \<Rightarrow> u8 list \<Rightarrow> coefficients option \<Rightarrow> u8 list \<Rightarrow>
     (u8 list option) camera_result" where
  "convert_same_size avx2 has_ssse3 l data coeff out =
     and_then (plane_slice l data 0 0) (\<lambda>plane.
       let w = unat (fl_width l); h = unat (fl_height l); source = yp_data plane;
           stride = yp_row_stride plane;
           return = (\<lambda>r. and_then r (\<lambda>out. Ok (Some out)))
       in if fl_format l = Rgb8 \<and> yp_pixel_stride plane = 3
          then return (for_each (\<lambda>y out. modify_slice out (y * w * 3) (w * 3)
              (\<lambda>_. sub_slice source (y * stride) (w * 3))) [0..<h] out)
          else if fl_format l = Rgba8 \<and> yp_pixel_stride plane = 4
          then return (rgba8888_to_rgb_into avx2 has_ssse3 source w h stride out)
          else if fl_format l = Bgra8 \<and> yp_pixel_stride plane = 4
          then return (bgra8888_to_rgb_into avx2 has_ssse3 source w h stride out)
          else if fl_format l = Argb8 \<and> yp_pixel_stride plane = 4
          then return (argb8888_to_rgb_into avx2 has_ssse3 source w h stride out)
          else if fl_format l = Yuv420p
          then return (and_then (plane_slice l data 1 0) (\<lambda>u. and_then (plane_slice l data 2 0) (\<lambda>v.
            and_then (unwrap coeff) (\<lambda>c.
              yuv420_to_rgb_with_coefficients_into avx2 plane u v w h c out))))
          else if fl_format l \<in> {Nv12, Nv21}
          then return (and_then (index_at (fl_planes l) 1) (\<lambda>uv.
            if yp_pixel_stride plane = 1 \<and> pl_pixel_stride uv = 2
            then and_then (semi_planes l data) (\<lambda>planes. and_then (unwrap coeff) (\<lambda>c.
              yuv420sp_to_rgb_with_coefficients_into avx2 planes w h c out))
            else
              and_then (plane_slice l data 1 (if fl_format l = Nv12 then 0 else 1)) (\<lambda>u.
              and_then (plane_slice l data 1 (if fl_format l = Nv12 then 1 else 0)) (\<lambda>v.
              and_then (unwrap coeff) (\<lambda>c.
                yuv420_to_rgb_with_coefficients_into avx2 plane u v w h c out)))))
          else if fl_format l \<in> {Yuyv, Uyvy}
          then return (and_then (unwrap coeff) (\<lambda>c.
            yuv422_to_rgb_with_coefficients_into avx2 source w h stride (fl_format l = Uyvy) c out))
          else Ok None)"

definition convert_scaled ::
  "bool \<Rightarrow> frame_layout \<Rightarrow> u8 list \<Rightarrow> usize \<Rightarrow> nearest_map \<Rightarrow> coefficients option \<Rightarrow> u8 list \<Rightarrow> u8 list \<Rightarrow>
     u8 list \<times> (u8 list) camera_result" where
  "convert_scaled avx2 l data out_w nearest coeff rgb_row out =
     (let w = unat (fl_width l)
      in if is_yuv (fl_format l) \<and> supports_yuv_row_conversion l \<and> w \<le> saturating_mul out_w 4
         then
           let rgb_row = vec_resize (w * 6) rgb_row
           in case and_then (unwrap coeff) (\<lambda>c.
                scale_yuv_nearest avx2 l data out (nm_x nearest) (nm_y nearest) c rgb_row) of
                Ok (rgb_row, out) \<Rightarrow> (rgb_row, Ok out)
              | Err e \<Rightarrow> (rgb_row, Err e)
              | Panic \<Rightarrow> (rgb_row, Panic)
         else if is_yuv (fl_format l)
         then (rgb_row, and_then (unwrap coeff) (\<lambda>c.
           scale_yuv_scalar l data out out_w (nm_x nearest) (nm_y nearest) c))
         else (rgb_row, scale_nearest l data out out_w (nm_x nearest) (nm_y nearest)))"

text \<open>Everything after the checks of formats that need a decoder.\<close>

definition convert_raw ::
  "bool \<Rightarrow> bool \<Rightarrow> 'j rgb_converter \<Rightarrow> frame_layout \<Rightarrow> u8 list \<Rightarrow> conversion_request \<Rightarrow> u8 list \<Rightarrow>
     'j rgb_converter \<times> (u8 list) camera_result" where
  "convert_raw avx2 has_ssse3 self l data q out =
     (let w = unat (fl_width l); h = unat (fl_height l);
          out_w = unat (qr_width q); out_h = unat (qr_height q);
          color = (case qr_color_override q of Some color \<Rightarrow> color | None \<Rightarrow> fl_color l);
          scale = (\<lambda>coeff.
            let nearest = nearest_update w h out_w out_h (fl_bottom_up l) (rc_nearest self)
            in case convert_scaled avx2 l data out_w nearest coeff (rc_rgb_row_scratch self) out of
                 (rgb_row, r) \<Rightarrow> (self\<lparr>rc_nearest := nearest, rc_rgb_row_scratch := rgb_row\<rparr>, r))
      in case (if is_yuv (fl_format l)
               then and_then (color_coefficients color) (\<lambda>c. Ok (Some c)) else Ok None) of
           Err e \<Rightarrow> (self, Err e)
         | Panic \<Rightarrow> (self, Panic)
         | Ok coeff \<Rightarrow>
             if direct_half_path l q \<noteq> None
             then (self, and_then (unwrap coeff) (\<lambda>c. convert_half avx2 l data c out))
             else if (out_w, out_h) = (w, h) \<and> \<not> fl_bottom_up l
             then (case convert_same_size avx2 has_ssse3 l data coeff out of
                 Err e \<Rightarrow> (self, Err e)
               | Panic \<Rightarrow> (self, Panic)
               | Ok (Some out) \<Rightarrow> (self, Ok out)
               | Ok None \<Rightarrow> scale coeff)
             else scale coeff)"

definition convert_layout_into ::
  "bool \<Rightarrow> bool \<Rightarrow> 'j jpeg option \<Rightarrow> 'j rgb_converter \<Rightarrow> frame_layout \<Rightarrow> u8 list \<Rightarrow> conversion_request \<Rightarrow>
     u8 list \<Rightarrow> 'j rgb_converter \<times> (u8 list) camera_result" where
  "convert_layout_into avx2 has_ssse3 jpeg self l data q out =
     (case and_then (layout_validate l (length data)) (\<lambda>_. conversion_output_len q) of
        Err e \<Rightarrow> (self, Err e)
      | Panic \<Rightarrow> (self, Panic)
      | Ok n \<Rightarrow>
          if n \<noteq> length out then (self, Err (invalid_frame ''RGB destination size mismatch''))
          else if fl_format l = Mjpeg
          then (case jpeg of
              None \<Rightarrow> (self, Err (unsupported_format ''Enable jpeg for MJPEG decoding''))
            | Some J \<Rightarrow>
                (case decode_with J (rc_jpeg self) data
                    (decode_jpeg J (unat (fl_width l)) (unat (fl_height l)) (unat (qr_width q))
                      (unat (qr_height q)))
                    (out, rc_jpeg_scratch self, rc_nearest self) of
                   (decoder, (out, scratch, nearest), r) \<Rightarrow>
                     (self\<lparr>rc_jpeg := decoder, rc_jpeg_scratch := scratch, rc_nearest := nearest\<rparr>,
                      and_then r (\<lambda>_. Ok out))))
          else if fl_format l = H264
          then (self, Err (unsupported_format ''H264 decoding requires an external video decoder''))
          else convert_raw avx2 has_ssse3 self l data q out)"

end
