(* ===== verification/Pixels.thy ===== *)
theory Pixels
  imports Buffers
begin

text \<open>
  Rows of three-byte pixels: the pixel at a position of a row, and a row as the parts it consists of.
\<close>

definition row_pixel :: "u8 list \<Rightarrow> nat \<Rightarrow> u8 list" where
  "row_pixel s k = [s ! (3 * k), s ! (3 * k + 1), s ! (3 * k + 2)]"

lemma length_row_pixel [simp]: "length (row_pixel s k) = 3"
  by (simp add: row_pixel_def)

lemma three_bytes: "i + 3 \<le> length s \<Longrightarrow> take 3 (drop i s) = [s ! i, s ! (i + 1), s ! (i + 2)]"
  by (rule nth_equalityI) (auto simp: less_Suc_eq nth_Cons' numeral_3_eq_3)

lemma row_pixel_slice: "3 * k + 3 \<le> length s \<Longrightarrow> take 3 (drop (3 * k) s) = row_pixel s k"
  by (simp add: three_bytes row_pixel_def)

lemma parts_row_pixel:
  assumes "\<And>i. length (p i) = 3" "k < n"
  shows "row_pixel (parts p n) k = p k"
proof -
  have "parts p n = parts p k @ parts (\<lambda>i. p (k + i)) (Suc (n - Suc k))"
    using parts_add [of p k "Suc (n - Suc k)"] assms(2) by simp
  also have "\<dots> = parts p k @ p k @ parts (\<lambda>i. p (k + (1 + i))) (n - Suc k)"
    using parts_add [of "\<lambda>i. p (k + i)" 1 "n - Suc k"] by (simp add: parts_Suc)
  finally have "drop (3 * k) (parts p n) = p k @ parts (\<lambda>i. p (k + (1 + i))) (n - Suc k)"
    using length_parts [of k p 3] assms(1) by simp
  then have "take 3 (drop (3 * k) (parts p n)) = p k" using assms(1) by simp
  moreover have "3 * k + 3 \<le> length (parts p n)"
    using length_parts [of n p 3] assms by simp
  ultimately show ?thesis using row_pixel_slice by metis
qed

lemma slice_row_pixels:
  "3 * (k + n) \<le> length s \<Longrightarrow> take (3 * n) (drop (3 * k) s) = parts (\<lambda>j. row_pixel s (k + j)) n"
proof (induction n)
  case (Suc n)
  have "take (3 * Suc n) (drop (3 * k) s)
      = take (3 * n) (drop (3 * k) s) @ take 3 (drop (3 * (k + n)) s)"
    using take_add [of "3 * n" 3 "drop (3 * k) s"] by (simp add: add.commute)
  then show ?case using Suc row_pixel_slice [of "k + n" s] by (simp add: parts_Suc)
qed simp

lemma bytes_as_pixels: "length s = 3 * n \<Longrightarrow> s = parts (row_pixel s) n"
  using slice_row_pixels [of 0 n s] by simp

end
