(* ===== verification/Conversion_Exact.thy ===== *)
theory Conversion_Exact
  imports Conversion Pixels
begin

text \<open>
  What the paths of \<open>convert_layout_into\<close> compute: every one of them writes the image that takes
  each destination pixel from the source pixel its coordinates map to.
\<close>

section \<open>The reference image\<close>

definition nearest_x :: "nat \<Rightarrow> nat \<Rightarrow> nat list" where
  "nearest_x source_width width = map (\<lambda>i. i * source_width div width) [0..<width]"

definition nearest_y :: "nat \<Rightarrow> nat \<Rightarrow> bool \<Rightarrow> nat list" where
  "nearest_y source_height height bottom_up =
     map (\<lambda>i. let row = i * source_height div height
              in if bottom_up then source_height - row - 1 else row) [0..<height]"

definition nearest_valid :: "nearest_map \<Rightarrow> bool" where
  "nearest_valid m \<longleftrightarrow>
     (case nm_dimensions m of (sw, sh, dw, dh, bottom_up) \<Rightarrow>
        nm_x m = nearest_x sw dw \<and> nm_y m = nearest_y sh dh bottom_up)"

lemma nearest_default_valid: "nearest_valid nearest_map_default"
  by (simp add: nearest_valid_def nearest_map_default_def nearest_x_def nearest_y_def)

lemma nearest_update_valid:
  assumes "nearest_valid m"
  shows "nearest_valid (nearest_update sw sh dw dh b m)"
    "nm_x (nearest_update sw sh dw dh b m) = nearest_x sw dw"
    "nm_y (nearest_update sw sh dw dh b m) = nearest_y sh dh b"
  using assms
  by (auto simp: nearest_update_def nearest_valid_def nearest_x_def nearest_y_def Let_def)

lemma length_nearest [simp]:
  "length (nearest_x sw dw) = dw" "length (nearest_y sh dh b) = dh"
  by (simp_all add: nearest_x_def nearest_y_def)

lemma mult_div_less: "(i :: nat) < n \<Longrightarrow> 0 < m \<Longrightarrow> i * m div n < m"
  by (simp add: div_less_iff_less_mult mult.commute)

lemma nearest_x_at: "i < dw \<Longrightarrow> nearest_x sw dw ! i = i * sw div dw"
  by (simp add: nearest_x_def)

lemma nearest_x_less: "i < dw \<Longrightarrow> 0 < sw \<Longrightarrow> nearest_x sw dw ! i < sw"
  by (simp add: nearest_x_at mult_div_less)

lemma nearest_y_less: "i < dh \<Longrightarrow> 0 < sh \<Longrightarrow> nearest_y sh dh b ! i < sh"
  using mult_div_less [of i dh sh] by (simp add: nearest_y_def Let_def)

text \<open>The byte of a channel of a sample, and the pixel of a row and column, of an image in memory.\<close>

definition sample_at :: "frame_layout \<Rightarrow> u8 list \<Rightarrow> nat \<Rightarrow> nat \<Rightarrow> nat \<Rightarrow> nat \<Rightarrow> u8" where
  "sample_at l data plane y x channel = data ! sample_byte (fl_planes l ! plane) y x channel"

definition source_pixel :: "coefficients \<Rightarrow> frame_layout \<Rightarrow> u8 list \<Rightarrow> nat \<Rightarrow> nat \<Rightarrow> u8 list" where
  "source_pixel c l data y x =
     (let packed = sample_at l data 0 y x; pair = 2 * (x div 2)
      in case fl_format l of
           Rgb8 \<Rightarrow> [packed 0, packed 1, packed 2]
         | Rgba8 \<Rightarrow> [packed 0, packed 1, packed 2]
         | Bgr8 \<Rightarrow> [packed 2, packed 1, packed 0]
         | Bgra8 \<Rightarrow> [packed 2, packed 1, packed 0]
         | Argb8 \<Rightarrow> [packed 1, packed 2, packed 3]
         | Yuyv \<Rightarrow> yuv_pixel c (packed 0) (sample_at l data 0 y pair 1) (sample_at l data 0 y (pair + 1) 1)
         | Uyvy \<Rightarrow> yuv_pixel c (packed 1) (sample_at l data 0 y pair 0) (sample_at l data 0 y (pair + 1) 0)
         | Nv12 \<Rightarrow> yuv_pixel c (packed 0) (sample_at l data 1 (y div 2) (x div 2) 0)
             (sample_at l data 1 (y div 2) (x div 2) 1)
         | Nv21 \<Rightarrow> yuv_pixel c (packed 0) (sample_at l data 1 (y div 2) (x div 2) 1)
             (sample_at l data 1 (y div 2) (x div 2) 0)
         | Yuv420p \<Rightarrow> yuv_pixel c (packed 0) (sample_at l data 1 (y div 2) (x div 2) 0)
             (sample_at l data 2 (y div 2) (x div 2) 0)
         | _ \<Rightarrow> [packed 0, packed 0, packed 0])"

lemma length_source_pixel [simp]: "length (source_pixel c l data y x) = 3"
  by (simp add: source_pixel_def Let_def split: pixel_format.splits)

definition scaled_image ::
  "coefficients \<Rightarrow> frame_layout \<Rightarrow> u8 list \<Rightarrow> nat \<Rightarrow> nat \<Rightarrow> u8 list" where
  "scaled_image c l data width height =
     parts (\<lambda>i. source_pixel c l data
         (nearest_y (unat (fl_height l)) height (fl_bottom_up l) ! (i div width))
         (nearest_x (unat (fl_width l)) width ! (i mod width))) (width * height)"

section \<open>Valid layouts\<close>

definition convertible :: "frame_layout \<Rightarrow> u8 list \<Rightarrow> bool" where
  "convertible l data \<longleftrightarrow>
     layout_validate l (length data) = Ok () \<and> length data < usize_bound
     \<and> \<not> is_encoded (fl_format l)"

lemma convertible_pos:
  assumes "convertible l data"
  shows "0 < unat (fl_width l)" "0 < unat (fl_height l)"
  using assms by (auto simp: convertible_def unat_gt_0 elim: layout_validate_Ok)

text \<open>Each plane of the format is there and fits.\<close>

lemma convertible_planes:
  assumes "convertible l data"
    and "plane_specs (fl_format l) (unat (fl_width l)) (unat (fl_height l)) = Some specs"
  shows "length (fl_planes l) = length specs"
    and "i < length specs \<Longrightarrow> plane_fits (fl_format l) (length data) (fl_planes l ! i) (specs ! i)"
proof -
  have v: "layout_validate l (length data) = Ok ()" "length data < usize_bound"
    using assms(1) by (auto simp: convertible_def)
  show "length (fl_planes l) = length specs"
    using v(1) assms(2) by (elim layout_validate_Ok) simp
  assume "i < length specs"
  then have "validate_plane (fl_format l) (length data) (fl_planes l ! i) (specs ! i) = Ok ()"
    using v(1) assms(2) by (elim layout_validate_Ok) simp
  then show "plane_fits (fl_format l) (length data) (fl_planes l ! i) (specs ! i)"
    using validate_plane_Ok [OF v(2)] by simp
qed

definition view :: "frame_layout \<Rightarrow> u8 list \<Rightarrow> nat \<Rightarrow> nat \<Rightarrow> yuv_plane" where
  "view l data i shift =
     (let p = fl_planes l ! i
      in \<lparr>yp_data = take (pl_length p - shift) (drop (pl_offset p + shift) data),
          yp_row_stride = pl_row_stride p, yp_pixel_stride = pl_pixel_stride p\<rparr>)"

lemma view_fields [simp]:
  "yp_row_stride (view l data i shift) = pl_row_stride (fl_planes l ! i)"
  "yp_pixel_stride (view l data i shift) = pl_pixel_stride (fl_planes l ! i)"
  by (simp_all add: view_def Let_def)

lemma view_slice:
  assumes "i < length (fl_planes l)" "plane_fits f (length data) (fl_planes l ! i) (cols, rows, channels)"
    "\<not> is_encoded f" "shift < channels"
  shows "plane_slice l data i shift = Ok (view l data i shift)"
    "length (yp_data (view l data i shift)) = pl_length (fl_planes l ! i) - shift"
proof -
  let ?p = "fl_planes l ! i"
  have "shift \<le> pl_length ?p" "pl_offset ?p + pl_length ?p \<le> length data"
    using assms(2-4) by (auto simp: plane_fits_def)
  then show "plane_slice l data i shift = Ok (view l data i shift)"
    "length (yp_data (view l data i shift)) = pl_length ?p - shift"
    using assms(1) by (simp_all add: plane_slice_def view_def index_at_def slice_at_def slice_get_def
        unwrap_def Let_def)
qed

lemma view_covers:
  assumes "plane_fits f (length data) (fl_planes l ! i) (cols, rows, channels)" "\<not> is_encoded f"
    "shift < channels" "0 < cols" "0 < rows"
  shows "plane_covers (view l data i shift) cols rows"
  using assms by (auto simp: plane_covers_def plane_fits_def view_def Let_def)

lemma view_nth:
  assumes "k < pl_length (fl_planes l ! i) - shift"
    "pl_offset (fl_planes l ! i) + pl_length (fl_planes l ! i) \<le> length data"
  shows "yp_data (view l data i shift) ! k = data ! (pl_offset (fl_planes l ! i) + shift + k)"
  using assms by (simp add: view_def Let_def)

lemma view_sample:
  assumes fits: "plane_fits f (length data) (fl_planes l ! i) (cols, rows, channels)"
    and f: "\<not> is_encoded f" and k: "shift < channels" "y < rows" "x < cols"
  shows "plane_sample (view l data i shift) y x = sample_at l data i y x shift"
proof -
  let ?p = "fl_planes l ! i"
  have "sample_byte ?p y x shift < pl_offset ?p + pl_length ?p"
    by (rule plane_fits_bound(1) [OF fits f k(2,3,1)])
  moreover have "pl_offset ?p + pl_length ?p \<le> length data" using fits by (simp add: plane_fits_def)
  ultimately show ?thesis
    by (simp add: plane_sample_def view_def Let_def sample_at_def sample_byte_def add_ac)
qed

section \<open>Rows of pixels\<close>

lemma for_pixels_parts:
  fixes p :: "nat \<Rightarrow> u8 list"
  assumes "length row = 3 * W" "length x_map = W" "\<And>j. length (p j) = 3"
    and "\<And>j. j < W \<Longrightarrow> f (x_map ! j) = Ok (p j)"
  shows "for_pixels x_map f row = Ok (parts p W)"
proof -
  have "for_each (\<lambda>i out. and_then (f (x_map ! i)) (\<lambda>pixel. write_at out (3 * i) pixel)) [0..<W]
      (filled p 0 row) = Ok (filled p W row)"
    by (rule upto_loop) (use assms in \<open>simp_all add: write_filled [where c = 3]\<close>)
  then show ?thesis using assms by (simp add: for_pixels_def filled_all length_parts)
qed

lemma for_destination_rows_parts:
  fixes P :: "nat \<Rightarrow> nat \<Rightarrow> u8 list"
  assumes W: "0 < W" and len: "length destination = 3 * (W * H)" "length y_map = H"
    and pixel: "\<And>i j. length (P i j) = 3"
    and row: "\<And>i out. i < H \<Longrightarrow> length out = 3 * W \<Longrightarrow> f (y_map ! i) out = Ok (parts (P i) W)"
  shows "for_destination_rows (W * 3) y_map f destination
    = Ok (parts (\<lambda>k. P (k div W) (k mod W)) (W * H))"
proof -
  let ?p = "\<lambda>k. P (k div W) (k mod W)"
  have "length destination = H * (W * 3)" using len(1) by simp
  then have rows: "length destination div (W * 3) = H" using W by simp
  have "parts (\<lambda>j. ?p (W * i + j)) W = parts (P i) W" for i
    using W by (intro parts_cong) simp
  then have "for_each (\<lambda>i out. modify_slice out (i * (W * 3)) (W * 3) (f (y_map ! i))) [0..<H] destination
      = Ok (filled ?p (W * H) destination)"
    by (intro group_loop [where f = "\<lambda>i. f (y_map ! i)"])
      (use pixel row len in \<open>simp_all add: mult_ac\<close>)
  moreover have "filled ?p (W * H) destination = parts ?p (W * H)"
    using len(1) by (intro filled_all) (simp add: length_parts pixel)
  ultimately show ?thesis using W len(2) rows by (simp add: for_destination_rows_def)
qed

lemma copy_groups_parts:
  assumes "gb \<le> ga" "length source = 3 * ga * m" "length destination = 3 * gb * m" "0 < gb"
  shows "(copy_groups (3 * ga) (3 * gb) source destination :: (u8 list, 'e) result)
    = Ok (parts (\<lambda>i. row_pixel source (ga * (i div gb) + i mod gb)) (gb * m))"
proof -
  let ?p = "\<lambda>i. row_pixel source (ga * (i div gb) + i mod gb)"
  let ?group = "\<lambda>i. parts (\<lambda>j. row_pixel source (ga * i + j)) gb"
  have group: "(sub_slice source (i * (3 * ga)) (3 * gb) :: (u8 list, 'e) result) = Ok (?group i)" if "i < m" for i
  proof -
    have "ga * Suc i \<le> ga * m" using that by (intro mult_le_mono2) simp
    then have "3 * (ga * i + gb) \<le> length source" using assms(1,2) by simp
    then show ?thesis using slice_row_pixels [of "ga * i" gb source] by (simp add: sub_slice_def mult_ac)
  qed
  have len: "length (?group i) = 3 * gb" for i by (simp add: length_parts)
  have block: "parts (\<lambda>i. ?p (gb * g + i)) gb = ?group g" for g
    using assms(4) by (intro parts_cong) simp
  have "(for_each (\<lambda>i out. and_then (sub_slice source (i * (3 * ga)) (3 * gb))
      (\<lambda>group. write_at out (i * (3 * gb)) group)) [0..<m] destination :: (u8 list, 'e) result) = Ok (filled ?p (gb * m) destination)"
    by (rule group_loop [where f = "\<lambda>i _. Ok (?group i)"])
      (use assms group len block in \<open>simp_all add: write_as_slice mult_ac\<close>)
  moreover have "filled ?p (gb * m) destination = parts ?p (gb * m)"
    using assms(3) by (intro filled_all) (simp add: length_parts mult_ac)
  moreover have "length source div (3 * ga) = m" "length destination div (3 * gb) = m"
    using assms by simp_all
  ultimately show ?thesis by (simp add: copy_groups_def)
qed

text \<open>The two group copies take the pixels that the coordinate map would.\<close>

lemma nearest_two_thirds: "0 < m \<Longrightarrow> j * (3 * m) div (2 * m) = 3 * (j div 2) + j mod 2" for j :: nat
proof -
  assume "0 < m"
  then have "j * (3 * m) div (2 * m) = j * 3 div 2"
    by (metis div_mult_mult2 mult.assoc nat_neq_iff)
  also have "\<dots> = 3 * (j div 2) + j mod 2" by presburger
  finally show ?thesis .
qed

lemma nearest_three_quarters: "0 < m \<Longrightarrow> j * (4 * m) div (3 * m) = 4 * (j div 3) + j mod 3" for j :: nat
proof -
  assume "0 < m"
  then have "j * (4 * m) div (3 * m) = j * 4 div 3"
    by (metis div_mult_mult2 mult.assoc nat_neq_iff)
  also have "\<dots> = 4 * (j div 3) + j mod 3" by presburger
  finally show ?thesis .
qed

lemma resize_row:
  assumes "length s = 3 * sw" "length destination = 3 * W" "0 < W" "0 < sw"
  shows "resize_rgb_row_nearest s destination (nearest_x sw W)
    = Ok (parts (\<lambda>j. row_pixel s (nearest_x sw W ! j)) W)"
proof -
  have w: "length s div 3 = sw" "length destination div 3 = W" using assms by simp_all
  consider (two) m where "sw = 3 * m" "W = 2 * m"
    | (three) m where "sw = 4 * m" "W = 3 * m" "\<not> (sw mod 3 = 0 \<and> W * 3 = sw * 2)"
    | (other) "\<not> (sw mod 3 = 0 \<and> W * 3 = sw * 2)" "\<not> (sw mod 4 = 0 \<and> W * 4 = sw * 3)"
    by (cases "sw mod 3 = 0 \<and> W * 3 = sw * 2"; cases "sw mod 4 = 0 \<and> W * 4 = sw * 3")
      (auto elim!: dvdE simp: mod_eq_0_iff_dvd)
  then show ?thesis
  proof cases
    case two
    then have "parts (\<lambda>j. row_pixel s (nearest_x sw W ! j)) W
        = parts (\<lambda>i. row_pixel s (3 * (i div 2) + i mod 2)) (2 * m)"
      using assms(3) by (auto intro!: parts_cong simp: nearest_x_at nearest_two_thirds)
    then show ?thesis
      using two assms copy_groups_parts [of 2 3 s m destination]
      by (simp add: resize_rgb_row_nearest_def w)
  next
    case three
    then have "parts (\<lambda>j. row_pixel s (nearest_x sw W ! j)) W
        = parts (\<lambda>i. row_pixel s (4 * (i div 3) + i mod 3)) (3 * m)"
      using assms(3) by (auto intro!: parts_cong simp: nearest_x_at nearest_three_quarters)
    then show ?thesis
      using three assms copy_groups_parts [of 3 4 s m destination]
      by (simp add: resize_rgb_row_nearest_def w)
  next
    case other
    have "for_pixels (nearest_x sw W) (\<lambda>x. sub_slice s (x * 3) 3) destination
        = Ok (parts (\<lambda>j. row_pixel s (nearest_x sw W ! j)) W)"
    proof (rule for_pixels_parts)
      fix j
      assume "j < W"
      then have "nearest_x sw W ! j < sw" using assms(4) by (rule nearest_x_less)
      then show "sub_slice s (nearest_x sw W ! j * 3) 3 = Ok (row_pixel s (nearest_x sw W ! j))"
        using assms(1) row_pixel_slice [of "nearest_x sw W ! j" s]
        by (simp add: sub_slice_def mult.commute)
    qed (use assms in simp_all)
    with other show ?thesis by (auto simp: resize_rgb_row_nearest_def w)
  qed
qed

end
