(* ===== verification/Conversion_Paths.thy ===== *)
theory Conversion_Paths
  imports Conversion_Exact
begin

text \<open>
  The direct conversions (half size, same size) and the scaled ones write the reference image.
\<close>

section \<open>Planes of the formats\<close>

abbreviation "width_of l \<equiv> unat (fl_width l)"
abbreviation "height_of l \<equiv> unat (fl_height l)"

lemma packed_planes:
  assumes "convertible l data" "fl_format l \<in> {Rgb8, Bgr8, Rgba8, Bgra8, Argb8, Gray8, Yuyv, Uyvy}"
  shows "\<exists>channels. 0 < channels \<and> length (fl_planes l) = 1
    \<and> plane_specs (fl_format l) (width_of l) (height_of l) = Some [(width_of l, height_of l, channels)]
    \<and> plane_fits (fl_format l) (length data) (fl_planes l ! 0) (width_of l, height_of l, channels)"
proof -
  from assms(1) obtain specs where
    "plane_specs (fl_format l) (width_of l) (height_of l) = Some specs"
    by (auto simp: convertible_def elim: layout_validate_Ok)
  with assms(2) obtain channels where pos: "0 < channels" and specs:
    "plane_specs (fl_format l) (width_of l) (height_of l) = Some [(width_of l, height_of l, channels)]"
    by (auto split: if_splits)
  from convertible_planes(1) [OF assms(1) specs] convertible_planes(2) [OF assms(1) specs, of 0] specs pos
  show ?thesis by (intro exI [of _ channels]) simp
qed

lemma semiplanar_planes:
  assumes "convertible l data" "fl_format l = Nv12 \<or> fl_format l = Nv21"
  shows "length (fl_planes l) = 2"
    and "plane_fits (fl_format l) (length data) (fl_planes l ! 0) (width_of l, height_of l, 1)"
    and "plane_fits (fl_format l) (length data) (fl_planes l ! 1)
      (div_ceil (width_of l) 2, div_ceil (height_of l) 2, 2)"
proof -
  have specs: "plane_specs (fl_format l) (width_of l) (height_of l) =
    Some [(width_of l, height_of l, 1), (div_ceil (width_of l) 2, div_ceil (height_of l) 2, 2)]"
    using assms(2) by auto
  from convertible_planes(1) [OF assms(1) specs] convertible_planes(2) [OF assms(1) specs, of 0]
    convertible_planes(2) [OF assms(1) specs, of 1]
  show "length (fl_planes l) = 2"
    "plane_fits (fl_format l) (length data) (fl_planes l ! 0) (width_of l, height_of l, 1)"
    "plane_fits (fl_format l) (length data) (fl_planes l ! 1)
      (div_ceil (width_of l) 2, div_ceil (height_of l) 2, 2)"
    by simp_all
qed

lemma planar_planes:
  assumes "convertible l data" "fl_format l = Yuv420p"
  shows "length (fl_planes l) = 3"
    and "plane_fits Yuv420p (length data) (fl_planes l ! 0) (width_of l, height_of l, 1)"
    and "plane_fits Yuv420p (length data) (fl_planes l ! 1)
      (div_ceil (width_of l) 2, div_ceil (height_of l) 2, 1)"
    and "plane_fits Yuv420p (length data) (fl_planes l ! 2)
      (div_ceil (width_of l) 2, div_ceil (height_of l) 2, 1)"
proof -
  have specs: "plane_specs (fl_format l) (width_of l) (height_of l) =
    Some [(width_of l, height_of l, 1), (div_ceil (width_of l) 2, div_ceil (height_of l) 2, 1),
      (div_ceil (width_of l) 2, div_ceil (height_of l) 2, 1)]"
    using assms(2) by auto
  from convertible_planes(1) [OF assms(1) specs] convertible_planes(2) [OF assms(1) specs, of 0]
    convertible_planes(2) [OF assms(1) specs, of 1] convertible_planes(2) [OF assms(1) specs, of 2] assms(2)
  show "length (fl_planes l) = 3"
    "plane_fits Yuv420p (length data) (fl_planes l ! 0) (width_of l, height_of l, 1)"
    "plane_fits Yuv420p (length data) (fl_planes l ! 1)
      (div_ceil (width_of l) 2, div_ceil (height_of l) 2, 1)"
    "plane_fits Yuv420p (length data) (fl_planes l ! 2)
      (div_ceil (width_of l) 2, div_ceil (height_of l) 2, 1)"
    by simp_all
qed

lemma not_encoded [simp]: "convertible l data \<Longrightarrow> \<not> is_encoded (fl_format l)"
  by (simp add: convertible_def)

lemma convertible_bound: "convertible l data \<Longrightarrow> length data < usize_bound"
  by (simp add: convertible_def)

lemma view_bound: "convertible l data \<Longrightarrow> length (yp_data (view l data i shift)) < usize_bound"
  using convertible_bound [of l data] by (simp add: view_def Let_def)

lemma image_index:
  "i < w * h \<Longrightarrow> i div w < h" "i < w * h \<Longrightarrow> i mod w < (w :: nat)"
  by (simp_all add: less_mult_imp_div_less mult.commute)
    (cases w; simp)

section \<open>Reference pixels of the conversions\<close>

lemma planar_reference:
  assumes conv: "convertible l data" and f: "fl_format l = Yuv420p" and i: "i < width_of l * height_of l"
  shows "reference_pixel c (view l data 0 0) (view l data 1 0) (view l data 2 0) (width_of l) i
    = source_pixel c l data (i div width_of l) (i mod width_of l)"
proof -
  note fits = planar_planes(2-4) [OF conv f]
  note yx = image_index [OF i]
  note half = half_less_div_ceil [OF yx(1)] half_less_div_ceil [OF yx(2)]
  have enc: "\<not> is_encoded Yuv420p" by (simp add: is_encoded_def)
  show ?thesis
    using view_sample [OF fits(1) enc _ yx] view_sample [OF fits(2) enc _ half]
      view_sample [OF fits(3) enc _ half] f
    by (simp add: reference_pixel_def source_pixel_def Let_def)
qed

lemma semiplanar_reference:
  assumes conv: "convertible l data" and f: "fl_format l = Nv12 \<or> fl_format l = Nv21"
    and i: "i < width_of l * height_of l"
  shows "reference_pixel c (view l data 0 0) (view l data 1 (if fl_format l = Nv12 then 0 else 1))
      (view l data 1 (if fl_format l = Nv12 then 1 else 0)) (width_of l) i
    = source_pixel c l data (i div width_of l) (i mod width_of l)"
proof -
  note fits = semiplanar_planes(2,3) [OF conv f]
  note yx = image_index [OF i]
  note half = half_less_div_ceil [OF yx(1)] half_less_div_ceil [OF yx(2)]
  have enc: "\<not> is_encoded (fl_format l)" using conv by simp
  show ?thesis
    using view_sample [OF fits(1) enc, of 0, OF _ yx] view_sample [OF fits(2) enc, of 0, OF _ half]
      view_sample [OF fits(2) enc, of 1, OF _ half] f
    by (auto simp: reference_pixel_def source_pixel_def Let_def)
qed

text \<open>The planes of a semi-planar image are the views of the chroma plane at its two channels.\<close>

definition semi_view :: "frame_layout \<Rightarrow> u8 list \<Rightarrow> yuv420sp" where
  "semi_view l data =
     \<lparr>sp_y = yp_data (view l data 0 0), sp_uv = yp_data (view l data 1 0),
      sp_y_stride = pl_row_stride (fl_planes l ! 0), sp_uv_stride = pl_row_stride (fl_planes l ! 1),
      sp_vu_order = (fl_format l = Nv21)\<rparr>"

lemma semi_view_planes:
  assumes "pl_pixel_stride (fl_planes l ! 0) = 1" "pl_pixel_stride (fl_planes l ! 1) = 2"
    "fl_format l = Nv12 \<or> fl_format l = Nv21"
  shows "sp_luma (semi_view l data) = view l data 0 0"
    "sp_u (semi_view l data) = view l data 1 (if fl_format l = Nv12 then 0 else 1)"
    "sp_v (semi_view l data) = view l data 1 (if fl_format l = Nv12 then 1 else 0)"
  using assms
  by (auto simp: sp_luma_def sp_u_def sp_v_def semi_view_def view_def Let_def drop_take add_ac)

lemma semi_planes_view:
  assumes conv: "convertible l data" and f: "fl_format l = Nv12 \<or> fl_format l = Nv21"
  shows "semi_planes l data = Ok (semi_view l data)"
proof -
  note p = semiplanar_planes [OF conv f]
  have enc: "\<not> is_encoded (fl_format l)" using conv by simp
  show ?thesis
    using view_slice(1) [OF _ p(2) enc, of 0] view_slice(1) [OF _ p(3) enc, of 0] p(1)
    by (simp add: semi_planes_def semi_view_def)
qed

lemma semi_view_accepts:
  assumes conv: "convertible l data" and f: "fl_format l = Nv12 \<or> fl_format l = Nv21"
    and s: "pl_pixel_stride (fl_planes l ! 0) = 1" "pl_pixel_stride (fl_planes l ! 1) = 2"
  shows "plane_covers (sp_luma (semi_view l data)) (width_of l) (height_of l)"
    and "2 * div_ceil (width_of l) 2 \<le> sp_uv_stride (semi_view l data)"
    and "(div_ceil (height_of l) 2 - 1) * sp_uv_stride (semi_view l data) + 2 * div_ceil (width_of l) 2
      \<le> length (sp_uv (semi_view l data))"
proof -
  note p = semiplanar_planes [OF conv f] and pos = convertible_pos [OF conv]
  have enc: "\<not> is_encoded (fl_format l)" using conv by simp
  show "plane_covers (sp_luma (semi_view l data)) (width_of l) (height_of l)"
    unfolding semi_view_planes(1) [OF s f] using view_covers [OF p(2) enc] pos by simp
  have "0 < div_ceil (width_of l) 2" using pos by (simp add: div_ceil_two_pos)
  then show "2 * div_ceil (width_of l) 2 \<le> sp_uv_stride (semi_view l data)"
    "(div_ceil (height_of l) 2 - 1) * sp_uv_stride (semi_view l data) + 2 * div_ceil (width_of l) 2
      \<le> length (sp_uv (semi_view l data))"
    using p(3) enc s(2) view_slice(2) [OF _ p(3) enc, of 0] p(1)
    by (auto simp: plane_fits_def semi_view_def)
qed

lemma packed422_plane:
  assumes conv: "convertible l data" and f: "fl_format l = Yuyv \<or> fl_format l = Uyvy"
  shows "length (fl_planes l) = 1" "even (width_of l)"
    "plane_fits (fl_format l) (length data) (fl_planes l ! 0) (width_of l, height_of l, 2)"
    "pl_pixel_stride (fl_planes l ! 0) = 2"
    "2 * width_of l \<le> pl_row_stride (fl_planes l ! 0)"
    "(height_of l - 1) * pl_row_stride (fl_planes l ! 0) + 2 * width_of l \<le> pl_length (fl_planes l ! 0)"
proof -
  obtain channels where p: "length (fl_planes l) = 1"
    "plane_specs (fl_format l) (width_of l) (height_of l) = Some [(width_of l, height_of l, channels)]"
    "plane_fits (fl_format l) (length data) (fl_planes l ! 0) (width_of l, height_of l, channels)"
    using packed_planes [OF conv] f by auto
  show "length (fl_planes l) = 1" by (rule p(1))
  show even: "even (width_of l)" using p(2) f by (auto split: if_splits)
  have channels: "channels = 2" using p(2) f by (auto split: if_splits)
  with p(3) show fits: "plane_fits (fl_format l) (length data) (fl_planes l ! 0) (width_of l, height_of l, 2)"
    by simp
  have "\<not> is_encoded (fl_format l)" "is_packed_422 (fl_format l)" "0 < width_of l"
    using conv f convertible_pos [OF conv] by (auto simp: is_packed_422_def)
  with fits show "pl_pixel_stride (fl_planes l ! 0) = 2"
    "2 * width_of l \<le> pl_row_stride (fl_planes l ! 0)"
    "(height_of l - 1) * pl_row_stride (fl_planes l ! 0) + 2 * width_of l \<le> pl_length (fl_planes l ! 0)"
    by (auto simp: plane_fits_def)
qed

lemma even_pair: "x < w \<Longrightarrow> even w \<Longrightarrow> 2 * (x div 2) + 1 < w" for x w :: nat
  by presburger

lemma packed422_reference:
  assumes conv: "convertible l data" and f: "fl_format l = Yuyv \<or> fl_format l = Uyvy"
    and i: "i < width_of l * height_of l"
  shows "yuv422_reference (fl_format l = Uyvy) c (yp_data (view l data 0 0))
      (pl_row_stride (fl_planes l ! 0)) (width_of l) i
    = source_pixel c l data (i div width_of l) (i mod width_of l)"
proof -
  let ?p = "fl_planes l ! 0" and ?y = "i div width_of l" and ?x = "i mod width_of l"
  note p = packed422_plane [OF conv f]
  note yx = image_index [OF i]
  have fits: "pl_offset ?p + pl_length ?p \<le> length data" using p(3) by (simp add: plane_fits_def)
  have at: "yp_data (view l data 0 0) ! (?y * pl_row_stride ?p + (2 * x + k)) = sample_at l data 0 ?y x k"
    if "x < width_of l" "k < 2" for x k
  proof -
    have "?y * pl_row_stride ?p \<le> (height_of l - 1) * pl_row_stride ?p"
      using yx(1) by (intro mult_le_mono1) simp
    then have "?y * pl_row_stride ?p + (2 * x + k) < pl_length ?p" using that p(6) by linarith
    with fits p(4) show ?thesis
      by (simp add: view_nth sample_at_def sample_byte_def add_ac mult.commute)
  qed
  have pair: "2 * (?x div 2) < width_of l" "2 * (?x div 2) + 1 < width_of l"
    using even_pair [OF yx(2) p(2)] by simp_all
  show ?thesis
    using at [OF yx(2), of 0] at [OF yx(2), of 1] at [OF pair(1), of 0] at [OF pair(1), of 1]
      at [OF pair(2), of 0] at [OF pair(2), of 1] f
    by (auto simp: yuv422_reference_def source_pixel_def Let_def add_ac numeral_3_eq_3)
qed

section \<open>Half and same size\<close>

lemma half_image:
  assumes dims: "width_of l = 2 * W" "height_of l = 2 * H" "0 < W" "0 < H" "\<not> fl_bottom_up l"
    and P: "\<And>i. i < width_of l * height_of l \<Longrightarrow>
      P i = source_pixel c l data (i div width_of l) (i mod width_of l)"
    and len: "length out = 3 * (W * H)"
  shows "filled (sampled (width_of l) P) (W * H) out = scaled_image c l data W H"
proof -
  have eq: "sampled (width_of l) P i = source_pixel c l data
      (nearest_y (height_of l) H (fl_bottom_up l) ! (i div W)) (nearest_x (width_of l) W ! (i mod W))"
    if "i < W * H" for i
  proof -
    note yx = image_index [OF that]
    let ?j = "width_of l * (2 * (i div W)) + 2 * (i mod W)"
    have x: "2 * (i mod W) < width_of l" using yx(2) dims(1) by simp
    then have j: "?j div width_of l = 2 * (i div W)" "?j mod width_of l = 2 * (i mod W)" by simp_all
    have "?j < width_of l * (2 * (i div W) + 1)" using x by simp
    also have "\<dots> \<le> width_of l * height_of l" using yx(1) dims(2) by (intro mult_le_mono2) simp
    finally have "P ?j = source_pixel c l data (2 * (i div W)) (2 * (i mod W))"
      using P j by simp
    moreover have "nearest_y (height_of l) H (fl_bottom_up l) ! (i div W) = 2 * (i div W)"
      "nearest_x (width_of l) W ! (i mod W) = 2 * (i mod W)"
      using yx dims by (simp_all add: nearest_y_def nearest_x_def)
    moreover have "sampled (width_of l) P i = P ?j" using dims(1) by (simp add: sampled_def)
    ultimately show ?thesis by metis
  qed
  have "length (scaled_image c l data W H) = length out"
    using len by (simp add: scaled_image_def length_parts)
  moreover have "filled (sampled (width_of l) P) (W * H) out
      = filled (\<lambda>i. source_pixel c l data
      (nearest_y (height_of l) H (fl_bottom_up l) ! (i div W)) (nearest_x (width_of l) W ! (i mod W))) (W * H) out"
    by (rule filled_cong) (rule eq)
  ultimately show ?thesis by (simp add: scaled_image_def filled_all)
qed

lemma same_image:
  assumes conv: "convertible l data" and top: "\<not> fl_bottom_up l"
    and P: "\<And>i. i < width_of l * height_of l \<Longrightarrow>
      P i = source_pixel c l data (i div width_of l) (i mod width_of l)"
    and len: "length out = 3 * (width_of l * height_of l)"
  shows "filled P (width_of l * height_of l) out = scaled_image c l data (width_of l) (height_of l)"
proof -
  have "P i = source_pixel c l data
      (nearest_y (height_of l) (height_of l) (fl_bottom_up l) ! (i div width_of l))
      (nearest_x (width_of l) (width_of l) ! (i mod width_of l))"
    if "i < width_of l * height_of l" for i
    using P [OF that] image_index [OF that] top by (simp add: nearest_y_def nearest_x_def)
  then have "filled P (width_of l * height_of l) out = filled (\<lambda>i. source_pixel c l data
      (nearest_y (height_of l) (height_of l) (fl_bottom_up l) ! (i div width_of l))
      (nearest_x (width_of l) (width_of l) ! (i mod width_of l))) (width_of l * height_of l) out"
    by (rule filled_cong)
  also have "\<dots> = scaled_image c l data (width_of l) (height_of l)"
    unfolding scaled_image_def using len by (intro filled_all) (simp add: length_parts)
  finally show ?thesis .
qed

lemma exact_half:
  assumes "direct_half_path l q \<noteq> None"
  shows "is_exact_half l q"
    and "(fl_format l = Nv12 \<or> fl_format l = Nv21) \<and> plane_pixel_stride l 0 = 1 \<and> plane_pixel_stride l 1 = 2
      \<or> (fl_format l = Yuyv \<or> fl_format l = Uyvy)
      \<or> fl_format l = Yuv420p \<and> length (fl_planes l) = 3 \<and> list_all (\<lambda>p. pl_pixel_stride p = 1) (fl_planes l)"
  using assms by (auto simp: direct_half_path_def split: if_splits)

lemma half_dimensions:
  assumes "is_exact_half l q"
  shows "width_of l = 2 * unat (qr_width q)" "height_of l = 2 * unat (qr_height q)" "\<not> fl_bottom_up l"
  using assms by (auto simp: is_exact_half_def Let_def)

lemma even_div_ceil: "div_ceil (2 * n) 2 = n"
  by (simp add: div_ceil_def)

lemma convert_half_exact:
  assumes conv: "convertible l data" and path: "direct_half_path l q \<noteq> None"
    and len: "length out = 3 * (unat (qr_width q) * unat (qr_height q))" "length out < usize_bound"
  shows "convert_half avx2 l data c out
    = Ok (scaled_image c l data (unat (qr_width q)) (unat (qr_height q)))"
proof -
  let ?W = "unat (qr_width q)" and ?H = "unat (qr_height q)"
  note dims = half_dimensions [OF exact_half(1) [OF path]]
  have pos: "0 < ?W" "0 < ?H" using convertible_pos [OF conv] dims by auto
  have div2: "width_of l div 2 = ?W" "height_of l div 2 = ?H" "even (width_of l)" "even (height_of l)"
    using dims by simp_all
  note image = half_image [OF dims(1,2) pos dims(3) _ len(1), of _ c data]
  have enc: "\<not> is_encoded (fl_format l)" using conv by simp
  from exact_half(2) [OF path] consider
    (semi) "fl_format l = Nv12 \<or> fl_format l = Nv21" "pl_pixel_stride (fl_planes l ! 0) = 1"
      "pl_pixel_stride (fl_planes l ! 1) = 2"
    | (packed) "fl_format l = Yuyv \<or> fl_format l = Uyvy"
    | (planar) "fl_format l = Yuv420p" "length (fl_planes l) = 3"
      "list_all (\<lambda>p. pl_pixel_stride p = 1) (fl_planes l)"
    by (auto simp: plane_pixel_stride_def)
  then show ?thesis
  proof cases
    case semi
    note accepts = semi_view_accepts [OF conv semi]
    have "yuv420sp_half_accepts (semi_view l data) (width_of l) (height_of l) out"
      using accepts div2 len(1) by (simp add: yuv420sp_half_accepts_def dims even_div_ceil)
    then have "yuv420sp_to_rgb_half_with_coefficients_into avx2 (semi_view l data) (width_of l) (height_of l) c out
        = Ok (filled (sampled (width_of l) (sp_reference c (semi_view l data) (width_of l))) (?W * ?H) out)"
      using yuv420sp_half_total [of "semi_view l data" out "width_of l" "height_of l" avx2 c]
        view_bound [OF conv] len(2) div2 by (simp add: semi_view_def)
    also have "\<dots> = Ok (scaled_image c l data ?W ?H)"
      unfolding semi_view_planes [OF semi(2,3,1)]
      by (rule arg_cong [of _ _ Ok], rule image, rule semiplanar_reference [OF conv semi(1)])
    finally show ?thesis
      using semi(1) by (simp add: convert_half_def Let_def semi_planes_view [OF conv semi(1)])
  next
    case packed
    note p = packed422_plane [OF conv packed]
    note v = view_slice [OF _ p(3) enc, of 0]
    let ?stride = "pl_row_stride (fl_planes l ! 0)"
    have "yuv422_half_accepts (yp_data (view l data 0 0)) (width_of l) (height_of l) ?stride out"
      using p v(2) div2 len(1) convertible_pos [OF conv] by (simp add: yuv422_half_accepts_def)
    then have "yuv422_to_rgb_half_with_coefficients_into avx2 (yp_data (view l data 0 0)) (width_of l)
        (height_of l) ?stride (fl_format l = Uyvy) c out
      = Ok (filled (sampled (width_of l) (yuv422_reference (fl_format l = Uyvy) c (yp_data (view l data 0 0))
          ?stride (width_of l))) (?W * ?H) out)"
      using yuv422_half_total [of "yp_data (view l data 0 0)" out "width_of l" "height_of l" ?stride avx2
          "fl_format l = Uyvy" c] view_bound [OF conv] len(2) div2 by simp
    also have "\<dots> = Ok (scaled_image c l data ?W ?H)"
      by (rule arg_cong [of _ _ Ok], rule image, rule packed422_reference [OF conv packed])
    finally show ?thesis
      using packed v(1) p(1) by (auto simp: convert_half_def Let_def)
  next
    case planar
    note p = planar_planes [OF conv planar(1)]
    have enc': "\<not> is_encoded Yuv420p" by (simp add: is_encoded_def)
    have ps: "pl_pixel_stride (fl_planes l ! i) = 1" if "i < 3" for i
      using planar(2,3) that by (simp add: list_all_length)
    note v = view_slice(1) [OF _ p(2) enc', of 0] view_slice(1) [OF _ p(3) enc', of 0]
      view_slice(1) [OF _ p(4) enc', of 0]
    have "yuv420_half_accepts (view l data 0 0) (view l data 1 0) (view l data 2 0) (width_of l) (height_of l) out"
      using view_covers [OF p(2) enc', of 0] view_covers [OF p(3) enc', of 0] view_covers [OF p(4) enc', of 0]
        pos div2 len(1) ps
      by (simp add: yuv420_half_accepts_def dims even_div_ceil)
    then have "yuv420_to_rgb_half_with_coefficients_into avx2 (view l data 0 0) (view l data 1 0)
        (view l data 2 0) (width_of l) (height_of l) c out
      = Ok (filled (sampled (width_of l) (reference_pixel c (view l data 0 0) (view l data 1 0)
          (view l data 2 0) (width_of l))) (?W * ?H) out)"
      using yuv420_half_total [of "view l data 0 0" "view l data 1 0" "view l data 2 0" out "width_of l"
          "height_of l" avx2 c] view_bound [OF conv] len(2) div2 by simp
    also have "\<dots> = Ok (scaled_image c l data ?W ?H)"
      by (rule arg_cong [of _ _ Ok], rule image, rule planar_reference [OF conv planar(1)])
    finally show ?thesis
      using planar v by (simp add: convert_half_def Let_def)
  qed
qed

section \<open>Same size\<close>

lemma packed_reference:
  assumes conv: "convertible l data" and f: "fl_format l \<in> {Rgba8, Bgra8, Argb8}"
    and ps: "pl_pixel_stride (fl_planes l ! 0) = 4" and i: "i < width_of l * height_of l"
    and rgb: "(r, g, b) = (case fl_format l of Rgba8 \<Rightarrow> (0, 1, 2) | Bgra8 \<Rightarrow> (2, 1, 0) | _ \<Rightarrow> (1, 2, 3))"
  shows "packed_8888_reference r g b (yp_data (view l data 0 0)) (pl_row_stride (fl_planes l ! 0))
      (width_of l) i = source_pixel c l data (i div width_of l) (i mod width_of l)"
proof -
  let ?p = "fl_planes l ! 0" and ?y = "i div width_of l" and ?x = "i mod width_of l"
  have fits: "plane_fits (fl_format l) (length data) ?p (width_of l, height_of l, 4)"
    using packed_planes [OF conv] f by auto
  note yx = image_index [OF i]
  have enc: "\<not> is_encoded (fl_format l)" using conv by simp
  have "sample_byte ?p ?y ?x k < pl_offset ?p + pl_length ?p" if "k < 4" for k
    by (rule plane_fits_bound(1) [OF fits enc yx that])
  then have at: "yp_data (view l data 0 0) ! (?y * pl_row_stride ?p + 4 * ?x + k) = sample_at l data 0 ?y ?x k"
    if "k < 4" for k
    using fits ps that view_nth [of "?y * pl_row_stride ?p + 4 * ?x + k" l 0 0 data]
    by (simp add: plane_fits_def sample_at_def sample_byte_def add_ac mult.commute)
  show ?thesis
    using at [of 0] at [of 1] at [of 2] at [of 3] f rgb
    by (auto simp: packed_8888_reference_def source_pixel_def Let_def add_ac)
qed

lemma packed_accepts:
  assumes conv: "convertible l data" and f: "fl_format l \<in> {Rgba8, Bgra8, Argb8}"
    and ps: "pl_pixel_stride (fl_planes l ! 0) = 4" and len: "length out = 3 * (width_of l * height_of l)"
  shows "packed_8888_accepts (yp_data (view l data 0 0)) (width_of l) (height_of l)
    (pl_row_stride (fl_planes l ! 0)) out"
    and "plane_slice l data 0 0 = Ok (view l data 0 0)"
proof -
  have p: "length (fl_planes l) = 1" "plane_fits (fl_format l) (length data) (fl_planes l ! 0) (width_of l, height_of l, 4)"
    using packed_planes [OF conv] f by auto
  have enc: "\<not> is_encoded (fl_format l)" using conv by simp
  note v = view_slice [OF _ p(2) enc, of 0]
  show "plane_slice l data 0 0 = Ok (view l data 0 0)" using v(1) p(1) by simp
  have "(width_of l - 1) * 4 + 4 = 4 * width_of l" using convertible_pos [OF conv] by simp
  then show "packed_8888_accepts (yp_data (view l data 0 0)) (width_of l) (height_of l)
    (pl_row_stride (fl_planes l ! 0)) out"
    using p v(2) enc ps convertible_pos [OF conv] len
    by (simp add: packed_8888_accepts_def plane_fits_def)
qed

text \<open>A row of packed RGB is the row of its pixels.\<close>

lemma rgb_row:
  assumes conv: "convertible l data" and f: "fl_format l = Rgb8" and ps: "pl_pixel_stride (fl_planes l ! 0) = 3"
    and y: "y < height_of l"
  shows "take (3 * width_of l) (drop (pl_offset (fl_planes l ! 0) + y * pl_row_stride (fl_planes l ! 0)) data)
      = parts (source_pixel c l data y) (width_of l)"
    and "y * pl_row_stride (fl_planes l ! 0) + 3 * width_of l \<le> pl_length (fl_planes l ! 0)"
    and "pl_offset (fl_planes l ! 0) + pl_length (fl_planes l ! 0) \<le> length data"
proof -
  let ?p = "fl_planes l ! 0"
  have fits: "plane_fits (fl_format l) (length data) ?p (width_of l, height_of l, 3)"
    using packed_planes [OF conv] f by auto
  then show le: "pl_offset ?p + pl_length ?p \<le> length data" by (simp add: plane_fits_def)
  have "(width_of l - 1) * 3 + 3 = 3 * width_of l" using convertible_pos [OF conv] by simp
  then have "(height_of l - 1) * pl_row_stride ?p + 3 * width_of l \<le> pl_length ?p"
    using fits ps conv by (simp add: plane_fits_def)
  moreover have "y * pl_row_stride ?p \<le> (height_of l - 1) * pl_row_stride ?p"
    using y by (intro mult_le_mono1) simp
  ultimately show fit: "y * pl_row_stride ?p + 3 * width_of l \<le> pl_length ?p" by linarith
  let ?s = "take (3 * width_of l) (drop (pl_offset ?p + y * pl_row_stride ?p) data)"
  have len: "length ?s = 3 * width_of l" using le fit by simp
  have "row_pixel ?s x = source_pixel c l data y x" if "x < width_of l" for x
    using that le fit f ps
    by (simp add: row_pixel_def source_pixel_def Let_def sample_at_def sample_byte_def add_ac mult.commute)
  then show "?s = parts (source_pixel c l data y) (width_of l)"
    using bytes_as_pixels [OF len] parts_cong [of "width_of l" "row_pixel ?s"] by metis
qed

lemma view_row:
  assumes "y * pl_row_stride (fl_planes l ! i) + n \<le> pl_length (fl_planes l ! i)"
    "pl_offset (fl_planes l ! i) + pl_length (fl_planes l ! i) \<le> length data"
  shows "sub_slice (yp_data (view l data i 0)) (y * pl_row_stride (fl_planes l ! i)) n
    = Ok (take n (drop (pl_offset (fl_planes l ! i) + y * pl_row_stride (fl_planes l ! i)) data))"
  using assms by (simp add: sub_slice_def view_def Let_def drop_take min_def add.commute) arith

lemma copy_rgb_rows:
  assumes conv: "convertible l data" and f: "fl_format l = Rgb8" and ps: "pl_pixel_stride (fl_planes l ! 0) = 3"
    and top: "\<not> fl_bottom_up l" and len: "length out = 3 * (width_of l * height_of l)"
  shows "(for_each (\<lambda>y out. modify_slice out (y * width_of l * 3) (width_of l * 3)
      (\<lambda>_. sub_slice (yp_data (view l data 0 0)) (y * pl_row_stride (fl_planes l ! 0)) (width_of l * 3)))
      [0..<height_of l] out :: (u8 list) camera_result) = Ok (scaled_image c l data (width_of l) (height_of l))"
proof -
  let ?P = "\<lambda>i. source_pixel c l data (i div width_of l) (i mod width_of l)"
  let ?row = "\<lambda>y (_ :: u8 list). sub_slice (yp_data (view l data 0 0)) (y * pl_row_stride (fl_planes l ! 0))
    (width_of l * 3) :: (u8 list) camera_result"
  have row: "?row y out' = Ok (parts (\<lambda>i. ?P (width_of l * y + i)) (width_of l))" if "y < height_of l" for y out'
  proof -
    note r = rgb_row(1) [OF conv f ps that, of c] rgb_row(2,3) [OF conv f ps that]
    have "parts (\<lambda>i. ?P (width_of l * y + i)) (width_of l) = parts (source_pixel c l data y) (width_of l)"
      by (intro parts_cong) simp
    then show ?thesis
      using view_row [OF _ r(3), of y "3 * width_of l"] r(1,2) by (simp add: mult.commute)
  qed
  have "for_each (\<lambda>y out. modify_slice out (y * width_of l * 3) (width_of l * 3) (?row y))
      [0..<height_of l] out = Ok (filled ?P (width_of l * height_of l) out)"
    by (rule group_loop [where f = ?row]) (use row len in \<open>simp_all add: mult_ac\<close>)
  also have "\<dots> = Ok (scaled_image c l data (width_of l) (height_of l))"
    by (rule arg_cong [of _ _ Ok], rule same_image [OF conv top _ len]) simp
  finally show ?thesis .
qed

lemma convert_same_size_exact:
  assumes conv: "convertible l data" and top: "\<not> fl_bottom_up l"
    and coeff: "is_yuv (fl_format l) \<Longrightarrow> coeff = Some c"
    and len: "length out = 3 * (width_of l * height_of l)" "length out < usize_bound"
  shows "convert_same_size avx2 has_ssse3 l data coeff out
      = Ok (Some (scaled_image c l data (width_of l) (height_of l)))
    \<or> convert_same_size avx2 has_ssse3 l data coeff out = Ok None \<and> \<not> is_yuv (fl_format l)"
proof -
  let ?image = "scaled_image c l data (width_of l) (height_of l)"
  let ?p = "fl_planes l ! 0" and ?s = "yp_data (view l data 0 0)"
  have enc: "\<not> is_encoded (fl_format l)" using conv by simp
  have image: "Ok (filled P (width_of l * height_of l) out) = (Ok ?image :: (u8 list) camera_result)"
    if "\<And>i. i < width_of l * height_of l \<Longrightarrow> P i = source_pixel c l data (i div width_of l) (i mod width_of l)" for P
    using same_image [OF conv top that len(1)] by simp
  consider (rgb) "fl_format l = Rgb8" "pl_pixel_stride ?p = 3"
    | (alpha) "fl_format l \<in> {Rgba8, Bgra8, Argb8}" "pl_pixel_stride ?p = 4"
    | (planar) "fl_format l = Yuv420p"
    | (semi) "fl_format l = Nv12 \<or> fl_format l = Nv21"
    | (packed) "fl_format l = Yuyv \<or> fl_format l = Uyvy"
    | (other) "fl_format l \<in> {Rgb8, Bgr8, Rgba8, Bgra8, Argb8, Gray8}"
      "\<not> (fl_format l = Rgb8 \<and> pl_pixel_stride ?p = 3)"
      "\<not> (fl_format l \<in> {Rgba8, Bgra8, Argb8} \<and> pl_pixel_stride ?p = 4)"
    using enc by (cases "fl_format l") (auto simp: is_encoded_def)
  then show ?thesis
  proof cases
    case rgb
    have "\<exists>channels. length (fl_planes l) = 1
        \<and> plane_fits (fl_format l) (length data) ?p (width_of l, height_of l, channels) \<and> 0 < channels"
      using packed_planes [OF conv] rgb by auto
    then obtain channels where p: "length (fl_planes l) = 1"
      "plane_fits (fl_format l) (length data) ?p (width_of l, height_of l, channels)" "0 < channels" by blast
    then have "plane_slice l data 0 0 = Ok (view l data 0 0)"
      using view_slice(1) [OF _ p(2) enc, of 0] p(1) by simp
    then show ?thesis
      using rgb copy_rgb_rows [OF conv rgb top len(1), of c]
      by (simp add: convert_same_size_def Let_def)
  next
    case alpha
    note a = packed_accepts [OF conv alpha len(1)]
    have total: "packed_8888_to_rgb_into avx2 has_ssse3 r g b ?s (width_of l) (height_of l) (pl_row_stride ?p) out
        = Ok ?image"
      if "(r, g, b) = (case fl_format l of Rgba8 \<Rightarrow> (0, 1, 2) | Bgra8 \<Rightarrow> (2, 1, 0) | _ \<Rightarrow> (1, 2, 3))"
        "r < 4" "g < 4" "b < 4" for r g b
    proof -
      have "packed_8888_to_rgb_into avx2 has_ssse3 r g b ?s (width_of l) (height_of l) (pl_row_stride ?p) out
        = Ok (filled (packed_8888_reference r g b ?s (pl_row_stride ?p) (width_of l)) (width_of l * height_of l) out)"
        using packed_8888_total [OF view_bound [OF conv] len(2) that(2-4)] a(1) by simp
      then show ?thesis using image [OF packed_reference [OF conv alpha _ that(1)]] by simp
    qed
    have "fl_format l \<noteq> Rgb8" using alpha by auto
    with alpha a(2) total [of 0 1 2] total [of 2 1 0] total [of 1 2 3] show ?thesis
      by (auto simp: convert_same_size_def Let_def rgba8888_to_rgb_into_def bgra8888_to_rgb_into_def
          argb8888_to_rgb_into_def)
  next
    case planar
    note p = planar_planes [OF conv planar]
    have enc': "\<not> is_encoded Yuv420p" by (simp add: is_encoded_def)
    note v = view_slice(1) [OF _ p(2) enc', of 0] view_slice(1) [OF _ p(3) enc', of 0]
      view_slice(1) [OF _ p(4) enc', of 0]
    have "yuv420_accepts (view l data 0 0) (view l data 1 0) (view l data 2 0) (width_of l) (height_of l) out"
      using view_covers [OF p(2) enc', of 0] view_covers [OF p(3) enc', of 0] view_covers [OF p(4) enc', of 0]
        convertible_pos [OF conv] len(1) by (simp add: yuv420_accepts_def div_ceil_two_pos)
    then have "yuv420_to_rgb_with_coefficients_into avx2 (view l data 0 0) (view l data 1 0) (view l data 2 0)
        (width_of l) (height_of l) c out = Ok ?image"
      using yuv420_total [of "view l data 0 0" "view l data 1 0" "view l data 2 0" out "width_of l" "height_of l"
          avx2 c] view_bound [OF conv] len(2) image [OF planar_reference [OF conv planar]] by simp
    then show ?thesis
      using planar v p(1) coeff by (simp add: convert_same_size_def Let_def is_yuv_def unwrap_def)
  next
    case semi
    note p = semiplanar_planes [OF conv semi]
    note v = view_slice(1) [OF _ p(2) enc, of 0] view_slice(1) [OF _ p(3) enc, of 0]
      view_slice(1) [OF _ p(3) enc, of 1]
    have c: "coeff = Some c" using semi coeff by (auto simp: is_yuv_def)
    let ?u = "view l data 1 (if fl_format l = Nv12 then 0 else 1)"
    let ?v = "view l data 1 (if fl_format l = Nv12 then 1 else 0)"
    note cover = view_covers [OF p(2) enc, of 0] view_covers [OF p(3) enc, of 0] view_covers [OF p(3) enc, of 1]
    have accepts: "yuv420_accepts (view l data 0 0) ?u ?v (width_of l) (height_of l) out"
      using cover convertible_pos [OF conv] len(1) by (simp add: yuv420_accepts_def div_ceil_two_pos)
    have planar: "yuv420_to_rgb_with_coefficients_into avx2 (view l data 0 0) ?u ?v (width_of l) (height_of l) c out
        = Ok ?image"
      using yuv420_total [of "view l data 0 0" ?u ?v out "width_of l" "height_of l" avx2 c] accepts
        view_bound [OF conv] len(2) image [OF semiplanar_reference [OF conv semi]] by simp
    show ?thesis
    proof (cases "pl_pixel_stride ?p = 1 \<and> pl_pixel_stride (fl_planes l ! 1) = 2")
      case True
      then have s: "pl_pixel_stride ?p = 1" "pl_pixel_stride (fl_planes l ! 1) = 2" by auto
      have "yuv420sp_accepts (semi_view l data) (width_of l) (height_of l) out"
        using semi_view_accepts [OF conv semi s] len(1) by (simp add: yuv420sp_accepts_def)
      then have "yuv420sp_to_rgb_with_coefficients_into avx2 (semi_view l data) (width_of l) (height_of l) c out
          = Ok (filled (sp_reference c (semi_view l data) (width_of l)) (width_of l * height_of l) out)"
        using yuv420sp_total [of "semi_view l data" out "width_of l" "height_of l" avx2 c]
          view_bound [OF conv] len(2) by (simp add: semi_view_def)
      also have "\<dots> = Ok ?image"
        unfolding semi_view_planes [OF s semi] by (rule image, rule semiplanar_reference [OF conv semi])
      finally show ?thesis
        using semi v p(1) c s semi_planes_view [OF conv semi]
        by (auto simp: convert_same_size_def Let_def unwrap_def index_at_def)
    next
      case False
      then show ?thesis
        using semi v p(1) c planar by (auto simp: convert_same_size_def Let_def unwrap_def index_at_def)
    qed
  next
    case packed
    note p = packed422_plane [OF conv packed]
    note v = view_slice [OF _ p(3) enc, of 0]
    have "yuv422_accepts ?s (width_of l) (height_of l) (pl_row_stride ?p) out"
      using p v(2) convertible_pos [OF conv] len(1) by (simp add: yuv422_accepts_def)
    then have "yuv422_to_rgb_with_coefficients_into avx2 ?s (width_of l) (height_of l) (pl_row_stride ?p)
        (fl_format l = Uyvy) c out = Ok ?image"
      using yuv422_total [of ?s out "width_of l" "height_of l" "pl_row_stride ?p" avx2
          "fl_format l = Uyvy" c] view_bound [OF conv] len(2) image [OF packed422_reference [OF conv packed]] by simp
    then show ?thesis
      using packed v(1) p(1) coeff by (auto simp: convert_same_size_def Let_def is_yuv_def unwrap_def)
  next
    case other
    have "\<exists>channels. length (fl_planes l) = 1
        \<and> plane_fits (fl_format l) (length data) ?p (width_of l, height_of l, channels) \<and> 0 < channels"
      using packed_planes [OF conv] other(1) by auto
    then have "plane_slice l data 0 0 = Ok (view l data 0 0)"
      using view_slice(1) [OF _ _ enc] by fastforce
    then show ?thesis using other by (auto simp: convert_same_size_def Let_def is_yuv_def)
  qed
qed

end
