(* ===== verification/Conversion_Scaled.thy ===== *)
theory Conversion_Scaled
  imports Conversion_Paths
begin

text \<open>
  The scaling paths of \<open>convert_layout_into\<close>: pixel by pixel, and by converting source rows, one or
  two at a time, into a scratch buffer and taking the mapped pixels from there.
\<close>

section \<open>Pixel by pixel\<close>

lemma packed_bytes:
  assumes conv: "convertible l data" and f: "fl_format l \<in> {Rgb8, Bgr8, Rgba8, Bgra8, Argb8, Gray8}"
    and yx: "y < height_of l" "x < width_of l"
  shows "rgb_bytes (fl_format l) data
      (pl_offset (fl_planes l ! 0) + y * pl_row_stride (fl_planes l ! 0) + x * pl_pixel_stride (fl_planes l ! 0))
    = Ok (source_pixel c l data y x)"
proof -
  let ?p = "fl_planes l ! 0"
  let ?o = "pl_offset ?p + y * pl_row_stride ?p + x * pl_pixel_stride ?p"
  obtain channels where specs:
    "plane_specs (fl_format l) (width_of l) (height_of l) = Some [(width_of l, height_of l, channels)]"
    and fits: "plane_fits (fl_format l) (length data) ?p (width_of l, height_of l, channels)"
    using packed_planes [OF conv] f by auto
  have enc: "\<not> is_encoded (fl_format l)" using conv by simp
  have at: "data ! (?o + k) = sample_at l data 0 y x k" for k
    by (simp add: sample_at_def sample_byte_def)
  have bound: "?o + k < length data" if "k < channels" for k
    using plane_fits_bound(2) [OF fits enc yx that] by (simp add: sample_byte_def)
  have slice: "sub_slice data (?o + k) 3
      = Ok [sample_at l data 0 y x k, sample_at l data 0 y x (k + 1), sample_at l data 0 y x (k + 2)]"
    if "k + 3 \<le> channels" for k
    using bound [of "k + 2"] that at [of k] at [of "k + 1"] at [of "k + 2"]
    by (simp add: sub_slice_def three_bytes add.assoc)
  have slice0: "sub_slice data ?o 3 = Ok [sample_at l data 0 y x 0, sample_at l data 0 y x 1, sample_at l data 0 y x 2]"
    if "3 \<le> channels" using slice [of 0] that by (simp add: numeral_2_eq_2)
  have slice1: "sub_slice data (?o + 1) 3 = Ok [sample_at l data 0 y x 1, sample_at l data 0 y x 2, sample_at l data 0 y x 3]"
    if "4 \<le> channels" using slice [of 1] that by (simp add: eval_nat_numeral)
  show ?thesis
    using f specs slice0 slice1 bound [of 0] at [of 0]
    by (auto simp: rgb_bytes_def source_pixel_def Let_def index_at_def)
qed

lemma mapped_rows:
  assumes "0 < W" "length out = 3 * (W * H)"
    and "\<And>i row. i < H \<Longrightarrow> length row = 3 * W \<Longrightarrow>
      f (nearest_y (height_of l) H (fl_bottom_up l) ! i) row =
      Ok (parts (\<lambda>j. source_pixel c l data (nearest_y (height_of l) H (fl_bottom_up l) ! i)
        (nearest_x (width_of l) W ! j)) W)"
  shows "for_destination_rows (W * 3) (nearest_y (height_of l) H (fl_bottom_up l)) f out
    = Ok (scaled_image c l data W H)"
  unfolding scaled_image_def
  using for_destination_rows_parts [of W out H "nearest_y (height_of l) H (fl_bottom_up l)"
      "\<lambda>i j. source_pixel c l data (nearest_y (height_of l) H (fl_bottom_up l) ! i)
        (nearest_x (width_of l) W ! j)" f] assms
  by simp

lemma resize_source_row:
  assumes "length s = 3 * width_of l" "length row = 3 * W" "0 < W" "0 < width_of l"
    and "\<And>x. x < width_of l \<Longrightarrow> row_pixel s x = source_pixel c l data y x"
  shows "resize_rgb_row_nearest s row (nearest_x (width_of l) W)
    = Ok (parts (\<lambda>j. source_pixel c l data y (nearest_x (width_of l) W ! j)) W)"
proof -
  have "parts (\<lambda>j. row_pixel s (nearest_x (width_of l) W ! j)) W
      = parts (\<lambda>j. source_pixel c l data y (nearest_x (width_of l) W ! j)) W"
    using assms(4,5) by (intro parts_cong) (simp add: nearest_x_less)
  then show ?thesis using resize_row [OF assms(1-4)] by simp
qed

lemma scale_nearest_exact:
  assumes conv: "convertible l data" and f: "\<not> is_yuv (fl_format l)"
    and W: "0 < W" and len: "length out = 3 * (W * H)"
  shows "scale_nearest l data out W (nearest_x (width_of l) W) (nearest_y (height_of l) H (fl_bottom_up l))
    = Ok (scaled_image c l data W H)"
proof -
  let ?p = "fl_planes l ! 0" and ?ny = "nearest_y (height_of l) H (fl_bottom_up l)"
  let ?nx = "nearest_x (width_of l) W"
  note pos = convertible_pos [OF conv]
  have enc: "\<not> is_encoded (fl_format l)" using conv by simp
  have format: "fl_format l \<in> {Rgb8, Bgr8, Rgba8, Bgra8, Argb8, Gray8}"
    using f enc by (cases "fl_format l") (auto simp: is_yuv_def is_encoded_def)
  have plane: "length (fl_planes l) = 1" using packed_planes [OF conv] format by auto
  have row: "(let row = pl_offset ?p + sy * pl_row_stride ?p
        in if fl_format l = Rgb8 \<and> pl_pixel_stride ?p = 3
           then and_then (sub_slice data row (width_of l * 3)) (\<lambda>source_row.
             resize_rgb_row_nearest source_row row_out ?nx)
           else for_pixels ?nx (\<lambda>sx. rgb_bytes (fl_format l) data (row + sx * pl_pixel_stride ?p)) row_out)
      = Ok (parts (\<lambda>j. source_pixel c l data sy (?nx ! j)) W)"
    if sy: "sy < height_of l" and out: "length row_out = 3 * W" for sy row_out
  proof (cases "fl_format l = Rgb8 \<and> pl_pixel_stride ?p = 3")
    case True
    note r = rgb_row(1) [OF conv _ _ sy, of c] rgb_row(2,3) [OF conv _ _ sy]
    let ?s = "take (3 * width_of l) (drop (pl_offset ?p + sy * pl_row_stride ?p) data)"
    have "?s = parts (source_pixel c l data sy) (width_of l)" using r(1) True by blast
    then have "row_pixel ?s x = source_pixel c l data sy x" if "x < width_of l" for x
      using that by (simp add: parts_row_pixel)
    moreover have fit: "pl_offset ?p + sy * pl_row_stride ?p + 3 * width_of l \<le> length data"
      using r(2,3) True by simp
    ultimately have "resize_rgb_row_nearest ?s row_out ?nx
        = Ok (parts (\<lambda>j. source_pixel c l data sy (?nx ! j)) W)"
      by (intro resize_source_row out W pos(1)) simp_all
    then show ?thesis using True fit by (simp add: sub_slice_def Let_def mult.commute)
  next
    case False
    have "for_pixels ?nx (\<lambda>sx. rgb_bytes (fl_format l) data
        (pl_offset ?p + sy * pl_row_stride ?p + sx * pl_pixel_stride ?p)) row_out
      = Ok (parts (\<lambda>j. source_pixel c l data sy (?nx ! j)) W)"
    proof (rule for_pixels_parts)
      fix j
      assume "j < W"
      then have "?nx ! j < width_of l" using pos(1) by (rule nearest_x_less)
      then show "rgb_bytes (fl_format l) data (pl_offset ?p + sy * pl_row_stride ?p
          + ?nx ! j * pl_pixel_stride ?p) = Ok (source_pixel c l data sy (?nx ! j))"
        by (rule packed_bytes [OF conv format sy])
    qed (use out in simp_all)
    with False show ?thesis by (auto simp: Let_def)
  qed
  have "scale_nearest l data out W ?nx ?ny = for_destination_rows (W * 3) ?ny (\<lambda>sy row_out.
      let row = pl_offset ?p + sy * pl_row_stride ?p
      in if fl_format l = Rgb8 \<and> pl_pixel_stride ?p = 3
         then and_then (sub_slice data row (width_of l * 3)) (\<lambda>source_row.
           resize_rgb_row_nearest source_row row_out ?nx)
         else for_pixels ?nx (\<lambda>sx. rgb_bytes (fl_format l) data (row + sx * pl_pixel_stride ?p)) row_out) out"
    using plane f enc by (simp add: scale_nearest_def index_at_def)
  also have "\<dots> = Ok (scaled_image c l data W H)"
    by (rule mapped_rows [OF W len], rule row) (simp_all add: nearest_y_less pos)
  finally show ?thesis .
qed

lemma yuv_bytes_exact:
  assumes conv: "convertible l data" and f: "is_yuv (fl_format l)"
    and yx: "y < height_of l" "x < width_of l"
  shows "and_then (yuv_bytes l data y x) (\<lambda>(y, u, v). Ok (yuv_pixel c y u v)) = Ok (source_pixel c l data y x)"
proof -
  have enc: "\<not> is_encoded (fl_format l)" using conv by simp
  note half = half_less_div_ceil [OF yx(1)] half_less_div_ceil [OF yx(2)]
  have at: "data ! (pl_offset (fl_planes l ! i) + y * pl_row_stride (fl_planes l ! i)
      + x * pl_pixel_stride (fl_planes l ! i) + k) = sample_at l data i y x k" for i y x k
    by (simp add: sample_at_def sample_byte_def)
  consider (planar) "fl_format l = Yuv420p" | (semi) "fl_format l = Nv12 \<or> fl_format l = Nv21"
    | (packed) "fl_format l = Yuyv \<or> fl_format l = Uyvy"
    using f by (auto simp: is_yuv_def)
  then show ?thesis
  proof cases
    case planar
    note p = planar_planes [OF conv planar]
    have enc': "\<not> is_encoded Yuv420p" by (simp add: is_encoded_def)
    show ?thesis
      using planar p(1) plane_fits_bound(2) [OF p(2) enc' yx, of 0]
        plane_fits_bound(2) [OF p(3) enc' half, of 0] plane_fits_bound(2) [OF p(4) enc' half, of 0]
      by (simp add: yuv_bytes_def source_pixel_def sample_at_def sample_byte_def Let_def index_at_def)
  next
    case semi
    note p = semiplanar_planes [OF conv semi]
    show ?thesis
      using semi p(1) plane_fits_bound(2) [OF p(2) enc yx, of 0]
        plane_fits_bound(2) [OF p(3) enc half, of 0] plane_fits_bound(2) [OF p(3) enc half, of 1]
      by (auto simp: yuv_bytes_def source_pixel_def sample_at_def sample_byte_def Let_def index_at_def)
  next
    case packed
    note p = packed422_plane [OF conv packed]
    note pair = even_pair [OF yx(2) p(2)]
    have pair': "2 * (x div 2) < width_of l" using pair by simp
    show ?thesis
      using packed p(1,4) plane_fits_bound(2) [OF p(3) enc yx, of 0] plane_fits_bound(2) [OF p(3) enc yx, of 1]
        plane_fits_bound(2) [OF p(3) enc yx(1) pair, of 0] plane_fits_bound(2) [OF p(3) enc yx(1) pair, of 1]
        plane_fits_bound(2) [OF p(3) enc yx(1) pair', of 0] plane_fits_bound(2) [OF p(3) enc yx(1) pair', of 1]
      by (auto simp: yuv_bytes_def source_pixel_def sample_at_def sample_byte_def Let_def index_at_def
          add_ac numeral_3_eq_3 mult.commute)
  qed
qed

lemma scale_yuv_scalar_exact:
  assumes conv: "convertible l data" and f: "is_yuv (fl_format l)"
    and W: "0 < W" and len: "length out = 3 * (W * H)"
  shows "scale_yuv_scalar l data out W (nearest_x (width_of l) W) (nearest_y (height_of l) H (fl_bottom_up l)) c
    = Ok (scaled_image c l data W H)"
  unfolding scale_yuv_scalar_def
proof (rule mapped_rows [OF W len])
  fix i and row :: "u8 list"
  assume "i < H" "length row = 3 * W"
  then show "for_pixels (nearest_x (width_of l) W) (\<lambda>sx. and_then
        (yuv_bytes l data (nearest_y (height_of l) H (fl_bottom_up l) ! i) sx) (\<lambda>(y, u, v). Ok (yuv_pixel c y u v))) row
      = Ok (parts (\<lambda>j. source_pixel c l data (nearest_y (height_of l) H (fl_bottom_up l) ! i)
          (nearest_x (width_of l) W ! j)) W)"
    by (intro for_pixels_parts yuv_bytes_exact conv f nearest_x_less nearest_y_less convertible_pos [OF conv]) simp_all
qed

section \<open>Converting source rows\<close>

definition chunk :: "frame_layout \<Rightarrow> u8 list \<Rightarrow> nat \<Rightarrow> nat \<Rightarrow> nat \<Rightarrow> u8 list" where
  "chunk l data i y n =
     take n (drop (pl_offset (fl_planes l ! i) + y * pl_row_stride (fl_planes l ! i)) data)"

lemma chunk_slice:
  assumes "y * pl_row_stride (fl_planes l ! i) + n \<le> pl_length (fl_planes l ! i)"
    "pl_offset (fl_planes l ! i) + pl_length (fl_planes l ! i) \<le> length data"
  shows "(sub_slice data (pl_offset (fl_planes l ! i) + y * pl_row_stride (fl_planes l ! i)) n
      :: (u8 list) camera_result) = Ok (chunk l data i y n)"
    and "length (chunk l data i y n) = n"
  using assms by (simp_all add: sub_slice_def chunk_def)

lemma chunk_nth:
  assumes "y * pl_row_stride (fl_planes l ! i) + n \<le> pl_length (fl_planes l ! i)"
    "pl_offset (fl_planes l ! i) + pl_length (fl_planes l ! i) \<le> length data"
    "r * pl_row_stride (fl_planes l ! i) + x * pl_pixel_stride (fl_planes l ! i) + k < n"
  shows "chunk l data i y n ! (r * pl_row_stride (fl_planes l ! i) + x * pl_pixel_stride (fl_planes l ! i) + k)
    = sample_at l data i (y + r) x k"
  using assms by (simp add: chunk_def sample_at_def sample_byte_def add_mult_distrib add_ac)

text \<open>The rows from \<open>y\<close> of a plane whose samples are adjacent lie in the plane.\<close>

lemma rows_fit:
  assumes "plane_fits f len (fl_planes l ! i) (cols, height, channels)" "\<not> is_encoded f"
    "pl_pixel_stride (fl_planes l ! i) = channels" "0 < cols" "0 < rows" "y + rows \<le> height"
  shows "y * pl_row_stride (fl_planes l ! i) + ((rows - 1) * pl_row_stride (fl_planes l ! i) + channels * cols)
      \<le> pl_length (fl_planes l ! i)"
    and "channels * cols \<le> pl_row_stride (fl_planes l ! i)"
    and "pl_offset (fl_planes l ! i) + pl_length (fl_planes l ! i) \<le> len"
proof -
  let ?p = "fl_planes l ! i"
  have "(cols - 1) * channels + channels = channels * cols"
    using assms(4) by (cases cols) (simp_all add: mult.commute)
  then have "(height - 1) * pl_row_stride ?p + channels * cols \<le> pl_length ?p"
    "channels * cols \<le> pl_row_stride ?p"
    using assms(1-3) by (auto simp: plane_fits_def)
  moreover have "(y + (rows - 1)) * pl_row_stride ?p \<le> (height - 1) * pl_row_stride ?p"
    using assms(5,6) by (intro mult_le_mono1) linarith
  ultimately show "y * pl_row_stride ?p + ((rows - 1) * pl_row_stride ?p + channels * cols) \<le> pl_length ?p"
    "channels * cols \<le> pl_row_stride ?p"
    by (simp_all add: add_mult_distrib)
  show "pl_offset ?p + pl_length ?p \<le> len" using assms(1) by (simp add: plane_fits_def)
qed

definition row_group :: "frame_layout \<Rightarrow> nat \<Rightarrow> nat \<Rightarrow> bool" where
  "row_group l y rows \<longleftrightarrow>
     y + rows \<le> height_of l \<and> (rows = 1 \<or> rows = 2 \<and> even y \<and> is_pairable (fl_format l))"

lemma row_group_chroma:
  assumes "row_group l y rows" "r < rows"
  shows "(y + r) div 2 = y div 2" "r div 2 = 0" "div_ceil rows 2 = 1" "y div 2 + 1 \<le> div_ceil (height_of l) 2"
proof -
  have cases: "rows = 1 \<or> rows = 2 \<and> even y" "y + rows \<le> height_of l"
    using assms(1) by (auto simp: row_group_def)
  then show "(y + r) div 2 = y div 2" "r div 2 = 0" "div_ceil rows 2 = 1"
    using assms(2) by (auto simp: div_ceil_def elim!: evenE)
  have "y < height_of l" using cases by auto
  then show "y div 2 + 1 \<le> div_ceil (height_of l) 2" using half_less_div_ceil by (simp add: Suc_le_eq)
qed

lemma row_position:
  fixes r :: nat
  assumes "r < rows" "x < w" "w \<le> stride"
  shows "r * stride + x < (rows - 1) * stride + w"
proof -
  have "r * stride \<le> (rows - 1) * stride" using assms(1) by (intro mult_le_mono1) simp
  then show ?thesis using assms(2) by linarith
qed

abbreviation rows_image :: "coefficients \<Rightarrow> frame_layout \<Rightarrow> u8 list \<Rightarrow> nat \<Rightarrow> nat \<Rightarrow> u8 list" where
  "rows_image c l data y rows \<equiv>
     parts (\<lambda>i. source_pixel c l data (y + i div width_of l) (i mod width_of l)) (width_of l * rows)"

lemma rows_filled:
  assumes "length rgb = 3 * (width_of l * rows)"
    and "\<And>i. i < width_of l * rows \<Longrightarrow> P i = source_pixel c l data (y + i div width_of l) (i mod width_of l)"
  shows "filled P (width_of l * rows) rgb = rows_image c l data y rows"
proof -
  have "filled P (width_of l * rows) rgb
      = filled (\<lambda>i. source_pixel c l data (y + i div width_of l) (i mod width_of l)) (width_of l * rows) rgb"
    by (rule filled_cong) (rule assms(2))
  also have "\<dots> = rows_image c l data y rows" using assms(1) by (intro filled_all) (simp add: length_parts)
  finally show ?thesis .
qed

lemma convert_planar_rows:
  assumes conv: "convertible l data" and f: "fl_format l = Yuv420p"
    and ps: "list_all (\<lambda>p. pl_pixel_stride p = 1) (fl_planes l)"
    and group: "row_group l y rows" and len: "length rgb = 3 * (width_of l * rows)" "length rgb < usize_bound"
  shows "convert_yuv_rows avx2 l data y rows c rgb = Ok (rows_image c l data y rows)"
proof -
  let ?p = "\<lambda>i. fl_planes l ! i" and ?w = "width_of l" and ?cw = "div_ceil (width_of l) 2"
  note p = planar_planes [OF conv f]
  have enc: "\<not> is_encoded Yuv420p" by (simp add: is_encoded_def)
  have ps: "pl_pixel_stride (?p i) = 1" if "i < 3" for i
    using ps p(1) that by (simp add: list_all_length)
  have rows: "0 < rows" "y + rows \<le> height_of l" using group by (auto simp: row_group_def)
  have pos: "0 < ?w" "0 < ?cw" using convertible_pos [OF conv] by (simp_all add: div_ceil_two_pos)
  note chroma = row_group_chroma(4) [OF group rows(1)]
  note ry = rows_fit [OF p(2) enc _ pos(1) rows]
  note ru = rows_fit [OF p(3) enc _ pos(2) _ chroma] and rv = rows_fit [OF p(4) enc _ pos(2) _ chroma]
  let ?n = "(rows - 1) * pl_row_stride (?p 0) + ?w"
  let ?Y = "\<lparr>yp_data = chunk l data 0 y ?n, yp_row_stride = pl_row_stride (?p 0), yp_pixel_stride = pl_pixel_stride (?p 0)\<rparr>"
  let ?C = "\<lambda>i. \<lparr>yp_data = chunk l data i (y div 2) ?cw, yp_row_stride = pl_row_stride (?p i),
    yp_pixel_stride = pl_pixel_stride (?p i)\<rparr>"
  have fit: "y * pl_row_stride (?p 0) + ?n \<le> pl_length (?p 0)" "?w \<le> pl_row_stride (?p 0)"
    "pl_offset (?p 0) + pl_length (?p 0) \<le> length data"
    "y div 2 * pl_row_stride (?p 1) + ?cw \<le> pl_length (?p 1)" "?cw \<le> pl_row_stride (?p 1)"
    "pl_offset (?p 1) + pl_length (?p 1) \<le> length data"
    "y div 2 * pl_row_stride (?p 2) + ?cw \<le> pl_length (?p 2)" "?cw \<le> pl_row_stride (?p 2)"
    "pl_offset (?p 2) + pl_length (?p 2) \<le> length data"
    using ry ru rv ps by simp_all
  note y_chunk = chunk_slice [OF fit(1,3)] and u_chunk = chunk_slice [OF fit(4,6)] and v_chunk = chunk_slice [OF fit(7,9)]
  have "?w - 1 < pl_row_stride (?p 0)" "?cw - 1 < pl_row_stride (?p 1)" "?cw - 1 < pl_row_stride (?p 2)"
    using fit pos by linarith+
  then have "yuv420_accepts ?Y (?C 1) (?C 2) ?w rows rgb"
    using y_chunk(2) u_chunk(2) v_chunk(2) fit ps pos rows(1) len(1) row_group_chroma(3) [OF group rows(1)]
    by (simp add: yuv420_accepts_def plane_covers_def)
  moreover have "length (yp_data ?Y) < usize_bound" "length (yp_data (?C 1)) < usize_bound"
    "length (yp_data (?C 2)) < usize_bound"
    using convertible_bound [OF conv] by (simp_all add: chunk_def)
  ultimately have total: "yuv420_to_rgb_with_coefficients_into avx2 ?Y (?C 1) (?C 2) ?w rows c rgb
      = Ok (filled (reference_pixel c ?Y (?C 1) (?C 2) ?w) (?w * rows) rgb)"
    using yuv420_total [of ?Y "?C 1" "?C 2" rgb ?w rows avx2 c] len(2) by simp
  have pixel: "reference_pixel c ?Y (?C 1) (?C 2) ?w i = source_pixel c l data (y + i div ?w) (i mod ?w)"
    if "i < ?w * rows" for i
  proof -
    note rx = image_index [OF that]
    note r = row_group_chroma(1,2) [OF group rx(1)]
    have x: "i mod ?w div 2 < ?cw" using rx(2) by (rule half_less_div_ceil)
    have "plane_sample ?Y (i div ?w) (i mod ?w) = sample_at l data 0 (y + i div ?w) (i mod ?w) 0"
      using chunk_nth [OF fit(1,3), of "i div ?w" "i mod ?w" 0] row_position [OF rx fit(2)] ps
      by (simp add: plane_sample_def)
    moreover have "plane_sample (?C 1) 0 (i mod ?w div 2) = sample_at l data 1 (y div 2) (i mod ?w div 2) 0"
      "plane_sample (?C 2) 0 (i mod ?w div 2) = sample_at l data 2 (y div 2) (i mod ?w div 2) 0"
      using chunk_nth [OF fit(4,6), of 0 "i mod ?w div 2" 0] chunk_nth [OF fit(7,9), of 0 "i mod ?w div 2" 0] x ps
      by (simp_all add: plane_sample_def)
    ultimately show ?thesis using r f by (simp add: reference_pixel_def source_pixel_def Let_def)
  qed
  have "convert_yuv_rows avx2 l data y rows c rgb
      = yuv420_to_rgb_with_coefficients_into avx2 ?Y (?C 1) (?C 2) ?w rows c rgb"
    using p(1) f y_chunk(1) u_chunk(1) v_chunk(1) by (simp add: convert_yuv_rows_def index_at_def Let_def)
  with total rows_filled [OF len(1) pixel] show ?thesis by simp
qed

lemma convert_semiplanar_rows:
  assumes conv: "convertible l data" and f: "fl_format l = Nv12 \<or> fl_format l = Nv21"
    and ps: "pl_pixel_stride (fl_planes l ! 0) = 1" "pl_pixel_stride (fl_planes l ! 1) = 2"
    and group: "row_group l y rows" and len: "length rgb = 3 * (width_of l * rows)" "length rgb < usize_bound"
  shows "convert_yuv_rows avx2 l data y rows c rgb = Ok (rows_image c l data y rows)"
proof -
  let ?p = "\<lambda>i. fl_planes l ! i" and ?w = "width_of l" and ?cw = "div_ceil (width_of l) 2"
  note p = semiplanar_planes [OF conv f]
  have enc: "\<not> is_encoded (fl_format l)" using conv by simp
  have rows: "0 < rows" "y + rows \<le> height_of l" using group by (auto simp: row_group_def)
  have pos: "0 < ?w" "0 < ?cw" using convertible_pos [OF conv] by (simp_all add: div_ceil_two_pos)
  note chroma = row_group_chroma(4) [OF group rows(1)]
  note ry = rows_fit [OF p(2) enc _ pos(1) rows] and ruv = rows_fit [OF p(3) enc _ pos(2) _ chroma]
  let ?n = "(rows - 1) * pl_row_stride (?p 0) + ?w"
  let ?P = "\<lparr>sp_y = chunk l data 0 y ?n, sp_uv = chunk l data 1 (y div 2) (?cw * 2),
    sp_y_stride = pl_row_stride (?p 0), sp_uv_stride = pl_row_stride (?p 1), sp_vu_order = (fl_format l = Nv21)\<rparr>"
  have fit: "y * pl_row_stride (?p 0) + ?n \<le> pl_length (?p 0)" "?w \<le> pl_row_stride (?p 0)"
    "pl_offset (?p 0) + pl_length (?p 0) \<le> length data"
    "y div 2 * pl_row_stride (?p 1) + ?cw * 2 \<le> pl_length (?p 1)" "2 * ?cw \<le> pl_row_stride (?p 1)"
    "pl_offset (?p 1) + pl_length (?p 1) \<le> length data"
    using ry ruv ps by simp_all
  note y_chunk = chunk_slice [OF fit(1,3)] and uv_chunk = chunk_slice [OF fit(4,6)]
  have "?w - 1 < pl_row_stride (?p 0)" using fit pos by linarith
  then have "yuv420sp_accepts ?P ?w rows rgb"
    using y_chunk(2) uv_chunk(2) fit ps pos rows(1) len(1) row_group_chroma(3) [OF group rows(1)]
    by (simp add: yuv420sp_accepts_def plane_covers_def sp_luma_def)
  moreover have "length (sp_y ?P) < usize_bound" "length (sp_uv ?P) < usize_bound"
    using convertible_bound [OF conv] by (simp_all add: chunk_def)
  ultimately have total: "yuv420sp_to_rgb_with_coefficients_into avx2 ?P ?w rows c rgb
      = Ok (filled (sp_reference c ?P ?w) (?w * rows) rgb)"
    using yuv420sp_total [of ?P rgb ?w rows avx2 c] len(2) by simp
  have pixel: "sp_reference c ?P ?w i = source_pixel c l data (y + i div ?w) (i mod ?w)"
    if "i < ?w * rows" for i
  proof -
    note rx = image_index [OF that]
    note r = row_group_chroma(1,2) [OF group rx(1)]
    have x: "i mod ?w div 2 < ?cw" using rx(2) by (rule half_less_div_ceil)
    have "plane_sample (sp_luma ?P) (i div ?w) (i mod ?w) = sample_at l data 0 (y + i div ?w) (i mod ?w) 0"
      using chunk_nth [OF fit(1,3), of "i div ?w" "i mod ?w" 0] row_position [OF rx fit(2)] ps
      by (simp add: plane_sample_def sp_luma_def)
    moreover have chroma: "chunk l data 1 (y div 2) (?cw * 2) ! (i mod ?w div 2 * 2 + k)
        = sample_at l data 1 (y div 2) (i mod ?w div 2) k" if "k < 2" for k
      using chunk_nth [OF fit(4,6), of 0 "i mod ?w div 2" k] x that ps by simp
    moreover have "plane_sample \<lparr>yp_data = drop k (chunk l data 1 (y div 2) (?cw * 2)),
        yp_row_stride = pl_row_stride (?p 1), yp_pixel_stride = 2\<rparr> 0 (i mod ?w div 2)
      = sample_at l data 1 (y div 2) (i mod ?w div 2) k" if "k < 2" for k
      using chroma [OF that] x uv_chunk(2) that by (simp add: plane_sample_def add.commute)
    ultimately show ?thesis
      using r f by (auto simp: reference_pixel_def source_pixel_def Let_def sp_u_def sp_v_def)
  qed
  have "convert_yuv_rows avx2 l data y rows c rgb = yuv420sp_to_rgb_with_coefficients_into avx2 ?P ?w rows c rgb"
    using p(1) f y_chunk(1) uv_chunk(1) by (auto simp: convert_yuv_rows_def index_at_def Let_def)
  with total rows_filled [OF len(1) pixel] show ?thesis by simp
qed

lemma convert_packed_rows:
  assumes conv: "convertible l data" and f: "fl_format l = Yuyv \<or> fl_format l = Uyvy"
    and group: "row_group l y rows" and len: "length rgb = 3 * (width_of l * rows)" "length rgb < usize_bound"
  shows "convert_yuv_rows avx2 l data y rows c rgb = Ok (rows_image c l data y rows)"
proof -
  let ?p = "fl_planes l ! 0" and ?w = "width_of l"
  note p = packed422_plane [OF conv f]
  have enc: "\<not> is_encoded (fl_format l)" using conv by simp
  have rows: "0 < rows" "y + rows \<le> height_of l" using group by (auto simp: row_group_def)
  have pos: "0 < ?w" using convertible_pos [OF conv] by simp
  let ?n = "(rows - 1) * pl_row_stride ?p + ?w * 2"
  let ?s = "chunk l data 0 y ?n" and ?stride = "pl_row_stride ?p"
  have fit: "y * ?stride + ?n \<le> pl_length ?p" "2 * ?w \<le> ?stride" "pl_offset ?p + pl_length ?p \<le> length data"
    using rows_fit [OF p(3) enc p(4) pos rows] by (simp_all add: mult.commute)
  note chunk = chunk_slice [OF fit(1,3)]
  have "yuv422_accepts ?s ?w rows ?stride rgb"
    using p(2) pos rows fit chunk(2) len(1) by (simp add: yuv422_accepts_def)
  moreover have "length ?s < usize_bound" using convertible_bound [OF conv] by (simp add: chunk_def)
  ultimately have total: "yuv422_to_rgb_with_coefficients_into avx2 ?s ?w rows ?stride (fl_format l = Uyvy) c rgb
      = Ok (filled (yuv422_reference (fl_format l = Uyvy) c ?s ?stride ?w) (?w * rows) rgb)"
    using yuv422_total [of ?s rgb ?w rows ?stride avx2 "fl_format l = Uyvy" c] len(2) by simp
  have pixel: "yuv422_reference (fl_format l = Uyvy) c ?s ?stride ?w i
      = source_pixel c l data (y + i div ?w) (i mod ?w)" if "i < ?w * rows" for i
  proof -
    let ?r = "i div ?w" and ?x = "i mod ?w"
    note rx = image_index [OF that]
    have at: "?s ! (?r * ?stride + (2 * x + k)) = sample_at l data 0 (y + ?r) x k" if "x < ?w" "k < 2" for x k
      using chunk_nth [OF fit(1,3), of ?r x k] row_position [OF rx(1), of "2 * x + k" "2 * ?w" ?stride] that fit(2) p(4)
      by (simp add: mult.commute add.assoc)
    note pair = even_pair [OF rx(2) p(2)]
    have pair': "2 * (?x div 2) < ?w" using pair by simp
    show ?thesis
      using at [OF rx(2), of 0] at [OF rx(2), of 1] at [OF pair', of 0] at [OF pair', of 1]
        at [OF pair, of 0] at [OF pair, of 1] f
      by (auto simp: yuv422_reference_def source_pixel_def Let_def add_ac numeral_3_eq_3)
  qed
  have "convert_yuv_rows avx2 l data y rows c rgb
      = yuv422_to_rgb_with_coefficients_into avx2 ?s ?w rows ?stride (fl_format l = Uyvy) c rgb"
    using p(1) f chunk(1) by (auto simp: convert_yuv_rows_def index_at_def Let_def)
  with total rows_filled [OF len(1) pixel] show ?thesis by simp
qed

lemma convert_yuv_rows_exact:
  assumes "convertible l data" "is_yuv (fl_format l)" "supports_yuv_row_conversion l" "row_group l y rows"
    "length rgb = 3 * (width_of l * rows)" "length rgb < usize_bound"
  shows "convert_yuv_rows avx2 l data y rows c rgb = Ok (rows_image c l data y rows)"
proof -
  consider "fl_format l = Yuv420p" | "fl_format l = Nv12 \<or> fl_format l = Nv21" | "fl_format l = Yuyv \<or> fl_format l = Uyvy"
    using assms(2) by (auto simp: is_yuv_def)
  then show ?thesis
  proof cases
    case 1
    then show ?thesis using convert_planar_rows [OF assms(1)] assms
      by (simp add: supports_yuv_row_conversion_def)
  next
    case 2
    then have "pl_pixel_stride (fl_planes l ! 0) = 1" "pl_pixel_stride (fl_planes l ! 1) = 2"
      using assms(3) by (auto simp: supports_yuv_row_conversion_def plane_pixel_stride_def)
    then show ?thesis by (rule convert_semiplanar_rows [OF assms(1) 2 _ _ assms(4-6)])
  next
    case 3
    then show ?thesis using convert_packed_rows [OF assms(1)] assms by blast
  qed
qed

section \<open>The loop over the destination rows\<close>

lemma scratch_row:
  assumes "length scratch = width_of l * 6" "rows \<le> 2" "r < rows"
  shows "\<exists>s. (sub_slice (overwrite scratch 0 (rows_image c l data y rows)) (width_of l * 3 * r) (width_of l * 3)
      :: (u8 list) camera_result) = Ok s
    \<and> length s = 3 * width_of l \<and> (\<forall>x < width_of l. row_pixel s x = source_pixel c l data (y + r) x)"
proof -
  let ?w = "width_of l" and ?image = "rows_image c l data y rows"
  let ?s = "take (3 * ?w) (drop (3 * (?w * r)) ?image)"
  have len: "length ?image = 3 * (?w * rows)" by (simp add: length_parts)
  have "?w * (r + 1) \<le> ?w * rows" using assms(3) by (intro mult_le_mono2) simp
  then have room: "3 * (?w * r + ?w) \<le> length ?image" using len by simp
  have "?s = parts (\<lambda>j. row_pixel ?image (?w * r + j)) ?w" by (rule slice_row_pixels [OF room])
  also have "\<dots> = parts (source_pixel c l data (y + r)) ?w"
  proof (rule parts_cong)
    fix x
    assume x: "x < ?w"
    then have "?w * r + x < ?w * (r + 1)" by simp
    also have "\<dots> \<le> ?w * rows" by fact
    finally show "row_pixel ?image (?w * r + x) = source_pixel c l data (y + r) x"
      using x by (simp add: parts_row_pixel)
  qed
  finally have "row_pixel ?s x = source_pixel c l data (y + r) x" if "x < ?w" for x
    using that by (simp add: parts_row_pixel)
  moreover have "sub_slice (overwrite scratch 0 ?image) (?w * 3 * r) (?w * 3) = Ok ?s"
    using room by (simp add: sub_slice_def overwrite_def mult_ac)
  moreover have "length ?s = 3 * ?w" using room by simp
  ultimately show ?thesis by blast
qed

lemma length_scratch:
  assumes "length scratch = width_of l * 6" "rows \<le> 2"
  shows "length (overwrite scratch 0 (rows_image c l data y rows)) = width_of l * 6"
    and "(sub_slice scratch 0 (width_of l * 3 * rows) :: (u8 list) camera_result) = Ok (take (width_of l * 3 * rows) scratch)"
    and "length (take (width_of l * 3 * rows) scratch) = 3 * (width_of l * rows)"
proof -
  have "width_of l * rows \<le> width_of l * 2" using assms(2) by (rule mult_le_mono2)
  then show "length (overwrite scratch 0 (rows_image c l data y rows)) = width_of l * 6"
    "(sub_slice scratch 0 (width_of l * 3 * rows) :: (u8 list) camera_result) = Ok (take (width_of l * 3 * rows) scratch)"
    "length (take (width_of l * 3 * rows) scratch) = 3 * (width_of l * rows)"
    using assms(1) by (simp_all add: length_parts sub_slice_def)
qed

text \<open>Writing one destination row from a converted source row.\<close>

lemma write_row:
  assumes "length s = 3 * width_of l" "\<And>x. x < width_of l \<Longrightarrow> row_pixel s x = source_pixel c l data (ny ! index) x"
    and "0 < W" "0 < width_of l" "length out = 3 * (W * H)" "index < H"
  shows "(modify_slice (filled (\<lambda>k. source_pixel c l data (ny ! (k div W)) (nearest_x (width_of l) W ! (k mod W)))
      (W * index) out) (index * (W * 3)) (W * 3) (\<lambda>row. resize_rgb_row_nearest s row (nearest_x (width_of l) W))
      :: (u8 list) camera_result) = Ok (filled (\<lambda>k. source_pixel c l data (ny ! (k div W)) (nearest_x (width_of l) W ! (k mod W)))
        (W * Suc index) out)"
proof -
  let ?P = "\<lambda>k. source_pixel c l data (ny ! (k div W)) (nearest_x (width_of l) W ! (k mod W))"
  have "W * Suc index \<le> W * H" using assms(6) by (intro mult_le_mono2) simp
  then have room: "3 * W * Suc index \<le> length out" using assms(5) by simp
  have "parts (\<lambda>i. ?P (W * index + i)) W
      = parts (\<lambda>j. source_pixel c l data (ny ! index) (nearest_x (width_of l) W ! j)) W"
    by (intro parts_cong) simp
  then have "modify_slice (filled ?P (W * index) out) (3 * W * index) (3 * W)
      (\<lambda>row. resize_rgb_row_nearest s row (nearest_x (width_of l) W)) = Ok (filled ?P (W * Suc index) out)"
    using resize_source_row [OF assms(1) _ assms(3,4,2)] room by (intro block_filled) simp_all
  then show ?thesis by (simp add: mult_ac)
qed

text \<open>One step of the loop, as an equation.\<close>

lemma scale_pair:
  assumes "index + 1 < rows" "index + 1 < length y_map" "y_map ! index = y"
    "is_pairable (fl_format l)" "y mod 2 = 0" "y_map ! (index + 1) = y + 1"
    "modify_slice scratch 0 (width_of l * 3 * 2) (convert_yuv_rows avx2 l data y 2 c) = Ok scratch'"
    "sub_slice scratch' 0 (width_of l * 3) = (Ok s :: (u8 list) camera_result)"
    "modify_slice out (index * (length x_map * 3)) (length x_map * 3)
      (\<lambda>row. resize_rgb_row_nearest s row x_map) = (Ok out' :: (u8 list) camera_result)"
    "sub_slice scratch' (width_of l * 3) (width_of l * 3) = (Ok t :: (u8 list) camera_result)"
    "modify_slice out' ((index + 1) * (length x_map * 3)) (length x_map * 3)
      (\<lambda>row. resize_rgb_row_nearest t row x_map) = (Ok out'' :: (u8 list) camera_result)"
  shows "scale_yuv_rows avx2 l data x_map y_map c rows index (scratch, out)
    = scale_yuv_rows avx2 l data x_map y_map c rows (index + 2) (scratch', out'')"
  by (subst scale_yuv_rows.simps) (use assms in \<open>simp add: index_at_def Let_def del: scale_yuv_rows.simps\<close>)

lemma scale_single:
  assumes "index < rows" "index < length y_map" "y_map ! index = y"
    "\<not> (is_pairable (fl_format l) \<and> y mod 2 = 0 \<and> index + 1 < length y_map \<and> y_map ! (index + 1) = y + 1)"
    "modify_slice scratch 0 (width_of l * 3) (convert_yuv_rows avx2 l data y 1 c) = Ok scratch'"
    "sub_slice scratch' 0 (width_of l * 3) = (Ok s :: (u8 list) camera_result)"
    "modify_slice out (index * (length x_map * 3)) (length x_map * 3)
      (\<lambda>row. resize_rgb_row_nearest s row x_map) = (Ok out' :: (u8 list) camera_result)"
  shows "scale_yuv_rows avx2 l data x_map y_map c rows index (scratch, out)
    = scale_yuv_rows avx2 l data x_map y_map c rows (index + 1) (scratch', out')"
  by (subst scale_yuv_rows.simps) (use assms in \<open>auto simp: index_at_def Let_def simp del: scale_yuv_rows.simps\<close>)

lemma scale_yuv_rows_exact:
  fixes c :: coefficients
  assumes conv: "convertible l data" and f: "is_yuv (fl_format l)" "supports_yuv_row_conversion l"
    and W: "0 < W" and len: "length out = 3 * (W * H)"
  defines "ny \<equiv> nearest_y (height_of l) H (fl_bottom_up l)"
  defines "P \<equiv> \<lambda>k. source_pixel c l data (ny ! (k div W)) (nearest_x (width_of l) W ! (k mod W))"
  assumes "index \<le> H" "length scratch = width_of l * 6"
  shows "\<exists>scratch'. scale_yuv_rows avx2 l data (nearest_x (width_of l) W) ny c H index (scratch, filled P (W * index) out)
    = Ok (scratch', filled P (W * H) out)"
  using assms(8,9)
proof (induction "H - index" arbitrary: index scratch rule: less_induct)
  case less
  let ?w = "width_of l" and ?nx = "nearest_x (width_of l) W"
  note pos = convertible_pos [OF conv]
  show ?case
  proof (cases "index = H")
    case False
    then have index: "index < H" using less.prems(1) by simp
    have source: "ny ! index < height_of l" using index pos(2) by (simp add: ny_def nearest_y_less)
    have ny: "length ny = H" by (simp add: ny_def)
    let ?pair = "is_pairable (fl_format l) \<and> ny ! index mod 2 = 0 \<and> index + 1 < H \<and> ny ! (index + 1) = ny ! index + 1"
    define rows :: nat where "rows = (if ?pair then 2 else 1)"
    let ?scratch = "overwrite scratch 0 (rows_image c l data (ny ! index) rows)"
    have le: "rows \<le> 2" and pos_rows: "0 < rows" by (simp_all add: rows_def)
    have "ny ! (index + 1) < height_of l" if ?pair
      using that nearest_y_less [OF _ pos(2), of "index + 1" H "fl_bottom_up l"] by (simp add: ny_def)
    then have group: "row_group l (ny ! index) rows"
      using source by (auto simp: row_group_def rows_def)
    note scratch = length_scratch(1) [OF less.prems(2) le, of c data "ny ! index"]
      length_scratch(2,3) [OF less.prems(2) le]
    have "width_of l * 6 < usize_bound"
      using unat_u32_bound [of "fl_width l"] unfolding usize_bound_def by linarith
    moreover have "width_of l * rows \<le> width_of l * 2" using le by (rule mult_le_mono2)
    ultimately have "length (take (?w * 3 * rows) scratch) < usize_bound" unfolding scratch(3) by linarith
    then have convert: "modify_slice scratch 0 (?w * 3 * rows) (convert_yuv_rows avx2 l data (ny ! index) rows c)
        = Ok ?scratch"
      using convert_yuv_rows_exact [OF conv f group scratch(3)] scratch(2) by (simp add: modify_slice_def)
    note written = write_row [where ny = ny and c = c and data = data, OF _ _ W pos(1) len, folded P_def]
    obtain s where s: "sub_slice ?scratch 0 (?w * 3) = (Ok s :: (u8 list) camera_result)" "length s = 3 * ?w"
      "\<And>x. x < ?w \<Longrightarrow> row_pixel s x = source_pixel c l data (ny ! index) x"
      using scratch_row [OF less.prems(2) le pos_rows, of c data "ny ! index"] by auto
    note first = written [OF s(2,3) index]
    show ?thesis
    proof (cases ?pair)
      case True
      then have r: "rows = 2" by (simp add: rows_def)
      from True have next': "index + 1 < H" "ny ! (index + 1) = ny ! index + 1" by auto
      obtain t where t: "sub_slice ?scratch (?w * 3) (?w * 3) = (Ok t :: (u8 list) camera_result)" "length t = 3 * ?w"
        "\<And>x. x < ?w \<Longrightarrow> row_pixel t x = source_pixel c l data (ny ! (index + 1)) x"
        using scratch_row [OF less.prems(2) le, of 1 c data "ny ! index"] r next' by auto
      note second = written [OF t(2,3) next'(1)]
      have "\<exists>scratch'. scale_yuv_rows avx2 l data ?nx ny c H (index + 2) (?scratch, filled P (W * (index + 2)) out)
          = Ok (scratch', filled P (W * H) out)"
        by (rule less.hyps) (use next' scratch(1) in auto)
      moreover have "scale_yuv_rows avx2 l data ?nx ny c H index (scratch, filled P (W * index) out)
          = scale_yuv_rows avx2 l data ?nx ny c H (index + 2) (?scratch, filled P (W * (index + 2)) out)"
        by (rule scale_pair [OF _ _ refl _ _ _ _ s(1) _ t(1), where out' = "filled P (W * (index + 1)) out"])
          (use True ny convert first second r in simp_all)
      ultimately show ?thesis by simp
    next
      case False
      then have r: "rows = 1" unfolding rows_def by (rule if_not_P)
      have "\<exists>scratch'. scale_yuv_rows avx2 l data ?nx ny c H (index + 1) (?scratch, filled P (W * (index + 1)) out)
          = Ok (scratch', filled P (W * H) out)"
        by (rule less.hyps) (use index scratch(1) in auto)
      moreover have "scale_yuv_rows avx2 l data ?nx ny c H index (scratch, filled P (W * index) out)
          = scale_yuv_rows avx2 l data ?nx ny c H (index + 1) (?scratch, filled P (W * (index + 1)) out)"
        by (rule scale_single [OF _ _ refl _ _ s(1)]) (use False index ny convert first r in simp_all)
      ultimately show ?thesis by simp
    qed
  qed (simp add: scale_yuv_rows.simps)
qed

lemma length_vec_resize [simp]: "length (vec_resize n xs) = n"
  by (simp add: vec_resize_def)

lemma scale_yuv_nearest_exact:
  assumes conv: "convertible l data" and f: "is_yuv (fl_format l)" "supports_yuv_row_conversion l"
    and W: "0 < W" and len: "length out = 3 * (W * H)" and scratch: "length scratch = width_of l * 6"
  shows "\<exists>scratch'. scale_yuv_nearest avx2 l data out (nearest_x (width_of l) W)
      (nearest_y (height_of l) H (fl_bottom_up l)) c scratch = Ok (scratch', scaled_image c l data W H)"
proof -
  have "length out = H * (W * 3)" using len by simp
  then have rows: "length out div (W * 3) = H" using W by simp
  show ?thesis
    using scale_yuv_rows_exact [OF conv f W len _ scratch, of 0 avx2 c] W len
    by (simp add: scale_yuv_nearest_def rows filled_all length_parts scaled_image_def Let_def
        del: scale_yuv_rows.simps)
qed

text \<open>The destination needs its size only; the maps, when they are valid, are those of the request.\<close>

lemma convert_scaled_exact:
  assumes conv: "convertible l data" and W: "0 < W" and len: "length out = 3 * (W * H)"
    and coeff: "is_yuv (fl_format l) \<Longrightarrow> coeff = Some c"
    and maps: "nm_x nearest = nearest_x (width_of l) W" "nm_y nearest = nearest_y (height_of l) H (fl_bottom_up l)"
  shows "snd (convert_scaled avx2 l data W nearest coeff scratch out) = Ok (scaled_image c l data W H)"
proof (cases "is_yuv (fl_format l)")
  case False
  then show ?thesis using scale_nearest_exact [OF conv False W len] maps by (simp add: convert_scaled_def Let_def)
next
  case True
  note c = coeff [OF True]
  show ?thesis
  proof (cases "supports_yuv_row_conversion l \<and> width_of l \<le> saturating_mul W 4")
    case False
    then show ?thesis
      using True c scale_yuv_scalar_exact [OF conv True W len] maps by (auto simp: convert_scaled_def Let_def unwrap_def)
  next
    case rows: True
    then obtain scratch' where "scale_yuv_nearest avx2 l data out (nm_x nearest) (nm_y nearest) c
        (vec_resize (width_of l * 6) scratch) = Ok (scratch', scaled_image c l data W H)"
      using scale_yuv_nearest_exact [OF conv True _ W len, of "vec_resize (width_of l * 6) scratch" avx2 c] maps by auto
    then show ?thesis using True rows c by (simp add: convert_scaled_def Let_def unwrap_def)
  qed
qed

end
