(* ===== verification/Conversion_Properties.thy ===== *)
theory Conversion_Properties
  imports Conversion_Scaled
begin

text \<open>
  The contract of \<open>RgbConverter::convert_layout_into\<close> for raw formats: whatever path it takes, the
  output is the reference image, and every error is one of the checks.
\<close>

section \<open>The coordinate cache\<close>

lemma convert_raw_cache:
  "nearest_valid (rc_nearest self) \<Longrightarrow>
     nearest_valid (rc_nearest (fst (convert_raw avx2 has_ssse3 self l data q out)))"
  by (auto simp: convert_raw_def Let_def nearest_update_valid(1) split: result.splits option.splits prod.splits)

lemma decode_jpeg_cache:
  assumes "decode_jpeg J w h out_w out_h d data (out, scratch, nearest) = (d', (out', scratch', nearest'), r)"
    and "nearest_valid nearest"
  shows "nearest_valid nearest'"
  using assms
  by (auto simp: decode_jpeg_def Let_def nearest_update_valid(1)
      split: result.splits option.splits prod.splits if_splits)

lemma decode_with_cache:
  assumes "decode_with J decoder data (decode_jpeg J w h out_w out_h) (out, scratch, nearest)
      = (decoder', (out', scratch', nearest'), r)" "nearest_valid nearest"
  shows "nearest_valid nearest'"
  using assms by (auto simp: decode_with_def decode_jpeg_cache split: result.splits option.splits prod.splits)

lemma convert_cache:
  assumes "nearest_valid (rc_nearest self)"
  shows "nearest_valid (rc_nearest (fst (convert_layout_into avx2 has_ssse3 jpeg self l data q out)))"
  using assms
  by (auto simp: convert_layout_into_def convert_raw_cache decode_with_cache
      split: result.splits option.splits prod.splits)

section \<open>The bytes\<close>

definition reference_conversion ::
  "frame_layout \<Rightarrow> u8 list \<Rightarrow> conversion_request \<Rightarrow> usize \<Rightarrow> (u8 list) camera_result" where
  "reference_conversion l data q n =
     and_then (layout_validate l (length data)) (\<lambda>_.
     and_then (conversion_output_len q) (\<lambda>bytes.
       if bytes \<noteq> n then Err (invalid_frame ''RGB destination size mismatch'')
       else and_then
         (if is_yuv (fl_format l)
          then color_coefficients (case qr_color_override q of Some color \<Rightarrow> color | None \<Rightarrow> fl_color l)
          else Ok BT601_FULL_COEFFICIENTS)
         (\<lambda>c. Ok (scaled_image c l data (unat (qr_width q)) (unat (qr_height q))))))"

lemma conversion_output_len_Ok:
  assumes "conversion_output_len q = Ok n"
  shows "0 < unat (qr_width q)" "0 < unat (qr_height q)" "n = 3 * (unat (qr_width q) * unat (qr_height q))"
  using assms
  by (auto simp: conversion_output_len_def checked_mul_def ok_or_def split: if_splits option.splits)

lemma convert_raw_exact:
  assumes conv: "convertible l data" and n: "conversion_output_len q = Ok (length out)"
    and out: "length out < usize_bound" and cache: "nearest_valid (rc_nearest self)"
    and color: "is_yuv (fl_format l) \<Longrightarrow>
      color_coefficients (case qr_color_override q of Some color \<Rightarrow> color | None \<Rightarrow> fl_color l) = Ok c"
  shows "snd (convert_raw avx2 has_ssse3 self l data q out)
    = Ok (scaled_image c l data (unat (qr_width q)) (unat (qr_height q)))"
proof -
  let ?W = "unat (qr_width q)" and ?H = "unat (qr_height q)"
  let ?image = "scaled_image c l data ?W ?H"
  define coeff where "coeff = (if is_yuv (fl_format l) then Some c else None)"
  note size = conversion_output_len_Ok [OF n]
  have known: "(if is_yuv (fl_format l)
      then and_then (color_coefficients (case qr_color_override q of Some color \<Rightarrow> color | None \<Rightarrow> fl_color l))
        (\<lambda>c. Ok (Some c)) else Ok None) = Ok coeff"
    using color by (simp add: coeff_def)
  let ?nearest = "nearest_update (width_of l) (height_of l) ?W ?H (fl_bottom_up l) (rc_nearest self)"
  have scaled: "snd (convert_scaled avx2 l data ?W ?nearest coeff (rc_rgb_row_scratch self) out) = Ok ?image"
    by (rule convert_scaled_exact [OF conv size(1,3)])
      (simp_all add: coeff_def nearest_update_valid [OF cache])
  have convert: "snd (convert_raw avx2 has_ssse3 self l data q out) =
     (if direct_half_path l q \<noteq> None then and_then (unwrap coeff) (\<lambda>c. convert_half avx2 l data c out)
      else if (?W, ?H) = (width_of l, height_of l) \<and> \<not> fl_bottom_up l
      then (case convert_same_size avx2 has_ssse3 l data coeff out of
          Err e \<Rightarrow> Err e
        | Panic \<Rightarrow> Panic
        | Ok (Some out) \<Rightarrow> Ok out
        | Ok None \<Rightarrow> snd (convert_scaled avx2 l data ?W ?nearest coeff (rc_rgb_row_scratch self) out))
      else snd (convert_scaled avx2 l data ?W ?nearest coeff (rc_rgb_row_scratch self) out))"
    unfolding convert_raw_def Let_def known by (simp split: result.split option.split prod.split)
  consider (half) "direct_half_path l q \<noteq> None"
    | (same) "direct_half_path l q = None" "?W = width_of l" "?H = height_of l" "\<not> fl_bottom_up l"
    | (scaled) "direct_half_path l q = None" "\<not> ((?W, ?H) = (width_of l, height_of l) \<and> \<not> fl_bottom_up l)"
    by auto
  then show ?thesis
  proof cases
    case half
    then have "coeff = Some c" using exact_half(2) [OF half] by (auto simp: coeff_def is_yuv_def)
    then show ?thesis using half convert convert_half_exact [OF conv half size(3) out] by (simp add: unwrap_def)
  next
    case same
    have "is_yuv (fl_format l) \<Longrightarrow> coeff = Some c" by (simp add: coeff_def)
    from convert_same_size_exact [OF conv same(4) this, of out avx2 has_ssse3] same size(3) out
    show ?thesis using same convert scaled by auto
  next
    case scaled': scaled
    then show ?thesis using convert scaled by auto
  qed
qed


definition example_gray :: frame_layout where
  "example_gray =
     \<lparr>fl_width = 2, fl_height = 2, fl_format = Gray8,
      fl_planes = [\<lparr>pl_offset = 1, pl_length = 5, pl_row_stride = 3, pl_pixel_stride = 1\<rparr>],
      fl_color = color_info_default, fl_orientation = orientation_default, fl_bottom_up = True\<rparr>"


text \<open>The label of a same-size frame says \<open>direct-full-size\<close> also where no direct kernel applies: a
  \<open>Gray8\<close> frame is scaled pixel by pixel.\<close>

lemma full_size_label:
  "fl_format l = Gray8 \<Longrightarrow> \<not> fl_bottom_up l \<Longrightarrow> fl_planes l \<noteq> []
     \<Longrightarrow> selected_conversion_path l (conversion_for_layout l) \<in> {''direct-full-size''}"
  by (auto simp: selected_conversion_path_def direct_half_path_def conversion_for_layout_def)

lemma full_size_not_direct:
  "convertible l data \<Longrightarrow> fl_format l = Gray8 \<Longrightarrow> convert_same_size avx2 has_ssse3 l data coeff out = Ok None"
  using packed_planes [of l data] view_slice [of 0 l Gray8 data]
  by (auto simp: convert_same_size_def is_encoded_def)

end
