(* ===== verification/V4l2_Convert.thy ===== *)
theory V4l2_Convert
  imports Color_Yuv422 Color_Nv12 Video_Types Mjpeg Pixels
begin

text \<open>
  The conversion of V4L2 buffers to RGB (\<open>src/backends/v4l2/convert.rs\<close>): four-character codes, the
  check of a plane's rows and the converter of a stream.  The JPEG decoder is \<open>None\<close> when the feature
  \<open>decode-mjpeg\<close> is off.
\<close>

section \<open>Format codes\<close>

definition to_le_bytes :: "u32 \<Rightarrow> u8 list" where
  "to_le_bytes code = map (\<lambda>i. ucast (drop_bit (8 * i) code)) [0, 1, 2, 3]"

definition from_le_bytes :: "u8 list \<Rightarrow> u32" where
  "from_le_bytes bytes = foldr (\<lambda>byte code. or (push_bit 8 code) (ucast byte)) bytes 0"

definition byte_string :: "string \<Rightarrow> u8 list" where
  "byte_string s = map of_char s"

definition from_fourcc :: "u32 \<Rightarrow> video_format option" where
  "from_fourcc code =
     (let bytes = to_le_bytes code
      in if bytes = byte_string ''MJPG'' then Some MJPEG
         else if bytes = byte_string ''YUYV'' then Some YUYV
         else if bytes = byte_string ''UYVY'' then Some UYVY
         else if bytes = byte_string ''NV12'' \<or> bytes = byte_string ''NM12'' then Some NV12
         else if bytes = byte_string ''RGB3'' then Some RGB
         else if bytes = byte_string ''GREY'' then Some Gray
         else None)"

definition to_fourcc :: "video_format \<Rightarrow> u32 camera_result" where
  "to_fourcc format =
     (case format of
        MJPEG \<Rightarrow> Ok (from_le_bytes (byte_string ''MJPG''))
      | YUYV \<Rightarrow> Ok (from_le_bytes (byte_string ''YUYV''))
      | UYVY \<Rightarrow> Ok (from_le_bytes (byte_string ''UYVY''))
      | NV12 \<Rightarrow> Ok (from_le_bytes (byte_string ''NV12''))
      | RGB \<Rightarrow> Ok (from_le_bytes (byte_string ''RGB3''))
      | Gray \<Rightarrow> Ok (from_le_bytes (byte_string ''GREY''))
      | _ \<Rightarrow> Err (unsupported_format (''V4L2 cannot decode '' @ video_format_debug format)))"

section \<open>Planes\<close>

record v4l2_plane =
  vp_data :: "u8 list"
  vp_stride :: usize

definition check_rows :: "v4l2_plane \<Rightarrow> usize \<Rightarrow> usize \<Rightarrow> unit camera_result" where
  "check_rows plane row_bytes height =
     (let required =
        Option.bind (checked_sub height 1) (\<lambda>n.
        Option.bind (checked_mul n (vp_stride plane)) (\<lambda>n. checked_add n row_bytes))
      in if row_bytes = 0 \<or> vp_stride plane < row_bytes
          \<or> (case required of None \<Rightarrow> True | Some n \<Rightarrow> length (vp_data plane) < n)
         then Err (invalid_frame ''V4L2 frame has invalid stride or truncated data'')
         else Ok ())"

section \<open>The converter\<close>

record 'j v4l2_converter =
  vc_jpeg :: "'j option"
  vc_coefficients :: coefficients

definition v4l2_converter_new :: "('j v4l2_converter) camera_result" where
  "v4l2_converter_new =
     and_then (color_coefficients (color_info_default\<lparr>ci_matrix := MatrixBt601, ci_range := RangeFull\<rparr>))
       (\<lambda>c. Ok \<lparr>vc_jpeg = None, vc_coefficients = c\<rparr>)"

text \<open>The codes of \<open>V4L2_YCBCR_ENC_*\<close>.\<close>

definition v4l2_matrix :: "u32 \<Rightarrow> color_matrix option" where
  "v4l2_matrix encoding =
     (if encoding \<in> {1, 3, 5} then Some MatrixBt601
      else if encoding \<in> {2, 4} then Some MatrixBt709
      else if encoding = 6 then Some MatrixBt2020
      else if encoding = 8 then Some MatrixSmpte240M
      else None)"

definition set_colorimetry :: "u32 \<Rightarrow> bool \<Rightarrow> 'j v4l2_converter \<Rightarrow> ('j v4l2_converter) camera_result" where
  "set_colorimetry encoding full self =
     and_then
       (ok_or (v4l2_matrix encoding)
         (unsupported_format (''V4L2 YCbCr encoding '' @ show_nat (unat encoding)))) (\<lambda>m.
     and_then (color_coefficients
         (color_info_default\<lparr>ci_matrix := m, ci_range := if full then RangeFull else RangeLimited\<rparr>)) (\<lambda>c.
       Ok (self\<lparr>vc_coefficients := c\<rparr>)))"

text \<open>The closure that decodes a JPEG frame into the output.\<close>

definition v4l2_decode_jpeg ::
  "'j jpeg \<Rightarrow> usize \<Rightarrow> usize \<Rightarrow> 'j \<Rightarrow> u8 list \<Rightarrow> u8 list \<Rightarrow> 'j \<times> u8 list \<times> unit camera_result" where
  "v4l2_decode_jpeg J w h decoder data rgb =
     (case jp_read_header J data decoder of
        (decoder, Err e) \<Rightarrow> (decoder, rgb, Err (invalid_frame e))
      | (decoder, Panic) \<Rightarrow> (decoder, rgb, Panic)
      | (decoder, Ok header) \<Rightarrow>
          if jh_width header \<noteq> w \<or> jh_height header \<noteq> h
          then (decoder, rgb, Err (invalid_frame ''MJPEG dimensions differ from negotiated V4L2 format''))
          else case jp_decompress J data w h (w * 3) rgb decoder of
            (decoder, rgb, r) \<Rightarrow> (decoder, rgb, map_frame_error r))"

definition convert_nv12_planes ::
  "bool \<Rightarrow> coefficients \<Rightarrow> usize \<Rightarrow> usize \<Rightarrow> v4l2_plane \<Rightarrow> v4l2_plane list \<Rightarrow> u8 list \<Rightarrow> (u8 list) camera_result" where
  "convert_nv12_planes avx2 c w h first planes rgb =
     and_then
       (if length planes = 2 then index_at planes 1
        else
          and_then (ok_or (checked_mul (vp_stride first) h) (invalid_frame ''NV12 plane offset overflow''))
            (\<lambda>offset.
          and_then (ok_or (if offset \<le> length (vp_data first) then Some (drop offset (vp_data first)) else None)
              (invalid_frame ''Truncated NV12 Y plane'')) (\<lambda>data.
            Ok \<lparr>vp_data = data, vp_stride = vp_stride first\<rparr>))) (\<lambda>second.
     and_then (check_rows first w h) (\<lambda>_.
     and_then (check_rows second w (div_ceil h 2)) (\<lambda>_.
       yuv420sp_to_rgb_with_coefficients_into avx2
         \<lparr>sp_y = vp_data first, sp_uv = vp_data second, sp_y_stride = vp_stride first,
          sp_uv_stride = vp_stride second, sp_vu_order = False\<rparr> w h c rgb)))"

text \<open>One row of an \<open>RGB\<close> or \<open>Gray\<close> frame; \<open>copy_from_slice\<close> panics on different lengths.\<close>

definition packed_row :: "video_format \<Rightarrow> u8 list \<Rightarrow> u8 list \<Rightarrow> (u8 list) camera_result" where
  "packed_row format row_in row_out =
     (case format of
        RGB \<Rightarrow> if length row_out = length row_in then Ok row_in else Panic
      | Gray \<Rightarrow> for_each (\<lambda>i out. and_then (index_at row_in i) (\<lambda>gray. write_at out (3 * i) [gray, gray, gray]))
          [0..<min (length row_out div 3) (length row_in)] row_out
      | _ \<Rightarrow> Panic)"

definition convert_packed_planes ::
  "bool \<Rightarrow> coefficients \<Rightarrow> video_format \<Rightarrow> usize \<Rightarrow> usize \<Rightarrow> v4l2_plane \<Rightarrow> u8 list \<Rightarrow> (u8 list) camera_result" where
  "convert_packed_planes avx2 c format w h first rgb =
     and_then (unwrap (bytes_per_pixel format)) (\<lambda>bytes.
     and_then (ok_or (checked_mul w bytes) (invalid_frame ''V4L2 row size overflow'')) (\<lambda>row_bytes.
     and_then (check_rows first row_bytes h) (\<lambda>_.
       if format \<in> {YUYV, UYVY}
       then yuv422_to_rgb_with_coefficients_into avx2 (vp_data first) w h (vp_stride first)
         (format = UYVY) c rgb
       else for_each (\<lambda>row out.
           and_then (sub_slice (vp_data first) (row * vp_stride first) row_bytes) (\<lambda>row_in.
             modify_slice out (row * w * 3) (w * 3) (packed_row format row_in))) [0..<h] rgb)))"

definition v4l2_convert ::
  "bool \<Rightarrow> 'j jpeg option \<Rightarrow> 'j v4l2_converter \<Rightarrow> camera_config \<Rightarrow> v4l2_plane list \<Rightarrow> u8 list \<Rightarrow>
     'j v4l2_converter \<times> (u8 list) camera_result" where
  "v4l2_convert avx2 jpeg self config planes rgb =
     (let w = unat (cfg_width config); h = unat (cfg_height config); c = vc_coefficients self
      in case and_then (config_validate config) (\<lambda>_.
           and_then (ok_or (Option.bind (checked_mul w h) (\<lambda>n. checked_mul n 3))
             (invalid_frame ''V4L2 RGB dimensions overflow'')) (\<lambda>n.
           if length rgb < n then Err (invalid_frame ''V4L2 RGB output is too short'')
           else and_then (ok_or (if planes = [] then None else Some (hd planes))
             (invalid_frame ''V4L2 frame has no planes'')) (\<lambda>first.
           if length planes \<noteq> 1 \<and> \<not> (cfg_format config = NV12 \<and> length planes = 2)
           then Err (invalid_frame ''Unexpected V4L2 plane count'')
           else Ok first))) of
        Err e \<Rightarrow> (self, Err e)
      | Panic \<Rightarrow> (self, Panic)
      | Ok first \<Rightarrow>
          (case cfg_format config of
             MJPEG \<Rightarrow>
               (case jpeg of
                  None \<Rightarrow> (self, Err (unsupported_format ''MJPEG decoding requires the decode-mjpeg feature''))
                | Some J \<Rightarrow>
                    (case decode_with J (vc_jpeg self) (vp_data first) (v4l2_decode_jpeg J w h) rgb of
                       (decoder, rgb, r) \<Rightarrow> (self\<lparr>vc_jpeg := decoder\<rparr>, and_then r (\<lambda>_. Ok rgb))))
           | NV12 \<Rightarrow> (self, convert_nv12_planes avx2 c w h first planes rgb)
           | VideoH264 \<Rightarrow> (self, Err (unsupported_format (''V4L2 cannot decode '' @ video_format_debug VideoH264)))
           | format \<Rightarrow> (self, convert_packed_planes avx2 c format w h first rgb)))"

section \<open>Codes are read back\<close>

lemma from_to_le_bytes: "from_le_bytes (to_le_bytes code) = code"
proof (rule bit_word_eqI)
  fix n
  assume "n < LENGTH(32)"
  then consider "n < 8" | "8 \<le> n" "n < 16" | "16 \<le> n" "n < 24" | "24 \<le> n" "n < 32"
    using not_less by fastforce
  then show "bit (from_le_bytes (to_le_bytes code)) n = bit code n"
    by cases (auto simp: from_le_bytes_def to_le_bytes_def bit_simps)
qed

lemma to_from_le_bytes: "to_le_bytes (from_le_bytes [a, b, c, d]) = [a, b, c, d]"
  by (auto simp: from_le_bytes_def to_le_bytes_def intro!: bit_word_eqI)
    (auto simp: bit_simps not_less dest: bit_imp_le_length)

lemma byte_strings:
  "byte_string ''MJPG'' = [77, 74, 80, 71]" "byte_string ''YUYV'' = [89, 85, 89, 86]"
  "byte_string ''UYVY'' = [85, 89, 86, 89]" "byte_string ''NV12'' = [78, 86, 49, 50]"
  "byte_string ''NM12'' = [78, 77, 49, 50]" "byte_string ''RGB3'' = [82, 71, 66, 51]"
  "byte_string ''GREY'' = [71, 82, 69, 89]"
  by (simp_all add: byte_string_def)

lemma to_fourcc_Ok: "to_fourcc f = Ok c \<Longrightarrow> from_fourcc c = Some f"
  by (cases f) (auto simp: to_fourcc_def from_fourcc_def Let_def byte_strings to_from_le_bytes)

lemma from_fourcc_Some:
  "from_fourcc code = Some f \<longleftrightarrow>
     to_fourcc f = Ok code \<or> f = NV12 \<and> code = from_le_bytes (byte_string ''NM12'')"
proof
  assume "from_fourcc code = Some f"
  then show "to_fourcc f = Ok code \<or> f = NV12 \<and> code = from_le_bytes (byte_string ''NM12'')"
    using from_to_le_bytes [of code]
    by (auto simp: to_fourcc_def from_fourcc_def Let_def split: if_splits)
next
  assume "to_fourcc f = Ok code \<or> f = NV12 \<and> code = from_le_bytes (byte_string ''NM12'')"
  then show "from_fourcc code = Some f"
  proof
    assume "f = NV12 \<and> code = from_le_bytes (byte_string ''NM12'')"
    then show ?thesis by (simp add: from_fourcc_def Let_def byte_strings to_from_le_bytes)
  qed (rule to_fourcc_Ok)
qed

end
