(* ===== verification/Color_Contract.thy ===== *)
theory Color_Contract
  imports Color_Yuv422 Color_Converter Color_8888
begin

text \<open>
  The contract of a conversion to RGB, as a locale: an accepted input fills the front of the buffer
  with its image and any other is an error.  Every function of
  \<open>src/utils/color_convert.rs\<close> that clients call meets it (the interpretations below); the clients'
  facts are proved once: no panic, no influence of the processor or of what the buffer held before,
  and nothing written behind the image.
\<close>

locale rgb_conversion =
  fixes convert :: "bool \<Rightarrow> 'i \<Rightarrow> u8 list \<Rightarrow> (u8 list) camera_result"
    and source_ok :: "'i \<Rightarrow> bool"
    and accepts :: "'i \<Rightarrow> u8 list \<Rightarrow> bool"
    and pixels :: "'i \<Rightarrow> nat"
    and image :: "'i \<Rightarrow> nat \<Rightarrow> u8 list"
  assumes converts_image:
      "source_ok x \<Longrightarrow> length rgb < usize_bound \<Longrightarrow> accepts x rgb \<Longrightarrow>
       convert avx2 x rgb = Ok (filled (image x) (pixels x) rgb)"
    and rejects:
      "source_ok x \<Longrightarrow> length rgb < usize_bound \<Longrightarrow> \<not> accepts x rgb \<Longrightarrow>
       \<exists>e. convert avx2 x rgb = Err e"
    and accepts_room: "accepts x rgb \<Longrightarrow> 3 * pixels x \<le> length rgb"
    and accepts_length: "accepts x rgb \<Longrightarrow> length other = length rgb \<Longrightarrow> accepts x other"
    and pixel_length: "length (image x i) = 3"
begin

lemma image_length: "length (parts (image x) n) = 3 * n"
  by (induction n) (simp_all add: parts_Suc pixel_length)

lemma outcome:
  assumes "source_ok x" "length rgb < usize_bound"
  obtains "accepts x rgb" "convert avx2 x rgb = Ok (filled (image x) (pixels x) rgb)"
  | e where "\<not> accepts x rgb" "convert avx2 x rgb = Err e"
  using converts_image [OF assms] rejects [OF assms] by blast

lemma never_panics: "source_ok x \<Longrightarrow> length rgb < usize_bound \<Longrightarrow> convert avx2 x rgb \<noteq> Panic"
  by (erule (1) outcome [of x rgb avx2]) simp_all

lemma converted:
  assumes "source_ok x" "length rgb < usize_bound" "convert avx2 x rgb = Ok out"
  shows "accepts x rgb" "out = filled (image x) (pixels x) rgb"
  by (rule outcome [OF assms(1,2), of avx2]; use assms(3) in simp)+

lemma processor_irrelevant:
  "source_ok x \<Longrightarrow> length rgb < usize_bound \<Longrightarrow> convert avx2 x rgb = Ok out \<Longrightarrow> convert avx2' x rgb = Ok out"
  using converted [of x rgb avx2 out] converts_image [of x rgb avx2'] by simp

lemma keeps_length:
  "source_ok x \<Longrightarrow> length rgb < usize_bound \<Longrightarrow> convert avx2 x rgb = Ok out \<Longrightarrow> length out = length rgb"
  using converted [of x rgb avx2 out] accepts_room [of x rgb] by (simp add: length_filled image_length)

lemma keeps_rest:
  "source_ok x \<Longrightarrow> length rgb < usize_bound \<Longrightarrow> convert avx2 x rgb = Ok out \<Longrightarrow>
   drop (3 * pixels x) out = drop (3 * pixels x) rgb"
  using converted [of x rgb avx2 out] by (simp add: filled_def image_length)

text \<open>A buffer from a pool leaks nothing of the frame it held before.\<close>

lemma no_stale_bytes:
  assumes "source_ok x" "length rgb < usize_bound" "length other = length rgb" "length rgb = 3 * pixels x"
    and "convert avx2 x rgb = Ok out"
  shows "convert avx2' x other = Ok out"
proof -
  have "accepts x other" "out = filled (image x) (pixels x) rgb"
    using converted [OF assms(1,2,5)] accepts_length [of x rgb other] assms(3) by simp_all
  moreover have "filled (image x) (pixels x) rgb = filled (image x) (pixels x) other"
    using assms(3,4) by (simp add: filled_def image_length)
  ultimately show ?thesis using converts_image [OF assms(1)] assms(2,3) by simp
qed

end

lemma if_then: "(if b then P else Q) \<Longrightarrow> b \<Longrightarrow> P" and if_else: "(if b then P else Q) \<Longrightarrow> \<not> b \<Longrightarrow> Q"
  by simp_all

section \<open>The conversions that meet it\<close>

text \<open>Planar 4:2:0: the three planes, width, height and coefficients.\<close>

type_synonym planar_image = "(yuv_plane \<times> yuv_plane \<times> yuv_plane) \<times> nat \<times> nat \<times> coefficients"

definition planar_ok :: "planar_image \<Rightarrow> bool" where
  "planar_ok = (\<lambda>((y, u, v), _).
     length (yp_data y) < usize_bound \<and> length (yp_data u) < usize_bound \<and> length (yp_data v) < usize_bound)"

interpretation planar: rgb_conversion
  "\<lambda>avx2 ((y, u, v), w, h, c). yuv420_to_rgb_with_coefficients_into avx2 y u v w h c" planar_ok
  "\<lambda>((y, u, v), w, h, c). yuv420_accepts y u v w h" "\<lambda>(_, w, h, _). w * h"
  "\<lambda>((y, u, v), w, h, c). reference_pixel c y u v w"
  by unfold_locales
    (auto simp: planar_ok_def yuv420_accepts_def intro: yuv420_total [THEN if_then] dest: yuv420_total [THEN if_else])

interpretation planar_half: rgb_conversion
  "\<lambda>avx2 ((y, u, v), w, h, c). yuv420_to_rgb_half_with_coefficients_into avx2 y u v w h c" planar_ok
  "\<lambda>((y, u, v), w, h, c). yuv420_half_accepts y u v w h" "\<lambda>(_, w, h, _). w div 2 * (h div 2)"
  "\<lambda>((y, u, v), w, h, c). sampled w (reference_pixel c y u v w)"
  by unfold_locales
    (auto simp: planar_ok_def yuv420_half_accepts_def sampled_def intro: yuv420_half_total [THEN if_then] dest: yuv420_half_total [THEN if_else])

text \<open>Semi-planar 4:2:0, packed 4:2:2 (source, width, height, stride, order, coefficients), and packed
  8888 (channel offsets, the answer of the SSSE3 detection, source, width, height, stride).\<close>

definition semiplanar_ok :: "yuv420sp \<times> nat \<times> nat \<times> coefficients \<Rightarrow> bool" where
  "semiplanar_ok = (\<lambda>(p, _). length (sp_y p) < usize_bound \<and> length (sp_uv p) < usize_bound)"

interpretation semiplanar: rgb_conversion
  "\<lambda>avx2 (p, w, h, c). yuv420sp_to_rgb_with_coefficients_into avx2 p w h c" semiplanar_ok
  "\<lambda>(p, w, h, _). yuv420sp_accepts p w h" "\<lambda>(_, w, h, _). w * h" "\<lambda>(p, w, h, c). sp_reference c p w"
  by unfold_locales
    (auto simp: semiplanar_ok_def yuv420sp_accepts_def intro: yuv420sp_total [THEN if_then] dest: yuv420sp_total [THEN if_else])

interpretation semiplanar_half: rgb_conversion
  "\<lambda>avx2 (p, w, h, c). yuv420sp_to_rgb_half_with_coefficients_into avx2 p w h c" semiplanar_ok
  "\<lambda>(p, w, h, _). yuv420sp_half_accepts p w h" "\<lambda>(_, w, h, _). w div 2 * (h div 2)"
  "\<lambda>(p, w, h, c). sampled w (sp_reference c p w)"
  by unfold_locales
    (auto simp: semiplanar_ok_def yuv420sp_half_accepts_def sampled_def
      intro: yuv420sp_half_total [THEN if_then] dest: yuv420sp_half_total [THEN if_else])

definition packed_ok :: "u8 list \<times> 'a \<Rightarrow> bool" where
  "packed_ok = (\<lambda>(source, _). length source < usize_bound)"

interpretation packed422: rgb_conversion
  "\<lambda>avx2 (source, w, h, stride, uyvy, c). yuv422_to_rgb_with_coefficients_into avx2 source w h stride uyvy c" packed_ok
  "\<lambda>(source, w, h, stride, _). yuv422_accepts source w h stride" "\<lambda>(_, w, h, _). w * h"
  "\<lambda>(source, w, h, stride, uyvy, c). yuv422_reference uyvy c source stride w"
  by unfold_locales
    (auto simp: packed_ok_def yuv422_accepts_def intro: yuv422_total [THEN if_then] dest: yuv422_total [THEN if_else])

interpretation packed422_half: rgb_conversion
  "\<lambda>avx2 (source, w, h, stride, uyvy, c). yuv422_to_rgb_half_with_coefficients_into avx2 source w h stride uyvy c" packed_ok
  "\<lambda>(source, w, h, stride, _). yuv422_half_accepts source w h stride" "\<lambda>(_, w, h, _). w div 2 * (h div 2)"
  "\<lambda>(source, w, h, stride, uyvy, c). sampled w (yuv422_reference uyvy c source stride w)"
  by unfold_locales
    (auto simp: packed_ok_def yuv422_half_accepts_def sampled_def
      intro: yuv422_half_total [THEN if_then] dest: yuv422_half_total [THEN if_else])

definition channels_ok :: "(nat \<times> nat \<times> nat) \<times> bool \<times> u8 list \<times> nat \<times> nat \<times> nat \<Rightarrow> bool" where
  "channels_ok = (\<lambda>((r, g, b), _, packed, _). r < 4 \<and> g < 4 \<and> b < 4 \<and> length packed < usize_bound)"

interpretation packed_8888: rgb_conversion
  "\<lambda>avx2 ((r, g, b), has_ssse3, packed, w, h, stride). packed_8888_to_rgb_into avx2 has_ssse3 r g b packed w h stride" channels_ok
  "\<lambda>(_, _, packed, w, h, stride). packed_8888_accepts packed w h stride" "\<lambda>(_, _, _, w, h, _). w * h"
  "\<lambda>((r, g, b), _, packed, w, h, stride). packed_8888_reference r g b packed stride w"
  by unfold_locales
    (auto simp: channels_ok_def packed_8888_accepts_def packed_8888_reference_def Let_def
      intro: packed_8888_total [THEN if_then] dest: packed_8888_total [THEN if_else])

end
