(* ===== verification/V4l2_Image.thy ===== *)
theory V4l2_Image
  imports V4l2_Convert Color_Contract
begin

text \<open>
  What the V4L2 converter computes: a frame whose planes hold all the rows of the negotiated format
  becomes the image of its pixels, and any other raw frame is an error.
\<close>

section \<open>Frames that fit and their pixels\<close>

definition plane_rows :: "v4l2_plane \<Rightarrow> nat \<Rightarrow> nat \<Rightarrow> bool" where
  "plane_rows p row_bytes height \<longleftrightarrow>
     0 < row_bytes \<and> 0 < height \<and> row_bytes \<le> vp_stride p
     \<and> (height - 1) * vp_stride p + row_bytes \<le> length (vp_data p)"

text \<open>The chroma plane of an NV12 frame: the second one, or the rest of the first.\<close>

definition chroma_plane :: "nat \<Rightarrow> v4l2_plane list \<Rightarrow> v4l2_plane" where
  "chroma_plane h planes =
     (if length planes = 2 then planes ! 1
      else (hd planes)\<lparr>vp_data := drop (vp_stride (hd planes) * h) (vp_data (hd planes))\<rparr>)"

definition nv12_view :: "nat \<Rightarrow> v4l2_plane list \<Rightarrow> yuv420sp" where
  "nv12_view h planes =
     \<lparr>sp_y = vp_data (hd planes), sp_uv = vp_data (chroma_plane h planes), sp_y_stride = vp_stride (hd planes),
      sp_uv_stride = vp_stride (chroma_plane h planes), sp_vu_order = False\<rparr>"

definition v4l2_fits :: "video_format \<Rightarrow> nat \<Rightarrow> nat \<Rightarrow> v4l2_plane list \<Rightarrow> bool" where
  "v4l2_fits format w h planes \<longleftrightarrow>
     (case format of
        YUYV \<Rightarrow> length planes = 1 \<and> plane_rows (hd planes) (2 * w) h
      | UYVY \<Rightarrow> length planes = 1 \<and> plane_rows (hd planes) (2 * w) h
      | RGB \<Rightarrow> length planes = 1 \<and> plane_rows (hd planes) (3 * w) h
      | Gray \<Rightarrow> length planes = 1 \<and> plane_rows (hd planes) w h
      | NV12 \<Rightarrow>
          (length planes = 2 \<or> length planes = 1 \<and> vp_stride (hd planes) * h \<le> length (vp_data (hd planes)))
          \<and> plane_rows (hd planes) w h \<and> plane_rows (chroma_plane h planes) w (div_ceil h 2)
      | _ \<Rightarrow> False)"

definition v4l2_pixel ::
  "video_format \<Rightarrow> coefficients \<Rightarrow> nat \<Rightarrow> nat \<Rightarrow> v4l2_plane list \<Rightarrow> nat \<Rightarrow> u8 list" where
  "v4l2_pixel format c w h planes i =
     (let first = hd planes; start = i div w * vp_stride first
      in case format of
           RGB \<Rightarrow> row_pixel (drop start (vp_data first)) (i mod w)
         | Gray \<Rightarrow> replicate 3 (vp_data first ! (start + i mod w))
         | NV12 \<Rightarrow> sp_reference c (nv12_view h planes) w i
         | _ \<Rightarrow> yuv422_reference (format = UYVY) c (vp_data first) (vp_stride first) w i)"

lemma length_v4l2_pixel [simp]: "length (v4l2_pixel format c w h planes i) = 3"
  by (cases format) (simp_all add: v4l2_pixel_def Let_def reference_pixel_def)

section \<open>The checks\<close>

lemma check_rows_iff:
  assumes "length (vp_data p) < usize_bound"
  shows "check_rows p row_bytes height =
    (if plane_rows p row_bytes height then Ok ()
     else Err (invalid_frame ''V4L2 frame has invalid stride or truncated data''))"
  using assms
  by (auto simp: check_rows_def plane_rows_def checked_sub_def checked_mul_def checked_add_def)

lemma plane_row:
  assumes "plane_rows p row_bytes height" "row < height"
  shows "row * vp_stride p + row_bytes \<le> length (vp_data p)"
proof -
  have "row * vp_stride p \<le> (height - 1) * vp_stride p" using assms(2) by (intro mult_le_mono1) simp
  then show ?thesis using assms(1) unfolding plane_rows_def by linarith
qed

section \<open>Packed rows\<close>

lemma replicate_three: "replicate 3 x = [x, x, x]"
  by (simp add: numeral_3_eq_3)

lemma packed_row_exact:
  assumes "format = RGB \<and> length row_in = 3 * w \<or> format = Gray \<and> length row_in = w" "length out = 3 * w"
  shows "packed_row format row_in out
    = Ok (parts (\<lambda>i. if format = RGB then row_pixel row_in i else replicate 3 (row_in ! i)) w)"
proof (cases "format = RGB")
  case True
  then show ?thesis using assms bytes_as_pixels [of row_in w] by (simp add: packed_row_def)
next
  case False
  then have gray: "format = Gray" "length row_in = w" using assms(1) by auto
  let ?p = "\<lambda>i. [row_in ! i, row_in ! i, row_in ! i]"
  have "(for_each (\<lambda>i out. and_then (index_at row_in i) (\<lambda>gray. write_at out (3 * i) [gray, gray, gray])) [0..<w]
      (filled ?p 0 out) :: (u8 list) camera_result) = Ok (filled ?p w out)"
    by (rule upto_loop) (use gray assms(2) in \<open>simp_all add: write_filled [where p = ?p and c = 3] index_at_def\<close>)
  then show ?thesis
    using gray assms(2) by (simp add: packed_row_def filled_all length_parts replicate_three)
qed

lemma packed_rows_exact:
  fixes rgb :: "u8 list"
  assumes f: "format = RGB \<and> n = 3 * w \<or> format = Gray \<and> n = w" and rows: "plane_rows p n h"
    and len: "3 * (w * h) \<le> length rgb"
  shows "for_each (\<lambda>row out. and_then (sub_slice (vp_data p) (row * vp_stride p) n) (\<lambda>row_in.
      modify_slice out (row * w * 3) (w * 3) (packed_row format row_in))) [0..<h] rgb
    = Ok (filled (v4l2_pixel format c w h [p]) (w * h) rgb)"
proof -
  define f where "f row = packed_row format (take n (drop (row * vp_stride p) (vp_data p)))" for row
  have w: "0 < w" using f rows by (auto simp: plane_rows_def)
  have block: "f row out = Ok (parts (\<lambda>i. v4l2_pixel format c w h [p] (w * row + i)) w)"
    if "row < h" "length out = 3 * w" for row out
  proof -
    let ?row = "take n (drop (row * vp_stride p) (vp_data p))"
    have len: "length ?row = n" using plane_row [OF rows that(1)] by simp
    have "f row out = Ok (parts (\<lambda>i. if format = RGB then row_pixel ?row i else replicate 3 (?row ! i)) w)"
      unfolding f_def by (rule packed_row_exact) (use f len that in auto)
    also have "\<dots> = Ok (parts (\<lambda>i. v4l2_pixel format c w h [p] (w * row + i)) w)"
      using f len plane_row [OF rows that(1)] w
      by (auto intro!: parts_cong simp: v4l2_pixel_def row_pixel_def Let_def)
    finally show ?thesis .
  qed
  show ?thesis
    by (rule group_loop [where f = f])
      (use block len plane_row [OF rows] in \<open>simp_all add: f_def sub_slice_def mult_ac\<close>)
qed

section \<open>The converter is exact\<close>

lemma config_parity:
  assumes "config_validate config = Ok ()"
  shows "parity_ok (cfg_format config) (unat (cfg_width config)) (unat (cfg_height config))"
    "0 < unat (cfg_width config)" "0 < unat (cfg_height config)"
  using assms
  by (auto simp: config_validate_def frame_size_def frame_data_size_eq unat_gt_0 split: if_splits,
      cases "cfg_format config", auto)

lemma nv12_exact:
  assumes planes: "length planes = 1 \<or> length planes = 2" and bound: "\<And>p. p \<in> set planes \<Longrightarrow> length (vp_data p) < usize_bound"
    and rgb: "3 * (w * h) \<le> length rgb" "length rgb < usize_bound" and w: "even w"
  shows "if v4l2_fits NV12 w h planes
    then convert_nv12_planes avx2 c w h (hd planes) planes rgb = Ok (filled (v4l2_pixel NV12 c w h planes) (w * h) rgb)
    else \<exists>e. convert_nv12_planes avx2 c w h (hd planes) planes rgb = Err e"
proof -
  let ?first = "hd planes" and ?second = "chroma_plane h planes"
  have first: "length (vp_data ?first) < usize_bound" using bound planes by (cases planes) auto
  moreover have "length planes = 2 \<Longrightarrow> planes ! 1 \<in> set planes" by simp
  ultimately have second: "length (vp_data ?second) < usize_bound"
    using bound by (auto simp: chroma_plane_def simp del: nth_mem)
  define whole where "whole \<longleftrightarrow> length planes = 2
    \<or> vp_stride ?first * h < usize_bound \<and> vp_stride ?first * h \<le> length (vp_data ?first)"
  have select: "(if length planes = 2 then index_at planes 1
      else and_then (ok_or (checked_mul (vp_stride ?first) h) (invalid_frame ''NV12 plane offset overflow'')) (\<lambda>offset.
        and_then (ok_or (if offset \<le> length (vp_data ?first) then Some (drop offset (vp_data ?first)) else None)
            (invalid_frame ''Truncated NV12 Y plane'')) (\<lambda>data.
          Ok \<lparr>vp_data = data, vp_stride = vp_stride ?first\<rparr>)))
      = (if whole then Ok ?second else Err (invalid_frame
          (if vp_stride ?first * h < usize_bound then ''Truncated NV12 Y plane'' else ''NV12 plane offset overflow'')))"
    by (auto simp: whole_def chroma_plane_def index_at_def checked_mul_def ok_or_def)
  have fits: "v4l2_fits NV12 w h planes \<longleftrightarrow> whole \<and> plane_rows ?first w h \<and> plane_rows ?second w (div_ceil h 2)"
    using planes first by (auto simp: v4l2_fits_def whole_def)
  have even: "2 * div_ceil w 2 = w" using w by (simp add: div_ceil_def even_iff_mod_2_eq_zero)
  have accepts: "yuv420sp_accepts (nv12_view h planes) w h rgb"
    if "plane_rows ?first w h" "plane_rows ?second w (div_ceil h 2)"
    using that rgb(1) by (auto simp: yuv420sp_accepts_def nv12_view_def plane_rows_def plane_covers_def sp_luma_def even)
  have pixel: "v4l2_pixel NV12 c w h planes = sp_reference c (nv12_view h planes) w"
    by (simp add: v4l2_pixel_def fun_eq_iff)
  have "yuv420sp_to_rgb_with_coefficients_into avx2 (nv12_view h planes) w h c rgb
      = Ok (filled (v4l2_pixel NV12 c w h planes) (w * h) rgb)"
    if "plane_rows ?first w h" "plane_rows ?second w (div_ceil h 2)"
    unfolding pixel using yuv420sp_total [of "nv12_view h planes" rgb w h avx2 c] accepts [OF that] first second rgb(2)
    by (simp add: nv12_view_def)
  then show ?thesis
    unfolding convert_nv12_planes_def select fits
    using check_rows_iff [OF first, of w h] check_rows_iff [OF second, of w "div_ceil h 2"]
    by (simp add: nv12_view_def)
qed

lemma packed_exact:
  assumes f: "format \<in> {YUYV, UYVY, RGB, Gray}" and bound: "length (vp_data p) < usize_bound"
    and rgb: "3 * (w * h) \<le> length rgb" "length rgb < usize_bound" and w: "parity_ok format w h" and small: "w < 4294967296"
  shows "if v4l2_fits format w h [p]
    then convert_packed_planes avx2 c format w h p rgb = Ok (filled (v4l2_pixel format c w h [p]) (w * h) rgb)
    else \<exists>e. convert_packed_planes avx2 c format w h p rgb = Err e"
proof -
  define n where "n = (if format = RGB then 3 * w else if format = Gray then w else 2 * w)"
  have row: "convert_packed_planes avx2 c format w h p rgb = and_then (check_rows p n h) (\<lambda>_.
        if format \<in> {YUYV, UYVY}
        then yuv422_to_rgb_with_coefficients_into avx2 (vp_data p) w h (vp_stride p) (format = UYVY) c rgb
        else for_each (\<lambda>row out.
            and_then (sub_slice (vp_data p) (row * vp_stride p) n) (\<lambda>row_in.
              modify_slice out (row * w * 3) (w * 3) (packed_row format row_in))) [0..<h] rgb)"
    using f small by (auto simp: convert_packed_planes_def n_def unwrap_def checked_mul_def ok_or_def usize_bound_def mult.commute)
  have fits: "v4l2_fits format w h [p] \<longleftrightarrow> plane_rows p n h"
    using f by (auto simp: v4l2_fits_def n_def)
  show ?thesis
  proof (cases "plane_rows p n h")
    case False
    then show ?thesis using fits check_rows_iff [OF bound, of n h] by (simp add: row)
  next
    case rows: True
    show ?thesis
    proof (cases "format \<in> {YUYV, UYVY}")
      case True
      then have "yuv422_accepts (vp_data p) w h (vp_stride p) rgb"
        using rows w rgb(1) by (auto simp: yuv422_accepts_def plane_rows_def n_def)
      then have "yuv422_to_rgb_with_coefficients_into avx2 (vp_data p) w h (vp_stride p) (format = UYVY) c rgb
          = Ok (filled (yuv422_reference (format = UYVY) c (vp_data p) (vp_stride p) w) (w * h) rgb)"
        using yuv422_total [OF bound rgb(2)] by simp
      moreover have "v4l2_pixel format c w h [p] = yuv422_reference (format = UYVY) c (vp_data p) (vp_stride p) w"
        using True by (auto simp: v4l2_pixel_def Let_def)
      ultimately show ?thesis using True fits rows check_rows_iff [OF bound, of n h] by (simp add: row)
    next
      case False
      then have "format = RGB \<and> n = 3 * w \<or> format = Gray \<and> n = w" using f by (auto simp: n_def)
      from packed_rows_exact [OF this rows rgb(1), of c] False show ?thesis
        using fits rows check_rows_iff [OF bound, of n h] by (simp add: row)
    qed
  qed
qed

lemma v4l2_convert_spec:
  assumes "\<forall>p \<in> set planes. length (vp_data p) < usize_bound" "length rgb < usize_bound"
    and "cfg_format config \<noteq> MJPEG"
  defines "w \<equiv> unat (cfg_width config)" and "h \<equiv> unat (cfg_height config)"
  shows "\<exists>r. v4l2_convert avx2 jpeg self config planes rgb = (self, r)
    \<and> (if config_validate config = Ok () \<and> 3 * (w * h) \<le> length rgb \<and> v4l2_fits (cfg_format config) w h planes
       then r = Ok (filled (v4l2_pixel (cfg_format config) (vc_coefficients self) w h planes) (w * h) rgb)
       else (\<exists>e. r = Err e))"
proof -
  let ?f = "cfg_format config" and ?c = "vc_coefficients self"
  have total: "config_validate config = Ok () \<or> (\<exists>e. config_validate config = Err e)"
    by (simp add: config_validate_def)
  have planes: "v4l2_fits ?f w h planes \<Longrightarrow> length planes = 1 \<or> length planes = 2 \<and> ?f = NV12"
    by (auto simp: v4l2_fits_def split: video_format.splits)
  show ?thesis
  proof (cases "config_validate config = Ok () \<and> 3 * (w * h) \<le> length rgb
      \<and> (length planes = 1 \<or> length planes = 2 \<and> ?f = NV12)")
    case False
    then have "\<exists>e. v4l2_convert avx2 jpeg self config planes rgb = (self, Err e)"
      using total assms(2) unfolding w_def h_def
      by (auto simp: v4l2_convert_def checked_mul_def ok_or_def Let_def)
    with False planes show ?thesis by auto
  next
    case True
    then have ready: "config_validate config = Ok ()" "3 * (w * h) \<le> length rgb" by auto
    have first: "planes \<noteq> []" "length (vp_data (hd planes)) < usize_bound" using True assms(1) by (cases planes; auto)+
    have size: "w * h < usize_bound" "w * h * 3 < usize_bound" using ready(2) assms(2) by linarith+
    note parity = config_parity [OF ready(1), folded w_def h_def]
    have single: "?f \<noteq> NV12 \<Longrightarrow> planes = [hd planes]" using True by (cases planes) auto
    have start: "v4l2_convert avx2 jpeg self config planes rgb = (self,
        if ?f = NV12 then convert_nv12_planes avx2 ?c w h (hd planes) planes rgb
        else if ?f = VideoH264 then Err (unsupported_format (''V4L2 cannot decode '' @ video_format_debug VideoH264))
        else convert_packed_planes avx2 ?c ?f w h (hd planes) rgb)"
      using True assms(3) first(1) size unfolding w_def h_def
      by (cases ?f) (auto simp: v4l2_convert_def checked_mul_def ok_or_def Let_def)
    consider "?f = NV12" | "?f = VideoH264" | "?f \<in> {YUYV, UYVY, RGB, Gray}"
      using assms(3) by (cases ?f) auto
    then show ?thesis
    proof cases
      case 1
      from nv12_exact [of planes w h rgb avx2 ?c] True assms(1,2) ready parity 1 start show ?thesis by auto
    next
      case 2
      with start show ?thesis by (simp add: v4l2_fits_def)
    next
      case 3
      have "w < 4294967296" by (simp add: w_def)
      from packed_exact [OF 3 first(2) ready(2) assms(2) parity(1) this, of avx2 ?c] single 3 start ready
      show ?thesis by (auto split: if_splits)
    qed
  qed
qed

text \<open>The converter of a stream meets the contract of a conversion to RGB.\<close>

definition raw_ok :: "'j jpeg option \<times> 'j v4l2_converter \<times> camera_config \<times> v4l2_plane list \<Rightarrow> bool" where
  "raw_ok = (\<lambda>(_, _, config, planes).
     cfg_format config \<noteq> MJPEG \<and> (\<forall>p \<in> set planes. length (vp_data p) < usize_bound))"

definition raw_pixels :: "'j jpeg option \<times> 'j v4l2_converter \<times> camera_config \<times> v4l2_plane list \<Rightarrow> nat" where
  "raw_pixels = (\<lambda>(_, _, config, _). unat (cfg_width config) * unat (cfg_height config))"

definition raw_accepts :: "'j jpeg option \<times> 'j v4l2_converter \<times> camera_config \<times> v4l2_plane list \<Rightarrow> u8 list \<Rightarrow> bool" where
  "raw_accepts = (\<lambda>(jpeg, self, config, planes) rgb.
     config_validate config = Ok () \<and> 3 * raw_pixels (jpeg, self, config, planes) \<le> length rgb
     \<and> v4l2_fits (cfg_format config) (unat (cfg_width config)) (unat (cfg_height config)) planes)"

definition raw_pixel :: "'j jpeg option \<times> 'j v4l2_converter \<times> camera_config \<times> v4l2_plane list \<Rightarrow> nat \<Rightarrow> u8 list" where
  "raw_pixel = (\<lambda>(_, self, config, planes).
     v4l2_pixel (cfg_format config) (vc_coefficients self) (unat (cfg_width config)) (unat (cfg_height config)) planes)"

interpretation raw: rgb_conversion
  "\<lambda>avx2 (jpeg, self, config, planes) rgb. snd (v4l2_convert avx2 jpeg self config planes rgb)"
  raw_ok raw_accepts raw_pixels raw_pixel
proof
  fix x :: "'j jpeg option \<times> 'j v4l2_converter \<times> camera_config \<times> v4l2_plane list" and rgb other :: "u8 list" and avx2 i
  obtain jpeg self config planes where x: "x = (jpeg, self, config, planes)" using prod_cases4 .
  note defs = x raw_ok_def raw_pixels_def raw_accepts_def raw_pixel_def
  show "(\<lambda>(jpeg, self, config, planes) rgb. snd (v4l2_convert avx2 jpeg self config planes rgb)) x rgb
      = Ok (filled (raw_pixel x) (raw_pixels x) rgb)"
    if "raw_ok x" "length rgb < usize_bound" "raw_accepts x rgb"
    using that v4l2_convert_spec [of planes rgb config avx2 jpeg self] by (auto simp: defs)
  show "\<exists>e. (\<lambda>(jpeg, self, config, planes) rgb. snd (v4l2_convert avx2 jpeg self config planes rgb)) x rgb = Err e"
    if "raw_ok x" "length rgb < usize_bound" "\<not> raw_accepts x rgb"
    using that v4l2_convert_spec [of planes rgb config avx2 jpeg self] by (auto simp: defs)
  show "raw_accepts x rgb \<Longrightarrow> 3 * raw_pixels x \<le> length rgb"
    "raw_accepts x rgb \<Longrightarrow> length other = length rgb \<Longrightarrow> raw_accepts x other"
    "length (raw_pixel x i) = 3"
    by (simp_all add: defs)
qed

text \<open>C20: The conversion of a raw V4L2 buffer is exact.  A valid configuration whose planes hold all
  their rows, converted into a large enough buffer, gives the image of its pixels: copied, repeated or
  converted with the stream's coefficients by whichever kernel the processor has.  Any other number of
  planes, stride or length is an error; nothing panics, whatever the driver delivered.\<close>

theorem v4l2_convert_exact:
  assumes "\<forall>p \<in> set planes. length (vp_data p) < usize_bound" "length rgb < usize_bound"
    and "cfg_format config \<noteq> MJPEG"
  defines "w \<equiv> unat (cfg_width config)" and "h \<equiv> unat (cfg_height config)"
  shows "\<exists>r. v4l2_convert avx2 jpeg self config planes rgb = (self, r)
    \<and> (if config_validate config = Ok () \<and> 3 * (w * h) \<le> length rgb \<and> v4l2_fits (cfg_format config) w h planes
       then r = Ok (filled (v4l2_pixel (cfg_format config) (vc_coefficients self) w h planes) (w * h) rgb)
       else (\<exists>e. r = Err e))"
  using v4l2_convert_spec [OF assms(1-3)] unfolding w_def h_def by blast

lemma v4l2_convert_exact_witness:
  "v4l2_convert True (None :: unit jpeg option) \<lparr>vc_jpeg = None, vc_coefficients = BT601_FULL_COEFFICIENTS\<rparr>
     (camera_config_new Gray 2 2 30) [\<lparr>vp_data = [1, 2, 0, 3, 4], vp_stride = 3\<rparr>] (replicate 12 0)
   = (\<lparr>vc_jpeg = None, vc_coefficients = BT601_FULL_COEFFICIENTS\<rparr>, Ok [1, 1, 1, 2, 2, 2, 3, 3, 3, 4, 4, 4])"
proof -
  let ?self = "\<lparr>vc_jpeg = None, vc_coefficients = BT601_FULL_COEFFICIENTS\<rparr> :: unit v4l2_converter"
  let ?planes = "[\<lparr>vp_data = [1, 2, 0, 3, 4], vp_stride = 3\<rparr>] :: v4l2_plane list"
  have four: "parts p 4 = p 0 @ p 1 @ p 2 @ p 3" for p :: "nat \<Rightarrow> u8 list"
    by (simp add: parts_Suc eval_nat_numeral)
  have image: "filled (v4l2_pixel Gray BT601_FULL_COEFFICIENTS 2 2 ?planes) 4 (replicate 12 0)
      = [1, 1, 1, 2, 2, 2, 3, 3, 3, 4, 4, 4]"
    by (simp add: filled_def four v4l2_pixel_def replicate_three)
  have valid: "config_validate (camera_config_new Gray 2 2 30) = Ok ()"
    by (simp add: config_validate_def camera_config_new_def frame_size_def frame_data_size_def
        checked_pixel_count_def checked_mul_def usize_bound_def)
  have fits: "v4l2_fits Gray 2 2 ?planes" by (simp add: v4l2_fits_def plane_rows_def)
  from v4l2_convert_exact [of ?planes "replicate 12 0" "camera_config_new Gray 2 2 30" True
      "None :: unit jpeg option" ?self] image valid fits
  show ?thesis by (auto simp: camera_config_new_def usize_bound_def)
qed

end
