(* ===== verification/V4l2_Modes.thy ===== *)
theory V4l2_Modes
  imports V4l2_Convert Negotiate Capabilities
begin

text \<open>
  The modes of a V4L2 device (\<open>src/backends/v4l2/camera.rs\<close>): enumeration of formats, sizes and
  frame intervals, the rates and sizes the crate advertises, the check of a configuration, the
  negotiated configuration and the layout of native frames.

  The calls of \<open>native.rs\<close> that reach the kernel are parameters: a record of functions of the state
  \<open>'d\<close> of an open descriptor.  They answer with the error number and its text.
\<close>

section \<open>The kernel interface\<close>

record os_error =
  os_code :: "int option"
  os_text :: string

record v4l2_format =
  vf_fourcc :: u32
  vf_width :: u32
  vf_height :: u32
  vf_fps :: u32
  vf_fps_denominator :: u32
  vf_strides :: "u32 \<times> u32"
  vf_planes :: u32
  vf_ycbcr :: u32
  vf_full_range :: u32

definition v4l2_format_default :: v4l2_format where
  "v4l2_format_default =
     \<lparr>vf_fourcc = 0, vf_width = 0, vf_height = 0, vf_fps = 0, vf_fps_denominator = 0,
      vf_strides = (0, 0), vf_planes = 0, vf_ycbcr = 0, vf_full_range = 0\<rparr>"

record v4l2_size =
  vs_kind :: u32
  vs_min_w :: u32
  vs_max_w :: u32
  vs_step_w :: u32
  vs_min_h :: u32
  vs_max_h :: u32
  vs_step_h :: u32

record v4l2_interval =
  vi_kind :: u32
  vi_min_n :: u32
  vi_min_d :: u32
  vi_max_n :: u32
  vi_max_d :: u32
  vi_step_n :: u32
  vi_step_d :: u32

record v4l2_control =
  vctl_min :: i32
  vctl_max :: i32
  vctl_step :: i32
  vctl_def :: i32
  vctl_read_only :: u32

text \<open>\<open>nt_open\<close> is \<open>open\<close> of the path with the probe of the device.\<close>

record 'd v4l2_native =
  nt_open :: "string \<Rightarrow> 'd camera_result"
  nt_formats :: "'d \<Rightarrow> u32 \<Rightarrow> (u32 option, os_error) result"
  nt_sizes :: "'d \<Rightarrow> u32 \<Rightarrow> u32 \<Rightarrow> (v4l2_size option, os_error) result"
  nt_intervals :: "'d \<Rightarrow> u32 \<Rightarrow> u32 \<Rightarrow> u32 \<Rightarrow> u32 \<Rightarrow> (v4l2_interval option, os_error) result"
  nt_try_format :: "'d \<Rightarrow> v4l2_format \<Rightarrow> (v4l2_format, os_error) result"
  nt_query_control :: "'d \<Rightarrow> u32 \<Rightarrow> (v4l2_control, os_error) result"
  nt_get_control :: "'d \<Rightarrow> u32 \<Rightarrow> (i32, os_error) result"
  nt_set_control :: "u32 \<Rightarrow> i32 \<Rightarrow> 'd \<Rightarrow> 'd \<times> (unit, os_error) result"
  nt_exposure_modes :: "'d \<Rightarrow> (u32, os_error) result"
  nt_auto_exposure :: "bool \<Rightarrow> 'd \<Rightarrow> 'd \<times> (unit, os_error) result"

text \<open>\<open>?\<close> on an \<open>std::io::Result\<close>.\<close>

fun map_error :: "('e \<Rightarrow> 'f) \<Rightarrow> ('a, 'e) result \<Rightarrow> ('a, 'f) result" where
  "map_error f (Ok x) = Ok x"
| "map_error f (Err e) = Err (f e)"
| "map_error f Panic = Panic"

definition from_os :: "('a, os_error) result \<Rightarrow> 'a camera_result" where
  "from_os = map_error (\<lambda>e. io_error_from (os_text e))"

text \<open>
  \<open>for i in 0..n { let Some(x) = get(i)? else { break }; ... }\<close>: the body answers whether to break.
\<close>

fun enumerate_from ::
  "nat list \<Rightarrow> (u32 \<Rightarrow> ('a option, os_error) result) \<Rightarrow> ('a \<Rightarrow> 's \<Rightarrow> ('s \<times> bool) camera_result) \<Rightarrow> 's \<Rightarrow>
     's camera_result" where
  "enumerate_from [] get body s = Ok s"
| "enumerate_from (i # is) get body s =
     and_then (from_os (get (of_nat i))) (\<lambda>r.
       case r of
         None \<Rightarrow> Ok s
       | Some x \<Rightarrow> and_then (body x s) (\<lambda>(s, stop). if stop then Ok s else enumerate_from is get body s))"

section \<open>Sizes\<close>

definition step_multiple :: "u32 \<Rightarrow> u32 \<Rightarrow> u32 \<Rightarrow> bool" where
  "step_multiple value minimum step = ((value - minimum) mod max step 1 = 0)"

definition common_resolutions :: "(u32 \<times> u32) list" where
  "common_resolutions =
     [(320, 240), (640, 480), (800, 600), (1024, 768), (1280, 720), (1280, 960), (1920, 1080),
      (2560, 1440), (3840, 2160)]"

definition dimension_listed :: "v4l2_size \<Rightarrow> u32 \<times> u32 \<Rightarrow> bool" where
  "dimension_listed extent d =
     (case d of (w, h) \<Rightarrow>
        vs_min_w extent \<le> w \<and> w \<le> vs_max_w extent \<and> vs_min_h extent \<le> h \<and> h \<le> vs_max_h extent
        \<and> step_multiple w (vs_min_w extent) (vs_step_w extent)
        \<and> step_multiple h (vs_min_h extent) (vs_step_h extent))"

definition dimensions :: "v4l2_size \<Rightarrow> (u32 \<times> u32) list" where
  "dimensions extent =
     fold (\<lambda>d result. if dimension_listed extent d \<and> d \<notin> set result then result @ [d] else result)
       ([(vs_min_w extent, vs_min_h extent), (vs_max_w extent, vs_max_h extent)] @ common_resolutions) []"

definition size_supports :: "v4l2_size \<Rightarrow> u32 \<Rightarrow> u32 \<Rightarrow> bool" where
  "size_supports extent width height \<longleftrightarrow>
     vs_min_w extent \<le> width \<and> width \<le> vs_max_w extent \<and> vs_min_h extent \<le> height \<and> height \<le> vs_max_h extent
     \<and> (vs_kind extent = 2
        \<or> step_multiple width (vs_min_w extent) (vs_step_w extent)
          \<and> step_multiple height (vs_min_h extent) (vs_step_h extent))"

definition size_supported :: "'d v4l2_native \<Rightarrow> 'd \<Rightarrow> u32 \<Rightarrow> u32 \<Rightarrow> u32 \<Rightarrow> bool camera_result" where
  "size_supported N fd code width height =
     enumerate_from [0..<4096] (nt_sizes N fd code)
       (\<lambda>extent _. Ok (if size_supports extent width height then (True, True) else (False, vs_kind extent \<noteq> 1)))
       False"

section \<open>Frame intervals\<close>

text \<open>The arithmetic is \<open>i128\<close>, which products of three \<open>u32\<close> values do not leave.\<close>

definition interval_supports :: "v4l2_interval \<Rightarrow> frame_rate \<Rightarrow> bool" where
  "interval_supports interval rate =
     (if vi_min_n interval = 0 \<or> vi_min_d interval = 0 \<or> vi_max_n interval = 0 \<or> vi_max_d interval = 0
      then False
      else
        let target_n = uint (fr_denominator rate);
            target_d = uint (fr_numerator rate);
            min_n = uint (vi_min_n interval);
            min_d = uint (vi_min_d interval);
            max_n = uint (vi_max_n interval);
            max_d = uint (vi_max_d interval)
        in if target_n * min_d < min_n * target_d \<or> target_n * max_d > max_n * target_d then False
           else if vi_kind interval = 1 then target_n * min_d = min_n * target_d
           else if vi_kind interval = 2 then True
           else if vi_step_n interval = 0 \<or> vi_step_d interval = 0 then False
           else
             let delta_n = target_n * min_d - min_n * target_d;
                 delta_d = target_d * min_d;
                 scaled_delta = delta_n * uint (vi_step_d interval);
                 scaled_step = delta_d * uint (vi_step_n interval)
             in scaled_step \<noteq> 0 \<and> scaled_delta mod scaled_step = 0)"

definition frame_rate_supported ::
  "'d v4l2_native \<Rightarrow> 'd \<Rightarrow> u32 \<Rightarrow> u32 \<Rightarrow> u32 \<Rightarrow> frame_rate \<Rightarrow> bool camera_result" where
  "frame_rate_supported N fd code width height rate =
     enumerate_from [0..<4096] (nt_intervals N fd code width height)
       (\<lambda>interval _. Ok (if interval_supports interval rate then (True, True)
          else (False, vi_kind interval \<noteq> 1)))
       False"

text \<open>
  The aligned common rates, in \<open>f64\<close>: quotients and differences are rounded; \<open>round()\<close> is exact, and
  the last difference is compared with the \<open>f64\<close> nearest to \<open>1e-8\<close>.
\<close>

definition f64_less :: "nat \<times> int \<Rightarrow> nat \<times> int \<Rightarrow> bool" where
  "f64_less a b \<longleftrightarrow>
     (let e = min (snd a) (snd b)
      in fst a * 2 ^ nat (snd a - e) < fst b * 2 ^ nat (snd b - e))"

definition f64_divide :: "nat \<times> int \<Rightarrow> nat \<times> int \<Rightarrow> nat \<times> int" where
  "f64_divide a b =
     f64_of_ratio0 (fst a * 2 ^ nat (snd a) * 2 ^ nat (- snd b)) (fst b * 2 ^ nat (snd b) * 2 ^ nat (- snd a))"

definition f64_round :: "nat \<times> int \<Rightarrow> nat \<times> int" where
  "f64_round x =
     f64_of_ratio0 ((2 * fst x * 2 ^ nat (snd x) + 2 ^ nat (- snd x)) div (2 * 2 ^ nat (- snd x))) 1"

definition rate_aligned :: "v4l2_interval \<Rightarrow> nat \<times> int \<Rightarrow> nat \<times> int \<Rightarrow> bool" where
  "rate_aligned interval duration minimum \<longleftrightarrow>
     vi_kind interval = 2
     \<or> vi_step_n interval \<noteq> 0 \<and> vi_step_d interval \<noteq> 0
       \<and> (let step = f64_of_ratio (unat (vi_step_n interval)) (unat (vi_step_d interval));
              steps = f64_divide (f64_distance duration minimum) step
          in f64_less (f64_distance steps (f64_round steps)) (f64_of_ratio 1 100000000))"

definition common_rates :: "u32 list" where
  "common_rates = [1, 5, 10, 15, 24, 25, 30, 50, 60, 90, 120, 240, 480]"

definition add_common_rate ::
  "v4l2_interval \<Rightarrow> frame_rate \<Rightarrow> frame_rate \<Rightarrow> u32 \<Rightarrow> frame_rate list \<Rightarrow> frame_rate list" where
  "add_common_rate interval slowest fastest fps rates =
     (let duration = f64_inverse (f64_of_ratio (unat fps) 1);
          minimum = f64_inverse (as_f64 fastest);
          maximum = f64_inverse (as_f64 slowest);
          rate = \<lparr>fr_numerator = fps, fr_denominator = 1\<rparr>
      in if f64_less duration minimum \<or> f64_less maximum duration then rates
         else if rate_aligned interval duration minimum \<and> rate \<notin> set rates then rates @ [rate]
         else rates)"

text \<open>\<open>sort_unstable\<close> by the order of \<open>FrameRate\<close>, which is that of the ratios (\<open>frame_rate_ord\<close>).\<close>

definition interval_rates :: "v4l2_interval \<Rightarrow> frame_rate list" where
  "interval_rates interval =
     (case (frame_rate_new (vi_min_d interval) (vi_min_n interval),
            frame_rate_new (vi_max_d interval) (vi_max_n interval)) of
        (Ok fastest, Ok slowest) \<Rightarrow>
          if vi_kind interval = 1 then [fastest]
          else sort_key rate_of (fold (add_common_rate interval slowest fastest) common_rates [slowest, fastest])
      | _ \<Rightarrow> [])"

definition push_new :: "'a \<Rightarrow> 'a list \<Rightarrow> 'a list" where
  "push_new x xs = (if x \<in> set xs then xs else xs @ [x])"

definition frame_rates :: "'d v4l2_native \<Rightarrow> 'd \<Rightarrow> u32 \<Rightarrow> u32 \<Rightarrow> u32 \<Rightarrow> (frame_rate list) camera_result" where
  "frame_rates N fd code w h =
     and_then
       (enumerate_from [0..<4096] (nt_intervals N fd code w h)
         (\<lambda>interval rates. Ok (fold push_new (interval_rates interval) rates, vi_kind interval \<noteq> 1)) [])
       (\<lambda>rates. Ok (rev (sort_key rate_of rates)))"

section \<open>Configurations\<close>

text \<open>\<open>format!("{:08x}")\<close>.\<close>

definition show_hex8 :: "u32 \<Rightarrow> string" where
  "show_hex8 w = map (\<lambda>i. hex_digit (unat w div 16 ^ (7 - i) mod 16)) [0..<8]"

definition device_path :: "u32 \<Rightarrow> string" where
  "device_path index = ''/dev/video'' @ show_nat (unat index)"

definition mode_config_of :: "video_format \<Rightarrow> u32 \<Rightarrow> u32 \<Rightarrow> frame_rate \<Rightarrow> camera_config" where
  "mode_config_of format w h fps = with_frame_rate (camera_config_new format w h (fr_numerator fps)) fps"

text \<open>The loops over the rates of a size, the sizes of a format, and the formats.\<close>

definition size_configs ::
  "'d v4l2_native \<Rightarrow> 'd \<Rightarrow> u32 \<Rightarrow> video_format \<Rightarrow> u32 \<times> u32 \<Rightarrow> camera_config list \<Rightarrow> (camera_config list) camera_result" where
  "size_configs N fd code format d configs =
     (case d of (w, h) \<Rightarrow>
        and_then (frame_rates N fd code w h) (\<lambda>rates.
          Ok (fold (\<lambda>fps configs.
              let config = mode_config_of format w h fps
              in if is_ok (config_validate config) then push_new config configs else configs) rates configs)))"

definition format_configs ::
  "'d v4l2_native \<Rightarrow> 'd \<Rightarrow> u32 \<Rightarrow> camera_config list \<Rightarrow> (camera_config list) camera_result" where
  "format_configs N fd code configs =
     (case from_fourcc code of
        None \<Rightarrow> Ok configs
      | Some format \<Rightarrow>
          enumerate_from [0..<4096] (nt_sizes N fd code) (\<lambda>extent configs.
            and_then (for_each (size_configs N fd code format) (dimensions extent) configs)
              (\<lambda>configs. Ok (configs, vs_kind extent \<noteq> 1))) configs)"

definition get_supported_configs :: "'d v4l2_native \<Rightarrow> u32 \<Rightarrow> (camera_config list) camera_result" where
  "get_supported_configs N device_index =
     and_then (nt_open N (device_path device_index)) (\<lambda>fd.
       enumerate_from [0..<1024] (nt_formats N fd)
         (\<lambda>code configs. and_then (format_configs N fd code configs) (\<lambda>configs. Ok (configs, False))) [])"

definition requested_format :: "'d v4l2_native \<Rightarrow> 'd \<Rightarrow> camera_config \<Rightarrow> v4l2_format camera_result" where
  "requested_format N fd config =
     and_then (to_fourcc (cfg_format config)) (\<lambda>preferred.
     and_then
       (enumerate_from [0..<1024] (nt_formats N fd) (\<lambda>code selected.
          Ok (if from_fourcc code = Some (cfg_format config) then (Some code, code = preferred)
              else (selected, False))) None) (\<lambda>selected.
     and_then
       (ok_or selected (unsupported_format
         (''V4L2 device does not advertise '' @ video_format_debug (cfg_format config)))) (\<lambda>code.
       Ok (v4l2_format_default
         \<lparr>vf_fourcc := code, vf_width := cfg_width config, vf_height := cfg_height config,
          vf_fps := cfg_fps config, vf_fps_denominator := cfg_fps_denominator config\<rparr>))))"

text \<open>\<open>EINVAL\<close> and \<open>ENOTSUP\<close> of Linux.\<close>

definition unsupported_code :: "os_error \<Rightarrow> bool" where
  "unsupported_code e \<longleftrightarrow> os_code e \<in> {Some 22, Some 95}"

definition is_config_supported :: "'d v4l2_native \<Rightarrow> u32 \<Rightarrow> camera_config \<Rightarrow> bool camera_result" where
  "is_config_supported N device_index config =
     (if \<not> is_ok (config_validate config) \<or> \<not> is_ok (to_fourcc (cfg_format config)) then Ok False
      else
        and_then (nt_open N (device_path device_index)) (\<lambda>fd.
        and_then (to_fourcc (cfg_format config)) (\<lambda>code.
        and_then (size_supported N fd code (cfg_width config) (cfg_height config)) (\<lambda>supported.
        if \<not> supported then Ok False
        else
          case requested_format N fd config of
            Err e \<Rightarrow> if err_kind e = UnsupportedFormat then Ok False else Err e
          | Panic \<Rightarrow> Panic
          | Ok format \<Rightarrow>
              (case nt_try_format N fd format of
                 Err e \<Rightarrow> if unsupported_code e then Ok False else Err (io_error_from (os_text e))
               | Panic \<Rightarrow> Panic
               | Ok format \<Rightarrow>
                   if vf_width format = cfg_width config \<and> vf_height format = cfg_height config
                     \<and> from_fourcc (vf_fourcc format) = Some (cfg_format config)
                   then and_then (config_frame_rate config) (\<lambda>rate.
                     frame_rate_supported N fd (vf_fourcc format) (cfg_width config) (cfg_height config) rate)
                   else Ok False)))))"

definition requested_configs ::
  "'d v4l2_native \<Rightarrow> u32 \<Rightarrow> capture_request \<Rightarrow> camera_config list \<Rightarrow> (camera_config list) camera_result" where
  "requested_configs N device_index request advertised =
     (let formats = remdups_adj (sort_key video_format_index
          (if cr_preferred_formats request = [] then map cfg_format advertised
           else map video_of_capture (cr_preferred_formats request)))
      in for_each (\<lambda>format requested.
           let config = with_frame_rate (camera_config_new format (cr_width request) (cr_height request)
                 (fr_numerator (cr_preferred_fps request))) (cr_preferred_fps request)
           in and_then (is_config_supported N device_index config) (\<lambda>supported.
                Ok (if supported then requested @ [config] else requested))) formats [])"

definition config_from_format :: "v4l2_format \<Rightarrow> camera_config camera_result" where
  "config_from_format format =
     and_then (ok_or (from_fourcc (vf_fourcc format))
       (unsupported_format (''V4L2 negotiated fourcc 0x'' @ show_hex8 (vf_fourcc format)))) (\<lambda>pixel_format.
     if vf_planes format \<noteq> 1 \<and> \<not> (pixel_format = NV12 \<and> vf_planes format = 2)
     then Err (unsupported_format ''Unsupported V4L2 plane layout'')
     else if vf_fps format = 0
     then Err (unsupported_format ''V4L2 driver does not report a frame interval'')
     else
       and_then (frame_rate_new (vf_fps format) (vf_fps_denominator format)) (\<lambda>rate.
       let config = with_frame_rate
             (camera_config_new pixel_format (vf_width format) (vf_height format) (vf_fps format)) rate
       in and_then (config_validate config) (\<lambda>_. Ok config)))"

section \<open>Capability ranges\<close>

definition range_kind :: "u32 \<Rightarrow> capability_range_kind" where
  "range_kind kind = (if kind = 1 then RangeDiscrete else if kind = 2 then RangeContinuous else RangeStepwise)"

definition interval_range :: "v4l2_interval \<Rightarrow> u32 \<times> u32 \<Rightarrow> frame_interval_range list" where
  "interval_range interval resolution =
     (if vi_kind interval \<noteq> 1 \<and> vi_min_n interval > 0 \<and> vi_min_d interval > 0
        \<and> vi_max_n interval > 0 \<and> vi_max_d interval > 0
      then [\<lparr>fir_kind = range_kind (vi_kind interval),
             fir_minimum = \<lparr>fi_numerator = vi_min_n interval, fi_denominator = vi_min_d interval\<rparr>,
             fir_maximum = \<lparr>fi_numerator = vi_max_n interval, fi_denominator = vi_max_d interval\<rparr>,
             fir_step =
               (if vi_kind interval = 3 \<and> vi_step_n interval > 0 \<and> vi_step_d interval > 0
                then Some \<lparr>fi_numerator = vi_step_n interval, fi_denominator = vi_step_d interval\<rparr>
                else None),
             fir_at_resolution = resolution\<rparr>]
      else [])"

definition v4l2_device_capabilities ::
  "features \<Rightarrow> 'd v4l2_native \<Rightarrow> u32 \<Rightarrow> device_capabilities camera_result" where
  "v4l2_device_capabilities feats N device_index =
     and_then (get_supported_configs N device_index) (\<lambda>configurations.
     and_then (nt_open N (device_path device_index)) (\<lambda>fd.
     and_then
       (enumerate_from [0..<1024] (nt_formats N fd) (\<lambda>code ranges.
         case from_fourcc code of
           None \<Rightarrow> Ok (ranges, False)
         | Some format \<Rightarrow>
             and_then
               (enumerate_from [0..<4096] (nt_sizes N fd code) (\<lambda>extent ranges.
                 and_then
                   (for_each (\<lambda>(w, h). enumerate_from [0..<4096] (nt_intervals N fd code w h)
                      (\<lambda>interval intervals.
                        Ok (intervals @ interval_range interval (w, h), vi_kind interval \<noteq> 1)))
                     (dimensions extent) [])
                   (\<lambda>frame_intervals.
                     let range = \<lparr>cmr_format = capture_of_video format, cmr_kind = range_kind (vs_kind extent),
                           cmr_width = \<lparr>dr_minimum = vs_min_w extent, dr_maximum = vs_max_w extent,
                             dr_step = max (vs_step_w extent) 1\<rparr>,
                           cmr_height = \<lparr>dr_minimum = vs_min_h extent, dr_maximum = vs_max_h extent,
                             dr_step = max (vs_step_h extent) 1\<rparr>,
                           cmr_frame_intervals = frame_intervals\<rparr>
                     in Ok (if vs_kind extent \<noteq> 1 \<or> frame_intervals \<noteq> [] then ranges @ [range] else ranges,
                            vs_kind extent \<noteq> 1))) ranges)
               (\<lambda>ranges. Ok (ranges, False))) []) (\<lambda>ranges.
       Ok (with_ranges (from_configurations feats configurations) ranges))))"

section \<open>The layout of a native frame\<close>

definition pixel_of_video :: "video_format \<Rightarrow> pixel_format camera_result" where
  "pixel_of_video format =
     (case format of
        MJPEG \<Rightarrow> Ok Mjpeg
      | YUYV \<Rightarrow> Ok Yuyv
      | UYVY \<Rightarrow> Ok Uyvy
      | NV12 \<Rightarrow> Ok Nv12
      | RGB \<Rightarrow> Ok Rgb8
      | Gray \<Rightarrow> Ok Gray8
      | _ \<Rightarrow> Err (unsupported_format ''V4L2 native layout''))"

definition v4l2_color :: "v4l2_format \<Rightarrow> color_info" where
  "v4l2_color native = color_info_default
     \<lparr>ci_matrix := (case v4l2_matrix (vf_ycbcr native) of Some m \<Rightarrow> m | None \<Rightarrow> MatrixUnknown),
      ci_range := (if vf_full_range native \<noteq> 0 then RangeFull else RangeLimited)\<rparr>"

definition native_layout ::
  "camera_config \<Rightarrow> v4l2_format \<Rightarrow> v4l2_plane list \<Rightarrow> frame_layout camera_result" where
  "native_layout config native planes =
     and_then (pixel_of_video (cfg_format config)) (\<lambda>format.
     and_then (ok_or (if planes = [] then None else Some (hd planes)) (invalid_frame ''Missing V4L2 plane''))
       (\<lambda>first.
     and_then (if format = Mjpeg then mjpeg_validate (vp_data first) else Ok ()) (\<lambda>_.
     let n = length (vp_data first);
         layout = (packed_layout (cfg_width config) (cfg_height config) format (vp_stride first) n)
           \<lparr>fl_color := v4l2_color native\<rparr>
     in if format \<noteq> Nv12 then Ok layout
        else
          and_then
            (if length planes = 2
             then and_then (index_at planes 1) (\<lambda>second.
               Ok (n, length (vp_data second), vp_stride second, fl_planes layout))
             else
               and_then (ok_or
                   (Option.bind (checked_mul (vp_stride first) (unat (cfg_height config)))
                     (\<lambda>y_len. if y_len < n then Some y_len else None))
                   (invalid_frame ''Truncated V4L2 NV12'')) (\<lambda>y_len.
                 Ok (y_len, n - y_len, vp_stride first,
                     map (\<lambda>p. p\<lparr>pl_length := y_len\<rparr>) (fl_planes layout)))) (\<lambda>(offset, len, stride, planes).
            Ok (layout\<lparr>fl_planes := planes @
              [\<lparr>pl_offset = offset, pl_length = len, pl_row_stride = stride, pl_pixel_stride = 2\<rparr>]\<rparr>)))))"

section \<open>Errors of the start\<close>

text \<open>The error numbers of Linux: \<open>EBUSY\<close>, \<open>EACCES\<close>, \<open>EPERM\<close>, \<open>ENODEV\<close>, \<open>ENXIO\<close>, \<open>EINVAL\<close>,
  \<open>ENOTSUP\<close>, \<open>ETIMEDOUT\<close> and \<open>ENOMEM\<close>.\<close>

definition startup_kind :: "int option \<Rightarrow> camera_error_kind" where
  "startup_kind code =
     (if code = Some 16 then DeviceBusy
      else if code = Some 13 \<or> code = Some 1 then PermissionDenied
      else if code = Some 19 \<or> code = Some 6 then DeviceDisconnected
      else if code = Some 22 \<or> code = Some 95 then UnsupportedFormat
      else if code = Some 110 then Timeout
      else if code = Some 12 then BufferExhausted
      else Io)"

definition startup_error :: "string \<Rightarrow> os_error \<Rightarrow> camera_error" where
  "startup_error operation e =
     (case os_code e of
        Some code \<Rightarrow>
          with_source (error_native (startup_kind (os_code e)) V4L2 Startup operation code (os_text e))
            (SourceIo (os_text e))
      | None \<Rightarrow> with_operation (with_backend (io_error Startup (os_text e)) V4L2) operation)"

end
