(* ===== verification/V4l2_Exact.thy ===== *)
theory V4l2_Exact
  imports V4l2_Modes V4l2_Image
begin

text \<open>
  What the V4L2 modes mean: the arithmetic of frame intervals, the configurations a device is said to
  support, and the native layouts, which accept the frames that the conversion to RGB accepts.
\<close>

section \<open>Frame intervals\<close>

definition ratio :: "u32 \<Rightarrow> u32 \<Rightarrow> rat" where
  "ratio n d = of_int (uint n) / of_int (uint d)"

lemma uint_pos: "(w :: u32) \<noteq> 0 \<Longrightarrow> 0 < uint w"
  by (simp add: uint_0_iff less_le)

lemma int_ratio_le:
  "0 < b \<Longrightarrow> 0 < d \<Longrightarrow> (of_int a / of_int b :: rat) \<le> of_int c / of_int d \<longleftrightarrow> a * d \<le> c * b"
proof -
  assume "0 < b" "0 < d"
  then have "(of_int a / of_int b :: rat) \<le> of_int c / of_int d \<longleftrightarrow> (of_int (a * d) :: rat) \<le> of_int (c * b)"
    by (simp add: field_simps)
  then show ?thesis by (simp only: of_int_le_iff)
qed

lemma int_ratio_step:
  assumes "0 < b" "0 < d" "0 < sd"
  shows "(of_int c / of_int d :: rat) = of_int a / of_int b + of_nat k * (of_int sn / of_int sd)
    \<longleftrightarrow> (c * b - a * d) * sd = int k * (d * b * sn)"
proof -
  have "(of_int c / of_int d :: rat) = of_int a / of_int b + of_nat k * (of_int sn / of_int sd)
      \<longleftrightarrow> (of_int ((c * b - a * d) * sd) :: rat) = of_int (int k * (d * b * sn))"
    using assms by (simp add: field_simps)
  then show ?thesis by (simp only: of_int_eq_iff)
qed

lemma ratio_le_iff: "b \<noteq> 0 \<Longrightarrow> d \<noteq> 0 \<Longrightarrow> ratio a b \<le> ratio c d \<longleftrightarrow> uint a * uint d \<le> uint c * uint b"
  unfolding ratio_def by (rule int_ratio_le) (rule uint_pos, assumption)+

lemma step_mod_iff:
  assumes "b \<noteq> 0" "d \<noteq> 0" "sd \<noteq> 0" "sn \<noteq> 0" "ratio a b \<le> ratio c d"
  shows "(uint c * uint b - uint a * uint d) * uint sd mod (uint d * uint b * uint sn) = 0
    \<longleftrightarrow> (\<exists>k :: nat. ratio c d = ratio a b + of_nat k * ratio sn sd)"
proof -
  define delta where "delta = (uint c * uint b - uint a * uint d) * uint sd"
  define step where "step = uint d * uint b * uint sn"
  have pos: "0 < uint b" "0 < uint d" "0 < uint sd" "0 < uint sn" using assms by (simp_all add: uint_pos)
  then have step: "0 < step" by (simp add: step_def)
  have nonneg: "0 \<le> delta" using assms pos by (simp add: delta_def ratio_le_iff)
  have eq: "ratio c d = ratio a b + of_nat k * ratio sn sd \<longleftrightarrow> delta = int k * step" for k
    unfolding ratio_def delta_def step_def by (rule int_ratio_step) (use pos in simp_all)
  have "delta mod step = 0 \<longleftrightarrow> (\<exists>k. delta = int k * step)"
  proof
    assume "delta mod step = 0"
    then obtain q where q: "delta = q * step" by (metis dvd_eq_mod_eq_0 dvdE mult.commute)
    then have "0 \<le> q" using nonneg step by (simp add: zero_le_mult_iff)
    then show "\<exists>k. delta = int k * step" using q by (intro exI [of _ "nat q"]) simp
  qed auto
  then show ?thesis by (simp add: eq delta_def step_def)
qed



section \<open>Enumeration\<close>

lemma and_then_E:
  assumes "and_then m f = Ok y"
  obtains x where "m = Ok x" "f x = Ok y"
  using assms by (auto simp: result_simps)

lemma enumerate_from_inv:
  assumes "enumerate_from is get body s = Ok s'" "P s"
    and step: "\<And>i x s t stop. P s \<Longrightarrow> get i = Ok (Some x) \<Longrightarrow> body x s = Ok (t, stop) \<Longrightarrow> P t"
  shows "P s'"
  using assms(1,2)
proof (induction "is" arbitrary: s)
  case (Cons i "is")
  show ?case
  proof (cases "get (of_nat i)")
    case (Ok r)
    show ?thesis
    proof (cases r)
      case (Some x)
      with Cons.prems(1) Ok obtain t stop where body: "body x s = Ok (t, stop)"
        and rest: "(if stop then Ok t else enumerate_from is get body t) = Ok s'"
        by (auto simp: from_os_def elim!: and_then_E)
      have "P t" by (rule step [OF Cons.prems(2) _ body, of "of_nat i"]) (simp add: Ok Some)
      then show ?thesis using rest Cons.IH [of t] by (simp split: if_splits)
    qed (use Cons.prems Ok in \<open>simp add: from_os_def\<close>)
  qed (use Cons.prems in \<open>simp_all add: from_os_def\<close>)
qed simp

lemma for_each_inv:
  assumes "for_each f xs s = Ok s'" "P s" "\<And>x s t. x \<in> set xs \<Longrightarrow> P s \<Longrightarrow> f x s = Ok t \<Longrightarrow> P t"
  shows "P s'"
  using assms
proof (induction xs arbitrary: s)
  case (Cons x xs)
  from Cons.prems(1) obtain t where t: "f x s = Ok t" "for_each f xs t = Ok s'" by (auto elim: and_then_E)
  have "P t" by (rule Cons.prems(3) [OF _ Cons.prems(2) t(1)]) simp
  then show ?case by (rule Cons.IH [OF t(2)]) (use Cons.prems(3) in auto)
qed simp

text \<open>A configuration that the device advertises: a format, a size and a rate of its enumerations.\<close>

definition advertised_config :: "'d v4l2_native \<Rightarrow> 'd \<Rightarrow> camera_config \<Rightarrow> bool" where
  "advertised_config N fd c \<longleftrightarrow>
     config_validate c = Ok ()
     \<and> (\<exists>i code j extent rates r.
          nt_formats N fd i = Ok (Some code) \<and> from_fourcc code = Some (cfg_format c)
          \<and> nt_sizes N fd code j = Ok (Some extent) \<and> size_supports extent (cfg_width c) (cfg_height c)
          \<and> frame_rates N fd code (cfg_width c) (cfg_height c) = Ok rates
          \<and> r \<in> set rates \<and> cfg_fps c = fr_numerator r \<and> cfg_fps_denominator c = fr_denominator r)"

definition advertised_list :: "'d v4l2_native \<Rightarrow> 'd \<Rightarrow> camera_config list \<Rightarrow> bool" where
  "advertised_list N fd configs \<longleftrightarrow> distinct configs \<and> (\<forall>c \<in> set configs. advertised_config N fd c)"

lemma dimensions_listed:
  assumes "d \<in> set (dimensions extent)"
  shows "size_supports extent (fst d) (snd d)"
proof -
  have "set (fold (\<lambda>d result. if dimension_listed extent d \<and> d \<notin> set result then result @ [d] else result) ds result)
      \<subseteq> set result \<union> {d. dimension_listed extent d}" for ds result
    by (induction ds arbitrary: result) (simp, fastforce split: if_splits)
  from this [of _ "[]"] have "set (dimensions extent) \<subseteq> {d. dimension_listed extent d}"
    unfolding dimensions_def by (simp only: list.set Un_empty_left)
  with assms have "dimension_listed extent d" by blast
  then show ?thesis by (auto simp: dimension_listed_def size_supports_def)
qed

lemma push_configs:
  assumes "advertised_list N fd configs" "\<And>r. r \<in> set rates \<Longrightarrow> config_validate (mk r) = Ok () \<Longrightarrow> advertised_config N fd (mk r)"
  shows "advertised_list N fd (fold (\<lambda>r configs.
    let config = mk r in if is_ok (config_validate config) then push_new config configs else configs) rates configs)"
  using assms
proof (induction rates arbitrary: configs)
  case (Cons r rates)
  have "is_ok (config_validate c) \<longleftrightarrow> config_validate c = Ok ()" for c by (cases "config_validate c") simp_all
  then show ?case
    unfolding fold_Cons o_apply
    by (intro Cons.IH) (use Cons.prems in \<open>auto simp: advertised_list_def push_new_def Let_def\<close>)
qed simp

lemma size_configs_advertised:
  assumes "size_configs N fd code format d configs = Ok configs'" "advertised_list N fd configs"
    and "nt_formats N fd i = Ok (Some code)" "from_fourcc code = Some format"
    and "nt_sizes N fd code j = Ok (Some extent)" "d \<in> set (dimensions extent)"
  shows "advertised_list N fd configs'"
proof -
  obtain w h where d: "d = (w, h)" by (cases d)
  with assms(1) obtain rates where rates: "frame_rates N fd code w h = Ok rates"
    and configs': "configs' = fold (\<lambda>r configs. let config = mode_config_of format w h r
      in if is_ok (config_validate config) then push_new config configs else configs) rates configs"
    by (auto simp: size_configs_def elim!: and_then_E)
  show ?thesis
    unfolding configs'
    by (rule push_configs [OF assms(2)], unfold advertised_config_def, intro conjI exI)
      (use rates assms(3-6) d dimensions_listed [OF assms(6)] in
        \<open>simp_all add: mode_config_of_def with_frame_rate_def camera_config_new_def\<close>)
qed

lemma format_configs_advertised:
  assumes "format_configs N fd code configs = Ok configs'" "advertised_list N fd configs"
    and "nt_formats N fd i = Ok (Some code)"
  shows "advertised_list N fd configs'"
proof (cases "from_fourcc code")
  case (Some format)
  with assms(1) have "enumerate_from [0..<4096] (nt_sizes N fd code) (\<lambda>extent configs.
      and_then (for_each (size_configs N fd code format) (dimensions extent) configs)
        (\<lambda>configs. Ok (configs, vs_kind extent \<noteq> 1))) configs = Ok configs'"
    by (simp add: format_configs_def)
  then show ?thesis
  proof (rule enumerate_from_inv [where P = "advertised_list N fd"])
    fix j extent s t stop
    assume j: "nt_sizes N fd code j = Ok (Some extent)" and s: "advertised_list N fd s"
      and "and_then (for_each (size_configs N fd code format) (dimensions extent) s)
        (\<lambda>configs. Ok (configs, vs_kind extent \<noteq> 1)) = Ok (t, stop)"
    then have "for_each (size_configs N fd code format) (dimensions extent) s = Ok t"
      by (auto elim!: and_then_E)
    then show "advertised_list N fd t"
      by (rule for_each_inv [where P = "advertised_list N fd"])
        (use s size_configs_advertised [OF _ _ assms(3) Some j] in blast)+
  qed (rule assms(2))
qed (use assms in \<open>simp add: format_configs_def\<close>)


lemma enumerate_single:
  assumes "get 0 = Ok (Some x)" "get 1 = Ok None" "2 \<le> n"
  shows "enumerate_from [0..<n] get body s = and_then (body x s) (\<lambda>(t, _). Ok t)"
proof -
  have "[0..<n] = 0 # 1 # [2..<n]" using assms(3) by (simp add: upt_conv_Cons numeral_2_eq_2)
  then show ?thesis using assms(1,2) by (auto simp: from_os_def intro!: arg_cong [where f = "and_then (body x s)"])
qed

text \<open>A device with one format, one size and one rate.\<close>

definition example_native :: "unit v4l2_native" where
  "example_native =
     \<lparr>nt_open = (\<lambda>_. Ok ()),
      nt_formats = (\<lambda>_ i. Ok (if i = 0 then Some (from_le_bytes (byte_string ''YUYV'')) else None)),
      nt_sizes = (\<lambda>_ _ i. Ok (if i = 0
        then Some \<lparr>vs_kind = 1, vs_min_w = 640, vs_max_w = 640, vs_step_w = 0, vs_min_h = 480, vs_max_h = 480,
          vs_step_h = 0\<rparr> else None)),
      nt_intervals = (\<lambda>_ _ _ _ i. Ok (if i = 0
        then Some \<lparr>vi_kind = 1, vi_min_n = 1, vi_min_d = 30, vi_max_n = 1, vi_max_d = 30, vi_step_n = 0,
          vi_step_d = 0\<rparr> else None)),
      nt_try_format = (\<lambda>_ f. Ok f),
      nt_query_control = (\<lambda>_ _. Err \<lparr>os_code = Some 22, os_text = ''unsupported''\<rparr>),
      nt_get_control = (\<lambda>_ _. Err \<lparr>os_code = Some 22, os_text = ''unsupported''\<rparr>),
      nt_set_control = (\<lambda>_ _ d. (d, Ok ())),
      nt_exposure_modes = (\<lambda>_. Ok 0),
      nt_auto_exposure = (\<lambda>_ d. (d, Ok ()))\<rparr>"

lemma example_configs: "get_supported_configs example_native 0 = Ok [camera_config_new YUYV 640 480 30]"
proof -
  have rate: "frame_rate_new 30 1 = Ok \<lparr>fr_numerator = 30, fr_denominator = 1\<rparr>"
    by (rule frame_rate_new_unique) (simp_all add: valid_frame_rate_def)
  have rates: "frame_rates example_native () code w h = Ok [\<lparr>fr_numerator = 30, fr_denominator = 1\<rparr>]" for code w h
    unfolding frame_rates_def
    by (subst enumerate_single [where x = "\<lparr>vi_kind = 1, vi_min_n = 1, vi_min_d = 30, vi_max_n = 1, vi_max_d = 30,
        vi_step_n = 0, vi_step_d = 0\<rparr>"])
      (simp_all add: example_native_def interval_rates_def rate push_new_def)
  have code: "from_fourcc (from_le_bytes (byte_string ''YUYV'')) = Some YUYV"
    by (rule to_fourcc_Ok) (simp add: to_fourcc_def)
  have dims: "dimensions \<lparr>vs_kind = 1, vs_min_w = 640, vs_max_w = 640, vs_step_w = 0, vs_min_h = 480,
      vs_max_h = 480, vs_step_h = 0\<rparr> = [(640, 480)]"
    by (simp add: dimensions_def common_resolutions_def dimension_listed_def step_multiple_def)
  have configs: "format_configs example_native () (from_le_bytes (byte_string ''YUYV'')) []
      = Ok [camera_config_new YUYV 640 480 30]"
    unfolding format_configs_def code option.case
    by (subst enumerate_single [where x = "\<lparr>vs_kind = 1, vs_min_w = 640, vs_max_w = 640, vs_step_w = 0,
        vs_min_h = 480, vs_max_h = 480, vs_step_h = 0\<rparr>"])
      (simp_all add: dims size_configs_def rates, simp_all add: example_native_def mode_config_of_def with_frame_rate_def
        camera_config_new_def config_validate_def frame_size_def frame_data_size_def checked_pixel_count_def
        checked_mul_def usize_bound_def push_new_def)
  have "nt_open example_native p = Ok ()" for p by (simp add: example_native_def)
  moreover have "enumerate_from [0..<1024] (nt_formats example_native ()) body [] =
      and_then (body (from_le_bytes (byte_string ''YUYV'')) []) (\<lambda>(t, _). Ok t)" for body :: "_ \<Rightarrow> camera_config list \<Rightarrow> _"
    by (rule enumerate_single) (simp_all add: example_native_def)
  ultimately show ?thesis by (simp add: get_supported_configs_def configs)
qed


section \<open>Native layouts\<close>

lemma layout_valid_iff:
  assumes "len < usize_bound"
  shows "layout_validate l len = Ok () \<longleftrightarrow>
    fl_width l \<noteq> 0 \<and> fl_height l \<noteq> 0 \<and> or_rotation_degrees (fl_orientation l) \<in> {0, 90, 180, 270}
    \<and> (\<exists>specs. plane_specs (fl_format l) (unat (fl_width l)) (unat (fl_height l)) = Some specs
        \<and> list_all2 (plane_fits (fl_format l) len) (fl_planes l) specs)"
  using validate_plane_Ok [OF assms, of "fl_format l"]
  by (auto simp: layout_validate_def validate_planes_Ok list_all2_iff split: option.splits)

text \<open>A V4L2 frame has a valid native layout exactly when its conversion to RGB would succeed: for
  a valid uncompressed configuration and a frame with the planes of its format, the layout that
  \<open>native_layout\<close> builds passes validation on the published bytes if and only if the planes hold all
  their rows, so a stream in native output accepts the frames that the same stream in RGB output does.\<close>

theorem native_layout_consistent:
  assumes "config_validate config = Ok ()" "\<not> is_compressed (cfg_format config)"
    and "length planes = (if cfg_format config = NV12 \<and> two then 2 else 1)"
    and "sum_list (map (\<lambda>p. length (vp_data p)) planes) < usize_bound"
  shows "(\<exists>l. native_layout config native planes = Ok l
      \<and> layout_validate l (sum_list (map (\<lambda>p. length (vp_data p)) planes)) = Ok ())
    \<longleftrightarrow> v4l2_fits (cfg_format config) (unat (cfg_width config)) (unat (cfg_height config)) planes"
proof -
  let ?w = "unat (cfg_width config)" and ?h = "unat (cfg_height config)" and ?f = "cfg_format config"
  note parity = config_parity [OF assms(1)]
  have nonzero: "cfg_width config \<noteq> 0" "cfg_height config \<noteq> 0" using parity by auto
  obtain p rest where planes: "planes = p # rest" using assms(3) by (cases planes) (auto split: if_splits)
  have row: "(?w - 1) * 2 + 2 = 2 * ?w" "(?w - 1) * 3 + 3 = 3 * ?w" "(?w - 1) * 1 + 1 = ?w"
    using parity by (simp_all add: diff_mult_distrib)
  consider "?f = NV12" | "?f \<in> {YUYV, UYVY, RGB, Gray}" using assms(2) by (cases ?f) auto
  then show ?thesis
  proof cases
    case 2
    then have rest: "rest = []" using assms(3) planes by auto
    have len: "length (vp_data p) < usize_bound" using assms(4) planes rest by simp
    show ?thesis
      using 2 planes rest parity nonzero row
      by (auto simp: native_layout_def pixel_of_video_def ok_or_def packed_layout_def orientation_default_def
          layout_valid_iff [OF len] plane_fits_def v4l2_fits_def plane_rows_def is_encoded_def is_packed_422_def Let_def)
  next
    case 1
    have even: "even ?w" "even ?h" using parity(1) 1 by auto
    then have half: "2 * div_ceil ?w 2 = ?w" "div_ceil ?w 2 \<noteq> 0" using parity(2) by (auto simp: div_ceil_def)
    then have chroma: "(div_ceil ?w 2 - 1) * 2 + 2 = ?w" by (cases "div_ceil ?w 2") simp_all
    have columns: "Suc (Suc ((div_ceil ?w 2 - Suc 0) * 2)) = ?w" "Suc (?w - Suc 0) = ?w" "0 < ?w"
      "0 < ?h" "0 < div_ceil ?h 2"
      using chroma parity by (auto simp: div_ceil_two_pos)
    show ?thesis
    proof (cases rest)
      case Nil
      let ?y = "vp_stride p * ?h" and ?n = "length (vp_data p)"
      have len: "?n < usize_bound" using assms(4) planes Nil by simp
      have layout: "native_layout config native planes = (if ?y < ?n
          then Ok ((packed_layout (cfg_width config) (cfg_height config) Nv12 (vp_stride p) ?n)
            \<lparr>fl_color := v4l2_color native, fl_planes :=
              [\<lparr>pl_offset = 0, pl_length = ?y, pl_row_stride = vp_stride p, pl_pixel_stride = 1\<rparr>,
               \<lparr>pl_offset = ?y, pl_length = ?n - ?y, pl_row_stride = vp_stride p, pl_pixel_stride = 2\<rparr>]\<rparr>)
          else Err (invalid_frame ''Truncated V4L2 NV12''))"
        using 1 planes Nil len
        by (auto simp: native_layout_def pixel_of_video_def ok_or_def packed_layout_def checked_mul_def Let_def)
      have total: "sum_list (map (\<lambda>p. length (vp_data p)) planes) = ?n" using planes Nil by simp
      have rows: "(?h - Suc 0) * vp_stride p + ?w \<le> vp_stride p * ?h" if "?w \<le> vp_stride p"
        using that columns(4) by (cases ?h) (simp_all add: mult.commute)
      show ?thesis
        unfolding layout total
        using 1 planes Nil nonzero columns
        by (auto simp: layout_valid_iff [OF len] packed_layout_def orientation_default_def plane_fits_def
            v4l2_fits_def plane_rows_def chroma_plane_def is_encoded_def is_packed_422_def intro: rows)
    next
      case (Cons q qs)
      then have q: "rest = [q]" using assms(3) planes 1 by (auto split: if_splits)
      then have len: "length (vp_data p) + length (vp_data q) < usize_bound" using assms(4) planes by simp
      have layout: "native_layout config native planes =
          Ok ((packed_layout (cfg_width config) (cfg_height config) Nv12 (vp_stride p) (length (vp_data p)))
            \<lparr>fl_color := v4l2_color native, fl_planes :=
              [\<lparr>pl_offset = 0, pl_length = length (vp_data p), pl_row_stride = vp_stride p, pl_pixel_stride = 1\<rparr>,
               \<lparr>pl_offset = length (vp_data p), pl_length = length (vp_data q), pl_row_stride = vp_stride q,
                pl_pixel_stride = 2\<rparr>]\<rparr>)"
        using 1 planes q
        by (auto simp: native_layout_def pixel_of_video_def ok_or_def packed_layout_def index_at_def Let_def)
      have total: "sum_list (map (\<lambda>p. length (vp_data p)) planes) = length (vp_data p) + length (vp_data q)"
        using planes q by simp
      show ?thesis
        unfolding layout total
        using 1 planes q nonzero columns
        by (auto simp: layout_valid_iff [OF len] packed_layout_def orientation_default_def plane_fits_def
            v4l2_fits_def plane_rows_def chroma_plane_def is_encoded_def is_packed_422_def)
    qed
  qed
qed

lemma native_layout_consistent_witness:
  "\<exists>l. native_layout (camera_config_new Gray 2 2 30) v4l2_format_default [\<lparr>vp_data = [1, 2, 0, 3, 4], vp_stride = 3\<rparr>] = Ok l
     \<and> layout_validate l (length [1, 2, 0, 3, 4 :: u8]) = Ok ()"
proof -
  have "config_validate (camera_config_new Gray 2 2 30) = Ok ()"
    by (simp add: config_validate_def camera_config_new_def frame_size_def frame_data_size_def
        checked_pixel_count_def checked_mul_def usize_bound_def)
  from native_layout_consistent [OF this, of "[\<lparr>vp_data = [1, 2, 0, 3, 4], vp_stride = 3\<rparr>]" False v4l2_format_default]
  show ?thesis by (simp add: camera_config_new_def usize_bound_def v4l2_fits_def plane_rows_def)
qed

text \<open>A device that advertises only the multi-planar code \<open>NM12\<close>: its configurations are listed as
  \<open>NV12\<close>, and \<open>is_config_supported\<close>, which asks for the sizes of the code \<open>NV12\<close>, refuses them.\<close>

lemma nm12_refused:
  assumes "nt_open N (device_path device_index) = Ok fd" "config_validate config = Ok ()" "cfg_format config = NV12"
    and "\<And>i. nt_sizes N fd (from_le_bytes (byte_string ''NV12'')) i = Ok None"
  shows "is_config_supported N device_index config = Ok False"
proof -
  have "[0..<4096] = 0 # [Suc 0..<4096]" by (rule upt_conv_Cons) simp
  then have "size_supported N fd (from_le_bytes (byte_string ''NV12'')) w h = Ok False" for w h
    using assms(4) by (simp add: size_supported_def from_os_def)
  then show ?thesis using assms(1-3) by (simp add: is_config_supported_def to_fourcc_def)
qed

end
