(* ===== verification/Control_Names.thy ===== *)
theory Control_Names
  imports Video_Types
begin

text \<open>The derived debug names of the control types (\<open>src/types.rs\<close>), which error messages quote.\<close>

fun control_type_debug :: "camera_control_type \<Rightarrow> string" where
  "control_type_debug Brightness = ''Brightness''"
| "control_type_debug Contrast = ''Contrast''"
| "control_type_debug Hue = ''Hue''"
| "control_type_debug Saturation = ''Saturation''"
| "control_type_debug Sharpness = ''Sharpness''"
| "control_type_debug Gamma = ''Gamma''"
| "control_type_debug WhiteBalance = ''WhiteBalance''"
| "control_type_debug BacklightCompensation = ''BacklightCompensation''"
| "control_type_debug Gain = ''Gain''"
| "control_type_debug Pan = ''Pan''"
| "control_type_debug Tilt = ''Tilt''"
| "control_type_debug Zoom = ''Zoom''"
| "control_type_debug Exposure = ''Exposure''"
| "control_type_debug Iris = ''Iris''"
| "control_type_debug Focus = ''Focus''"
| "control_type_debug AutoExposure = ''AutoExposure''"
| "control_type_debug AutoFocus = ''AutoFocus''"
| "control_type_debug AutoWhiteBalance = ''AutoWhiteBalance''"

end
