(* ===== verification/V4l2_Controls.thy ===== *)
theory V4l2_Controls
  imports V4l2_Modes Backends Control_Names
begin

text \<open>
  The camera controls of a V4L2 device (\<open>src/backends/v4l2/camera.rs\<close>): identifiers, automatic modes,
  reading, writing and the reported ranges.  The device is the state that the kernel calls of
  \<open>V4l2_Modes\<close> read and change; the mutex around each operation makes it one step.
\<close>

section \<open>Identifiers\<close>

definition V4L2_BASE :: u32 where "V4L2_BASE = 0x00980900"

definition V4L2_CAMERA :: u32 where "V4L2_CAMERA = 0x009a0900"

definition v4l2_controls :: "camera_control_type list" where
  "v4l2_controls =
     [Brightness, Contrast, Hue, Saturation, Sharpness, Gamma, WhiteBalance, BacklightCompensation, Gain,
      Pan, Tilt, Zoom, Exposure, Iris, Focus, AutoExposure, AutoFocus, AutoWhiteBalance]"

fun v4l2_control_id :: "camera_control_type \<Rightarrow> u32" where
  "v4l2_control_id Brightness = V4L2_BASE"
| "v4l2_control_id Contrast = V4L2_BASE + 1"
| "v4l2_control_id Saturation = V4L2_BASE + 2"
| "v4l2_control_id Hue = V4L2_BASE + 3"
| "v4l2_control_id AutoWhiteBalance = V4L2_BASE + 12"
| "v4l2_control_id Gamma = V4L2_BASE + 16"
| "v4l2_control_id Gain = V4L2_BASE + 19"
| "v4l2_control_id WhiteBalance = V4L2_BASE + 26"
| "v4l2_control_id Sharpness = V4L2_BASE + 27"
| "v4l2_control_id BacklightCompensation = V4L2_BASE + 28"
| "v4l2_control_id AutoExposure = V4L2_CAMERA + 1"
| "v4l2_control_id Exposure = V4L2_CAMERA + 2"
| "v4l2_control_id Pan = V4L2_CAMERA + 8"
| "v4l2_control_id Tilt = V4L2_CAMERA + 9"
| "v4l2_control_id Focus = V4L2_CAMERA + 10"
| "v4l2_control_id AutoFocus = V4L2_CAMERA + 12"
| "v4l2_control_id Zoom = V4L2_CAMERA + 13"
| "v4l2_control_id Iris = V4L2_CAMERA + 17"

fun v4l2_auto_control :: "camera_control_type \<Rightarrow> camera_control_type option" where
  "v4l2_auto_control Exposure = Some AutoExposure"
| "v4l2_auto_control Focus = Some AutoFocus"
| "v4l2_auto_control WhiteBalance = Some AutoWhiteBalance"
| "v4l2_auto_control _ = None"

definition v4l2_control_error :: "camera_control_type \<Rightarrow> os_error \<Rightarrow> camera_error" where
  "v4l2_control_error control e =
     (if unsupported_code e then control_not_supported (control_type_display_name control)
      else io_error_from (os_text e))"

section \<open>Reading and writing\<close>

definition v4l2_query :: "'d v4l2_native \<Rightarrow> camera_control_type \<Rightarrow> 'd \<Rightarrow> v4l2_control camera_result" where
  "v4l2_query N control d =
     map_error (v4l2_control_error control) (nt_query_control N d (v4l2_control_id control))"

definition v4l2_read_auto :: "'d v4l2_native \<Rightarrow> camera_control_type \<Rightarrow> 'd \<Rightarrow> bool camera_result" where
  "v4l2_read_auto N control d =
     and_then (from_os (nt_get_control N d (v4l2_control_id control))) (\<lambda>value.
       Ok (if control = AutoExposure then value \<noteq> 1 else value \<noteq> 0))"

definition v4l2_write_auto ::
  "'d v4l2_native \<Rightarrow> camera_control_type \<Rightarrow> bool \<Rightarrow> 'd \<Rightarrow> 'd \<times> unit camera_result" where
  "v4l2_write_auto N control enabled d =
     (if control = AutoExposure
      then case nt_auto_exposure N enabled d of (d, r) \<Rightarrow> (d, map_error (v4l2_control_error control) r)
      else case nt_set_control N (v4l2_control_id control) (if enabled then 1 else 0) d of
        (d, r) \<Rightarrow> (d, from_os r))"

text \<open>\<open>auto_control(control).filter(|&c| self.query(c).is_ok())\<close>.\<close>

definition v4l2_automatic :: "'d v4l2_native \<Rightarrow> camera_control_type \<Rightarrow> 'd \<Rightarrow> camera_control_type option" where
  "v4l2_automatic N control d =
     (case v4l2_auto_control control of
        None \<Rightarrow> None
      | Some c \<Rightarrow> if is_ok (v4l2_query N c d) then Some c else None)"

definition v4l2_get_control ::
  "'d v4l2_native \<Rightarrow> camera_control_type \<Rightarrow> 'd \<Rightarrow> camera_control_value camera_result" where
  "v4l2_get_control N control d =
     and_then (v4l2_query N control d) (\<lambda>_.
     if is_auto_control control
     then and_then (v4l2_read_auto N control d) (\<lambda>v. Ok (Boolean v))
     else
       and_then (from_os (nt_get_control N d (v4l2_control_id control))) (\<lambda>value.
       and_then (case v4l2_automatic N control d of Some c \<Rightarrow> v4l2_read_auto N c d | None \<Rightarrow> Ok False)
         (\<lambda>is_auto. Ok (Integer value is_auto))))"

definition v4l2_decode ::
  "camera_control_value \<Rightarrow> (i32 \<times> bool) camera_result" where
  "v4l2_decode value =
     (case value of
        Integer value is_auto \<Rightarrow> Ok (value, is_auto)
      | Boolean v \<Rightarrow> Ok (if v then 1 else 0, False)
      | Float _ \<Rightarrow> Err (invalid_config ''V4L2 controls require integer or boolean values''))"

text \<open>The difference is an \<open>i64\<close>, not negative when it is taken.\<close>

definition v4l2_in_range :: "v4l2_control \<Rightarrow> i32 \<Rightarrow> bool" where
  "v4l2_in_range limits value \<longleftrightarrow>
     \<not> value <s vctl_min limits \<and> \<not> vctl_max limits <s value
     \<and> (sint value - sint (vctl_min limits)) mod max (sint (vctl_step limits)) 1 = 0"

definition v4l2_set_control ::
  "'d v4l2_native \<Rightarrow> camera_control_type \<Rightarrow> camera_control_value \<Rightarrow> 'd \<Rightarrow> 'd \<times> unit camera_result" where
  "v4l2_set_control N control value d =
     (case v4l2_query N control d of
        Err e \<Rightarrow> (d, Err e)
      | Panic \<Rightarrow> (d, Panic)
      | Ok limits \<Rightarrow>
          if vctl_read_only limits \<noteq> 0
          then (d, Err (control_not_supported (control_type_debug control @ '' is read-only'')))
          else case v4l2_decode value of
            Err e \<Rightarrow> (d, Err e)
          | Panic \<Rightarrow> (d, Panic)
          | Ok (value, auto) \<Rightarrow>
              if is_auto_control control
              then if value \<noteq> 0 \<and> value \<noteq> 1
                then (d, Err (invalid_config ''V4L2 auto controls require 0 or 1''))
                else v4l2_write_auto N control (value \<noteq> 0) d
              else
                let automatic = v4l2_automatic N control d
                in if auto
                   then case automatic of
                       None \<Rightarrow> (d, Err (control_not_supported
                         (control_type_debug control @ '' has no automatic mode'')))
                     | Some c \<Rightarrow> v4l2_write_auto N c True d
                   else if \<not> v4l2_in_range limits value
                   then (d, Err (invalid_config (control_type_debug control @ '' is outside its V4L2 range/step'')))
                   else case (case automatic of Some c \<Rightarrow> v4l2_write_auto N c False d | None \<Rightarrow> (d, Ok ())) of
                       (d, Err e) \<Rightarrow> (d, Err e)
                     | (d, Panic) \<Rightarrow> (d, Panic)
                     | (d, Ok _) \<Rightarrow>
                         (case nt_set_control N (v4l2_control_id control) value d of (d, r) \<Rightarrow> (d, from_os r)))"

definition v4l2_get_control_range ::
  "'d v4l2_native \<Rightarrow> camera_control_type \<Rightarrow> 'd \<Rightarrow> control_range camera_result" where
  "v4l2_get_control_range N control d =
     and_then (v4l2_query N control d) (\<lambda>limits.
     if is_auto_control control
     then
       let default = (if control = AutoExposure then (if vctl_def limits \<noteq> 1 then 1 else 0) else vctl_def limits)
       in and_then
            (if control = AutoExposure
             then and_then (map_error (v4l2_control_error control) (nt_exposure_modes N d)) (\<lambda>bits.
               Ok (if and bits 1 = 0 then 1 else 0, if and bits 2 \<noteq> 0 then 1 else 0))
             else Ok (vctl_min limits, vctl_max limits)) (\<lambda>(low, high).
          and_then (i32_clamp default low high) (\<lambda>default.
            Ok \<lparr>rng_min = low, rng_max = high, rng_step = 1, rng_default = default, rng_supports_auto = False\<rparr>))
     else
       Ok \<lparr>rng_min = vctl_min limits, rng_max = vctl_max limits,
           rng_step = (if vctl_step limits <s 1 then 1 else vctl_step limits), rng_default = vctl_def limits,
           rng_supports_auto = (v4l2_automatic N control d \<noteq> None)\<rparr>)"

definition v4l2_supports_control :: "'d v4l2_native \<Rightarrow> camera_control_type \<Rightarrow> 'd \<Rightarrow> bool" where
  "v4l2_supports_control N control d \<longleftrightarrow> is_ok (v4l2_get_control_range N control d)"

definition v4l2_supported_controls :: "'d v4l2_native \<Rightarrow> 'd \<Rightarrow> camera_control_type list" where
  "v4l2_supported_controls N d = filter (\<lambda>c. v4l2_supports_control N c d) v4l2_controls"

definition v4l2_exposure_modes :: "'d v4l2_native \<Rightarrow> 'd \<Rightarrow> (control_mode list) camera_result" where
  "v4l2_exposure_modes N d =
     and_then (map_error (v4l2_control_error AutoExposure) (nt_exposure_modes N d)) (\<lambda>bits.
       Ok (List.map_filter (\<lambda>(b, m). if and bits b \<noteq> 0 then Some m else None)
         [(1, ModeManual), (2, ModeAutomatic)]))"

definition v4l2_control_writable :: "'d v4l2_native \<Rightarrow> camera_control_type \<Rightarrow> 'd \<Rightarrow> bool camera_result" where
  "v4l2_control_writable N control d =
     and_then (v4l2_query N control d) (\<lambda>limits. Ok (vctl_read_only limits = 0))"

section \<open>What was set is read back\<close>

text \<open>
  What the crate relies on of a device: a successful write sets the control and nothing else, the
  automatic exposure reads as automatic after it was turned on and as 1, manual, after it was turned
  off, and no write changes what a query answers.
\<close>

definition independent_controls :: "'d v4l2_native \<Rightarrow> bool" where
  "independent_controls N \<longleftrightarrow>
     (\<forall>d d' i v. nt_set_control N i v d = (d', Ok ()) \<longrightarrow>
        nt_query_control N d' = nt_query_control N d
        \<and> nt_get_control N d' = (nt_get_control N d)(i := Ok v))
     \<and> (\<forall>d d' b. nt_auto_exposure N b d = (d', Ok ()) \<longrightarrow>
        nt_query_control N d' = nt_query_control N d
        \<and> (\<exists>m. (m \<noteq> 1 \<longleftrightarrow> b) \<and> nt_get_control N d' = (nt_get_control N d)(v4l2_control_id AutoExposure := Ok m)))"

lemma control_id_inject: "v4l2_control_id a = v4l2_control_id b \<Longrightarrow> a = b"
  by (cases a; cases b) (simp_all add: V4L2_BASE_def V4L2_CAMERA_def)

lemma from_os_Ok [simp]: "from_os r = Ok x \<longleftrightarrow> r = Ok x"
  by (cases r) (simp_all add: from_os_def)

lemma map_error_Ok [simp]: "map_error f r = Ok x \<longleftrightarrow> r = Ok x"
  by (cases r) simp_all

lemma write_auto_effect:
  assumes "independent_controls N" "v4l2_write_auto N c b d = (d', Ok ())"
  shows "nt_query_control N d' = nt_query_control N d" "v4l2_read_auto N c d' = Ok b"
    "i \<noteq> v4l2_control_id c \<Longrightarrow> nt_get_control N d' i = nt_get_control N d i"
proof -
  obtain m where m: "nt_query_control N d' = nt_query_control N d"
    "nt_get_control N d' = (nt_get_control N d)(v4l2_control_id c := Ok m)"
    "(if c = AutoExposure then m \<noteq> 1 else m \<noteq> 0) \<longleftrightarrow> b"
  proof (cases "c = AutoExposure")
    case True
    then have "nt_auto_exposure N b d = (d', Ok ())"
      using assms(2) by (auto simp: v4l2_write_auto_def split: prod.splits)
    then obtain m where "nt_query_control N d' = nt_query_control N d" "m \<noteq> 1 \<longleftrightarrow> b"
      "nt_get_control N d' = (nt_get_control N d)(v4l2_control_id AutoExposure := Ok m)"
      using assms(1) unfolding independent_controls_def by blast
    with True that show ?thesis by simp
  next
    case False
    then have "nt_set_control N (v4l2_control_id c) (if b then 1 else 0) d = (d', Ok ())"
      using assms(2) by (auto simp: v4l2_write_auto_def split: prod.splits)
    then have "nt_query_control N d' = nt_query_control N d"
      "nt_get_control N d' = (nt_get_control N d)(v4l2_control_id c := Ok (if b then 1 else 0))"
      using assms(1) unfolding independent_controls_def by blast+
    with False that show ?thesis by simp
  qed
  then show "nt_query_control N d' = nt_query_control N d" "v4l2_read_auto N c d' = Ok b"
    "i \<noteq> v4l2_control_id c \<Longrightarrow> nt_get_control N d' i = nt_get_control N d i"
    by (auto simp: v4l2_read_auto_def from_os_def)
qed

lemma v4l2_query_cong: "nt_query_control N d' = nt_query_control N d \<Longrightarrow> v4l2_query N c d' = v4l2_query N c d"
  by (simp add: v4l2_query_def)

lemma automatic_cong: "nt_query_control N d' = nt_query_control N d \<Longrightarrow> v4l2_automatic N c d' = v4l2_automatic N c d"
  by (simp add: v4l2_automatic_def v4l2_query_def cong: option.case_cong)

lemma auto_control_of: "v4l2_auto_control control = Some c \<Longrightarrow> c \<noteq> control \<and> is_auto_control c"
  by (cases control) auto

lemma other_control_id:
  assumes "v4l2_automatic N control d = Some c"
  shows "v4l2_control_id control \<noteq> v4l2_control_id c"
proof -
  have "v4l2_auto_control control = Some c"
    using assms by (auto simp: v4l2_automatic_def split: option.splits if_splits)
  then show ?thesis using auto_control_of control_id_inject by metis
qed

text \<open>Switching the automatic mode on, and setting a value with the automatic mode off.\<close>

lemma set_automatic_mode:
  assumes "independent_controls N" "\<not> is_auto_control control" "v4l2_query N control d = Ok limits"
    and c: "v4l2_automatic N control d = Some c" "v4l2_write_auto N c True d = (d', Ok ())"
    and old: "v4l2_get_control N control d = Ok old"
  shows "v4l2_get_control N control d' = Ok (Integer (cv_value old) True)"
proof -
  note effect = write_auto_effect [OF assms(1) c(2)]
  have "v4l2_query N control d' = Ok limits" "v4l2_automatic N control d' = Some c"
    using v4l2_query_cong [OF effect(1)] automatic_cong [OF effect(1)] assms(3) c(1) by simp_all
  then show ?thesis
    using assms(2,3) effect(2) effect(3) [OF other_control_id [OF c(1)]] c(1) old
    by (auto simp: v4l2_get_control_def result_simps)
qed

lemma set_manual_value:
  assumes "independent_controls N" "\<not> is_auto_control control" "v4l2_query N control d = Ok limits"
    and e: "(case v4l2_automatic N control d of Some c \<Rightarrow> v4l2_write_auto N c False d | None \<Rightarrow> (d, Ok ())) = (e, Ok ())"
    and set: "nt_set_control N (v4l2_control_id control) v e = (d', Ok ())"
  shows "v4l2_get_control N control d' = Ok (Integer v False)"
proof -
  have get: "nt_query_control N d' = nt_query_control N e" "nt_get_control N d' = (nt_get_control N e)(v4l2_control_id control := Ok v)"
    using assms(1) set unfolding independent_controls_def by blast+
  show ?thesis
  proof (cases "v4l2_automatic N control d")
    case None
    then have "e = d" using e by simp
    then have "v4l2_query N control d' = Ok limits" "v4l2_automatic N control d' = None"
      using get v4l2_query_cong [of N d' d] automatic_cong [of N d' d] assms(3) None by simp_all
    then show ?thesis using get(2) assms(2) by (simp add: v4l2_get_control_def from_os_def)
  next
    case (Some c)
    then have w: "v4l2_write_auto N c False d = (e, Ok ())" using e by simp
    note effect = write_auto_effect [OF assms(1) w]
    have q: "nt_query_control N d' = nt_query_control N d" using get(1) effect(1) by simp
    have "v4l2_read_auto N c d' = Ok False"
      using effect(2) get(2) other_control_id [OF Some] by (simp add: v4l2_read_auto_def)
    moreover have "v4l2_query N control d' = Ok limits" "v4l2_automatic N control d' = Some c"
      using v4l2_query_cong [OF q] automatic_cong [OF q] assms(3) Some by simp_all
    ultimately show ?thesis using get(2) assms(2) by (simp add: v4l2_get_control_def from_os_def)
  qed
qed


text \<open>A device that holds a value for every control.\<close>

definition example_controls :: "(u32 \<Rightarrow> (i32, os_error) result) v4l2_native" where
  "example_controls =
     \<lparr>nt_open = (\<lambda>_. Ok (\<lambda>_. Ok 0)), nt_formats = (\<lambda>_ _. Ok None), nt_sizes = (\<lambda>_ _ _. Ok None),
      nt_intervals = (\<lambda>_ _ _ _ _. Ok None), nt_try_format = (\<lambda>_ f. Ok f),
      nt_query_control = (\<lambda>_ _. Ok \<lparr>vctl_min = 0, vctl_max = 100, vctl_step = 5, vctl_def = 0, vctl_read_only = 0\<rparr>),
      nt_get_control = (\<lambda>d. d), nt_set_control = (\<lambda>i v d. (d(i := Ok v), Ok ())),
      nt_exposure_modes = (\<lambda>_. Ok 3),
      nt_auto_exposure = (\<lambda>b d. (d(v4l2_control_id AutoExposure := Ok (if b then 3 else 1)), Ok ()))\<rparr>"


end
