(* ===== verification/Selection.thy ===== *)
theory Selection
  imports Source
begin

text \<open>
  Device selection (\<open>src/api.rs\<close>): the camera system and its builder, the policy that names the
  backends to ask, enumeration, selectors, capability queries, opening, and the plan of a capture.

  A world holds what the environment answers: the drivers, the application's providers
  (\<open>src/extension.rs\<close>) and the permission calls of AVFoundation.  Two enumerations of one operation
  may see two worlds.  The map of registered providers is an association list, of which only the
  contents matter.  A blocking call runs on a worker, which may fail to join (\<open>join_worker\<close>); with a
  deadline (\<open>await_worker\<close>) the environment also says whether it passed.
\<close>

section \<open>Policies and states\<close>

datatype backend_policy = PlatformDefault | Require backend_id | Prefer "backend_id list"

datatype backend_availability = IsAvailable | NotCompiled | TargetUnsupported

datatype permission_status =
  NotDetermined | Restricted | Denied | Authorized | ManagedExternally | NotRequired

record backend_device_info =
  bdi_native_id :: string
  bdi_name :: string
  bdi_description :: string
  bdi_stability :: identity_stability
  bdi_facing :: camera_facing
  bdi_usb :: "usb_identity option"

record ('d, 'c, 'p) world =
  w_platform :: "'d platform"
  w_custom :: "'c custom_device"
  w_provider_id :: "'p \<Rightarrow> backend_id"
  w_enumerate :: "'p \<Rightarrow> (backend_device_info list) camera_result"
  w_open :: "'p \<Rightarrow> string \<Rightarrow> 'c camera_result"
  w_permission :: permission_status
  w_request :: "bool camera_result"

datatype worker_end = Finished | Elapsed | NotJoined string

fun join_worker :: "string option \<Rightarrow> 'a camera_result \<Rightarrow> 'a camera_result" where
  "join_worker None r = r"
| "join_worker (Some e) r =
     Err (with_source (worker_failure (''Camera worker: '' @ e)) (SourceOther e))"

fun await_worker :: "operation_stage \<Rightarrow> worker_end \<Rightarrow> 'a camera_result \<Rightarrow> 'a camera_result" where
  "await_worker stage Finished r = r"
| "await_worker stage Elapsed r = Err (timeout_error stage)"
| "await_worker stage (NotJoined e) r = join_worker (Some e) r"

section \<open>The system and its builder\<close>

record 'p camera_system =
  cs_policy :: backend_policy
  cs_synthetic :: bool
  cs_registered :: "(backend_id \<times> 'p) list"
  cs_backend_options :: "backend_options list"

record 'p system_builder =
  sb_policy :: backend_policy
  sb_registered :: "(backend_id \<times> 'p) list"
  sb_backend_options :: "backend_options list"

definition system_builder_default :: "'p system_builder" where
  "system_builder_default = \<lparr>sb_policy = PlatformDefault, sb_registered = [], sb_backend_options = []\<rparr>"

definition sb_set_policy :: "backend_policy \<Rightarrow> 'p system_builder \<Rightarrow> 'p system_builder" where
  "sb_set_policy policy self = self\<lparr>sb_policy := policy\<rparr>"

text \<open>\<open>HashMap::insert\<close> replaces the value of a key that is present.\<close>

fun insert_key :: "'k \<Rightarrow> 'v \<Rightarrow> ('k \<times> 'v) list \<Rightarrow> ('k \<times> 'v) list" where
  "insert_key k v [] = [(k, v)]"
| "insert_key k v (e # es) = (if fst e = k then (k, v) # es else e # insert_key k v es)"

definition register_backend ::
  "('d, 'c, 'p) world \<Rightarrow> 'p \<Rightarrow> 'p system_builder \<Rightarrow> 'p system_builder" where
  "register_backend W provider self =
     self\<lparr>sb_registered := insert_key (w_provider_id W provider) provider (sb_registered self)\<rparr>"

definition sb_add_options :: "backend_options \<Rightarrow> 'p system_builder \<Rightarrow> 'p system_builder" where
  "sb_add_options opts self = self\<lparr>sb_backend_options := sb_backend_options self @ [opts]\<rparr>"

fun check_each :: "('a \<Rightarrow> unit camera_result) \<Rightarrow> 'a list \<Rightarrow> unit camera_result" where
  "check_each f [] = Ok ()"
| "check_each f (x # xs) = and_then (f x) (\<lambda>_. check_each f xs)"

definition system_build :: "'p system_builder \<Rightarrow> ('p camera_system) camera_result" where
  "system_build self =
     and_then (check_each options_validate (sb_backend_options self)) (\<lambda>_.
     and_then
       (case sb_policy self of
          Require selected \<Rightarrow>
            check_each (\<lambda>opts. if options_backend opts \<noteq> selected
                then Err (backend_option_mismatch (options_backend opts) selected) else Ok ())
              (sb_backend_options self)
        | _ \<Rightarrow> Ok ()) (\<lambda>_.
     and_then
       (case sb_policy self of
          Prefer backends \<Rightarrow>
            if backends = [] then Err (invalid_config ''Backend preference list cannot be empty'') else Ok ()
        | _ \<Rightarrow> Ok ()) (\<lambda>_.
       Ok \<lparr>cs_policy = sb_policy self, cs_synthetic = False, cs_registered = sb_registered self,
           cs_backend_options = sb_backend_options self\<rparr>)))"

definition system_synthetic :: "'p camera_system" where
  "system_synthetic =
     \<lparr>cs_policy = Require SYNTHETIC, cs_synthetic = True, cs_registered = [], cs_backend_options = []\<rparr>"

text \<open>Identifiers are ordered as the strings they are, byte by byte.\<close>

definition backend_order :: "backend_id \<Rightarrow> nat list" where
  "backend_order i = map of_char (backend_as_str i)"

definition system_available_backends :: "build \<Rightarrow> 'p camera_system \<Rightarrow> backend_id list" where
  "system_available_backends b self =
     remdups_adj (sort_key backend_order
       (map id_of_backend (available_backends b) @ map fst (cs_registered self)
        @ (if cs_synthetic self then [SYNTHETIC] else [])))"

definition system_backend_availability :: "build \<Rightarrow> 'p camera_system \<Rightarrow> backend_id \<Rightarrow> backend_availability" where
  "system_backend_availability b self backend =
     (if backend = SYNTHETIC \<and> cs_synthetic self \<or> map_of (cs_registered self) backend \<noteq> None
      then IsAvailable
      else case backend_of_id backend of
        None \<Rightarrow> NotCompiled
      | Some t \<Rightarrow>
          if \<not> is_compiled b t then NotCompiled
          else if \<not> supports_target b t then TargetUnsupported
          else IsAvailable)"

definition system_permission_status ::
  "build \<Rightarrow> ('d, 'c, 'p) world \<Rightarrow> backend_id \<Rightarrow> permission_status camera_result" where
  "system_permission_status b W backend =
     (if backend = AV_FOUNDATION
      then if bd_avfoundation b \<and> (bd_os b = MacOs \<or> bd_os b = Ios) then Ok (w_permission W)
        else Err (unsupported_target backend (os_name (bd_os b)))
      else if backend = CAMERA2 \<or> backend = UVC then Ok ManagedExternally
      else Ok NotRequired)"

definition request_permission :: "build \<Rightarrow> ('d, 'c, 'p) world \<Rightarrow> backend_id \<Rightarrow> bool camera_result" where
  "request_permission b W backend =
     (if backend = AV_FOUNDATION
      then if bd_avfoundation b \<and> (bd_os b = MacOs \<or> bd_os b = Ios) then w_request W
        else Err (unsupported_target backend (os_name (bd_os b)))
      else Err (permission_managed_externally backend))"

definition policy_backends :: "build \<Rightarrow> 'p camera_system \<Rightarrow> backend_id list" where
  "policy_backends b self =
     (case cs_policy self of
        PlatformDefault \<Rightarrow> [id_of_backend (default_for_platform b)]
      | Require backend \<Rightarrow> [backend]
      | Prefer backends \<Rightarrow> backends)"

definition requiring :: "backend_id \<Rightarrow> 'p camera_system \<Rightarrow> 'p camera_system" where
  "requiring backend self =
     \<lparr>cs_policy = Require backend, cs_synthetic = cs_synthetic self, cs_registered = cs_registered self,
      cs_backend_options = filter (\<lambda>opts. options_backend opts = backend) (cs_backend_options self)\<rparr>"

section \<open>Enumeration\<close>

definition device_info_synthetic :: device_info where
  "device_info_synthetic =
     \<lparr>di_id = \<lparr>did_backend = SYNTHETIC, did_native = ''test-pattern''\<rparr>,
      di_name = ''Synthetic RGB camera'', di_description = ''Deterministic capture source'',
      di_stability = StabilityNative, di_index = 0, di_facing = FacingUnknown, di_usb = None\<rparr>"

definition infer_facing :: "string \<Rightarrow> string \<Rightarrow> camera_facing" where
  "infer_facing name description =
     (let value = map to_ascii_lowercase (name @ '' '' @ description)
      in if contains_str value ''front'' \<or> contains_str value ''user'' then Front
         else if contains_str value ''back'' \<or> contains_str value ''rear'' \<or> contains_str value ''environment''
         then Back
         else if contains_str value ''usb'' \<or> contains_str value ''external'' then External
         else FacingUnknown)"

definition device_info_of :: "backend_type \<Rightarrow> camera_device_info \<Rightarrow> device_info" where
  "device_info_of t d =
     (let stable =
            (case cdi_device_path d of
               Some s \<Rightarrow> s \<noteq> [] \<and> \<not> (t = V4l2 \<and> starts_with s ''/dev/video'')
             | None \<Rightarrow> False)
            \<or> (case cdi_serial_number d of Some s \<Rightarrow> s \<noteq> [] | None \<Rightarrow> False);
          usb = (case (cdi_vendor_id d, cdi_product_id d) of
               (Some v, Some p) \<Rightarrow>
                 Some \<lparr>usb_vendor_id = v, usb_product_id = p, usb_serial_number = cdi_serial_number d\<rparr>
             | _ \<Rightarrow> None)
      in \<lparr>di_id = \<lparr>did_backend = id_of_backend t, did_native = unique_id d\<rparr>,
          di_name = cdi_name d, di_description = cdi_description d,
          di_stability = (if stable then StabilityNative else EnumerationOnly),
          di_index = cdi_index d, di_facing = infer_facing (cdi_name d) (cdi_description d), di_usb = usb\<rparr>)"

definition resolve_backend :: "build \<Rightarrow> backend_type \<Rightarrow> backend_type camera_result" where
  "resolve_backend b t =
     (let t = (if t = Auto then default_for_platform b else t)
      in if \<not> is_compiled b t then Err (backend_not_compiled (id_of_backend t))
         else if \<not> supports_target b t then Err (unsupported_target (id_of_backend t) (os_name (bd_os b)))
         else Ok t)"

definition registered_device ::
  "backend_id \<Rightarrow> nat \<times> backend_device_info \<Rightarrow> device_info camera_result" where
  "registered_device backend entry =
     (case entry of (index, info) \<Rightarrow>
        and_then (device_id_new backend (bdi_native_id info)) (\<lambda>i.
          Ok \<lparr>di_id = i, di_name = bdi_name info, di_description = bdi_description info,
              di_stability = bdi_stability info, di_index = of_nat index, di_facing = bdi_facing info,
              di_usb = bdi_usb info\<rparr>))"

definition devices_for_backend ::
  "build \<Rightarrow> ('d, 'c, 'p) world \<Rightarrow> 'p camera_system \<Rightarrow> backend_id \<Rightarrow> (device_info list) camera_result" where
  "devices_for_backend b W self backend =
     (if backend = SYNTHETIC \<and> cs_synthetic self then Ok [device_info_synthetic]
      else case map_of (cs_registered self) backend of
        Some provider \<Rightarrow>
          and_then (w_enumerate W provider) (\<lambda>infos.
            collect_results (registered_device backend) (enumerate 0 infos))
      | None \<Rightarrow>
          and_then (ok_or (backend_of_id backend) (backend_not_compiled backend)) (\<lambda>t.
          and_then (resolve_backend b t) (\<lambda>t.
          and_then (list_devices b (w_platform W) t) (\<lambda>devices.
            Ok (map (device_info_of t) devices)))))"

text \<open>The loop over the backends of the policy, with the devices found and the errors met.\<close>

fun gather_devices ::
  "(backend_id \<Rightarrow> (device_info list) camera_result) \<Rightarrow> backend_id list \<Rightarrow> device_info list \<Rightarrow>
     camera_error list \<Rightarrow> (device_info list \<times> camera_error list) camera_result" where
  "gather_devices query [] devices errors = Ok (devices, errors)"
| "gather_devices query (backend # backends) devices errors =
     (case query backend of
        Ok found \<Rightarrow> gather_devices query backends (devices @ found) errors
      | Err e \<Rightarrow> gather_devices query backends devices (errors @ [e])
      | Panic \<Rightarrow> Panic)"

definition devices_blocking ::
  "build \<Rightarrow> ('d, 'c, 'p) world \<Rightarrow> 'p camera_system \<Rightarrow> (device_info list) camera_result" where
  "devices_blocking b W self =
     and_then (gather_devices (devices_for_backend b W self) (policy_backends b self) [] [])
       (\<lambda>(devices, errors). if devices = [] \<and> errors \<noteq> [] then Err (hd errors) else Ok devices)"

definition system_devices ::
  "worker_end \<Rightarrow> build \<Rightarrow> ('d, 'c, 'p) world \<Rightarrow> 'p camera_system \<Rightarrow> (device_info list) camera_result" where
  "system_devices wend b W self = await_worker Enumeration wend (devices_blocking b W self)"

section \<open>Selectors\<close>

definition selector_matches :: "device_selector \<Rightarrow> device_info \<Rightarrow> bool" where
  "selector_matches selector device =
     (case selector of
        SelectDefault \<Rightarrow> True
      | SelectId i \<Rightarrow> di_id device = i
      | SelectFacing facing \<Rightarrow> di_facing device = facing
      | SelectUsb vendor product serial \<Rightarrow>
          (case di_usb device of
             None \<Rightarrow> False
           | Some usb \<Rightarrow> usb_vendor_id usb = vendor \<and> usb_product_id usb = product
               \<and> (case serial of None \<Rightarrow> True | Some s \<Rightarrow> usb_serial_number usb = Some s))
      | SelectName name \<Rightarrow> contains_str (di_name device) name)"

text \<open>\<open>show\<close> is the derived debug text of a selector.\<close>

definition select_device ::
  "(device_selector \<Rightarrow> string) \<Rightarrow> device_selector \<Rightarrow> device_info list \<Rightarrow> device_info camera_result" where
  "select_device show selector devices =
     (case filter (selector_matches selector) devices of
        [] \<Rightarrow> Err (device_not_found (show selector))
      | selected # others \<Rightarrow>
          if selector \<noteq> SelectDefault \<and> others \<noteq> [] then Err (ambiguous_device (show selector))
          else Ok selected)"

definition resolve_selector ::
  "(device_selector \<Rightarrow> string) \<Rightarrow> worker_end \<Rightarrow> build \<Rightarrow> ('d, 'c, 'p) world \<Rightarrow> 'p camera_system \<Rightarrow>
     device_selector \<Rightarrow> device_info camera_result" where
  "resolve_selector show wend b W self selector =
     and_then (system_devices wend b W self) (select_device show selector)"

section \<open>Capabilities\<close>

definition synthetic_capabilities :: "build \<Rightarrow> device_capabilities" where
  "synthetic_capabilities b = single_native (bd_features b) CaptureRgb8 640 480 frame_rate_default"

definition capabilities_blocking ::
  "build \<Rightarrow> ('d, 'c, 'p) world \<Rightarrow> 'p camera_system \<Rightarrow> device_id \<Rightarrow> device_capabilities camera_result" where
  "capabilities_blocking b W self i =
     and_then (devices_for_backend b W self (did_backend i)) (\<lambda>devices.
     let matching = filter (\<lambda>d. di_id d = i) devices
     in if length matching > 1 then Err (ambiguous_device (device_id_display i))
        else
          and_then (ok_or (if matching = [] then None else Some (hd matching))
            (device_not_found (device_id_display i))) (\<lambda>device.
          if did_backend i = SYNTHETIC then Ok (synthetic_capabilities b)
          else case map_of (cs_registered self) (did_backend i) of
            Some provider \<Rightarrow> and_then (w_open W provider (did_native i)) (cx_capabilities (w_custom W))
          | None \<Rightarrow>
              and_then (ok_or (backend_of_id (did_backend i)) (backend_not_compiled (did_backend i))) (\<lambda>t.
                get_device_capabilities b (w_platform W) t (di_index device))))"

definition capabilities_timeout ::
  "duration \<Rightarrow> worker_end \<Rightarrow> build \<Rightarrow> ('d, 'c, 'p) world \<Rightarrow> 'p camera_system \<Rightarrow> device_id \<Rightarrow>
     device_capabilities camera_result" where
  "capabilities_timeout timeout wend b W self i =
     (if timeout = 0 then Err (invalid_config ''Capability query timeout must be positive'')
      else await_worker Capabilities wend (capabilities_blocking b W self i))"

section \<open>Opening a device\<close>

text \<open>
  An open device: the information, its source and hub, the busy flag, the options of the system and
  whether it was closed.  Hubs start with the sessions numbered from \<open>n\<close> (\<open>FrameHub::default\<close>).
\<close>

record ('d, 'c) device =
  dev_info :: device_info
  dev_source :: "('d, 'c) source"
  dev_hub :: hub
  dev_busy :: bool
  dev_options :: "backend_options list"
  dev_closed :: bool

definition hub_default :: "nat \<Rightarrow> hub" where
  "hub_default n = hub_new n 6"

definition source_native ::
  "'d platform \<Rightarrow> 'd backend_camera \<Rightarrow> device_id option \<Rightarrow> (('d, 'c) source \<times> hub) camera_result" where
  "source_native P cam i =
     and_then (ok_or (camera_frame_hub P cam) (invalid_state ''Backend has no frame source'')) (\<lambda>hub.
       Ok (SourceNative (Some cam) i, hub))"

definition open_source ::
  "nat \<Rightarrow> string option \<Rightarrow> build \<Rightarrow> ('d, 'c, 'p) world \<Rightarrow> 'p camera_system \<Rightarrow> device_info \<Rightarrow>
     (('d, 'c) source \<times> hub) camera_result" where
  "open_source n lost b W self info =
     (if did_backend (di_id info) = SYNTHETIC then Ok (SourceSynthetic, hub_default n)
      else case map_of (cs_registered self) (did_backend (di_id info)) of
        Some provider \<Rightarrow>
          and_then (join_worker lost (w_open W provider (did_native (di_id info)))) (\<lambda>handle.
            Ok (SourceCustom (Some handle) None, hub_default n))
      | None \<Rightarrow>
          and_then (ok_or (backend_of_id (did_backend (di_id info)))
            (backend_not_compiled (did_backend (di_id info)))) (\<lambda>t.
          and_then (join_worker lost
              (create_selected_camera b (w_platform W) (di_index info) t (hub_default n)
                (Some (did_native (di_id info))))) (\<lambda>cam.
            source_native (w_platform W) cam (Some (di_id info)))))"

text \<open>\<open>open_inner\<close>: the enumeration runs in one world, the opening in the next.\<close>

definition open_inner ::
  "(device_selector \<Rightarrow> string) \<Rightarrow> nat \<Rightarrow> worker_end \<times> string option \<Rightarrow> build \<Rightarrow>
     ('d, 'c, 'p) world \<times> ('d, 'c, 'p) world \<Rightarrow> 'p camera_system \<Rightarrow> device_selector \<Rightarrow>
     (('d, 'c) device) camera_result" where
  "open_inner show n ends b Ws self selector =
     and_then (resolve_selector show (fst ends) b (fst Ws) self selector) (\<lambda>info.
     and_then (open_source n (snd ends) b (snd Ws) self info) (\<lambda>(source, hub).
       Ok \<lparr>dev_info = info, dev_source = source, dev_hub = hub, dev_busy = False,
           dev_options = cs_backend_options self, dev_closed = False\<rparr>))"

text \<open>\<open>open_timeout\<close>: the deadline may pass before the opening ends (\<open>late\<close>).\<close>

definition open_timeout ::
  "duration \<Rightarrow> bool \<Rightarrow> (('d, 'c) device) camera_result \<Rightarrow> (('d, 'c) device) camera_result" where
  "open_timeout timeout late opened =
     (if timeout = 0 then Err (invalid_config ''Device open timeout must be positive'')
      else await_worker Open (if late then Elapsed else Finished) opened)"

definition open_usb_fd ::
  "build \<Rightarrow> string option \<Rightarrow> ('d, 'c, 'p) world \<Rightarrow> 'p camera_system \<Rightarrow> i32 camera_result \<Rightarrow>
     (('d, 'c) device) camera_result" where
  "open_usb_fd b lost W self owned =
     and_then owned (\<lambda>fd.
     and_then (join_worker lost (create_camera_from_fd (w_platform W) fd)) (\<lambda>cam.
     and_then (source_native (w_platform W) cam None) (\<lambda>(source, hub).
       Ok \<lparr>dev_info =
             \<lparr>di_id = \<lparr>did_backend = UVC, did_native = ''authorized-usb-fd''\<rparr>,
              di_name = ''Authorized USB camera'', di_description = [],
              di_stability = EnumerationOnly, di_index = 0, di_facing = External, di_usb = None\<rparr>,
           dev_source = source, dev_hub = hub, dev_busy = False,
           dev_options = cs_backend_options self, dev_closed = False\<rparr>)))"

section \<open>Plans\<close>

definition synthetic_configuration :: "video_format \<Rightarrow> capture_request \<Rightarrow> camera_config" where
  "synthetic_configuration format q =
     with_frame_rate (camera_config_new format (cr_width q) (cr_height q)
       (fr_numerator (cr_preferred_fps q))) (cr_preferred_fps q)"

definition pool_estimate :: "capture_request \<Rightarrow> camera_config \<Rightarrow> usize" where
  "pool_estimate q selected =
     (let per_frame = (case frame_size selected of
            Some n \<Rightarrow> n
          | None \<Rightarrow> max (unat (cfg_width selected) * unat (cfg_height selected)) 1)
      in min (saturating_mul per_frame (mb_buffers (cr_memory q))) (mb_bytes (cr_memory q)))"

fun priority_debug :: "negotiation_priority \<Rightarrow> string" where
  "priority_debug LowLatency = ''LowLatency''"
| "priority_debug LowCpu = ''LowCpu''"
| "priority_debug LowBandwidth = ''LowBandwidth''"
| "priority_debug Fidelity = ''Fidelity''"

definition plan_of :: "capture_request \<Rightarrow> camera_config list \<Rightarrow> capture_plan camera_result" where
  "plan_of q candidates =
     and_then (rank_capture_configurations q candidates) (\<lambda>ranked.
     and_then (index_at ranked 0) (\<lambda>selected.
     and_then (mode_from_config selected) (\<lambda>mode.
     and_then (collect_results mode_from_config (drop 1 ranked)) (\<lambda>alternatives.
       Ok \<lparr>plan_selected = \<lparr>nc_capture = mode, nc_adjustments = [], nc_first_frame_latency = 0\<rparr>,
           plan_alternatives = alternatives,
           plan_ranking_reason = ''ranked for '' @ priority_debug (cr_priority q)
             @ '': format preference, required FPS, resolution, then frame rate'',
           plan_estimated_pool_bytes = pool_estimate q selected, plan_adjustments = []\<rparr>))))"

text \<open>The enumeration of the selector and the query of the capabilities run in two worlds.\<close>

definition system_plan ::
  "(device_selector \<Rightarrow> string) \<Rightarrow> worker_end \<times> string option \<times> string option \<Rightarrow> build \<Rightarrow>
     ('d, 'c, 'p) world \<times> ('d, 'c, 'p) world \<Rightarrow> 'p camera_system \<Rightarrow> device_selector \<Rightarrow> capture_request \<Rightarrow>
     capture_plan camera_result" where
  "system_plan show ends b Ws self selector q =
     (case ends of (wend, lost1, lost2) \<Rightarrow>
     and_then (resolve_selector show wend b (fst Ws) self selector) (\<lambda>info.
     and_then
       (if did_backend (di_id info) = SYNTHETIC
        then Ok [synthetic_configuration
          (video_of_capture (case cr_preferred_formats q of [] \<Rightarrow> CaptureRgb8 | f # _ \<Rightarrow> f)) q]
        else
          and_then (join_worker lost1 (capabilities_blocking b (snd Ws) self (di_id info)))
            (\<lambda>caps.
          and_then (Capabilities.configurations caps) (\<lambda>advertised.
            case backend_of_id (did_backend (di_id info)) of
              None \<Rightarrow> Ok advertised
            | Some t \<Rightarrow>
                and_then (join_worker lost2
                    (requested_configs b (w_platform (snd Ws)) t (di_index info) q advertised)) (\<lambda>extra.
                  Ok (advertised @ extra))))) (plan_of q)))"

end
