(* ===== verification/Device_Start.thy ===== *)
theory Device_Start
  imports Selection
begin

text \<open>
  From an open device to the start of a session (\<open>Camera\<close> and \<open>CaptureBuilder\<close> in \<open>src/api.rs\<close>):
  closing, capabilities, the options and candidates of a start, its preconditions, and the capture
  builder with the fallback over preferred backends.  The task the start spawns is in
  \<open>Session_Machine\<close>.
\<close>

section \<open>Open devices\<close>

definition device_close ::
  "'d platform \<Rightarrow> 'c custom_device \<Rightarrow> instant \<Rightarrow> ('d, 'c) device \<Rightarrow> ('d, 'c) device \<times> unit camera_result" where
  "device_close P C now dev =
     (if dev_busy dev
      then (dev, Err (invalid_state ''Close the active session before closing its device''))
      else case source_release P C now (dev_source dev) (dev_hub dev) of
        (source, hub, r) \<Rightarrow> (dev\<lparr>dev_closed := True, dev_source := source, dev_hub := hub\<rparr>, r))"

definition device_query_capabilities ::
  "build \<Rightarrow> ('d, 'c, 'p) world \<Rightarrow> ('d \<Rightarrow> device_capabilities option camera_result) \<Rightarrow> string option \<Rightarrow>
     ('d, 'c) device \<Rightarrow> device_capabilities camera_result" where
  "device_query_capabilities b W uvc_opened lost dev =
     (let P = w_platform W; backend = did_backend (di_id (dev_info dev))
      in if dev_closed dev then Err closed_device
         else case dev_source dev of
           SourceSynthetic \<Rightarrow> Ok (synthetic_capabilities b)
         | SourceCustom handle _ \<Rightarrow>
             join_worker lost (and_then (ok_or handle closed_device) (cx_capabilities (w_custom W)))
         | SourceNative cam i \<Rightarrow>
             if i = None \<or> backend = MEDIA_FOUNDATION
             then and_then (native_current cam) (\<lambda>cam. join_worker lost (opened_device_capabilities b P cam))
             else
               and_then (external_capabilities b P (w_custom W) uvc_opened (dev_source dev)) (\<lambda>external.
                 case external of
                   Some caps \<Rightarrow> Ok caps
                 | None \<Rightarrow>
                     and_then (ok_or (backend_of_id backend) (backend_not_compiled backend)) (\<lambda>t.
                       join_worker lost (get_device_capabilities b P t (di_index (dev_info dev))))))"

section \<open>The start of a capture\<close>

text \<open>The loop over the options of the system.\<close>

fun start_options ::
  "backend_id \<Rightarrow> backend_options list \<Rightarrow> stream_request \<Rightarrow> stream_request camera_result" where
  "start_options backend [] raw = Ok raw"
| "start_options backend (opt # opts) raw =
     (if options_backend opt \<noteq> backend
      then Err (backend_option_mismatch (options_backend opt) backend)
      else case opt of
          OptV4l2 options \<Rightarrow> start_options backend opts (raw\<lparr>sr_driver_buffers := v4l2_mmap_buffers options\<rparr>)
        | _ \<Rightarrow> start_options backend opts raw)"

definition start_candidates ::
  "build \<Rightarrow> ('d, 'c, 'p) world \<Rightarrow> ('d \<Rightarrow> device_capabilities option camera_result) \<Rightarrow>
     worker_end \<times> worker_end \<Rightarrow> capture_request \<Rightarrow> ('d, 'c) device \<Rightarrow> (camera_config list) camera_result" where
  "start_candidates b W uvc_opened ends q dev =
     (let P = w_platform W; backend = did_backend (di_id (dev_info dev))
      in if dev_source dev = SourceSynthetic then Ok [synthetic_configuration RGB q]
         else if (case dev_source dev of SourceNative _ None \<Rightarrow> True | _ \<Rightarrow> False)
         then Ok (direct_capture_candidates q)
         else
           and_then (await_worker Startup (fst ends)
               (external_capabilities b P (w_custom W) uvc_opened (dev_source dev))) (\<lambda>external.
           and_then
             (case external of
                Some caps \<Rightarrow> Capabilities.configurations caps
              | None \<Rightarrow>
                  and_then (ok_or (backend_of_id backend) (backend_not_compiled backend)) (\<lambda>t.
                    await_worker Startup (snd ends)
                      (and_then (get_device_capabilities b P t (di_index (dev_info dev))) (\<lambda>caps.
                       and_then (Capabilities.configurations caps) (\<lambda>advertised.
                       and_then (requested_configs b P t (di_index (dev_info dev)) q advertised) (\<lambda>extra.
                         Ok (advertised @ extra)))))))
             (rank_capture_configurations q)))"

definition start_prepare ::
  "build \<Rightarrow> ('d, 'c, 'p) world \<Rightarrow> ('d \<Rightarrow> device_capabilities option camera_result) \<Rightarrow>
     worker_end \<times> worker_end \<Rightarrow> capture_request \<Rightarrow> ('d, 'c) device \<Rightarrow>
     (stream_request \<times> camera_config list) camera_result" where
  "start_prepare b W uvc_opened ends q dev =
     and_then (to_stream_request q) (\<lambda>raw.
     and_then (start_options (did_backend (di_id (dev_info dev))) (dev_options dev) raw) (\<lambda>raw.
     and_then (start_candidates b W uvc_opened ends q dev) (\<lambda>candidates.
       Ok (raw, candidates))))"

text \<open>The checks of \<open>start_inner\<close> before the session exists; the busy flag is taken by a swap.\<close>

definition start_acquire ::
  "stream_request \<Rightarrow> ('d, 'c) device \<Rightarrow> ('d, 'c) device \<times> unit camera_result" where
  "start_acquire request dev =
     (if sr_output request = OutputRgb8 \<and> sr_format request = Some VideoH264
      then (dev, Err (unsupported_format ''H264 requires native output and an external decoder''))
      else if dev_source dev = SourceSynthetic
        \<and> (case sr_format request of Some f \<Rightarrow> f \<noteq> RGB | None \<Rightarrow> False)
      then (dev, Err (unsupported_format ''Synthetic source produces RGB only''))
      else if sr_reconnect request \<noteq> None \<and> di_stability (dev_info dev) = EnumerationOnly
      then (dev, Err (invalid_config ''Automatic reconnect requires a stable native identity''))
      else if dev_busy dev
      then (dev, Err (invalid_state ''Camera is already starting, capturing, or closing''))
      else case configure request (dev_hub dev) of
          (hub, Ok _) \<Rightarrow> (dev\<lparr>dev_busy := True, dev_hub := hub\<rparr>, Ok ())
        | (hub, r) \<Rightarrow> (dev\<lparr>dev_busy := False, dev_hub := hub\<rparr>, r))"

definition device_start ::
  "build \<Rightarrow> ('d, 'c, 'p) world \<Rightarrow> ('d \<Rightarrow> device_capabilities option camera_result) \<Rightarrow>
     worker_end \<times> worker_end \<Rightarrow> capture_request \<Rightarrow> ('d, 'c) device \<Rightarrow>
     ('d, 'c) device \<times> (stream_request \<times> camera_config list) camera_result" where
  "device_start b W uvc_opened ends q dev =
     (if dev_closed dev then (dev, Err closed_device)
      else case start_prepare b W uvc_opened ends q dev of
          Ok (raw, candidates) \<Rightarrow>
            (case start_acquire raw dev of (dev, r) \<Rightarrow> (dev, and_then r (\<lambda>_. Ok (raw, candidates))))
        | Err e \<Rightarrow> (dev, Err e)
        | Panic \<Rightarrow> (dev, Panic))"

section \<open>The capture builder\<close>

record 'p capture_setup =
  cb_system :: "'p camera_system"
  cb_selector :: device_selector
  cb_request :: capture_request

text \<open>\<open>expect\<close> panics on an error.\<close>

fun expect :: "('a, 'e) result \<Rightarrow> ('a, 'f) result" where
  "expect (Ok x) = Ok x"
| "expect (Err _) = Panic"
| "expect Panic = Panic"

definition setup_new :: "'p camera_system \<Rightarrow> device_selector \<Rightarrow> ('p capture_setup) camera_result" where
  "setup_new self selector =
     and_then (expect (capture_request_build capture_builder)) (\<lambda>q.
       Ok \<lparr>cb_system = self, cb_selector = selector, cb_request = q\<rparr>)"

definition profile_builder :: "capture_profile \<Rightarrow> capture_request" where
  "profile_builder profile =
     (case profile of
        Preview \<Rightarrow> cr_set_priority (cr_preferred_resolution capture_builder 1280 720) LowLatency
      | Recognition \<Rightarrow> cr_set_priority (cr_preferred_resolution capture_builder 1280 720) LowCpu
      | Recording \<Rightarrow> cr_set_priority (cr_preferred_resolution capture_builder 1920 1080) Fidelity
      | NativeRelay \<Rightarrow>
          cr_set_preferred_formats
            (cr_set_priority (cr_preferred_resolution capture_builder 1280 720) LowBandwidth)
            [CaptureMjpeg, CaptureH264])"

definition setup_profile :: "capture_profile \<Rightarrow> 'p capture_setup \<Rightarrow> ('p capture_setup) camera_result" where
  "setup_profile profile self =
     and_then (expect (capture_request_build (profile_builder profile))) (\<lambda>q.
       Ok (self\<lparr>cb_request := q\<rparr>))"

definition setup_resolution :: "u32 \<Rightarrow> u32 \<Rightarrow> 'p capture_setup \<Rightarrow> 'p capture_setup" where
  "setup_resolution width height self =
     self\<lparr>cb_request := (cb_request self)\<lparr>cr_width := width, cr_height := height\<rparr>\<rparr>"

definition setup_frame_rate :: "frame_rate \<Rightarrow> 'p capture_setup \<Rightarrow> 'p capture_setup" where
  "setup_frame_rate rate self = self\<lparr>cb_request := (cb_request self)\<lparr>cr_preferred_fps := rate\<rparr>\<rparr>"

definition setup_request :: "capture_request \<Rightarrow> 'p capture_setup \<Rightarrow> 'p capture_setup" where
  "setup_request q self = self\<lparr>cb_request := q\<rparr>"

text \<open>
  One attempt opens a device, starts it and subscribes to the session.  It meets the environment as
  it is then: \<open>attempt i\<close> answers the attempt number \<open>i\<close>.
\<close>

fun try_preferred ::
  "(nat \<Rightarrow> 'p camera_system \<Rightarrow> device_selector \<Rightarrow> 'r camera_result) \<Rightarrow> 'p camera_system \<Rightarrow> nat \<Rightarrow>
     backend_id list \<Rightarrow> backend_attempt list \<Rightarrow> 'r camera_result" where
  "try_preferred attempt self i [] attempts = Err (all_backends_failed attempts)"
| "try_preferred attempt self i (backend # backends) attempts =
     (case attempt i (requiring backend self) SelectDefault of
        Ok capture \<Rightarrow> Ok capture
      | Panic \<Rightarrow> Panic
      | Err e \<Rightarrow>
          if err_kind e \<in> {PermissionDenied, PermissionRequired} then Err e
          else try_preferred attempt self (i + 1) backends (attempts @ [BackendAttempt backend e]))"

definition capture_start ::
  "(nat \<Rightarrow> 'p camera_system \<Rightarrow> device_selector \<Rightarrow> 'r camera_result) \<Rightarrow> 'p capture_setup \<Rightarrow> 'r camera_result" where
  "capture_start attempt self =
     and_then (to_stream_request (cb_request self)) (\<lambda>_.
       case (cb_selector self, cs_policy (cb_system self)) of
         (SelectDefault, Prefer backends) \<Rightarrow> try_preferred attempt (cb_system self) 0 backends []
       | _ \<Rightarrow> attempt 0 (cb_system self) (cb_selector self))"

end
