(* ===== verification/Selection_Properties.thy ===== *)
theory Selection_Properties
  imports Device_Start
begin

text \<open>
  Properties of device selection: what a selector picks, which devices a policy may answer with,
  when a system is built, how the preferred backends are tried, and what a plan promises.
\<close>

section \<open>Selectors\<close>

text \<open>The device \<open>d\<close> of the enumeration matches, and the choice is determined.\<close>

definition picks :: "device_selector \<Rightarrow> device_info list \<Rightarrow> device_info \<Rightarrow> bool" where
  "picks selector devices d \<longleftrightarrow>
     (if selector = SelectDefault then devices \<noteq> [] \<and> d = hd devices
      else selector_matches selector d
        \<and> (\<exists>us vs. devices = us @ d # vs \<and> list_all (\<lambda>x. \<not> selector_matches selector x) (us @ vs)))"

lemma filter_single:
  "filter P xs = [x] \<longleftrightarrow> P x \<and> (\<exists>us vs. xs = us @ x # vs \<and> list_all (\<lambda>y. \<not> P y) (us @ vs))"
  by (auto simp: filter_eq_Cons_iff eq_commute [of "[]"] filter_empty_conv list_all_iff)

lemma select_device_Ok: "select_device show selector devices = Ok d \<longleftrightarrow> picks selector devices d"
proof (cases "selector = SelectDefault")
  case True
  then show ?thesis
    by (cases devices) (auto simp: select_device_def picks_def selector_matches_def)
next
  case False
  then have "select_device show selector devices = Ok d \<longleftrightarrow> filter (selector_matches selector) devices = [d]"
    by (cases "filter (selector_matches selector) devices") (auto simp: select_device_def)
  with False show ?thesis by (simp add: picks_def filter_single)
qed

text \<open>C32: A selector picks a device of the enumeration only when the choice is determined: the default
  selector takes the first, every other takes the one device that matches.  It fails with
  \<open>DeviceNotFound\<close> exactly when nothing matches and with \<open>AmbiguousDevice\<close> exactly when a selector
  other than the default matches twice; there is no other outcome.\<close>

theorem select_device_exact:
  "(select_device show selector devices = Ok d \<longleftrightarrow> picks selector devices d)
   \<and> (\<exists>r. select_device show selector devices = r \<and> r \<noteq> Panic
      \<and> ((\<exists>e. r = Err e \<and> err_kind e = DeviceNotFound)
           = (filter (selector_matches selector) devices = []))
      \<and> ((\<exists>e. r = Err e \<and> err_kind e = AmbiguousDevice)
           = (selector \<noteq> SelectDefault \<and> 2 \<le> length (filter (selector_matches selector) devices))))"
proof -
  have kinds: "err_kind (device_not_found m) = DeviceNotFound" "err_kind (ambiguous_device m) = AmbiguousDevice"
    for m by (simp_all add: error_constructors)
  show ?thesis
  proof (intro conjI exI refl)
    show "select_device show selector devices = Ok d \<longleftrightarrow> picks selector devices d"
      by (rule select_device_Ok)
  qed (auto simp: select_device_def kinds Suc_le_eq numeral_2_eq_2 split: list.splits if_splits)
qed

section \<open>Enumeration\<close>

lemma resolve_backend_Ok: "resolve_backend b t = Ok u \<Longrightarrow> t \<noteq> Auto \<Longrightarrow> u = t"
  by (auto simp: resolve_backend_def Let_def split: if_splits)

lemma devices_for_backend_namespace:
  assumes "devices_for_backend b W self backend = Ok found" "d \<in> set found"
  shows "did_backend (di_id d) = backend"
proof (cases "backend = SYNTHETIC \<and> cs_synthetic self")
  case True
  with assms show ?thesis by (auto simp: devices_for_backend_def device_info_synthetic_def)
next
  case synthetic: False
  show ?thesis
  proof (cases "map_of (cs_registered self) backend")
    case (Some provider)
    then obtain infos where "collect_results (registered_device backend) (enumerate 0 infos) = Ok found"
      using assms(1) synthetic by (auto simp: devices_for_backend_def result_simps)
    then have "list_all2 (\<lambda>entry d. registered_device backend entry = Ok d) (enumerate 0 infos) found"
      by (simp add: collect_results_eq_Ok)
    moreover obtain k where "k < length found" "d = found ! k"
      using assms(2) by (auto simp: in_set_conv_nth)
    ultimately have "registered_device backend (enumerate 0 infos ! k) = Ok d"
      by (simp add: list_all2_conv_all_nth)
    then show ?thesis
      by (auto simp: registered_device_def device_id_new_def result_simps split: prod.splits if_splits)
  next
    case None
    then obtain t u ds where t: "backend_of_id backend = Some t" "resolve_backend b t = Ok u"
        "found = map (device_info_of u) ds"
      using assms(1) synthetic by (auto simp: devices_for_backend_def result_simps)
    then have "u = t" by (simp add: resolve_backend_Ok backend_of_id_eq)
    with t assms(2) show ?thesis
      by (auto simp: device_info_of_def Let_def backend_of_id_eq)
  qed
qed

text \<open>What the backends of a list found, in order, and the errors they met.\<close>

definition found_devices :: "(backend_id \<Rightarrow> (device_info list) camera_result) \<Rightarrow> backend_id list \<Rightarrow> device_info list" where
  "found_devices query backends = concat (List.map_filter (\<lambda>x. ok (query x)) backends)"

lemma gather_devices_Ok:
  "gather_devices query backends devices errors = Ok (devices', errors') \<Longrightarrow>
     devices' = devices @ found_devices query backends
     \<and> (\<exists>new. errors' = errors @ new \<and> (new = [] \<or> (\<exists>us x vs. backends = us @ x # vs
         \<and> query x = Err (hd new) \<and> list_all (\<lambda>y. is_ok (query y)) us)))"
proof (induction query backends devices errors rule: gather_devices.induct)
  case (1 query devices errors)
  then show ?case by (simp add: found_devices_def map_filter_simps)
next
  case (2 query backend backends devices errors)
  show ?case
  proof (cases "query backend")
    case (Ok found)
    with 2 obtain new where step: "devices' = (devices @ found) @ found_devices query backends"
        "errors' = errors @ new" "new = [] \<or> (\<exists>us x vs. backends = us @ x # vs
         \<and> query x = Err (hd new) \<and> list_all (\<lambda>y. is_ok (query y)) us)"
      by auto
    have "\<exists>us x vs. backend # backends = us @ x # vs \<and> query x = Err (hd new) \<and> list_all (\<lambda>y. is_ok (query y)) us"
      if "new \<noteq> []"
    proof -
      from that step(3) obtain us x vs where "backends = us @ x # vs" "query x = Err (hd new)"
          "list_all (\<lambda>y. is_ok (query y)) us" by blast
      then have "backend # backends = (backend # us) @ x # vs \<and> query x = Err (hd new)
          \<and> list_all (\<lambda>y. is_ok (query y)) (backend # us)"
        using Ok by simp
      then show ?thesis by blast
    qed
    then have "new = [] \<or> (\<exists>us x vs. backend # backends = us @ x # vs \<and> query x = Err (hd new)
        \<and> list_all (\<lambda>y. is_ok (query y)) us)"
      by blast
    moreover have "devices' = devices @ found_devices query (backend # backends)"
      using step(1) Ok by (simp add: found_devices_def map_filter_simps)
    ultimately show ?thesis using step(2) by blast
  next
    case (Err e)
    with 2 obtain new where step: "devices' = devices @ found_devices query backends"
        "errors' = (errors @ [e]) @ new" by auto
    show ?thesis
    proof (intro conjI exI disjI2)
      show "devices' = devices @ found_devices query (backend # backends)"
        using step(1) Err by (simp add: found_devices_def map_filter_simps)
      show "errors' = errors @ (e # new)" using step(2) by simp
      show "backend # backends = [] @ backend # backends" by simp
    qed (simp_all add: Err)
  next
    case Panic
    with 2 show ?thesis by simp
  qed
qed

lemma found_devices_Nil:
  "found_devices query backends = [] \<longleftrightarrow> (\<forall>x \<in> set backends. \<forall>found. query x = Ok found \<longrightarrow> found = [])"
  by (auto simp: found_devices_def map_filter_def ok_eq_Some)

lemma devices_blocking_cases:
  assumes "devices_blocking b W self = r" "r \<noteq> Panic"
  shows "\<exists>errors. (errors \<noteq> [] \<longrightarrow> (\<exists>us x vs. policy_backends b self = us @ x # vs
          \<and> devices_for_backend b W self x = Err (hd errors)
          \<and> list_all (\<lambda>y. is_ok (devices_for_backend b W self y)) us))
      \<and> r = (if found_devices (devices_for_backend b W self) (policy_backends b self) = [] \<and> errors \<noteq> []
          then Err (hd errors)
          else Ok (found_devices (devices_for_backend b W self) (policy_backends b self)))"
proof (cases "gather_devices (devices_for_backend b W self) (policy_backends b self) [] []")
  case (Ok p)
  then obtain ds es where p: "gather_devices (devices_for_backend b W self) (policy_backends b self) [] []
      = Ok (ds, es)" by (cases p) auto
  from gather_devices_Ok [OF p] have
    "ds = found_devices (devices_for_backend b W self) (policy_backends b self)
     \<and> (es \<noteq> [] \<longrightarrow> (\<exists>us x vs. policy_backends b self = us @ x # vs
          \<and> devices_for_backend b W self x = Err (hd es)
          \<and> list_all (\<lambda>y. is_ok (devices_for_backend b W self y)) us))"
    by auto
  moreover have "r = (if ds = [] \<and> es \<noteq> [] then Err (hd es) else Ok ds)"
    using assms(1) by (simp add: devices_blocking_def p)
  ultimately show ?thesis by blast
next
  case (Err e)
  have "gather_devices query backends ds es \<noteq> Err e" for query backends ds es
    by (induction query backends ds es rule: gather_devices.induct) (auto split: result.splits)
  with Err show ?thesis by simp
next
  case Panic
  with assms show ?thesis by (simp add: devices_blocking_def)
qed

lemma found_devices_namespace:
  assumes "d \<in> set (found_devices (devices_for_backend b W self) backends)"
  obtains found where "did_backend (di_id d) \<in> set backends"
    "devices_for_backend b W self (did_backend (di_id d)) = Ok found" "d \<in> set found"
proof -
  obtain x found where x: "x \<in> set backends" "devices_for_backend b W self x = Ok found" "d \<in> set found"
    using assms by (auto simp: found_devices_def map_filter_def ok_eq_Some)
  moreover have "did_backend (di_id d) = x" by (rule devices_for_backend_namespace [OF x(2, 3)])
  ultimately show thesis using that by blast
qed

lemma devices_blocking_Ok:
  assumes "devices_blocking b W self = Ok devices"
  shows "devices = found_devices (devices_for_backend b W self) (policy_backends b self)"
  using devices_blocking_cases [OF assms] by (auto split: if_splits)

text \<open>C31: The devices a system answers with are those the backends of its policy found, in the order of
  the policy, and each lies in the namespace of such a backend: a required backend never answers
  with a device of another.  An enumeration fails only when no backend found any device, and then
  with the error of the first backend that failed.\<close>

theorem devices_follow_policy:
  "(devices_blocking b W self = Ok devices \<longrightarrow>
      devices = found_devices (devices_for_backend b W self) (policy_backends b self)
      \<and> (\<lambda>d. did_backend (di_id d)) ` set devices \<subseteq> set (policy_backends b self))
   \<and> (devices_blocking b W self = Err e \<longrightarrow>
      found_devices (devices_for_backend b W self) (policy_backends b self) = []
      \<and> (\<exists>us x vs. policy_backends b self = us @ x # vs \<and> devices_for_backend b W self x = Err e
          \<and> list_all (\<lambda>y. devices_for_backend b W self y = Ok []) us))"
proof (intro conjI impI)
  assume ok: "devices_blocking b W self = Ok devices"
  then show eq: "devices = found_devices (devices_for_backend b W self) (policy_backends b self)"
    by (rule devices_blocking_Ok)
  then show "(\<lambda>d. did_backend (di_id d)) ` set devices \<subseteq> set (policy_backends b self)"
    by (auto elim: found_devices_namespace)
next
  assume "devices_blocking b W self = Err e"
  from devices_blocking_cases [OF this] obtain us x vs
    where none: "found_devices (devices_for_backend b W self) (policy_backends b self) = []"
      and first: "policy_backends b self = us @ x # vs" "devices_for_backend b W self x = Err e"
        "list_all (\<lambda>y. is_ok (devices_for_backend b W self y)) us"
    by (auto split: if_splits)
  show "found_devices (devices_for_backend b W self) (policy_backends b self) = []" by (rule none)
  have "list_all (\<lambda>y. devices_for_backend b W self y = Ok []) us"
    using none first(1, 3) by (auto simp: found_devices_Nil list_all_iff is_ok_iff)
  with first(1, 2) show "\<exists>us x vs. policy_backends b self = us @ x # vs
      \<and> devices_for_backend b W self x = Err e \<and> list_all (\<lambda>y. devices_for_backend b W self y = Ok []) us"
    by blast
qed

section \<open>Systems\<close>

lemma check_each_Ok: "check_each f xs = Ok () \<longleftrightarrow> list_all (\<lambda>x. f x = Ok ()) xs"
  by (induction xs) (auto simp: result_simps)

lemma system_build_Ok:
  "system_build sb = Ok self \<longleftrightarrow>
     list_all (\<lambda>opts. options_validate opts = Ok ()) (sb_backend_options sb)
     \<and> (case sb_policy sb of
          PlatformDefault \<Rightarrow> True
        | Require selected \<Rightarrow> list_all (\<lambda>opts. options_backend opts = selected) (sb_backend_options sb)
        | Prefer backends \<Rightarrow> backends \<noteq> [])
     \<and> self = \<lparr>cs_policy = sb_policy sb, cs_synthetic = False, cs_registered = sb_registered sb,
           cs_backend_options = sb_backend_options sb\<rparr>"
  by (auto simp: system_build_def result_simps check_each_Ok list_all_iff split: backend_policy.splits if_splits)

lemma resolve_selector_device:
  assumes "resolve_selector show wend b W self selector = Ok info"
  obtains found where "did_backend (di_id info) \<in> set (policy_backends b self)"
    "devices_for_backend b W self (did_backend (di_id info)) = Ok found" "info \<in> set found"
proof -
  from assms obtain devices where "system_devices wend b W self = Ok devices"
      and sel: "select_device show selector devices = Ok info"
    by (auto simp: resolve_selector_def result_simps)
  then have "devices_blocking b W self = Ok devices"
    by (cases wend) (simp_all add: system_devices_def)
  moreover have "info \<in> set devices"
    using sel unfolding select_device_Ok picks_def by (auto split: if_splits)
  ultimately have "info \<in> set (found_devices (devices_for_backend b W self) (policy_backends b self))"
    using devices_blocking_Ok by blast
  then show thesis by (rule found_devices_namespace) (rule that)
qed

lemma open_inner_info:
  assumes "open_inner show n ends b Ws self selector = Ok dev"
  shows "resolve_selector show (fst ends) b (fst Ws) self selector = Ok (dev_info dev)"
    and "dev_options dev = cs_backend_options self"
  using assms by (auto simp: open_inner_def result_simps)

definition buffers_valid :: "stream_request \<Rightarrow> bool" where
  "buffers_valid raw \<longleftrightarrow> (case sr_driver_buffers raw of None \<Rightarrow> True | Some n \<Rightarrow> 2 \<le> n \<and> n \<le> 32)"

lemma start_options_Ok:
  "list_all (\<lambda>opts. options_backend opts = backend \<and> options_validate opts = Ok ()) opts \<Longrightarrow>
   buffers_valid raw \<Longrightarrow> \<exists>raw'. start_options backend opts raw = Ok raw' \<and> buffers_valid raw'"
proof (induction backend opts raw rule: start_options.induct)
  case (1 backend raw)
  then show ?case by simp
next
  case (2 backend opt opts raw)
  show ?case
  proof (cases opt)
    case (OptV4l2 options)
    then have "buffers_valid (raw\<lparr>sr_driver_buffers := v4l2_mmap_buffers options\<rparr>)"
      using "2.prems"(1) OptV4l2 by (auto simp: buffers_valid_def split: option.splits if_splits)
    with 2 OptV4l2 show ?thesis by auto
  qed (use 2 in auto)
qed

lemma to_stream_request_buffers: "to_stream_request q = Ok raw \<Longrightarrow> sr_driver_buffers raw = None"
  by (auto simp: to_stream_request_def stream_request_build_def result_simps Let_def stream_builder_def
      sr_resolution_def sr_frame_rate_def sr_capture_format_def sr_set_output_def sr_set_selection_def
      sr_memory_budget_def sr_set_startup_timeout_def sr_set_reconnect_def split: list.splits option.splits if_splits)

text \<open>A system is built exactly when every option is valid, a required backend is the one of every
  option, and a list of preferred backends is not empty.  A device opened from a built system that
  is narrowed to one backend belongs to that backend, and its start accepts every option the
  system carries: there is no option mismatch, and the number of driver buffers is within bounds.\<close>

theorem built_system_options:
  assumes "system_build sb = Ok self"
    "open_inner show n ends b Ws (requiring backend self) selector = Ok dev"
    "to_stream_request q = Ok raw"
  shows "(is_ok (system_build other) \<longleftrightarrow>
      list_all (\<lambda>opts. options_validate opts = Ok ()) (sb_backend_options other)
      \<and> (case sb_policy other of
          PlatformDefault \<Rightarrow> True
        | Require selected \<Rightarrow> list_all (\<lambda>opts. options_backend opts = selected) (sb_backend_options other)
        | Prefer backends \<Rightarrow> backends \<noteq> []))
    \<and> did_backend (di_id (dev_info dev)) = backend
    \<and> (\<exists>raw'. start_options (did_backend (di_id (dev_info dev))) (dev_options dev) raw = Ok raw'
        \<and> buffers_valid raw')"
proof (intro conjI)
  show "is_ok (system_build other) \<longleftrightarrow>
      list_all (\<lambda>opts. options_validate opts = Ok ()) (sb_backend_options other)
      \<and> (case sb_policy other of
          PlatformDefault \<Rightarrow> True
        | Require selected \<Rightarrow> list_all (\<lambda>opts. options_backend opts = selected) (sb_backend_options other)
        | Prefer backends \<Rightarrow> backends \<noteq> [])"
    by (simp add: is_ok_iff system_build_Ok)
  have valid: "list_all (\<lambda>opts. options_validate opts = Ok ()) (sb_backend_options sb)"
    using assms(1) by (simp add: system_build_Ok)
  have "policy_backends b (requiring backend self) = [backend]"
    by (simp add: policy_backends_def requiring_def)
  then show same: "did_backend (di_id (dev_info dev)) = backend"
    using resolve_selector_device [OF open_inner_info(1) [OF assms(2)]] by fastforce
  have opts: "dev_options dev = filter (\<lambda>opts. options_backend opts = backend) (sb_backend_options sb)"
    using open_inner_info(2) [OF assms(2)] assms(1) by (simp add: requiring_def system_build_Ok)
  have "list_all (\<lambda>opts. options_backend opts = backend \<and> options_validate opts = Ok ()) (dev_options dev)"
    using valid by (auto simp: opts list_all_iff)
  moreover have "buffers_valid raw"
    using to_stream_request_buffers [OF assms(3)] by (simp add: buffers_valid_def)
  ultimately show "\<exists>raw'. start_options (did_backend (di_id (dev_info dev))) (dev_options dev) raw = Ok raw'
        \<and> buffers_valid raw'"
    unfolding same by (rule start_options_Ok)
qed

section \<open>Preferred backends\<close>

text \<open>A failure after which the next backend is tried.\<close>

definition retried :: "'r camera_result \<Rightarrow> bool" where
  "retried r \<longleftrightarrow> (\<exists>e. r = Err e \<and> err_kind e \<notin> {PermissionDenied, PermissionRequired})"

fun failure :: "'r camera_result \<Rightarrow> camera_error" where
  "failure (Err e) = e"
| "failure _ = stream_stopped"

lemma try_preferred_stops:
  assumes "k < length backends" "\<not> retried (attempt (i + k) (requiring (backends ! k) self) SelectDefault)"
    "\<And>j. j < k \<Longrightarrow> retried (attempt (i + j) (requiring (backends ! j) self) SelectDefault)"
  shows "try_preferred attempt self i backends attempts
    = attempt (i + k) (requiring (backends ! k) self) SelectDefault"
  using assms
proof (induction backends arbitrary: i k attempts)
  case (Cons x xs)
  show ?case
  proof (cases k)
    case 0
    with Cons.prems(2) show ?thesis
      by (cases "attempt i (requiring x self) SelectDefault") (auto simp: retried_def)
  next
    case (Suc m)
    have "retried (attempt i (requiring x self) SelectDefault)"
      using Cons.prems(3) [of 0] Suc by simp
    moreover have "try_preferred attempt self (i + 1) xs bs
        = attempt (i + 1 + m) (requiring (xs ! m) self) SelectDefault" for bs
    proof (rule Cons.IH)
      show "m < length xs" using Cons.prems(1) Suc by simp
      show "\<not> retried (attempt (i + 1 + m) (requiring (xs ! m) self) SelectDefault)"
        using Cons.prems(2) Suc by simp
      show "retried (attempt (i + 1 + j) (requiring (xs ! j) self) SelectDefault)" if "j < m" for j
        using Cons.prems(3) [of "Suc j"] that Suc by simp
    qed
    ultimately show ?thesis using Suc by (auto simp: retried_def)
  qed
qed simp

lemma try_preferred_exhausted:
  assumes "\<And>j. j < length backends \<Longrightarrow> retried (attempt (i + j) (requiring (backends ! j) self) SelectDefault)"
  shows "try_preferred attempt self i backends attempts = Err (all_backends_failed (attempts @
    map (\<lambda>j. BackendAttempt (backends ! j)
      (failure (attempt (i + j) (requiring (backends ! j) self) SelectDefault))) [0..<length backends]))"
  using assms
proof (induction backends arbitrary: i attempts)
  case (Cons x xs)
  obtain e where e: "attempt i (requiring x self) SelectDefault = Err e"
      "err_kind e \<notin> {PermissionDenied, PermissionRequired}"
    using Cons.prems [of 0] by (auto simp: retried_def)
  have "retried (attempt (i + 1 + j) (requiring (xs ! j) self) SelectDefault)" if "j < length xs" for j
    using Cons.prems [of "Suc j"] that by simp
  from Cons.IH [OF this] e show ?case
    by (simp add: map_upt_Suc del: upt_Suc)
qed simp

text \<open>What the attempt on the preferred backend number \<open>k\<close> answers.\<close>

definition attempt_outcome ::
  "(nat \<Rightarrow> 'p camera_system \<Rightarrow> device_selector \<Rightarrow> 'r camera_result) \<Rightarrow> 'p capture_setup \<Rightarrow> backend_id list \<Rightarrow>
     nat \<Rightarrow> 'r camera_result" where
  "attempt_outcome attempt setup backends k
     = attempt k (requiring (backends ! k) (cb_system setup)) SelectDefault"

lemma first_failure:
  fixes n :: nat
  assumes "\<not> (\<forall>j < n. P j)"
  shows "\<exists>k < n. \<not> P k \<and> (\<forall>j < k. P j)"
  using assms exists_least_iff [of "\<lambda>k. k < n \<and> \<not> P k"] by (meson less_trans)

text \<open>C30: The capture builder with the default selector and preferred backends tries them in order, each
  with a system that requires this backend alone.  It answers with the first attempt that succeeds;
  an error of permission ends the search at once and is returned as it is; any other error passes to
  the next backend.  When all have failed, the answer holds one attempt per backend, in order, with
  its own error.\<close>

theorem preferred_backends_fallback:
  assumes "cb_selector setup = SelectDefault" "cs_policy (cb_system setup) = Prefer backends"
    "to_stream_request (cb_request setup) = Ok raw"
  shows "(capture_start attempt setup = Ok capture \<longleftrightarrow>
        (\<exists>k < length backends. attempt_outcome attempt setup backends k = Ok capture \<and> (\<forall>j < k. retried (attempt_outcome attempt setup backends j))))
     \<and> (k < length backends \<and> (\<forall>j < k. retried (attempt_outcome attempt setup backends j)) \<and> attempt_outcome attempt setup backends k = Err e \<and> \<not> retried (attempt_outcome attempt setup backends k)
        \<longrightarrow> capture_start attempt setup = Err e)
     \<and> ((\<forall>j < length backends. retried (attempt_outcome attempt setup backends j)) \<longrightarrow>
        capture_start attempt setup = Err (all_backends_failed
          (map (\<lambda>j. BackendAttempt (backends ! j) (failure (attempt_outcome attempt setup backends j))) [0..<length backends])))"
proof -
  define outcome where "outcome = attempt_outcome attempt setup backends"
  have start: "capture_start attempt setup = try_preferred attempt (cb_system setup) 0 backends []"
    by (simp add: capture_start_def assms(1-3))
  have stops: "try_preferred attempt (cb_system setup) 0 backends [] = outcome k"
    if "k < length backends" "\<not> retried (outcome k)" "\<And>j. j < k \<Longrightarrow> retried (outcome j)" for k
    using try_preferred_stops [of k backends attempt 0 "cb_system setup" "[]"] that
    by (simp add: outcome_def attempt_outcome_def)
  have exhausted: "try_preferred attempt (cb_system setup) 0 backends [] = Err (all_backends_failed
          (map (\<lambda>j. BackendAttempt (backends ! j) (failure (outcome j))) [0..<length backends]))"
    if "\<forall>j < length backends. retried (outcome j)"
    using try_preferred_exhausted [of backends attempt 0 "cb_system setup" "[]"] that
    by (simp add: outcome_def attempt_outcome_def)
  show ?thesis
    unfolding outcome_def [symmetric]
  proof (intro conjI impI iffI)
    assume ok: "capture_start attempt setup = Ok capture"
    then have "\<not> (\<forall>j < length backends. retried (outcome j))"
      using exhausted start by auto
    then obtain k where k: "k < length backends" "\<not> retried (outcome k)" "\<forall>j < k. retried (outcome j)"
      using first_failure [of "length backends" "\<lambda>j. retried (outcome j)"] by blast
    then have "outcome k = Ok capture" using stops start ok by simp
    with k show "\<exists>k < length backends. outcome k = Ok capture \<and> (\<forall>j < k. retried (outcome j))" by blast
  next
    assume "\<exists>k < length backends. outcome k = Ok capture \<and> (\<forall>j < k. retried (outcome j))"
    then obtain k where k: "k < length backends" "outcome k = Ok capture" "\<forall>j < k. retried (outcome j)"
      by blast
    then have "\<not> retried (outcome k)" by (simp add: retried_def)
    with k stops [of k] start show "capture_start attempt setup = Ok capture" by simp
  next
    assume "k < length backends \<and> (\<forall>j < k. retried (outcome j)) \<and> outcome k = Err e \<and> \<not> retried (outcome k)"
    then have k: "k < length backends" "\<forall>j < k. retried (outcome j)" "outcome k = Err e"
      "\<not> retried (outcome k)" by blast+
    have "try_preferred attempt (cb_system setup) 0 backends [] = outcome k"
      by (rule stops) (use k in auto)
    with k(3) start show "capture_start attempt setup = Err e" by simp
  next
    assume "\<forall>j < length backends. retried (outcome j)"
    with exhausted start show "capture_start attempt setup = Err (all_backends_failed
          (map (\<lambda>j. BackendAttempt (backends ! j) (failure (outcome j))) [0..<length backends]))" by simp
  qed
qed

section \<open>Plans\<close>

lemma plan_of_Ok:
  "plan_of q cs = Ok plan \<Longrightarrow> \<exists>ranked. rank_capture_configurations q cs = Ok ranked \<and> ranked \<noteq> []
     \<and> collect_results mode_from_config ranked
         = Ok (nc_capture (plan_selected plan) # plan_alternatives plan)
     \<and> plan_estimated_pool_bytes plan = pool_estimate q (hd ranked)"
  by (auto simp: plan_of_def result_simps hd_conv_nth drop_Suc neq_Nil_conv)

lemma pool_estimate_bound: "pool_estimate q c \<le> mb_bytes (cr_memory q)"
  by (simp add: pool_estimate_def Let_def)

lemma capabilities_of_info:
  assumes "devices_for_backend b W self (did_backend (di_id info)) = Ok found" "info \<in> set found"
    "did_backend (di_id info) \<noteq> SYNTHETIC" "map_of (cs_registered self) (did_backend (di_id info)) = None"
    "backend_of_id (did_backend (di_id info)) = Some t"
    "capabilities_blocking b W self (di_id info) = Ok caps"
  shows "get_device_capabilities b (w_platform W) t (di_index info) = Ok caps"
proof -
  let ?matching = "filter (\<lambda>d. di_id d = di_id info) found"
  have "info \<in> set ?matching" using assms(2) by simp
  moreover have "\<not> 1 < length ?matching"
    using assms(1, 6) by (auto simp: capabilities_blocking_def Let_def)
  ultimately have "?matching = [info]"
    by (cases ?matching; cases "tl ?matching") auto
  with assms show ?thesis
    by (simp add: capabilities_blocking_def Let_def ok_or_def)
qed

text \<open>C29: The plan of a capture is what the start of the same device then tries: for a device of a native
  driver that is asked through the backend, with the environment unchanged, the candidates of the
  start are, in order, the selected mode and the alternatives of the plan.  The estimate of the pool
  is within the byte budget of the request.\<close>

theorem plan_predicts_start:
  assumes "system_plan show (Finished, None, None) b (W, W) self selector q = Ok plan"
    "resolve_selector show Finished b W self selector = Ok info"
    "map_of (cs_registered self) (did_backend (di_id info)) = None"
    "backend_of_id (did_backend (di_id info)) = Some t" "t \<noteq> Uvc" "t \<noteq> MediaFoundation"
    "dev_info dev = info" "dev_source dev = SourceNative cam (Some (di_id info))"
  shows "\<exists>candidates. start_candidates b W uvc_opened (Finished, Finished) q dev = Ok candidates
      \<and> collect_results mode_from_config candidates
          = Ok (nc_capture (plan_selected plan) # plan_alternatives plan)
      \<and> plan_estimated_pool_bytes plan \<le> mb_bytes (cr_memory q)"
proof -
  have backend: "did_backend (di_id info) = id_of_backend t" "t \<noteq> Auto"
    using backend_of_id_eq [OF assms(4)] by simp_all
  then have not_synthetic: "did_backend (di_id info) \<noteq> SYNTHETIC"
    and not_mf: "did_backend (di_id info) \<noteq> MEDIA_FOUNDATION" "did_backend (di_id info) \<noteq> UVC"
    using assms(5, 6) by (cases t; simp add: backend_consts)+
  obtain found where found: "devices_for_backend b W self (did_backend (di_id info)) = Ok found"
      "info \<in> set found"
    using resolve_selector_device [OF assms(2)] by blast
  obtain caps advertised extra where plan:
      "capabilities_blocking b W self (di_id info) = Ok caps" "Capabilities.configurations caps = Ok advertised"
      "requested_configs b (w_platform W) t (di_index info) q advertised = Ok extra"
      "plan_of q (advertised @ extra) = Ok plan"
    using assms(1, 4) not_synthetic by (auto simp: system_plan_def assms(2) result_simps)
  obtain ranked where ranked: "rank_capture_configurations q (advertised @ extra) = Ok ranked"
      "collect_results mode_from_config ranked = Ok (nc_capture (plan_selected plan) # plan_alternatives plan)"
      "plan_estimated_pool_bytes plan = pool_estimate q (hd ranked)"
    using plan_of_Ok [OF plan(4)] by blast
  have "get_device_capabilities b (w_platform W) t (di_index info) = Ok caps"
    by (rule capabilities_of_info [OF found not_synthetic assms(3, 4) plan(1)])
  moreover have "external_capabilities b (w_platform W) (w_custom W) uvc_opened
      (SourceNative cam (Some (di_id info))) = Ok None"
    using not_mf by (simp add: external_capabilities_def)
  ultimately have "start_candidates b W uvc_opened (Finished, Finished) q dev = Ok ranked"
    using plan(2, 3) ranked(1)
    by (simp add: start_candidates_def Let_def assms(4, 7, 8) ok_or_def)
  then show ?thesis
    using ranked(2, 3) pool_estimate_bound [of q] by auto
qed

text \<open>The synthetic source is different: the plan selects the preferred format, the start only \<open>RGB\<close>.\<close>

lemma synthetic_plan_not_started:
  assumes "plan_of q [synthetic_configuration (video_of_capture CaptureMjpeg) q] = Ok plan"
    "dev_source dev = SourceSynthetic"
  shows "cm_format (nc_capture (plan_selected plan)) = CaptureMjpeg
    \<and> start_candidates b W uvc_opened ends q dev = Ok [synthetic_configuration RGB q]"
proof
  obtain ranked where r: "rank_capture_configurations q [synthetic_configuration MJPEG q] = Ok ranked"
      "collect_results mode_from_config ranked = Ok (nc_capture (plan_selected plan) # plan_alternatives plan)"
    using plan_of_Ok [OF assms(1)] by auto
  then have "ranked = [synthetic_configuration MJPEG q]"
    by (auto simp: rank_capture_configurations_def Let_def split: if_splits)
  with r(2) show "cm_format (nc_capture (plan_selected plan)) = CaptureMjpeg"
    by (auto simp: result_simps mode_from_config_def synthetic_configuration_def with_frame_rate_def
        camera_config_new_def eq_commute [of _ "nc_capture (plan_selected plan)"])
  show "start_candidates b W uvc_opened ends q dev = Ok [synthetic_configuration RGB q]"
    by (simp add: start_candidates_def Let_def assms(2))
qed

section \<open>Examples\<close>

text \<open>A world with one V4L2 camera and no providers.\<close>

definition selection_mode :: capture_mode where
  "selection_mode =
     \<lparr>cm_format = CaptureNv12, cm_width = 640, cm_height = 480, cm_frame_rate = frame_rate_default\<rparr>"

definition selection_camera :: camera_device_info where
  "selection_camera = (camera_device_info_new 0 ''Front'' [])\<lparr>cdi_device_path := Some ''/dev/v4l/by-id/1''\<rparr>"

definition selection_world :: "(i32, unit, unit) world" where
  "selection_world =
     \<lparr>w_platform = example_platform
        \<lparr>pf_list_devices := (\<lambda>_. Ok [selection_camera]),
         pf_v4l2_capabilities := (\<lambda>_. Ok (from_modes_unchecked
           \<lparr>feat_convert_rgb = True, feat_decode_mjpeg = False\<rparr> [selection_mode])),
         pf_driver := (\<lambda>_. example_driver\<lparr>drv_frame_hub := (\<lambda>_. Some (hub_default 1))\<rparr>)\<rparr>,
      w_custom = \<lparr>cx_capabilities = (\<lambda>_. Err stream_stopped), cx_start = (\<lambda>_ _ c. (c, Ok ())),
        cx_stop = (\<lambda>c. (c, Ok ()))\<rparr>,
      w_provider_id = (\<lambda>_. SYNTHETIC), w_enumerate = (\<lambda>_. Ok []), w_open = (\<lambda>_ _. Ok ()),
      w_permission = NotRequired, w_request = Ok True\<rparr>"

definition selection_system :: "unit camera_system" where
  "selection_system =
     \<lparr>cs_policy = Prefer [UVC, V4L2], cs_synthetic = False, cs_registered = [],
      cs_backend_options = [OptV4l2 \<lparr>v4l2_mmap_buffers = Some 8\<rparr>]\<rparr>"

abbreviation selection_info :: device_info where
  "selection_info \<equiv> device_info_of V4l2 selection_camera"

lemma backend_types: "backend_of_id V4L2 = Some V4l2" "backend_of_id UVC = Some Uvc"
    "V4L2 \<noteq> SYNTHETIC" "UVC \<noteq> SYNTHETIC" "V4L2 \<noteq> UVC"
  by (simp_all add: backend_of_id_def backend_consts)

lemma selection_build:
  "resolve_backend example_build V4l2 = Ok V4l2" "is_available_in example_build V4l2"
  "resolve_backend example_build Uvc = Err (backend_not_compiled UVC)" "camera_v4l2 example_build"
  by (simp_all add: resolve_backend_def Let_def is_compiled_def supports_target_def example_build_def camera_v4l2_def)

lemma selection_list: "list_devices example_build (w_platform selection_world) V4l2 = Ok [selection_camera]"
  using selection_build(2)
  by (simp add: list_devices_def effective_backend_def selection_world_def)

lemma selection_devices:
  "cs_registered self = [] \<Longrightarrow> devices_for_backend example_build selection_world self V4L2 = Ok [selection_info]"
  by (simp add: devices_for_backend_def backend_types selection_build ok_or_def selection_list)

lemma selection_uvc:
  "cs_registered self = [] \<Longrightarrow>
   devices_for_backend example_build selection_world self UVC = Err (backend_not_compiled UVC)"
  by (simp add: devices_for_backend_def backend_types selection_build ok_or_def)

lemma selection_blocking:
  "devices_blocking example_build selection_world selection_system = Ok [selection_info]"
proof -
  have "policy_backends example_build selection_system = [UVC, V4L2]" "cs_registered selection_system = []"
    by (simp_all add: policy_backends_def selection_system_def)
  then show ?thesis
    by (simp add: devices_blocking_def selection_uvc selection_devices)
qed

lemma devices_follow_policy_witness:
  "(\<lambda>d. did_backend (di_id d)) ` {selection_info}
     \<subseteq> set (policy_backends example_build selection_system)
   \<and> found_devices (devices_for_backend example_build selection_world (requiring UVC selection_system)) [UVC] = []"
proof
  show "(\<lambda>d. did_backend (di_id d)) ` {selection_info} \<subseteq> set (policy_backends example_build selection_system)"
    using devices_follow_policy [of example_build selection_world selection_system "[selection_info]"]
      selection_blocking by simp
  have "policy_backends example_build (requiring UVC selection_system) = [UVC]"
      "cs_registered (requiring UVC selection_system) = []"
    by (simp_all add: policy_backends_def requiring_def selection_system_def)
  moreover from this have "devices_blocking example_build selection_world (requiring UVC selection_system)
      = Err (backend_not_compiled UVC)"
    by (simp add: devices_blocking_def selection_uvc)
  ultimately show "found_devices (devices_for_backend example_build selection_world
      (requiring UVC selection_system)) [UVC] = []"
    using devices_follow_policy [of example_build selection_world "requiring UVC selection_system"] by simp
qed

section \<open>The other witnesses\<close>

definition selection_builder :: "unit system_builder" where
  "selection_builder = sb_add_options (OptV4l2 \<lparr>v4l2_mmap_buffers = Some 8\<rparr>)
     (sb_set_policy (Prefer [UVC, V4L2]) system_builder_default)"

lemma selection_built: "system_build selection_builder = Ok selection_system"
  by (simp add: system_build_def selection_builder_def sb_add_options_def sb_set_policy_def
      system_builder_default_def selection_system_def)

definition selection_device :: "(i32, unit) device" where
  "selection_device =
     \<lparr>dev_info = selection_info, dev_source = SourceNative (Some (V4l2Camera 0)) (Some (di_id selection_info)),
      dev_hub = hub_default 1, dev_busy = False,
      dev_options = [OptV4l2 \<lparr>v4l2_mmap_buffers = Some 8\<rparr>], dev_closed = False\<rparr>"

lemma selection_info_backend: "did_backend (di_id selection_info) = V4L2"
  by (simp add: device_info_of_def Let_def)

lemma selection_opened:
  "open_inner show 1 (Finished, None) example_build (selection_world, selection_world)
     (requiring V4L2 selection_system) SelectDefault = Ok selection_device"
proof -
  let ?self = "requiring V4L2 selection_system"
  have self: "policy_backends example_build ?self = [V4L2]" "cs_registered ?self = []"
      "cs_backend_options ?self = [OptV4l2 \<lparr>v4l2_mmap_buffers = Some 8\<rparr>]"
    by (simp_all add: policy_backends_def requiring_def selection_system_def)
  have resolved: "resolve_selector show Finished example_build selection_world ?self SelectDefault = Ok selection_info"
    by (simp add: resolve_selector_def system_devices_def devices_blocking_def self selection_devices
        select_device_def selector_matches_def)
  have created: "create_selected_camera example_build (w_platform selection_world) index V4l2 hub (Some path)
      = Ok (V4l2Camera 0)" for index hub path
    using selection_build(2)
    by (simp add: create_selected_camera_def effective_backend_def selection_world_def example_platform_def)
  have "camera_frame_hub (w_platform selection_world) (V4l2Camera 0) = Some (hub_default 1)"
    by (simp add: camera_frame_hub_def ask_def selection_world_def)
  then show ?thesis
    by (simp add: open_inner_def resolved open_source_def selection_info_backend backend_types self created
        source_native_def ok_or_def selection_device_def)
qed

lemma builder_request: "\<exists>raw. to_stream_request capture_builder = Ok raw"
  by (simp add: to_stream_request_def capture_builder_def stream_request_build_def stream_builder_def
      memory_budget_validate_def memory_budget_default_def checked_mul_def usize_bound_def
      sr_resolution_def sr_frame_rate_def sr_set_output_def sr_set_selection_def sr_memory_budget_def
      sr_set_startup_timeout_def from_secs_def Let_def)

lemma built_system_options_witness:
  "\<exists>raw raw'. to_stream_request capture_builder = Ok raw
     \<and> start_options V4L2 (dev_options selection_device) raw = Ok raw' \<and> buffers_valid raw'"
proof -
  obtain raw where raw: "to_stream_request capture_builder = Ok raw" using builder_request by blast
  from built_system_options [OF selection_built selection_opened raw, of selection_builder] raw
  show ?thesis by auto
qed

lemma preferred_backends_fallback_witness:
  "capture_start (\<lambda>k system selector. if k = 0 then Err (backend_not_compiled UVC) else Ok k)
     \<lparr>cb_system = selection_system, cb_selector = SelectDefault, cb_request = capture_builder\<rparr> = Ok 1"
proof -
  let ?attempt = "\<lambda>k (system :: unit camera_system) (selector :: device_selector).
    if k = 0 then Err (backend_not_compiled UVC) else Ok k"
  let ?built = "\<lparr>cb_system = selection_system, cb_selector = SelectDefault, cb_request = capture_builder\<rparr>"
  obtain raw where raw: "to_stream_request (cb_request ?built) = Ok raw" using builder_request by auto
  have "attempt_outcome ?attempt ?built [UVC, V4L2] 1 = Ok 1"
      "retried (attempt_outcome ?attempt ?built [UVC, V4L2] 0)"
    by (simp_all add: attempt_outcome_def retried_def error_constructors)
  then have ex: "\<exists>k < length [UVC, V4L2]. attempt_outcome ?attempt ?built [UVC, V4L2] k = Ok 1
      \<and> (\<forall>j < k. retried (attempt_outcome ?attempt ?built [UVC, V4L2] j))"
    by (intro exI [of _ 1]) simp
  have "cb_selector ?built = SelectDefault" "cs_policy (cb_system ?built) = Prefer [UVC, V4L2]"
    by (simp_all add: selection_system_def)
  from preferred_backends_fallback [OF this raw, of ?attempt 1] ex show ?thesis by blast
qed

lemma selection_configurations:
  "Capabilities.configurations (from_modes_unchecked feats [selection_mode]) = Ok [nv12_vga 30 1]"
proof -
  have config: "mode_config selection_mode = nv12_vga 30 1"
    by (simp add: mode_config_def selection_mode_def frame_rate_default_def)
  have "acceptable example_request (nv12_vga 30 1)" by (rule vga_acceptable)
  then have "valid_mode selection_mode"
    by (simp add: acceptable_def valid_mode_def config is_ok_iff)
  then show ?thesis
    by (simp add: configurations_def from_modes_unchecked_def Let_def mode_to_config_Ok config result_simps)
qed

lemma selection_plan:
  "\<exists>plan. system_plan show (Finished, None, None) example_build (selection_world, selection_world)
     selection_system SelectDefault example_request = Ok plan"
proof -
  have resolved: "resolve_selector show Finished example_build selection_world selection_system SelectDefault
      = Ok selection_info"
    by (simp add: resolve_selector_def system_devices_def selection_blocking select_device_def
        selector_matches_def)
  have registered: "cs_registered selection_system = []" by (simp add: selection_system_def)
  have "get_device_capabilities example_build (w_platform selection_world) V4l2 index
      = Ok (from_modes_unchecked \<lparr>feat_convert_rgb = True, feat_decode_mjpeg = False\<rparr> [selection_mode])" for index
    by (simp add: get_device_capabilities_def selection_build(4) selection_world_def)
  then have caps: "capabilities_blocking example_build selection_world selection_system (di_id selection_info)
      = Ok (from_modes_unchecked \<lparr>feat_convert_rgb = True, feat_decode_mjpeg = False\<rparr> [selection_mode])"
    by (simp add: capabilities_blocking_def Let_def selection_info_backend selection_devices registered
        backend_types ok_or_def)
  have extra: "requested_configs example_build (w_platform selection_world) V4l2 index q advertised = Ok []"
    for index q advertised
    by (simp add: requested_configs_def selection_world_def example_platform_def)
  have "rank_capture_configurations example_request [nv12_vga 30 1] = Ok [nv12_vga 30 1]"
    by (simp add: rank_capture_configurations_def vga_acceptable sort_key_def)
  then have "\<exists>plan. plan_of example_request [nv12_vga 30 1] = Ok plan"
    by (simp add: plan_of_def index_at_def mode_from_config_def vga_rate)
  then show ?thesis
    by (simp add: system_plan_def resolved selection_info_backend backend_types caps
        selection_configurations extra)
qed

lemma plan_predicts_start_witness:
  "\<exists>plan candidates. system_plan (\<lambda>_. ''default'') (Finished, None, None) example_build
       (selection_world, selection_world) selection_system SelectDefault example_request = Ok plan
     \<and> start_candidates example_build selection_world (\<lambda>_. Ok None) (Finished, Finished) example_request
         selection_device = Ok candidates
     \<and> collect_results mode_from_config candidates
         = Ok (nc_capture (plan_selected plan) # plan_alternatives plan)"
proof -
  obtain plan where plan: "system_plan (\<lambda>_. ''default'') (Finished, None, None) example_build
       (selection_world, selection_world) selection_system SelectDefault example_request = Ok plan"
    using selection_plan by blast
  have "resolve_selector (\<lambda>_. ''default'') Finished example_build selection_world selection_system SelectDefault
      = Ok selection_info"
    by (simp add: resolve_selector_def system_devices_def selection_blocking select_device_def
        selector_matches_def)
  from plan_predicts_start [OF plan this, of V4l2 selection_device "Some (V4l2Camera 0)" "\<lambda>_. Ok None"]
  show ?thesis using plan
    by (auto simp: selection_info_backend backend_types selection_device_def selection_system_def)
qed

end
