(* ===== verification/Limiter.thy ===== *)
theory Limiter
  imports Prelude
begin

text \<open>
  The limiter of the frame rate (\<open>src/utils/frame_rate.rs\<close>), which drops native frames by their
  timestamps.  Timestamps are \<open>u64\<close> nanoseconds, here naturals below \<open>2 ^ 64\<close>; the sums saturate.
\<close>

section \<open>The limiter\<close>

record limiter =
  lim_next :: "nat option"
  lim_last :: nat

definition limiter_default :: limiter where
  "limiter_default = \<lparr>lim_next = None, lim_last = 0\<rparr>"

definition u64_saturating_add :: "nat \<Rightarrow> nat \<Rightarrow> nat" where
  "u64_saturating_add a b = min (a + b) (2 ^ 64 - 1)"

definition limiter_accept :: "nat \<Rightarrow> nat \<Rightarrow> limiter \<Rightarrow> limiter \<times> bool" where
  "limiter_accept timestamp interval self =
     (if interval = 0 \<or> timestamp = 0 then (self, True)
      else
        let start = (if timestamp < lim_last self then None else lim_next self);
            tolerance = interval div 20
        in case start of
             Some nxt \<Rightarrow>
               if u64_saturating_add timestamp tolerance < nxt
               then (\<lparr>lim_next = start, lim_last = timestamp\<rparr>, False)
               else (\<lparr>lim_next = Some
                       (if timestamp > u64_saturating_add nxt interval
                        then u64_saturating_add timestamp interval
                        else u64_saturating_add nxt interval),
                      lim_last = timestamp\<rparr>, True)
           | None \<Rightarrow> (\<lparr>lim_next = Some (u64_saturating_add timestamp interval), lim_last = timestamp\<rparr>, True))"

text \<open>The frames of a stream that pass, with a fixed interval.\<close>

fun accepted :: "nat \<Rightarrow> limiter \<Rightarrow> nat list \<Rightarrow> nat list" where
  "accepted interval self [] = []"
| "accepted interval self (t # ts) =
     (case limiter_accept t interval self of
        (self, pass) \<Rightarrow> (if pass then [t] else []) @ accepted interval self ts)"

section \<open>Spacing\<close>

text \<open>Timestamps that grow, are positive and leave room below \<open>2 ^ 64\<close>.\<close>

definition stream_times :: "nat \<Rightarrow> nat \<Rightarrow> nat list \<Rightarrow> bool" where
  "stream_times interval from ts \<longleftrightarrow>
     sorted (from # ts) \<and> list_all (\<lambda>t. 0 < t \<and> t + 3 * interval < 2 ^ 64) ts"

lemma stream_times_Cons:
  "stream_times interval from (t # ts) \<longleftrightarrow>
     from \<le> t \<and> 0 < t \<and> t + 3 * interval < 2 ^ 64 \<and> stream_times interval t ts"
  by (auto simp: stream_times_def)

lemma accept_cases:
  assumes "0 < interval" "0 < t" "lim_last self \<le> t" "t + 3 * interval < 2 ^ 64"
    "lim_next self = Some n" "limiter_accept t interval self = (self', pass)"
    "n \<le> lim_last self + interval + interval div 20"
  obtains "\<not> pass" "lim_next self' = Some n" "lim_last self' = t"
    | n' where "pass" "n \<le> t + interval div 20" "lim_next self' = Some n'" "lim_last self' = t"
        "n + interval \<le> n'" "t \<le> n'" "n' \<le> t + interval + interval div 20"
proof (cases "t + interval div 20 < n")
  case True
  with assms show thesis
    by (intro that(1)) (auto simp: limiter_accept_def u64_saturating_add_def Let_def split: if_splits)
next
  case False
  have room: "n + interval < 2 ^ 64" "t + interval < 2 ^ 64" "t + interval div 20 < 2 ^ 64"
    using False assms(4) by auto
  then have eqs: "u64_saturating_add t (interval div 20) = t + interval div 20"
      "u64_saturating_add n interval = n + interval" "u64_saturating_add t interval = t + interval"
    by (simp_all add: u64_saturating_add_def)
  define n' where "n' = (if n + interval < t then t + interval else n + interval)"
  have "limiter_accept t interval self = (\<lparr>lim_next = Some n', lim_last = t\<rparr>, True)"
    using False assms(1-3, 5) by (simp add: limiter_accept_def Let_def eqs n'_def)
  with assms(6) have s: "self' = \<lparr>lim_next = Some n', lim_last = t\<rparr>" "pass" by simp_all
  show thesis
    by (rule that(2) [of n']) (use False s in \<open>simp_all add: n'_def\<close>)
qed

lemma accepted_after_next:
  "stream_times interval (lim_last self) ts \<Longrightarrow> 0 < interval \<Longrightarrow> lim_next self = Some n \<Longrightarrow>
   n \<le> lim_last self + interval + interval div 20 \<Longrightarrow> j < length (accepted interval self ts) \<Longrightarrow>
   n + j * interval \<le> accepted interval self ts ! j + interval div 20"
proof (induction ts arbitrary: self n j)
  case (Cons t ts)
  obtain self' pass where step: "limiter_accept t interval self = (self', pass)" by fastforce
  from Cons.prems(1) have t: "0 < t" "lim_last self \<le> t" "t + 3 * interval < 2 ^ 64"
      "stream_times interval t ts" by (simp_all add: stream_times_Cons)
  show ?case
    using Cons.prems(2) t(1-3) Cons.prems(3) step Cons.prems(4)
  proof (rule accept_cases)
    assume r: "\<not> pass" "lim_next self' = Some n" "lim_last self' = t"
    then have "n \<le> lim_last self' + interval + interval div 20" using Cons.prems(4) t(2) by simp
    then show ?thesis using Cons.IH [of self' n j] Cons.prems r t step by simp
  next
    fix n'
    assume a: "pass" "n \<le> t + interval div 20" "lim_next self' = Some n'" "lim_last self' = t"
      "n + interval \<le> n'" "t \<le> n'" "n' \<le> t + interval + interval div 20"
    show ?thesis
    proof (cases j)
      case (Suc m)
      have "n' + m * interval \<le> accepted interval self' ts ! m + interval div 20"
        using Cons.IH [of self' n' m] Cons.prems(2, 5) a t step Suc by simp
      then show ?thesis using a step Suc by simp
    qed (use a step in simp)
  qed
qed simp

lemma accepted_spacing:
  "stream_times interval (lim_last self) ts \<Longrightarrow> 0 < interval \<Longrightarrow>
   (\<And>n. lim_next self = Some n \<Longrightarrow> n \<le> lim_last self + interval + interval div 20) \<Longrightarrow>
   i + Suc j < length (accepted interval self ts) \<Longrightarrow>
   accepted interval self ts ! i + j * interval
     \<le> accepted interval self ts ! (i + Suc j) + interval div 20"
proof (induction ts arbitrary: self i)
  case (Cons t ts)
  obtain self' pass where step: "limiter_accept t interval self = (self', pass)" by fastforce
  from Cons.prems(1) have t: "0 < t" "lim_last self \<le> t" "t + 3 * interval < 2 ^ 64"
      "stream_times interval t ts" by (simp_all add: stream_times_Cons)
  have after: "lim_last self' = t \<and> (\<forall>n. lim_next self' = Some n \<longrightarrow> n \<le> t + interval + interval div 20)
      \<and> (pass \<longrightarrow> (\<exists>n. lim_next self' = Some n \<and> t \<le> n))"
  proof (cases "lim_next self")
    case None
    with step t Cons.prems(2) show ?thesis
      by (auto simp: limiter_accept_def u64_saturating_add_def Let_def)
  next
    case (Some n)
    show ?thesis
      using Cons.prems(2) t(1-3) Some step Cons.prems(3) [OF Some]
      by (rule accept_cases) (use Cons.prems(3) [OF Some] t in auto)
  qed
  have IH: "i' + Suc j < length (accepted interval self' ts) \<Longrightarrow>
      accepted interval self' ts ! i' + j * interval
        \<le> accepted interval self' ts ! (i' + Suc j) + interval div 20" for i'
    using Cons.IH [of self' i'] Cons.prems(2) t(4) after by simp
  show ?case
  proof (cases pass)
    case False
    then show ?thesis using IH [of i] Cons.prems(4) step by simp
  next
    case True
    then obtain n where n: "lim_next self' = Some n" "t \<le> n" using after by blast
    have first: "j < length (accepted interval self' ts) \<Longrightarrow>
        n + j * interval \<le> accepted interval self' ts ! j + interval div 20"
      using accepted_after_next [of interval self' ts n j] Cons.prems(2) t(4) after n(1) by simp
    show ?thesis
    proof (cases i)
      case 0
      then show ?thesis using first n(2) True Cons.prems(4) step by simp
    next
      case (Suc i')
      then show ?thesis using IH [of i'] True Cons.prems(4) step by simp
    qed
  qed
qed simp

section \<open>Nominal streams\<close>

lemma accepted_nominal:
  "0 < interval \<Longrightarrow> lim_next self = Some n \<Longrightarrow> stream_times interval (lim_last self) ts \<Longrightarrow>
   (\<And>i. i < length ts \<Longrightarrow> n + i * interval \<le> ts ! i + interval div 20 \<and> ts ! i \<le> n + Suc i * interval) \<Longrightarrow>
   accepted interval self ts = ts"
proof (induction ts arbitrary: self n)
  case (Cons t ts)
  have t: "0 < t" "lim_last self \<le> t" "t + 3 * interval < 2 ^ 64" "stream_times interval t ts"
    using Cons.prems(3) by (simp_all add: stream_times_Cons)
  have slot: "n \<le> t + interval div 20" "t \<le> n + interval"
    using Cons.prems(4) [of 0] by simp_all
  then have "u64_saturating_add t (interval div 20) = t + interval div 20"
      "u64_saturating_add n interval = n + interval"
    using t(3) by (simp_all add: u64_saturating_add_def)
  then have step: "limiter_accept t interval self = (\<lparr>lim_next = Some (n + interval), lim_last = t\<rparr>, True)"
    using slot t(1, 2) Cons.prems(1, 2) by (simp add: limiter_accept_def Let_def)
  have "accepted interval \<lparr>lim_next = Some (n + interval), lim_last = t\<rparr> ts = ts"
  proof (rule Cons.IH [OF Cons.prems(1)])
    show "n + interval + i * interval \<le> ts ! i + interval div 20 \<and> ts ! i \<le> n + interval + Suc i * interval"
      if "i < length ts" for i
      using Cons.prems(4) [of "Suc i"] that by (simp add: algebra_simps)
  qed (use t(4) in simp_all)
  then show ?case by (simp add: step)
qed simp

text \<open>C39: The limiter bounds the rate without drift and does not thin a stream of that rate.  Of any
  stream with growing timestamps, \<open>k + 2\<close> consecutive passing frames span at least \<open>k\<close> intervals
  less one tolerance of a twentieth, however many frames arrive; and a stream whose frames each fall
  into their slot, at most the tolerance early and at most an interval late, passes as a whole.\<close>

theorem limiter_rate:
  assumes "0 < interval" "stream_times interval 0 ts"
  shows "(i + Suc k < length (accepted interval limiter_default ts) \<longrightarrow>
        accepted interval limiter_default ts ! i + k * interval
          \<le> accepted interval limiter_default ts ! (i + Suc k) + interval div 20)
     \<and> (ts \<noteq> [] \<and> (\<forall>i < length ts. hd ts + i * interval \<le> ts ! i + interval div 20
          \<and> ts ! i \<le> hd ts + Suc i * interval)
        \<longrightarrow> accepted interval limiter_default ts = ts)"
proof (intro conjI impI)
  assume "i + Suc k < length (accepted interval limiter_default ts)"
  then show "accepted interval limiter_default ts ! i + k * interval
      \<le> accepted interval limiter_default ts ! (i + Suc k) + interval div 20"
    using accepted_spacing [of interval limiter_default ts i k] assms by (simp add: limiter_default_def)
next
  assume nominal: "ts \<noteq> [] \<and> (\<forall>i < length ts. hd ts + i * interval \<le> ts ! i + interval div 20
          \<and> ts ! i \<le> hd ts + Suc i * interval)"
  then obtain t us where ts: "ts = t # us" by (cases ts) auto
  have t: "0 < t" "t + 3 * interval < 2 ^ 64" "stream_times interval t us"
    using assms(2) by (simp_all add: ts stream_times_Cons)
  have "limiter_accept t interval limiter_default = (\<lparr>lim_next = Some (t + interval), lim_last = t\<rparr>, True)"
    using t assms(1) by (simp add: limiter_accept_def limiter_default_def u64_saturating_add_def)
  moreover have "accepted interval \<lparr>lim_next = Some (t + interval), lim_last = t\<rparr> us = us"
  proof (rule accepted_nominal [OF assms(1)])
    show "t + interval + i * interval \<le> us ! i + interval div 20 \<and> us ! i \<le> t + interval + Suc i * interval"
      if "i < length us" for i
    proof -
      from nominal that have "hd ts + Suc i * interval \<le> ts ! Suc i + interval div 20
          \<and> ts ! Suc i \<le> hd ts + Suc (Suc i) * interval"
        using ts by (metis Suc_less_eq length_Cons)
      then show ?thesis by (simp add: ts algebra_simps)
    qed
  qed (use t(3) in simp_all)
  ultimately show "accepted interval limiter_default ts = ts" by (simp add: ts)
qed

lemma limiter_rate_witness:
  "accepted 100 limiter_default [1000, 1096, 1204] = [1000, 1096, 1204]
   \<and> (accepted 100 limiter_default [1000, 1050, 1100]) ! 0
       \<le> accepted 100 limiter_default [1000, 1050, 1100] ! 1 + 5"
proof
  have "stream_times 100 0 [1000, 1096, 1204]" "stream_times 100 0 [1000, 1050, 1100]"
    by (simp_all add: stream_times_def)
  note streams = this
  have pos: "0 < (100 :: nat)" by simp
  have slots: "\<forall>i < length [1000, 1096, 1204 :: nat]. hd [1000, 1096, 1204] + i * 100 \<le> [1000, 1096, 1204] ! i + 100 div 20
      \<and> [1000, 1096, 1204] ! i \<le> hd [1000, 1096, 1204] + Suc i * 100"
    by (simp add: All_less_Suc numeral_2_eq_2)
  show "accepted 100 limiter_default [1000, 1096, 1204] = [1000, 1096, 1204]"
    using limiter_rate [OF pos streams(1)] slots by blast
  have "accepted 100 limiter_default [1000, 1050, 1100] = [1000, 1100]"
    by (simp add: limiter_accept_def limiter_default_def u64_saturating_add_def)
  then show "(accepted 100 limiter_default [1000, 1050, 1100]) ! 0
       \<le> accepted 100 limiter_default [1000, 1050, 1100] ! 1 + 5"
    using limiter_rate [OF pos streams(2), of 0 0] by simp
qed

end
