(* ===== verification/Device_Watch.thy ===== *)
theory Device_Watch
  imports Selection
begin

text \<open>
  Watching the inventory (\<open>src/device_watch.rs\<close>): a task scans the devices of a system and publishes a
  new snapshot when the inventory or the error has changed.  The time between scans and the
  cancellation are the environment's; a scan that panics ends the task and leaves the snapshot.
\<close>

section \<open>Equality of errors\<close>

text \<open>\<open>PartialEq\<close> of \<open>CameraError\<close> compares everything but the source.\<close>

fun without_source :: "camera_error \<Rightarrow> camera_error"
  and details_without_source :: "camera_error_details \<Rightarrow> camera_error_details"
  and attempt_without_source :: "backend_attempt \<Rightarrow> backend_attempt" where
  "without_source (CameraError kind hint message src details) =
     CameraError kind hint message None (details_without_source details)"
| "details_without_source (CameraErrorDetails backend device stage oper code attempts causes) =
     CameraErrorDetails backend device stage oper code (map attempt_without_source attempts)
       (map without_source causes)"
| "attempt_without_source (BackendAttempt backend e) = BackendAttempt backend (without_source e)"

definition errors_equal :: "camera_error option \<Rightarrow> camera_error option \<Rightarrow> bool" where
  "errors_equal a b \<longleftrightarrow> map_option without_source a = map_option without_source b"

section \<open>Snapshots\<close>

record device_snapshot =
  ds_generation :: nat
  ds_devices :: "device_info list"
  ds_error :: "camera_error option"

definition identity :: "device_info \<Rightarrow> device_id \<times> string \<times> u32" where
  "identity d = (di_id d, di_name d, di_index d)"

definition same_snapshot :: "device_snapshot \<Rightarrow> device_snapshot \<Rightarrow> bool" where
  "same_snapshot nxt previous \<longleftrightarrow>
     errors_equal (ds_error nxt) (ds_error previous)
     \<and> length (ds_devices nxt) = length (ds_devices previous)
     \<and> list_all (\<lambda>d. list_ex (\<lambda>p. identity p = identity d) (ds_devices previous)) (ds_devices nxt)"

definition watch_step :: "(device_info list) camera_result \<Rightarrow> device_snapshot \<Rightarrow> device_snapshot" where
  "watch_step scanned previous =
     (case scanned of
        Panic \<Rightarrow> previous
      | _ \<Rightarrow>
          let nxt = (case scanned of
                Ok devices \<Rightarrow>
                  \<lparr>ds_generation = ds_generation previous + 1, ds_devices = devices, ds_error = None\<rparr>
              | Err e \<Rightarrow>
                  \<lparr>ds_generation = ds_generation previous + 1, ds_devices = ds_devices previous, ds_error = Some e\<rparr>
              | Panic \<Rightarrow> previous)
          in if same_snapshot nxt previous then previous else nxt)"

definition watch_devices ::
  "duration \<Rightarrow> (device_info list) camera_result \<Rightarrow> device_snapshot camera_result" where
  "watch_devices interval first =
     (if interval = 0 then Err (invalid_config ''Device scan interval must be positive'')
      else and_then first (\<lambda>devices. Ok \<lparr>ds_generation = 0, ds_devices = devices, ds_error = None\<rparr>))"

fun watcher_run :: "(device_info list) camera_result list \<Rightarrow> device_snapshot \<Rightarrow> device_snapshot" where
  "watcher_run [] s = s"
| "watcher_run (scanned # scans) s =
     (if scanned = Panic then s else watcher_run scans (watch_step scanned s))"

section \<open>Lemmas\<close>

lemma same_identities:
  assumes "distinct (map identity devices)" "length devices = length previous"
    "list_all (\<lambda>d. list_ex (\<lambda>p. identity p = identity d) previous) devices"
  shows "identity ` set devices = identity ` set previous"
proof -
  have "identity ` set devices \<subseteq> identity ` set previous"
  proof
    fix i
    assume "i \<in> identity ` set devices"
    then obtain d where "d \<in> set devices" "i = identity d" by blast
    then obtain p where "p \<in> set previous" "identity p = i"
      using assms(3) by (auto simp: list_all_iff list_ex_iff)
    then show "i \<in> identity ` set previous" by blast
  qed
  moreover have "card (identity ` set previous) \<le> card (identity ` set devices)"
    using assms(1, 2) card_length [of "map identity previous"] distinct_card [OF assms(1)] by simp
  ultimately show ?thesis
    by (intro card_seteq) simp_all
qed

lemma watch_step_Ok:
  assumes "distinct (map identity devices)"
  shows "identity ` set (ds_devices (watch_step (Ok devices) s)) = identity ` set devices
    \<and> ds_error (watch_step (Ok devices) s) = None"
proof (cases "same_snapshot \<lparr>ds_generation = ds_generation s + 1, ds_devices = devices, ds_error = None\<rparr> s")
  case True
  then have "identity ` set devices = identity ` set (ds_devices s)"
    by (intro same_identities [OF assms]) (simp_all add: same_snapshot_def)
  with True show ?thesis
    by (auto simp: watch_step_def Let_def same_snapshot_def errors_equal_def)
qed (simp add: watch_step_def Let_def)

lemma watch_step_Err:
  "ds_devices (watch_step (Err e) s) = ds_devices s \<and> errors_equal (ds_error (watch_step (Err e) s)) (Some e)"
proof (cases "same_snapshot \<lparr>ds_generation = ds_generation s + 1, ds_devices = ds_devices s, ds_error = Some e\<rparr> s")
  case True
  then have "errors_equal (Some e) (ds_error s)" by (simp add: same_snapshot_def)
  with True show ?thesis by (simp add: watch_step_def Let_def errors_equal_def)
qed (simp add: watch_step_def Let_def errors_equal_def)

lemma watcher_run_append:
  "Panic \<notin> set scans \<Longrightarrow> watcher_run (scans @ later) s = watcher_run later (watcher_run scans s)"
  by (induction scans arbitrary: s) auto

lemma watcher_run_errors:
  "ds_devices (watcher_run (map Err es) s) = ds_devices s
   \<and> (es = [] \<or> errors_equal (ds_error (watcher_run (map Err es) s)) (Some (last es)))"
  by (induction es rule: rev_induct) (simp_all add: watcher_run_append watch_step_Err image_iff)

lemma watch_step_generation:
  "watch_step scanned s = s \<or> ds_generation (watch_step scanned s) = ds_generation s + 1"
  by (cases scanned) (auto simp: watch_step_def Let_def)

text \<open>C40: A watcher shows the newest inventory that could be read.  Whatever was scanned before, after a
  scan that found distinct devices and any number of failing scans the snapshot holds exactly these
  devices by identifier, name and index, with the last error, or none when the last scan succeeded;
  and the generation advances by one exactly when a snapshot is replaced.\<close>

theorem watcher_current:
  assumes "distinct (map identity devices)" "Panic \<notin> set before"
  shows "let s = watcher_run (before @ [Ok devices] @ map Err es) start
    in identity ` set (ds_devices s) = identity ` set devices
      \<and> errors_equal (ds_error s) (if es = [] then None else Some (last es))
      \<and> (watch_step scanned s = s \<or> ds_generation (watch_step scanned s) = ds_generation s + 1)"
proof -
  define t where "t = watch_step (Ok devices) (watcher_run before start)"
  have run: "watcher_run (before @ [Ok devices] @ map Err es) start = watcher_run (map Err es) t"
    using watcher_run_append [OF assms(2)] by (simp add: t_def)
  have "identity ` set (ds_devices t) = identity ` set devices" "ds_error t = None"
    using watch_step_Ok [OF assms(1)] by (simp_all add: t_def)
  with watcher_run_errors [of es t] show ?thesis
    unfolding run Let_def by (cases "es = []") (use watch_step_generation in \<open>simp_all add: errors_equal_def\<close>)
qed

lemma watcher_current_witness:
  "let s = watcher_run ([Err stream_stopped] @ [Ok [device_info_synthetic]] @ map Err [stream_stopped])
        \<lparr>ds_generation = 0, ds_devices = [], ds_error = None\<rparr>
   in identity ` set (ds_devices s) = {identity device_info_synthetic}
     \<and> errors_equal (ds_error s) (Some stream_stopped)"
  using watcher_current [of "[device_info_synthetic]" "[Err stream_stopped]" "[stream_stopped]"
      "\<lparr>ds_generation = 0, ds_devices = [], ds_error = None\<rparr>"]
  by (simp add: Let_def)

end
