(* ===== verification/Mf.thy ===== *)
theory Mf
  imports Layout Control_Names
begin

text \<open>
  The parts of the Media Foundation backend that decide (\<open>src/backends/mf/\<close>): the colour metadata of
  a stream (\<open>color.rs\<close>), the subtype identifiers of formats (\<open>convert.rs\<close>) and the controls
  (\<open>control.rs\<close>).  The two COM interfaces of the controls are parameters, as are the flag values.
\<close>

section \<open>Colour\<close>

definition mf_resolve_color ::
  "u32 option \<Rightarrow> u32 option \<Rightarrow> u32 \<Rightarrow> u32 \<Rightarrow> color_info camera_result" where
  "mf_resolve_color matrix rng width height =
     (let value = (case matrix of None \<Rightarrow> 0 | Some v \<Rightarrow> v); bounds = (case rng of None \<Rightarrow> 0 | Some v \<Rightarrow> v)
      in and_then
           (if value = 0 \<and> width \<le> 1024 \<and> height \<le> 576 then Ok MatrixBt601
            else if value = 0 \<or> value = 1 then Ok MatrixBt709
            else if value = 2 then Ok MatrixBt601
            else if value = 3 then Ok MatrixSmpte240M
            else if value = 4 \<or> value = 5 then Ok MatrixBt2020
            else Err (unsupported_format (''MF YUV matrix '' @ show_nat (unat value)))) (\<lambda>m.
         and_then
           (if bounds = 0 \<or> bounds = 2 then Ok RangeLimited
            else if bounds = 1 then Ok RangeFull
            else Err (unsupported_format (''MF nominal range '' @ show_nat (unat bounds)))) (\<lambda>r.
           Ok (color_info_default\<lparr>ci_matrix := m, ci_range := r\<rparr>))))"

section \<open>Format identifiers\<close>

text \<open>A GUID; the identifiers of video subtypes differ in the first field only.\<close>

record guid =
  guid_data1 :: u32
  guid_data2 :: u16
  guid_data3 :: u16
  guid_data4 :: "u8 list"

definition subtype_guid :: "u32 \<Rightarrow> guid" where
  "subtype_guid code =
     \<lparr>guid_data1 = code, guid_data2 = 0, guid_data3 = 0x10,
      guid_data4 = [0x80, 0, 0, 0xAA, 0, 0x38, 0x9B, 0x71]\<rparr>"

definition MF_VIDEO_FORMAT_YUY2 :: guid where "MF_VIDEO_FORMAT_YUY2 = subtype_guid 0x32595559"

definition MF_VIDEO_FORMAT_MJPEG :: guid where "MF_VIDEO_FORMAT_MJPEG = subtype_guid 0x47504A4D"

definition MF_VIDEO_FORMAT_GRAY :: guid where "MF_VIDEO_FORMAT_GRAY = subtype_guid 0x30303859"

definition MF_VIDEO_FORMAT_NV12 :: guid where "MF_VIDEO_FORMAT_NV12 = subtype_guid 0x3231564E"

definition MF_VIDEO_FORMAT_RGB24 :: guid where "MF_VIDEO_FORMAT_RGB24 = subtype_guid 0x14"

definition MF_VIDEO_FORMAT_UYVY :: guid where "MF_VIDEO_FORMAT_UYVY = subtype_guid 0x59565559"

lemmas mf_formats = MF_VIDEO_FORMAT_YUY2_def MF_VIDEO_FORMAT_MJPEG_def MF_VIDEO_FORMAT_GRAY_def
  MF_VIDEO_FORMAT_NV12_def MF_VIDEO_FORMAT_RGB24_def MF_VIDEO_FORMAT_UYVY_def subtype_guid_def

definition guid_to_format :: "guid \<Rightarrow> video_format option" where
  "guid_to_format g =
     (if g = MF_VIDEO_FORMAT_YUY2 then Some YUYV
      else if g = MF_VIDEO_FORMAT_MJPEG then Some MJPEG
      else if g = MF_VIDEO_FORMAT_NV12 then Some NV12
      else if g = MF_VIDEO_FORMAT_RGB24 then Some RGB
      else if g = MF_VIDEO_FORMAT_GRAY then Some Gray
      else if g = MF_VIDEO_FORMAT_UYVY then Some UYVY
      else None)"

fun format_to_guid :: "video_format \<Rightarrow> guid option" where
  "format_to_guid YUYV = Some MF_VIDEO_FORMAT_YUY2"
| "format_to_guid MJPEG = Some MF_VIDEO_FORMAT_MJPEG"
| "format_to_guid NV12 = Some MF_VIDEO_FORMAT_NV12"
| "format_to_guid RGB = Some MF_VIDEO_FORMAT_RGB24"
| "format_to_guid Gray = Some MF_VIDEO_FORMAT_GRAY"
| "format_to_guid UYVY = Some MF_VIDEO_FORMAT_UYVY"
| "format_to_guid VideoH264 = None"

section \<open>Controls\<close>

datatype mf_property =
  AmpBrightness | AmpContrast | AmpHue | AmpSaturation | AmpSharpness | AmpGamma | AmpWhiteBalance
  | AmpBacklightCompensation | AmpGain
  | CamPan | CamTilt | CamZoom | CamExposure | CamIris | CamFocus

datatype mf_control_id =
  ProcAmpBoolean mf_property
  | ProcAmpRange mf_property
  | CameraControlValue mf_property
  | CameraControlRange mf_property

text \<open>The interface a property is reached through, \<open>IAMVideoProcAmp\<close> or \<open>IAMCameraControl\<close>.\<close>

datatype mf_interface = VideoProcAmp | CameraControl

fun control_interface :: "mf_control_id \<Rightarrow> mf_interface \<times> mf_property" where
  "control_interface (ProcAmpBoolean p) = (VideoProcAmp, p)"
| "control_interface (ProcAmpRange p) = (VideoProcAmp, p)"
| "control_interface (CameraControlValue p) = (CameraControl, p)"
| "control_interface (CameraControlRange p) = (CameraControl, p)"

record mf_error =
  mfe_code :: int
  mfe_text :: string

record mf_limits =
  mfl_min :: i32
  mfl_max :: i32
  mfl_step :: i32
  mfl_default :: i32
  mfl_flags :: i32

record 'm mf_native =
  mf_service :: "mf_interface \<Rightarrow> 'm \<Rightarrow> (unit, mf_error) result"
  mf_get :: "mf_interface \<times> mf_property \<Rightarrow> 'm \<Rightarrow> (i32 \<times> i32, mf_error) result"
  mf_set :: "mf_interface \<times> mf_property \<Rightarrow> i32 \<Rightarrow> i32 \<Rightarrow> 'm \<Rightarrow> 'm \<times> (unit, mf_error) result"
  mf_limits_of :: "mf_interface \<times> mf_property \<Rightarrow> 'm \<Rightarrow> (mf_limits, mf_error) result"
  mf_flag_auto :: i32
  mf_flag_manual :: i32

fun control_type_to_mf_id :: "camera_control_type \<Rightarrow> mf_control_id option" where
  "control_type_to_mf_id Brightness = Some (ProcAmpRange AmpBrightness)"
| "control_type_to_mf_id Contrast = Some (ProcAmpRange AmpContrast)"
| "control_type_to_mf_id Hue = Some (ProcAmpRange AmpHue)"
| "control_type_to_mf_id Saturation = Some (ProcAmpRange AmpSaturation)"
| "control_type_to_mf_id Sharpness = Some (ProcAmpRange AmpSharpness)"
| "control_type_to_mf_id Gamma = Some (ProcAmpRange AmpGamma)"
| "control_type_to_mf_id WhiteBalance = Some (ProcAmpRange AmpWhiteBalance)"
| "control_type_to_mf_id BacklightCompensation = Some (ProcAmpBoolean AmpBacklightCompensation)"
| "control_type_to_mf_id Gain = Some (ProcAmpRange AmpGain)"
| "control_type_to_mf_id Pan = Some (CameraControlRange CamPan)"
| "control_type_to_mf_id Tilt = Some (CameraControlRange CamTilt)"
| "control_type_to_mf_id Zoom = Some (CameraControlRange CamZoom)"
| "control_type_to_mf_id Exposure = Some (CameraControlValue CamExposure)"
| "control_type_to_mf_id Iris = Some (CameraControlValue CamIris)"
| "control_type_to_mf_id Focus = Some (CameraControlValue CamFocus)"
| "control_type_to_mf_id AutoExposure = None"
| "control_type_to_mf_id AutoFocus = None"
| "control_type_to_mf_id AutoWhiteBalance = None"

fun automatic_base :: "camera_control_type \<Rightarrow> camera_control_type option" where
  "automatic_base AutoExposure = Some Exposure"
| "automatic_base AutoFocus = Some Focus"
| "automatic_base AutoWhiteBalance = Some WhiteBalance"
| "automatic_base _ = None"

definition mf_native_error :: "camera_error_kind \<Rightarrow> operation_stage \<Rightarrow> string \<Rightarrow> mf_error \<Rightarrow> camera_error" where
  "mf_native_error kind stage operation e =
     with_source (error_native kind MEDIA_FOUNDATION stage operation (mfe_code e) (mfe_text e))
       (SourceOther (mfe_text e))"

fun interface_name :: "mf_interface \<Rightarrow> string" where
  "interface_name VideoProcAmp = ''VideoProcAmp''"
| "interface_name CameraControl = ''CameraControl''"

text \<open>\<open>map_err(|e| native_error(ControlFailure, BackendCommand, operation, e))\<close>.\<close>

fun mf_result :: "string \<Rightarrow> ('a, mf_error) result \<Rightarrow> 'a camera_result" where
  "mf_result operation (Ok x) = Ok x"
| "mf_result operation (Err e) = Err (mf_native_error ControlFailure BackendCommand operation e)"
| "mf_result operation Panic = Panic"

definition get_interface :: "'m mf_native \<Rightarrow> mf_interface \<Rightarrow> 'm \<Rightarrow> unit camera_result" where
  "get_interface N interface m = mf_result (''get IAM'' @ interface_name interface) (mf_service N interface m)"

text \<open>A control that is not one of the automatic ones.\<close>

definition mf_control_of :: "camera_control_type \<Rightarrow> (mf_interface \<times> mf_property) camera_result" where
  "mf_control_of control =
     and_then (ok_or (control_type_to_mf_id control) (control_not_supported (control_type_debug control)))
       (\<lambda>i. Ok (control_interface i))"

definition mf_get_base ::
  "'m mf_native \<Rightarrow> camera_control_type \<Rightarrow> 'm \<Rightarrow> camera_control_value camera_result" where
  "mf_get_base N control m =
     and_then (mf_control_of control) (\<lambda>i.
     and_then (get_interface N (fst i) m) (\<lambda>_.
     and_then (mf_result (''get '' @ interface_name (fst i) @ '' value'') (mf_get N i m)) (\<lambda>(value, flags).
       Ok (Integer value (and flags (mf_flag_auto N) \<noteq> 0)))))"

definition mf_get_control ::
  "'m mf_native \<Rightarrow> camera_control_type \<Rightarrow> 'm \<Rightarrow> camera_control_value camera_result" where
  "mf_get_control N control m =
     (case automatic_base control of
        Some base \<Rightarrow> and_then (mf_get_base N base m) (\<lambda>value. Ok (Boolean (value_is_auto value)))
      | None \<Rightarrow> mf_get_base N control m)"

definition mf_range_base ::
  "'m mf_native \<Rightarrow> camera_control_type \<Rightarrow> 'm \<Rightarrow> control_range camera_result" where
  "mf_range_base N control m =
     and_then (mf_control_of control) (\<lambda>i.
     and_then (get_interface N (fst i) m) (\<lambda>_.
     and_then (mf_result (''get '' @ interface_name (fst i) @ '' range'') (mf_limits_of N i m)) (\<lambda>limits.
       Ok \<lparr>rng_min = mfl_min limits, rng_max = mfl_max limits, rng_step = mfl_step limits,
           rng_default = mfl_default limits,
           rng_supports_auto = (and (mfl_flags limits) (mf_flag_auto N) \<noteq> 0)\<rparr>)))"

definition mf_get_control_range ::
  "'m mf_native \<Rightarrow> camera_control_type \<Rightarrow> 'm \<Rightarrow> control_range camera_result" where
  "mf_get_control_range N control m =
     (case automatic_base control of
        Some base \<Rightarrow>
          and_then (mf_range_base N base m) (\<lambda>limits.
            if \<not> rng_supports_auto limits then Err (control_not_supported ''Automatic mode unavailable'')
            else Err (control_not_readable
              ''Automatic mode default/range is not reported by Media Foundation''))
      | None \<Rightarrow> mf_range_base N control m)"

definition mf_supports_control :: "'m mf_native \<Rightarrow> camera_control_type \<Rightarrow> 'm \<Rightarrow> bool" where
  "mf_supports_control N control m \<longleftrightarrow>
     (case automatic_base control of
        Some base \<Rightarrow> (case mf_get_control_range N base m of Ok limits \<Rightarrow> rng_supports_auto limits | _ \<Rightarrow> False)
      | None \<Rightarrow> is_ok (mf_get_control_range N control m))"

definition mf_supported_controls :: "'m mf_native \<Rightarrow> 'm \<Rightarrow> camera_control_type list" where
  "mf_supported_controls N m =
     filter (\<lambda>c. mf_supports_control N c m)
       [Brightness, Contrast, Hue, Saturation, Sharpness, Gamma, WhiteBalance, BacklightCompensation, Gain,
        Pan, Tilt, Zoom, Exposure, Iris, Focus, AutoExposure, AutoFocus, AutoWhiteBalance]"

definition mf_set_base ::
  "'m mf_native \<Rightarrow> camera_control_type \<Rightarrow> camera_control_value \<Rightarrow> 'm \<Rightarrow> 'm \<times> unit camera_result" where
  "mf_set_base N control value m =
     (case mf_control_of control of
        Err e \<Rightarrow> (m, Err e)
      | Panic \<Rightarrow> (m, Panic)
      | Ok i \<Rightarrow>
          let (int_value, is_auto) = (case value of
                Integer v a \<Rightarrow> (v, a)
              | Boolean b \<Rightarrow> (if b then 1 else 0, False)
              | Float f \<Rightarrow> (word_of_int (f32_to_i32 f), False));
              flags = (if is_auto then mf_flag_auto N else mf_flag_manual N)
          in case get_interface N (fst i) m of
               Ok _ \<Rightarrow> (case mf_set N i int_value flags m of
                 (m, r) \<Rightarrow> (m, mf_result (''set '' @ interface_name (fst i) @ '' value'') r))
             | r \<Rightarrow> (m, r))"

definition mf_set_control ::
  "'m mf_native \<Rightarrow> camera_control_type \<Rightarrow> camera_control_value \<Rightarrow> 'm \<Rightarrow> 'm \<times> unit camera_result" where
  "mf_set_control N control value m =
     (case automatic_base control of
        None \<Rightarrow> mf_set_base N control value m
      | Some base \<Rightarrow>
          (case and_then (ok_or (as_bool value) (invalid_config ''Automatic control expects boolean''))
                  (\<lambda>automatic.
                and_then (mf_get_control_range N base m) (\<lambda>limits.
                if automatic \<and> \<not> rng_supports_auto limits
                then Err (control_not_supported ''Automatic mode unavailable'')
                else and_then (mf_get_control N base m) (\<lambda>current.
                  and_then (ok_or (as_i32 current) (control_not_readable ''Native control value''))
                    (\<lambda>current. Ok (Integer current automatic))))) of
             Ok v \<Rightarrow> mf_set_base N base v m
           | Err e \<Rightarrow> (m, Err e)
           | Panic \<Rightarrow> (m, Panic)))"

section \<open>What was set is read back\<close>

text \<open>
  What the crate relies on of the interfaces: a successful \<open>Set\<close> stores the flags, and the value when
  they say manual, and touches no other property; and the two flags are told apart by the automatic
  bit.
\<close>

definition mf_properties_independent :: "'m mf_native \<Rightarrow> bool" where
  "mf_properties_independent N \<longleftrightarrow>
     and (mf_flag_auto N) (mf_flag_auto N) \<noteq> 0 \<and> and (mf_flag_manual N) (mf_flag_auto N) = 0
     \<and> (\<forall>i value flags m m'. mf_set N i value flags m = (m', Ok ()) \<longrightarrow>
          mf_service N (fst i) m' = Ok ()
          \<and> (\<exists>v. mf_get N i m' = Ok (v, flags) \<and> (flags = mf_flag_manual N \<longrightarrow> v = value))
          \<and> (\<forall>j. j \<noteq> i \<longrightarrow> mf_get N j m' = mf_get N j m)
          \<and> (\<forall>f. f \<noteq> fst i \<longrightarrow> mf_service N f m' = mf_service N f m))"

lemma mf_result_Ok [simp]: "mf_result operation r = Ok x \<longleftrightarrow> r = Ok x"
  by (cases r) auto

lemma mf_control_of_inject:
  "mf_control_of a = Ok i \<Longrightarrow> mf_control_of b = Ok i \<Longrightarrow> a = b"
  by (cases a; cases b) (auto simp: mf_control_of_def ok_or_def)

lemma mf_set_base_Ok:
  assumes "mf_set_base N control value m = (m', Ok ())"
  obtains i int_value is_auto where "mf_control_of control = Ok i"
    "(int_value, is_auto) = (case value of
        Integer v a \<Rightarrow> (v, a) | Boolean b \<Rightarrow> (if b then 1 else 0, False)
      | Float f \<Rightarrow> (word_of_int (f32_to_i32 f), False))"
    "mf_service N (fst i) m = Ok ()"
    "mf_set N i int_value (if is_auto then mf_flag_auto N else mf_flag_manual N) m = (m', Ok ())"
proof (cases "mf_control_of control")
  case (Ok i)
  define p where "p = (case value of Integer v a \<Rightarrow> (v, a) | Boolean b \<Rightarrow> (if b then 1 else 0, False)
      | Float f \<Rightarrow> (word_of_int (f32_to_i32 f), False))"
  obtain v a where p: "p = (v, a)" by fastforce
  have "get_interface N (fst i) m = Ok ()"
    using assms Ok by (auto simp: mf_set_base_def Let_def p p_def [symmetric] split: result.splits)
  moreover have "mf_set N i v (if a then mf_flag_auto N else mf_flag_manual N) m = (m', Ok ())"
    using assms Ok calculation
    by (auto simp: mf_set_base_def Let_def p p_def [symmetric] split: prod.splits)
  ultimately show thesis
    using that [OF Ok, of v a] p by (simp add: p_def get_interface_def)
qed (use assms in \<open>auto simp: mf_set_base_def\<close>)

lemma mf_set_base_read:
  assumes "mf_properties_independent N" "mf_set_base N control value m = (m', Ok ())"
  shows "\<exists>v a. mf_get_base N control m' = Ok (Integer v a)
      \<and> (a \<longleftrightarrow> value_is_auto value) \<and> (\<not> a \<longrightarrow> Some v = as_i32 value)"
    and "other \<noteq> control \<Longrightarrow> mf_service N VideoProcAmp m = Ok () \<Longrightarrow> mf_service N CameraControl m = Ok () \<Longrightarrow>
      mf_get_base N other m' = mf_get_base N other m"
proof -
  obtain i v a where s: "mf_control_of control = Ok i"
      "(v, a) = (case value of Integer v a \<Rightarrow> (v, a) | Boolean b \<Rightarrow> (if b then 1 else 0, False)
        | Float f \<Rightarrow> (word_of_int (f32_to_i32 f), False))"
      "mf_service N (fst i) m = Ok ()"
      "mf_set N i v (if a then mf_flag_auto N else mf_flag_manual N) m = (m', Ok ())"
    using mf_set_base_Ok [OF assms(2)] .
  then obtain w where w: "mf_service N (fst i) m' = Ok ()"
      "mf_get N i m' = Ok (w, if a then mf_flag_auto N else mf_flag_manual N)"
      "(if a then mf_flag_auto N else mf_flag_manual N) = mf_flag_manual N \<longrightarrow> w = v"
      "\<forall>j. j \<noteq> i \<longrightarrow> mf_get N j m' = mf_get N j m"
      "\<forall>f. f \<noteq> fst i \<longrightarrow> mf_service N f m' = mf_service N f m"
    using assms(1) unfolding mf_properties_independent_def by blast
  have flags: "and (mf_flag_auto N) (mf_flag_auto N) \<noteq> 0" "and (mf_flag_manual N) (mf_flag_auto N) = 0"
    using assms(1) by (simp_all add: mf_properties_independent_def)
  have "mf_get_base N control m' = Ok (Integer w a)"
    using w(1, 2) s(1) flags by (simp add: mf_get_base_def get_interface_def)
  moreover have "a \<longleftrightarrow> value_is_auto value" "\<not> a \<longrightarrow> Some w = as_i32 value"
    using s(2) w(3) by (cases "value"; auto)+
  ultimately show "\<exists>v a. mf_get_base N control m' = Ok (Integer v a)
      \<and> (a \<longleftrightarrow> value_is_auto value) \<and> (\<not> a \<longrightarrow> Some v = as_i32 value)" by blast
  assume other: "other \<noteq> control" and services: "mf_service N VideoProcAmp m = Ok ()" "mf_service N CameraControl m = Ok ()"
  show "mf_get_base N other m' = mf_get_base N other m"
  proof (cases "mf_control_of other")
    case (Ok j)
    then have "j \<noteq> i" using mf_control_of_inject s(1) other by blast
    moreover have "mf_service N f m = Ok ()" "mf_service N f m' = Ok ()" for f
      using services w(1, 5) by (cases f; cases "fst i"; metis)+
    moreover have "mf_get N j m' = mf_get N j m" using w(4) \<open>j \<noteq> i\<close> by blast
    ultimately show ?thesis using Ok by (simp add: mf_get_base_def get_interface_def)
  qed (simp_all add: mf_get_base_def)
qed

text \<open>A control set through Media Foundation is read back.  After a successful set the control reads
  as the value and the mode that were set, with the automatic controls read and written as booleans
  of the control they govern; turning a control's automatic mode off keeps the value it had; and, while
  both interfaces answer, no other control reads differently.\<close>

theorem mf_set_then_get:
  assumes "mf_properties_independent N" "mf_set_control N control value m = (m', Ok ())"
    "mf_service N VideoProcAmp m = Ok ()" "mf_service N CameraControl m = Ok ()"
  shows "(case automatic_base control of
       Some base \<Rightarrow> \<exists>on v a. as_bool value = Some on \<and> mf_get_control N control m' = Ok (Boolean on)
         \<and> mf_get_control N base m = Ok (Integer v a)
         \<and> (on \<or> mf_get_control N base m' = Ok (Integer v False))
     | None \<Rightarrow> \<exists>v a. mf_get_control N control m' = Ok (Integer v a) \<and> (a \<longleftrightarrow> value_is_auto value)
         \<and> (a \<or> Some v = as_i32 value))
   \<and> (other \<notin> {control} \<union> set_option (automatic_base control) \<and> automatic_base other = None
       \<longrightarrow> mf_get_control N other m' = mf_get_control N other m)"
proof (cases "automatic_base control")
  case None
  then have set: "mf_set_base N control value m = (m', Ok ())"
    using assms(2) by (simp add: mf_set_control_def)
  obtain v a where "mf_get_base N control m' = Ok (Integer v a)" "a \<longleftrightarrow> value_is_auto value"
      "\<not> a \<longrightarrow> Some v = as_i32 value"
    using mf_set_base_read(1) [OF assms(1) set] by blast
  moreover have "mf_get_base N other m' = mf_get_base N other m" if "other \<noteq> control"
    by (rule mf_set_base_read(2) [OF assms(1) set that assms(3, 4)])
  ultimately show ?thesis using None by (auto simp: mf_get_control_def)
next
  case (Some base)
  then have base: "automatic_base base = None" by (cases control) auto
  obtain on w a where s: "as_bool value = Some on" "mf_get_base N base m = Ok (Integer w a)"
      "mf_set_base N base (Integer w on) m = (m', Ok ())"
  proof -
    from assms(2) obtain v where v: "and_then (ok_or (as_bool value) (invalid_config ''Automatic control expects boolean''))
                  (\<lambda>automatic.
                and_then (mf_get_control_range N base m) (\<lambda>limits.
                if automatic \<and> \<not> rng_supports_auto limits
                then Err (control_not_supported ''Automatic mode unavailable'')
                else and_then (mf_get_control N base m) (\<lambda>current.
                  and_then (ok_or (as_i32 current) (control_not_readable ''Native control value''))
                    (\<lambda>current. Ok (Integer current automatic))))) = Ok v"
        "mf_set_base N base v m = (m', Ok ())"
      unfolding mf_set_control_def Some option.case by (auto split: result.splits)
    then obtain on current w where "as_bool value = Some on" "mf_get_base N base m = Ok current"
        "as_i32 current = Some w" "v = Integer w on"
      by (auto simp: result_simps mf_get_control_def base split: if_splits)
    moreover from this(2) obtain u a where "current = Integer u a"
      by (auto simp: mf_get_base_def result_simps)
    ultimately show thesis using that v(2) by simp
  qed
  obtain v b where r: "mf_get_base N base m' = Ok (Integer v b)" "b \<longleftrightarrow> on" "\<not> b \<longrightarrow> v = w"
    using mf_set_base_read(1) [OF assms(1) s(3)] by auto
  have "mf_get_base N other m' = mf_get_base N other m" if "other \<noteq> base"
    by (rule mf_set_base_read(2) [OF assms(1) s(3) that assms(3, 4)])
  with r s(1, 2) show ?thesis
    using Some base by (auto simp: mf_get_control_def)
qed

text \<open>Interfaces that store a value and flags for each property.\<close>

definition example_mf :: "(mf_interface \<times> mf_property \<Rightarrow> i32 \<times> i32) mf_native" where
  "example_mf =
     \<lparr>mf_service = (\<lambda>_ _. Ok ()), mf_get = (\<lambda>i m. Ok (m i)),
      mf_set = (\<lambda>i v flags m. (m(i := (v, flags)), Ok ())),
      mf_limits_of = (\<lambda>_ _. Ok \<lparr>mfl_min = 0, mfl_max = 255, mfl_step = 1, mfl_default = 0, mfl_flags = 3\<rparr>),
      mf_flag_auto = 1, mf_flag_manual = 2\<rparr>"

lemma mf_set_then_get_witness:
  "mf_get_control example_mf AutoExposure
     ((\<lambda>_. (7, 2))((CameraControl, CamExposure) := (7, 1))) = Ok (Boolean True)"
proof -
  have independent: "mf_properties_independent example_mf"
    by (auto simp: mf_properties_independent_def example_mf_def)
  have services: "mf_service example_mf f m = Ok ()" for f m by (simp add: example_mf_def)
  have set: "mf_set_control example_mf AutoExposure (Boolean True) (\<lambda>_. (7, 2))
      = ((\<lambda>_. (7, 2))((CameraControl, CamExposure) := (7, 1)), Ok ())"
    by (simp add: mf_set_control_def mf_get_control_range_def mf_range_base_def mf_get_control_def
        mf_get_base_def mf_set_base_def mf_control_of_def get_interface_def ok_or_def example_mf_def)
  show ?thesis
    using mf_set_then_get [OF independent set services services, of Gain] by auto
qed

text \<open>The colour metadata of Media Foundation is what the attributes declare, and a missing one is
  resolved by the size alone: whatever is resolved has a supported matrix and range, so colour
  coefficients exist for it; an attribute outside the known codes is an error and is never replaced
  by a default; and the subtype identifiers are exactly those of the formats the backend knows.\<close>

theorem mf_color_resolved:
  "(case mf_resolve_color matrix rng width height of
      Ok color \<Rightarrow> ci_matrix color \<in> {MatrixBt601, MatrixBt709, MatrixSmpte240M, MatrixBt2020}
        \<and> ci_range color \<in> {RangeLimited, RangeFull}
        \<and> (matrix \<in> {None, Some 0} \<longrightarrow>
            ci_matrix color = (if unat width \<le> 1024 \<and> unat height \<le> 576 then MatrixBt601 else MatrixBt709))
        \<and> (rng \<in> {None, Some 0} \<longrightarrow> ci_range color = RangeLimited)
    | Err e \<Rightarrow> err_kind e = UnsupportedFormat \<and> (matrix \<notin> {None} \<union> Some ` {0, 1, 2, 3, 4, 5} \<or> rng \<notin> {None} \<union> Some ` {0, 1, 2})
    | Panic \<Rightarrow> False)
   \<and> (guid_to_format g = Some f \<longleftrightarrow> format_to_guid f = Some g)"
proof
  show "case mf_resolve_color matrix rng width height of
      Ok color \<Rightarrow> ci_matrix color \<in> {MatrixBt601, MatrixBt709, MatrixSmpte240M, MatrixBt2020}
        \<and> ci_range color \<in> {RangeLimited, RangeFull}
        \<and> (matrix \<in> {None, Some 0} \<longrightarrow>
            ci_matrix color = (if unat width \<le> 1024 \<and> unat height \<le> 576 then MatrixBt601 else MatrixBt709))
        \<and> (rng \<in> {None, Some 0} \<longrightarrow> ci_range color = RangeLimited)
    | Err e \<Rightarrow> err_kind e = UnsupportedFormat \<and> (matrix \<notin> {None} \<union> Some ` {0, 1, 2, 3, 4, 5} \<or> rng \<notin> {None} \<union> Some ` {0, 1, 2})
    | Panic \<Rightarrow> False"
  proof (cases "mf_resolve_color matrix rng width height")
    case (Ok color)
    then show ?thesis
      by (auto simp: mf_resolve_color_def Let_def result_simps word_le_nat_alt
          split: option.splits if_splits)
  next
    case (Err e)
    then show ?thesis
      by (cases matrix; cases rng)
        (auto simp: mf_resolve_color_def Let_def result_simps error_simps split: if_splits)
  next
    case Panic
    then show ?thesis
      by (auto simp: mf_resolve_color_def Let_def result_simps split: if_splits)
  qed
  show "guid_to_format g = Some f \<longleftrightarrow> format_to_guid f = Some g"
    by (cases f) (auto simp: guid_to_format_def mf_formats)
qed

lemma mf_color_resolved_witness:
  "\<exists>color. mf_resolve_color None None 1280 720 = Ok color \<and> ci_matrix color = MatrixBt709
     \<and> ci_range color = RangeLimited"
proof -
  obtain color where ok: "mf_resolve_color None None 1280 720 = Ok color"
    by (simp add: mf_resolve_color_def)
  with mf_color_resolved [where matrix = None and rng = None and width = 1280 and height = 720] show ?thesis by simp
qed

end
