(* ===== verification/Hub_Image.thy ===== *)
theory Hub_Image
  imports Hub_Producers
begin

text \<open>
  What the drivers share when they publish a converted image (\<open>src/frame.rs\<close>, \<open>publish_rgb_metadata\<close>):
  the instants of one publication, the closure that converts into the buffer of the hub, the report of a
  failure, and what it means that a publication shows an image.
\<close>

text \<open>Instants and answers of the environment in one publication.\<close>

record moment =
  mo_now :: instant
  mo_failed_at :: instant
  mo_timestamp_ns :: nat
  mo_elapsed :: nat

text \<open>A conversion as the closure that the hub calls; one that fails leaves a buffer nobody sees.\<close>

definition as_convert ::
  "(u8 list \<Rightarrow> 's \<times> (u8 list) camera_result) \<Rightarrow> u8 list \<Rightarrow> u8 list \<times> unit camera_result" where
  "as_convert f out =
     (case snd (f out) of Ok rgb \<Rightarrow> (rgb, Ok ()) | Err e \<Rightarrow> (out, Err e) | Panic \<Rightarrow> (out, Panic))"

definition log_failure :: "instant \<Rightarrow> hub \<times> 'a camera_result \<Rightarrow> hub" where
  "log_failure now r = (case r of (h, Err e) \<Rightarrow> fst (log_frame_error now h) | (h, _) \<Rightarrow> h)"

definition publish_image ::
  "moment \<Rightarrow> nat \<Rightarrow> u32 \<Rightarrow> u32 \<Rightarrow> source_timestamp option \<Rightarrow> nat \<Rightarrow>
     (u8 list \<Rightarrow> 's \<times> (u8 list) camera_result) \<Rightarrow> hub \<Rightarrow> hub \<times> bool camera_result" where
  "publish_image m session width height timestamp sequence convert h =
     publish_rgb_metadata (mo_now m) (mo_failed_at m) (mo_timestamp_ns m) (mo_elapsed m) session
       width height timestamp (Some sequence) (as_convert convert) h"

section \<open>Images that are shown\<close>

definition frame_shown :: "nat \<Rightarrow> u8 list \<Rightarrow> hub \<Rightarrow> hub \<Rightarrow> bool" where
  "frame_shown session bytes h h' \<longleftrightarrow>
     epoch_active session h
     \<and> (\<exists>f. sn_latest (hub_state h') = Some f \<and> cf_key f = \<lparr>fk_session = session, fk_sequence = next_sequence h\<rparr>
          \<and> frame_bytes (hub_heap h') f = bytes)"

text \<open>A conversion that keeps the length of its buffer, does not panic, and computes \<open>bytes\<close> if it
  succeeds, which it does for \<open>good\<close> sources only.\<close>

definition computes :: "nat \<Rightarrow> (u8 list \<Rightarrow> 's \<times> (u8 list) camera_result) \<Rightarrow> bool \<Rightarrow> u8 list \<Rightarrow> bool" where
  "computes n convert good bytes \<longleftrightarrow>
     (\<forall>d. length d = n \<longrightarrow> 0 < n \<longrightarrow> n < usize_bound \<longrightarrow>
        snd (convert d) \<noteq> Panic
        \<and> (\<forall>out. snd (convert d) = Ok out \<longrightarrow> length out = n \<and> good \<and> out = bytes))"

lemma publish_image_shown:
  assumes inv: "hub_inv h" and conv: "computes (unat height * unat width * 3) convert good bytes"
    and p: "publish_image m session width height timestamp sequence convert h = (h', r)"
  shows "hub_step\<^sup>*\<^sup>* h h'" "r \<noteq> Panic" "r = Ok True \<Longrightarrow> good \<and> frame_shown session bytes h h'"
    "r \<noteq> Ok True \<Longrightarrow> live_frames h' = live_frames h"
proof -
  let ?layout = "rgb_layout width height"
  have len: "length d = unat height * unat width * 3" "0 < length d" "length d < usize_bound"
    if "frame_length ?layout True = Ok (length d)" for d :: "u8 list"
    using frame_length_Ok(1,3,4) [OF that] by (simp_all add: rgb_layout_def)
  have sound: "snd (convert d) \<noteq> Panic \<and> (\<forall>out. snd (convert d) = Ok out \<longrightarrow> length out = length d \<and> good \<and> out = bytes)"
    if "frame_length ?layout True = Ok (length d)" for d
    using conv len [OF that] unfolding computes_def by metis
  have "converts ?layout True (as_convert convert)"
    unfolding converts_def
  proof (intro allI impI)
    fix d :: "u8 list"
    assume "frame_length ?layout True = Ok (length d)"
    from sound [OF this] show "length (fst (as_convert convert d)) = length d \<and> snd (as_convert convert d) \<noteq> Panic"
      by (simp add: as_convert_def split: result.split)
  qed
  from publish_published [OF inv publishable_rgb this p [unfolded publish_image_def publish_rgb_metadata_def]]
  have pub: "published session ?layout True (as_convert convert) h h' r" .
  show "hub_step\<^sup>*\<^sup>* h h'" "r \<noteq> Panic" "r \<noteq> Ok True \<Longrightarrow> live_frames h' = live_frames h"
    using pub by (simp_all add: published_def)
  assume "r = Ok True"
  with pub obtain f d where f: "sn_latest (hub_state h') = Some f" "frame_length ?layout True = Ok (length d)"
    "cf_key f = \<lparr>fk_session = session, fk_sequence = next_sequence h\<rparr>"
    "as_convert convert d = (frame_bytes (hub_heap h') f, Ok ())" and active: "epoch_active session h"
    by (auto simp: published_def)
  from sound [OF f(2)] f(4) have "good" "frame_bytes (hub_heap h') f = bytes"
    by (auto simp: as_convert_def split: result.splits)
  with f active show "good \<and> frame_shown session bytes h h'"
    by (simp add: frame_shown_def)
qed

section \<open>Reports\<close>

lemma quiet_log:
  "hub_step\<^sup>*\<^sup>* h (log_failure now (h, r))" "live_frames (log_failure now (h, r)) = live_frames h"
  using core_live [OF core_log_frame_error]
  by (auto simp: log_failure_def split: result.split intro: hub_step.Log_Error)

lemma log_failure_Ok [simp]: "log_failure now (h, Ok b) = h"
  by (simp add: log_failure_def)

lemma log_failure_Err: "log_failure now (h, Err e) = fst (log_frame_error now h)"
  by (simp add: log_failure_def)

text \<open>A frame that is rejected before it is converted is counted and reported.\<close>

lemma quiet_rejection:
  "hub_step\<^sup>*\<^sup>* h (fst (log_frame_error now (record_input_error now' session h)))"
  "live_frames (fst (log_frame_error now (record_input_error now' session h))) = live_frames h"
proof -
  let ?h = "record_input_error now' session h"
  have "hub_step h ?h" "hub_step ?h (fst (log_frame_error now ?h))"
    by (simp_all add: record_input_error_def hub_step.Record_Error hub_step.Log_Error)
  then show "hub_step\<^sup>*\<^sup>* h (fst (log_frame_error now ?h))" by simp
  show "live_frames (fst (log_frame_error now ?h)) = live_frames h"
    using core_live [OF core_log_frame_error [of now ?h]]
      core_live [OF core_record_conversion_error [of now' session True h]]
    by (simp add: record_input_error_def)
qed

text \<open>Publishing and reporting a failure: the image is shown, or nothing changes for the receivers.\<close>

lemma published_or_quiet:
  assumes "hub_inv h" "computes (unat height * unat width * 3) convert good bytes"
    and "publish_image m session width height timestamp sequence convert h = (h1, r)"
  shows "hub_step\<^sup>*\<^sup>* h (log_failure now (h1, r))"
    "live_frames (log_failure now (h1, r)) = live_frames h
      \<or> good \<and> frame_shown session bytes h (log_failure now (h1, r))"
  using publish_image_shown [OF assms] quiet_log [where h = h1 and now = now and r = r]
  by (auto intro: rtranclp_trans) (cases "r = Ok True"; simp)+

end
