(* ===== verification/V4l2_Stream.thy ===== *)
theory V4l2_Stream
  imports V4l2_Modes V4l2_Image Hub_Image
begin

text \<open>
  Streaming of a V4L2 device (\<open>Inner\<close> in \<open>src/backends/v4l2/camera.rs\<close>, \<open>Stream\<close> in
  \<open>native.rs\<close>): the set-up and the loop of the worker thread, and the start, stop and settings of the
  camera.  Calls that reach the kernel or the operating system answer by arguments; so do the clock
  and the JPEG decoder, whose state an iteration takes as it is.  A conversion that fails leaves its
  buffer unpublished; what it wrote there is not modelled.
\<close>

section \<open>Frames of the driver\<close>

record native_frame =
  nf_data :: "u8 list list"
  nf_timestamp_ns :: i64
  nf_planes :: u32
  nf_damaged :: u32
  nf_sequence :: u32
  nf_monotonic :: u32
  nf_timestamp_valid :: u32

record frame_input =
  fin_planes :: "v4l2_plane list"
  fin_timestamp :: "i64 option"
  fin_clock :: clock_domain
  fin_sequence :: nat
  fin_damaged :: bool

text \<open>
  \<open>Stream::next\<close> on the answer of the kernel.  A dequeued buffer goes back to the driver exactly once:
  the third component counts the releases; the answer of the last one is the environment's.
\<close>

datatype stream_failure = StreamOs os_error | StreamCamera camera_error

definition frame_planes :: "native_frame \<Rightarrow> u32 \<times> u32 \<Rightarrow> v4l2_plane list" where
  "frame_planes frame strides =
     map (\<lambda>(d, stride). \<lparr>vp_data = d, vp_stride = unat stride\<rparr>)
       (take (unat (nf_planes frame)) (zip (nf_data frame) [fst strides, snd strides]))"

definition frame_input_of :: "native_frame \<Rightarrow> u32 \<times> u32 \<Rightarrow> frame_input" where
  "frame_input_of frame strides =
     \<lparr>fin_planes = frame_planes frame strides,
      fin_timestamp = (if nf_timestamp_valid frame \<noteq> 0 then Some (nf_timestamp_ns frame) else None),
      fin_clock = (if nf_monotonic frame \<noteq> 0 then HostMonotonic else ClockUnknown),
      fin_sequence = unat (nf_sequence frame), fin_damaged = (nf_damaged frame \<noteq> 0)\<rparr>"

definition stream_next ::
  "(native_frame, os_error) result \<Rightarrow> (unit, os_error) result \<Rightarrow> u32 \<times> u32 \<Rightarrow>
     (frame_input \<Rightarrow> 's \<Rightarrow> 's \<times> unit camera_result) \<Rightarrow> 's \<Rightarrow> 's \<times> (unit, stream_failure) result \<times> nat" where
  "stream_next dequeued released strides consume s =
     (case dequeued of
        Err e \<Rightarrow> (s, Err (StreamOs e), 0)
      | Panic \<Rightarrow> (s, Panic, 0)
      | Ok frame \<Rightarrow>
          if \<not> (1 \<le> nf_planes frame \<and> nf_planes frame \<le> 2)
          then (s, Err (StreamCamera (invalid_frame ''Invalid V4L2 plane count'')), 1)
          else case consume (frame_input_of frame strides) s of
              (s, Panic) \<Rightarrow> (s, Panic, 1)
            | (s, result) \<Rightarrow>
                (case released of
                   Err e \<Rightarrow> (s, Err (StreamOs e), 1)
                 | Panic \<Rightarrow> (s, Panic, 1)
                 | Ok _ \<Rightarrow> (s, map_error StreamCamera result, 1)))"

section \<open>The set-up of the worker\<close>

record 'j v4l2_setup =
  su_format :: v4l2_format
  su_actual :: camera_config
  su_converter :: "'j v4l2_converter"

text \<open>\<open>apply\<close> is \<open>native::configure\<close> with \<open>apply = true\<close>, \<open>began\<close> the answer of \<open>Stream::start\<close>.\<close>

definition worker_setup ::
  "'d v4l2_native \<Rightarrow> 'd \<Rightarrow> (v4l2_format \<Rightarrow> (v4l2_format, os_error) result) \<Rightarrow> (unit, os_error) result \<Rightarrow>
     camera_config \<Rightarrow> ('j v4l2_setup) camera_result" where
  "worker_setup N fd apply_format began config =
     and_then (requested_format N fd config) (\<lambda>format.
     and_then (map_error (startup_error ''V4L2 format/frame interval'') (apply_format format)) (\<lambda>format.
     and_then (config_from_format format) (\<lambda>actual.
     and_then v4l2_converter_new (\<lambda>decoder.
     and_then
       (if cfg_format actual \<in> {YUYV, UYVY, NV12}
        then set_colorimetry (vf_ycbcr format) (vf_full_range format \<noteq> 0) decoder else Ok decoder) (\<lambda>decoder.
     and_then (map_error (startup_error ''V4L2 MMAP/STREAMON'') began) (\<lambda>_.
       Ok \<lparr>su_format = format, su_actual = actual, su_converter = decoder\<rparr>))))))"

section \<open>The loop of the worker\<close>

text \<open>A compressed frame that waits for its buffer to be given back: data, stride, time and number.\<close>

type_synonym deferred = "v4l2_plane \<times> source_timestamp option \<times> nat"

definition publish_converted ::
  "bool \<Rightarrow> 'j jpeg option \<Rightarrow> 'j v4l2_setup \<Rightarrow> moment \<Rightarrow> nat \<Rightarrow> v4l2_plane list \<Rightarrow> source_timestamp option \<Rightarrow> nat \<Rightarrow>
     hub \<Rightarrow> hub \<times> bool camera_result" where
  "publish_converted avx2 jpeg su m session planes timestamp sequence h =
     publish_image m session (cfg_width (su_actual su)) (cfg_height (su_actual su)) timestamp sequence
       (v4l2_convert avx2 jpeg (su_converter su) (su_actual su) planes) h"

definition publish_layout ::
  "'j v4l2_setup \<Rightarrow> moment \<Rightarrow> nat \<Rightarrow> v4l2_plane list \<Rightarrow> source_timestamp option \<Rightarrow> nat \<Rightarrow> hub \<Rightarrow>
     hub \<times> bool camera_result" where
  "publish_layout su m session planes timestamp sequence h =
     (case native_layout (su_actual su) (su_format su) planes of
        Err e \<Rightarrow> (record_input_error (mo_now m) session h, Err e)
      | Panic \<Rightarrow> (h, Panic)
      | Ok layout \<Rightarrow>
          publish_native (mo_now m) (mo_failed_at m) (mo_timestamp_ns m) (mo_elapsed m) session layout
            timestamp (Some sequence) (map vp_data planes) h)"

definition consume_frame ::
  "bool \<Rightarrow> 'j jpeg option \<Rightarrow> 'j v4l2_setup \<Rightarrow> moment \<Rightarrow> bool \<Rightarrow> nat \<Rightarrow> frame_input \<Rightarrow> hub \<times> deferred option \<Rightarrow>
     (hub \<times> deferred option) \<times> unit camera_result" where
  "consume_frame avx2 jpeg su m native_output session input s =
     (let h = fst s;
          timestamp = map_option (\<lambda>ns. \<lparr>ts_nanoseconds = ns, ts_clock = fin_clock input\<rparr>) (fin_timestamp input)
      in if fin_damaged input
         then ((fst (log_frame_error (mo_now m) (record_input_error (mo_now m) session h)), None), Ok ())
         else if \<not> native_output \<and> cfg_format (su_actual su) = MJPEG
         then (case fin_planes input of
                 [] \<Rightarrow> ((h, None), Err buffer_exhausted)
               | plane # _ \<Rightarrow> ((h, Some (plane, timestamp, fin_sequence input)), Ok ()))
         else
           let (h, r) =
             (if native_output
              then publish_layout su m session (fin_planes input) timestamp (fin_sequence input) h
              else publish_converted avx2 jpeg su m session (fin_planes input) timestamp (fin_sequence input) h)
           in case r of
                Panic \<Rightarrow> ((h, None), Panic)
              | _ \<Rightarrow> ((log_failure (mo_now m) (h, r), None), Ok ()))"

datatype verdict = Continue instant | Cancelled | WorkerFailed camera_error | WorkerPanicked

text \<open>The error numbers \<open>ECANCELED\<close>, \<open>EAGAIN\<close> and \<open>ETIMEDOUT\<close> of Linux.\<close>

definition judge :: "instant \<Rightarrow> instant \<Rightarrow> (unit, stream_failure) result \<Rightarrow> verdict" where
  "judge now last_frame r =
     (case r of
        Ok _ \<Rightarrow> Continue now
      | Err (StreamOs e) \<Rightarrow>
          if os_code e = Some 125 then Cancelled
          else if os_code e = Some 11 \<or> os_code e = Some 110
          then if now - last_frame \<ge> from_secs 5
            then WorkerFailed (stream_error ''V4L2 delivered no buffers for 5 seconds'')
            else Continue last_frame
          else WorkerFailed (io_error_from (os_text e))
      | Err (StreamCamera e) \<Rightarrow> WorkerFailed e
      | Panic \<Rightarrow> WorkerPanicked)"

definition worker_iteration ::
  "bool \<Rightarrow> 'j jpeg option \<Rightarrow> 'j v4l2_setup \<Rightarrow> moment \<Rightarrow> bool \<Rightarrow> nat \<Rightarrow> (native_frame, os_error) result \<Rightarrow>
     (unit, os_error) result \<Rightarrow> instant \<Rightarrow> hub \<Rightarrow> hub \<times> verdict \<times> nat" where
  "worker_iteration avx2 jpeg su m native_output session dequeued released last_frame h =
     (case stream_next dequeued released (vf_strides (su_format su))
             (consume_frame avx2 jpeg su m native_output session) (h, None) of
        ((h, waiting), r, releases) \<Rightarrow>
          (case (r, waiting) of
             (Ok _, Some (plane, timestamp, sequence)) \<Rightarrow>
               (case publish_converted avx2 jpeg su m session [plane] timestamp sequence h of
                  (h, Panic) \<Rightarrow> (h, WorkerPanicked, releases)
                | (h, outcome) \<Rightarrow>
                    (log_failure (mo_now m) (h, outcome), judge (mo_now m) last_frame r, releases))
           | _ \<Rightarrow> (h, judge (mo_now m) last_frame r, releases)))"

section \<open>The camera\<close>

record v4l2_camera =
  vin_hub :: hub
  vin_worker :: bool
  vin_wake :: bool
  vin_config :: "camera_config option"
  vin_buffers :: u32

definition v4l2_camera_new :: "hub \<Rightarrow> v4l2_camera" where
  "v4l2_camera_new h =
     \<lparr>vin_hub = h, vin_worker = False, vin_wake = False, vin_config = None, vin_buffers = 4\<rparr>"

text \<open>
  How a worker ends: what it still does to the hub before its guard stops it, when, and its result,
  \<open>None\<close> when it panicked.
\<close>

record worker_exit =
  we_tail :: "hub \<Rightarrow> hub"
  we_at :: instant
  we_result :: "unit camera_result option"

definition worker_leaves :: "worker_exit \<Rightarrow> hub \<Rightarrow> hub" where
  "worker_leaves ex h = hub_stop (we_at ex) (we_tail ex h)"

definition stop_locked :: "instant \<Rightarrow> worker_exit \<Rightarrow> v4l2_camera \<Rightarrow> v4l2_camera \<times> unit camera_result" where
  "stop_locked now ex self =
     (let self = self\<lparr>vin_hub := hub_stop now (vin_hub self), vin_wake := False, vin_config := None\<rparr>
      in if vin_worker self
         then (self\<lparr>vin_worker := False, vin_hub := worker_leaves ex (vin_hub self)\<rparr>,
               and_then (ok_or (we_result ex) (stream_error ''V4L2 capture worker panicked'')) (\<lambda>r. r))
         else (self, Ok ()))"

text \<open>What the operating system answers to a start: the socket pair, the thread, the set-up.\<close>

record start_world =
  sw_pair :: "(unit, os_error) result"
  sw_spawn :: "(unit, os_error) result"
  sw_previous :: worker_exit
  sw_exit :: worker_exit

definition v4l2_start ::
  "instant \<Rightarrow> start_world \<Rightarrow> ('j v4l2_setup) camera_result option \<Rightarrow> camera_config \<Rightarrow> v4l2_camera \<Rightarrow>
     v4l2_camera \<times> unit camera_result" where
  "v4l2_start now W response config self =
     (case and_then (config_validate config) (\<lambda>_. to_fourcc (cfg_format config)) of
        Err e \<Rightarrow> (self, Err e)
      | Panic \<Rightarrow> (self, Panic)
      | Ok _ \<Rightarrow>
          if is_streaming (vin_hub self)
          then (self, if vin_config self = Some config then Ok ()
                else Err (stream_error ''Stop the V4L2 stream before changing configuration''))
          else
            let self = fst (stop_locked now (sw_previous W) self)
            in case from_os (sw_pair W) of
                 Err e \<Rightarrow> (self, Err e)
               | Panic \<Rightarrow> (self, Panic)
               | Ok _ \<Rightarrow>
                   let self = self\<lparr>vin_hub := fst (hub_start now (vin_hub self))\<rparr>
                   in case from_os (sw_spawn W) of
                        Err e \<Rightarrow> (self\<lparr>vin_hub := hub_stop now (vin_hub self)\<rparr>, Err e)
                      | Panic \<Rightarrow> (self, Panic)
                      | Ok _ \<Rightarrow>
                          let self = self\<lparr>vin_worker := True, vin_wake := True\<rparr>
                          in case response of
                               Some (Ok su) \<Rightarrow> (self\<lparr>vin_config := Some (su_actual su)\<rparr>, Ok ())
                             | _ \<Rightarrow> (fst (stop_locked now (sw_exit W) self),
                                 Err (case response of Some (Err e) \<Rightarrow> e
                                   | _ \<Rightarrow> stream_error ''V4L2 worker exited during startup'')))"

definition v4l2_get_config :: "v4l2_camera \<Rightarrow> camera_config option" where
  "v4l2_get_config self = (if is_streaming (vin_hub self) then vin_config self else None)"

definition v4l2_set_buffer_size :: "usize \<Rightarrow> v4l2_camera \<Rightarrow> v4l2_camera \<times> unit camera_result" where
  "v4l2_set_buffer_size n self =
     (if \<not> (2 \<le> n \<and> n \<le> 32)
      then (self, Err (invalid_config ''V4L2 buffer count must be between 2 and 32''))
      else if is_streaming (vin_hub self)
      then (self, Err (stream_error ''Stop V4L2 before changing buffer count''))
      else (self\<lparr>vin_buffers := of_nat n\<rparr>, Ok ()))"

end
