(* ===== verification/V4l2_Worker.thy ===== *)
theory V4l2_Worker
  imports V4l2_Stream Hub_Example
begin

text \<open>
  Properties of a streaming V4L2 camera: what an iteration of its worker publishes, and what start and
  stop leave behind.
\<close>

section \<open>One frame\<close>

lemma frame_planes_bound:
  assumes "list_all (\<lambda>d. length d < usize_bound) (nf_data frame)"
  shows "\<forall>p \<in> set (frame_planes frame strides). length (vp_data p) < usize_bound"
proof
  fix p
  assume "p \<in> set (frame_planes frame strides)"
  then obtain d stride where "(d, stride) \<in> set (zip (nf_data frame) [fst strides, snd strides])" "vp_data p = d"
    unfolding frame_planes_def by (auto dest!: in_set_takeD)
  then show "length (vp_data p) < usize_bound"
    using assms by (auto simp: list_all_iff dest: set_zip_leftD)
qed

text \<open>The image of raw planes, and what it means that a step of the hub shows it.\<close>

definition raw_image :: "'j v4l2_setup \<Rightarrow> v4l2_plane list \<Rightarrow> u8 list" where
  "raw_image su planes =
     (let w = unat (cfg_width (su_actual su)); h = unat (cfg_height (su_actual su))
      in parts (v4l2_pixel (cfg_format (su_actual su)) (vc_coefficients (su_converter su)) w h planes) (w * h))"

definition shows_image :: "'j v4l2_setup \<Rightarrow> nat \<Rightarrow> v4l2_plane list \<Rightarrow> hub \<Rightarrow> hub \<Rightarrow> bool" where
  "shows_image su session planes h h' \<longleftrightarrow>
     v4l2_fits (cfg_format (su_actual su)) (unat (cfg_width (su_actual su))) (unat (cfg_height (su_actual su))) planes
     \<and> frame_shown session (raw_image su planes) h h'"

lemma stream_computes:
  fixes avx2 :: bool and jpeg :: "'j jpeg option" and su :: "'j v4l2_setup"
  assumes "\<forall>p \<in> set planes. length (vp_data p) < usize_bound" "cfg_format (su_actual su) \<noteq> MJPEG"
  shows "computes (unat (cfg_height (su_actual su)) * unat (cfg_width (su_actual su)) * 3)
    (v4l2_convert avx2 jpeg (su_converter su) (su_actual su) planes)
    (v4l2_fits (cfg_format (su_actual su)) (unat (cfg_width (su_actual su))) (unat (cfg_height (su_actual su))) planes)
    (raw_image su planes)"
  unfolding computes_def
proof (intro allI impI conjI)
  fix d :: "u8 list"
  let ?x = "(jpeg, su_converter su, su_actual su, planes)"
  assume d: "length d = unat (cfg_height (su_actual su)) * unat (cfg_width (su_actual su)) * 3"
    "unat (cfg_height (su_actual su)) * unat (cfg_width (su_actual su)) * 3 < usize_bound"
  then have bound: "length d < usize_bound" by simp
  have ok: "raw_ok ?x" using assms by (simp add: raw_ok_def)
  have whole: "length d = 3 * raw_pixels ?x" using d(1) by (simp add: raw_pixels_def)
  show "snd (v4l2_convert avx2 jpeg (su_converter su) (su_actual su) planes d) \<noteq> Panic"
    using raw.never_panics [OF ok bound, of avx2] by simp
  fix rgb
  assume out: "snd (v4l2_convert avx2 jpeg (su_converter su) (su_actual su) planes d) = Ok rgb"
  have "filled (raw_pixel ?x) (raw_pixels ?x) d = raw_image su planes"
    by (simp add: filled_def raw.image_length whole) (simp add: raw_image_def raw_pixel_def raw_pixels_def Let_def)
  with raw.converted [OF ok bound, of avx2 rgb] out
  show "rgb = raw_image su planes"
    "v4l2_fits (cfg_format (su_actual su)) (unat (cfg_width (su_actual su))) (unat (cfg_height (su_actual su))) planes"
    by (simp_all add: raw_accepts_def)
  show "length rgb = unat (cfg_height (su_actual su)) * unat (cfg_width (su_actual su)) * 3"
    using raw.keeps_length [OF ok bound, of avx2 rgb] out d(1) by simp
qed

lemma consume_frame_raw:
  assumes inv: "hub_inv h" and planes: "\<forall>p \<in> set (fin_planes input). length (vp_data p) < usize_bound"
    and format: "cfg_format (su_actual su) \<noteq> MJPEG"
  obtains h' where "consume_frame avx2 jpeg su m False session input (h, None) = ((h', None), Ok ())"
    "hub_step\<^sup>*\<^sup>* h h'"
    "live_frames h' = live_frames h \<or> \<not> fin_damaged input \<and> shows_image su session (fin_planes input) h h'"
proof (cases "fin_damaged input")
  case True
  then show ?thesis
    using quiet_rejection [where h = h and now = "mo_now m" and now' = "mo_now m" and session = session]
    by (intro that [of "fst (log_frame_error (mo_now m) (record_input_error (mo_now m) session h))"])
      (auto simp: consume_frame_def Let_def)
next
  case False
  let ?ts = "map_option (\<lambda>ns. \<lparr>ts_nanoseconds = ns, ts_clock = fin_clock input\<rparr>) (fin_timestamp input)"
  obtain h1 r where p: "publish_converted avx2 jpeg su m session (fin_planes input) ?ts (fin_sequence input) h = (h1, r)"
    by fastforce
  note computes = stream_computes [OF planes format, of avx2 jpeg]
  note shown = publish_image_shown [OF inv computes p [unfolded publish_converted_def]]
  have "consume_frame avx2 jpeg su m False session input (h, None) = ((log_failure (mo_now m) (h1, r), None), Ok ())"
    using False format p shown(2) by (auto simp: consume_frame_def Let_def split: result.split)
  then show ?thesis
    using published_or_quiet [OF inv computes p [unfolded publish_converted_def], of "mo_now m"] False
    by (intro that) (auto simp: shows_image_def)
qed


text \<open>A 2x1 grey stream on the started hub of the example, and a buffer with its row.\<close>

definition sample_setup :: "unit v4l2_setup" where
  "sample_setup = \<lparr>su_format = v4l2_format_default, su_actual = camera_config_new Gray 2 1 30,
     su_converter = \<lparr>vc_jpeg = None, vc_coefficients = BT601_FULL_COEFFICIENTS\<rparr>\<rparr>"

definition sample_frame :: native_frame where
  "sample_frame = \<lparr>nf_data = [[9, 8], []], nf_timestamp_ns = 0, nf_planes = 1, nf_damaged = 0, nf_sequence = 3,
     nf_monotonic = 1, nf_timestamp_valid = 0\<rparr>"


section \<open>Starting and stopping\<close>

text \<open>A camera streams only while its worker and its configuration are known; the waker is the worker's.\<close>

definition camera_ok :: "v4l2_camera \<Rightarrow> bool" where
  "camera_ok self \<longleftrightarrow> (is_streaming (vin_hub self) \<longrightarrow> vin_worker self \<and> vin_config self \<noteq> None)
     \<and> (vin_wake self \<longrightarrow> vin_worker self)"

definition camera_idle :: "v4l2_camera \<Rightarrow> bool" where
  "camera_idle self \<longleftrightarrow> \<not> is_streaming (vin_hub self) \<and> \<not> vin_worker self \<and> \<not> vin_wake self
     \<and> vin_config self = None"

lemma streaming_hub_stop [simp]: "\<not> is_streaming (hub_stop now h)"
  by (simp add: hub_stop_def is_streaming_def wake_recovery_def deactivate_def clear_queues_def mark_stopped_def)

lemma streaming_hub_start [simp]: "is_streaming (fst (hub_start now h))"
  by (simp add: hub_start_def is_streaming_def start_snapshot_def)

lemma stop_locked_idle: "camera_ok self \<Longrightarrow> camera_idle (fst (stop_locked now ex self))"
  by (auto simp: stop_locked_def camera_idle_def camera_ok_def worker_leaves_def Let_def)

lemma idle_ok: "camera_idle self \<Longrightarrow> camera_ok self"
  by (simp add: camera_idle_def camera_ok_def)

lemma start_checks_not_Panic: "and_then (config_validate config) (\<lambda>_. to_fourcc (cfg_format config)) \<noteq> Panic"
  by (auto simp: config_validate_def to_fourcc_def split: video_format.split)

text \<open>C21: Starting a V4L2 camera is all or nothing.  A start that answers \<open>Ok\<close> leaves a streaming camera
  with a worker: the one it found, untouched, if it was already streaming exactly this configuration,
  and otherwise one whose set-up succeeded, with the configuration the driver settled on.  A start that
  fails changed nothing or leaves the camera idle: no stream, no worker, no configuration.  A stop
  always leaves it idle, whatever its worker answered.\<close>

theorem v4l2_start_all_or_nothing:
  assumes "camera_ok self" "sw_pair W \<noteq> Panic" "sw_spawn W \<noteq> Panic"
    and "v4l2_start now W response config self = (self', r)"
  shows "camera_ok self' \<and> r \<noteq> Panic
    \<and> (r = Ok () \<longrightarrow> is_streaming (vin_hub self') \<and> vin_worker self'
        \<and> (if is_streaming (vin_hub self) then self' = self \<and> vin_config self = Some config
           else \<exists>su. response = Some (Ok su) \<and> v4l2_get_config self' = Some (su_actual su)))
    \<and> (r \<noteq> Ok () \<longrightarrow> self' = self \<or> camera_idle self')
    \<and> camera_idle (fst (stop_locked later ex self'))"
proof (cases "and_then (config_validate config) (\<lambda>_. to_fourcc (cfg_format config))")
  case (Ok code)
  show ?thesis
  proof (cases "is_streaming (vin_hub self)")
    case True
    with assms(1,4) Ok show ?thesis by (auto simp: v4l2_start_def camera_ok_def stop_locked_idle split: if_splits)
  next
    case False
    let ?idle = "fst (stop_locked now (sw_previous W) self)"
    have idle: "camera_idle ?idle" by (rule stop_locked_idle [OF assms(1)])
    let ?on = "?idle\<lparr>vin_hub := fst (hub_start now (vin_hub ?idle)), vin_worker := True, vin_wake := True\<rparr>"
    have off: "camera_idle (fst (stop_locked now (sw_exit W) ?on))"
      by (simp add: stop_locked_def camera_idle_def worker_leaves_def Let_def)
    have stopped: "camera_idle (?idle\<lparr>vin_hub := hub_stop now h\<rparr>)" for h
      using idle by (simp add: camera_idle_def)
    have on: "camera_ok (?on\<lparr>vin_config := Some c\<rparr>)" for c by (simp add: camera_ok_def)
    consider e where "sw_pair W = Err e" | u e where "sw_pair W = Ok u" "sw_spawn W = Err e"
      | u u' su where "sw_pair W = Ok u" "sw_spawn W = Ok u'" "response = Some (Ok su)"
      | u u' where "sw_pair W = Ok u" "sw_spawn W = Ok u'" "\<not> (\<exists>su. response = Some (Ok su))"
      using assms(2,3) by (cases "sw_pair W"; cases "sw_spawn W") auto
    then show ?thesis
    proof cases
      case 1
      with assms(4) Ok False idle show ?thesis
        by (auto simp: v4l2_start_def Let_def from_os_def idle_ok stop_locked_idle)
    next
      case 2
      with assms(4) Ok False stopped [of "fst (hub_start now (vin_hub ?idle))"] show ?thesis
        by (auto simp: v4l2_start_def Let_def from_os_def idle_ok stop_locked_idle)
    next
      case 3
      with assms(4) Ok False on [of "su_actual su"] show ?thesis
        by (auto simp: v4l2_start_def v4l2_get_config_def Let_def from_os_def stop_locked_idle)
    next
      case 4
      with assms(4) Ok False off show ?thesis
        by (auto simp: v4l2_start_def Let_def from_os_def idle_ok stop_locked_idle split: option.splits result.splits)
    qed
  qed
qed (use assms(1,4) start_checks_not_Panic in \<open>auto simp: v4l2_start_def stop_locked_idle\<close>)

definition sample_exit :: worker_exit where
  "sample_exit = \<lparr>we_tail = (\<lambda>h. h), we_at = 3, we_result = None\<rparr>"

lemma v4l2_start_all_or_nothing_witness:
  "camera_idle (fst (v4l2_start 1
     \<lparr>sw_pair = Ok (), sw_spawn = Ok (), sw_previous = sample_exit, sw_exit = sample_exit\<rparr>
     (None :: (unit v4l2_setup) camera_result option) (camera_config_new Gray 2 1 30) (v4l2_camera_new (hub_new 1 4))))"
proof -
  let ?W = "\<lparr>sw_pair = Ok (), sw_spawn = Ok (), sw_previous = sample_exit, sw_exit = sample_exit\<rparr>"
  let ?self = "v4l2_camera_new (hub_new 1 4)"
  obtain self' r where r: "v4l2_start 1 ?W (None :: (unit v4l2_setup) camera_result option)
      (camera_config_new Gray 2 1 30) ?self = (self', r)"
    by fastforce
  have "camera_ok ?self" "camera_idle ?self"
    by (simp_all add: camera_ok_def camera_idle_def v4l2_camera_new_def hub_new_def is_streaming_def snapshot_default_def)
  from v4l2_start_all_or_nothing [OF this(1) _ _ r] this(2) r show ?thesis by (auto simp: camera_idle_def)
qed

end
