(* ===== verification/Spec2Isabelle.thy ===== *)
theory Spec2Isabelle
  imports Hub_Properties Color_Properties Session_Properties Conversion_Properties V4l2_Image V4l2_Exact V4l2_Controls
    Selection_Properties Limiter Device_Watch Mf V4l2_Worker
begin

text \<open>
  A verification library of camera-rs, a crate that captures video on several platforms behind one
  interface.  This theory imports all others; each theory opens with what it holds.

  The program and its parts.  An application builds a \<open>CameraSystem\<close>, which selects a backend and a
  device (\<open>src/api.rs\<close>, \<open>src/contract.rs\<close>).  Opening the device gives a \<open>Camera\<close> with a source: a
  native driver, a device of the application, or a synthetic one.  Its start ranks the
  configurations of the device against the request, tries them in turn and returns a
  \<open>CaptureSession\<close>, whose tasks stop the capture, hand the device back, and recover from a source
  that stalls.  The driver (\<open>src/backends/\<close>) converts what it captures (\<open>src/conversion.rs\<close>,
  \<open>src/utils/color_convert.rs\<close>, \<open>src/mjpeg.rs\<close>) into buffers of a \<open>FrameHub\<close> (\<open>src/frame.rs\<close>), which
  pools them, publishes immutable frames, and queues them for the receivers of the application.

  Theories, by the files they model.

  \<^item> Foundations.  Prelude (results with a branch for errors and one for panics, checked arithmetic,
    slices), Strings, Buffers (loops that fill a buffer from the front), Pixels, and Interfaces: the
    locale of a state machine with an inductive invariant and that of a bounded queue.  They are
    interpreted on the hub (Hub_Machine, Hub_Invariant) and on the sessions (Session_Machine,
    Session_Shutdown, Session_States); every property of reachable states rests on these
    interpretations.
  \<^item> Errors and identifiers.  Errors (\<open>error.rs\<close>), Identity (\<open>contract.rs\<close>).
  \<^item> Data.  Frame_Rate, Layout (\<open>format.rs\<close>), Video_Types, Control_Names (\<open>types.rs\<close>), Request
    (\<open>format.rs\<close>, \<open>contract.rs\<close>), Capabilities (\<open>contract.rs\<close>).  A struct is a record, an enum a
    datatype, each with its validation and builders.
  \<^item> The frame hub.  Frames holds its state, Frame_Hub the operations of \<open>FrameHub\<close>, \<open>Lease\<close>,
    \<open>NativeWriteLease\<close> and \<open>FrameReceiver\<close>.  Hub_Machine is the step relation \<open>hub_step\<close>, one rule
    per critical section, so that its runs are the interleavings of all threads that share a hub;
    Hub_Invariant, Hub_Steps and Hub_Publish prove its invariant, Hub_Producers that the composed
    entry points are runs, Hub_Properties the consequences, and Hub_Example has a concrete run.
  \<^item> Colour conversion.  Yuv is the scalar pixel formula on 32-bit words, Simd the vector intrinsics
    on lists of lanes, Avx2, Avx2_Rows and Avx2_Packed the kernels instruction by instruction.
    Color_Rows, Color_Yuv, Color_Nv12, Color_Half, Color_Yuv422, Color_Converter and Color_8888 are
    the public functions; Color_Properties states that each writes the reference image of its
    pixels, with the vector instructions or without.  Color_Contract is the contract that clients
    rely on, as a locale, with an interpretation for each function and, in V4l2_Image, for the
    converter of a V4L2 stream: no panic, nothing written behind the image, and no byte left of
    what a pooled buffer held before.
  \<^item> Frame conversion.  Mjpeg (\<open>mjpeg.rs\<close>) and Conversion (\<open>conversion.rs\<close>).  Conversion_Exact defines
    the reference, the nearest pixel of the source; Conversion_Paths and Conversion_Scaled prove
    that the half-size, the same-size, the row-wise and the pixel-wise path all compute it, and
    Conversion_Properties has the contract.
  \<^item> Choosing and starting.  Backends (\<open>backends/mod.rs\<close>), Negotiate and Source (\<open>api.rs\<close>,
    \<open>extension.rs\<close>), Controls (\<open>controls.rs\<close>), Selection and Device_Start (\<open>CameraSystem\<close>, \<open>Camera\<close>
    and \<open>CaptureBuilder\<close> in \<open>api.rs\<close>) with Selection_Properties, and Device_Watch (\<open>device_watch.rs\<close>).
  \<^item> Sessions.  Session is the shared state of \<open>SessionInner\<close> and its atomic segments,
    Session_Machine the step relation of its tasks (stop, start, the caller of start, recovery).
    Session_Shutdown, Session_States and Session_Properties show mutual exclusion, shutting down,
    the published states, the attempts, and that a session refines both the hub machine and the
    specification of its life; Session_Example has runs.
  \<^item> Drivers.  V4l2_Convert, V4l2_Modes, V4l2_Controls and V4l2_Stream (\<open>backends/v4l2/\<close>) with
    V4l2_Image, V4l2_Exact and V4l2_Worker; Mf (\<open>backends/mf/\<close>: colour, formats, controls).
    Limiter is \<open>utils/frame_rate.rs\<close>.

  How the code is read.

  \<^item> Integers of a fixed width are words, and wrap where the release build wraps.  \<open>usize\<close> is a
    natural number with the overflow at \<open>usize_bound\<close>, 2 to the 64, written out.  Counters of 64
    bits that only ever grow by one are natural numbers.
  \<^item> A computation that can fail answers \<open>Ok\<close>, \<open>Err\<close> or \<open>Panic\<close>.  An index or slice out of range,
    \<open>unwrap\<close> of nothing are \<open>Panic\<close>; that it does not occur is a theorem wherever it is
    claimed.
  \<^item> Shared buffers live in an explicit heap, since the properties of the pool depend on who shares
    what.  \<open>Arc::get_mut\<close> succeeds when no live frame has the location.
  \<^item> Coefficients of colour matrices, computed in \<open>f64\<close> by the code, are exact rationals before they
    are rounded to integers; frame rates, distances and their printing are correctly rounded
    64-bit floating point on pairs of a significand and an exponent.
  \<^item> The target is x86-64, with the answers of the feature detection as arguments that the theorems
    quantify over.
  \<^item> What is not in \<open>src/\<close> is an argument: the operating system and its drivers (the ioctls behind
    V4L2, the COM interfaces of Media Foundation), the devices and providers of the application, the
    turbojpeg decoder, clocks.  Where a property relies on their behaviour it says so in a named
    hypothesis, such as \<open>independent_controls\<close>, and its witness has an instance.
  \<^item> Waiting, time and the scheduler are choices of the next step.  A step of a session is one atomic
    segment: one access to a flag or a channel, one call of the source or the hub.  The orderings
    of the atomics are taken as sequentially consistent.

  Bounds.  The functions are total; the loops that are not structural have the measures \<open>rows - index\<close>
  (\<open>scale_yuv_rows\<close>), \<open>n - i\<close> (the vector loop of the converter) and the second operand of the
  Euclidean loop.  No function needs fuel.  A session that is stopping makes at most \<open>total_left\<close>
  more steps (Session_Shutdown), the sum of what each task has left, which every step decreases.

  Not modelled, and why.  The NEON kernels: alternatives for another processor, selected at compile
  time.  The UVC, AVFoundation and Camera2 drivers, the capture and enumeration of Media Foundation,
  and the crate camera-android: calls across foreign interfaces around the hub and the conversions,
  which are modelled.  The C and C++ bridges and the bundled libuvc and libusb: other languages or
  third parties.  Blocking wrappers, descriptor ownership, logging, examples, tests and build scripts.
  The bytes a failed conversion leaves in its buffer, which is not published.

  What modelling showed.  A session can show itself stopping for ever, and lose a failure, when two
  calls of close meet (Session_Example); a start that is given up can hand the device back while
  another session uses it (Session_Example); a sink of an earlier session stops the current one
  (Source); a V4L2 device that advertises NM12 alone lists configurations it refuses (V4l2_Exact); a
  synthetic plan may select a format its start refuses (Selection_Properties); the automatic modes of
  exposure, focus and white balance are refused on AVFoundation (Controls); equal candidates survive
  the ranking (Negotiate); and the label of a conversion path can be wrong (Conversion_Properties).
\<close>

end
